(* ===== verification/Prelude.thy ===== *)
theory Prelude
  imports Main "HOL-Library.List_Lexorder" "HOL-Library.Char_ord" "HOL-Library.Word"
begin

text \<open>
  Shared vocabulary of the development.  Rust's \<open>String\<close> is its UTF-8 byte sequence: the type
  \<open>string\<close> (a list of 8-bit characters), so \<open>length\<close> is \<open>String::len\<close> and the order of
  \<open>List_Lexorder\<close> over \<open>Char_ord\<close> is the order of \<open>str\<close>.  A \<open>BTreeMap\<close> is an association list that
  its operations keep sorted by key and free of duplicates, a \<open>BTreeSet\<close> a sorted list without
  duplicates; iterating them is iterating the list.  A 64-bit counter that the code adds with
  \<open>saturating_add\<close> is a \<open>64 word\<close>.
\<close>

named_theorems btree_simps \<open>lookups after an operation on an ordered map\<close>
named_theorems str_simps \<open>facts on the string helpers\<close>

section \<open>Strings\<close>

definition starts_with :: "string \<Rightarrow> string \<Rightarrow> bool" where
  "starts_with s p \<longleftrightarrow> take (length p) s = p"

definition ends_with :: "string \<Rightarrow> string \<Rightarrow> bool" where
  "ends_with s p \<longleftrightarrow> starts_with (rev s) (rev p)"

fun contains_str :: "string \<Rightarrow> string \<Rightarrow> bool" where
  "contains_str [] p = (p = [])"
| "contains_str (c # s) p = (starts_with (c # s) p \<or> contains_str s p)"

definition strip_prefix :: "string \<Rightarrow> string \<Rightarrow> string option" where
  "strip_prefix p s = (if starts_with s p then Some (drop (length p) s) else None)"

fun join :: "string \<Rightarrow> string list \<Rightarrow> string" where
  "join sep [] = []"
| "join sep [s] = s"
| "join sep (s # t # ts) = s @ sep @ join sep (t # ts)"

definition ascii_lower_char :: "char \<Rightarrow> char" where
  "ascii_lower_char c =
     (let n = (of_char c :: nat) in if 65 \<le> n \<and> n \<le> 90 then char_of (n + 32) else c)"

definition to_ascii_lowercase :: "string \<Rightarrow> string" where
  "to_ascii_lowercase s = map ascii_lower_char s"

definition is_ascii_alphanumeric :: "char \<Rightarrow> bool" where
  "is_ascii_alphanumeric c =
     (let n = (of_char c :: nat)
      in (48 \<le> n \<and> n \<le> 57) \<or> (65 \<le> n \<and> n \<le> 90) \<or> (97 \<le> n \<and> n \<le> 122))"

text \<open>\<open>str::chars().count()\<close>: the bytes that are not UTF-8 continuation bytes.\<close>

definition char_count :: "string \<Rightarrow> nat" where
  "char_count s = length (filter (\<lambda>c. \<not> (128 \<le> (of_char c :: nat) \<and> (of_char c :: nat) < 192)) s)"

text \<open>Decimal formatting of an unsigned integer (\<open>format!("{}", n)\<close>).\<close>

fun nat_str :: "nat \<Rightarrow> string" where
  "nat_str n = (if n < 10 then [char_of (48 + n)] else nat_str (n div 10) @ [char_of (48 + n mod 10)])"

declare nat_str.simps [simp del]

text \<open>
  The UTF-8 sequences of the characters with the Unicode property \<open>White_Space\<close>, which
  \<open>str::trim\<close> removes from both ends.
\<close>

definition white_space :: "string list" where
  "white_space =
     [[CHR 0x09], [CHR 0x0A], [CHR 0x0B], [CHR 0x0C], [CHR 0x0D], [CHR 0x20],
      [CHR 0xC2, CHR 0x85], [CHR 0xC2, CHR 0xA0], [CHR 0xE1, CHR 0x9A, CHR 0x80],
      [CHR 0xE2, CHR 0x80, CHR 0x80], [CHR 0xE2, CHR 0x80, CHR 0x81], [CHR 0xE2, CHR 0x80, CHR 0x82],
      [CHR 0xE2, CHR 0x80, CHR 0x83], [CHR 0xE2, CHR 0x80, CHR 0x84], [CHR 0xE2, CHR 0x80, CHR 0x85],
      [CHR 0xE2, CHR 0x80, CHR 0x86], [CHR 0xE2, CHR 0x80, CHR 0x87], [CHR 0xE2, CHR 0x80, CHR 0x88],
      [CHR 0xE2, CHR 0x80, CHR 0x89], [CHR 0xE2, CHR 0x80, CHR 0x8A], [CHR 0xE2, CHR 0x80, CHR 0xA8],
      [CHR 0xE2, CHR 0x80, CHR 0xA9], [CHR 0xE2, CHR 0x80, CHR 0xAF], [CHR 0xE2, CHR 0x81, CHR 0x9F],
      [CHR 0xE3, CHR 0x80, CHR 0x80]]"

function strip_seqs :: "string list \<Rightarrow> string \<Rightarrow> string" where
  "strip_seqs ws s =
     (case find (\<lambda>w. w \<noteq> [] \<and> starts_with s w) ws of
        None \<Rightarrow> s
      | Some w \<Rightarrow> strip_seqs ws (drop (length w) s))"
  by pat_completeness auto
termination
proof (relation "measure (\<lambda>(ws, s). length s)", simp)
  fix ws :: "string list" and s w :: string
  assume "find (\<lambda>w. w \<noteq> [] \<and> starts_with s w) ws = Some w"
  then have "w \<noteq> []" and "starts_with s w" by (auto simp: find_Some_iff)
  then have "length w \<le> length s" and "0 < length w"
    by (auto simp: starts_with_def) (metis length_take min.cobounded1 min_def)
  then have "length s - length w < length s" by linarith
  then show "((ws, drop (length w) s), (ws, s)) \<in> measure (\<lambda>(ws, s). length s)" by simp
qed

declare strip_seqs.simps [simp del]

definition trim_start :: "string \<Rightarrow> string" where
  "trim_start s = strip_seqs white_space s"

definition trim_end :: "string \<Rightarrow> string" where
  "trim_end s = rev (strip_seqs (map rev white_space) (rev s))"

definition trim :: "string \<Rightarrow> string" where
  "trim s = trim_end (trim_start s)"

text \<open>
  \<open>str::lines\<close>: the pieces between line feeds, without the empty piece after a final one; a
  carriage return goes only with the line feed that follows it.
\<close>

definition strip_cr :: "string \<Rightarrow> string" where
  "strip_cr l = (if l \<noteq> [] \<and> last l = CHR 0x0D then butlast l else l)"

fun lines_aux :: "string \<Rightarrow> string \<Rightarrow> string list" where
  "lines_aux cur [] = (if cur = [] then [] else [rev cur])"
| "lines_aux cur (c # s) =
     (if c = CHR 0x0A then strip_cr (rev cur) # lines_aux [] s else lines_aux (c # cur) s)"

definition lines :: "string \<Rightarrow> string list" where
  "lines s = lines_aux [] s"

lemma lines_aux_append: "lines_aux cur (a @ CHR 0x0A # b) = lines_aux cur (a @ [CHR 0x0A]) @ lines_aux [] b"
  by (induction a arbitrary: cur) auto

lemma lines_aux_line: "CHR 0x0A \<notin> set a \<Longrightarrow> lines_aux cur (a @ [CHR 0x0A]) = [strip_cr (rev cur @ a)]"
  by (induction a arbitrary: cur) (auto simp: strip_cr_def)

text \<open>A whole line appended to whole lines is one more line.\<close>

lemma lines_snoc:
  assumes "s = [] \<or> last s = CHR 0x0A" and "CHR 0x0A \<notin> set l" and "l = [] \<or> last l \<noteq> CHR 0x0D"
  shows "lines (s @ l @ [CHR 0x0A]) = lines s @ [l]"
proof -
  have l: "lines_aux [] (l @ [CHR 0x0A]) = [l]" using assms(2,3) by (auto simp: lines_aux_line strip_cr_def)
  show ?thesis
  proof (cases "s = []")
    case False
    then obtain a where "s = a @ [CHR 0x0A]" using assms(1) by (metis append_butlast_last_id)
    then show ?thesis using lines_aux_append [of "[]" a "l @ [CHR 0x0A]"] l by (simp add: lines_def)
  qed (use l in \<open>simp add: lines_def\<close>)
qed


lemma starts_with_iff: "starts_with s p \<longleftrightarrow> (\<exists>t. s = p @ t)"
  unfolding starts_with_def by (metis append_eq_conv_conj append_take_drop_id)

lemma starts_with_append [str_simps]: "starts_with (p @ t) p"
  by (simp add: starts_with_def)

lemma ends_with_iff: "ends_with s p \<longleftrightarrow> (\<exists>t. s = t @ p)"
  unfolding ends_with_def starts_with_iff by (metis rev_append rev_rev_ident)

lemma contains_str_iff: "contains_str s p \<longleftrightarrow> (\<exists>a b. s = a @ p @ b)"
proof (induction s)
  case Nil
  show ?case by simp
next
  case (Cons c s)
  show ?case
  proof
    assume "contains_str (c # s) p"
    with Cons show "\<exists>a b. c # s = a @ p @ b"
      by (metis append_Cons append_Nil contains_str.simps(2) starts_with_iff)
  next
    assume "\<exists>a b. c # s = a @ p @ b"
    then obtain a b where "c # s = a @ p @ b" by blast
    then have "starts_with (c # s) p \<or> (\<exists>a b. s = a @ p @ b)"
      by (cases a) (auto simp: starts_with_iff)
    with Cons show "contains_str (c # s) p" by simp
  qed
qed

lemma strip_prefix_Some: "strip_prefix p s = Some t \<longleftrightarrow> s = p @ t"
  by (auto simp: strip_prefix_def starts_with_iff)

lemma nat_str_nonempty: "nat_str n \<noteq> []"
  by (subst nat_str.simps) simp

section \<open>Saturating 64-bit counters\<close>

type_synonym u64 = "64 word"

definition sat_add :: "u64 \<Rightarrow> u64 \<Rightarrow> u64" where
  "sat_add a b = (let c = a + b in if c < a then - 1 else c)"

lemma unat_u64_less: "unat (a :: u64) < 2 ^ 64"
  using unsigned_less [of a, where ?'a = nat] by simp

lemma sat_add_iff: "sat_add a b = (if unat a + unat b < 2 ^ 64 then a + b else - 1)"
  using no_olen_add_nat [of a b] by (auto simp: sat_add_def Let_def not_le)

lemma unat_sat_add: "unat (sat_add a b) = min (2 ^ 64 - 1) (unat a + unat b)"
proof (cases "unat a + unat b < 2 ^ 64")
  case True
  then show ?thesis by (simp add: sat_add_iff unat_word_ariths)
next
  case False
  then show ?thesis by (simp add: sat_add_iff unsigned_minus_1_eq_mask mask_eq_exp_minus_1)
qed

text \<open>Unlike \<open>wrapping_add\<close>, \<open>saturating_add\<close> keeps sums independent of their order.\<close>

interpretation sat: comm_monoid sat_add 0
proof
  fix a b c :: u64
  have "unat (sat_add (sat_add a b) c) = unat (sat_add a (sat_add b c))"
    by (simp add: unat_sat_add)
  then show "sat_add (sat_add a b) c = sat_add a (sat_add b c)" by (simp add: word_unat_eq_iff)
  show "sat_add a b = sat_add b a" by (simp add: sat_add_iff add.commute)
  have "unat (sat_add a 0) = unat a"
    using unat_u64_less [of a] by (simp add: unat_sat_add)
  then show "sat_add a 0 = a" by (simp add: word_unat_eq_iff)
qed

lemma sat_add_mono: "a \<le> sat_add a b"
  unfolding word_le_nat_alt unat_sat_add using unat_u64_less [of a] by simp

end
