(* ===== verification/BTree.thy ===== *)
theory BTree
  imports Prelude
begin

text \<open>
  The standard library's ordered containers.  \<open>bt_*\<close> are the \<open>BTreeMap\<close> operations the program
  uses, on association lists; \<open>bs_*\<close> the \<open>BTreeSet\<close> ones, on sorted lists.  The locale
  \<open>ordered_map\<close> is the interface the components rely on (what a lookup returns after each
  operation, which keys an operation keeps); its laws are discharged once, for \<open>bt_*\<close>.
\<close>

type_synonym ('k, 'v) btree_map = "('k \<times> 'v) list"

definition bt_get :: "('k, 'v) btree_map \<Rightarrow> 'k \<Rightarrow> 'v option" where
  "bt_get m k = map_of m k"

definition bt_contains :: "('k, 'v) btree_map \<Rightarrow> 'k \<Rightarrow> bool" where
  "bt_contains m k \<longleftrightarrow> bt_get m k \<noteq> None"

definition bt_keys :: "('k, 'v) btree_map \<Rightarrow> 'k list" where
  "bt_keys m = map fst m"

definition bt_values :: "('k, 'v) btree_map \<Rightarrow> 'v list" where
  "bt_values m = map snd m"

fun bt_insert :: "'k::linorder \<Rightarrow> 'v \<Rightarrow> ('k, 'v) btree_map \<Rightarrow> ('k, 'v) btree_map" where
  "bt_insert k v [] = [(k, v)]"
| "bt_insert k v ((k', v') # m) =
     (if k = k' then (k, v) # m
      else if k < k' then (k, v) # (k', v') # m
      else (k', v') # bt_insert k v m)"

text \<open>\<open>if let Some(v) = m.get_mut(k) { *v = f(v) }\<close>\<close>

definition bt_update :: "'k \<Rightarrow> ('v \<Rightarrow> 'v) \<Rightarrow> ('k, 'v) btree_map \<Rightarrow> ('k, 'v) btree_map" where
  "bt_update k f m = map (\<lambda>(k', v). (k', if k' = k then f v else v)) m"

text \<open>\<open>m.entry(k).or_insert(d)\<close>\<close>

definition bt_entry :: "'k::linorder \<Rightarrow> 'v \<Rightarrow> ('k, 'v) btree_map \<Rightarrow> ('k, 'v) btree_map" where
  "bt_entry k d m = (if bt_contains m k then m else bt_insert k d m)"

text \<open>\<open>m.retain(|k, _| p(k))\<close>\<close>

definition bt_retain :: "('k \<Rightarrow> bool) \<Rightarrow> ('k, 'v) btree_map \<Rightarrow> ('k, 'v) btree_map" where
  "bt_retain p m = filter (\<lambda>(k, v). p k) m"

text \<open>\<open>iter.collect::<BTreeMap<_, _>>()\<close>: a later pair replaces an earlier one.\<close>

definition bt_of_list :: "('k::linorder \<times> 'v) list \<Rightarrow> ('k, 'v) btree_map" where
  "bt_of_list kvs = fold (\<lambda>(k, v). bt_insert k v) kvs []"

definition bt_wf :: "('k::linorder, 'v) btree_map \<Rightarrow> bool" where
  "bt_wf m \<longleftrightarrow> sorted_wrt (<) (bt_keys m)"

definition bs_insert :: "'a::linorder \<Rightarrow> 'a list \<Rightarrow> 'a list" where
  "bs_insert x xs = insort_insert x xs"

definition bs_of_list :: "'a::linorder list \<Rightarrow> 'a list" where
  "bs_of_list xs = sort (remdups xs)"

section \<open>The interface of an ordered map\<close>

locale ordered_map =
  fixes get :: "'m \<Rightarrow> 'k::linorder \<Rightarrow> 'v option"
    and insert :: "'k \<Rightarrow> 'v \<Rightarrow> 'm \<Rightarrow> 'm"
    and update :: "'k \<Rightarrow> ('v \<Rightarrow> 'v) \<Rightarrow> 'm \<Rightarrow> 'm"
    and retain :: "('k \<Rightarrow> bool) \<Rightarrow> 'm \<Rightarrow> 'm"
    and keys :: "'m \<Rightarrow> 'k list"
    and wf :: "'m \<Rightarrow> bool"
  assumes get_insert: "get (insert k v m) k' = (if k' = k then Some v else get m k')"
    and get_update: "get (update k f m) k' = (if k' = k then map_option f (get m k) else get m k')"
    and get_retain: "get (retain p m) k' = (if p k' then get m k' else None)"
    and set_keys: "set (keys m) = {k. get m k \<noteq> None}"
    and keys_update: "keys (update k f m) = keys m"
    and keys_retain: "keys (retain p m) = filter p (keys m)"
    and wf_insert: "wf m \<Longrightarrow> wf (insert k v m)"
    and wf_keys: "wf m \<longleftrightarrow> sorted_wrt (<) (keys m)"
begin

lemma wf_update: "wf m \<Longrightarrow> wf (update k f m)"
  by (simp add: wf_keys keys_update)

lemma wf_retain: "wf m \<Longrightarrow> wf (retain p m)"
  by (simp add: wf_keys keys_retain sorted_wrt_filter)

lemma set_keys_insert: "set (keys (insert k v m)) = Set.insert k (set (keys m))"
  by (auto simp: set_keys get_insert)

text \<open>A loop of \<open>get_mut\<close> updates, one per name of a list.\<close>

lemma keys_update_fold: "keys (fold (\<lambda>k. update k (f k)) ks m) = keys m"
  by (induction ks arbitrary: m) (simp_all add: keys_update)

lemma get_update_fold:
  "distinct ks \<Longrightarrow>
   get (fold (\<lambda>k. update k (f k)) ks m) k' =
     (if k' \<in> set ks then map_option (f k') (get m k') else get m k')"
  by (induction ks arbitrary: m) (auto simp: get_update)

lemma get_insert_fold:
  "get (fold (\<lambda>(k, v). insert k v) kvs m) k' =
     (case map_of (rev kvs) k' of Some v \<Rightarrow> Some v | None \<Rightarrow> get m k')"
  by (induction kvs arbitrary: m) (auto simp: get_insert map_add_def split: option.splits)

lemma wf_insert_fold: "wf m \<Longrightarrow> wf (fold (\<lambda>(k, v). insert k v) kvs m)"
  by (induction kvs arbitrary: m) (auto simp: wf_insert)

end

lemma bt_get_insert [btree_simps]:
  "bt_get (bt_insert k v m) k' = (if k' = k then Some v else bt_get m k')"
  by (induction m) (auto simp: bt_get_def)

lemma bt_keys_insert: "set (bt_keys (bt_insert k v m)) = insert k (set (bt_keys m))"
  by (induction k v m rule: bt_insert.induct) (simp_all add: bt_keys_def insert_commute)

lemma bt_wf_insert: "bt_wf m \<Longrightarrow> bt_wf (bt_insert k v m)"
proof (induction m)
  case Nil
  then show ?case by (simp add: bt_wf_def bt_keys_def)
next
  case (Cons a m)
  have "\<forall>x \<in> set (bt_keys (bt_insert k v m)). fst a < x" if "\<not> k < fst a" "k \<noteq> fst a"
    using Cons.prems that unfolding bt_keys_insert by (auto simp: bt_wf_def bt_keys_def)
  with Cons show ?case by (cases a) (auto simp: bt_wf_def bt_keys_def)
qed

interpretation bt: ordered_map bt_get bt_insert bt_update bt_retain bt_keys bt_wf
proof
  fix k k' :: 'a and v :: 'b and f :: "'b \<Rightarrow> 'b" and p :: "'a \<Rightarrow> bool"
    and m :: "('a::linorder, 'b) btree_map"
  show "bt_get (bt_insert k v m) k' = (if k' = k then Some v else bt_get m k')"
    by (rule bt_get_insert)
  show "bt_get (bt_update k f m) k' = (if k' = k then map_option f (bt_get m k) else bt_get m k')"
    by (induction m) (auto simp: bt_get_def bt_update_def)
  show "bt_get (bt_retain p m) k' = (if p k' then bt_get m k' else None)"
    by (induction m) (auto simp: bt_get_def bt_retain_def)
  show "set (bt_keys m) = {k. bt_get m k \<noteq> None}"
    by (induction m) (auto simp: bt_get_def bt_keys_def)
  show "bt_keys (bt_update k f m) = bt_keys m"
    by (simp add: bt_keys_def bt_update_def case_prod_unfold comp_def)
  show "bt_keys (bt_retain p m) = filter p (bt_keys m)"
    by (induction m) (auto simp: bt_keys_def bt_retain_def)
  show "bt_wf m \<Longrightarrow> bt_wf (bt_insert k v m)"
    by (rule bt_wf_insert)
  show "bt_wf m = sorted_wrt (<) (bt_keys m)"
    by (simp add: bt_wf_def)
qed

lemmas [btree_simps] = bt.get_update bt.get_retain bt.keys_update bt.keys_retain

lemma bt_contains_keys:
  fixes m :: "('k::linorder, 'v) btree_map"
  shows "bt_contains m k \<longleftrightarrow> k \<in> set (bt_keys m)"
  using bt.set_keys [of m] by (auto simp: bt_contains_def)

lemma bt_get_entry [btree_simps]:
  "bt_get (bt_entry k d m) k' =
     (if k' = k then Some (case bt_get m k of Some v \<Rightarrow> v | None \<Rightarrow> d) else bt_get m k')"
  by (auto simp: bt_entry_def bt_contains_def btree_simps)

lemma bt_keys_entry: "set (bt_keys (bt_entry k d m)) = insert k (set (bt_keys m))"
  by (auto simp: bt_entry_def bt_contains_keys bt_keys_insert)

lemma bt_wf_entry: "bt_wf m \<Longrightarrow> bt_wf (bt_entry k d m)"
  by (simp add: bt_entry_def bt_wf_insert)

lemma bt_wf_Nil [simp]: "bt_wf []"
  by (simp add: bt_wf_def bt_keys_def)

lemma bt_wf_of_list: "bt_wf (bt_of_list kvs)"
  unfolding bt_of_list_def by (rule bt.wf_insert_fold) simp

lemma bt_get_of_list: "bt_get (bt_of_list kvs) k = map_of (rev kvs) k"
  unfolding bt_of_list_def bt.get_insert_fold by (simp add: bt_get_def split: option.split)

lemma bt_keys_of_list: "set (bt_keys (bt_of_list kvs)) = fst ` set kvs"
proof -
  have "set (bt_keys (bt_of_list kvs)) = {k. map_of (rev kvs) k \<noteq> None}"
    using bt.set_keys [of "bt_of_list kvs"] by (simp add: bt_get_of_list)
  also have "\<dots> = fst ` set kvs" by (simp add: map_of_eq_None_iff)
  finally show ?thesis .
qed

text \<open>A well-formed map is determined by its lookups.\<close>

lemma strict_sorted_set_unique:
  fixes xs ys :: "'a::linorder list"
  assumes "sorted_wrt (<) xs" and "sorted_wrt (<) ys" and "set xs = set ys"
  shows "xs = ys"
  using assms by (metis strict_sorted_equal)

lemma bt_wf_distinct: "bt_wf m \<Longrightarrow> distinct (map fst m)"
  by (simp add: bt_wf_def bt_keys_def strict_sorted_iff)

lemma bt_eqI:
  fixes m m' :: "('k::linorder, 'v) btree_map"
  assumes "bt_wf m" and "bt_wf m'" and "\<And>k. bt_get m k = bt_get m' k"
  shows "m = m'"
proof -
  have "bt_keys m = bt_keys m'"
    using assms bt.set_keys [of m] bt.set_keys [of m']
    by (intro strict_sorted_set_unique) (simp_all add: bt_wf_def)
  moreover have "map snd m = map snd m'"
  proof -
    have "map snd m = map (\<lambda>k. the (bt_get m k)) (bt_keys m)"
      using bt_wf_distinct [OF assms(1)] by (auto simp: bt_get_def bt_keys_def)
    also have "\<dots> = map (\<lambda>k. the (bt_get m' k)) (bt_keys m')"
      using assms(3) \<open>bt_keys m = bt_keys m'\<close> by simp
    also have "\<dots> = map snd m'"
      using bt_wf_distinct [OF assms(2)] by (auto simp: bt_get_def bt_keys_def)
    finally show ?thesis .
  qed
  ultimately show ?thesis by (metis bt_keys_def zip_map_fst_snd)
qed

section \<open>Ordered sets\<close>

lemma bs_insert_set [simp]: "set (bs_insert x xs) = insert x (set xs)"
  by (auto simp: bs_insert_def insort_insert_key_def set_insort_key)

lemma bs_insert_sorted: "sorted_wrt (<) xs \<Longrightarrow> sorted_wrt (<) (bs_insert x xs)"
  by (simp add: bs_insert_def strict_sorted_iff distinct_insort_insert sorted_insort_insert)

lemma bs_of_list_set [simp]: "set (bs_of_list xs) = set xs"
  by (simp add: bs_of_list_def)

lemma bs_of_list_sorted [simp]: "sorted_wrt (<) (bs_of_list xs)"
  by (simp add: bs_of_list_def strict_sorted_iff)

lemma bs_of_list_distinct [simp]: "distinct (bs_of_list xs)"
  by (simp add: bs_of_list_def)

lemma bs_of_list_eq_iff: "bs_of_list xs = bs_of_list ys \<longleftrightarrow> set xs = set ys"
  by (metis bs_of_list_set bs_of_list_sorted strict_sorted_set_unique)

end
