(* ===== verification/Model.thy ===== *)
theory Model
  imports BTree
begin

text \<open>
  The data model of \<open>backend/src/model.rs\<close> (graphs, executions, node states, the event kinds and the
  projected \<open>Snapshot\<close>) with the environment records it embeds.  Every struct is a record whose
  fields carry a two-letter prefix, every enum a datatype with the source's constructors, their
  arguments in the order of the source's fields.  Left out are the \<open>f64\<close> durations (telemetry that
  no branch of the program reads) and the fields of the test-only cargo features.
\<close>

section \<open>Graph intermediate representation\<close>

record node =
  nd_name :: string
  nd_task :: string

record edge =
  eg_from :: string
  eg_to :: string
  eg_feedback :: bool

record graph =
  gr_original_goal :: string
  gr_nodes :: "node list"
  gr_edges :: "edge list"

definition graph_default :: graph where
  "graph_default = \<lparr>gr_original_goal = [], gr_nodes = [], gr_edges = []\<rparr>"

record plan =
  pl_execution_batches :: "string list list"
  pl_root_nodes :: "string list"
  pl_terminals :: "string list"
  pl_warnings :: "string list"

section \<open>JSON values\<close>

text \<open>
  \<open>serde_json::Value\<close>.  A number is an unsigned or a negative integer, or a float (its literal);
  an object is an ordered map.  Parsing a text is \<open>serde_json\<close>'s and a parameter of the model.
\<close>

datatype json =
    JNull
  | JBool bool
  | JPosInt u64
  | JNegInt int
  | JFloat string
  | JString string
  | JArray "json list"
  | JObject "(string \<times> json) list"

fun json_get :: "json \<Rightarrow> string \<Rightarrow> json option" where
  "json_get (JObject m) k = map_of m k"
| "json_get _ k = None"

fun as_str :: "json \<Rightarrow> string option" where
  "as_str (JString s) = Some s"
| "as_str _ = None"

fun as_u64 :: "json \<Rightarrow> u64 option" where
  "as_u64 (JPosInt n) = Some n"
| "as_u64 _ = None"

fun as_bool :: "json \<Rightarrow> bool option" where
  "as_bool (JBool b) = Some b"
| "as_bool _ = None"

definition get_str :: "json \<Rightarrow> string \<Rightarrow> string option" where
  "get_str v k = Option.bind (json_get v k) as_str"

definition get_u64 :: "json \<Rightarrow> string \<Rightarrow> u64 option" where
  "get_u64 v k = Option.bind (json_get v k) as_u64"

section \<open>Usage and context counters\<close>

record token_usage =
  tu_input :: u64
  tu_output :: u64
  tu_cache_read :: u64
  tu_cache_write :: u64
  tu_reasoning :: u64
  tu_total_tokens :: u64
  tu_consumed_tokens :: u64

definition token_usage_default :: token_usage where
  "token_usage_default =
     \<lparr>tu_input = 0, tu_output = 0, tu_cache_read = 0, tu_cache_write = 0, tu_reasoning = 0,
      tu_total_tokens = 0, tu_consumed_tokens = 0\<rparr>"

record session_context =
  sc_tokens :: u64
  sc_peak :: u64
  sc_window :: "u64 option"

definition session_context_default :: session_context where
  "session_context_default = \<lparr>sc_tokens = 0, sc_peak = 0, sc_window = None\<rparr>"

record planning_role_metrics =
  rm_model :: string
  rm_session_id :: "string option"
  rm_session_start :: "string option"
  rm_last_event :: "string option"
  rm_assistant_messages :: nat
  rm_tools :: nat
  rm_tool_errors :: nat
  rm_usage :: token_usage
  rm_context_tokens :: u64
  rm_context_peak :: u64
  rm_context_usage :: "session_context option"

record planning_summary =
  ps_planning_id :: string
  ps_roles :: "(string, planning_role_metrics) btree_map"
  ps_status :: "string option"
  ps_error :: "string option"
  ps_created_at :: "nat option"
  ps_repository :: "string option"
  ps_worktree :: "string option"
  ps_workspace_execution_id :: "string option"
  ps_plan_type :: "string option"
  ps_goal :: "string option"
  ps_run_id :: "string option"

record execution_metrics =
  em_assistant_messages :: nat
  em_tools :: nat
  em_tool_errors :: nat
  em_usage :: token_usage
  em_context_tokens :: u64
  em_context_peak :: u64
  em_context_usage :: "session_context option"
  em_model :: "string option"
  em_thinking_level :: "string option"

definition execution_metrics_default :: execution_metrics where
  "execution_metrics_default =
     \<lparr>em_assistant_messages = 0, em_tools = 0, em_tool_errors = 0, em_usage = token_usage_default,
      em_context_tokens = 0, em_context_peak = 0, em_context_usage = None, em_model = None,
      em_thinking_level = None\<rparr>"

record run_metrics =
  rt_assistant_messages :: nat
  rt_tools :: nat
  rt_tool_errors :: nat
  rt_total_usage :: token_usage
  rt_planning_usage :: token_usage
  rt_execution_usage :: token_usage
  rt_session_context :: "(string, session_context) btree_map"
  rt_session_usage :: "(string, token_usage) btree_map"

section \<open>Environment records\<close>

record ambient_environment_hint =
  ah_manager :: string
  ah_selector :: string
  ah_executable :: string

record binding =
  bd_kind :: string
  bd_prefix :: string
  bd_abi :: string
  bd_root :: "string option"

record device =
  dv_backend :: string
  dv_ids :: "string list"
  dv_probe :: string

record resources =
  rs_memory_bytes :: "nat option"
  rs_cpu_rate :: "nat option"
  rs_device :: "device option"
  rs_initialize_timeout_seconds :: "nat option"
  rs_result_timeout_seconds :: "nat option"
  rs_max_output_bytes :: "nat option"

record launch_config =
  lc_entry :: string
  lc_path :: "string list"
  lc_shell :: string
  lc_variables :: "(string, string) btree_map"
  lc_inherit :: "string list"
  lc_hook :: "string option"
  lc_managed_scopes :: "string list"
  lc_ambient_hints :: "ambient_environment_hint list"
  lc_environment :: "binding option"

record environment_config =
  ec_mode :: string
  ec_platform :: string
  ec_arch :: string
  ec_scopes :: "string list"
  ec_caches :: "string list"
  ec_layout :: string
  ec_launch :: launch_config
  ec_baseline :: "string list"
  ec_initialize :: "string list"
  ec_import_source :: bool
  ec_launch_file :: "string option"
  ec_authority :: "(string, string) btree_map"
  ec_allow_descendant :: bool
  ec_require :: "string list"
  ec_resources :: "resources option"
  ec_discovery :: bool
  ec_best_effort :: bool

record domain =
  dm_platform :: string
  dm_arch :: string
  dm_baseline :: string
  dm_policy :: string
  dm_contract :: string

record inheritance_input =
  ii_node :: string
  ii_environment_ref :: string
  ii_launch_ref :: string
  ii_layout :: "string option"

record inheritance_decision =
  id_reason :: string
  id_inputs :: "inheritance_input list"

record composite_result =
  cr_domain :: domain
  cr_code_ref :: string
  cr_environment_ref :: string
  cr_launch_ref :: string
  cr_resource_refs :: "string list"
  cr_layout :: "string option"
  cr_generation :: string
  cr_selected_from :: "string list"
  cr_inheritance :: "inheritance_decision option"

record result_entry =
  re_name :: string
  re_result :: composite_result
  re_workspace :: string

record result_descriptor =
  rd_schema :: nat
  rd_run_id :: string
  rd_result :: composite_result
  rd_config :: environment_config
  rd_workspace :: string
  rd_entries :: "result_entry list"
  rd_default_entry :: "string option"

section \<open>Run configuration\<close>

record role_model_config =
  ro_model :: string
  ro_thinking_level :: "string option"

record run_model_config =
  mc_model :: string
  mc_thinking_level :: string
  mc_role_models :: "(string, role_model_config) btree_map"

record config =
  cf_repository :: string
  cf_model :: string
  cf_thinking_level :: string
  cf_role_models :: "(string, role_model_config) btree_map"
  cf_max_parallel :: nat
  cf_max_feedback :: nat
  cf_auto_approve :: bool
  cf_post_task_review :: bool
  cf_planner_write_tools :: bool
  cf_environment :: "environment_config option"

section \<open>Executions, feedback and node states\<close>

record image_attachment =
  ia_type :: string
  ia_mime_type :: string
  ia_data :: string
  ia_name :: "string option"

record execution =
  ex_id :: string
  ex_node :: string
  ex_revision :: nat
  ex_attempt :: nat
  ex_session_id :: string
  ex_worktree :: string
  ex_before :: string
  ex_workspace_lineage :: "string list"
  ex_after :: "string option"
  ex_input :: "composite_result option"
  ex_result :: "composite_result option"
  ex_status :: string
  ex_output :: string
  ex_output_bytes :: nat
  ex_pid :: "u64 option"
  ex_started_at :: nat
  ex_completed_at :: "nat option"
  ex_metrics :: "execution_metrics option"

record feedback_source =
  fs_source_execution_id :: string
  fs_worktree :: string
  fs_head :: string

record feedback_workspace =
  fw_source_execution_id :: string
  fw_target_execution_id :: string
  fw_worktree :: string
  fw_head :: string
  fw_additional_sources :: "feedback_source list"

record pending_feedback =
  pf_execution_id :: string
  pf_from :: string
  pf_to :: string
  pf_source_head :: string
  pf_target_head :: "string option"
  pf_target_revision :: nat
  pf_target_execution_id :: "string option"
  pf_accepted :: bool
  pf_output_offset :: nat
  pf_output_bytes :: nat

record source_files =
  sf_head :: string
  sf_version :: string

record pending_node_message =
  pm_sequence :: int
  pm_instruction :: string
  pm_images :: "image_attachment list option"
  pm_source_direct :: bool
  pm_shared_workspace :: bool

record node_state =
  ns_status :: string
  ns_revision :: nat
  ns_head :: "string option"
  ns_instruction :: string
  ns_pending_messages :: "pending_node_message list"
  ns_instruction_images :: "image_attachment list option"
  ns_edit_execution_id :: "string option"
  ns_human_instruction :: bool
  ns_model_config :: "role_model_config option"
  ns_model_retry :: "bool option"
  ns_continuation :: bool
  ns_source_direct_recovery :: bool
  ns_shared_workspace :: bool
  ns_baseline_head :: "string option"
  ns_feedback_workspace :: "feedback_workspace option"
  ns_legacy_files_override :: "string option"
  ns_legacy_files_version :: "string option"
  ns_legacy_baseline_files_version :: "string option"
  ns_legacy_files_changed :: bool
  ns_result :: "composite_result option"
  ns_error :: "string option"

definition node_state_default :: node_state where
  "node_state_default =
     \<lparr>ns_status = ''waiting'', ns_revision = 1, ns_head = None, ns_instruction = [],
      ns_pending_messages = [], ns_instruction_images = None, ns_edit_execution_id = None,
      ns_human_instruction = False, ns_model_config = None, ns_model_retry = None,
      ns_continuation = False, ns_source_direct_recovery = False, ns_shared_workspace = False,
      ns_baseline_head = None, ns_feedback_workspace = None, ns_legacy_files_override = None,
      ns_legacy_files_version = None, ns_legacy_baseline_files_version = None,
      ns_legacy_files_changed = False, ns_result = None, ns_error = None\<rparr>"

section \<open>Events\<close>

datatype (plugins only: code) event_kind =
    PlanningStarted string config planning_summary "string option"
  | PlanningFailed planning_summary
  | PlannerSteerSubmitted string string string "image_attachment list option"
  | PlannerSteerStatus string string string "string option"
  | PlannerWorkspaceSelected planning_summary
  | PlannerWorkspaceSnapshotted string string "composite_result option" "string list" bool
  | PlannerWorkspaceRedirected string string string
  | PlannerReviewStarted planning_summary
  | PlannerReviewProgress graph
  | PlannerPreviewProgress graph
  | PlannerTurnProgress planning_summary
  | PlannerReviewFinished planning_summary bool
  | PlannerReworkNoteInjected
  | PlannerTurnAborted planning_summary
  | Created graph config "string option" "planning_summary option"
  | Routed string
  | Approved string
  | SourceSnapshotted string
  | SourceFilesRecorded source_files
  | EnvironmentPolicyRequested
  | EnvironmentPolicyResolved "environment_config option" string
  | EnvironmentInitialized composite_result
  | ExecutionInputRecorded string composite_result
  | ExecutionResultRecorded string composite_result
  | ResultPublished result_descriptor
  | ResultExecutionStarted composite_result "string list"
  | ResultExecutionPrepared composite_result
  | ResultExecutionFinished result_descriptor
  | ResultExecutionFailed string string
  | WorkspaceFilesChanged string
  | GraphRevised graph string planning_summary "string list" "string option"
  | ManualGraphRevised graph "string list" "string option"
  | DraftEdited graph config
  | Paused bool
  | FailedNodeModelsUpdated "string list" role_model_config
  | NodeModelsUpdated "string list" role_model_config
  | ConversationModelsUpdated run_model_config "string list"
  | RecoveryQueued "string list" "string list" bool "string list"
  | StopRequested
  | ExecutionStopRequested "string list"
  | Rejected
  | Started execution "int list option" bool
  | Prepared string string
  | Steered string string string "image_attachment list option"
  | NodeMessaged string string "image_attachment list option"
  | Output string string
  | Finished string string string nat "execution_metrics option"
  | Failed string "string option" string nat "execution_metrics option"
  | Blocked string string
  | WorkspaceResolved string string "string list" "string option"
  | Invalidated "string list" string string bool "image_attachment list option"
      "feedback_workspace option" bool bool
  | ConversationEdited "string list" string string "image_attachment list option" string int
      "nat option" string bool "nat option"
  | PlannerConversationEdited string string bool "nat option"
  | FeedbackQueued pending_feedback
  | FeedbackResolved string string
  | Feedback string string bool
  | FeedbackExhausted string string string nat nat
  | PublicationStarted string "string list"
  | PublicationCompleted string
  | PublicationFailed string
  | MergerStarted execution
  | MergerFinished string string nat "execution_metrics option"
  | MergerFailed string string nat "execution_metrics option"
  | Settled

record event =
  ev_sequence :: int
  ev_timestamp :: nat
  ev_kind :: event_kind

fun event_kind_planning :: "event_kind \<Rightarrow> planning_summary option" where
  "event_kind_planning (PlanningStarted _ _ planning _) = Some planning"
| "event_kind_planning (PlannerWorkspaceSelected planning) = Some planning"
| "event_kind_planning (PlannerTurnProgress planning) = Some planning"
| "event_kind_planning (PlannerReviewStarted planning) = Some planning"
| "event_kind_planning (PlannerReviewFinished planning _) = Some planning"
| "event_kind_planning (PlannerTurnAborted planning) = Some planning"
| "event_kind_planning (PlanningFailed planning) = Some planning"
| "event_kind_planning (GraphRevised _ _ planning _ _) = Some planning"
| "event_kind_planning (Created _ _ _ (Some planning)) = Some planning"
| "event_kind_planning _ = None"

definition planning_summary_of :: "event \<Rightarrow> planning_summary option" where
  "planning_summary_of event = event_kind_planning (ev_kind event)"

section \<open>The projected state of a run\<close>

record result_execution =
  rx_input :: composite_result
  rx_args :: "string list"
  rx_result :: "composite_result option"
  rx_status :: string
  rx_error :: "string option"

record publication =
  pb_repository :: string
  pb_heads :: "string list"
  pb_status :: string
  pb_head :: "string option"
  pb_error :: "string option"
  pb_started_at :: nat
  pb_completed_at :: "nat option"

record snapshot =
  st_review_graph :: "graph option"
  st_preview_graph :: "graph option"
  st_run_id :: string
  st_plan_type :: "string option"
  st_planning_id :: "string option"
  st_planning :: "planning_summary option"
  st_planning_turns :: "(string, planning_summary) btree_map"
  st_graph :: graph
  st_config :: "config option"
  st_model_config :: "run_model_config option"
  st_plan :: "plan option"
  st_nodes :: "(string, node_state) btree_map"
  st_executions :: "execution list"
  st_superseded_execution_ids :: "string list"
  st_mergers :: "execution list"
  st_publication :: "publication option"
  st_events :: "event list"
  st_approved :: bool
  st_paused :: bool
  st_stop_requested :: bool
  st_execution_stop_requests :: "string list"
  st_phase :: string
  st_base :: string
  st_published_head :: "string option"
  st_published_heads :: "string list"
  st_feedback_counts :: "(string, nat) btree_map"
  st_pending_feedback :: "pending_feedback list"
  st_source_files :: "source_files option"
  st_environment_baseline :: "composite_result option"
  st_environment_policy :: "string option"
  st_published_result :: "result_descriptor option"
  st_result_execution :: "result_execution option"
  st_run_metrics :: "run_metrics option"

definition snapshot_default :: snapshot where
  "snapshot_default =
     \<lparr>st_review_graph = None, st_preview_graph = None, st_run_id = [], st_plan_type = None,
      st_planning_id = None, st_planning = None, st_planning_turns = [], st_graph = graph_default,
      st_config = None, st_model_config = None, st_plan = None, st_nodes = [], st_executions = [],
      st_superseded_execution_ids = [], st_mergers = [], st_publication = None, st_events = [],
      st_approved = False, st_paused = False, st_stop_requested = False,
      st_execution_stop_requests = [], st_phase = [], st_base = [], st_published_head = None,
      st_published_heads = [], st_feedback_counts = [], st_pending_feedback = [],
      st_source_files = None, st_environment_baseline = None, st_environment_policy = None,
      st_published_result = None, st_result_execution = None, st_run_metrics = None\<rparr>"

end
