(* ===== verification/Graph_Search.thy ===== *)
theory Graph_Search
  imports Model
begin

text \<open>
  The two traversals of \<open>backend/src/compiler.rs\<close>: \<open>downstream\<close>, a depth-first search over the
  ordinary (non-feedback) edges, and \<open>alternate_dependency_path\<close>, a breadth-first search that
  avoids one edge and rebuilds the path it finds.  The locale \<open>reach_search\<close> is the contract of a
  graph search: its result is exactly the reflexive-transitive closure of a step relation.
\<close>

section \<open>Dependency edges\<close>

definition dep_step :: "graph \<Rightarrow> string \<Rightarrow> string \<Rightarrow> bool" where
  "dep_step g x y \<longleftrightarrow> (\<exists>e \<in> set (gr_edges g). \<not> eg_feedback e \<and> eg_from e = x \<and> eg_to e = y)"

definition dep_succs :: "graph \<Rightarrow> string \<Rightarrow> string list" where
  "dep_succs g name = map eg_to (filter (\<lambda>e. \<not> eg_feedback e \<and> eg_from e = name) (gr_edges g))"

definition edge_targets :: "graph \<Rightarrow> string set" where
  "edge_targets g = set (map eg_to (gr_edges g))"

lemma set_dep_succs: "set (dep_succs g x) = {y. dep_step g x y}"
  by (auto simp: dep_succs_def dep_step_def)

lemma dep_succs_targets: "set (dep_succs g x) \<subseteq> edge_targets g"
  by (auto simp: dep_succs_def edge_targets_def)

lemma finite_edge_targets [simp]: "finite (edge_targets g)"
  by (simp add: edge_targets_def)

text \<open>The names a graph declares.\<close>

definition node_names :: "graph \<Rightarrow> string set" where
  "node_names g = nd_name ` set (gr_nodes g)"

section \<open>Searching from a node\<close>

text \<open>\<open>if seen.insert(to) { pending.push(to) }\<close> for every ordinary edge of the popped node.\<close>

fun downstream_visit :: "string list \<Rightarrow> string list \<times> string list \<Rightarrow> string list \<times> string list" where
  "downstream_visit [] (seen, pending) = (seen, pending)"
| "downstream_visit (to # tos) (seen, pending) =
     (if to \<in> set seen then downstream_visit tos (seen, pending)
      else downstream_visit tos (bs_insert to seen, to # pending))"

lemma downstream_visit_seen:
  "downstream_visit tos (seen, pending) = (seen', pending') \<Longrightarrow> set seen' = set seen \<union> set tos"
  by (induction tos "(seen, pending)" arbitrary: seen pending rule: downstream_visit.induct)
     (auto split: if_splits)

lemma downstream_visit_pending:
  "downstream_visit tos (seen, pending) = (seen', pending') \<Longrightarrow>
   set pending' = set pending \<union> (set tos - set seen)"
  by (induction tos "(seen, pending)" arbitrary: seen pending rule: downstream_visit.induct)
     (auto split: if_splits)

lemma downstream_visit_sorted:
  "downstream_visit tos (seen, pending) = (seen', pending') \<Longrightarrow> sorted_wrt (<) seen \<Longrightarrow>
   sorted_wrt (<) seen'"
  by (induction tos "(seen, pending)" arbitrary: seen pending rule: downstream_visit.induct)
     (auto split: if_splits simp: bs_insert_sorted)

lemma downstream_visit_measure:
  "finite U \<Longrightarrow> set tos \<subseteq> U \<Longrightarrow> downstream_visit tos (seen, pending) = (seen', pending') \<Longrightarrow>
   card (U - set seen') + length pending' = card (U - set seen) + length pending"
proof (induction tos "(seen, pending)" arbitrary: seen pending rule: downstream_visit.induct)
  case (2 to tos seen pending)
  show ?case
  proof (cases "to \<in> set seen")
    case True
    with 2 show ?thesis by simp
  next
    case False
    have split: "U - set (bs_insert to seen) = (U - set seen) - {to}" by auto
    from "2.prems" False have "card (U - set seen) = Suc (card ((U - set seen) - {to}))"
      by (intro card.remove) auto
    with 2 False split show ?thesis by (simp del: bs_insert_set)
  qed
qed simp

function downstream_loop :: "graph \<Rightarrow> string list \<Rightarrow> string list \<Rightarrow> string list" where
  "downstream_loop g seen [] = seen"
| "downstream_loop g seen (name # pending) =
     (case downstream_visit (dep_succs g name) (seen, pending) of
        (seen', pending') \<Rightarrow> downstream_loop g seen' pending')"
  by pat_completeness auto
termination
proof (relation "measure (\<lambda>(g, seen, pending). card (edge_targets g - set seen) + length pending)", simp)
  fix g name and seen pending seen' pending' :: "string list"
  assume "(seen', pending') = downstream_visit (dep_succs g name) (seen, pending)"
  from downstream_visit_measure [OF finite_edge_targets dep_succs_targets this [symmetric]]
  show "((g, seen', pending'), (g, seen, name # pending)) \<in>
      measure (\<lambda>(g, seen, pending). card (edge_targets g - set seen) + length pending)"
    by simp
qed

definition downstream :: "graph \<Rightarrow> string \<Rightarrow> string list" where
  "downstream g start = downstream_loop g [start] [start]"

text \<open>The contract of a search, and what follows from it for any graph.\<close>

locale reach_search =
  fixes step :: "'g \<Rightarrow> 'a \<Rightarrow> 'a \<Rightarrow> bool"
    and search :: "'g \<Rightarrow> 'a \<Rightarrow> 'a list"
  assumes search_start: "s \<in> set (search g s)"
    and search_closed: "x \<in> set (search g s) \<Longrightarrow> step g x y \<Longrightarrow> y \<in> set (search g s)"
    and search_sound: "x \<in> set (search g s) \<Longrightarrow> (step g)\<^sup>*\<^sup>* s x"
begin

lemma search_complete: "(step g)\<^sup>*\<^sup>* s x \<Longrightarrow> x \<in> set (search g s)"
  by (induction rule: rtranclp_induct) (auto intro: search_start search_closed)

lemma search_iff: "x \<in> set (search g s) \<longleftrightarrow> (step g)\<^sup>*\<^sup>* s x"
  using search_complete search_sound by blast

lemma search_trans: "y \<in> set (search g x) \<Longrightarrow> set (search g y) \<subseteq> set (search g x)"
  by (auto simp: search_iff)

lemma search_mono:
  assumes "\<And>x y. step g x y \<Longrightarrow> step h x y"
  shows "set (search g s) \<subseteq> set (search h s)"
proof
  fix x
  assume "x \<in> set (search g s)"
  then have "(step g)\<^sup>*\<^sup>* s x" by (simp add: search_iff)
  then have "(step h)\<^sup>*\<^sup>* s x" by (induction rule: rtranclp_induct) (auto dest: assms)
  then show "x \<in> set (search h s)" by (simp add: search_iff)
qed

end

text \<open>The loop invariant: everything seen is reached, and seen nodes not pending are expanded.\<close>

lemma downstream_loop_inv:
  assumes "set pending \<subseteq> set seen"
    and "\<forall>x \<in> set seen. (dep_step g)\<^sup>*\<^sup>* s x"
    and "\<forall>x \<in> set seen. x \<in> set pending \<or> set (dep_succs g x) \<subseteq> set seen"
  shows "set seen \<subseteq> set (downstream_loop g seen pending) \<and>
    (\<forall>x \<in> set (downstream_loop g seen pending).
       (dep_step g)\<^sup>*\<^sup>* s x \<and> set (dep_succs g x) \<subseteq> set (downstream_loop g seen pending))"
  using assms
proof (induction g seen pending rule: downstream_loop.induct)
  case (1 g seen)
  then show ?case by auto
next
  case (2 g seen name pending)
  obtain seen' pending' where v: "downstream_visit (dep_succs g name) (seen, pending) = (seen', pending')"
    by fastforce
  note seen' = downstream_visit_seen [OF v] and pending' = downstream_visit_pending [OF v]
  have name: "(dep_step g)\<^sup>*\<^sup>* s name" using "2.prems" by simp
  have reached: "\<forall>x \<in> set seen'. (dep_step g)\<^sup>*\<^sup>* s x"
    using "2.prems"(2) name unfolding seen' set_dep_succs
    by (auto intro: rtranclp.rtrancl_into_rtrancl)
  have expanded: "\<forall>x \<in> set seen'. x \<in> set pending' \<or> set (dep_succs g x) \<subseteq> set seen'"
    using "2.prems"(3) unfolding seen' pending' by auto
  have "set pending' \<subseteq> set seen'" using "2.prems"(1) unfolding seen' pending' by auto
  then show ?case
    using "2.IH" [OF v [symmetric] _ reached expanded] v seen' by auto
qed

lemma downstream_loop_sorted:
  "sorted_wrt (<) seen \<Longrightarrow> sorted_wrt (<) (downstream_loop g seen pending)"
proof (induction g seen pending rule: downstream_loop.induct)
  case (2 g seen name pending)
  obtain seen' pending' where v: "downstream_visit (dep_succs g name) (seen, pending) = (seen', pending')"
    by fastforce
  from "2.IH" [OF v [symmetric] downstream_visit_sorted [OF v "2.prems"]] v show ?case by simp
qed simp

interpretation down: reach_search dep_step downstream
proof
  fix g s x y
  have inv: "set [s] \<subseteq> set (downstream g s) \<and> (\<forall>x \<in> set (downstream g s).
      (dep_step g)\<^sup>*\<^sup>* s x \<and> set (dep_succs g x) \<subseteq> set (downstream g s))"
    unfolding downstream_def by (rule downstream_loop_inv) auto
  then show "s \<in> set (downstream g s)" by simp
  from inv show "y \<in> set (downstream g s)" if "x \<in> set (downstream g s)" "dep_step g x y"
    using that by (auto simp: set_dep_succs)
  from inv show "(dep_step g)\<^sup>*\<^sup>* s x" if "x \<in> set (downstream g s)" using that by blast
qed

lemma downstream_sorted: "sorted_wrt (<) (downstream g s)"
  unfolding downstream_def by (rule downstream_loop_sorted) simp

section \<open>A dependency path that avoids one edge\<close>

text \<open>The neighbours the breadth-first search expands: a sorted set, without the direct edge.\<close>

definition alternate_succs :: "graph \<Rightarrow> string \<Rightarrow> string \<Rightarrow> string \<Rightarrow> string list" where
  "alternate_succs g from to name =
     bs_of_list (map eg_to (filter (\<lambda>e. \<not> eg_feedback e \<and> eg_from e = name
        \<and> \<not> (eg_from e = from \<and> eg_to e = to)) (gr_edges g)))"

text \<open>
  The inner \<open>for\<close>: \<open>Inl\<close> when the target was just recorded (the code rebuilds the path and
  returns), \<open>Inr\<close> with the grown map and queue otherwise.
\<close>

fun alternate_visit ::
  "string \<Rightarrow> string \<Rightarrow> string list \<Rightarrow> (string, string option) btree_map \<Rightarrow> string list
   \<Rightarrow> (string, string option) btree_map + ((string, string option) btree_map \<times> string list)" where
  "alternate_visit to name [] previous queue = Inr (previous, queue)"
| "alternate_visit to name (next # nexts) previous queue =
     (if bt_contains previous next then alternate_visit to name nexts previous queue
      else
        (let previous = bt_insert next (Some name) previous
         in if next = to then Inl previous
            else alternate_visit to name nexts previous (queue @ [next])))"

text \<open>
  \<open>while let Some(Some(parent)) = \<dots> { path.push(parent) }\<close> followed by \<open>path.reverse()\<close>: each
  parent goes to the front.  \<open>None\<close> would be a loop that never ends.
\<close>

partial_function (option) path_back ::
  "(string, string option) btree_map \<Rightarrow> string \<Rightarrow> string list \<Rightarrow> string list option" where
  "path_back previous x path =
     (case bt_get previous x of
        Some (Some parent) \<Rightarrow> path_back previous parent (parent # path)
      | _ \<Rightarrow> Some path)"

lemma alternate_succs_targets: "set (alternate_succs g from to x) \<subseteq> edge_targets g"
  by (auto simp: alternate_succs_def edge_targets_def)

lemma alternate_visit_measure:
  assumes "finite U" and "set nexts \<subseteq> U"
    and "alternate_visit to name nexts previous queue = Inr (previous', queue')"
  shows "card (U - set (bt_keys previous')) + length queue'
       = card (U - set (bt_keys previous)) + length queue"
  using assms
proof (induction to name nexts previous queue rule: alternate_visit.induct)
  case (2 to name "next" nexts previous queue)
  show ?case
  proof (cases "bt_contains previous next")
    case True
    with 2 show ?thesis by simp
  next
    case False
    let ?new = "bt_insert next (Some name) previous"
    have split: "U - set (bt_keys ?new) = (U - set (bt_keys previous)) - {next}"
      by (auto simp: bt_keys_insert)
    from "2.prems" False have "card (U - set (bt_keys previous)) = Suc (card ((U - set (bt_keys previous)) - {next}))"
      by (intro card.remove) (auto simp: bt_contains_keys)
    with 2 False split show ?thesis by (auto simp: Let_def split: if_splits)
  qed
qed simp

function alternate_loop ::
  "graph \<Rightarrow> string \<Rightarrow> string \<Rightarrow> (string, string option) btree_map \<Rightarrow> string list
   \<Rightarrow> (string, string option) btree_map option" where
  "alternate_loop g from to previous [] = None"
| "alternate_loop g from to previous (name # queue) =
     (case alternate_visit to name (alternate_succs g from to name) previous queue of
        Inl previous' \<Rightarrow> Some previous'
      | Inr (previous', queue') \<Rightarrow> alternate_loop g from to previous' queue')"
  by pat_completeness auto
termination
proof (relation "measure (\<lambda>(g, from, to, previous, queue).
    card (edge_targets g - set (bt_keys previous)) + length queue)", simp)
  fix g and "from" to name :: string and previous and queue :: "string list" and p previous' queue'
  assume v: "alternate_visit to name (alternate_succs g from to name) previous queue = Inr p"
    and p: "(previous', queue') = p"
  from alternate_visit_measure [OF finite_edge_targets alternate_succs_targets v [folded p]]
  show "((g, from, to, previous', queue'), (g, from, to, previous, name # queue)) \<in>
      measure (\<lambda>(g, from, to, previous, queue).
        card (edge_targets g - set (bt_keys previous)) + length queue)"
    by simp
qed

text \<open>The outer option is termination of the path rebuild, the inner one the code's result.\<close>

definition alternate_dependency_path ::
  "graph \<Rightarrow> string \<Rightarrow> string \<Rightarrow> string list option option" where
  "alternate_dependency_path g from to =
     (case alternate_loop g from to (bt_insert from None []) [from] of
        None \<Rightarrow> Some None
      | Some previous \<Rightarrow> map_option Some (path_back previous to [to]))"

text \<open>The relation searched, and the paths it has.\<close>

definition alternate_step :: "graph \<Rightarrow> string \<Rightarrow> string \<Rightarrow> string \<Rightarrow> string \<Rightarrow> bool" where
  "alternate_step g from to x y \<longleftrightarrow> dep_step g x y \<and> \<not> (x = from \<and> y = to)"

fun is_path :: "('a \<Rightarrow> 'a \<Rightarrow> bool) \<Rightarrow> 'a list \<Rightarrow> bool" where
  "is_path r [] = False"
| "is_path r [x] = True"
| "is_path r (x # y # zs) = (r x y \<and> is_path r (y # zs))"

lemma is_path_snoc: "is_path r (xs @ [x]) \<Longrightarrow> r x y \<Longrightarrow> is_path r (xs @ [x, y])"
  by (induction r "xs @ [x]" arbitrary: xs rule: is_path.induct)
     (auto simp: Cons_eq_append_conv)

lemma is_path_rtranclp: "is_path r xs \<Longrightarrow> r\<^sup>*\<^sup>* (hd xs) (last xs)"
  by (induction r xs rule: is_path.induct) (auto intro: converse_rtranclp_into_rtranclp)

lemma set_alternate_succs:
  "set (alternate_succs g from to x) = {y. alternate_step g from to x y}"
  by (auto simp: alternate_succs_def alternate_step_def dep_step_def)

text \<open>
  \<open>chain r from previous x p\<close>: following the recorded parents back from \<open>x\<close> ends at \<open>from\<close> and
  reads off the path \<open>p\<close> of \<open>r\<close>-steps.
\<close>

inductive chain ::
  "('a \<Rightarrow> 'a \<Rightarrow> bool) \<Rightarrow> 'a \<Rightarrow> ('a \<Rightarrow> 'a option option) \<Rightarrow> 'a \<Rightarrow> 'a list \<Rightarrow> bool"
  for r "from" previous where
  chain_root: "previous from = Some None \<Longrightarrow> chain r from previous from [from]"
| chain_step: "chain r from previous y p \<Longrightarrow> previous x = Some (Some y) \<Longrightarrow> r y x \<Longrightarrow>
     chain r from previous x (p @ [x])"

lemma chain_is_path: "chain r from previous x p \<Longrightarrow> is_path r p \<and> hd p = from \<and> last p = x \<and> p \<noteq> []"
proof (induction rule: chain.induct)
  case (chain_step y p x)
  then obtain ys where "p = ys @ [y]" by (metis append_butlast_last_id)
  with chain_step show ?case using is_path_snoc [of r ys y x] by (cases ys) auto
qed simp

lemma chain_extend:
  "chain r from previous x p \<Longrightarrow> \<forall>k v. previous k = Some v \<longrightarrow> previous' k = Some v \<Longrightarrow>
   chain r from previous' x p"
  by (induction rule: chain.induct) (auto intro: chain.intros)

lemma path_back_chain:
  "chain r from (bt_get previous) x p \<Longrightarrow> path_back previous x (x # acc) = Some (p @ acc)"
proof (induction arbitrary: acc rule: chain.induct)
  case chain_root
  then show ?case by (subst path_back.simps) simp
next
  case (chain_step y p x)
  then show ?case by (subst path_back.simps) simp
qed

definition chained :: "('a \<Rightarrow> 'a \<Rightarrow> bool) \<Rightarrow> 'a \<Rightarrow> ('a \<Rightarrow> 'a option option) \<Rightarrow> bool" where
  "chained r from previous \<longleftrightarrow> (\<forall>x. previous x \<noteq> None \<longrightarrow> (\<exists>p. chain r from previous x p))"

lemma chained_insert:
  assumes "chained r from (bt_get previous)" and "bt_get previous name \<noteq> None" and "r name x"
    and "\<not> bt_contains previous x"
  shows "chained r from (bt_get (bt_insert x (Some name) previous))"
  unfolding chained_def
proof (intro allI impI)
  fix z
  let ?new = "bt_get (bt_insert x (Some name) previous)"
  have keep: "\<forall>k v. bt_get previous k = Some v \<longrightarrow> ?new k = Some v"
    using assms(4) by (auto simp: btree_simps bt_contains_def)
  have old: "\<exists>p. chain r from ?new k p" if "bt_get previous k \<noteq> None" for k
    using that assms(1) chain_extend [OF _ keep] unfolding chained_def by blast
  assume "?new z \<noteq> None"
  then show "\<exists>p. chain r from ?new z p"
  proof (cases "z = x")
    case True
    obtain p where "chain r from ?new name p" using old assms(2) by blast
    then have "chain r from ?new x (p @ [x])"
      by (rule chain_step) (simp_all add: btree_simps assms(3))
    with True show ?thesis by blast
  next
    case False
    with \<open>?new z \<noteq> None\<close> show ?thesis by (intro old) (simp add: btree_simps)
  qed
qed


text \<open>What one \<open>for\<close> over the neighbours of \<open>name\<close> does to the map and the queue.\<close>

lemma alternate_visit_found:
  assumes "alternate_visit to name nexts previous queue = Inl previous'"
    and "chained r from (bt_get previous)" and "bt_get previous name \<noteq> None"
    and "\<forall>y \<in> set nexts. r name y"
  shows "chained r from (bt_get previous') \<and> bt_get previous' to \<noteq> None
    \<and> (bt_get previous to = None)"
  using assms
proof (induction to name nexts previous queue rule: alternate_visit.induct)
  case (2 to name "next" nexts previous queue)
  show ?case
  proof (cases "bt_contains previous next")
    case True
    with 2 show ?thesis by simp
  next
    case False
    let ?new = "bt_insert next (Some name) previous"
    have new: "chained r from (bt_get ?new)" "bt_get ?new name \<noteq> None"
      using "2.prems" False by (auto simp: btree_simps intro: chained_insert)
    show ?thesis
    proof (cases "next = to")
      case True
      with "2.prems"(1) False have "previous' = ?new" by (simp add: Let_def)
      moreover have "bt_get ?new to \<noteq> None" using True by (simp add: btree_simps)
      ultimately show ?thesis using True new(1) False by (simp add: bt_contains_def)
    next
      case ne: False
      with "2.prems"(1) False
      have "alternate_visit to name nexts ?new (queue @ [next]) = Inl previous'" by (simp add: Let_def)
      with "2.IH"(2) [OF False refl ne this new] "2.prems"(4) ne show ?thesis
        by (simp add: btree_simps)
    qed
  qed
qed simp

lemma alternate_visit_continue:
  assumes "alternate_visit to name nexts previous queue = Inr (previous', queue')"
    and "chained r from (bt_get previous)" and "bt_get previous name \<noteq> None"
    and "\<forall>y \<in> set nexts. r name y"
  shows "chained r from (bt_get previous')
    \<and> set (bt_keys previous') = set (bt_keys previous) \<union> set nexts
    \<and> set queue' = set queue \<union> (set nexts - set (bt_keys previous))
    \<and> (bt_contains previous' to \<longleftrightarrow> bt_contains previous to)"
  using assms
proof (induction to name nexts previous queue rule: alternate_visit.induct)
  case (2 to name "next" nexts previous queue)
  show ?case
  proof (cases "bt_contains previous next")
    case True
    with 2 show ?thesis by (auto simp: bt_contains_keys)
  next
    case False
    let ?new = "bt_insert next (Some name) previous"
    have new: "chained r from (bt_get ?new)" "bt_get ?new name \<noteq> None"
      using "2.prems" False by (auto simp: btree_simps intro: chained_insert)
    from "2.prems"(1) False have ne: "next \<noteq> to"
      and rec: "alternate_visit to name nexts ?new (queue @ [next]) = Inr (previous', queue')"
      by (auto simp: Let_def split: if_splits)
    from "2.IH"(2) [OF False refl ne rec new] "2.prems"(4) ne False show ?thesis
      by (auto simp: bt_keys_insert bt_contains_keys)
  qed
qed simp

definition bfs_inv ::
  "graph \<Rightarrow> string \<Rightarrow> string \<Rightarrow> (string, string option) btree_map \<Rightarrow> string list \<Rightarrow> bool" where
  "bfs_inv g from to previous queue \<longleftrightarrow>
     chained (alternate_step g from to) from (bt_get previous)
     \<and> bt_contains previous from \<and> set queue \<subseteq> set (bt_keys previous)
     \<and> (\<forall>x \<in> set (bt_keys previous). x \<in> set queue
          \<or> set (alternate_succs g from to x) \<subseteq> set (bt_keys previous))"

lemma alternate_loop_found:
  assumes "alternate_loop g from to previous queue = Some previous'"
    and "bfs_inv g from to previous queue"
  shows "chained (alternate_step g from to) from (bt_get previous') \<and> bt_contains previous' to
    \<and> \<not> bt_contains previous to"
  using assms
proof (induction g "from" to previous queue rule: alternate_loop.induct)
  case (2 g "from" to previous name queue)
  let ?r = "alternate_step g from to" and ?succs = "alternate_succs g from to name"
  have pre: "chained ?r from (bt_get previous)" "bt_get previous name \<noteq> None"
    "\<forall>y \<in> set ?succs. ?r name y"
    using "2.prems"(2) by (auto simp: bfs_inv_def bt_contains_keys [symmetric] bt_contains_def
      set_alternate_succs)
  show ?case
  proof (cases "alternate_visit to name ?succs previous queue")
    case (Inl m)
    with "2.prems"(1) alternate_visit_found [OF Inl pre] show ?thesis
      by (simp add: bt_contains_def)
  next
    case (Inr p)
    then obtain m q where v: "alternate_visit to name ?succs previous queue = Inr (m, q)"
      by (cases p) auto
    note c = alternate_visit_continue [OF v pre]
    have "bfs_inv g from to m q"
      using "2.prems"(2) c unfolding bfs_inv_def by (auto simp: bt_contains_keys)
    with "2.IH" [OF v refl] "2.prems"(1) v c show ?thesis by auto
  qed
qed simp

lemma alternate_loop_not_found:
  assumes "alternate_loop g from to previous queue = None"
    and "bfs_inv g from to previous queue"
  shows "(alternate_step g from to)\<^sup>*\<^sup>* from to \<longrightarrow> bt_contains previous to"
  using assms
proof (induction g "from" to previous queue rule: alternate_loop.induct)
  case (1 g "from" to previous)
  have "bt_contains previous x" if "(alternate_step g from to)\<^sup>*\<^sup>* from x" for x
    using that 1 by (induction rule: rtranclp_induct)
      (auto simp: bfs_inv_def bt_contains_keys set_alternate_succs)
  then show ?case by blast
next
  case (2 g "from" to previous name queue)
  let ?r = "alternate_step g from to" and ?succs = "alternate_succs g from to name"
  have pre: "chained ?r from (bt_get previous)" "bt_get previous name \<noteq> None"
    "\<forall>y \<in> set ?succs. ?r name y"
    using "2.prems"(2) by (auto simp: bfs_inv_def bt_contains_keys [symmetric] bt_contains_def
      set_alternate_succs)
  from "2.prems"(1) obtain m q where v: "alternate_visit to name ?succs previous queue = Inr (m, q)"
    by (auto split: sum.splits)
  note c = alternate_visit_continue [OF v pre]
  have "bfs_inv g from to m q"
    using "2.prems"(2) c unfolding bfs_inv_def by (auto simp: bt_contains_keys)
  with "2.IH" [OF v refl] "2.prems"(1) v c show ?case by auto
qed

lemma bfs_inv_start: "bfs_inv g from to (bt_insert from None []) [from]"
proof -
  have "chain (alternate_step g from to) from (bt_get [(from, None)]) from [from]"
    by (rule chain_root) (simp add: bt_get_def)
  then show ?thesis
    by (auto simp: bfs_inv_def chained_def bt_contains_def bt_get_def bt_keys_def)
qed

lemma alternate_dependency_path_cases:
  obtains (none) "alternate_dependency_path g from to = Some None"
      "from = to \<or> \<not> (alternate_step g from to)\<^sup>*\<^sup>* from to"
  | (path) p where "alternate_dependency_path g from to = Some (Some p)" "from \<noteq> to"
      "is_path (alternate_step g from to) p" "hd p = from" "last p = to"
proof (cases "alternate_loop g from to (bt_insert from None []) [from]")
  case None
  from alternate_loop_not_found [OF None bfs_inv_start]
  have "from = to \<or> \<not> (alternate_step g from to)\<^sup>*\<^sup>* from to"
    by (auto simp: bt_contains_def btree_simps bt_get_def split: if_splits)
  with None none show ?thesis by (simp add: alternate_dependency_path_def)
next
  case (Some previous)
  from alternate_loop_found [OF Some bfs_inv_start]
  have ne: "from \<noteq> to" and "bt_get previous to \<noteq> None"
    and "chained (alternate_step g from to) from (bt_get previous)"
    by (auto simp: bt_contains_def bt_get_def)
  then obtain p where p: "chain (alternate_step g from to) from (bt_get previous) to p"
    unfolding chained_def by blast
  have "alternate_dependency_path g from to = Some (Some p)"
    using Some path_back_chain [OF p, of "[]"] by (simp add: alternate_dependency_path_def)
  with ne chain_is_path [OF p] path show ?thesis by blast
qed

end
