(* ===== verification/Compiler.thy ===== *)
theory Compiler
  imports Graph_Search
begin

text \<open>
  \<open>backend/src/compiler.rs\<close>: the checks a graph must pass, the execution batches of its plan, the
  warnings, and the path-safe id of a node name.  Parameters: \<open>lower\<close> is \<open>str::to_lowercase\<close>
  (Unicode case folding) and \<open>hash_object\<close> is \<open>git2::Oid::hash_object\<close> on a blob, in hex.
  Messages are built as the code builds them, so that the diagnostics are the code's, in order.
\<close>

section \<open>Path-safe node ids\<close>

definition is_windows_reserved_name :: "string \<Rightarrow> bool" where
  "is_windows_reserved_name name =
     (let device = to_ascii_lowercase (takeWhile (\<lambda>c. c \<noteq> CHR ''.'') name)
      in device \<in> set [''con'', ''prn'', ''aux'', ''nul'', ''conin$'', ''conout$'']
         \<or> ((starts_with device ''com'' \<or> starts_with device ''lpt'')
            \<and> char_count device = 4
            \<and> device \<noteq> [] \<and> last device \<in> set ''123456789''))"

definition is_legacy_node_id :: "string \<Rightarrow> bool" where
  "is_legacy_node_id name \<longleftrightarrow>
     name \<noteq> [] \<and> length name \<le> 64
     \<and> (\<forall>c \<in> set name. is_ascii_alphanumeric c \<or> c = CHR ''_'' \<or> c = CHR ''-'')
     \<and> \<not> is_windows_reserved_name name"

text \<open>
  The code loops over characters; every byte of a character beyond ASCII is no ASCII alphanumeric,
  and a run of such bytes adds one separator as one character does, so the loop over bytes agrees.
\<close>

definition slug_char :: "char \<Rightarrow> string \<times> bool \<Rightarrow> string \<times> bool" where
  "slug_char c = (\<lambda>(slug, separator).
     if is_ascii_alphanumeric c then (slug @ [ascii_lower_char c], False)
     else if \<not> separator \<and> slug \<noteq> [] then (slug @ ''-'', True)
     else (slug, separator))"

definition pop_dashes :: "string \<Rightarrow> string" where
  "pop_dashes slug = rev (dropWhile (\<lambda>c. c = CHR ''-'') (rev slug))"

definition slug_of :: "string \<Rightarrow> string" where
  "slug_of name =
     (let slug = pop_dashes (fst (fold slug_char name ([], False)));
          slug = (if 24 < length slug then pop_dashes (take 24 slug) else slug)
      in if slug = [] then ''node'' else slug)"

definition node_id :: "(string \<Rightarrow> string option) \<Rightarrow> string \<Rightarrow> string" where
  "node_id hash_object name =
     (if is_legacy_node_id name then name
      else
        let slug = slug_of name;
            digest = (case hash_object name of Some oid \<Rightarrow> oid | None \<Rightarrow> replicate 40 (CHR ''0''));
            short = (if 12 \<le> length digest then take 12 digest else digest)
        in slug @ ''.'' @ short)"

section \<open>Diagnostics\<close>

record diagnostic =
  dg_code :: string
  dg_message :: string

definition diagnostic_of :: "string \<Rightarrow> string list \<Rightarrow> diagnostic" where
  "diagnostic_of code parts = \<lparr>dg_code = code, dg_message = concat parts\<rparr>"

text \<open>The arrow of the messages, \<open>U+2192\<close> between spaces, and a name between apostrophes.\<close>

definition arrow :: string where
  "arrow = [CHR '' '', CHR 0xE2, CHR 0x86, CHR 0x92, CHR '' '']"

definition quoted :: "string \<Rightarrow> string" where
  "quoted s = [CHR 0x27] @ s @ [CHR 0x27]"

definition unremovable_node_diagnostics :: "graph \<Rightarrow> string list \<Rightarrow> diagnostic list" where
  "unremovable_node_diagnostics g unremovable =
     map (\<lambda>name. diagnostic_of ''E210''
           [''Cannot remove node '', quoted name,
            '': its workspace state is already published in this run.''])
       (filter (\<lambda>name. \<not> (\<exists>n \<in> set (gr_nodes g). nd_name n = name)) unremovable)"

section \<open>Checking nodes and edges\<close>

text \<open>The state of the node loop: the errors, \<open>names\<close> and \<open>folded_names\<close>.\<close>

definition check_node ::
  "(string \<Rightarrow> string) \<Rightarrow> node
   \<Rightarrow> diagnostic list \<times> string list \<times> (string, string) btree_map
   \<Rightarrow> diagnostic list \<times> string list \<times> (string, string) btree_map" where
  "check_node lower n = (\<lambda>(errors, names, folded).
     let name = nd_name n;
         errors = errors @ (if name = [] then [diagnostic_of ''E201'' [''Node name must not be empty'']] else []);
         (errors, names, folded) =
           (if name \<in> set names
            then (errors @ [diagnostic_of ''E202'' [''Duplicate node: '', name]], names, folded)
            else
              (errors @ (case bt_get folded (lower name) of
                 None \<Rightarrow> []
               | Some previous \<Rightarrow> [diagnostic_of ''E202''
                   [''Node names '', quoted previous, '' and '', quoted name,
                    '' differ only by case and would collide on case-insensitive filesystems'']]),
               bs_insert name names, bt_insert (lower name) name folded));
         errors = errors @ (if trim (nd_task n) = [] then [diagnostic_of ''E203''
             [''Node '', quoted name, '' has an empty task. Each node must have a non-empty task description that will be passed to the executor.'']]
           else [])
     in (errors, names, folded))"

definition check_nodes ::
  "(string \<Rightarrow> string) \<Rightarrow> node list \<Rightarrow> diagnostic list \<Rightarrow> diagnostic list \<times> string list" where
  "check_nodes lower ns errors =
     (case fold (check_node lower) ns (errors, [], []) of (errors, names, folded) \<Rightarrow> (errors, names))"

text \<open>The edge loop; \<open>pairs\<close> is only tested for membership.\<close>

definition check_edge ::
  "string list \<Rightarrow> edge \<Rightarrow> diagnostic list \<times> (string \<times> string) list
   \<Rightarrow> diagnostic list \<times> (string \<times> string) list" where
  "check_edge names e = (\<lambda>(errors, pairs).
     let from = eg_from e; to = eg_to e;
         unknown = filter (\<lambda>n. n \<notin> set names) [from, to];
         errors = errors @ (if unknown \<noteq> [] then [diagnostic_of ''E204''
             [''Unknown endpoint in '', from, arrow, to, ''. Missing: '', join '', '' unknown,
              ''. Existing nodes: '', join '', '' names, ''.'']] else []);
         errors = errors @ (if from = to then [diagnostic_of ''E205'' [''Self edge is not allowed: '', from]] else []);
         errors = errors @ (if (from, to) \<in> set pairs
             then [diagnostic_of ''E206'' [''Duplicate edge: '', from, arrow, to]] else [])
     in (errors, (from, to) # pairs))"

definition check_edges :: "string list \<Rightarrow> edge list \<Rightarrow> diagnostic list \<Rightarrow> diagnostic list" where
  "check_edges names es errors = fst (fold (check_edge names) es (errors, []))"

definition feedback_targets :: "graph \<Rightarrow> (string, string list) btree_map" where
  "feedback_targets g =
     fold (\<lambda>e m. bt_update (eg_from e) (bs_insert (eg_to e)) (bt_entry (eg_from e) [] m))
       (filter eg_feedback (gr_edges g)) []"

definition feedback_target_errors :: "graph \<Rightarrow> diagnostic list" where
  "feedback_target_errors g =
     map (\<lambda>(source, targets). diagnostic_of ''E208''
           [''Feedback source '', source, '' has multiple targets: '', join '', '' targets,
            ''. A feedback verdict does not identify a target, so each source may have at most one feedback target. Consider restructuring feedback ownership rather than merely dropping routes: possible approaches include separate feedback sources for independent workstreams or a shared owner responsible for reworking the combined result. Choose what fits the task, and check that node tasks remain consistent with the resulting feedback routes.''])
       (filter (\<lambda>(source, targets). 1 < length targets) (feedback_targets g))"

section \<open>Execution batches\<close>

text \<open>\<open>Aborted\<close> is a panic (a degree below zero) or a loop that never ends; both are ruled out below.\<close>

datatype compile_error = Aborted | Diagnostics "diagnostic list"

definition dependencies :: "graph \<Rightarrow> edge list" where
  "dependencies g = filter (\<lambda>e. \<not> eg_feedback e) (gr_edges g)"

definition degrees_of :: "string list \<Rightarrow> edge list \<Rightarrow> (string, nat) btree_map" where
  "degrees_of names deps =
     fold (\<lambda>e m. bt_update (eg_to e) Suc (bt_entry (eg_to e) 0 m)) deps
       (bt_of_list (map (\<lambda>name. (name, 0)) names))"

text \<open>The edges of one ready node: decrement the degree of each target, collect those at zero.\<close>

fun release_edges ::
  "edge list \<Rightarrow> (string, nat) btree_map \<Rightarrow> string list
   \<Rightarrow> compile_error + ((string, nat) btree_map \<times> string list)" where
  "release_edges [] degrees next = Inr (degrees, next)"
| "release_edges (e # es) degrees next =
     (case bt_get degrees (eg_to e) of
        None \<Rightarrow> Inl (Diagnostics [diagnostic_of ''E204'' [''Unknown endpoint: '', eg_to e]])
      | Some 0 \<Rightarrow> Inl Aborted
      | Some (Suc degree) \<Rightarrow>
          release_edges es (bt_update (eg_to e) (\<lambda>d. d - 1) degrees)
            (if degree = 0 then bs_insert (eg_to e) next else next))"

fun release_batch ::
  "edge list \<Rightarrow> string list \<Rightarrow> (string, nat) btree_map \<Rightarrow> string list \<Rightarrow> string list
   \<Rightarrow> compile_error + ((string, nat) btree_map \<times> string list \<times> string list)" where
  "release_batch deps [] degrees visited next = Inr (degrees, visited, next)"
| "release_batch deps (name # names) degrees visited next =
     (case release_edges (filter (\<lambda>e. eg_from e = name) deps) degrees next of
        Inl err \<Rightarrow> Inl err
      | Inr (degrees, next) \<Rightarrow> release_batch deps names degrees (bs_insert name visited) next)"

lemma sum_bt_update_pred:
  "bt_get m k = Some (Suc d) \<Longrightarrow>
   sum_list (bt_values (bt_update k (\<lambda>d. d - 1) m)) < sum_list (bt_values m)"
proof (induction m)
  case (Cons a m)
  obtain k' v where a: "a = (k', v)" by fastforce
  have le: "sum_list (bt_values (bt_update k (\<lambda>d. d - 1) m)) \<le> sum_list (bt_values m)"
    by (induction m) (auto simp: bt_values_def bt_update_def)
  show ?case
    using Cons a le by (auto simp: bt_get_def bt_values_def bt_update_def split: if_splits)
qed (simp add: bt_get_def)

lemma release_edges_measure:
  "release_edges es degrees next = Inr (degrees', next') \<Longrightarrow>
   sum_list (bt_values degrees') \<le> sum_list (bt_values degrees) \<and>
   (next' \<noteq> next \<longrightarrow> sum_list (bt_values degrees') < sum_list (bt_values degrees))"
proof (induction es degrees "next" rule: release_edges.induct)
  case (2 e es degrees "next")
  then show ?case
    using sum_bt_update_pred [of degrees "eg_to e"]
    by (fastforce split: option.splits nat.splits)
qed simp

lemma release_batch_measure:
  "release_batch deps names degrees visited next = Inr (degrees', visited', next') \<Longrightarrow>
   sum_list (bt_values degrees') \<le> sum_list (bt_values degrees) \<and>
   (next' \<noteq> next \<longrightarrow> sum_list (bt_values degrees') < sum_list (bt_values degrees))"
proof (induction deps names degrees visited "next" rule: release_batch.induct)
  case (2 deps name names degrees visited "next")
  then show ?case
    using release_edges_measure [of "filter (\<lambda>e. eg_from e = name) deps" degrees "next"]
    by (fastforce split: sum.splits prod.splits)
qed simp

function batch_loop ::
  "edge list \<Rightarrow> string list list \<Rightarrow> string list \<Rightarrow> (string, nat) btree_map \<Rightarrow> string list
   \<Rightarrow> compile_error + (string list list \<times> string list)" where
  "batch_loop deps batches ready degrees visited =
     (if ready = [] then Inr (batches, visited)
      else case release_batch deps ready degrees visited [] of
        Inl err \<Rightarrow> Inl err
      | Inr (degrees, visited, next) \<Rightarrow> batch_loop deps (batches @ [ready]) next degrees visited)"
  by pat_completeness auto
termination
proof (relation "measure (\<lambda>(deps, batches, ready, degrees, visited).
    2 * sum_list (bt_values degrees) + (if ready = [] then 0 else 1))", simp)
  fix deps and batches :: "string list list" and ready degrees visited p degrees' q visited' "next"
  assume "ready \<noteq> []" and r: "release_batch deps ready degrees visited [] = Inr p"
    "(degrees', q) = p" "(visited', next) = q"
  with release_batch_measure [of deps ready degrees visited "[]" degrees' visited' "next"]
  show "((deps, batches @ [ready], next, degrees', visited'), (deps, batches, ready, degrees, visited))
    \<in> measure (\<lambda>(deps, batches, ready, degrees, visited).
        2 * sum_list (bt_values degrees) + (if ready = [] then 0 else 1))"
    by auto
qed

declare batch_loop.simps [simp del]

section \<open>The compiler\<close>

definition feedback_path_errors :: "graph \<Rightarrow> diagnostic list" where
  "feedback_path_errors g =
     map (\<lambda>e. diagnostic_of ''E207''
           [''Feedback '', eg_from e, arrow, eg_to e, '' requires a dependency path from '', eg_to e,
            '' to '', eg_from e, ''. Nodes currently reachable from '', eg_to e,
            '' through dependencies: '', join '', '' (downstream g (eg_to e)),
            ''. Feedback does not provide execution ordering.''])
       (filter (\<lambda>e. eg_feedback e \<and> eg_from e \<notin> set (downstream g (eg_to e))) (gr_edges g))"

text \<open>\<open>None\<close> when a path search would not end.\<close>

fun redundancy_errors :: "graph \<Rightarrow> edge list \<Rightarrow> diagnostic list option" where
  "redundancy_errors g [] = Some []"
| "redundancy_errors g (e # es) =
     (case alternate_dependency_path g (eg_from e) (eg_to e) of
        None \<Rightarrow> None
      | Some None \<Rightarrow> redundancy_errors g es
      | Some (Some path) \<Rightarrow>
          map_option ((#) (diagnostic_of ''E209''
            [''Redundant dependency '', eg_from e, arrow, eg_to e, ''. Remove this direct edge: '',
             join arrow path,
             '' already provides execution ordering and carries upstream project-file results to '',
             eg_to e, ''.''])) (redundancy_errors g es))"

definition task_nodes :: "graph \<Rightarrow> (string, string list) btree_map" where
  "task_nodes g =
     fold (\<lambda>n m. bt_update (nd_task n) (bs_insert (nd_name n)) (bt_entry (nd_task n) [] m))
       (gr_nodes g) []"

definition plan_warnings :: "graph \<Rightarrow> string list" where
  "plan_warnings g =
     map (\<lambda>ns. concat [''W301: Nodes '', join '', '' ns,
           '' have identical task text; they may duplicate work. Confirm that this is intentional.''])
       (filter (\<lambda>ns. 1 < length ns) (bt_values (task_nodes g)))
     @ map (\<lambda>n. concat [''W302: '', nd_name n,
           '' mentions <FEEDBACK> but has no outgoing feedback edge; the marker cannot send feedback.''])
       (filter (\<lambda>n. contains_str (nd_task n) ''<FEEDBACK>''
          \<and> \<not> (\<exists>e \<in> set (gr_edges g). eg_feedback e \<and> eg_from e = nd_name n)) (gr_nodes g))
     @ map (\<lambda>e. concat [''W303: If <FEEDBACK> from '', eg_from e, '' to '', eg_to e,
           '' is applied, the target and dependency descendants will be invalidated: '',
           join '', '' (downstream g (eg_to e)), ''. Completed results must be recomputed; '', eg_to e,
           '' continues from its own conversation history. Nodes outside this set are unaffected.''])
       (filter eg_feedback (gr_edges g))"

definition cycle_error :: "edge list \<Rightarrow> string list \<Rightarrow> string list \<Rightarrow> diagnostic" where
  "cycle_error deps names visited = diagnostic_of ''E101''
     [''Dependency cycle detected. Nodes in or blocked by the cycle: '',
      join '', '' (filter (\<lambda>n. n \<notin> set visited) names),
      ''. Dependency edges within this unresolved set: '',
      join '', '' (map (\<lambda>e. concat [eg_from e, arrow, eg_to e])
        (filter (\<lambda>e. eg_from e \<notin> set visited \<and> eg_to e \<notin> set visited) deps)), ''.'']"

definition static_errors :: "(string \<Rightarrow> string) \<Rightarrow> graph \<Rightarrow> bool \<Rightarrow> diagnostic list \<times> string list" where
  "static_errors lower g final_check =
     (let errors = (if final_check \<and> gr_nodes g = []
            then [diagnostic_of ''E001'' [''Graph must contain at least one node'']] else []);
          (errors, names) = check_nodes lower (gr_nodes g) errors;
          errors = check_edges names (gr_edges g) errors
      in (errors @ feedback_target_errors g, names))"

definition compile_with_policy ::
  "(string \<Rightarrow> string) \<Rightarrow> graph \<Rightarrow> bool \<Rightarrow> bool \<Rightarrow> compile_error + plan" where
  "compile_with_policy lower g final_check reject_redundant =
     (let (errors, names) = static_errors lower g final_check in
      if errors \<noteq> [] then Inl (Diagnostics errors) else
      let deps = dependencies g;
          degrees = degrees_of names deps;
          roots = map fst (filter (\<lambda>(name, degree). degree = 0) degrees);
          terminals = filter (\<lambda>name. \<not> (\<exists>e \<in> set deps. eg_from e = name)) names
      in case batch_loop deps [] roots degrees [] of
           Inl err \<Rightarrow> Inl err
         | Inr (batches, visited) \<Rightarrow>
             if length visited \<noteq> length names
             then Inl (Diagnostics [cycle_error deps names visited]) else
             let errors = feedback_path_errors g in
             if errors \<noteq> [] then Inl (Diagnostics errors) else
             (case (if reject_redundant then redundancy_errors g deps else Some []) of
                None \<Rightarrow> Inl Aborted
              | Some errors \<Rightarrow>
                  if errors \<noteq> [] then Inl (Diagnostics errors)
                  else Inr \<lparr>pl_execution_batches = batches, pl_root_nodes = roots,
                            pl_terminals = terminals, pl_warnings = plan_warnings g\<rparr>))"

definition compile :: "(string \<Rightarrow> string) \<Rightarrow> graph \<Rightarrow> bool \<Rightarrow> compile_error + plan" where
  "compile lower g final_check = compile_with_policy lower g final_check True"

definition compile_legacy :: "(string \<Rightarrow> string) \<Rightarrow> graph \<Rightarrow> bool \<Rightarrow> compile_error + plan" where
  "compile_legacy lower g final_check = compile_with_policy lower g final_check False"


section \<open>What the static checks establish\<close>

lemma check_nodes_iff:
  assumes "fold (check_node lower) ns (errors, names, folded) = (errors', names', folded')"
  shows "set names' = set names \<union> nd_name ` set ns
    \<and> (sorted_wrt (<) names \<longrightarrow> sorted_wrt (<) names')
    \<and> (errors' = [] \<longleftrightarrow> errors = [] \<and> (\<forall>n \<in> set ns. nd_name n \<noteq> [] \<and> trim (nd_task n) \<noteq> [])
        \<and> distinct (map nd_name ns) \<and> set names \<inter> nd_name ` set ns = {}
        \<and> distinct (map (\<lambda>n. lower (nd_name n)) ns)
        \<and> set (bt_keys folded) \<inter> (\<lambda>n. lower (nd_name n)) ` set ns = {})"
  using assms
proof (induction ns arbitrary: errors names folded)
  case (Cons n ns)
  obtain errors1 names1 folded1 where step: "check_node lower n (errors, names, folded) = (errors1, names1, folded1)"
    by (metis prod_cases3)
  have names1: "set names1 = insert (nd_name n) (set names)"
    "sorted_wrt (<) names \<longrightarrow> sorted_wrt (<) names1"
    using step by (auto simp: check_node_def Let_def bs_insert_sorted split: if_splits)
  have none: "errors1 = [] \<longleftrightarrow> errors = [] \<and> nd_name n \<noteq> [] \<and> trim (nd_task n) \<noteq> []
      \<and> nd_name n \<notin> set names \<and> lower (nd_name n) \<notin> set (bt_keys folded)"
    using step by (auto simp: check_node_def Let_def bt_contains_keys [symmetric] bt_contains_def
      split: if_splits option.splits)
  have folded1: "nd_name n \<notin> set names \<Longrightarrow> folded1 = bt_insert (lower (nd_name n)) (nd_name n) folded"
    using step by (simp add: check_node_def Let_def)
  from Cons.prems have "fold (check_node lower) ns (errors1, names1, folded1) = (errors', names', folded')"
    by (simp add: step)
  note IH = Cons.IH [OF this]
  show ?case
  proof (cases "errors1 = []")
    case True
    with none folded1 have "set (bt_keys folded1) = insert (lower (nd_name n)) (set (bt_keys folded))"
      by (simp add: bt_keys_insert)
    with IH names1 none True show ?thesis by auto
  next
    case False
    with IH names1 none show ?thesis by auto
  qed
qed auto

lemma check_edges_iff:
  "check_edges names es errors = [] \<longleftrightarrow>
     errors = [] \<and> (\<forall>e \<in> set es. eg_from e \<in> set names \<and> eg_to e \<in> set names \<and> eg_from e \<noteq> eg_to e)
     \<and> distinct (map (\<lambda>e. (eg_from e, eg_to e)) es)"
proof -
  have "fst (fold (check_edge names) es (errors, pairs)) = [] \<longleftrightarrow>
      errors = [] \<and> (\<forall>e \<in> set es. eg_from e \<in> set names \<and> eg_to e \<in> set names \<and> eg_from e \<noteq> eg_to e)
      \<and> distinct (map (\<lambda>e. (eg_from e, eg_to e)) es)
      \<and> set pairs \<inter> (\<lambda>e. (eg_from e, eg_to e)) ` set es = {}" for pairs
  proof (induction es arbitrary: errors pairs)
    case (Cons e es)
    obtain errors1 where step: "check_edge names e (errors, pairs) = (errors1, (eg_from e, eg_to e) # pairs)"
      by (simp add: check_edge_def Let_def)
    have "errors1 = [] \<longleftrightarrow> errors = [] \<and> eg_from e \<in> set names \<and> eg_to e \<in> set names
        \<and> eg_from e \<noteq> eg_to e \<and> (eg_from e, eg_to e) \<notin> set pairs"
      using step by (auto simp: check_edge_def Let_def split: if_splits)
    with Cons.IH [of errors1 "(eg_from e, eg_to e) # pairs"] step show ?case by auto
  qed auto
  from this [of "[]"] show ?thesis by (simp add: check_edges_def)
qed

text \<open>A grouping loop (\<open>entry(key).or_default().insert(value)\<close>) collects, per key, its values.\<close>

lemma get_grouped:
  "bt_get (fold (\<lambda>x m. bt_update (k x) (bs_insert (v x)) (bt_entry (k x) [] m)) xs m) key =
     (if key \<in> k ` set xs
      then Some (fold (\<lambda>x. bs_insert (v x)) (filter (\<lambda>x. k x = key) xs)
             (case bt_get m key of Some vs \<Rightarrow> vs | None \<Rightarrow> []))
      else bt_get m key)"
proof (induction xs arbitrary: m)
  case (Cons x xs)
  have none: "filter (\<lambda>y. k y = k x) xs = []" if "k x \<notin> k ` set xs"
    using that by (metis (mono_tags, lifting) filter_False image_eqI)
  show ?case
    by (simp add: Cons.IH) (auto simp: btree_simps none split: option.splits)
qed simp

lemma set_fold_bs_insert: "set (fold (\<lambda>x. bs_insert (v x)) xs vs) = set vs \<union> v ` set xs"
  by (induction xs arbitrary: vs) auto

lemma sorted_fold_bs_insert:
  "sorted_wrt (<) vs \<Longrightarrow> sorted_wrt (<) (fold (\<lambda>x. bs_insert (v x)) xs vs)"
  by (induction xs arbitrary: vs) (auto simp: bs_insert_sorted)

lemma bt_wf_grouped:
  "bt_wf m \<Longrightarrow> bt_wf (fold (\<lambda>x m. bt_update (k x) (bs_insert (v x)) (bt_entry (k x) [] m)) xs m)"
  by (induction xs arbitrary: m) (auto simp: bt_wf_entry bt.wf_update)

lemma bt_get_iff: "bt_wf m \<Longrightarrow> bt_get m k = Some v \<longleftrightarrow> (k, v) \<in> set m"
  by (simp add: bt_get_def bt_wf_distinct)

lemma length_le_1_iff: "distinct xs \<Longrightarrow> length xs \<le> 1 \<longleftrightarrow> (\<forall>x \<in> set xs. \<forall>y \<in> set xs. x = y)"
  by (cases xs; cases "tl xs") auto

lemma feedback_target_errors_iff:
  "feedback_target_errors g = [] \<longleftrightarrow>
     (\<forall>e \<in> set (gr_edges g). \<forall>e' \<in> set (gr_edges g).
        eg_feedback e \<longrightarrow> eg_feedback e' \<longrightarrow> eg_from e = eg_from e' \<longrightarrow> eg_to e = eg_to e')"
    (is "?L \<longleftrightarrow> ?R")
proof -
  let ?m = "feedback_targets g"
  let ?ts = "\<lambda>s. fold (\<lambda>e. bs_insert (eg_to e)) (filter (\<lambda>e. eg_from e = s) (filter eg_feedback (gr_edges g))) []"
  have wf: "bt_wf ?m" unfolding feedback_targets_def by (rule bt_wf_grouped) simp
  have get: "bt_get ?m s = (if s \<in> eg_from ` set (filter eg_feedback (gr_edges g)) then Some (?ts s) else None)" for s
    unfolding feedback_targets_def get_grouped by (simp add: bt_get_def)
  have none: "length (?ts s) \<le> 1" if "s \<notin> eg_from ` set (filter eg_feedback (gr_edges g))" for s
  proof -
    have "filter (\<lambda>e. eg_from e = s) (filter eg_feedback (gr_edges g)) = []"
      using that by (metis (mono_tags, lifting) filter_False image_eqI)
    then show ?thesis by (metis One_nat_def fold_simps(1) le0 list.size(3))
  qed
  have "sorted_wrt (<) (?ts s)" for s by (rule sorted_fold_bs_insert) simp
  then have distinct: "distinct (?ts s)" for s using strict_sorted_iff by blast
  have members: "set (?ts s) = {eg_to e | e. e \<in> set (gr_edges g) \<and> eg_feedback e \<and> eg_from e = s}" for s
    by (auto simp: set_fold_bs_insert)
  note short = length_le_1_iff [OF distinct]
  have "?L \<longleftrightarrow> (\<forall>s ts. bt_get ?m s = Some ts \<longrightarrow> length ts \<le> 1)"
    by (force simp: feedback_target_errors_def filter_empty_conv bt_get_iff [OF wf])
  also have "\<dots> \<longleftrightarrow> (\<forall>s. length (?ts s) \<le> 1)"
    using none by (auto simp: get simp del: set_filter)
  also have "\<dots> \<longleftrightarrow> (\<forall>s. \<forall>x \<in> set (?ts s). \<forall>y \<in> set (?ts s). x = y)"
    by (simp only: short)
  also have "\<dots> \<longleftrightarrow> ?R" unfolding members by blast
  finally show ?thesis .
qed


section \<open>What the batches are\<close>

text \<open>Dependency edges into \<open>y\<close> from a set of sources.\<close>

definition indegree :: "edge list \<Rightarrow> string set \<Rightarrow> string \<Rightarrow> nat" where
  "indegree deps S y = length (filter (\<lambda>e. eg_to e = y \<and> eg_from e \<in> S) deps)"

lemma indegree_0: "indegree deps S y = 0 \<longleftrightarrow> (\<forall>e \<in> set deps. eg_to e = y \<longrightarrow> eg_from e \<notin> S)"
  by (auto simp: indegree_def filter_empty_conv)

lemma indegree_split:
  "S \<inter> T = {} \<Longrightarrow> indegree deps (S \<union> T) y = indegree deps S y + indegree deps T y"
  by (induction deps) (auto simp: indegree_def)

lemma release_edges_spec:
  assumes "\<forall>e \<in> set es. eg_to e \<in> set (bt_keys degrees)"
    and "\<forall>y. indegree es UNIV y \<le> the (bt_get degrees y)" and "sorted_wrt (<) next"
  obtains degrees' next' where "release_edges es degrees next = Inr (degrees', next')"
    and "bt_keys degrees' = bt_keys degrees"
    and "\<forall>y \<in> set (bt_keys degrees). bt_get degrees' y = Some (the (bt_get degrees y) - indegree es UNIV y)"
    and "set next' = set next \<union> {y \<in> eg_to ` set es. the (bt_get degrees y) = indegree es UNIV y}"
    and "sorted_wrt (<) next'"
  using assms
proof (induction es arbitrary: degrees "next" thesis)
  case Nil
  have "\<forall>y \<in> set (bt_keys degrees). bt_get degrees y = Some (the (bt_get degrees y))"
    using bt.set_keys [of degrees] by auto
  with Nil show ?case by (simp add: indegree_def)
next
  case (Cons e es)
  let ?to = "eg_to e"
  have pos: "0 < the (bt_get degrees ?to)"
    using Cons.prems(3) [rule_format, of ?to] by (simp add: indegree_def)
  moreover have "bt_get degrees ?to \<noteq> None"
    using Cons.prems(2) bt.set_keys [of degrees] by auto
  ultimately obtain d where d: "bt_get degrees ?to = Some (Suc d)"
    by (metis not0_implies_Suc not_less_iff_gr_or_eq option.collapse)
  let ?degrees = "bt_update ?to (\<lambda>d. d - Suc 0) degrees"
  let ?next = "if d = 0 then bs_insert ?to next else next"
  have step: "indegree (e # es) UNIV y = (if y = ?to then Suc (indegree es UNIV y) else indegree es UNIV y)" for y
    by (simp add: indegree_def)
  have get: "the (bt_get ?degrees y) = (if y = ?to then d else the (bt_get degrees y))" for y
    using d by (simp add: btree_simps)
  have le: "\<forall>y. indegree es UNIV y \<le> the (bt_get ?degrees y)"
  proof
    fix y
    show "indegree es UNIV y \<le> the (bt_get ?degrees y)"
      using Cons.prems(3) [rule_format, of y] d by (auto simp: get step split: if_splits)
  qed
  have keys: "bt_keys ?degrees = bt_keys degrees" by (simp add: btree_simps)
  have ends: "\<forall>e \<in> set es. eg_to e \<in> set (bt_keys ?degrees)" using Cons.prems(2) keys by simp
  have sorted: "sorted_wrt (<) ?next" using Cons.prems(4) by (simp add: bs_insert_sorted)
  obtain degrees' next' where rec: "release_edges es ?degrees ?next = Inr (degrees', next')"
    "bt_keys degrees' = bt_keys ?degrees"
    "\<forall>y \<in> set (bt_keys ?degrees). bt_get degrees' y = Some (the (bt_get ?degrees y) - indegree es UNIV y)"
    "set next' = set ?next \<union> {y \<in> eg_to ` set es. the (bt_get ?degrees y) = indegree es UNIV y}"
    "sorted_wrt (<) next'"
    by (rule Cons.IH [OF _ ends le sorted])
  have vals: "\<forall>y \<in> set (bt_keys degrees). bt_get degrees' y = Some (the (bt_get degrees y) - indegree (e # es) UNIV y)"
    using rec(3) d by (auto simp: keys get step)
  have zero: "indegree es UNIV y = 0 \<longleftrightarrow> y \<notin> eg_to ` set es" for y
    by (auto simp: indegree_0)
  have nexts: "set next' = set next \<union> {y \<in> eg_to ` set (e # es). the (bt_get degrees y) = indegree (e # es) UNIV y}"
    using rec(4) d zero [of ?to] le [rule_format, of ?to] by (auto simp: get step split: if_splits)
  show ?case
    using rec(1,2,5) d vals nexts keys by (intro Cons.prems(1)) auto
qed

lemma release_batch_flat:
  "release_edges (concat (map (\<lambda>name. filter (\<lambda>e. eg_from e = name) deps) names)) degrees next
     = Inr (degrees', next') \<Longrightarrow>
   release_batch deps names degrees visited next = Inr (degrees', fold bs_insert names visited, next')"
proof (induction deps names degrees visited "next" rule: release_batch.induct)
  case (2 deps name names degrees visited "next")
  have append: "release_edges (es @ fs) degrees next =
      (case release_edges es degrees next of Inl err \<Rightarrow> Inl err | Inr (d, n) \<Rightarrow> release_edges fs d n)" for es fs
    by (induction es degrees "next" rule: release_edges.induct) (auto split: option.split nat.split)
  from 2 show ?case by (fastforce simp: append split: sum.splits prod.splits)
qed simp

lemma indegree_concat:
  "distinct names \<Longrightarrow>
   indegree (concat (map (\<lambda>name. filter (\<lambda>e. eg_from e = name) deps) names)) UNIV y
     = indegree deps (set names) y"
proof (induction names)
  case (Cons name names)
  have "indegree (filter (\<lambda>e. eg_from e = name) deps) UNIV y = indegree deps {name} y"
    by (simp add: indegree_def conj_commute)
  moreover have "indegree deps (set (name # names)) y = indegree deps {name} y + indegree deps (set names) y"
    using Cons.prems indegree_split [of "{name}" "set names"] by simp
  moreover have "indegree (es @ fs) UNIV y = indegree es UNIV y + indegree fs UNIV y" for es fs
    by (simp add: indegree_def)
  ultimately show ?case using Cons by simp
qed (simp add: indegree_def)


text \<open>
  A layering: the predecessors of a node lie in earlier batches, and one of them in the batch just
  before, so a node runs as early as its dependencies allow.
\<close>

definition layering :: "graph \<Rightarrow> string list list \<Rightarrow> bool" where
  "layering g bs \<longleftrightarrow>
     (\<forall>i < length bs. \<forall>y \<in> set (bs ! i).
        (\<forall>x. dep_step g x y \<longrightarrow> x \<in> set (concat (take i bs)))
        \<and> (0 < i \<longrightarrow> (\<exists>x \<in> set (bs ! (i - 1)). dep_step g x y)))"

lemma layering_Nil [simp]: "layering g []"
  by (simp add: layering_def)

lemma layering_snoc:
  "layering g (bs @ [b]) \<longleftrightarrow> layering g bs
     \<and> (\<forall>y \<in> set b. (\<forall>x. dep_step g x y \<longrightarrow> x \<in> set (concat bs))
          \<and> (bs \<noteq> [] \<longrightarrow> (\<exists>x \<in> set (last bs). dep_step g x y)))"
proof -
  let ?at = "\<lambda>bs i. \<forall>y \<in> set (bs ! i). (\<forall>x. dep_step g x y \<longrightarrow> x \<in> set (concat (take i bs)))
        \<and> (0 < i \<longrightarrow> (\<exists>x \<in> set (bs ! (i - 1)). dep_step g x y))"
  have upto: "(\<forall>i < length (bs @ [b]). P i) \<longleftrightarrow> (\<forall>i < length bs. P i) \<and> P (length bs)" for P
    by (auto simp: less_Suc_eq)
  have old: "?at (bs @ [b]) i \<longleftrightarrow> ?at bs i" if "i < length bs" for i
  proof -
    have "(bs @ [b]) ! i = bs ! i" "(bs @ [b]) ! (i - 1) = bs ! (i - 1)" "take i (bs @ [b]) = take i bs"
      using that less_imp_diff_less [OF that, of 1] by (simp_all add: nth_append)
    then show ?thesis by simp
  qed
  have "layering g (bs @ [b]) \<longleftrightarrow> (\<forall>i < length bs. ?at (bs @ [b]) i) \<and> ?at (bs @ [b]) (length bs)"
    unfolding layering_def by (rule upto)
  also have "\<dots> \<longleftrightarrow> (\<forall>i < length bs. ?at bs i) \<and> ?at (bs @ [b]) (length bs)"
    using old by blast
  also have "?at (bs @ [b]) (length bs) \<longleftrightarrow> (\<forall>y \<in> set b. (\<forall>x. dep_step g x y \<longrightarrow> x \<in> set (concat bs))
          \<and> (bs \<noteq> [] \<longrightarrow> (\<exists>x \<in> set (last bs). dep_step g x y)))"
    by (cases "bs = []") (simp_all add: nth_append last_conv_nth)
  finally show ?thesis by (simp only: layering_def)
qed

lemma dep_step_dependencies: "dep_step g x y \<longleftrightarrow> (\<exists>e \<in> set (dependencies g). eg_from e = x \<and> eg_to e = y)"
  by (auto simp: dep_step_def dependencies_def)

text \<open>A layering of all nodes leaves no room for a cycle.\<close>

lemma layering_later:
  assumes "layering g bs" and "distinct (concat bs)" and "i < length bs" and "j < length bs"
    and "x \<in> set (bs ! i)" and "y \<in> set (bs ! j)" and "dep_step g x y"
  shows "i < j"
proof (rule ccontr)
  assume "\<not> i < j"
  have "x \<in> set (concat (take j bs))"
    using assms by (auto simp: layering_def)
  moreover have "x \<in> set (concat (drop j bs))"
  proof -
    have "bs ! i = drop j bs ! (i - j)" "i - j < length (drop j bs)" using assms \<open>\<not> i < j\<close> by auto
    with assms(5) show ?thesis by (metis UN_I nth_mem set_concat)
  qed
  ultimately show False
    using assms(2) by (metis append_take_drop_id concat_append disjoint_iff distinct_append)
qed

lemma layering_acyclic:
  assumes "layering g bs" and "distinct (concat bs)"
    and "\<And>x y. dep_step g x y \<Longrightarrow> x \<in> set (concat bs) \<and> y \<in> set (concat bs)"
  shows "acyclicP (dep_step g)"
proof -
  define rank where "rank x = (SOME i. i < length bs \<and> x \<in> set (bs ! i))" for x
  have rank: "rank x < length bs \<and> x \<in> set (bs ! rank x)" if x: "x \<in> set (concat bs)" for x
    unfolding rank_def by (rule someI_ex) (metis UN_E in_set_conv_nth set_concat x)
  have "{(x, y). dep_step g x y} \<subseteq> measure rank"
    using layering_later [OF assms(1,2)] assms(3) rank by (auto, blast)
  then show ?thesis by (metis wf_measure wf_subset wf_acyclic)
qed

lemma acyclic_no_kernel:
  assumes "acyclicP (dep_step g)" and "Q \<noteq> {}" and "\<And>y. y \<in> Q \<Longrightarrow> \<exists>x \<in> Q. dep_step g x y"
  shows False
proof -
  have "finite {(x, y). dep_step g x y}"
  proof (rule finite_subset)
    show "{(x, y). dep_step g x y} \<subseteq> (\<lambda>e. (eg_from e, eg_to e)) ` set (gr_edges g)"
      by (auto simp: dep_step_def)
  qed simp
  with assms(1) have "wf {(x, y). dep_step g x y}" by (simp add: finite_acyclic_wf)
  with assms(2,3) show False by (metis (mono_tags, lifting) case_prodI equals0I mem_Collect_eq wfE_min)
qed

text \<open>The invariant of the batch loop.\<close>

definition batch_inv ::
  "graph \<Rightarrow> string list \<Rightarrow> string list list \<Rightarrow> string list \<Rightarrow> (string, nat) btree_map \<Rightarrow> string list \<Rightarrow> bool" where
  "batch_inv g names batches ready degrees visited \<longleftrightarrow>
     set visited = set (concat batches) \<and> sorted_wrt (<) visited
     \<and> distinct (concat batches @ ready) \<and> set (concat batches @ ready) \<subseteq> set names
     \<and> sorted_wrt (<) ready \<and> [] \<notin> set batches \<and> (\<forall>b \<in> set batches. sorted_wrt (<) b)
     \<and> set (bt_keys degrees) = set names
     \<and> (\<forall>y \<in> set names. bt_get degrees y = Some (indegree (dependencies g) (- set visited) y)
          \<and> (y \<in> set visited \<union> set ready \<longleftrightarrow> indegree (dependencies g) (- set visited) y = 0))
     \<and> layering g (batches @ [ready])"

lemma batch_inv_step:
  assumes inv: "batch_inv g names batches ready degrees visited" and "ready \<noteq> []"
    and ends: "\<forall>e \<in> set (dependencies g). eg_from e \<in> set names \<and> eg_to e \<in> set names"
  obtains degrees' visited' next' where
    "release_batch (dependencies g) ready degrees visited [] = Inr (degrees', visited', next')"
    "batch_inv g names (batches @ [ready]) next' degrees' visited'"
proof -
  let ?deps = "dependencies g" and ?V = "set visited" and ?R = "set ready"
  let ?es = "concat (map (\<lambda>name. filter (\<lambda>e. eg_from e = name) ?deps) ready)"
  have split: "indegree ?deps (- ?V) y = indegree ?deps (- (?V \<union> ?R)) y + indegree ?deps ?R y" for y
  proof -
    have "- ?V = - (?V \<union> ?R) \<union> ?R" using inv by (auto simp: batch_inv_def)
    then show ?thesis using indegree_split [of "- (?V \<union> ?R)" ?R ?deps y] by simp
  qed
  have es: "indegree ?es UNIV y = indegree ?deps ?R y" for y
    using indegree_concat [of ready ?deps y] inv by (simp add: batch_inv_def)
  have out: "indegree ?deps S y = 0" if "y \<notin> set names" for y S
    using ends that by (auto simp: indegree_0)
  have degrees: "the (bt_get degrees y) = indegree ?deps (- ?V) y" if "y \<in> set names" for y
    using inv that by (simp add: batch_inv_def)
  have keys: "set (bt_keys degrees) = set names" using inv by (simp add: batch_inv_def)
  have bound: "\<forall>y. indegree ?es UNIV y \<le> the (bt_get degrees y)"
    using degrees out split by (metis es le_add2 zero_le)
  have targets: "\<forall>e \<in> set ?es. eg_to e \<in> set (bt_keys degrees)" using ends keys by auto
  obtain degrees' next' where rel: "release_edges ?es degrees [] = Inr (degrees', next')"
    and keys': "bt_keys degrees' = bt_keys degrees"
    and degrees': "\<forall>y \<in> set (bt_keys degrees). bt_get degrees' y = Some (the (bt_get degrees y) - indegree ?es UNIV y)"
    and next': "set next' = set [] \<union> {y \<in> eg_to ` set ?es. the (bt_get degrees y) = indegree ?es UNIV y}"
    and sorted': "sorted_wrt (<) next'"
    by (rule release_edges_spec [OF targets bound, of "[]"]) auto
  let ?visited = "fold bs_insert ready visited"
  have V': "set ?visited = ?V \<union> ?R" and sorted_V': "sorted_wrt (<) visited \<Longrightarrow> sorted_wrt (<) ?visited"
    using set_fold_bs_insert [of "\<lambda>x. x"] sorted_fold_bs_insert [of visited "\<lambda>x. x"] by auto
  have next_iff: "y \<in> set next' \<longleftrightarrow> indegree ?deps (- (?V \<union> ?R)) y = 0 \<and> indegree ?deps ?R y \<noteq> 0" for y
  proof -
    have "y \<in> eg_to ` set ?es \<longleftrightarrow> indegree ?deps ?R y \<noteq> 0"
      by (auto simp: indegree_0 image_iff)
    then show ?thesis
      using next' degrees [of y] out [of y] split [of y] by (cases "y \<in> set names") (auto simp: es)
  qed
  have values': "\<forall>y \<in> set names. bt_get degrees' y = Some (indegree ?deps (- (?V \<union> ?R)) y)"
    using degrees' degrees keys by (simp add: es split)
  have ready_iff: "y \<in> ?V \<union> ?R \<longleftrightarrow> indegree ?deps (- ?V) y = 0" if "y \<in> set names" for y
    using inv that unfolding batch_inv_def by blast
  have next_names: "set next' \<subseteq> set names" using next_iff out by blast
  have fresh: "set next' \<inter> (?V \<union> ?R) = {}"
    using next_iff next_names ready_iff split by fastforce
  have closed: "\<forall>y \<in> set names. y \<in> ?V \<union> ?R \<union> set next' \<longleftrightarrow> indegree ?deps (- (?V \<union> ?R)) y = 0"
    using ready_iff split next_iff by (metis Un_iff add_is_0 add_0)
  have layer: "layering g ((batches @ [ready]) @ [next'])"
  proof -
    have "(\<forall>x. dep_step g x y \<longrightarrow> x \<in> ?V \<union> ?R) \<and> (\<exists>x \<in> ?R. dep_step g x y)" if "y \<in> set next'" for y
      using that by (auto simp: next_iff indegree_0 dep_step_dependencies)
    then show ?thesis using inv by (subst layering_snoc) (auto simp: batch_inv_def)
  qed
  show ?thesis
  proof (rule that)
    show "release_batch ?deps ready degrees visited [] = Inr (degrees', ?visited, next')"
      by (rule release_batch_flat [OF rel])
    show "batch_inv g names (batches @ [ready]) next' degrees' ?visited"
      using inv assms(2) V' sorted_V' sorted' keys keys' values' closed fresh next_names layer
      by (auto simp: batch_inv_def strict_sorted_iff)
  qed
qed

end
