(* ===== verification/Compiler_Correct.thy ===== *)
theory Compiler_Correct
  imports Compiler
begin

text \<open>
  What \<open>compile\<close> decides: it never panics or loops, it accepts exactly the graphs satisfying
  \<open>graph_ok\<close>, and the plan of an accepted graph is a layering of its nodes.
\<close>

section \<open>Running the batch loop\<close>

lemma degrees_of_spec:
  assumes "\<forall>e \<in> set deps. eg_to e \<in> set names"
  shows "bt_wf (degrees_of names deps)" and "set (bt_keys (degrees_of names deps)) = set names"
    and "y \<in> set names \<Longrightarrow> bt_get (degrees_of names deps) y = Some (indegree deps UNIV y)"
proof -
  let ?init = "bt_of_list (map (\<lambda>name. (name, 0 :: nat)) names)"
  let ?step = "\<lambda>e m. bt_update (eg_to e) Suc (bt_entry (eg_to e) 0 m)"
  have init: "bt_wf ?init" "set (bt_keys ?init) = set names"
    by (simp_all add: bt_wf_of_list bt_keys_of_list image_image)
  have zero: "bt_get ?init y = Some 0" if "y \<in> set names" for y
  proof -
    have "bt_get ?init y \<noteq> None" using init(2) that bt.set_keys [of ?init] by auto
    then obtain v where v: "bt_get ?init y = Some v" by blast
    then have "(y, v) \<in> set (map (\<lambda>name. (name, 0)) names)"
      unfolding bt_get_of_list by (metis map_of_SomeD set_rev)
    with v show ?thesis by auto
  qed
  have "bt_wf m \<Longrightarrow> bt_wf (fold ?step ds m)" for ds m
    by (induction ds arbitrary: m) (auto simp: bt_wf_entry bt.wf_update)
  with init show "bt_wf (degrees_of names deps)" by (simp add: degrees_of_def)
  have "\<forall>e \<in> set ds. eg_to e \<in> set (bt_keys m) \<Longrightarrow> set (bt_keys (fold ?step ds m)) = set (bt_keys m)
      \<and> (y \<in> set (bt_keys m) \<longrightarrow>
           bt_get (fold ?step ds m) y = Some (the (bt_get m y) + indegree ds UNIV y))" for ds m
  proof (induction ds arbitrary: m)
    case Nil
    then show ?case using bt.set_keys [of m] by (auto simp: indegree_def)
  next
    case (Cons e ds)
    have "set (bt_keys (?step e m)) = set (bt_keys m)"
      using Cons.prems by (auto simp: btree_simps bt_keys_entry)
    moreover have "the (bt_get (?step e m) y) + indegree ds UNIV y = the (bt_get m y) + indegree (e # ds) UNIV y"
      if "y \<in> set (bt_keys m)"
      using that bt.set_keys [of m] by (auto simp: btree_simps indegree_def)
    ultimately show ?case using Cons.IH [of "?step e m"] Cons.prems by simp
  qed
  from this [of deps ?init] init assms zero
  show "set (bt_keys (degrees_of names deps)) = set names"
    and "y \<in> set names \<Longrightarrow> bt_get (degrees_of names deps) y = Some (indegree deps UNIV y)"
    by (auto simp: degrees_of_def)
qed

definition roots_of :: "(string, nat) btree_map \<Rightarrow> string list" where
  "roots_of degrees = map fst (filter (\<lambda>(name, degree). degree = 0) degrees)"

lemma sorted_roots: "bt_wf m \<Longrightarrow> sorted_wrt (<) (roots_of m)"
  unfolding roots_of_def bt_wf_def bt_keys_def by (induction m) auto

lemma set_roots: "bt_wf m \<Longrightarrow> set (roots_of m) = {y. bt_get m y = Some 0}"
  by (auto simp: roots_of_def bt_get_iff image_iff)

lemma roots_degrees:
  assumes "\<forall>e \<in> set deps. eg_to e \<in> set names"
  shows "set (roots_of (degrees_of names deps)) = {y \<in> set names. indegree deps UNIV y = 0}"
proof -
  note d = degrees_of_spec [OF assms]
  have "y \<in> set names" if "bt_get (degrees_of names deps) y = Some 0" for y
    using that d(2) bt.set_keys [of "degrees_of names deps"] by auto
  with d(1,3) show ?thesis by (fastforce simp: set_roots)
qed

lemma batch_inv_start:
  assumes "\<forall>e \<in> set (dependencies g). eg_from e \<in> set names \<and> eg_to e \<in> set names"
  shows "batch_inv g names [] (roots_of (degrees_of names (dependencies g))) (degrees_of names (dependencies g)) []"
proof -
  let ?d = "degrees_of names (dependencies g)"
  have d: "bt_wf ?d" "set (bt_keys ?d) = set names"
    "\<And>y. y \<in> set names \<Longrightarrow> bt_get ?d y = Some (indegree (dependencies g) UNIV y)"
    using assms degrees_of_spec by blast+
  have "set (roots_of ?d) = {y \<in> set names. indegree (dependencies g) UNIV y = 0}"
    using assms by (simp add: roots_degrees)
  moreover have "\<not> dep_step g x y" if "indegree (dependencies g) UNIV y = 0" for x y
    using that by (auto simp: indegree_0 dep_step_dependencies)
  ultimately show ?thesis
    using d sorted_roots [OF d(1)]
    by (auto simp: batch_inv_def strict_sorted_iff layering_snoc [of g "[]", simplified])
qed

lemma batch_loop_run:
  assumes "batch_inv g names batches ready degrees visited"
    and "\<forall>e \<in> set (dependencies g). eg_from e \<in> set names \<and> eg_to e \<in> set names"
  shows "\<exists>rest degrees' visited'. batch_loop (dependencies g) batches ready degrees visited = Inr (batches @ rest, visited')
    \<and> batch_inv g names (batches @ rest) [] degrees' visited'
    \<and> (if ready = [] then rest = [] else rest \<noteq> [] \<and> hd rest = ready)"
  using assms
proof (induction "dependencies g" batches ready degrees visited rule: batch_loop.induct)
  case (1 batches ready degrees visited)
  show ?case
  proof (cases "ready = []")
    case True
    with 1 show ?thesis by (auto simp: batch_loop.simps)
  next
    case False
    from batch_inv_step [OF "1.prems"(1) False "1.prems"(2)] obtain degrees' visited' next' where
      rel: "release_batch (dependencies g) ready degrees visited [] = Inr (degrees', visited', next')"
      and inv: "batch_inv g names (batches @ [ready]) next' degrees' visited'" by blast
    from "1.hyps" [OF False rel refl refl inv "1.prems"(2)] obtain rest degrees'' visited'' where
      "batch_loop (dependencies g) (batches @ [ready]) next' degrees' visited' = Inr (batches @ ready # rest, visited'')"
      "batch_inv g names (batches @ ready # rest) [] degrees'' visited''" by auto
    with False rel show ?thesis
      by (subst batch_loop.simps) (auto intro!: exI [of _ "ready # rest"])
  qed
qed

text \<open>When all nodes are visited there is no cycle, and conversely.\<close>

lemma visited_all_iff:
  assumes inv: "batch_inv g names bs [] degrees visited" and names: "sorted_wrt (<) names"
    and ends: "\<forall>e \<in> set (dependencies g). eg_from e \<in> set names \<and> eg_to e \<in> set names"
  shows "length visited = length names \<longleftrightarrow> acyclicP (dep_step g)"
    and "length visited = length names \<longleftrightarrow> set visited = set names"
proof -
  have V: "set visited = set (concat bs)" "set visited \<subseteq> set names" "distinct visited"
    using inv by (auto simp: batch_inv_def strict_sorted_iff)
  have "distinct names" using names by (simp add: strict_sorted_iff)
  with V show len: "length visited = length names \<longleftrightarrow> set visited = set names"
    by (metis card_subset_eq distinct_card finite_set)
  have "acyclicP (dep_step g)" if "set visited = set names"
  proof (rule layering_acyclic [of g bs])
    show "layering g bs" "distinct (concat bs)" using inv by (auto simp: batch_inv_def layering_snoc)
    show "x \<in> set (concat bs) \<and> y \<in> set (concat bs)" if "dep_step g x y" for x y
      using that ends V \<open>set visited = set names\<close> by (auto simp: dep_step_dependencies)
  qed
  moreover have "set visited = set names" if "acyclicP (dep_step g)"
  proof (rule ccontr)
    assume "set visited \<noteq> set names"
    show False
    proof (rule acyclic_no_kernel [OF that, of "set names - set visited"])
      show "set names - set visited \<noteq> {}" using \<open>set visited \<noteq> set names\<close> V by blast
      fix y
      assume y: "y \<in> set names - set visited"
      then have "indegree (dependencies g) (- set visited) y \<noteq> 0"
        using inv unfolding batch_inv_def by auto
      then show "\<exists>x \<in> set names - set visited. dep_step g x y"
        using ends by (auto simp: indegree_0 dep_step_dependencies)
    qed
  qed
  ultimately show "length visited = length names \<longleftrightarrow> acyclicP (dep_step g)" using len by blast
qed


section \<open>What is accepted\<close>

text \<open>The contract of \<open>compile\<close>, check by check (E001, E201, E203, E202, E204 to E206, E208).\<close>

definition static_ok :: "(string \<Rightarrow> string) \<Rightarrow> bool \<Rightarrow> graph \<Rightarrow> bool" where
  "static_ok lower final_check g \<longleftrightarrow>
     (final_check \<longrightarrow> gr_nodes g \<noteq> [])
     \<and> (\<forall>n \<in> set (gr_nodes g). nd_name n \<noteq> [] \<and> trim (nd_task n) \<noteq> [])
     \<and> distinct (map nd_name (gr_nodes g)) \<and> distinct (map (\<lambda>n. lower (nd_name n)) (gr_nodes g))
     \<and> (\<forall>e \<in> set (gr_edges g). eg_from e \<in> node_names g \<and> eg_to e \<in> node_names g \<and> eg_from e \<noteq> eg_to e)
     \<and> distinct (map (\<lambda>e. (eg_from e, eg_to e)) (gr_edges g))
     \<and> (\<forall>e \<in> set (gr_edges g). \<forall>e' \<in> set (gr_edges g).
          eg_feedback e \<longrightarrow> eg_feedback e' \<longrightarrow> eg_from e = eg_from e' \<longrightarrow> eg_to e = eg_to e')"

text \<open>Then the global conditions (E101, E207 and, for new graphs, E209).\<close>

definition graph_ok :: "(string \<Rightarrow> string) \<Rightarrow> bool \<Rightarrow> bool \<Rightarrow> graph \<Rightarrow> bool" where
  "graph_ok lower final_check reject_redundant g \<longleftrightarrow>
     static_ok lower final_check g \<and> acyclicP (dep_step g)
     \<and> (\<forall>e \<in> set (gr_edges g). eg_feedback e \<longrightarrow> (dep_step g)\<^sup>*\<^sup>* (eg_to e) (eg_from e))
     \<and> (reject_redundant \<longrightarrow>
          (\<forall>e \<in> set (gr_edges g). \<not> eg_feedback e \<longrightarrow>
             \<not> (alternate_step g (eg_from e) (eg_to e))\<^sup>*\<^sup>* (eg_from e) (eg_to e)))"

lemma static_errors_spec:
  assumes "static_errors lower g final_check = (errors, names)"
  shows "set names = node_names g" and "sorted_wrt (<) names"
    and "errors = [] \<longleftrightarrow> static_ok lower final_check g"
proof -
  define e0 where "e0 = (if final_check \<and> gr_nodes g = []
    then [diagnostic_of ''E001'' [''Graph must contain at least one node'']] else [])"
  obtain e1 folded where n: "fold (check_node lower) (gr_nodes g) (e0, [], []) = (e1, names, folded)"
    and errors: "errors = check_edges names (gr_edges g) e1 @ feedback_target_errors g"
    using assms by (auto simp: static_errors_def check_nodes_def e0_def [symmetric] split: prod.splits)
  note nodes = check_nodes_iff [OF n]
  show names: "set names = node_names g" using nodes by (simp add: node_names_def)
  show "sorted_wrt (<) names" using nodes by simp
  have "errors = [] \<longleftrightarrow> e1 = [] \<and> (\<forall>e \<in> set (gr_edges g). eg_from e \<in> set names \<and> eg_to e \<in> set names \<and> eg_from e \<noteq> eg_to e)
     \<and> distinct (map (\<lambda>e. (eg_from e, eg_to e)) (gr_edges g)) \<and> feedback_target_errors g = []"
    by (simp add: errors check_edges_iff)
  also have "e1 = [] \<longleftrightarrow> e0 = [] \<and> (\<forall>n \<in> set (gr_nodes g). nd_name n \<noteq> [] \<and> trim (nd_task n) \<noteq> [])
     \<and> distinct (map nd_name (gr_nodes g)) \<and> distinct (map (\<lambda>n. lower (nd_name n)) (gr_nodes g))"
    using nodes by (simp add: bt_keys_def)
  also have "e0 = [] \<longleftrightarrow> (final_check \<longrightarrow> gr_nodes g \<noteq> [])"
    by (auto simp: e0_def)
  finally show "errors = [] \<longleftrightarrow> static_ok lower final_check g"
    unfolding static_ok_def names feedback_target_errors_iff by meson
qed

lemma feedback_path_errors_iff:
  "feedback_path_errors g = [] \<longleftrightarrow>
     (\<forall>e \<in> set (gr_edges g). eg_feedback e \<longrightarrow> (dep_step g)\<^sup>*\<^sup>* (eg_to e) (eg_from e))"
  by (auto simp: feedback_path_errors_def filter_empty_conv down.search_iff)

lemma redundancy_errors_spec:
  assumes "\<forall>e \<in> set es. eg_from e \<noteq> eg_to e"
  shows "\<exists>errors. redundancy_errors g es = Some errors \<and> (errors = [] \<longleftrightarrow>
    (\<forall>e \<in> set es. \<not> (alternate_step g (eg_from e) (eg_to e))\<^sup>*\<^sup>* (eg_from e) (eg_to e)))"
  using assms
proof (induction es)
  case (Cons e es)
  then obtain errors where es: "redundancy_errors g es = Some errors" "errors = [] \<longleftrightarrow>
    (\<forall>e \<in> set es. \<not> (alternate_step g (eg_from e) (eg_to e))\<^sup>*\<^sup>* (eg_from e) (eg_to e))" by auto
  show ?case
  proof (cases rule: alternate_dependency_path_cases [of g "eg_from e" "eg_to e"])
    case none
    with es Cons.prems show ?thesis by auto
  next
    case (path p)
    with is_path_rtranclp [OF path(3)] es show ?thesis by auto
  qed
qed simp

text \<open>The outcome of \<open>compile_with_policy\<close>, in one statement for the properties.\<close>

lemma compile_with_policy_cases:
  obtains (rejected) errors where "compile_with_policy lower g final_check reject_redundant = Inl (Diagnostics errors)"
      "errors \<noteq> []" "\<not> graph_ok lower final_check reject_redundant g"
  | (accepted) p where "compile_with_policy lower g final_check reject_redundant = Inr p"
      "graph_ok lower final_check reject_redundant g"
      "layering g (pl_execution_batches p)" "distinct (concat (pl_execution_batches p))"
      "set (concat (pl_execution_batches p)) = node_names g" "[] \<notin> set (pl_execution_batches p)"
      "\<forall>b \<in> set (pl_execution_batches p). sorted_wrt (<) b"
      "pl_execution_batches p = [] \<or> hd (pl_execution_batches p) = pl_root_nodes p"
      "set (pl_root_nodes p) = {y \<in> node_names g. \<not> (\<exists>x. dep_step g x y)}"
      "set (pl_terminals p) = {x \<in> node_names g. \<not> (\<exists>y. dep_step g x y)}"
      "pl_warnings p = plan_warnings g"
proof -
  let ?c = "compile_with_policy lower g final_check reject_redundant" and ?deps = "dependencies g"
  obtain errors names where st: "static_errors lower g final_check = (errors, names)" by fastforce
  note static = static_errors_spec [OF st]
  show thesis
  proof (cases "static_ok lower final_check g")
    case False
    with static(3) st have "?c = Inl (Diagnostics errors)" "errors \<noteq> []" by (auto simp: compile_with_policy_def)
    with False show ?thesis using rejected by (simp add: graph_ok_def)
  next
    case True
    then have edges: "\<forall>e \<in> set ?deps. eg_from e \<in> set names \<and> eg_to e \<in> set names"
      and irrefl: "\<forall>e \<in> set ?deps. eg_from e \<noteq> eg_to e"
      by (auto simp: static_ok_def static(1) dependencies_def)
    let ?degrees = "degrees_of names ?deps"
    obtain bs degrees' visited where run: "batch_loop ?deps [] (roots_of ?degrees) ?degrees [] = Inr (bs, visited)"
      and inv: "batch_inv g names bs [] degrees' visited"
      and hd: "if roots_of ?degrees = [] then bs = [] else bs \<noteq> [] \<and> hd bs = roots_of ?degrees"
      using batch_loop_run [OF batch_inv_start [OF edges] edges] by auto
    note all = visited_all_iff [OF inv static(2) edges]
    obtain red where red: "redundancy_errors g ?deps = Some red" "red = [] \<longleftrightarrow>
        (\<forall>e \<in> set ?deps. \<not> (alternate_step g (eg_from e) (eg_to e))\<^sup>*\<^sup>* (eg_from e) (eg_to e))"
      using redundancy_errors_spec [OF irrefl] by blast
    define p where "p = \<lparr>pl_execution_batches = bs, pl_root_nodes = roots_of ?degrees,
      pl_terminals = filter (\<lambda>name. \<not> (\<exists>e \<in> set ?deps. eg_from e = name)) names,
      pl_warnings = plan_warnings g\<rparr>"
    have c: "?c = (if length visited \<noteq> length names then Inl (Diagnostics [cycle_error ?deps names visited])
      else if feedback_path_errors g \<noteq> [] then Inl (Diagnostics (feedback_path_errors g))
      else if reject_redundant \<and> red \<noteq> [] then Inl (Diagnostics red) else Inr p)"
      using True static(3) st run red by (simp add: compile_with_policy_def Let_def roots_of_def p_def)
    have ok: "graph_ok lower final_check reject_redundant g \<longleftrightarrow>
      length visited = length names \<and> feedback_path_errors g = [] \<and> (reject_redundant \<longrightarrow> red = [])"
      using True red(2) by (auto simp: graph_ok_def all(1) feedback_path_errors_iff dependencies_def)
    show ?thesis
    proof (cases "graph_ok lower final_check reject_redundant g")
      case False
      with c ok show ?thesis by (auto intro: rejected split: if_splits)
    next
      case good: True
      with c ok have "?c = Inr p" by simp
      moreover have "set (concat bs) = node_names g"
        using good ok all(2) static(1) inv by (simp add: batch_inv_def)
      moreover have "set (roots_of ?degrees) = {y \<in> node_names g. \<not> (\<exists>x. dep_step g x y)}"
        using edges by (auto simp: roots_degrees indegree_0 dep_step_dependencies static(1))
      moreover have "set (pl_terminals p) = {x \<in> node_names g. \<not> (\<exists>y. dep_step g x y)}"
        by (auto simp: p_def dep_step_dependencies static(1))
      moreover have "bs = [] \<or> hd bs = roots_of ?degrees" using hd by (auto split: if_splits)
      moreover have "layering g bs" "distinct (concat bs)" "[] \<notin> set bs" "\<forall>b \<in> set bs. sorted_wrt (<) b"
        using inv by (simp_all add: batch_inv_def layering_snoc)
      ultimately show ?thesis using good by (intro accepted [of p]) (simp_all add: p_def)
    qed
  qed
qed


section \<open>Properties of the compiler\<close>

text \<open>C3: the compiler always returns.  No graph, however malformed, makes it panic on a degree below
  zero or loop in the path rebuild, and a rejection always carries a diagnostic.\<close>

theorem compile_never_aborts:
  "compile_with_policy lower g final_check reject_redundant \<noteq> Inl Aborted
   \<and> compile_with_policy lower g final_check reject_redundant \<noteq> Inl (Diagnostics [])"
  by (cases rule: compile_with_policy_cases [of lower g final_check reject_redundant]) auto

text \<open>C1: the compiler accepts exactly the graphs that satisfy the conditions its diagnostics name:
  distinct nonempty names (also after case folding), nonblank tasks, known endpoints, no self or
  duplicate edge, one feedback target per source, acyclic dependencies, a dependency path under every
  feedback edge, and (for new graphs) no direct edge that a longer dependency path already implies.\<close>

theorem compile_accepts_iff:
  "(\<exists>p. compile_with_policy lower g final_check reject_redundant = Inr p)
     \<longleftrightarrow> graph_ok lower final_check reject_redundant g"
  by (cases rule: compile_with_policy_cases [of lower g final_check reject_redundant]) auto

text \<open>C2: the batches of an accepted graph list every node exactly once, none is empty, every
  dependency lies in an earlier batch, each node is in the batch right after one of its dependencies
  (so it runs as early as it can), the first batch is the set of roots, and roots and terminals are
  the nodes without incoming and without outgoing dependencies.\<close>

theorem plan_layering:
  assumes "compile_with_policy lower g final_check reject_redundant = Inr p"
  shows "layering g (pl_execution_batches p)
    \<and> distinct (concat (pl_execution_batches p))
    \<and> set (concat (pl_execution_batches p)) = node_names g
    \<and> [] \<notin> set (pl_execution_batches p)
    \<and> (pl_execution_batches p = [] \<or> hd (pl_execution_batches p) = pl_root_nodes p)
    \<and> set (pl_root_nodes p) = {y \<in> node_names g. \<not> (\<exists>x. dep_step g x y)}
    \<and> set (pl_terminals p) = {x \<in> node_names g. \<not> (\<exists>y. dep_step g x y)}"
  using assms by (cases rule: compile_with_policy_cases [of lower g final_check reject_redundant]) auto

definition sample_graph :: graph where
  "sample_graph = \<lparr>gr_original_goal = ''g'',
     gr_nodes = [\<lparr>nd_name = ''b'', nd_task = ''t''\<rparr>, \<lparr>nd_name = ''a'', nd_task = ''s''\<rparr>],
     gr_edges = [\<lparr>eg_from = ''a'', eg_to = ''b'', eg_feedback = False\<rparr>,
                 \<lparr>eg_from = ''b'', eg_to = ''a'', eg_feedback = True\<rparr>]\<rparr>"

definition sample_plan :: plan where
  "sample_plan = \<lparr>pl_execution_batches = [[''a''], [''b'']], pl_root_nodes = [''a''],
     pl_terminals = [''b''], pl_warnings = plan_warnings sample_graph\<rparr>"

lemma sample_compiles: "compile_with_policy id sample_graph True True = Inr sample_plan"
  by code_simp

theorem plan_layering_witness:
  "layering sample_graph [[''a''], [''b'']] \<and> node_names sample_graph = {''a'', ''b''}
   \<and> {y \<in> node_names sample_graph. \<not> (\<exists>x. dep_step sample_graph x y)} = {''a''}"
  using plan_layering [OF sample_compiles] by (auto simp: sample_plan_def)

text \<open>A graph that \<open>compile\<close> accepts replays under \<open>compile_legacy\<close> with the same plan, and
  a graph that only \<open>compile_legacy\<close> accepts has a redundant direct dependency.\<close>

theorem compile_legacy_extends:
  "case compile lower g final_check of
     Inr p \<Rightarrow> compile_legacy lower g final_check = Inr p
   | Inl _ \<Rightarrow> (case compile_legacy lower g final_check of
        Inl _ \<Rightarrow> True
      | Inr _ \<Rightarrow> \<exists>e \<in> set (gr_edges g). \<not> eg_feedback e
          \<and> (alternate_step g (eg_from e) (eg_to e))\<^sup>*\<^sup>* (eg_from e) (eg_to e))"
proof (cases "compile lower g final_check")
  case (Inr p)
  then have "compile_legacy lower g final_check = Inr p"
    by (auto simp: compile_def compile_legacy_def compile_with_policy_def Let_def
        split: sum.splits prod.splits option.splits if_splits)
  with Inr show ?thesis by simp
next
  case (Inl err)
  then have "\<not> graph_ok lower final_check True g"
    by (cases rule: compile_with_policy_cases [of lower g final_check True]) (auto simp: compile_def)
  moreover have "graph_ok lower final_check False g" if "compile_legacy lower g final_check = Inr p" for p
    using that by (cases rule: compile_with_policy_cases [of lower g final_check False]) (auto simp: compile_legacy_def)
  ultimately show ?thesis
    using Inl by (auto simp: graph_ok_def split: sum.split)
qed

text \<open>\<open>downstream\<close> computes exactly the nodes reachable over dependency edges, feedback edges
  excluded, as a sorted set; a cyclic graph does not make it loop.\<close>

theorem downstream_reachable:
  "set (downstream g start) = {x. (dep_step g)\<^sup>*\<^sup>* start x} \<and> sorted_wrt (<) (downstream g start)"
  by (auto simp: down.search_iff downstream_sorted)

text \<open>The search behind E209 always returns; a path it reports is a dependency path between the two
  nodes that never uses the direct edge, and it reports none only if there is none.\<close>

theorem alternate_path_exact:
  "case alternate_dependency_path g from to of
     None \<Rightarrow> False
   | Some None \<Rightarrow> \<not> (from \<noteq> to \<and> (alternate_step g from to)\<^sup>*\<^sup>* from to)
   | Some (Some path) \<Rightarrow>
       from \<noteq> to \<and> is_path (alternate_step g from to) path \<and> hd path = from \<and> last path = to"
  by (cases rule: alternate_dependency_path_cases [of g "from" to]) auto

text \<open>Removing already published nodes is refused exactly when one of them is missing.\<close>

theorem unremovable_complete:
  "(unremovable_node_diagnostics g unremovable = [] \<longleftrightarrow> set unremovable \<subseteq> node_names g)
   \<and> length (unremovable_node_diagnostics g unremovable)
       = length (filter (\<lambda>name. name \<notin> node_names g) unremovable)"
  by (auto simp: unremovable_node_diagnostics_def filter_empty_conv node_names_def image_iff
      intro!: arg_cong [of _ _ length] filter_cong)

section \<open>Properties of the node ids\<close>

definition path_safe_char :: "char \<Rightarrow> bool" where
  "path_safe_char c \<longleftrightarrow> is_ascii_alphanumeric c \<or> c \<in> set ''-_.''"

definition hex_digest :: "string \<Rightarrow> bool" where
  "hex_digest d \<longleftrightarrow> length d = 40 \<and> (\<forall>c \<in> set d. c \<in> set ''0123456789abcdef'')"

definition short_digest :: "(string \<Rightarrow> string option) \<Rightarrow> string \<Rightarrow> string" where
  "short_digest hash_object name =
     (case hash_object name of Some oid \<Rightarrow> take 12 oid | None \<Rightarrow> replicate 12 (CHR ''0''))"

lemma node_id_slug:
  "\<not> is_legacy_node_id name \<Longrightarrow>
   node_id hash_object name = slug_of name @ ''.'' @ short_digest hash_object name"
  by (auto simp: node_id_def Let_def short_digest_def split: option.split)

lemma lower_alphanumeric:
  "is_ascii_alphanumeric c \<Longrightarrow> is_ascii_alphanumeric (ascii_lower_char c)"
  by (auto simp: is_ascii_alphanumeric_def ascii_lower_char_def Let_def)

definition slug_ok :: "string \<Rightarrow> bool" where
  "slug_ok s \<longleftrightarrow> (\<forall>c \<in> set s. is_ascii_alphanumeric c \<or> c = CHR ''-'')"

lemma slug_char_ok: "slug_ok (fst st) \<Longrightarrow> slug_ok (fst (slug_char c st))"
  by (auto simp: slug_ok_def slug_char_def lower_alphanumeric split: prod.split)

lemma slug_fold_ok: "slug_ok (fst st) \<Longrightarrow> slug_ok (fst (fold slug_char name st))"
  by (induction name arbitrary: st) (auto simp: slug_char_ok)

lemma pop_dashes_ok: "slug_ok s \<Longrightarrow> slug_ok (pop_dashes s)"
  unfolding slug_ok_def pop_dashes_def by (metis set_dropWhileD set_rev)

lemma pop_dashes_length: "length (pop_dashes s) \<le> length s"
  using length_dropWhile_le [of _ "rev s"] by (simp add: pop_dashes_def)

lemma slug_of_ok: "slug_ok (slug_of name)" and slug_of_length: "0 < length (slug_of name) \<and> length (slug_of name) \<le> 24"
proof -
  let ?s = "pop_dashes (fst (fold slug_char name ([], False)))"
  let ?t = "if 24 < length ?s then pop_dashes (take 24 ?s) else ?s"
  have s: "slug_ok ?s" by (rule pop_dashes_ok [OF slug_fold_ok]) (simp add: slug_ok_def)
  then have "slug_ok (take 24 ?s)" by (auto simp: slug_ok_def dest: in_set_takeD)
  with s have t: "slug_ok ?t" by (simp add: pop_dashes_ok)
  have len: "length ?t \<le> 24" using pop_dashes_length [of "take 24 ?s"] by auto
  have slug: "slug_of name = (if ?t = [] then ''node'' else ?t)"
    by (simp only: slug_of_def Let_def)
  have "slug_ok ''node''" by code_simp
  with t slug show "slug_ok (slug_of name)" by (simp only: split: if_split) simp
  from len slug show "0 < length (slug_of name) \<and> length (slug_of name) \<le> 24"
    by (simp only: split: if_split) auto
qed


lemma path_safe_slug: "slug_ok s \<Longrightarrow> c \<in> set s \<Longrightarrow> path_safe_char c \<and> c \<noteq> CHR ''.''"
proof -
  have "\<not> is_ascii_alphanumeric (CHR ''.'')" by code_simp
  then show "slug_ok s \<Longrightarrow> c \<in> set s \<Longrightarrow> path_safe_char c \<and> c \<noteq> CHR ''.''"
    by (auto simp: slug_ok_def path_safe_char_def)
qed

lemma hex_safe: "c \<in> set ''0123456789abcdef'' \<Longrightarrow> is_ascii_alphanumeric c"
proof -
  have "\<forall>c \<in> set ''0123456789abcdef''. is_ascii_alphanumeric c" by code_simp
  then show "c \<in> set ''0123456789abcdef'' \<Longrightarrow> is_ascii_alphanumeric c" by blast
qed

lemma short_digest_safe:
  assumes "\<forall>d. hash_object name = Some d \<longrightarrow> hex_digest d"
  shows "length (short_digest hash_object name) = 12"
    and "c \<in> set (short_digest hash_object name) \<Longrightarrow> is_ascii_alphanumeric c"
proof -
  have zero: "is_ascii_alphanumeric (CHR ''0'')" by code_simp
  show "length (short_digest hash_object name) = 12"
    using assms by (auto simp: short_digest_def hex_digest_def split: option.split)
  assume c: "c \<in> set (short_digest hash_object name)"
  show "is_ascii_alphanumeric c"
  proof (cases "hash_object name")
    case None
    with c zero show ?thesis by (simp add: short_digest_def)
  next
    case (Some d)
    with c have "c \<in> set d" by (auto simp: short_digest_def dest: in_set_takeD)
    with assms Some show ?thesis by (intro hex_safe) (auto simp: hex_digest_def)
  qed
qed

text \<open>The id of any node name, whatever bytes it has, is a nonempty name of at most 64 bytes made of
  ASCII letters, digits, dashes and underscores with at most one dot, which is neither first nor last:
  one path component that is not \<open>.\<close> or \<open>..\<close>.  The digest is the hypothesis: 40 hex digits.\<close>

theorem node_id_safe:
  assumes "\<forall>d. hash_object name = Some d \<longrightarrow> hex_digest d"
  shows "let i = node_id hash_object name in
    i \<noteq> [] \<and> length i \<le> 64 \<and> (\<forall>c \<in> set i. path_safe_char c)
    \<and> length (filter (\<lambda>c. c = CHR ''.'') i) \<le> 1 \<and> hd i \<noteq> CHR ''.'' \<and> last i \<noteq> CHR ''.''"
proof (cases "is_legacy_node_id name")
  case True
  have dot: "\<not> is_ascii_alphanumeric (CHR ''.'')" by code_simp
  with True have "CHR ''.'' \<notin> set name" by (auto simp: is_legacy_node_id_def)
  moreover have "name \<noteq> []" using True by (simp add: is_legacy_node_id_def)
  ultimately have "filter (\<lambda>c. c = CHR ''.'') name = []" "hd name \<noteq> CHR ''.''" "last name \<noteq> CHR ''.''"
    by (auto simp: filter_empty_conv) (metis hd_in_set, metis last_in_set)
  with True show ?thesis
    by (auto simp: node_id_def Let_def is_legacy_node_id_def path_safe_char_def)
next
  case False
  let ?s = "slug_of name" and ?d = "short_digest hash_object name"
  have dot: "\<not> is_ascii_alphanumeric (CHR ''.'')" by code_simp
  note d = short_digest_safe [of hash_object name, OF assms]
  have ne: "?s \<noteq> []" "?d \<noteq> []" using slug_of_length [of name] d(1) by auto
  have "filter (\<lambda>c. c = CHR ''.'') ?s = []" "filter (\<lambda>c. c = CHR ''.'') ?d = []"
    using path_safe_slug [OF slug_of_ok] d(2) dot by (auto simp: filter_empty_conv)
  moreover have "hd ?s \<noteq> CHR ''.''" "last ?d \<noteq> CHR ''.''"
    using path_safe_slug [OF slug_of_ok hd_in_set [OF ne(1)]] d(2) [OF last_in_set [OF ne(2)]] dot by auto
  moreover have "\<forall>c \<in> set (?s @ ''.'' @ ?d). path_safe_char c"
    using path_safe_slug [OF slug_of_ok] d(2) by (auto simp: path_safe_char_def)
  ultimately show ?thesis
    using slug_of_length [of name] d(1) ne
    by (simp add: node_id_slug [OF False] Let_def)
qed

theorem node_id_safe_witness:
  "length (node_id (\<lambda>_. Some (replicate 40 (CHR ''f''))) ''Draft: the plan'') \<le> 64"
  using node_id_safe [of "\<lambda>_. Some (replicate 40 (CHR ''f''))" "''Draft: the plan''"]
  by (simp add: hex_digest_def Let_def)

text \<open>Two names get the same id only if they are equal, or both need a slug and their slugs and the
  first twelve digits of their digests agree.  A name that is its own id never clashes with another.\<close>

theorem node_id_collision:
  assumes "node_id hash_object a = node_id hash_object b"
  shows "a = b \<or> (\<not> is_legacy_node_id a \<and> \<not> is_legacy_node_id b \<and> slug_of a = slug_of b
    \<and> short_digest hash_object a = short_digest hash_object b)"
proof -
  have dot: "\<not> is_ascii_alphanumeric (CHR ''.'')" by code_simp
  have legacy: "CHR ''.'' \<notin> set n" if "is_legacy_node_id n" for n
    using that dot by (auto simp: is_legacy_node_id_def)
  have slug: "CHR ''.'' \<notin> set (slug_of n)" for n
    using path_safe_slug [OF slug_of_ok] by blast
  have mem: "CHR ''.'' \<in> set (node_id hash_object n)" if "\<not> is_legacy_node_id n" for n
    by (simp add: node_id_slug [OF that])
  have self: "node_id hash_object n = n" if "is_legacy_node_id n" for n
    using that by (simp add: node_id_def)
  consider "is_legacy_node_id a" "is_legacy_node_id b" | "\<not> is_legacy_node_id a" "\<not> is_legacy_node_id b"
    using assms legacy mem self by metis
  then show ?thesis
  proof cases
    case 1
    with assms self show ?thesis by metis
  next
    case 2
    let ?p = "\<lambda>n. slug_of n @ CHR ''.'' # short_digest hash_object n"
    have eq: "?p a = ?p b" using assms 2 by (simp add: node_id_slug)
    have "takeWhile (\<lambda>c. c \<noteq> CHR ''.'') (?p n) = slug_of n" for n
      using slug [of n] by (subst takeWhile_append2) auto
    with eq have "slug_of a = slug_of b" by metis
    with eq 2 show ?thesis by simp
  qed
qed

theorem node_id_collision_witness:
  "''a b'' \<noteq> ''a  b'' \<and> slug_of ''a b'' = slug_of ''a  b'' \<and> \<not> is_legacy_node_id ''a b''"
proof -
  have "node_id (\<lambda>_. None) ''a b'' = node_id (\<lambda>_. None) ''a  b''" by code_simp
  from node_id_collision [OF this] show ?thesis by simp
qed

lemma lower_lower: "ascii_lower_char (ascii_lower_char c) = ascii_lower_char c"
  by (auto simp: ascii_lower_char_def Let_def)

text \<open>What the loop adds to a slug that is not empty.\<close>

primrec squeezed :: "bool \<Rightarrow> string \<Rightarrow> string" where
  "squeezed separator [] = []"
| "squeezed separator (c # cs) =
     (if is_ascii_alphanumeric c then ascii_lower_char c # squeezed False cs
      else if separator then squeezed True cs else CHR ''-'' # squeezed True cs)"

lemma slug_fold_squeezed: "slug \<noteq> [] \<Longrightarrow> fst (fold slug_char name (slug, separator)) = slug @ squeezed separator name"
  by (induction name arbitrary: slug separator) (simp_all add: slug_char_def)

lemma slug_fold_start:
  "fst (fold slug_char name ([], False)) = squeezed False (dropWhile (\<lambda>c. \<not> is_ascii_alphanumeric c) name)"
proof (induction name)
  case (Cons c name)
  have "slug_char c ([], False) = (if is_ascii_alphanumeric c then ([ascii_lower_char c], False) else ([], False))"
    by (simp add: slug_char_def)
  with Cons show ?case by (simp add: slug_fold_squeezed)
qed simp

lemma dash_no_alphanumeric [simp]: "\<not> is_ascii_alphanumeric (CHR ''-'')" "ascii_lower_char (CHR ''-'') = CHR ''-''"
  by code_simp+

lemma lower_no_dash: "is_ascii_alphanumeric c \<Longrightarrow> ascii_lower_char c \<noteq> CHR ''-''"
  using lower_alphanumeric dash_no_alphanumeric(1) by metis

lemma squeezed_lower: "c \<in> set (squeezed separator name) \<Longrightarrow> ascii_lower_char c = c"
  by (induction name arbitrary: separator) (auto simp: lower_lower split: if_splits)

lemma squeezed_no_double:
  "i + 1 < length (squeezed separator name) \<Longrightarrow>
     squeezed separator name ! i = CHR ''-'' \<Longrightarrow> squeezed separator name ! (i + 1) \<noteq> CHR ''-''"
  and squeezed_True_hd: "squeezed True name \<noteq> [] \<Longrightarrow> hd (squeezed True name) \<noteq> CHR ''-''"
proof -
  show hd: "squeezed True name \<noteq> [] \<Longrightarrow> hd (squeezed True name) \<noteq> CHR ''-''" for name
    by (induction name) (auto simp: lower_no_dash)
  show "i + 1 < length (squeezed separator name) \<Longrightarrow>
     squeezed separator name ! i = CHR ''-'' \<Longrightarrow> squeezed separator name ! (i + 1) \<noteq> CHR ''-''"
  proof (induction name arbitrary: i separator)
    case (Cons c cs)
    show ?case
    proof (cases "is_ascii_alphanumeric c \<or> \<not> separator")
      case True
      then obtain a b where step: "squeezed separator (c # cs) = a # squeezed b cs" and a: "a = CHR ''-'' \<longrightarrow> b"
        by (cases "is_ascii_alphanumeric c") (auto simp: lower_no_dash)
      show ?thesis
      proof (cases i)
        case 0
        with Cons.prems a have "b" "squeezed b cs \<noteq> []" unfolding step by auto
        with hd [of cs] 0 show ?thesis unfolding step by (simp add: hd_conv_nth)
      next
        case (Suc k)
        with Cons.prems Cons.IH [of k b] show ?thesis unfolding step by simp
      qed
    next
      case False
      then have step: "squeezed separator (c # cs) = squeezed True cs" by simp
      show ?thesis using Cons.IH [of i True] Cons.prems unfolding step by blast
    qed
  qed simp
qed

lemma squeezed_splits:
  assumes "squeezed separator name = u @ v" and "CHR ''-'' \<notin> set u" and "\<forall>c \<in> set v. c = CHR ''-''" and "separator \<longrightarrow> u = []"
  shows "\<exists>mid post. name = mid @ post \<and> map ascii_lower_char mid = u \<and> (\<forall>c \<in> set mid. is_ascii_alphanumeric c)
    \<and> (\<forall>c \<in> set post. \<not> is_ascii_alphanumeric c)"
  using assms
proof (induction name arbitrary: separator u v)
  case (Cons c cs)
  show ?case
  proof (cases "is_ascii_alphanumeric c")
    case True
    then have "ascii_lower_char c # squeezed False cs = u @ v" using Cons.prems(1) by simp
    then obtain u' where u: "u = ascii_lower_char c # u'" and rest: "squeezed False cs = u' @ v"
      using Cons.prems(3) lower_no_dash [OF True] unfolding Cons_eq_append_conv by fastforce
    have "CHR ''-'' \<notin> set u'" using Cons.prems(2) u by simp
    from Cons.IH [OF rest this Cons.prems(3)] obtain mid post where "cs = mid @ post" "map ascii_lower_char mid = u'"
      "\<forall>c \<in> set mid. is_ascii_alphanumeric c" "\<forall>c \<in> set post. \<not> is_ascii_alphanumeric c" by blast
    then show ?thesis using True u by (intro exI [of _ "c # mid"] exI [of _ post]) simp
  next
    case False
    have u: "u = []" using False Cons.prems by (cases u) (auto split: if_splits)
    have "\<exists>v. squeezed True cs = [] @ v \<and> (\<forall>c \<in> set v. c = CHR ''-'')"
      using False Cons.prems u by (cases v) (auto split: if_splits)
    then obtain v' where "squeezed True cs = [] @ v'" "\<forall>c \<in> set v'. c = CHR ''-''" by blast
    from Cons.IH [OF this(1) _ this(2)] obtain mid post where "cs = mid @ post" "mid = []"
      "\<forall>c \<in> set post. \<not> is_ascii_alphanumeric c" by auto
    then show ?thesis using False u by (intro exI [of _ "[]"] exI [of _ "c # cs"]) simp
  qed
qed simp

lemma squeezed_core:
  assumes "\<forall>c \<in> set mid. is_ascii_alphanumeric c" and "\<forall>c \<in> set post. \<not> is_ascii_alphanumeric c"
  shows "squeezed False (mid @ post) = map ascii_lower_char mid @ (if post = [] then [] else ''-'')"
proof -
  have "squeezed True post = []" if "\<forall>c \<in> set post. \<not> is_ascii_alphanumeric c" for post using that by (induction post) auto
  with assms show ?thesis by (induction mid) (cases post; auto)+
qed

text \<open>A name without its leading and trailing characters that are not ASCII alphanumeric.\<close>

definition core :: "string \<Rightarrow> string" where
  "core name = rev (dropWhile (\<lambda>c. \<not> is_ascii_alphanumeric c) (rev (dropWhile (\<lambda>c. \<not> is_ascii_alphanumeric c) name)))"

lemma core_splits:
  "\<exists>post. dropWhile (\<lambda>c. \<not> is_ascii_alphanumeric c) name = core name @ post \<and> (\<forall>c \<in> set post. \<not> is_ascii_alphanumeric c)"
proof -
  let ?p = "\<lambda>c. \<not> is_ascii_alphanumeric c" and ?r = "rev (dropWhile (\<lambda>c. \<not> is_ascii_alphanumeric c) name)"
  have "dropWhile ?p name = rev (takeWhile ?p ?r @ dropWhile ?p ?r)" by simp
  also have "\<dots> = core name @ rev (takeWhile ?p ?r)" by (simp only: rev_append core_def)
  finally show ?thesis by (intro exI [of _ "rev (takeWhile ?p ?r)"]) (auto dest: set_takeWhileD)
qed

lemma core_eq:
  assumes "dropWhile (\<lambda>c. \<not> is_ascii_alphanumeric c) name = mid @ post" and "\<forall>c \<in> set mid. is_ascii_alphanumeric c"
    and "\<forall>c \<in> set post. \<not> is_ascii_alphanumeric c"
  shows "core name = mid"
proof -
  let ?p = "\<lambda>c. \<not> is_ascii_alphanumeric c"
  have "dropWhile ?p (rev post @ rev mid) = dropWhile ?p (rev mid)" using assms(3) by (intro dropWhile_append2) simp
  also have "\<dots> = rev mid" using assms(2) by (cases mid rule: rev_cases) simp_all
  finally have "dropWhile ?p (rev post @ rev mid) = rev mid" .
  then show ?thesis by (simp add: core_def assms(1))
qed

section \<open>Device names\<close>

definition device_names :: "string list" where
  "device_names = [''con'', ''prn'', ''aux'', ''nul''] @ concat (map (\<lambda>d. map (\<lambda>c. d @ [c]) ''123456789'') [''com'', ''lpt''])"

lemma device_names_iff:
  "s \<in> set device_names \<longleftrightarrow> s \<in> set [''con'', ''prn'', ''aux'', ''nul'']
     \<or> (\<exists>c \<in> set ''123456789''. s = ''com'' @ [c]) \<or> (\<exists>c \<in> set ''123456789''. s = ''lpt'' @ [c])"
proof -
  have "set device_names = set [''con'', ''prn'', ''aux'', ''nul''] \<union> (\<lambda>c. ''com'' @ [c]) ` set ''123456789''
      \<union> (\<lambda>c. ''lpt'' @ [c]) ` set ''123456789''"
    by (simp only: device_names_def list.map concat.simps append_Nil2 set_append set_map [symmetric] Un_assoc)
  then show ?thesis unfolding image_def by blast
qed

lemma device_name_facts:
  assumes "d \<in> set device_names"
  shows "d \<noteq> [] \<and> length d \<le> 4 \<and> CHR ''-'' \<notin> set d \<and> d \<noteq> ''node'' \<and> (\<forall>c \<in> set d. is_ascii_alphanumeric c)"
proof -
  have "list_all (\<lambda>d. d \<noteq> [] \<and> length d \<le> 4 \<and> CHR ''-'' \<notin> set d \<and> d \<noteq> ''node'' \<and> (\<forall>c \<in> set d. is_ascii_alphanumeric c)) device_names"
    by code_simp
  with assms show ?thesis unfolding list_all_iff by blast
qed

lemma slug_lower: "c \<in> set (slug_of name) \<Longrightarrow> ascii_lower_char c = c"
proof -
  let ?s = "pop_dashes (fst (fold slug_char name ([], False)))"
  have pop: "set (pop_dashes s) \<subseteq> set s" for s unfolding pop_dashes_def using set_dropWhileD by fastforce
  have s: "ascii_lower_char c = c" if "c \<in> set ?s" for c
    using that pop squeezed_lower unfolding slug_fold_start by blast
  have t: "ascii_lower_char c = c" if "c \<in> set (pop_dashes (take 24 ?s))" for c
    using that pop [of "take 24 ?s"] s in_set_takeD by fastforce
  have node: "ascii_lower_char c = c" if "c \<in> set ''node''" for c
    using that by (simp, elim disjE) (simp_all add: ascii_lower_char_def Let_def)
  assume "c \<in> set (slug_of name)"
  then show ?thesis unfolding slug_of_def Let_def using s t node by (auto split: if_splits)
qed

lemma reserved_slug:
  assumes "slug_ok s" and "\<And>c. c \<in> set s \<Longrightarrow> ascii_lower_char c = c" and "s \<noteq> []"
  shows "is_windows_reserved_name (s @ CHR ''.'' # rest) \<longleftrightarrow> s \<in> set device_names"
proof -
  have dot: "\<forall>c \<in> set s. c \<noteq> CHR ''.''" using path_safe_slug [OF assms(1)] by blast
  then have device: "takeWhile (\<lambda>c. c \<noteq> CHR ''.'') (s @ CHR ''.'' # rest) = s" by (subst takeWhile_append2) auto
  have lower: "to_ascii_lowercase s = s" unfolding to_ascii_lowercase_def using assms(2) by (simp add: map_idI)
  have "\<not> (128 \<le> (of_char c :: nat) \<and> (of_char c :: nat) < 192)" if "c \<in> set s" for c
    using that assms(1) by (auto simp: slug_ok_def is_ascii_alphanumeric_def Let_def)
  then have count: "char_count s = length s" unfolding char_count_def by (subst filter_True) auto
  have dollar: "s \<noteq> ''conin$'' \<and> s \<noteq> ''conout$''"
  proof -
    have "\<not> slug_ok ''conin$''" "\<not> slug_ok ''conout$''" by code_simp+
    with assms(1) show ?thesis by blast
  qed
  have com: "(starts_with s d \<and> length s = 4 \<and> last s \<in> set ''123456789'') \<longleftrightarrow> (\<exists>c \<in> set ''123456789''. s = d @ [c])"
    if "length d = 3" for d
  proof
    assume "starts_with s d \<and> length s = 4 \<and> last s \<in> set ''123456789''"
    moreover from this obtain t where "s = d @ t" by (auto simp: starts_with_iff)
    moreover from calculation that have "length t = 1" by simp
    then obtain c where "t = [c]" by (cases t) auto
    ultimately show "\<exists>c \<in> set ''123456789''. s = d @ [c]" by simp
  qed (use that in \<open>auto simp: starts_with_iff\<close>)
  have "length ''com'' = 3" "length ''lpt'' = 3" by simp_all
  note com = this [THEN com]
  have plain: "s \<in> set [''con'', ''prn'', ''aux'', ''nul'', ''conin$'', ''conout$''] \<longleftrightarrow> s \<in> set [''con'', ''prn'', ''aux'', ''nul'']"
    using dollar by simp
  show ?thesis
    unfolding is_windows_reserved_name_def Let_def device lower count device_names_iff plain using com assms(3) by blast
qed

lemma slug_cases:
  assumes "slug_of name \<noteq> ''node''"
  defines "s \<equiv> pop_dashes (fst (fold slug_char name ([], False)))"
  shows "slug_of name = (if 24 < length s then pop_dashes (take 24 s) else s)"
  using assms(1) unfolding slug_of_def Let_def s_def [symmetric] by presburger

lemma slug_device:
  "slug_of name \<in> set device_names \<longleftrightarrow> map ascii_lower_char (core name) \<in> set device_names"
proof
  let ?rest = "dropWhile (\<lambda>c. \<not> is_ascii_alphanumeric c) name" and ?lower = "map ascii_lower_char (core name)"
  assume core: "?lower \<in> set device_names"
  note facts = device_name_facts [OF core]
  have raised: "is_ascii_alphanumeric c" if "is_ascii_alphanumeric (ascii_lower_char c)" for c
    using that by (auto simp: is_ascii_alphanumeric_def ascii_lower_char_def Let_def split: if_splits)
  obtain post where rest: "?rest = core name @ post" and post: "\<forall>c \<in> set post. \<not> is_ascii_alphanumeric c"
    using core_splits by blast
  have "\<forall>c \<in> set (core name). is_ascii_alphanumeric c" using facts raised by auto
  note squeezed_core [OF this post]
  moreover have "pop_dashes (?lower @ (if post = [] then [] else ''-'')) = ?lower"
    using facts by (cases "?lower" rule: rev_cases) (auto simp: pop_dashes_def)
  ultimately have "pop_dashes (fst (fold slug_char name ([], False))) = ?lower" by (simp only: slug_fold_start rest)
  then have "slug_of name = ?lower" using facts by (simp add: slug_of_def Let_def)
  with core show "slug_of name \<in> set device_names" by simp
next
  let ?rest = "dropWhile (\<lambda>c. \<not> is_ascii_alphanumeric c) name"
  let ?raw = "squeezed False ?rest"
  assume device: "slug_of name \<in> set device_names"
  note facts = device_name_facts [OF device]
  have pop: "\<exists>v. s = pop_dashes s @ v \<and> (\<forall>c \<in> set v. c = CHR ''-'')" for s
  proof -
    have "s = rev (takeWhile (\<lambda>c. c = CHR ''-'') (rev s) @ dropWhile (\<lambda>c. c = CHR ''-'') (rev s))" by simp
    then have "s = pop_dashes s @ rev (takeWhile (\<lambda>c. c = CHR ''-'') (rev s))" unfolding pop_dashes_def rev_append .
    then show ?thesis by (intro exI [of _ "rev (takeWhile (\<lambda>c. c = CHR ''-'') (rev s))"]) (auto dest: set_takeWhileD)
  qed
  have short: "length (pop_dashes ?raw) \<le> 24"
  proof (rule ccontr)
    assume long: "\<not> length (pop_dashes ?raw) \<le> 24"
    then have slug: "slug_of name = pop_dashes (take 24 (pop_dashes ?raw))"
      using slug_cases [of name] facts unfolding slug_fold_start by presburger
    let ?t = "take 24 (pop_dashes ?raw)"
    obtain v where v: "?t = slug_of name @ v" "\<forall>c \<in> set v. c = CHR ''-''" using pop [of ?t] slug by auto
    obtain x where x: "?raw = pop_dashes ?raw @ x" using pop by blast
    have nth: "?raw ! i = CHR ''-''" if "4 \<le> i" "i < 24" for i
    proof -
      have "i < length ?t" using that long by simp
      then have "?t ! i = v ! (i - length (slug_of name))" "i - length (slug_of name) < length v"
        using v(1) facts that by (simp_all only: nth_append) (auto simp: v(1))
      then have "?t ! i = CHR ''-''" using v(2) nth_mem by metis
      moreover have "?raw ! i = ?t ! i" using that long by (subst x) (simp add: nth_append)
      ultimately show ?thesis by simp
    qed
    moreover have "6 < length ?raw" using long by (subst x) simp
    ultimately show False using squeezed_no_double [of 4 False ?rest] nth [of 4] nth [of 5] by simp
  qed
  then have "slug_of name = pop_dashes ?raw"
    using slug_cases [of name] facts unfolding slug_fold_start by presburger
  with pop [of ?raw] obtain v where v: "?raw = slug_of name @ v" "\<forall>c \<in> set v. c = CHR ''-''" by auto
  from squeezed_splits [OF v(1) _ v(2)] facts obtain mid post where "?rest = mid @ post" "map ascii_lower_char mid = slug_of name"
    "\<forall>c \<in> set mid. is_ascii_alphanumeric c" "\<forall>c \<in> set post. \<not> is_ascii_alphanumeric c" by auto
  with core_eq [of name mid post] device show "map ascii_lower_char (core name) \<in> set device_names" by simp
qed

text \<open>C4: The id of a name passes for a Windows device by the program's own test exactly when the name is not its own
  id and what is left of it, without the characters before its first and after its last ASCII letter or digit, is one
  of the device names \<open>con\<close>, \<open>prn\<close>, \<open>aux\<close>, \<open>nul\<close>, \<open>com1\<close> to \<open>com9\<close>, \<open>lpt1\<close> to \<open>lpt9\<close> in any case.  So \<open>CON\<close> and
  even \<open>con!\<close> get reserved ids, while the ids of \<open>con.txt\<close> and \<open>CONIN$\<close> are safe.\<close>

theorem reserved_id_exact:
  "is_windows_reserved_name (node_id hash_object name) \<longleftrightarrow>
     \<not> is_legacy_node_id name \<and> to_ascii_lowercase (core name) \<in> set device_names"
proof (cases "is_legacy_node_id name")
  case True
  then show ?thesis by (simp add: node_id_def is_legacy_node_id_def)
next
  case False
  have "node_id hash_object name = slug_of name @ CHR ''.'' # short_digest hash_object name"
    by (simp add: node_id_slug [OF False])
  moreover have "slug_of name \<noteq> []" using slug_of_length [of name] by auto
  ultimately show ?thesis
    using reserved_slug [OF slug_of_ok slug_lower] slug_device False by (simp add: to_ascii_lowercase_def)
qed

end
