(* ===== verification/Metrics.thy ===== *)
theory Metrics
  imports Model "HOL-Library.Multiset"
begin

text \<open>
  Usage, context and run metrics of \<open>backend/src/model.rs\<close>: the token counters, the projection of a
  finished transcript (\<open>parse_execution_metrics\<close>), of a running one (\<open>accumulate_live_metrics\<close>) and
  of a log tail (\<open>parse_context_from_tail\<close>), and the totals of a run (\<open>compute_run_metrics\<close>).
  Parameters: \<open>parse\<close> is \<open>serde_json::from_str\<close> on one line, \<open>catalog\<close> is
  \<open>model_window::context_window\<close>.  Token counters are 64-bit and saturate; message and tool counts,
  which only ever grow by one per line, are natural numbers.  Durations are left out.
\<close>

section \<open>Token counters\<close>

definition count_of :: "json \<Rightarrow> string \<Rightarrow> u64" where
  "count_of u key = (case get_u64 u key of Some n \<Rightarrow> n | None \<Rightarrow> 0)"

definition from_message_usage :: "json \<Rightarrow> token_usage" where
  "from_message_usage u =
     \<lparr>tu_input = count_of u ''input'', tu_output = count_of u ''output'',
      tu_cache_read = count_of u ''cacheRead'', tu_cache_write = count_of u ''cacheWrite'',
      tu_reasoning = count_of u ''reasoning'', tu_total_tokens = count_of u ''totalTokens'',
      tu_consumed_tokens = 0\<rparr>"

definition context_tokens :: "token_usage \<Rightarrow> u64" where
  "context_tokens u =
     (if 0 < tu_total_tokens u then tu_total_tokens u
      else sat_add (sat_add (sat_add (tu_input u) (tu_output u)) (tu_cache_read u)) (tu_cache_write u))"

definition derived_consumed :: "token_usage \<Rightarrow> u64" where
  "derived_consumed u = sat_add (sat_add (tu_input u) (tu_cache_write u)) (tu_output u)"

definition backfill_consumed_tokens :: "token_usage \<Rightarrow> token_usage" where
  "backfill_consumed_tokens u =
     (if tu_consumed_tokens u = 0 then u\<lparr>tu_consumed_tokens := derived_consumed u\<rparr> else u)"

definition effective_consumed_tokens :: "token_usage \<Rightarrow> u64" where
  "effective_consumed_tokens u =
     (if 0 < tu_consumed_tokens u then tu_consumed_tokens u else derived_consumed u)"

definition accumulate :: "token_usage \<Rightarrow> token_usage \<Rightarrow> token_usage" where
  "accumulate u other =
     \<lparr>tu_input = sat_add (tu_input u) (tu_input other),
      tu_output = sat_add (tu_output u) (tu_output other),
      tu_cache_read = sat_add (tu_cache_read u) (tu_cache_read other),
      tu_cache_write = sat_add (tu_cache_write u) (tu_cache_write other),
      tu_reasoning = sat_add (tu_reasoning u) (tu_reasoning other),
      tu_total_tokens = sat_add (tu_total_tokens u) (tu_total_tokens other),
      tu_consumed_tokens = sat_add (tu_consumed_tokens u) (effective_consumed_tokens other)\<rparr>"

section \<open>Context of a session\<close>

text \<open>\<open>record_session_context\<close> on the pair of its two maps, contexts and stamps.\<close>

definition record_session_context ::
  "(string \<Rightarrow> u64 option)
   \<Rightarrow> (string, session_context) btree_map \<times> (string, nat) btree_map
   \<Rightarrow> string \<Rightarrow> u64 \<Rightarrow> u64 \<Rightarrow> session_context option \<Rightarrow> nat \<Rightarrow> string option
   \<Rightarrow> (string, session_context) btree_map \<times> (string, nat) btree_map" where
  "record_session_context catalog maps session_id tokens peak snap stamp model =
     (case maps of (contexts, stamps) \<Rightarrow>
      if snap = None \<and> tokens = 0 \<and> peak = 0 then (contexts, stamps)
      else
        let contexts = bt_entry session_id session_context_default contexts;
            contexts = bt_update session_id (\<lambda>entry. entry\<lparr>sc_peak :=
              max (max (max (sc_peak entry) peak) tokens)
                (case snap of None \<Rightarrow> 0 | Some c \<Rightarrow> sc_peak c)\<rparr>) contexts
        in if (snap \<noteq> None \<or> 0 < tokens)
              \<and> (case bt_get stamps session_id of Some s \<Rightarrow> s | None \<Rightarrow> 0) \<le> stamp
           then
             (bt_update session_id (\<lambda>entry. entry\<lparr>
                sc_tokens := (case snap of None \<Rightarrow> tokens | Some c \<Rightarrow> sc_tokens c),
                sc_window := (case Option.bind snap sc_window of
                   Some w \<Rightarrow> Some w | None \<Rightarrow> Option.bind model catalog)\<rparr>) contexts,
              bt_insert session_id stamp stamps)
           else (contexts, stamps))"

text \<open>The three context fields a transcript updates, in the metrics record.\<close>

definition record_context_usage :: "json \<Rightarrow> execution_metrics \<Rightarrow> execution_metrics \<times> bool" where
  "record_context_usage v m =
     (if get_str v ''type'' \<noteq> Some ''grapher_context_usage'' then (m, False)
      else
        let tokens = count_of v ''tokens'';
            peak = max (em_context_peak m) tokens;
            window = (case get_u64 v ''window'' of
              Some w \<Rightarrow> if 0 < w then Some w else None | None \<Rightarrow> None)
        in (m\<lparr>em_context_tokens := tokens, em_context_peak := peak,
              em_context_usage := Some \<lparr>sc_tokens = tokens, sc_peak = peak, sc_window = window\<rparr>\<rparr>, True))"

definition record_context_model :: "string \<Rightarrow> execution_metrics \<Rightarrow> execution_metrics" where
  "record_context_model next m =
     (let m = (if em_model m \<noteq> None \<and> em_model m \<noteq> Some next
               then m\<lparr>em_context_usage := map_option (\<lambda>c. c\<lparr>sc_window := None\<rparr>) (em_context_usage m)\<rparr>
               else m)
      in m\<lparr>em_model := Some next\<rparr>)"

definition record_assistant_context :: "json \<Rightarrow> token_usage \<Rightarrow> execution_metrics \<Rightarrow> execution_metrics" where
  "record_assistant_context message usage m =
     (let stop = get_str message ''stopReason'' in
      if stop = Some ''error'' \<or> stop = Some ''aborted''
         \<or> (stop = None \<and> 0 < tu_output usage \<and> tu_input usage = 0 \<and> tu_cache_read usage = 0
            \<and> tu_cache_write usage = 0)
      then m
      else
        let count = context_tokens usage in
        if count = 0 then m
        else
          let peak = max (em_context_peak m) count
          in m\<lparr>em_context_tokens := count, em_context_peak := peak,
               em_context_usage := map_option (\<lambda>c. c\<lparr>sc_tokens := count, sc_peak := peak\<rparr>)
                 (em_context_usage m)\<rparr>)"

section \<open>Transcript lines\<close>

definition nonempty :: "string option \<Rightarrow> string option" where
  "nonempty s = (case s of Some t \<Rightarrow> if t = [] then None else Some t | None \<Rightarrow> None)"

definition value_type :: "json \<Rightarrow> string" where
  "value_type v = (case get_str v ''type'' of Some t \<Rightarrow> t | None \<Rightarrow> [])"

text \<open>\<open>provider/model\<close> when a nonempty provider is present.\<close>

definition qualified_model :: "json \<Rightarrow> string \<Rightarrow> string" where
  "qualified_model v model_id =
     (case nonempty (get_str v ''provider'') of
        None \<Rightarrow> model_id
      | Some provider \<Rightarrow> provider @ ''/'' @ model_id)"

definition observe_message_model :: "json \<Rightarrow> execution_metrics \<Rightarrow> execution_metrics" where
  "observe_message_model msg m =
     (case nonempty (get_str msg ''model'') of
        None \<Rightarrow> m
      | Some model_id \<Rightarrow> record_context_model (qualified_model msg model_id) m)"

definition count_message :: "json \<Rightarrow> execution_metrics \<Rightarrow> execution_metrics" where
  "count_message msg m =
     (let m = m\<lparr>em_assistant_messages := em_assistant_messages m + 1\<rparr> in
      case json_get msg ''usage'' of
        None \<Rightarrow> m
      | Some u \<Rightarrow>
          let turn = from_message_usage u;
              m = record_assistant_context msg turn m
          in m\<lparr>em_usage := accumulate (em_usage m) turn\<rparr>)"

definition tool_failed :: "json \<Rightarrow> bool" where
  "tool_failed v \<longleftrightarrow>
     Option.bind (json_get v ''isError'') as_bool = Some True
     \<or> Option.bind (Option.bind (json_get v ''result'') (\<lambda>r. json_get r ''isError'')) as_bool = Some True"

definition assistant_of :: "json \<Rightarrow> json option" where
  "assistant_of v =
     (case json_get v ''message'' of
        Some msg \<Rightarrow> if get_str msg ''role'' = Some ''assistant'' then Some msg else None
      | None \<Rightarrow> None)"

text \<open>
  One parsed line of a finished transcript, on the metrics and \<open>observed_thinking\<close>; the field
  \<open>em_thinking_level\<close> is the local \<open>thinking_level\<close>.
\<close>

definition terminal_value ::
  "json \<Rightarrow> execution_metrics \<times> string option \<Rightarrow> execution_metrics \<times> string option" where
  "terminal_value v = (\<lambda>(m, observed).
     let ty = value_type v in
     if ty = ''message_start'' \<or> ty = ''message_end'' then
       (case assistant_of v of
          None \<Rightarrow> (m, observed)
        | Some msg \<Rightarrow>
            let m = observe_message_model msg m;
                observed = (case nonempty (get_str msg ''thinkingLevel'') of
                  Some level \<Rightarrow> Some level | None \<Rightarrow> observed)
            in (if ty = ''message_end'' then count_message msg m else m, observed))
     else if ty = ''grapher_context_usage'' then (fst (record_context_usage v m), observed)
     else if ty = ''model_change'' then
       (case get_str v ''modelId'' of
          None \<Rightarrow> (m, observed)
        | Some model_id \<Rightarrow> (record_context_model (qualified_model v model_id) m, observed))
     else if ty = ''thinking_level_change'' then
       (case get_str v ''thinkingLevel'' of
          None \<Rightarrow> (m, observed)
        | Some level \<Rightarrow> (m\<lparr>em_thinking_level := Some level\<rparr>, observed))
     else if ty = ''tool_execution_start'' then (m\<lparr>em_tools := em_tools m + 1\<rparr>, observed)
     else if ty = ''tool_execution_end'' then
       (if tool_failed v then (m\<lparr>em_tool_errors := em_tool_errors m + 1\<rparr>, observed) else (m, observed))
     else (m, observed))"

definition terminal_line ::
  "(string \<Rightarrow> json option) \<Rightarrow> string
   \<Rightarrow> execution_metrics \<times> string option \<Rightarrow> execution_metrics \<times> string option" where
  "terminal_line parse line st =
     (let trimmed = trim line in
      if trimmed = [] \<or> starts_with trimmed ''[stderr]'' then st
      else (case parse trimmed of None \<Rightarrow> st | Some v \<Rightarrow> terminal_value v st))"

definition parse_execution_metrics :: "(string \<Rightarrow> json option) \<Rightarrow> string \<Rightarrow> execution_metrics" where
  "parse_execution_metrics parse output =
     (case fold (terminal_line parse) (lines output) (execution_metrics_default, None) of
        (m, observed) \<Rightarrow> m\<lparr>em_thinking_level :=
          (case em_thinking_level m of Some level \<Rightarrow> Some level | None \<Rightarrow> observed)\<rparr>)"

definition merge_recorded_model :: "execution_metrics \<Rightarrow> execution_metrics option \<Rightarrow> execution_metrics" where
  "merge_recorded_model m previous =
     (case previous of
        None \<Rightarrow> m
      | Some p \<Rightarrow>
          m\<lparr>em_model := (if em_model m = None then em_model p else em_model m),
            em_thinking_level := (if em_thinking_level m = None then em_thinking_level p
                                  else em_thinking_level m)\<rparr>)"

section \<open>Live projection\<close>

text \<open>A marker is a type name between quotation marks.\<close>

definition live_metric_types :: "string list" where
  "live_metric_types =
     [''grapher_context_usage'', ''message_start'', ''message_end'', ''model_change'',
      ''thinking_level_change'', ''tool_execution_start'', ''tool_execution_end'']"

definition marker :: "string \<Rightarrow> string" where
  "marker ty = [CHR 0x22] @ ty @ [CHR 0x22]"

definition line_advances_live_metrics :: "string \<Rightarrow> bool" where
  "line_advances_live_metrics line =
     (let trimmed = trim line
      in trimmed \<noteq> [] \<and> \<not> starts_with trimmed ''[stderr]''
         \<and> (\<exists>ty \<in> set live_metric_types. contains_str trimmed (marker ty)))"

definition live_value :: "json \<Rightarrow> execution_metrics \<Rightarrow> execution_metrics" where
  "live_value v m =
     (let ty = value_type v in
      if ty = ''message_start'' \<or> ty = ''message_end'' then
        (case assistant_of v of
           None \<Rightarrow> m
         | Some msg \<Rightarrow>
             let m = observe_message_model msg m;
                 m = (case nonempty (get_str msg ''thinkingLevel'') of
                   Some level \<Rightarrow> m\<lparr>em_thinking_level := Some level\<rparr> | None \<Rightarrow> m)
             in if ty = ''message_end'' then count_message msg m else m)
      else if ty = ''grapher_context_usage'' then fst (record_context_usage v m)
      else if ty = ''model_change'' then
        (case nonempty (get_str v ''modelId'') of
           None \<Rightarrow> m
         | Some model_id \<Rightarrow> record_context_model (qualified_model v model_id) m)
      else if ty = ''thinking_level_change'' then
        (case nonempty (get_str v ''thinkingLevel'') of
           None \<Rightarrow> m
         | Some level \<Rightarrow> m\<lparr>em_thinking_level := Some level\<rparr>)
      else if ty = ''tool_execution_start'' then m\<lparr>em_tools := em_tools m + 1\<rparr>
      else if ty = ''tool_execution_end'' then
        (if tool_failed v then m\<lparr>em_tool_errors := em_tool_errors m + 1\<rparr> else m)
      else m)"

definition live_line :: "(string \<Rightarrow> json option) \<Rightarrow> string \<Rightarrow> execution_metrics \<Rightarrow> execution_metrics" where
  "live_line parse line m =
     (if \<not> line_advances_live_metrics line then m
      else (case parse (trim line) of None \<Rightarrow> m | Some v \<Rightarrow> live_value v m))"

definition accumulate_live_metrics :: "(string \<Rightarrow> json option) \<Rightarrow> string \<Rightarrow> execution \<Rightarrow> execution" where
  "accumulate_live_metrics parse text e =
     e\<lparr>ex_metrics := Some (fold (live_line parse) (lines text)
        (case ex_metrics e of Some m \<Rightarrow> m | None \<Rightarrow> execution_metrics_default))\<rparr>"

definition append_live_output :: "(string \<Rightarrow> json option) \<Rightarrow> string \<Rightarrow> execution \<Rightarrow> execution" where
  "append_live_output parse text e =
     (let e = e\<lparr>ex_output := ex_output e @ text\<rparr>;
          e = e\<lparr>ex_output_bytes := length (ex_output e)\<rparr>;
          e = accumulate_live_metrics parse text e
      in if ex_pid e = None \<and> CHR 0x0A \<in> set (ex_output e) then
           (case parse (takeWhile (\<lambda>c. c \<noteq> CHR 0x0A) (ex_output e)) of
              None \<Rightarrow> e
            | Some v \<Rightarrow>
                if get_str v ''type'' = Some ''grapher_process_started''
                   \<or> get_str v ''type'' = Some ''grapher_session_resumed''
                then e\<lparr>ex_pid := get_u64 v ''pid''\<rparr> else e)
         else e)"

section \<open>A log tail\<close>

definition tail_line :: "(string \<Rightarrow> json option) \<Rightarrow> string \<Rightarrow> session_context option" where
  "tail_line parse line =
     (let trimmed = trim line in
      if trimmed = [] \<or> starts_with trimmed ''[stderr]'' then None
      else (case parse trimmed of
         None \<Rightarrow> None
       | Some v \<Rightarrow>
           (case record_context_usage v execution_metrics_default of
              (m, True) \<Rightarrow> em_context_usage m
            | (m, False) \<Rightarrow>
                if get_str v ''type'' \<noteq> Some ''message_end'' then None
                else (case assistant_of v of
                   None \<Rightarrow> None
                 | Some msg \<Rightarrow>
                     (case json_get msg ''usage'' of
                        None \<Rightarrow> None
                      | Some u \<Rightarrow>
                          let m = record_assistant_context msg (from_message_usage u) m
                          in if 0 < em_context_tokens m
                             then Some \<lparr>sc_tokens = em_context_tokens m, sc_peak = em_context_peak m,
                                        sc_window = None\<rparr>
                             else None)))))"

fun first_some :: "('a \<Rightarrow> 'b option) \<Rightarrow> 'a list \<Rightarrow> 'b option" where
  "first_some f [] = None"
| "first_some f (x # xs) = (case f x of Some y \<Rightarrow> Some y | None \<Rightarrow> first_some f xs)"

definition parse_context_from_tail :: "(string \<Rightarrow> json option) \<Rightarrow> string \<Rightarrow> session_context option" where
  "parse_context_from_tail parse output = first_some (tail_line parse) (rev (lines output))"


section \<open>Totals of a run\<close>

text \<open>
  One loop of \<open>compute_run_metrics\<close> adds an entry's counters to its totals and, when the entry has a
  session, to the session's.  \<open>totals\<close> is the loop's four counters, \<open>sessions\<close> its three maps.
\<close>

record totals =
  to_messages :: nat
  to_tools :: nat
  to_tool_errors :: nat
  to_usage :: token_usage

record sessions =
  se_usage :: "(string, token_usage) btree_map"
  se_contexts :: "(string, session_context) btree_map"
  se_stamps :: "(string, nat) btree_map"

definition totals_default :: totals where
  "totals_default = \<lparr>to_messages = 0, to_tools = 0, to_tool_errors = 0, to_usage = token_usage_default\<rparr>"

definition sessions_default :: sessions where
  "sessions_default = \<lparr>se_usage = [], se_contexts = [], se_stamps = []\<rparr>"

definition add_totals :: "nat \<Rightarrow> nat \<Rightarrow> nat \<Rightarrow> token_usage \<Rightarrow> totals \<Rightarrow> totals" where
  "add_totals messages tools errors usage t =
     \<lparr>to_messages = to_messages t + messages, to_tools = to_tools t + tools,
      to_tool_errors = to_tool_errors t + errors, to_usage = accumulate (to_usage t) usage\<rparr>"

definition add_session ::
  "(string \<Rightarrow> u64 option) \<Rightarrow> string \<Rightarrow> token_usage \<Rightarrow> u64 \<Rightarrow> u64 \<Rightarrow> session_context option \<Rightarrow> nat
   \<Rightarrow> string option \<Rightarrow> sessions \<Rightarrow> sessions" where
  "add_session catalog session_id usage tokens peak snap stamp model s =
     (case record_session_context catalog (se_contexts s, se_stamps s) session_id tokens peak snap stamp model of
        (contexts, stamps) \<Rightarrow>
          \<lparr>se_usage = bt_update session_id (\<lambda>u. accumulate u usage)
             (bt_entry session_id token_usage_default (se_usage s)),
           se_contexts = contexts, se_stamps = stamps\<rparr>)"

text \<open>\<open>str::parse::<u64>\<close>: an optional plus sign and decimal digits, within 64 bits.\<close>

definition parse_u64 :: "string \<Rightarrow> nat option" where
  "parse_u64 s =
     (let digits = (case s of c # r \<Rightarrow> if c = CHR ''+'' then r else s | [] \<Rightarrow> []);
          value = foldl (\<lambda>n c. 10 * n + (of_char c - 48)) 0 digits
      in if digits \<noteq> [] \<and> (\<forall>c \<in> set digits. 48 \<le> (of_char c :: nat) \<and> (of_char c :: nat) \<le> 57) \<and> value < 2 ^ 64
         then Some value else None)"

definition planning_turn_list :: "snapshot \<Rightarrow> planning_summary list" where
  "planning_turn_list st =
     (let turns = bt_values (st_planning_turns st) in
      case st_planning st of
        None \<Rightarrow> turns
      | Some planning \<Rightarrow>
          if ps_planning_id planning \<noteq> []
             \<and> \<not> bt_contains (st_planning_turns st) (ps_planning_id planning)
          then turns @ [planning]
          else if ps_planning_id planning = [] \<and> turns = [] then turns @ [planning]
          else turns)"

definition add_role ::
  "(string \<Rightarrow> u64 option) \<Rightarrow> planning_role_metrics \<Rightarrow> totals \<times> sessions \<Rightarrow> totals \<times> sessions" where
  "add_role catalog m = (\<lambda>(t, s).
     (add_totals (rm_assistant_messages m) (rm_tools m) (rm_tool_errors m) (rm_usage m) t,
      case rm_session_id m of
        None \<Rightarrow> s
      | Some session_id \<Rightarrow>
          let stamp = (case Option.bind (rm_last_event m) parse_u64 of Some n \<Rightarrow> n | None \<Rightarrow> 0)
          in add_session catalog session_id (rm_usage m) (rm_context_tokens m) (rm_context_peak m)
               (rm_context_usage m) stamp (Some (rm_model m)) s))"

definition add_planning ::
  "(string \<Rightarrow> u64 option) \<Rightarrow> planning_summary \<Rightarrow> totals \<times> sessions \<Rightarrow> totals \<times> sessions" where
  "add_planning catalog planning = fold (add_role catalog) (bt_values (ps_roles planning))"

definition add_execution ::
  "(string \<Rightarrow> u64 option) \<Rightarrow> execution \<Rightarrow> totals \<times> sessions \<Rightarrow> totals \<times> sessions" where
  "add_execution catalog e = (\<lambda>(t, s).
     case ex_metrics e of
       None \<Rightarrow> (t, s)
     | Some m \<Rightarrow>
         (add_totals (em_assistant_messages m) (em_tools m) (em_tool_errors m) (em_usage m) t,
          if ex_session_id e \<noteq> [] then
            add_session catalog (ex_session_id e) (em_usage m) (em_context_tokens m) (em_context_peak m)
              (em_context_usage m)
              (case ex_completed_at e of Some at \<Rightarrow> at | None \<Rightarrow> ex_started_at e) (em_model m) s
          else s))"

definition compute_run_metrics :: "(string \<Rightarrow> u64 option) \<Rightarrow> snapshot \<Rightarrow> run_metrics" where
  "compute_run_metrics catalog st =
     (let (planning, s) = fold (add_planning catalog) (planning_turn_list st) (totals_default, sessions_default);
          (exec, s) = fold (add_execution catalog) (st_executions st @ st_mergers st) (totals_default, s)
      in \<lparr>rt_assistant_messages = to_messages planning + to_messages exec,
          rt_tools = to_tools planning + to_tools exec,
          rt_tool_errors = to_tool_errors planning + to_tool_errors exec,
          rt_total_usage = accumulate (to_usage planning) (to_usage exec),
          rt_planning_usage = to_usage planning, rt_execution_usage = to_usage exec,
          rt_session_context = se_contexts s, rt_session_usage = se_usage s\<rparr>)"

section \<open>Facts on token counters\<close>

lemma sat_add_0 [simp]: "sat_add a 0 = a" "sat_add 0 a = a"
  by simp_all

lemma fold_sat_add:
  "unat (foldr sat_add ws a) = min (2 ^ 64 - 1) (unat a + sum_list (map unat ws))"
proof (induction ws)
  case Nil
  then show ?case using unat_u64_less [of a] by simp
qed (simp add: unat_sat_add)

text \<open>Every counter of a running total is the exact sum of the reports, capped at 64 bits.\<close>

definition usage_fields :: "(token_usage \<Rightarrow> u64) list" where
  "usage_fields = [tu_input, tu_output, tu_cache_read, tu_cache_write, tu_reasoning, tu_total_tokens]"

lemma accumulate_field: "f \<in> set usage_fields \<Longrightarrow> f (accumulate u v) = sat_add (f u) (f v)"
  by (auto simp: usage_fields_def accumulate_def)

lemma fold_accumulate_field:
  assumes "f \<in> set usage_fields"
  shows "unat (f (fold (\<lambda>v u. accumulate u v) vs u)) = min (2 ^ 64 - 1) (unat (f u) + (\<Sum>v\<leftarrow>vs. unat (f v)))"
proof (induction vs arbitrary: u)
  case Nil
  then show ?case using unat_u64_less [of "f u"] by simp
next
  case (Cons v vs)
  show ?case by (simp add: Cons.IH accumulate_field [OF assms] unat_sat_add)
qed

lemma fold_accumulate_consumed:
  "unat (tu_consumed_tokens (fold (\<lambda>v u. accumulate u v) vs u)) =
   min (2 ^ 64 - 1) (unat (tu_consumed_tokens u) + (\<Sum>v\<leftarrow>vs. unat (effective_consumed_tokens v)))"
proof (induction vs arbitrary: u)
  case Nil
  then show ?case using unat_u64_less [of "tu_consumed_tokens u"] by simp
next
  case (Cons v vs)
  show ?case by (simp add: Cons.IH) (simp add: accumulate_def unat_sat_add)
qed

lemma accumulate_swap: "accumulate (accumulate u v) w = accumulate (accumulate u w) v"
  by (simp add: accumulate_def sat.assoc sat.commute sat.left_commute)

lemma fold_accumulate_perm:
  "mset vs = mset ws \<Longrightarrow> fold (\<lambda>v u. accumulate u v) vs u = fold (\<lambda>v u. accumulate u v) ws u"
proof -
  assume perm: "mset vs = mset ws"
  show ?thesis
    by (rule fold_permuted_eq [where P = "\<lambda>_. True" and z = u, OF perm]) (auto simp: accumulate_swap)
qed

end
