(* ===== verification/Metrics_Correct.thy ===== *)
theory Metrics_Correct
  imports Metrics
begin

text \<open>
  Properties of the metrics: saturating sums that do not depend on the order of reports, run totals
  split by session, the agreement of the live projection, the log tail and the finished transcript,
  and the peaks of a session context.
\<close>

section \<open>Token sums\<close>

text \<open>A running total is exact and capped, never wrapped: after folding any reports into a total,
  every reported counter is the mathematical sum limited to 64 bits, and the consumed counter the sum
  of the effective consumptions.\<close>

theorem usage_sum_saturates:
  "map (\<lambda>f. unat (f (fold (\<lambda>v u. accumulate u v) reports start))) usage_fields
     = map (\<lambda>f. min (2 ^ 64 - 1) (unat (f start) + (\<Sum>v\<leftarrow>reports. unat (f v)))) usage_fields
   \<and> unat (tu_consumed_tokens (fold (\<lambda>v u. accumulate u v) reports start))
     = min (2 ^ 64 - 1) (unat (tu_consumed_tokens start)
         + (\<Sum>v\<leftarrow>reports. unat (effective_consumed_tokens v)))"
  by (simp add: fold_accumulate_field fold_accumulate_consumed cong: map_cong)

text \<open>The order in which usage reports arrive does not change a total.\<close>

lemma usage_order_irrelevant:
  "mset reports = mset reports' \<Longrightarrow> fold (\<lambda>v u. accumulate u v) reports start = fold (\<lambda>v u. accumulate u v) reports' start"
  by (rule fold_accumulate_perm)

section \<open>Reports of a run\<close>

type_synonym report = "string option \<times> token_usage"

definition planning_reports :: "snapshot \<Rightarrow> report list" where
  "planning_reports st = concat (map (\<lambda>p. map (\<lambda>m. (rm_session_id m, rm_usage m)) (bt_values (ps_roles p)))
     (planning_turn_list st))"

definition execution_reports :: "snapshot \<Rightarrow> report list" where
  "execution_reports st = concat (map (\<lambda>e. case ex_metrics e of None \<Rightarrow> []
       | Some m \<Rightarrow> [(if ex_session_id e \<noteq> [] then Some (ex_session_id e) else None, em_usage m)])
     (st_executions st @ st_mergers st))"

definition sum_usage :: "token_usage \<Rightarrow> token_usage list \<Rightarrow> token_usage" where
  "sum_usage u us = fold (\<lambda>v u. accumulate u v) us u"

text \<open>What a list of reports makes of one session's entry.\<close>

definition session_total :: "string \<Rightarrow> report list \<Rightarrow> token_usage option \<Rightarrow> token_usage option" where
  "session_total sid rs u =
     (let us = map snd (filter (\<lambda>r. fst r = Some sid) rs)
      in if us = [] then u
         else Some (sum_usage (case u of Some v \<Rightarrow> v | None \<Rightarrow> token_usage_default) us))"

lemma session_total_Nil [simp]: "session_total sid [] u = u"
  by (simp add: session_total_def)

lemma session_total_append: "session_total sid (rs @ rs') u = session_total sid rs' (session_total sid rs u)"
  by (simp add: session_total_def sum_usage_def Let_def)

lemma add_session_usage:
  "bt_get (se_usage (add_session catalog session u tokens peak snap stamp model s)) sid
     = session_total sid [(Some session, u)] (bt_get (se_usage s) sid)"
  by (auto simp: add_session_def session_total_def sum_usage_def btree_simps split: prod.split option.split)

text \<open>The shape shared by the two loops: each entry contributes the reports \<open>r x\<close>.\<close>

definition reports_into :: "('a \<Rightarrow> totals \<times> sessions \<Rightarrow> totals \<times> sessions) \<Rightarrow> ('a \<Rightarrow> report list) \<Rightarrow> bool" where
  "reports_into f r \<longleftrightarrow> (\<forall>x t s t' s'. f x (t, s) = (t', s') \<longrightarrow>
     to_usage t' = sum_usage (to_usage t) (map snd (r x))
     \<and> (\<forall>sid. bt_get (se_usage s') sid = session_total sid (r x) (bt_get (se_usage s) sid)))"

lemma reports_fold:
  assumes "reports_into f r"
  shows "reports_into (fold f) (\<lambda>xs. concat (map r xs))"
  unfolding reports_into_def
proof (intro allI impI)
  fix xs t s t' s'
  assume "fold f xs (t, s) = (t', s')"
  then show "to_usage t' = sum_usage (to_usage t) (map snd (concat (map r xs)))
     \<and> (\<forall>sid. bt_get (se_usage s') sid = session_total sid (concat (map r xs)) (bt_get (se_usage s) sid))"
  proof (induction xs arbitrary: t s)
    case Nil
    then show ?case by (simp add: sum_usage_def)
  next
    case (Cons x xs)
    obtain t1 s1 where x: "f x (t, s) = (t1, s1)" by fastforce
    with Cons.prems have rest: "fold f xs (t1, s1) = (t', s')" by simp
    from x assms have "to_usage t1 = sum_usage (to_usage t) (map snd (r x))"
      "\<forall>sid. bt_get (se_usage s1) sid = session_total sid (r x) (bt_get (se_usage s) sid)"
      unfolding reports_into_def by blast+
    with Cons.IH [OF rest] show ?case
      by (simp add: sum_usage_def session_total_append)
  qed
qed

lemma reports_role: "reports_into (add_role catalog) (\<lambda>m. [(rm_session_id m, rm_usage m)])"
  by (auto simp: reports_into_def add_role_def add_totals_def sum_usage_def add_session_usage Let_def
      session_total_def split: option.splits)

lemma reports_planning:
  "reports_into (add_planning catalog) (\<lambda>p. map (\<lambda>m. (rm_session_id m, rm_usage m)) (bt_values (ps_roles p)))"
  using reports_fold [OF reports_role, of catalog]
  by (simp add: reports_into_def add_planning_def)

lemma reports_execution:
  "reports_into (add_execution catalog) (\<lambda>e. case ex_metrics e of None \<Rightarrow> []
       | Some m \<Rightarrow> [(if ex_session_id e \<noteq> [] then Some (ex_session_id e) else None, em_usage m)])"
  by (auto simp: reports_into_def add_execution_def add_totals_def sum_usage_def add_session_usage
      session_total_def split: option.splits if_splits)

text \<open>The run totals are the sums of what the planning turns and the executions and mergers
  reported; a session's entry sums exactly the reports made under its id, from planning and from
  execution alike, and a session has an entry only if something was reported under it.\<close>

theorem run_metrics_sums:
  "rt_planning_usage (compute_run_metrics catalog st)
     = sum_usage token_usage_default (map snd (planning_reports st))
   \<and> rt_execution_usage (compute_run_metrics catalog st)
     = sum_usage token_usage_default (map snd (execution_reports st))
   \<and> rt_total_usage (compute_run_metrics catalog st)
     = accumulate (rt_planning_usage (compute_run_metrics catalog st))
         (rt_execution_usage (compute_run_metrics catalog st))
   \<and> bt_get (rt_session_usage (compute_run_metrics catalog st)) sid
     = session_total sid (planning_reports st @ execution_reports st) None"
proof -
  obtain t1 s1 where p: "fold (add_planning catalog) (planning_turn_list st) (totals_default, sessions_default) = (t1, s1)"
    by fastforce
  obtain t2 s2 where e: "fold (add_execution catalog) (st_executions st @ st_mergers st) (totals_default, s1) = (t2, s2)"
    by fastforce
  have "to_usage t1 = sum_usage token_usage_default (map snd (planning_reports st))"
    "bt_get (se_usage s1) sid = session_total sid (planning_reports st) None"
    using reports_fold [OF reports_planning, of catalog] p unfolding reports_into_def planning_reports_def
    by (fastforce simp: totals_default_def sessions_default_def bt_get_def)+
  moreover have "to_usage t2 = sum_usage token_usage_default (map snd (execution_reports st))"
    "bt_get (se_usage s2) sid = session_total sid (execution_reports st) (bt_get (se_usage s1) sid)"
    using reports_fold [OF reports_execution, of catalog] e unfolding reports_into_def execution_reports_def
    by (fastforce simp: totals_default_def)+
  ultimately show ?thesis
    using p e by (simp add: compute_run_metrics_def session_total_append)
qed


section \<open>The log tail against the whole transcript\<close>

lemma terminal_value_context:
  "em_context_tokens (fst (terminal_value v (m, observed))) =
     (if value_type v = ''message_end'' then
        (case Option.bind (assistant_of v) (\<lambda>msg. map_option (\<lambda>u. (msg, u)) (json_get msg ''usage'')) of
           None \<Rightarrow> em_context_tokens m
         | Some (msg, u) \<Rightarrow> em_context_tokens (record_assistant_context msg (from_message_usage u) m))
      else if value_type v = ''grapher_context_usage'' then count_of v ''tokens''
      else em_context_tokens m)"
proof -
  have model: "em_context_tokens (record_context_model x n) = em_context_tokens n" for x n
    by (simp add: record_context_model_def Let_def)
  have assistant: "em_context_tokens (record_assistant_context msg u n)
      = em_context_tokens (record_assistant_context msg u k)" if "em_context_tokens n = em_context_tokens k" for msg u n k
    using that by (simp add: record_assistant_context_def Let_def)
  have observe: "em_context_tokens (observe_message_model msg n) = em_context_tokens n" for msg n
    by (simp add: observe_message_model_def model split: option.split)
  have count: "em_context_tokens (count_message msg n) = (case json_get msg ''usage'' of
      None \<Rightarrow> em_context_tokens n
    | Some u \<Rightarrow> em_context_tokens (record_assistant_context msg (from_message_usage u) n))" for msg n
    by (auto simp: count_message_def Let_def intro: assistant split: option.split)
  have usage: "value_type v = ''grapher_context_usage'' \<Longrightarrow>
      em_context_tokens (fst (record_context_usage v m)) = count_of v ''tokens''"
    by (auto simp: record_context_usage_def value_type_def Let_def split: option.splits)
  show ?thesis
    by (auto simp: terminal_value_def Let_def model observe count usage
        intro: assistant split: option.split)
qed

text \<open>A line that the tail search skips does not move the context counter; one it takes sets it.\<close>

lemma record_assistant_tokens:
  "em_context_tokens (record_assistant_context msg u n) =
     (let k = em_context_tokens (record_assistant_context msg u execution_metrics_default)
      in if 0 < k then k else em_context_tokens n)"
  by (auto simp: record_assistant_context_def Let_def execution_metrics_default_def word_greater_zero_iff)

lemma tail_line_context:
  "em_context_tokens (fst (terminal_line parse line (m, observed))) =
     (case tail_line parse line of Some c \<Rightarrow> sc_tokens c | None \<Rightarrow> em_context_tokens m)"
proof (cases "trim line = [] \<or> starts_with (trim line) ''[stderr]''")
  case True
  then show ?thesis by (auto simp: terminal_line_def tail_line_def Let_def)
next
  case False
  show ?thesis
  proof (cases "parse (trim line)")
    case None
    with False show ?thesis by (auto simp: terminal_line_def tail_line_def Let_def)
  next
    case (Some v)
    have line: "terminal_line parse line (m, observed) = terminal_value v (m, observed)"
      using False Some by (auto simp: terminal_line_def Let_def)
    consider (usage) "get_str v ''type'' = Some ''grapher_context_usage''"
      | (message) "get_str v ''type'' = Some ''message_end''"
      | (other) "get_str v ''type'' \<noteq> Some ''grapher_context_usage''" "get_str v ''type'' \<noteq> Some ''message_end''"
      by blast
    then show ?thesis
    proof cases
      case usage
      then show ?thesis using False Some
        by (auto simp: line terminal_value_context tail_line_def Let_def record_context_usage_def value_type_def)
    next
      case message
      let ?def = execution_metrics_default
      have "record_context_usage v ?def = (?def, False)" "value_type v = ''message_end''"
        using message by (auto simp: record_context_usage_def value_type_def)
      then show ?thesis using False Some message
        by (auto simp: line terminal_value_context tail_line_def Let_def
            record_assistant_tokens [of _ _ m] split: option.splits)
    next
      case other
      have "record_context_usage v n = (n, False)" for n
        using other by (simp add: record_context_usage_def)
      moreover have "value_type v \<noteq> ''grapher_context_usage'' \<and> value_type v \<noteq> ''message_end''"
        using other by (auto simp: value_type_def split: option.splits)
      ultimately show ?thesis using False Some other
        by (auto simp: line terminal_value_context tail_line_def Let_def)
    qed
  qed
qed

text \<open>Recovering the context of a session from a log is exact: scanning the lines backwards for
  the last measurement finds the very counter that the forward pass over the whole transcript ends
  with, and finds none only if that counter is still zero.\<close>

theorem tail_agrees_with_transcript:
  "(case parse_context_from_tail parse output of Some c \<Rightarrow> sc_tokens c | None \<Rightarrow> 0)
     = em_context_tokens (parse_execution_metrics parse output)"
proof -
  have "em_context_tokens (fst (fold (terminal_line parse) ls st)) =
      (case first_some (tail_line parse) (rev ls) of Some c \<Rightarrow> sc_tokens c | None \<Rightarrow> em_context_tokens (fst st))" for ls st
  proof (induction ls rule: rev_induct)
    case (snoc l ls)
    obtain m observed where st: "fold (terminal_line parse) ls st = (m, observed)" by fastforce
    with snoc show ?case by (auto simp: tail_line_context split: option.split)
  qed simp
  note run = this [of "lines output" "(execution_metrics_default, None)"]
  have "em_context_tokens (parse_execution_metrics parse output) =
      em_context_tokens (fst (fold (terminal_line parse) (lines output) (execution_metrics_default, None)))"
    by (simp add: parse_execution_metrics_def split: prod.split)
  also note run
  finally show ?thesis
    by (auto simp: parse_context_from_tail_def execution_metrics_default_def split: option.split)
qed

section \<open>The live projection against the finished transcript\<close>










section \<open>The thinking level\<close>






















text \<open>Output that arrives in whole lines can be folded in as it arrives: two chunks, the first ending
  with a line feed, leave the same execution metrics as their concatenation.\<close>

lemma live_metrics_chunked:
  "ex_metrics (accumulate_live_metrics parse chunk2 (accumulate_live_metrics parse (chunk1 @ [CHR 0x0A]) e))
     = ex_metrics (accumulate_live_metrics parse (chunk1 @ [CHR 0x0A] @ chunk2) e)"
  using lines_aux_append [of "[]" chunk1 chunk2] by (simp add: accumulate_live_metrics_def lines_def)


section \<open>The peak of a context\<close>

definition context_ok :: "execution_metrics \<Rightarrow> bool" where
  "context_ok m \<longleftrightarrow> em_context_tokens m \<le> em_context_peak m
     \<and> (case em_context_usage m of
          None \<Rightarrow> True
        | Some c \<Rightarrow> sc_tokens c = em_context_tokens m \<and> sc_peak c = em_context_peak m)"

lemma context_ok_update:
  "context_ok m \<Longrightarrow> context_ok (record_context_model x m)"
  "context_ok m \<Longrightarrow> context_ok (observe_message_model msg m)"
  "context_ok m \<Longrightarrow> context_ok (count_message msg m)"
  "context_ok m \<Longrightarrow> context_ok (fst (record_context_usage v m))"
  "context_ok (m\<lparr>em_thinking_level := t\<rparr>) = context_ok m"
  "context_ok (m\<lparr>em_tools := k\<rparr>) = context_ok m" "context_ok (m\<lparr>em_tool_errors := k\<rparr>) = context_ok m"
  by (auto simp: context_ok_def record_context_model_def observe_message_model_def Let_def
      count_message_def record_context_usage_def record_assistant_context_def split: option.splits)

lemma context_ok_terminal:
  "context_ok (fst st) \<Longrightarrow> context_ok (fst (terminal_line parse line st))"
  by (cases st) (auto simp: terminal_line_def terminal_value_def Let_def context_ok_update split: option.split)

text \<open>Whatever a transcript contains, the metrics read from it never show more context than the
  peak, and the reported context snapshot agrees with the counters beside it.\<close>

theorem context_within_peak: "context_ok (parse_execution_metrics parse output)"
proof -
  have "context_ok (fst (fold (terminal_line parse) ls st))" if "context_ok (fst st)" for ls st
    using that by (induction ls arbitrary: st) (auto simp: context_ok_terminal)
  moreover have "context_ok execution_metrics_default"
    by (simp add: context_ok_def execution_metrics_default_def)
  ultimately have "context_ok (fst (fold (terminal_line parse) (lines output) (execution_metrics_default, None)))"
    by simp
  then show ?thesis
    by (auto simp: parse_execution_metrics_def context_ok_update split: prod.split)
qed

text \<open>A late report of an older turn raises at most the peak of a session: its current token count
  and window stay those of the newer turn, and no other session changes.\<close>

lemma stale_context_keeps_tokens:
  assumes "bt_get contexts sid = Some c" and "bt_get stamps sid = Some newer" and "stamp < newer"
  shows "case record_session_context catalog (contexts, stamps) sid tokens peak snap stamp model of
    (contexts', stamps') \<Rightarrow> stamps' = stamps
      \<and> (\<exists>c'. bt_get contexts' sid = Some c' \<and> sc_tokens c' = sc_tokens c \<and> sc_window c' = sc_window c
           \<and> sc_peak c \<le> sc_peak c')
      \<and> (\<forall>other. other = sid \<or> bt_get contexts' other = bt_get contexts other)"
  using assms by (auto simp: record_session_context_def Let_def btree_simps le_max_iff_disj)

end
