(* ===== verification/Errors.thy ===== *)
theory Errors
  imports Prelude
begin

text \<open>
  The error classification of \<open>backend/src/model.rs\<close>: what counts as a user interruption, as a
  credential failure and as a transport failure.  The three tests look for fixed phrases in the
  message, ASCII ones after lowering the case, Chinese ones (given here as UTF-8 bytes) as they are.
\<close>

definition contains_any :: "string \<Rightarrow> string list \<Rightarrow> bool" where
  "contains_any s ps \<longleftrightarrow> (\<exists>p \<in> set ps. contains_str s p)"

definition interrupted_phrases :: "string list" where
  "interrupted_phrases =
     [''application stopped during this execution'', ''execution was interrupted'',
      ''0xc000013a'', ''exit code: 130'', ''exit code: 143'', ''signal: sigint'',
      ''signal: sigterm'',
      ''paused by user'', ''stopped by user'', ''manually paused'', ''manually stopped'',
      ''user paused'', ''user stopped'']"

text \<open>``The user stopped this execution'', ``user paused manually'', ``user paused'', ``user stopped'',
  ``paused manually'' and ``paused''.\<close>

definition interrupted_phrases_zh :: "string list" where
  "interrupted_phrases_zh =
     [[CHR 0xE7, CHR 0x94, CHR 0xA8, CHR 0xE6, CHR 0x88, CHR 0xB7, CHR 0xE5, CHR 0xB7,
       CHR 0xB2, CHR 0xE5, CHR 0x81, CHR 0x9C, CHR 0xE6, CHR 0xAD, CHR 0xA2, CHR 0xE6,
       CHR 0x9C, CHR 0xAC, CHR 0xE6, CHR 0xAC, CHR 0xA1, CHR 0xE6, CHR 0x89, CHR 0xA7,
       CHR 0xE8, CHR 0xA1, CHR 0x8C],
      [CHR 0xE7, CHR 0x94, CHR 0xA8, CHR 0xE6, CHR 0x88, CHR 0xB7, CHR 0xE6, CHR 0x89,
       CHR 0x8B, CHR 0xE5, CHR 0x8A, CHR 0xA8, CHR 0xE6, CHR 0x9A, CHR 0x82, CHR 0xE5,
       CHR 0x81, CHR 0x9C],
      [CHR 0xE7, CHR 0x94, CHR 0xA8, CHR 0xE6, CHR 0x88, CHR 0xB7, CHR 0xE5, CHR 0xB7,
       CHR 0xB2, CHR 0xE6, CHR 0x9A, CHR 0x82, CHR 0xE5, CHR 0x81, CHR 0x9C],
      [CHR 0xE7, CHR 0x94, CHR 0xA8, CHR 0xE6, CHR 0x88, CHR 0xB7, CHR 0xE5, CHR 0x81,
       CHR 0x9C, CHR 0xE6, CHR 0xAD, CHR 0xA2],
      [CHR 0xE6, CHR 0x89, CHR 0x8B, CHR 0xE5, CHR 0x8A, CHR 0xA8, CHR 0xE6, CHR 0x9A,
       CHR 0x82, CHR 0xE5, CHR 0x81, CHR 0x9C],
      [CHR 0xE5, CHR 0xB7, CHR 0xB2, CHR 0xE6, CHR 0x9A, CHR 0x82, CHR 0xE5, CHR 0x81,
       CHR 0x9C]]"

definition is_interrupted_error :: "string \<Rightarrow> bool" where
  "is_interrupted_error error \<longleftrightarrow>
     contains_any (to_ascii_lowercase error) interrupted_phrases
     \<or> contains_any error interrupted_phrases_zh"

definition credential_phrases :: "string list" where
  "credential_phrases =
     [''oauth refresh failed'', ''oauth refresh returned a token that expires too soon'',
      ''oauth auth derivation failed'', ''credential store read failed'',
      ''credential store modify failed'',
      ''cannot convert argument to a bytestring because the character'',
      ''api key auth failed'', ''provider is not configured'', ''invalid_grant'',
      ''invalid_token'', ''not authenticated'', ''unauthenticated'',
      ''authentication failed'', ''unauthorized'']"

definition is_credential_error :: "string \<Rightarrow> bool" where
  "is_credential_error error \<longleftrightarrow> contains_any (to_ascii_lowercase error) credential_phrases"

definition permanent_phrases :: "string list" where
  "permanent_phrases =
     [''certificate'', ''cert_'', ''x509'', ''unable to verify'', ''context length'',
      ''context_length'', ''context window'', ''maximum context'', ''insufficient balance'',
      ''quota'']"

definition transport_phrases :: "string list" where
  "transport_phrases =
     [''connection reset'', ''connection refused'', ''connection lost'',
      ''connection closed'', ''client network socket disconnected'',
      ''peer connection was lost'', ''socket hang up'', ''socket connection was closed'',
      ''network error'', ''fetch failed'', ''failed to fetch'', ''tls handshake failed'',
      ''ssl handshake failed'', ''premature close'', ''unexpected eof'', ''econnreset'',
      ''econnrefused'', ''econnaborted'', ''etimedout'', ''enotfound'', ''eai_again'',
      ''und_err_'', ''err_network_changed'', ''err_http2_'', ''err_stream_'']"

definition is_transport_error :: "string \<Rightarrow> bool" where
  "is_transport_error error =
     (let lower = to_ascii_lowercase error in
      if is_credential_error error \<or> contains_any lower permanent_phrases then False
      else starts_with lower ''connection error'' \<or> contains_any lower transport_phrases)"

lemma contains_str_append: "contains_str s p \<Longrightarrow> contains_str (a @ s @ b) p"
  unfolding contains_str_iff by (metis append_assoc)

lemma contains_any_append: "contains_any s ps \<Longrightarrow> contains_any (a @ s @ b) ps"
  unfolding contains_any_def using contains_str_append by blast

lemma is_interrupted_append: "is_interrupted_error s \<Longrightarrow> is_interrupted_error (a @ s @ b)"
  unfolding is_interrupted_error_def to_ascii_lowercase_def map_append
  by (auto intro: contains_any_append)

lemma is_credential_append: "is_credential_error s \<Longrightarrow> is_credential_error (a @ s @ b)"
  unfolding is_credential_error_def to_ascii_lowercase_def map_append
  by (auto intro: contains_any_append)

text \<open>No failure is offered both recoveries.\<close>

lemma transport_not_credential: "is_transport_error s \<Longrightarrow> \<not> is_credential_error s"
  by (auto simp: is_transport_error_def Let_def split: if_splits)

end
