(* ===== verification/Queries.thy ===== *)
theory Queries
  imports Metrics Errors
begin

text \<open>
  The read-only operations of \<open>backend/src/model.rs\<close>: model settings of a configuration, the prompt a
  node's pending messages make, the recovery queries of a snapshot (which nodes were interrupted or
  failed, whether the run can continue, whether work is live), and the derived state that is rebuilt
  after a replay.
\<close>

section \<open>Configuration\<close>

definition from_config :: "config \<Rightarrow> run_model_config" where
  "from_config c = \<lparr>mc_model = cf_model c, mc_thinking_level = cf_thinking_level c,
     mc_role_models = cf_role_models c\<rparr>"

definition node_agent_settings ::
  "string \<Rightarrow> string \<Rightarrow> (string, role_model_config) btree_map \<Rightarrow> role_model_config" where
  "node_agent_settings model thinking_level role_models =
     (let settings = bt_get role_models ''nodeAgent'' in
      \<lparr>ro_model = (case settings of
          Some s \<Rightarrow> if trim (ro_model s) \<noteq> [] then trim (ro_model s) else trim model
        | None \<Rightarrow> trim model),
       ro_thinking_level = Some (case Option.bind settings ro_thinking_level of
          Some level \<Rightarrow> level | None \<Rightarrow> thinking_level)\<rparr>)"

definition run_agent_settings :: "run_model_config \<Rightarrow> role_model_config" where
  "run_agent_settings c = node_agent_settings (mc_model c) (mc_thinking_level c) (mc_role_models c)"

definition config_agent_settings :: "config \<Rightarrow> role_model_config" where
  "config_agent_settings c = node_agent_settings (cf_model c) (cf_thinking_level c) (cf_role_models c)"

definition thinking_levels :: "string list" where
  "thinking_levels = [''off'', ''minimal'', ''low'', ''medium'', ''high'', ''xhigh'', ''max'']"

fun validate_roles :: "(string \<times> role_model_config) list \<Rightarrow> string + unit" where
  "validate_roles [] = Inr ()"
| "validate_roles ((role, settings) # rest) =
     (if role \<notin> set [''partitioner'', ''planner'', ''nodeAgent''] then Inl (''Unknown model role: '' @ role)
      else case ro_thinking_level settings of
        Some level \<Rightarrow>
          if level \<notin> set thinking_levels
          then Inl (''Invalid '' @ role @ '' thinking level: '' @ level)
          else validate_roles rest
      | None \<Rightarrow> validate_roles rest)"

text \<open>\<open>validate_environment\<close> is \<open>EnvironmentConfig::validate\<close>, a parameter here.\<close>

definition validate_model_settings ::
  "(environment_config \<Rightarrow> string + unit) \<Rightarrow> config \<Rightarrow> string + unit" where
  "validate_model_settings validate_environment c =
     (if cf_thinking_level c \<notin> set thinking_levels
      then Inl (''Invalid default thinking level: '' @ cf_thinking_level c)
      else case validate_roles (cf_role_models c) of
        Inl err \<Rightarrow> Inl err
      | Inr () \<Rightarrow> (case cf_environment c of None \<Rightarrow> Inr () | Some e \<Rightarrow> validate_environment e))"

definition feedback_sources :: "feedback_workspace \<Rightarrow> feedback_source list" where
  "feedback_sources w =
     \<lparr>fs_source_execution_id = fw_source_execution_id w, fs_worktree = fw_worktree w,
      fs_head = fw_head w\<rparr> # fw_additional_sources w"

text \<open>Reading a stored status renames the historical \<open>done\<close>.\<close>

definition deserialize_node_status :: "string \<Rightarrow> string" where
  "deserialize_node_status status = (if status = ''done'' then ''completed'' else status)"

section \<open>Pending messages of a node\<close>

fun prompt_parts ::
  "nat \<Rightarrow> pending_node_message list \<Rightarrow> image_attachment list \<Rightarrow> string list
   \<Rightarrow> image_attachment list \<times> string list" where
  "prompt_parts index [] images parts = (images, parts)"
| "prompt_parts index (message # rest) images parts =
     (let first_image = length images + 1;
          images = images @ (case pm_images message of Some is \<Rightarrow> is | None \<Rightarrow> []);
          label = (if first_image \<le> length images
            then ''[User message '' @ nat_str (index + 1) @ ''; attached images '' @ nat_str first_image
              @ ''-'' @ nat_str (length images) @ '']''
            else ''[User message '' @ nat_str (index + 1) @ '']'')
      in prompt_parts (index + 1) rest images (parts @ [label @ [CHR 0x0A] @ pm_instruction message]))"

definition pending_prompt :: "node_state \<Rightarrow> (string \<times> image_attachment list option) option" where
  "pending_prompt n =
     (if ns_pending_messages n = [] then None
      else
        let (images, parts) = prompt_parts 0 (ns_pending_messages n) [] [];
            prompt = (case ns_pending_messages n of
              [message] \<Rightarrow> pm_instruction message
            | _ \<Rightarrow> ''Process these user messages in order. Image numbers refer to the attached images in order.''
                @ [CHR 0x0A, CHR 0x0A] @ join [CHR 0x0A, CHR 0x0A] parts)
        in Some (prompt, if images \<noteq> [] then Some images else None))"

definition is_user_paused :: "node_state \<Rightarrow> bool" where
  "is_user_paused n \<longleftrightarrow> ns_status n = ''failed''
     \<and> (case ns_error n of Some e \<Rightarrow> is_interrupted_error e | None \<Rightarrow> False)"

definition is_real_failure :: "node_state \<Rightarrow> bool" where
  "is_real_failure n \<longleftrightarrow> ns_status n = ''failed''
     \<and> \<not> (case ns_error n of Some e \<Rightarrow> is_interrupted_error e | None \<Rightarrow> False)"

section \<open>Recovery queries\<close>

text \<open>The last execution of a node that was not superseded.\<close>

definition latest_execution :: "snapshot \<Rightarrow> string \<Rightarrow> execution option" where
  "latest_execution st name =
     find (\<lambda>e. ex_node e = name \<and> ex_id e \<notin> set (st_superseded_execution_ids st)) (rev (st_executions st))"

definition interrupted_nodes :: "snapshot \<Rightarrow> string list" where
  "interrupted_nodes st =
     map fst (filter (\<lambda>(name, n).
        ns_status n = ''failed'' \<and> (case ns_error n of Some e \<Rightarrow> is_interrupted_error e | None \<Rightarrow> False)
        \<and> (case latest_execution st name of Some e \<Rightarrow> ex_status e = ''failed'' | None \<Rightarrow> False)) (st_nodes st))"

definition recovery_is_idle :: "snapshot \<Rightarrow> bool" where
  "recovery_is_idle st \<longleftrightarrow>
     st_approved st
     \<and> st_phase st \<notin> set [''completed'', ''publishing'', ''merging'', ''publication_failed'']
     \<and> \<not> (\<exists>e \<in> set (st_executions st @ st_mergers st). ex_status e = ''running'')
     \<and> \<not> (\<exists>n \<in> set (bt_values (st_nodes st)). ns_status n = ''running'')"

definition can_resume_interrupted :: "snapshot \<Rightarrow> bool" where
  "can_resume_interrupted st \<longleftrightarrow> recovery_is_idle st \<and> interrupted_nodes st \<noteq> []"

definition failed_retry_nodes :: "snapshot \<Rightarrow> string list" where
  "failed_retry_nodes st =
     map fst (filter (\<lambda>(name, n). ns_status n = ''failed''
        \<and> (case latest_execution st name of Some e \<Rightarrow> ex_status e = ''failed'' | None \<Rightarrow> False)) (st_nodes st))"

text \<open>The error of the last \<open>Failed\<close> event of an execution.\<close>

definition failed_error :: "string \<Rightarrow> event \<Rightarrow> string option" where
  "failed_error eid ev =
     (case ev_kind ev of
        Failed node (Some failed_id) error output_bytes metrics \<Rightarrow> if failed_id = eid then Some error else None
      | _ \<Rightarrow> None)"

definition is_prepared_event :: "string \<Rightarrow> event \<Rightarrow> bool" where
  "is_prepared_event eid ev = (case ev_kind ev of Prepared prepared_id worktree \<Rightarrow> prepared_id = eid | _ \<Rightarrow> False)"

definition execution_is_preparation_only :: "snapshot \<Rightarrow> execution \<Rightarrow> bool" where
  "execution_is_preparation_only st e =
     (if ex_status e \<noteq> ''failed'' \<or> ex_output_bytes e \<noteq> 0 then False
      else
        let session_start = (case first_some (failed_error (ex_id e)) (rev (st_events st)) of
              Some error \<Rightarrow> starts_with error ''Cannot resume node session''
                 \<or> starts_with error ''Cannot open node session''
            | None \<Rightarrow> False)
        in if session_start then True
           else \<not> (\<exists>ev \<in> set (st_events st). is_prepared_event (ex_id e) ev))"

definition has_environment :: "snapshot \<Rightarrow> bool" where
  "has_environment st \<longleftrightarrow> Option.bind (st_config st) cf_environment \<noteq> None"

text \<open>\<open>events.windows(2).any(...)\<close>\<close>

fun adjacent_any :: "('a \<Rightarrow> 'a \<Rightarrow> bool) \<Rightarrow> 'a list \<Rightarrow> bool" where
  "adjacent_any p (x # y # zs) = (p x y \<or> adjacent_any p (y # zs))"
| "adjacent_any p _ = False"

definition own_block_pair :: "string \<Rightarrow> string option \<Rightarrow> string \<Rightarrow> bool \<Rightarrow> event \<Rightarrow> event \<Rightarrow> bool" where
  "own_block_pair name node_error latest_id managed_preparation first second =
     (case (ev_kind first, ev_kind second) of
        (Failed failed_node (Some failed_id) failed output_bytes metrics, Blocked blocked_node blocked) \<Rightarrow>
          failed_node = name \<and> blocked_node = name \<and> failed_id = latest_id \<and> node_error = Some blocked
          \<and> (failed = blocked \<or> managed_preparation)
      | _ \<Rightarrow> False)"

definition node_has_own_blocked_failure :: "snapshot \<Rightarrow> string \<Rightarrow> bool" where
  "node_has_own_blocked_failure st name =
     (case bt_get (st_nodes st) name of
        None \<Rightarrow> False
      | Some n \<Rightarrow>
          if ns_status n \<noteq> ''blocked'' then False
          else (case latest_execution st name of
             None \<Rightarrow> False
           | Some latest \<Rightarrow>
               if ex_status latest \<noteq> ''failed'' then False
               else
                 let managed_preparation = (has_environment st \<and> execution_is_preparation_only st latest)
                 in adjacent_any (own_block_pair name (ns_error n) (ex_id latest) managed_preparation)
                      (st_events st)))"

definition preparation_failed_nodes :: "snapshot \<Rightarrow> string list" where
  "preparation_failed_nodes st =
     map fst (filter (\<lambda>(name, n). ns_status n \<in> set [''failed'', ''blocked'']
        \<and> (case latest_execution st name of
             None \<Rightarrow> False
           | Some latest \<Rightarrow> node_has_own_blocked_failure st name
               \<or> (has_environment st \<and> execution_is_preparation_only st latest))) (st_nodes st))"

definition can_resume :: "snapshot \<Rightarrow> bool" where
  "can_resume st \<longleftrightarrow> recovery_is_idle st \<and> (failed_retry_nodes st \<noteq> [] \<or> preparation_failed_nodes st \<noteq> [])"

definition has_live_work :: "snapshot \<Rightarrow> bool" where
  "has_live_work st \<longleftrightarrow>
     st_phase st \<in> set [''running'', ''followup'', ''publishing'', ''merging'', ''publication_failed'']
     \<or> (\<exists>e \<in> set (st_executions st). ex_status e = ''running'')
     \<or> (\<exists>e \<in> set (st_mergers st). ex_status e = ''running'')
     \<or> (\<exists>n \<in> set (bt_values (st_nodes st)). ns_status n \<in> set [''running'', ''dirty''])"

definition is_node_user_paused :: "snapshot \<Rightarrow> string \<Rightarrow> bool" where
  "is_node_user_paused st node = (case bt_get (st_nodes st) node of Some n \<Rightarrow> is_user_paused n | None \<Rightarrow> False)"

definition is_node_failed :: "snapshot \<Rightarrow> string \<Rightarrow> bool" where
  "is_node_failed st node = (case bt_get (st_nodes st) node of Some n \<Rightarrow> is_real_failure n | None \<Rightarrow> False)"

definition user_paused_nodes :: "snapshot \<Rightarrow> string list" where
  "user_paused_nodes st = map fst (filter (\<lambda>(name, n). is_user_paused n) (st_nodes st))"

definition failed_nodes :: "snapshot \<Rightarrow> string list" where
  "failed_nodes st = map fst (filter (\<lambda>(name, n). is_real_failure n) (st_nodes st))"

section \<open>Derived state\<close>

definition record_planning_turn :: "planning_summary \<Rightarrow> snapshot \<Rightarrow> snapshot" where
  "record_planning_turn planning st =
     (if ps_planning_id planning \<noteq> []
      then st\<lparr>st_planning_turns := bt_insert (ps_planning_id planning) planning (st_planning_turns st)\<rparr>
      else st)"

definition rebuild_planning_turns :: "snapshot \<Rightarrow> snapshot" where
  "rebuild_planning_turns st =
     (let st = st\<lparr>st_planning_turns := []\<rparr>;
          st = fold record_planning_turn (List.map_filter planning_summary_of (st_events st)) st
      in case st_planning st of
           Some planning \<Rightarrow>
             if ps_planning_id planning \<noteq> []
             then st\<lparr>st_planning_turns := bt_entry (ps_planning_id planning) planning (st_planning_turns st)\<rparr>
             else st
         | None \<Rightarrow> st)"

definition hydrate_legacy_model_config :: "snapshot \<Rightarrow> snapshot" where
  "hydrate_legacy_model_config st =
     (if st_model_config st \<noteq> None then st
      else case st_config st of
        None \<Rightarrow> st
      | Some c \<Rightarrow>
          (case first_some ns_model_config (bt_values (st_nodes st)) of
             None \<Rightarrow> st
           | Some settings \<Rightarrow>
               let models = from_config c;
                   models = models\<lparr>mc_role_models := bt_insert ''nodeAgent'' settings (mc_role_models models)\<rparr>
               in st\<lparr>st_model_config := Some models\<rparr>))"

definition effective_config :: "snapshot \<Rightarrow> config option" where
  "effective_config st =
     (case st_config st of
        None \<Rightarrow> None
      | Some c \<Rightarrow>
          (case st_model_config st of
             None \<Rightarrow> Some c
           | Some m \<Rightarrow> Some (c\<lparr>cf_model := mc_model m, cf_thinking_level := mc_thinking_level m,
                               cf_role_models := mc_role_models m\<rparr>)))"

definition backfill_planning :: "planning_summary \<Rightarrow> planning_summary" where
  "backfill_planning p = p\<lparr>ps_roles :=
     map (\<lambda>(role, m). (role, m\<lparr>rm_usage := backfill_consumed_tokens (rm_usage m)\<rparr>)) (ps_roles p)\<rparr>"

definition backfill_execution :: "execution \<Rightarrow> execution" where
  "backfill_execution e = e\<lparr>ex_metrics :=
     map_option (\<lambda>m. m\<lparr>em_usage := backfill_consumed_tokens (em_usage m)\<rparr>) (ex_metrics e)\<rparr>"

definition backfill_snapshot :: "snapshot \<Rightarrow> snapshot" where
  "backfill_snapshot st =
     st\<lparr>st_executions := map backfill_execution (st_executions st),
        st_mergers := map backfill_execution (st_mergers st),
        st_planning := map_option backfill_planning (st_planning st),
        st_planning_turns := map (\<lambda>(planning_id, p). (planning_id, backfill_planning p)) (st_planning_turns st)\<rparr>"

end
