(* ===== verification/Stepping.thy ===== *)
theory Stepping
  imports Prelude "HOL-Library.Sublist"
begin

text \<open>
  Fallible steps and their iteration.  A step on a state may panic (\<open>None\<close>); \<open>try_fold\<close> runs a list
  of steps and stops at the first panic.  Two interfaces state what the components promise of
  their steps: an invariant that a step keeps (\<open>step_invariant\<close>) and an order along which a step
  moves (\<open>step_order\<close>), each with the consequences for a whole run.
\<close>

fun try_fold :: "('a \<Rightarrow> 's \<Rightarrow> 's option) \<Rightarrow> 'a list \<Rightarrow> 's \<Rightarrow> 's option" where
  "try_fold f [] s = Some s"
| "try_fold f (x # xs) s = (case f x s of None \<Rightarrow> None | Some s' \<Rightarrow> try_fold f xs s')"

text \<open>\<open>if let Some(x) = xs.iter_mut().find(p) { *x = f(x) }\<close>\<close>

fun update_first :: "('a \<Rightarrow> bool) \<Rightarrow> ('a \<Rightarrow> 'a) \<Rightarrow> 'a list \<Rightarrow> 'a list" where
  "update_first p f [] = []"
| "update_first p f (x # xs) = (if p x then f x # xs else x # update_first p f xs)"

lemma try_fold_append: "try_fold f (xs @ ys) s = Option.bind (try_fold f xs s) (try_fold f ys)"
  by (induction xs arbitrary: s) (auto split: option.split)

lemma try_fold_all: "(\<And>x s. x \<in> set xs \<Longrightarrow> f x s = Some (g x s)) \<Longrightarrow> try_fold f xs s = Some (fold g xs s)"
  by (induction xs arbitrary: s) auto

lemma map_update_first: "(\<And>x. g (f x) = g x) \<Longrightarrow> map g (update_first p f xs) = map g xs"
  by (induction xs) auto

lemma set_update_first: "x \<in> set (update_first p f xs) \<Longrightarrow> x \<in> set xs \<or> (\<exists>y \<in> set xs. p y \<and> x = f y)"
  by (induction xs) (auto split: if_splits)

lemma length_update_first [simp]: "length (update_first p f xs) = length xs"
  by (induction xs) auto

lemma update_first_none: "\<not> (\<exists>x \<in> set xs. p x) \<Longrightarrow> update_first p f xs = xs"
  by (induction xs) auto

lemma update_first_id [simp]: "update_first p (\<lambda>x. x) xs = xs"
  by (induction xs) auto

locale step_invariant =
  fixes step :: "'e \<Rightarrow> 's \<Rightarrow> 's option"
    and inv :: "'s \<Rightarrow> bool"
  assumes step_inv: "inv s \<Longrightarrow> step e s = Some s' \<Longrightarrow> inv s'"
begin

lemma run_inv: "inv s \<Longrightarrow> try_fold step es s = Some s' \<Longrightarrow> inv s'"
  by (induction es arbitrary: s) (auto split: option.splits intro: step_inv)

text \<open>Every state along a run satisfies the invariant, not only the last one.\<close>

lemma run_inv_prefix:
  assumes "inv s" and "try_fold step (es @ fs) s = Some s'"
  shows "\<exists>t. try_fold step es s = Some t \<and> inv t"
  using assms run_inv by (auto simp: try_fold_append bind_eq_Some_conv)

end

locale step_order =
  fixes step :: "'e \<Rightarrow> 's \<Rightarrow> 's option"
    and le :: "'s \<Rightarrow> 's \<Rightarrow> bool"
  assumes le_refl: "le s s"
    and le_trans: "le s t \<Longrightarrow> le t u \<Longrightarrow> le s u"
    and step_le: "step e s = Some s' \<Longrightarrow> le s s'"
begin

lemma run_le: "try_fold step es s = Some s' \<Longrightarrow> le s s'"
  by (induction es arbitrary: s) (auto split: option.splits intro: le_refl le_trans step_le)

text \<open>An invariant that is closed under the order is kept by every step.\<close>

lemma upward_closed_run:
  assumes "\<And>s t. P s \<Longrightarrow> le s t \<Longrightarrow> P t" and "P s" and "try_fold step es s = Some s'"
  shows "P s'"
  using assms run_le by blast

end

text \<open>Two invariants of the same step hold together.\<close>

locale two_invariants = first: step_invariant step inv + second: step_invariant step inv'
  for step :: "'e \<Rightarrow> 's \<Rightarrow> 's option" and inv inv'

sublocale two_invariants \<subseteq> both: step_invariant step "\<lambda>s. inv s \<and> inv' s"
  by unfold_locales (auto intro: first.step_inv second.step_inv)

text \<open>Appending what is not there yet.\<close>

definition push_new :: "'a \<Rightarrow> 'a list \<Rightarrow> 'a list" where
  "push_new x xs = (if x \<in> set xs then xs else xs @ [x])"

lemma push_new_set: "set (fold push_new ys xs) = set xs \<union> set ys"
  and push_new_prefix: "prefix xs (fold push_new ys xs)"
  and push_new_distinct: "distinct xs \<Longrightarrow> distinct (fold push_new ys xs)"
proof -
  show "set (fold push_new ys xs) = set xs \<union> set ys"
    by (induction ys arbitrary: xs) (auto simp: push_new_def)
  show "prefix xs (fold push_new ys xs)"
  proof (induction ys arbitrary: xs)
    case (Cons y ys)
    have "prefix xs (push_new y xs)" by (simp add: push_new_def)
    with Cons [of "push_new y xs"] show ?case by (auto intro: prefix_order.trans)
  qed simp
  show "distinct xs \<Longrightarrow> distinct (fold push_new ys xs)"
    by (induction ys arbitrary: xs) (auto simp: push_new_def)
qed

end
