(* ===== verification/Reducer.thy ===== *)
theory Reducer
  imports Queries Compiler Stepping
begin

text \<open>
  The reducer \<open>apply\<close> of \<open>backend/src/model.rs\<close>: how each durable event changes the projected
  \<open>Snapshot\<close>.  One definition per match arm, in the order of the code, composed by \<open>apply_event\<close>.
  The result is an option: \<open>None\<close> is a panic (an \<open>unwrap\<close> or \<open>expect\<close> on a node or execution that
  does not exist).  What the reducer takes from elsewhere is the record \<open>env\<close>: Unicode case
  folding, JSON parsing and the catalog of context windows.
\<close>

record env =
  en_lower :: "string \<Rightarrow> string"
  en_parse :: "string \<Rightarrow> json option"
  en_catalog :: "string \<Rightarrow> u64 option"

section \<open>Updating in place\<close>

definition update_node :: "string \<Rightarrow> (node_state \<Rightarrow> node_state) \<Rightarrow> snapshot \<Rightarrow> snapshot" where
  "update_node name f st = st\<lparr>st_nodes := bt_update name f (st_nodes st)\<rparr>"

text \<open>\<open>nodes.get_mut(name).unwrap()\<close>\<close>

definition unwrap_node :: "string \<Rightarrow> (node_state \<Rightarrow> node_state) \<Rightarrow> snapshot \<Rightarrow> snapshot option" where
  "unwrap_node name f st = (if bt_contains (st_nodes st) name then Some (update_node name f st) else None)"

text \<open>\<open>executions.iter_mut().chain(mergers.iter_mut()).find(...)\<close>\<close>

definition find_attempt :: "(execution \<Rightarrow> bool) \<Rightarrow> snapshot \<Rightarrow> execution option" where
  "find_attempt p st = find p (st_executions st @ st_mergers st)"

definition update_attempt :: "(execution \<Rightarrow> bool) \<Rightarrow> (execution \<Rightarrow> execution) \<Rightarrow> snapshot \<Rightarrow> snapshot" where
  "update_attempt p f st =
     (if \<exists>e \<in> set (st_executions st). p e then st\<lparr>st_executions := update_first p f (st_executions st)\<rparr>
      else st\<lparr>st_mergers := update_first p f (st_mergers st)\<rparr>)"

definition never_executed :: "snapshot \<Rightarrow> string \<Rightarrow> bool" where
  "never_executed st name \<longleftrightarrow> \<not> (\<exists>e \<in> set (st_executions st). ex_node e = name)"

definition run_or_pause :: "snapshot \<Rightarrow> string" where
  "run_or_pause st = (if st_paused st then ''paused'' else ''running'')"

text \<open>\<open>compile_legacy(graph, true).ok()\<close>\<close>

definition replay_plan :: "env \<Rightarrow> graph \<Rightarrow> plan option" where
  "replay_plan en g = (case compile_legacy (en_lower en) g True of Inr p \<Rightarrow> Some p | Inl _ \<Rightarrow> None)"

definition fresh_nodes :: "graph \<Rightarrow> (string, node_state) btree_map" where
  "fresh_nodes g = bt_of_list (map (\<lambda>n. (nd_name n, node_state_default)) (gr_nodes g))"

definition all_completed :: "snapshot \<Rightarrow> bool" where
  "all_completed st \<longleftrightarrow> (\<forall>n \<in> set (bt_values (st_nodes st)). ns_status n = ''completed'')"

text \<open>Push the ids of the given executions that are not superseded yet.\<close>

definition supersede :: "execution list \<Rightarrow> string list \<Rightarrow> string list" where
  "supersede es ids = fold push_new (map ex_id es) ids"

section \<open>Planning\<close>

definition handle_planning_started ::
  "string \<Rightarrow> config \<Rightarrow> planning_summary \<Rightarrow> string option \<Rightarrow> snapshot \<Rightarrow> snapshot" where
  "handle_planning_started goal c planning plan_type st =
     st\<lparr>st_graph := (st_graph st)\<lparr>gr_original_goal := goal\<rparr>, st_config := Some c,
        st_planning_id := Some (ps_planning_id planning), st_planning := Some planning,
        st_plan_type := plan_type, st_phase := ''planning'', st_preview_graph := None\<rparr>"

definition handle_planner_turn :: "planning_summary \<Rightarrow> snapshot \<Rightarrow> snapshot" where
  "handle_planner_turn planning st =
     st\<lparr>st_planning_id := Some (ps_planning_id planning), st_planning := Some planning\<rparr>"

definition set_code_ref :: "string \<Rightarrow> composite_result \<Rightarrow> composite_result" where
  "set_code_ref head r = r\<lparr>cr_code_ref := head\<rparr>"

definition snapshotted_node ::
  "string option \<Rightarrow> string \<Rightarrow> composite_result option \<Rightarrow> node_state \<Rightarrow> node_state" where
  "snapshotted_node old_head head result n =
     (if ns_status n = ''completed'' \<and> ns_head n = old_head
      then n\<lparr>ns_head := Some head,
             ns_result := (case result of Some r \<Rightarrow> Some r | None \<Rightarrow> map_option (set_code_ref head) (ns_result n))\<rparr>
      else n)"

definition snapshot_invalidated :: "bool \<Rightarrow> node_state \<Rightarrow> node_state" where
  "snapshot_invalidated fresh n =
     (let unstarted = (ns_status n = ''waiting'' \<or> (ns_status n = ''blocked'' \<and> fresh))
      in n\<lparr>ns_status := (if unstarted then ''waiting'' else ''dirty''),
           ns_revision := (if unstarted then ns_revision n else ns_revision n + 1),
           ns_head := None, ns_result := None, ns_error := None, ns_baseline_head := None,
           ns_feedback_workspace := None, ns_instruction := [], ns_instruction_images := None,
           ns_edit_execution_id := None, ns_human_instruction := False, ns_continuation := False,
           ns_shared_workspace := False\<rparr>)"

definition handle_workspace_snapshotted ::
  "string \<Rightarrow> string \<Rightarrow> composite_result option \<Rightarrow> string list \<Rightarrow> bool \<Rightarrow> snapshot \<Rightarrow> snapshot" where
  "handle_workspace_snapshotted eid head result invalidated detached st =
     (let st = (case find (\<lambda>e. ex_id e = eid) (st_executions st) of
            None \<Rightarrow> st
          | Some e \<Rightarrow>
              let st' = st\<lparr>st_executions := update_first (\<lambda>e. ex_id e = eid)
                    (\<lambda>e. e\<lparr>ex_after := Some head,
                           ex_result := (case result of Some r \<Rightarrow> Some r
                             | None \<Rightarrow> map_option (set_code_ref head) (ex_result e))\<rparr>) (st_executions st)\<rparr>
              in if detached then st'
                 else fold (\<lambda>name. update_node name (snapshotted_node (ex_after e) head result))
                        (ex_workspace_lineage e @ [ex_node e]) st')
      in if detached then st
         else (fold (\<lambda>name st. update_node name (snapshot_invalidated (never_executed st name)) st)
                 invalidated st)\<lparr>st_publication := None\<rparr>)"

definition handle_review_started :: "planning_summary \<Rightarrow> snapshot \<Rightarrow> snapshot" where
  "handle_review_started planning st =
     st\<lparr>st_planning_id := Some (ps_planning_id planning), st_planning := Some planning,
        st_review_graph := Some (st_graph st), st_preview_graph := None, st_phase := ''planning''\<rparr>"

definition handle_review_progress :: "graph \<Rightarrow> snapshot \<Rightarrow> snapshot" where
  "handle_review_progress g st = (if st_review_graph st \<noteq> None then st\<lparr>st_review_graph := Some g\<rparr> else st)"

definition handle_preview_progress :: "graph \<Rightarrow> snapshot \<Rightarrow> snapshot" where
  "handle_preview_progress g st = st\<lparr>st_preview_graph := Some g\<rparr>"

definition handle_review_finished :: "planning_summary \<Rightarrow> bool \<Rightarrow> snapshot \<Rightarrow> snapshot" where
  "handle_review_finished planning approval_required st =
     (let st = st\<lparr>st_planning := Some planning, st_review_graph := None\<rparr> in
      if approval_required then st\<lparr>st_approved := False, st_paused := False, st_phase := ''awaiting_approval''\<rparr>
      else if st_stop_requested st \<or> st_paused st then st\<lparr>st_phase := ''paused''\<rparr>
      else if all_completed st then st\<lparr>st_phase := ''completed''\<rparr>
      else st\<lparr>st_phase := ''running''\<rparr>)"

definition handle_turn_aborted :: "planning_summary \<Rightarrow> snapshot \<Rightarrow> snapshot" where
  "handle_turn_aborted planning st =
     st\<lparr>st_planning_id := Some (ps_planning_id planning), st_planning := Some planning,
        st_preview_graph := None\<rparr>"

definition handle_planning_failed :: "planning_summary \<Rightarrow> snapshot \<Rightarrow> snapshot" where
  "handle_planning_failed planning st =
     st\<lparr>st_planning := Some planning, st_phase := ''planning_failed'', st_preview_graph := None\<rparr>"

section \<open>The graph of a run\<close>

definition handle_created ::
  "env \<Rightarrow> graph \<Rightarrow> config \<Rightarrow> string option \<Rightarrow> planning_summary option \<Rightarrow> snapshot \<Rightarrow> snapshot" where
  "handle_created en g c planning_id planning st =
     st\<lparr>st_graph := g, st_config := Some c, st_planning_id := planning_id, st_planning := planning,
        st_preview_graph := None, st_plan := replay_plan en g, st_nodes := fresh_nodes g,
        st_phase := ''awaiting_approval''\<rparr>"

definition handle_approved :: "string \<Rightarrow> snapshot \<Rightarrow> snapshot" where
  "handle_approved base st = st\<lparr>st_approved := True, st_base := base, st_phase := ''running''\<rparr>"

definition revised_node :: "node_state \<Rightarrow> node_state" where
  "revised_node n =
     (let status = (if ns_status n \<in> set [''waiting'', ''failed'', ''blocked''] then ''waiting'' else ''dirty'')
      in n\<lparr>ns_status := status, ns_head := None, ns_error := None, ns_instruction := [],
           ns_instruction_images := None, ns_edit_execution_id := None, ns_human_instruction := False,
           ns_feedback_workspace := None, ns_baseline_head := None, ns_continuation := False,
           ns_shared_workspace := False,
           ns_revision := (if status = ''dirty'' then ns_revision n + 1 else ns_revision n)\<rparr>)"

definition revise_node :: "string \<Rightarrow> snapshot \<Rightarrow> snapshot option" where
  "revise_node name st =
     (let st = st\<lparr>st_superseded_execution_ids :=
            supersede (filter (\<lambda>e. ex_node e = name) (st_executions st)) (st_superseded_execution_ids st)\<rparr>
      in unwrap_node name revised_node st)"

definition feedback_key :: "string \<Rightarrow> string \<Rightarrow> string" where
  "feedback_key from to = from @ ''->'' @ to"

definition handle_graph_revised :: "env \<Rightarrow> graph \<Rightarrow> string list \<Rightarrow> snapshot \<Rightarrow> snapshot option" where
  "handle_graph_revised en g invalidated st =
     (let changed = (st_graph st \<noteq> g);
          kept = bt_retain (\<lambda>name. \<exists>n \<in> set (gr_nodes g). nd_name n = name) (st_nodes st);
          st = st\<lparr>st_graph := g, st_preview_graph := None, st_plan := replay_plan en g,
                  st_nodes := fold (\<lambda>n. bt_entry (nd_name n) node_state_default) (gr_nodes g) kept\<rparr>
      in map_option (\<lambda>st.
           let st = st\<lparr>st_feedback_counts := bt_retain (\<lambda>key. \<exists>e \<in> set (gr_edges g).
                  eg_feedback e \<and> key = feedback_key (eg_from e) (eg_to e)) (st_feedback_counts st)\<rparr>
           in if \<not> st_approved st then st\<lparr>st_phase := ''awaiting_approval''\<rparr>
              else if changed then st\<lparr>st_publication := None, st_phase := run_or_pause st\<rparr>
              else st)
         (try_fold revise_node invalidated st))"

text \<open>The planner's revision also resets the stop request and takes the new planning turn.\<close>

definition handle_planner_revised ::
  "env \<Rightarrow> graph \<Rightarrow> string \<Rightarrow> planning_summary \<Rightarrow> string list \<Rightarrow> snapshot \<Rightarrow> snapshot option" where
  "handle_planner_revised en g planning_id planning invalidated st =
     handle_graph_revised en g invalidated
       (st\<lparr>st_stop_requested := False, st_planning_id := Some planning_id, st_planning := Some planning\<rparr>)"

definition handle_draft_edited :: "env \<Rightarrow> graph \<Rightarrow> config \<Rightarrow> snapshot \<Rightarrow> snapshot" where
  "handle_draft_edited en g c st =
     st\<lparr>st_graph := g, st_preview_graph := None, st_config := Some c, st_plan_type := Some ''graph'',
        st_plan := replay_plan en g, st_nodes := fresh_nodes g, st_phase := ''awaiting_approval''\<rparr>"

section \<open>Control and model settings\<close>

definition handle_execution_stop :: "string list \<Rightarrow> snapshot \<Rightarrow> snapshot" where
  "handle_execution_stop ids st =
     st\<lparr>st_execution_stop_requests :=
        fold push_new ids (st_execution_stop_requests st)\<rparr>"

definition handle_paused :: "bool \<Rightarrow> snapshot \<Rightarrow> snapshot" where
  "handle_paused paused st =
     (let st = st\<lparr>st_paused := paused\<rparr>;
          st = (if \<not> paused then st\<lparr>st_stop_requested := False\<rparr> else st)
      in st\<lparr>st_phase := (if paused then ''paused'' else ''running'')\<rparr>)"

definition run_model_config_default :: run_model_config where
  "run_model_config_default = \<lparr>mc_model = [], mc_thinking_level = ''low'', mc_role_models = []\<rparr>"

definition set_agent_model :: "role_model_config \<Rightarrow> snapshot \<Rightarrow> snapshot" where
  "set_agent_model settings st =
     (let models = (case st_model_config st of
            Some m \<Rightarrow> m
          | None \<Rightarrow> (case st_config st of Some c \<Rightarrow> from_config c | None \<Rightarrow> run_model_config_default))
      in st\<lparr>st_model_config :=
           Some (models\<lparr>mc_role_models := bt_insert ''nodeAgent'' settings (mc_role_models models)\<rparr>)\<rparr>)"

definition handle_failed_models :: "string list \<Rightarrow> role_model_config \<Rightarrow> snapshot \<Rightarrow> snapshot" where
  "handle_failed_models names settings st =
     fold (\<lambda>name. update_node name (\<lambda>n.
         if ns_status n = ''failed''
         then n\<lparr>ns_model_config := Some settings, ns_model_retry := Some True\<rparr> else n))
       names (set_agent_model settings st)"

definition handle_node_models :: "string list \<Rightarrow> role_model_config \<Rightarrow> snapshot \<Rightarrow> snapshot" where
  "handle_node_models names settings st =
     fold (\<lambda>name st. update_node name (\<lambda>n.
         if ns_status n = ''failed''
            \<or> (never_executed st name \<and> ns_status n \<in> set [''waiting'', ''blocked'', ''dirty''])
         then n\<lparr>ns_model_config := Some settings, ns_model_retry := Some (ns_status n = ''failed'')\<rparr>
         else n) st)
       names (set_agent_model settings st)"

definition handle_conversation_models :: "run_model_config \<Rightarrow> string list \<Rightarrow> snapshot \<Rightarrow> snapshot" where
  "handle_conversation_models settings names st =
     (let node_settings = run_agent_settings settings in
      fold (\<lambda>name st. update_node name (\<lambda>n.
          let retry = (ns_status n = ''failed'' \<or> (ns_status n = ''blocked'' \<and> \<not> never_executed st name))
          in if retry \<or> (never_executed st name \<and> ns_status n \<in> set [''waiting'', ''blocked'', ''dirty''])
             then n\<lparr>ns_model_config := Some node_settings, ns_model_retry := Some retry\<rparr>
             else n) st)
        names (st\<lparr>st_model_config := Some settings\<rparr>))"

definition recovered_node ::
  "bool \<Rightarrow> bool \<Rightarrow> bool \<Rightarrow> bool \<Rightarrow> node_state \<Rightarrow> node_state" where
  "recovered_node in_continuation resume_failed executed source_direct n =
     (if ns_status n \<notin> set [''failed'', ''blocked''] then n
      else
        let continuation = (ns_pending_messages n = [] \<and> in_continuation
              \<and> (resume_failed \<or> ns_model_config n \<noteq> None
                 \<or> (case ns_error n of Some e \<Rightarrow>
                       is_interrupted_error e \<or> is_credential_error e \<or> is_transport_error e
                     | None \<Rightarrow> False)));
            claim = (case ns_pending_messages n of
                [message] \<Rightarrow> ns_human_instruction n \<and> pm_instruction message = ns_instruction n
                  \<and> (case ns_feedback_workspace n of
                       Some input \<Rightarrow> fw_additional_sources input \<noteq> [] | None \<Rightarrow> False)
              | _ \<Rightarrow> False);
            n = (if claim then n\<lparr>ns_pending_messages := [], ns_continuation := True\<rparr> else n);
            has_previous_result = (ns_head n \<noteq> None \<or> executed)
        in n\<lparr>ns_status := (if has_previous_result then ''dirty'' else ''waiting''), ns_error := None,
             ns_baseline_head := None, ns_continuation := continuation,
             ns_source_direct_recovery := (continuation \<and> source_direct)\<rparr>)"

definition handle_recovery_queued ::
  "string list \<Rightarrow> string list \<Rightarrow> bool \<Rightarrow> string list \<Rightarrow> snapshot \<Rightarrow> snapshot" where
  "handle_recovery_queued names continuation_nodes resume_failed source_direct_nodes st =
     fold (\<lambda>name st. update_node name
         (recovered_node (name \<in> set continuation_nodes) resume_failed
            (\<exists>e \<in> set (st_executions st). ex_node e = name \<and> ex_status e = ''completed''
               \<and> ex_id e \<notin> set (st_superseded_execution_ids st))
            (name \<in> set source_direct_nodes)) st)
       names st"

definition handle_rejected :: "snapshot \<Rightarrow> snapshot" where
  "handle_rejected st = st\<lparr>st_phase := ''rejected'', st_approved := False\<rparr>"

section \<open>Executions\<close>

text \<open>Whether a started execution is a source-direct turn, and which messages stay queued.\<close>

definition started_source_direct :: "int list option \<Rightarrow> node_state \<Rightarrow> bool" where
  "started_source_direct sequences n \<longleftrightarrow>
     (ns_continuation n \<and> ns_source_direct_recovery n)
     \<or> (\<exists>m \<in> set (ns_pending_messages n). pm_source_direct m
          \<and> (case sequences of None \<Rightarrow> True | Some ss \<Rightarrow> pm_sequence m \<in> set ss))"

definition started_node :: "int list option \<Rightarrow> node_state \<Rightarrow> node_state" where
  "started_node sequences n =
     n\<lparr>ns_pending_messages := filter (\<lambda>m. case sequences of
          None \<Rightarrow> False | Some ss \<Rightarrow> pm_sequence m \<notin> set ss) (ns_pending_messages n),
       ns_source_direct_recovery := False, ns_edit_execution_id := None, ns_continuation := False,
       ns_status := ''running'', ns_error := None\<rparr>"

definition unblock_node :: "node_state \<Rightarrow> node_state" where
  "unblock_node n = (if ns_status n = ''blocked'' then n\<lparr>ns_status := ''waiting'', ns_error := None\<rparr> else n)"

definition begin_execution ::
  "execution \<Rightarrow> int list option \<Rightarrow> bool \<Rightarrow> node_state \<Rightarrow> snapshot \<Rightarrow> snapshot" where
  "begin_execution e sequences fresh_restart n st =
     (let st = update_node (ex_node e) (started_node sequences) st;
          st = (if started_source_direct sequences n then st\<lparr>st_phase := ''followup''\<rparr> else st);
          st = st\<lparr>st_preview_graph := None\<rparr>;
          st = (if fresh_restart
                then st\<lparr>st_superseded_execution_ids := st_superseded_execution_ids st
                  @ map ex_id (filter (\<lambda>prior. ex_node prior = ex_node e \<and> ex_id prior \<noteq> ex_id e
                      \<and> ex_id prior \<notin> set (st_superseded_execution_ids st)) (st_executions st))\<rparr>
                else st);
          st = st\<lparr>st_executions := st_executions st @ [e]\<rparr>
      in if st_phase st = ''needs_attention'' then st\<lparr>st_phase := run_or_pause st\<rparr> else st)"

definition handle_started :: "execution \<Rightarrow> int list option \<Rightarrow> bool \<Rightarrow> snapshot \<Rightarrow> snapshot option" where
  "handle_started e sequences fresh_restart st =
     (case bt_get (st_nodes st) (ex_node e) of
        None \<Rightarrow> None
      | Some n \<Rightarrow>
          let st = begin_execution e sequences fresh_restart n st
          in Some (fold (\<lambda>name. if name = ex_node e then (\<lambda>st. st) else update_node name unblock_node)
               (downstream (st_graph st) (ex_node e)) st))"

definition resume_attention :: "snapshot \<Rightarrow> snapshot" where
  "resume_attention st =
     (if st_phase st = ''needs_attention'' then st\<lparr>st_phase := run_or_pause st\<rparr> else st)"

definition handle_policy_requested :: "snapshot \<Rightarrow> snapshot" where
  "handle_policy_requested st =
     (if \<not> st_approved st \<and> st_environment_policy st = None
         \<and> (case st_config st of Some c \<Rightarrow> cf_environment c = None | None \<Rightarrow> False)
      then st\<lparr>st_environment_policy := Some ''automatic-pending''\<rparr> else st)"

definition handle_policy_resolved :: "environment_config option \<Rightarrow> snapshot \<Rightarrow> snapshot" where
  "handle_policy_resolved environment st =
     (if st_environment_policy st = Some ''automatic-pending'' \<and> \<not> st_approved st then
        (case st_config st of
           None \<Rightarrow> st
         | Some c \<Rightarrow>
             st\<lparr>st_config := Some (c\<lparr>cf_environment := environment\<rparr>),
                st_environment_policy := Some (case environment of
                    Some policy \<Rightarrow> if ec_discovery policy then ''automatic-lazy'' else ''automatic-managed''
                  | None \<Rightarrow> ''automatic-source-native'')\<rparr>)
      else st)"

definition handle_input_recorded :: "string \<Rightarrow> composite_result \<Rightarrow> snapshot \<Rightarrow> snapshot" where
  "handle_input_recorded eid input st =
     st\<lparr>st_executions := update_first (\<lambda>e. ex_id e = eid)
        (\<lambda>e. if ex_input e = None then e\<lparr>ex_input := Some input\<rparr> else e) (st_executions st)\<rparr>"

definition handle_result_recorded :: "string \<Rightarrow> composite_result \<Rightarrow> snapshot \<Rightarrow> snapshot" where
  "handle_result_recorded eid result st =
     st\<lparr>st_executions := update_first (\<lambda>e. ex_id e = eid)
        (\<lambda>e. if ex_result e = None then e\<lparr>ex_result := Some result\<rparr> else e) (st_executions st)\<rparr>"

definition handle_result_started :: "composite_result \<Rightarrow> string list \<Rightarrow> snapshot \<Rightarrow> snapshot" where
  "handle_result_started input args st =
     (if (case st_result_execution st of Some e \<Rightarrow> rx_status e = ''running'' | None \<Rightarrow> False) then st
      else st\<lparr>st_result_execution := Some \<lparr>rx_input = input, rx_args = args, rx_result = None,
                rx_status = ''running'', rx_error = None\<rparr>,
              st_phase := ''launching_result''\<rparr>)"

text \<open>The running result execution of a generation, if it is that one.\<close>

definition running_result :: "string \<Rightarrow> snapshot \<Rightarrow> result_execution option" where
  "running_result generation st =
     (case st_result_execution st of
        Some e \<Rightarrow> if rx_status e = ''running'' \<and> cr_generation (rx_input e) = generation then Some e else None
      | None \<Rightarrow> None)"

definition handle_result_prepared :: "composite_result \<Rightarrow> snapshot \<Rightarrow> snapshot" where
  "handle_result_prepared input st =
     (case running_result (cr_generation input) st of
        None \<Rightarrow> st
      | Some e \<Rightarrow> st\<lparr>st_result_execution := Some (e\<lparr>rx_input := input\<rparr>)\<rparr>)"

definition handle_result_failed :: "string \<Rightarrow> string \<Rightarrow> snapshot \<Rightarrow> snapshot" where
  "handle_result_failed generation error st =
     (case running_result generation st of
        None \<Rightarrow> st
      | Some e \<Rightarrow> st\<lparr>st_result_execution := Some (e\<lparr>rx_status := ''failed'', rx_error := Some error\<rparr>),
                     st_phase := ''needs_attention'', st_paused := True\<rparr>)"

definition handle_result_finished :: "result_descriptor \<Rightarrow> snapshot \<Rightarrow> snapshot" where
  "handle_result_finished d st =
     (case running_result (cr_generation (rd_result d)) st of
        None \<Rightarrow> st
      | Some e \<Rightarrow>
          st\<lparr>st_result_execution := Some (e\<lparr>rx_status := ''completed'', rx_result := Some (rd_result d)\<rparr>),
             st_nodes := map (\<lambda>(name, n). (name,
               if ns_status n = ''completed''
                  \<and> (case ns_result n of Some r \<Rightarrow> cr_layout r = Some (rd_workspace d) | None \<Rightarrow> False)
               then n\<lparr>ns_head := Some (cr_code_ref (rd_result d)), ns_result := Some (rd_result d)\<rparr>
               else n)) (st_nodes st),
             st_published_result := Some d, st_publication := None, st_phase := ''running'',
             st_paused := False\<rparr>)"

definition handle_output :: "env \<Rightarrow> string \<Rightarrow> string \<Rightarrow> snapshot \<Rightarrow> snapshot" where
  "handle_output en eid chunk st =
     update_attempt (\<lambda>e. ex_id e = eid) (append_live_output (en_parse en) chunk) st"

definition handle_prepared :: "string \<Rightarrow> string \<Rightarrow> snapshot \<Rightarrow> snapshot" where
  "handle_prepared eid head st =
     st\<lparr>st_executions := update_first (\<lambda>e. ex_id e = eid) (\<lambda>e. e\<lparr>ex_before := head\<rparr>) (st_executions st)\<rparr>"

text \<open>
  The metrics of an attempt when it ends: the event's, or those of the text, or what was recorded
  live, completed with the recorded model.
\<close>

definition final_metrics ::
  "env \<Rightarrow> execution_metrics option \<Rightarrow> string \<Rightarrow> execution_metrics option \<Rightarrow> execution_metrics option" where
  "final_metrics en metrics output recorded =
     (let chosen = (case metrics of
            Some m \<Rightarrow> Some m
          | None \<Rightarrow> if output \<noteq> [] then Some (parse_execution_metrics (en_parse en) output) else recorded)
      in map_option (\<lambda>m. merge_recorded_model m recorded) chosen)"

definition finished_execution ::
  "env \<Rightarrow> string \<Rightarrow> string \<Rightarrow> nat \<Rightarrow> execution_metrics option \<Rightarrow> nat \<Rightarrow> execution \<Rightarrow> execution" where
  "finished_execution en head output output_bytes metrics timestamp e =
     e\<lparr>ex_status := ''completed'', ex_after := Some head, ex_completed_at := Some timestamp,
       ex_output_bytes := max output_bytes (length output),
       ex_metrics := final_metrics en metrics output (ex_metrics e), ex_output := []\<rparr>"

definition completed_node :: "string \<Rightarrow> composite_result option \<Rightarrow> node_state \<Rightarrow> node_state" where
  "completed_node head result n =
     n\<lparr>ns_status := ''completed'', ns_head := Some head, ns_result := result,
       ns_instruction_images := None, ns_baseline_head := None, ns_shared_workspace := False,
       ns_feedback_workspace := None\<rparr>"

definition inherited_node :: "string \<Rightarrow> composite_result option \<Rightarrow> node_state \<Rightarrow> node_state" where
  "inherited_node head result n =
     (if ns_status n = ''completed'' then n\<lparr>ns_head := Some head, ns_result := result\<rparr> else n)"

definition outdated_node :: "bool \<Rightarrow> node_state \<Rightarrow> node_state" where
  "outdated_node fresh n =
     (let unstarted = (ns_status n = ''waiting'' \<or> (ns_status n = ''blocked'' \<and> fresh))
      in n\<lparr>ns_status := (if unstarted then ''waiting'' else ''dirty''), ns_error := None,
           ns_head := None, ns_baseline_head := None, ns_instruction := [],
           ns_instruction_images := None, ns_edit_execution_id := None, ns_human_instruction := False,
           ns_feedback_workspace := None,
           ns_revision := (if unstarted then ns_revision n else ns_revision n + 1)\<rparr>)"

text \<open>A message queued while the writer was active makes its node dirty again.\<close>

definition requeue_message :: "string \<Rightarrow> string \<Rightarrow> snapshot \<Rightarrow> snapshot option" where
  "requeue_message name head st =
     (case bt_get (st_nodes st) name of
        None \<Rightarrow> None
      | Some n \<Rightarrow>
          (case ns_pending_messages n of
             [] \<Rightarrow> Some st
           | message # rest \<Rightarrow>
               let st = update_node name (\<lambda>n. n\<lparr>ns_status := ''dirty'',
                     ns_baseline_head := (if pm_source_direct message then None else Some head),
                     ns_human_instruction := True, ns_instruction := pm_instruction message,
                     ns_instruction_images := pm_images message,
                     ns_shared_workspace := pm_shared_workspace message\<rparr>) st
               in Some (if pm_source_direct message then st\<lparr>st_phase := ''followup''\<rparr> else st)))"

definition settle_node :: "string \<Rightarrow> string list \<Rightarrow> string \<Rightarrow> composite_result option \<Rightarrow> snapshot \<Rightarrow> snapshot" where
  "settle_node name lineage head result st =
     (let changed = (case Option.bind (bt_get (st_nodes st) name) ns_baseline_head of
            Some baseline \<Rightarrow> baseline \<noteq> head | None \<Rightarrow> False);
          shared = (case bt_get (st_nodes st) name of Some n \<Rightarrow> ns_shared_workspace n | None \<Rightarrow> False);
          dependents = (if changed \<and> \<not> shared
            then filter (\<lambda>d. d \<noteq> name) (downstream (st_graph st) name) else []);
          st = update_node name (completed_node head result) st;
          st = fold (\<lambda>inherited. update_node inherited (inherited_node head result))
                 (filter (\<lambda>l. l \<noteq> name) lineage) st;
          st = fold (\<lambda>d st. update_node d (outdated_node (never_executed st d)) st) dependents st
      in if changed then st\<lparr>st_publication := None\<rparr> else st)"

definition finish_node :: "string \<Rightarrow> string list \<Rightarrow> string \<Rightarrow> composite_result option \<Rightarrow> snapshot \<Rightarrow> snapshot option" where
  "finish_node name lineage head result st = requeue_message name head (settle_node name lineage head result st)"

definition handle_finished ::
  "env \<Rightarrow> nat \<Rightarrow> string \<Rightarrow> string \<Rightarrow> string \<Rightarrow> nat \<Rightarrow> execution_metrics option \<Rightarrow> snapshot \<Rightarrow> snapshot option" where
  "handle_finished en timestamp eid head output output_bytes metrics st =
     (case find_attempt (\<lambda>e. ex_id e = eid) st of
        None \<Rightarrow> Some st
      | Some e \<Rightarrow>
          let st' = update_attempt (\<lambda>e. ex_id e = eid)
                (finished_execution en head output output_bytes metrics timestamp) st
          in if eid \<in> set (st_superseded_execution_ids st) then Some st'
             else finish_node (ex_node e) (ex_workspace_lineage e) head (ex_result e) st')"

definition failed_execution ::
  "env \<Rightarrow> nat \<Rightarrow> execution_metrics option \<Rightarrow> nat \<Rightarrow> execution \<Rightarrow> execution" where
  "failed_execution en output_bytes metrics timestamp e =
     e\<lparr>ex_status := ''failed'', ex_completed_at := Some timestamp,
       ex_output_bytes := max (max output_bytes (ex_output_bytes e)) (length (ex_output e)),
       ex_metrics := final_metrics en metrics (ex_output e) (ex_metrics e), ex_output := []\<rparr>"

definition failed_node :: "string \<Rightarrow> node_state \<Rightarrow> node_state" where
  "failed_node error n = n\<lparr>ns_status := ''failed'', ns_error := Some error, ns_baseline_head := None\<rparr>"

definition handle_failed ::
  "env \<Rightarrow> nat \<Rightarrow> string \<Rightarrow> string option \<Rightarrow> string \<Rightarrow> nat \<Rightarrow> execution_metrics option \<Rightarrow> snapshot
   \<Rightarrow> snapshot option" where
  "handle_failed en timestamp name eid error output_bytes metrics st =
     (let superseded = (case eid of Some i \<Rightarrow> i \<in> set (st_superseded_execution_ids st) | None \<Rightarrow> False)
      in map_option
           (update_attempt (\<lambda>e. Some (ex_id e) = eid) (failed_execution en output_bytes metrics timestamp))
           (if superseded then Some st else unwrap_node name (failed_node error) st))"

definition blocked_node :: "string \<Rightarrow> node_state \<Rightarrow> node_state" where
  "blocked_node error n = n\<lparr>ns_status := ''blocked'', ns_error := Some error\<rparr>"

definition handle_blocked :: "string \<Rightarrow> string \<Rightarrow> snapshot \<Rightarrow> snapshot option" where
  "handle_blocked name error st = unwrap_node name (blocked_node error) st"

definition resolved_node :: "bool \<Rightarrow> bool \<Rightarrow> string \<Rightarrow> node_state \<Rightarrow> node_state" where
  "resolved_node is_target fresh head n =
     (let unstarted = (\<not> is_target \<and> (ns_status n = ''waiting'' \<or> (ns_status n = ''blocked'' \<and> fresh)));
          n = n\<lparr>ns_status := (if unstarted then ''waiting'' else ''dirty''), ns_error := None,
                ns_head := (if is_target then Some head else None),
                ns_revision := (if unstarted then ns_revision n else ns_revision n + 1)\<rparr>
      in if is_target then
           (case ns_feedback_workspace n of
              Some input \<Rightarrow>
                if fw_additional_sources input = []
                then n\<lparr>ns_feedback_workspace := Some (input\<lparr>fw_head := head\<rparr>)\<rparr> else n
            | None \<Rightarrow>
                if \<not> ns_human_instruction n
                then n\<lparr>ns_instruction := [], ns_instruction_images := None, ns_edit_execution_id := None\<rparr>
                else n)
         else n)"

definition handle_workspace_resolved ::
  "nat \<Rightarrow> string \<Rightarrow> string \<Rightarrow> string list \<Rightarrow> snapshot \<Rightarrow> snapshot option" where
  "handle_workspace_resolved timestamp eid head names st =
     (case find (\<lambda>e. ex_id e = eid) (st_executions st) of
        None \<Rightarrow> None
      | Some e \<Rightarrow>
          let target = ex_node e;
              st = st\<lparr>st_executions := update_first (\<lambda>e. ex_id e = eid)
                     (\<lambda>e. e\<lparr>ex_status := ''resolved'', ex_completed_at := Some timestamp\<rparr>) (st_executions st),
                   st_publication := None\<rparr>
          in map_option (\<lambda>st. st\<lparr>st_phase := run_or_pause st\<rparr>)
               (try_fold (\<lambda>name st. unwrap_node name
                   (resolved_node (name = target) (never_executed st name) head) st) names st))"

section \<open>Follow-ups and edits\<close>

definition queue_message ::
  "int \<Rightarrow> string \<Rightarrow> image_attachment list option \<Rightarrow> bool \<Rightarrow> bool \<Rightarrow> node_state \<Rightarrow> node_state" where
  "queue_message sequence instruction images source_direct shared_workspace n =
     n\<lparr>ns_pending_messages := ns_pending_messages n @
        [\<lparr>pm_sequence = sequence, pm_instruction = instruction, pm_images = images,
          pm_source_direct = source_direct, pm_shared_workspace = shared_workspace\<rparr>]\<rparr>"

text \<open>A queued turn is not overwritten: a live writer or an earlier queued turn ends the handler.\<close>

definition keeps_queued_turn :: "node_state \<Rightarrow> bool" where
  "keeps_queued_turn n \<longleftrightarrow>
     ns_status n = ''running''
     \<or> (1 < length (ns_pending_messages n) \<and> ns_status n \<in> set [''dirty'', ''waiting'', ''blocked''])"

definition source_direct_node ::
  "bool \<Rightarrow> string \<Rightarrow> image_attachment list option \<Rightarrow> node_state \<Rightarrow> node_state" where
  "source_direct_node human instruction images n =
     n\<lparr>ns_status := ''dirty'', ns_error := None,
       ns_revision := (if human then ns_revision n + 1 else ns_revision n), ns_baseline_head := None,
       ns_instruction := instruction, ns_instruction_images := images, ns_edit_execution_id := None,
       ns_human_instruction := True, ns_shared_workspace := False, ns_feedback_workspace := None\<rparr>"

definition invalidated_node :: "bool \<Rightarrow> bool \<Rightarrow> bool \<Rightarrow> node_state \<Rightarrow> node_state" where
  "invalidated_node is_target human fresh n =
     (let unstarted = (ns_status n = ''waiting'' \<or> (ns_status n = ''blocked'' \<and> fresh));
          n = n\<lparr>ns_status := (if unstarted then ''waiting'' else ''dirty''), ns_error := None\<rparr>;
          n = (if is_target then n
               else n\<lparr>ns_head := None, ns_baseline_head := None, ns_instruction := [],
                      ns_instruction_images := None, ns_edit_execution_id := None,
                      ns_human_instruction := False, ns_feedback_workspace := None\<rparr>)
      in if human \<and> \<not> unstarted then n\<lparr>ns_revision := ns_revision n + 1\<rparr> else n)"

definition target_node ::
  "string \<Rightarrow> bool \<Rightarrow> image_attachment list option \<Rightarrow> feedback_workspace option \<Rightarrow> bool \<Rightarrow> node_state \<Rightarrow> node_state" where
  "target_node instruction human images workspace shared_workspace n =
     (let n = n\<lparr>ns_shared_workspace := False\<rparr>;
          n = (if workspace \<noteq> None \<or> \<not> human then n\<lparr>ns_feedback_workspace := workspace\<rparr> else n);
          n = (case workspace of Some input \<Rightarrow> n\<lparr>ns_head := Some (fw_head input)\<rparr> | None \<Rightarrow> n)
      in if human \<and> instruction \<noteq> [] then
           n\<lparr>ns_baseline_head := ns_head n, ns_instruction := instruction, ns_instruction_images := images,
             ns_edit_execution_id := None, ns_human_instruction := True,
             ns_shared_workspace := shared_workspace\<rparr>
         else if instruction \<noteq> [] then
           n\<lparr>ns_baseline_head := None, ns_instruction := instruction, ns_instruction_images := None,
             ns_edit_execution_id := None, ns_human_instruction := True\<rparr>
         else n\<lparr>ns_baseline_head := None, ns_shared_workspace := False\<rparr>)"

definition invalidate_scope ::
  "string list \<Rightarrow> string \<Rightarrow> string \<Rightarrow> bool \<Rightarrow> image_attachment list option \<Rightarrow> feedback_workspace option \<Rightarrow> bool
   \<Rightarrow> snapshot \<Rightarrow> snapshot option" where
  "invalidate_scope names target instruction human images workspace shared_workspace st =
     (case try_fold (\<lambda>name st. unwrap_node name
          (invalidated_node (name = target) human (never_executed st name)) st) names
          (st\<lparr>st_publication := None\<rparr>) of
        None \<Rightarrow> None
      | Some st \<Rightarrow>
          map_option (\<lambda>st. st\<lparr>st_phase := run_or_pause st\<rparr>)
            (unwrap_node target (target_node instruction human images workspace shared_workspace) st))"

definition queue_turn ::
  "int \<Rightarrow> string \<Rightarrow> string \<Rightarrow> bool \<Rightarrow> image_attachment list option \<Rightarrow> bool \<Rightarrow> bool \<Rightarrow> snapshot \<Rightarrow> snapshot option" where
  "queue_turn sequence target instruction human images shared_workspace source_direct st =
     (if human \<and> instruction \<noteq> []
      then unwrap_node target (queue_message sequence instruction images source_direct shared_workspace) st
      else Some st)"

definition turn_stays_queued :: "string \<Rightarrow> string \<Rightarrow> bool \<Rightarrow> snapshot \<Rightarrow> bool" where
  "turn_stays_queued target instruction human st \<longleftrightarrow>
     human \<and> instruction \<noteq> []
     \<and> (case bt_get (st_nodes st) target of Some n \<Rightarrow> keeps_queued_turn n | None \<Rightarrow> False)"

definition bump_waiting :: "node_state \<Rightarrow> node_state" where
  "bump_waiting n = (if ns_status n \<noteq> ''running'' then n\<lparr>ns_revision := ns_revision n + 1\<rparr> else n)"

definition handle_invalidated ::
  "int \<Rightarrow> string list \<Rightarrow> string \<Rightarrow> string \<Rightarrow> bool \<Rightarrow> image_attachment list option
   \<Rightarrow> feedback_workspace option \<Rightarrow> bool \<Rightarrow> bool \<Rightarrow> snapshot \<Rightarrow> snapshot option" where
  "handle_invalidated sequence names target instruction human images workspace shared_workspace source_direct st =
     (case queue_turn sequence target instruction human images shared_workspace source_direct
          (st\<lparr>st_stop_requested := False\<rparr>) of
        None \<Rightarrow> None
      | Some st \<Rightarrow>
          if turn_stays_queued target instruction human st then Some (update_node target bump_waiting st)
          else if source_direct then
            map_option (\<lambda>st. st\<lparr>st_phase := (if st_paused st then ''paused'' else ''followup'')\<rparr>)
              (unwrap_node target (source_direct_node human instruction images) st)
          else invalidate_scope names target instruction human images workspace shared_workspace st)"

definition edited_node ::
  "bool \<Rightarrow> string \<Rightarrow> string \<Rightarrow> string \<Rightarrow> image_attachment list option \<Rightarrow> node_state \<Rightarrow> node_state" where
  "edited_node is_target before from_execution_id instruction images n =
     (let n = n\<lparr>ns_status := ''dirty'', ns_error := None, ns_revision := ns_revision n + 1,
                ns_feedback_workspace := None\<rparr>
      in if is_target then
           n\<lparr>ns_baseline_head := ns_head n, ns_head := Some before, ns_instruction := instruction,
             ns_instruction_images := images, ns_human_instruction := True,
             ns_edit_execution_id := Some from_execution_id\<rparr>
         else
           n\<lparr>ns_head := None, ns_baseline_head := None, ns_instruction := [],
             ns_instruction_images := None, ns_edit_execution_id := None, ns_human_instruction := False\<rparr>)"

definition edit_first_turn :: "string \<Rightarrow> string \<Rightarrow> snapshot \<Rightarrow> snapshot" where
  "edit_first_turn target instruction st =
     (let g = st_graph st;
          g = (if st_plan_type st = Some ''serial'' then g\<lparr>gr_original_goal := instruction\<rparr> else g);
          g = g\<lparr>gr_nodes := update_first (\<lambda>n. nd_name n = target) (\<lambda>n. n\<lparr>nd_task := instruction\<rparr>) (gr_nodes g)\<rparr>
      in st\<lparr>st_graph := g\<rparr>)"

definition handle_conversation_edited ::
  "string list \<Rightarrow> string \<Rightarrow> string \<Rightarrow> image_attachment list option \<Rightarrow> string \<Rightarrow> bool \<Rightarrow> snapshot
   \<Rightarrow> snapshot option" where
  "handle_conversation_edited names target instruction images from_execution_id first_turn st =
     (let st = st\<lparr>st_stop_requested := False\<rparr> in
      case find (\<lambda>e. ex_id e = from_execution_id) (st_executions st) of
        None \<Rightarrow> None
      | Some anchor \<Rightarrow>
          let st = st\<lparr>st_superseded_execution_ids := supersede
                (filter (\<lambda>e. ex_node e \<in> set names \<and> ex_started_at anchor \<le> ex_started_at e) (st_executions st))
                (st_superseded_execution_ids st), st_publication := None\<rparr>;
              st = (if first_turn then edit_first_turn target instruction st else st)
          in map_option (\<lambda>st. st\<lparr>st_phase := run_or_pause st\<rparr>)
               (try_fold (\<lambda>name. unwrap_node name
                   (edited_node (name = target) (ex_before anchor) from_execution_id instruction images)) names st))"

definition handle_planner_edited :: "string \<Rightarrow> bool \<Rightarrow> snapshot \<Rightarrow> snapshot" where
  "handle_planner_edited instruction first_turn st =
     (let st = st\<lparr>st_stop_requested := False\<rparr>
      in if first_turn then st\<lparr>st_graph := (st_graph st)\<lparr>gr_original_goal := instruction\<rparr>\<rparr> else st)"

section \<open>Feedback\<close>

definition handle_feedback_queued :: "pending_feedback \<Rightarrow> snapshot \<Rightarrow> snapshot" where
  "handle_feedback_queued f st =
     (if \<exists>item \<in> set (st_pending_feedback st). pf_execution_id item = pf_execution_id f then st
      else st\<lparr>st_pending_feedback := st_pending_feedback st @ [f]\<rparr>)"

definition handle_feedback_resolved :: "string \<Rightarrow> snapshot \<Rightarrow> snapshot" where
  "handle_feedback_resolved eid st =
     st\<lparr>st_pending_feedback := filter (\<lambda>item. pf_execution_id item \<noteq> eid) (st_pending_feedback st)\<rparr>"

definition handle_feedback :: "string \<Rightarrow> string \<Rightarrow> bool \<Rightarrow> snapshot \<Rightarrow> snapshot" where
  "handle_feedback from to accepted st =
     (if accepted then st
      else st\<lparr>st_feedback_counts := bt_update (feedback_key from to) Suc
             (bt_entry (feedback_key from to) 0 (st_feedback_counts st))\<rparr>)"

section \<open>Publication and mergers\<close>

definition handle_publication_started :: "nat \<Rightarrow> string \<Rightarrow> string list \<Rightarrow> snapshot \<Rightarrow> snapshot" where
  "handle_publication_started timestamp repository heads st =
     st\<lparr>st_publication := Some \<lparr>pb_repository = repository, pb_heads = heads, pb_status = ''publishing'',
          pb_head = None, pb_error = None, pb_started_at = timestamp, pb_completed_at = None\<rparr>,
        st_paused := False, st_phase := ''publishing''\<rparr>"

definition handle_publication_completed :: "nat \<Rightarrow> string \<Rightarrow> snapshot \<Rightarrow> snapshot" where
  "handle_publication_completed timestamp head st =
     st\<lparr>st_published_head := Some head,
        st_published_heads := fold push_new
          (case st_publication st of Some p \<Rightarrow> pb_heads p | None \<Rightarrow> []) (st_published_heads st),
        st_publication := map_option (\<lambda>p. p\<lparr>pb_status := ''completed'', pb_head := Some head,
          pb_completed_at := Some timestamp, pb_error := None\<rparr>) (st_publication st),
        st_phase := ''completed'', st_paused := False\<rparr>"

definition handle_publication_failed :: "string \<Rightarrow> snapshot \<Rightarrow> snapshot" where
  "handle_publication_failed error st =
     st\<lparr>st_publication := map_option (\<lambda>p. p\<lparr>pb_status := ''failed'', pb_error := Some error\<rparr>) (st_publication st),
        st_phase := ''publication_failed'', st_paused := True\<rparr>"

definition publication_is :: "string \<Rightarrow> snapshot \<Rightarrow> bool" where
  "publication_is status st = (case st_publication st of Some p \<Rightarrow> pb_status p = status | None \<Rightarrow> False)"

definition handle_merger_started :: "execution \<Rightarrow> snapshot \<Rightarrow> snapshot" where
  "handle_merger_started e st =
     (let st = st\<lparr>st_mergers := st_mergers st @ [e]\<rparr> in
      if ex_node e = ''merger'' \<and> publication_is ''publishing'' st
      then st\<lparr>st_phase := ''merging'',
              st_publication := map_option (\<lambda>p. p\<lparr>pb_status := ''merging''\<rparr>) (st_publication st)\<rparr>
      else resume_attention st)"

definition finished_merger ::
  "env \<Rightarrow> string \<Rightarrow> nat \<Rightarrow> execution_metrics option \<Rightarrow> nat \<Rightarrow> execution \<Rightarrow> execution" where
  "finished_merger en head output_bytes metrics timestamp e =
     e\<lparr>ex_status := ''completed'', ex_after := Some head, ex_completed_at := Some timestamp,
       ex_output_bytes := max (max output_bytes (ex_output_bytes e)) (length (ex_output e)),
       ex_metrics := final_metrics en metrics (ex_output e) (ex_metrics e), ex_output := []\<rparr>"

definition repaired_node :: "string \<Rightarrow> snapshot \<Rightarrow> (string \<times> nat) option" where
  "repaired_node eid st =
     (case find (\<lambda>e. ex_id e = eid \<and> ex_status e = ''running'') (st_mergers st) of
        None \<Rightarrow> None
      | Some e \<Rightarrow> map_option (\<lambda>name. (name, ex_revision e)) (strip_prefix ''merge:'' (ex_node e)))"

definition recover_repaired :: "string \<Rightarrow> nat \<Rightarrow> snapshot \<Rightarrow> snapshot" where
  "recover_repaired name revision st =
     (case bt_get (st_nodes st) name of
        None \<Rightarrow> st
      | Some n \<Rightarrow>
          if ns_revision n = revision \<and> ns_status n \<in> set [''failed'', ''blocked''] then
            let st = update_node name (\<lambda>n. n\<lparr>ns_status := ''dirty'', ns_error := None,
                  ns_revision := ns_revision n + 1\<rparr>) st
            in if st_phase st \<in> set [''failed'', ''needs_attention''] then st\<lparr>st_phase := run_or_pause st\<rparr> else st
          else st)"

definition handle_merger_finished ::
  "env \<Rightarrow> nat \<Rightarrow> string \<Rightarrow> string \<Rightarrow> nat \<Rightarrow> execution_metrics option \<Rightarrow> snapshot \<Rightarrow> snapshot" where
  "handle_merger_finished en timestamp eid head output_bytes metrics st =
     (let repaired = repaired_node eid st;
          st = st\<lparr>st_mergers := update_first (\<lambda>e. ex_id e = eid)
                 (finished_merger en head output_bytes metrics timestamp) (st_mergers st)\<rparr>;
          publication_attempt = (\<exists>e \<in> set (st_mergers st). ex_id e = eid \<and> ex_node e = ''merger'');
          st = (if publication_attempt \<and> publication_is ''merging'' st
                then st\<lparr>st_phase := ''publishing'',
                        st_publication := map_option (\<lambda>p. p\<lparr>pb_status := ''publishing''\<rparr>) (st_publication st)\<rparr>
                else st)
      in case repaired of None \<Rightarrow> st | Some (name, revision) \<Rightarrow> recover_repaired name revision st)"

definition handle_merger_failed ::
  "env \<Rightarrow> nat \<Rightarrow> string \<Rightarrow> string \<Rightarrow> nat \<Rightarrow> execution_metrics option \<Rightarrow> snapshot \<Rightarrow> snapshot" where
  "handle_merger_failed en timestamp eid error output_bytes metrics st =
     (let target = Option.bind (find (\<lambda>e. ex_id e = eid) (st_mergers st)) (\<lambda>e. strip_prefix ''merge:'' (ex_node e));
          st = st\<lparr>st_mergers := update_first (\<lambda>e. ex_id e = eid)
                 (failed_execution en output_bytes metrics timestamp) (st_mergers st)\<rparr>
      in case target of
           None \<Rightarrow> st
         | Some name \<Rightarrow> update_node name
             (blocked_node (''Workspace composition blocked: Merger failed: '' @ error)) st)"

definition handle_settled :: "snapshot \<Rightarrow> snapshot" where
  "handle_settled st = st\<lparr>st_phase := (if all_completed st then ''completed'' else ''needs_attention'')\<rparr>"

section \<open>The reducer\<close>

text \<open>The match of \<open>apply\<close>, without \<open>Output\<close>, whose arm returns before the common tail.\<close>

definition handle :: "env \<Rightarrow> int \<Rightarrow> nat \<Rightarrow> event_kind \<Rightarrow> snapshot \<Rightarrow> snapshot option" where
  "handle en sq ts kind st =
     (case kind of
        PlanningStarted goal c planning plan_type \<Rightarrow>
            Some (handle_planning_started goal c planning plan_type st)
      | PlannerWorkspaceSelected planning \<Rightarrow> Some (handle_planner_turn planning st)
      | PlannerTurnProgress planning \<Rightarrow> Some (handle_planner_turn planning st)
      | PlannerWorkspaceSnapshotted eid head result invalidated detached \<Rightarrow>
            Some (handle_workspace_snapshotted eid head result invalidated detached st)
      | PlannerReviewStarted planning \<Rightarrow> Some (handle_review_started planning st)
      | PlannerReviewProgress g \<Rightarrow> Some (handle_review_progress g st)
      | PlannerPreviewProgress g \<Rightarrow> Some (handle_preview_progress g st)
      | PlannerReviewFinished planning approval_required \<Rightarrow>
            Some (handle_review_finished planning approval_required st)
      | PlannerTurnAborted planning \<Rightarrow> Some (handle_turn_aborted planning st)
      | PlanningFailed planning \<Rightarrow> Some (handle_planning_failed planning st)
      | Created g c planning_id planning \<Rightarrow> Some (handle_created en g c planning_id planning st)
      | Routed plan_type \<Rightarrow> Some (st\<lparr>st_plan_type := Some plan_type\<rparr>)
      | Approved base \<Rightarrow> Some (handle_approved base st)
      | GraphRevised g planning_id planning invalidated note \<Rightarrow>
            handle_planner_revised en g planning_id planning invalidated st
      | ManualGraphRevised g invalidated note \<Rightarrow> handle_graph_revised en g invalidated st
      | DraftEdited g c \<Rightarrow> Some (handle_draft_edited en g c st)
      | StopRequested \<Rightarrow> Some (st\<lparr>st_stop_requested := True\<rparr>)
      | ExecutionStopRequested ids \<Rightarrow> Some (handle_execution_stop ids st)
      | Paused paused \<Rightarrow> Some (handle_paused paused st)
      | FailedNodeModelsUpdated names settings \<Rightarrow> Some (handle_failed_models names settings st)
      | NodeModelsUpdated names settings \<Rightarrow> Some (handle_node_models names settings st)
      | ConversationModelsUpdated settings names \<Rightarrow>
            Some (handle_conversation_models settings names st)
      | RecoveryQueued names continuation_nodes resume_failed source_direct_nodes \<Rightarrow>
            Some (handle_recovery_queued names continuation_nodes resume_failed source_direct_nodes st)
      | Rejected \<Rightarrow> Some (handle_rejected st)
      | Started e sequences fresh_restart \<Rightarrow> handle_started e sequences fresh_restart st
      | Steered a b c d \<Rightarrow> Some (resume_attention st)
      | EnvironmentPolicyRequested \<Rightarrow> Some (handle_policy_requested st)
      | EnvironmentPolicyResolved environment detail \<Rightarrow> Some (handle_policy_resolved environment st)
      | EnvironmentInitialized result \<Rightarrow>
            Some (st\<lparr>st_environment_baseline := Some result\<rparr>)
      | ExecutionInputRecorded eid input \<Rightarrow> Some (handle_input_recorded eid input st)
      | ExecutionResultRecorded eid result \<Rightarrow> Some (handle_result_recorded eid result st)
      | ResultPublished d \<Rightarrow> Some (st\<lparr>st_published_result := Some d\<rparr>)
      | ResultExecutionStarted input args \<Rightarrow> Some (handle_result_started input args st)
      | ResultExecutionPrepared input \<Rightarrow> Some (handle_result_prepared input st)
      | ResultExecutionFailed generation error \<Rightarrow> Some (handle_result_failed generation error st)
      | ResultExecutionFinished d \<Rightarrow> Some (handle_result_finished d st)
      | Prepared eid head \<Rightarrow> Some (handle_prepared eid head st)
      | Finished eid head output output_bytes metrics \<Rightarrow>
            handle_finished en ts eid head output output_bytes metrics st
      | Failed name eid error output_bytes metrics \<Rightarrow>
            handle_failed en ts name eid error output_bytes metrics st
      | Blocked name error \<Rightarrow> handle_blocked name error st
      | WorkspaceResolved eid head names files_version \<Rightarrow>
            handle_workspace_resolved ts eid head names st
      | Invalidated names target instruction human images workspace shared_workspace source_direct \<Rightarrow>
            handle_invalidated sq names target instruction human images workspace shared_workspace source_direct st
      | ConversationEdited names target instruction images from_execution_id a b c first_turn d \<Rightarrow>
            handle_conversation_edited names target instruction images from_execution_id first_turn st
      | PlannerConversationEdited old_instruction instruction first_turn version \<Rightarrow>
            Some (handle_planner_edited instruction first_turn st)
      | FeedbackQueued f \<Rightarrow> Some (handle_feedback_queued f st)
      | FeedbackResolved eid disposition \<Rightarrow> Some (handle_feedback_resolved eid st)
      | Feedback from to accepted \<Rightarrow> Some (handle_feedback from to accepted st)
      | PublicationStarted repository heads \<Rightarrow>
            Some (handle_publication_started ts repository heads st)
      | PublicationCompleted head \<Rightarrow> Some (handle_publication_completed ts head st)
      | PublicationFailed error \<Rightarrow> Some (handle_publication_failed error st)
      | MergerStarted e \<Rightarrow> Some (handle_merger_started e st)
      | MergerFinished eid head output_bytes metrics \<Rightarrow>
            Some (handle_merger_finished en ts eid head output_bytes metrics st)
      | MergerFailed eid error output_bytes metrics \<Rightarrow>
            Some (handle_merger_failed en ts eid error output_bytes metrics st)
      | Settled \<Rightarrow> Some (handle_settled st)
      | _ \<Rightarrow> Some st)"

text \<open>\<open>state.events.push(event.clone()); state.run_metrics = Some(state.compute_run_metrics())\<close>\<close>

definition refresh_metrics :: "env \<Rightarrow> snapshot \<Rightarrow> snapshot" where
  "refresh_metrics en st = st\<lparr>st_run_metrics := Some (compute_run_metrics (en_catalog en) st)\<rparr>"

definition log_event :: "env \<Rightarrow> event \<Rightarrow> snapshot \<Rightarrow> snapshot" where
  "log_event en ev st = refresh_metrics en (st\<lparr>st_events := st_events st @ [ev]\<rparr>)"

definition note_planning :: "event \<Rightarrow> snapshot \<Rightarrow> snapshot" where
  "note_planning ev st =
     (case planning_summary_of ev of Some planning \<Rightarrow> record_planning_turn planning st | None \<Rightarrow> st)"

definition apply_event :: "env \<Rightarrow> event \<Rightarrow> snapshot \<Rightarrow> snapshot option" where
  "apply_event en ev st =
     (let st = note_planning ev st in
      case ev_kind ev of
        Output eid chunk \<Rightarrow> Some (refresh_metrics en (handle_output en eid chunk st))
      | _ \<Rightarrow> map_option (log_event en ev) (handle en (ev_sequence ev) (ev_timestamp ev) (ev_kind ev) st))"

definition apply_all :: "env \<Rightarrow> event list \<Rightarrow> snapshot \<Rightarrow> snapshot option" where
  "apply_all en = try_fold (apply_event en)"

end
