(* ===== verification/Reducer_Facts.thy ===== *)
theory Reducer_Facts
  imports Reducer
begin

text \<open>
  What the handlers of the reducer leave alone.  A loop of node updates changes only the values of
  the node map; from that, and one lemma per group of handlers, follow the frames the properties
  need: which nodes exist, the identity of the attempts, the append-only lists.
\<close>

section \<open>Loops over nodes\<close>

text \<open>\<open>st'\<close> differs from \<open>st\<close> in the node map alone, with the same names in the same order.\<close>

definition only_nodes :: "snapshot \<Rightarrow> snapshot \<Rightarrow> bool" where
  "only_nodes st st' \<longleftrightarrow> (\<exists>m. st' = st\<lparr>st_nodes := m\<rparr> \<and> bt_keys m = bt_keys (st_nodes st))"

lemma only_nodes_refl [simp]: "only_nodes st st"
  unfolding only_nodes_def by (rule exI [of _ "st_nodes st"]) simp

lemma only_nodes_trans: "only_nodes st st' \<Longrightarrow> only_nodes st' st'' \<Longrightarrow> only_nodes st st''"
  by (auto simp: only_nodes_def)

lemma only_nodes_update [simp]: "only_nodes st (update_node name f st)"
  by (auto simp: only_nodes_def update_node_def btree_simps)

lemma only_nodes_unwrap: "unwrap_node name f st = Some st' \<Longrightarrow> only_nodes st st'"
  by (auto simp: unwrap_node_def split: if_splits)

lemma only_nodes_fold: "(\<And>x s. only_nodes s (f x s)) \<Longrightarrow> only_nodes st (fold f xs st)"
  by (induction xs arbitrary: st) (auto intro: only_nodes_trans)

lemma only_nodes_try_fold:
  "(\<And>x s s'. f x s = Some s' \<Longrightarrow> only_nodes s s') \<Longrightarrow> try_fold f xs st = Some st' \<Longrightarrow> only_nodes st st'"
proof (induction xs arbitrary: st)
  case (Cons x xs)
  then obtain s where "f x st = Some s" "try_fold f xs s = Some st'" by (auto split: option.splits)
  with Cons show ?case by (blast intro: only_nodes_trans)
qed simp

lemma only_nodes_map:
  "only_nodes st (st\<lparr>st_nodes := map (\<lambda>(name, n). (name, f name n)) (st_nodes st)\<rparr>)"
  unfolding only_nodes_def
  by (rule exI [of _ "map (\<lambda>(name, n). (name, f name n)) (st_nodes st)"])
     (simp add: bt_keys_def case_prod_unfold comp_def)

lemma only_nodesE:
  assumes "only_nodes st st'"
  obtains m where "st' = st\<lparr>st_nodes := m\<rparr>" "bt_keys m = bt_keys (st_nodes st)"
  using assms by (auto simp: only_nodes_def)

section \<open>The frame of the ordinary handlers\<close>

text \<open>
  Identity of an attempt: what is fixed when it starts.  The order \<open>history_le\<close> of the run: attempts,
  superseded ids, delivered heads, stop requests and events are only ever appended to.
\<close>

definition identity_of :: "execution \<Rightarrow> string \<times> string \<times> nat \<times> nat \<times> string \<times> string \<times> string list \<times> nat" where
  "identity_of e = (ex_id e, ex_node e, ex_revision e, ex_attempt e, ex_session_id e, ex_worktree e,
     ex_workspace_lineage e, ex_started_at e)"

definition history_le :: "snapshot \<Rightarrow> snapshot \<Rightarrow> bool" where
  "history_le st st' \<longleftrightarrow>
     prefix (map identity_of (st_executions st)) (map identity_of (st_executions st'))
     \<and> prefix (map identity_of (st_mergers st)) (map identity_of (st_mergers st'))
     \<and> prefix (st_superseded_execution_ids st) (st_superseded_execution_ids st')
     \<and> prefix (st_published_heads st) (st_published_heads st')
     \<and> prefix (st_execution_stop_requests st) (st_execution_stop_requests st')
     \<and> prefix (st_events st) (st_events st')"

lemma history_refl [simp]: "history_le st st"
  by (simp add: history_le_def)

lemma history_trans: "history_le st st' \<Longrightarrow> history_le st' st'' \<Longrightarrow> history_le st st''"
  unfolding history_le_def by (meson prefix_order.trans)

lemma history_only_nodes: "only_nodes st st' \<Longrightarrow> history_le st st'"
  by (auto simp: only_nodes_def history_le_def)

text \<open>The parts a node update does not touch.\<close>

lemma only_nodes_simps:
  assumes "only_nodes st st'"
  shows "st_graph st' = st_graph st" "st_executions st' = st_executions st" "st_mergers st' = st_mergers st"
    "st_superseded_execution_ids st' = st_superseded_execution_ids st" "st_events st' = st_events st"
    "st_published_heads st' = st_published_heads st" "st_pending_feedback st' = st_pending_feedback st"
    "st_execution_stop_requests st' = st_execution_stop_requests st" "st_phase st' = st_phase st"
    "st_planning_turns st' = st_planning_turns st" "st_planning st' = st_planning st"
    "st_feedback_counts st' = st_feedback_counts st" "st_publication st' = st_publication st"
    "st_approved st' = st_approved st" "st_paused st' = st_paused st" "st_run_id st' = st_run_id st"
    "bt_keys (st_nodes st') = bt_keys (st_nodes st)"
  using assms by (auto simp: only_nodes_def)

lemma identity_update:
  "identity_of (append_live_output parse text e) = identity_of e"
  "identity_of (finished_execution en head output bytes metrics ts e) = identity_of e"
  "identity_of (failed_execution en bytes metrics ts e) = identity_of e"
  "identity_of (finished_merger en head bytes metrics ts e) = identity_of e"
  by (simp_all add: identity_of_def append_live_output_def accumulate_live_metrics_def Let_def
      finished_execution_def failed_execution_def finished_merger_def split: option.split)

lemma identity_fields [simp]:
  "identity_of (e\<lparr>ex_before := a\<rparr>) = identity_of e" "identity_of (e\<lparr>ex_after := b\<rparr>) = identity_of e"
  "identity_of (e\<lparr>ex_result := c\<rparr>) = identity_of e" "identity_of (e\<lparr>ex_input := c\<rparr>) = identity_of e"
  "identity_of (e\<lparr>ex_status := a\<rparr>) = identity_of e" "identity_of (e\<lparr>ex_completed_at := d\<rparr>) = identity_of e"
  by (simp_all add: identity_of_def)

section \<open>Attempts\<close>

lemma update_attempt_identity:
  assumes "\<And>e. identity_of (f e) = identity_of e"
  shows "map identity_of (st_executions (update_attempt p f st)) = map identity_of (st_executions st)"
    and "map identity_of (st_mergers (update_attempt p f st)) = map identity_of (st_mergers st)"
  by (simp_all add: update_attempt_def map_update_first [of identity_of, OF assms])

lemma update_attempt_frame [simp]:
  "st_nodes (update_attempt p f st) = st_nodes st" "st_graph (update_attempt p f st) = st_graph st"
  "st_superseded_execution_ids (update_attempt p f st) = st_superseded_execution_ids st"
  "st_published_heads (update_attempt p f st) = st_published_heads st"
  "st_execution_stop_requests (update_attempt p f st) = st_execution_stop_requests st"
  "st_events (update_attempt p f st) = st_events st" "st_phase (update_attempt p f st) = st_phase st"
  "st_pending_feedback (update_attempt p f st) = st_pending_feedback st"
  "st_planning_turns (update_attempt p f st) = st_planning_turns st"
  "st_planning (update_attempt p f st) = st_planning st"
  "st_feedback_counts (update_attempt p f st) = st_feedback_counts st"
  "st_publication (update_attempt p f st) = st_publication st"
  "st_run_id (update_attempt p f st) = st_run_id st"
  by (simp_all add: update_attempt_def)

lemma history_update_attempt:
  "(\<And>e. identity_of (f e) = identity_of e) \<Longrightarrow> history_le st (update_attempt p f st)"
  by (simp add: history_le_def update_attempt_identity)

lemma supersede_prefix [simp]: "prefix ids (supersede es ids)"
  unfolding supersede_def by (rule push_new_prefix)

section \<open>Calm handlers\<close>

text \<open>
  A quiet change appends to the history only, leaves the log and the planning turns to
  \<open>apply_event\<close>, and keeps the collections without duplicates and the displayed planning turn
  recorded; a calm one keeps the nodes' names as well, in the graph and in the node map.
\<close>

definition recorded :: "planning_summary option \<Rightarrow> (string, planning_summary) btree_map \<Rightarrow> bool" where
  "recorded planning turns \<longleftrightarrow>
     (case planning of Some p \<Rightarrow> ps_planning_id p = [] \<or> bt_contains turns (ps_planning_id p) | None \<Rightarrow> True)"

definition collections_wf :: "snapshot \<Rightarrow> bool" where
  "collections_wf st \<longleftrightarrow> bt_wf (st_feedback_counts st)
     \<and> recorded (st_planning st) (st_planning_turns st)
     \<and> distinct (map pf_execution_id (st_pending_feedback st))
     \<and> distinct (st_published_heads st) \<and> distinct (st_execution_stop_requests st)"

definition quiet :: "snapshot \<Rightarrow> snapshot \<Rightarrow> bool" where
  "quiet st st' \<longleftrightarrow> history_le st st' \<and> st_events st' = st_events st \<and> st_run_id st' = st_run_id st
     \<and> st_planning_turns st' = st_planning_turns st \<and> (collections_wf st \<longrightarrow> collections_wf st')"

definition calm :: "snapshot \<Rightarrow> snapshot \<Rightarrow> bool" where
  "calm st st' \<longleftrightarrow> quiet st st' \<and> bt_keys (st_nodes st') = bt_keys (st_nodes st)
     \<and> map nd_name (gr_nodes (st_graph st')) = map nd_name (gr_nodes (st_graph st))"

lemma quiet_refl [simp]: "quiet st st"
  by (simp add: quiet_def)

lemma calm_refl [simp]: "calm st st"
  by (simp add: calm_def)

lemma quiet_trans: "quiet st st' \<Longrightarrow> quiet st' st'' \<Longrightarrow> quiet st st''"
  by (auto simp: quiet_def intro: history_trans)

lemma calm_trans: "calm st st' \<Longrightarrow> calm st' st'' \<Longrightarrow> calm st st''"
  by (auto simp: calm_def intro: quiet_trans)

lemma calm_quiet: "calm st st' \<Longrightarrow> quiet st st'"
  by (simp add: calm_def)

lemma calm_only_nodes: "only_nodes st st' \<Longrightarrow> calm st st'"
  by (simp add: calm_def quiet_def history_only_nodes only_nodes_simps collections_wf_def)

lemma calm_update_node [simp]: "calm st (update_node name f st)"
  by (rule calm_only_nodes [OF only_nodes_update])

lemma calm_unwrap: "unwrap_node name f st = Some st' \<Longrightarrow> calm st st'"
  by (rule calm_only_nodes [OF only_nodes_unwrap])

lemma calm_nodes_loop [simp]: "calm st (fold (\<lambda>x s. update_node (g x s) (f x s) s) xs st)"
  by (intro calm_only_nodes only_nodes_fold only_nodes_update)

lemma calm_nodes_loop' [simp]: "calm st (fold (\<lambda>x. update_node (g x) (f x)) xs st)"
  by (intro calm_only_nodes only_nodes_fold only_nodes_update)

text \<open>A record update of other fields, stated once for all that occur.\<close>

lemmas calm_defs = calm_def quiet_def history_le_def collections_wf_def

lemma calm_attempt:
  "(\<And>e. identity_of (f e) = identity_of e) \<Longrightarrow> calm st (update_attempt p f st)"
  by (simp add: calm_def quiet_def history_update_attempt collections_wf_def update_attempt_frame)

lemma calm_executions:
  "(\<And>e. identity_of (f e) = identity_of e) \<Longrightarrow>
   calm st (st\<lparr>st_executions := update_first p f (st_executions st)\<rparr>)"
  by (simp add: calm_defs map_update_first [of identity_of])

lemma calm_mergers:
  "(\<And>e. identity_of (f e) = identity_of e) \<Longrightarrow>
   calm st (st\<lparr>st_mergers := update_first p f (st_mergers st)\<rparr>)"
  by (simp add: calm_defs map_update_first [of identity_of])

lemma calm_fields [simp]:
  "calm st (u\<lparr>st_phase := a\<rparr>) = calm st u" "calm st (u\<lparr>st_publication := b\<rparr>) = calm st u"
  "calm st (u\<lparr>st_preview_graph := c\<rparr>) = calm st u" "calm st (u\<lparr>st_stop_requested := d\<rparr>) = calm st u"
  "calm st (u\<lparr>st_model_config := e\<rparr>) = calm st u" "calm st (u\<lparr>st_paused := d\<rparr>) = calm st u"
  by (simp_all add: calm_defs)

lemma calm_supersede:
  "calm st u \<Longrightarrow> calm st (u\<lparr>st_superseded_execution_ids := supersede es (st_superseded_execution_ids u)\<rparr>)"
proof (erule calm_trans)
  show "calm u (u\<lparr>st_superseded_execution_ids := supersede es (st_superseded_execution_ids u)\<rparr>)"
    by (simp add: calm_defs)
qed

lemma calm_begin: "calm st (begin_execution e sequences fresh_restart n st)"
proof -
  have "calm st (update_node (ex_node e) (started_node sequences) st)" by simp
  then show ?thesis
    unfolding begin_execution_def Let_def
    by (rule calm_trans) (simp add: calm_defs)
qed

lemma calm_started: "handle_started e sequences fresh_restart st = Some st' \<Longrightarrow> calm st st'"
proof -
  assume h: "handle_started e sequences fresh_restart st = Some st'"
  then obtain n where "st' = fold (\<lambda>name. if name = ex_node e then (\<lambda>st. st) else update_node name unblock_node)
               (downstream (st_graph (begin_execution e sequences fresh_restart n st)) (ex_node e))
               (begin_execution e sequences fresh_restart n st)"
    by (auto simp: handle_started_def Let_def split: option.splits)
  then have "only_nodes (begin_execution e sequences fresh_restart n st) st'"
    by (simp add: only_nodes_fold)
  with calm_begin show ?thesis by (blast intro: calm_trans calm_only_nodes)
qed

lemma calm_snapshotted: "calm st (handle_workspace_snapshotted eid head result invalidated detached st)"
proof -
  let ?upd = "\<lambda>e. e\<lparr>ex_after := Some head, ex_result := (case result of Some r \<Rightarrow> Some r
    | None \<Rightarrow> map_option (set_code_ref head) (ex_result e))\<rparr>"
  let ?st1 = "case find (\<lambda>e. ex_id e = eid) (st_executions st) of None \<Rightarrow> st
    | Some e \<Rightarrow> let st' = st\<lparr>st_executions := update_first (\<lambda>e. ex_id e = eid) ?upd (st_executions st)\<rparr>
      in if detached then st' else fold (\<lambda>name. update_node name (snapshotted_node (ex_after e) head result))
           (ex_workspace_lineage e @ [ex_node e]) st'"
  have exec: "calm st (st\<lparr>st_executions := update_first (\<lambda>e. ex_id e = eid) ?upd (st_executions st)\<rparr>)"
    by (rule calm_executions) simp
  moreover have "calm st (fold (\<lambda>name. update_node name f) xs
      (st\<lparr>st_executions := update_first (\<lambda>e. ex_id e = eid) ?upd (st_executions st)\<rparr>))" for f xs
    using calm_trans [OF exec calm_nodes_loop'] .
  ultimately have "calm st ?st1"
    unfolding Let_def by (simp del: fold_append split: option.split)
  moreover have "calm u ((fold (\<lambda>name st. update_node name (snapshot_invalidated (never_executed st name)) st)
      invalidated u)\<lparr>st_publication := None\<rparr>)" for u
    by simp
  ultimately show ?thesis
    unfolding handle_workspace_snapshotted_def Let_def by (auto intro: calm_trans split: if_split)
qed


lemma calm_set_agent_model [simp]: "calm st (set_agent_model settings st)"
  by (simp add: set_agent_model_def Let_def)

lemma calm_models:
  "calm st (handle_failed_models names settings st)" "calm st (handle_node_models names settings st)"
  "calm st (handle_conversation_models models names st)"
  "calm st (handle_recovery_queued names continuation_nodes resume_failed source_direct_nodes st)"
  unfolding handle_failed_models_def handle_node_models_def handle_conversation_models_def
    handle_recovery_queued_def Let_def
  using calm_trans [OF calm_set_agent_model calm_nodes_loop'] calm_trans [OF calm_set_agent_model calm_nodes_loop]
    calm_trans [of st "st\<lparr>st_model_config := Some models\<rparr>", OF _ calm_nodes_loop]
  by (auto simp: calm_nodes_loop)


lemma calm_requeue: "requeue_message name head st = Some st' \<Longrightarrow> calm st st'"
  by (auto simp: requeue_message_def Let_def split: option.splits list.splits if_splits)

lemma calm_settle_node: "calm st (settle_node name lineage head result st)"
proof -
  let ?s1 = "update_node name (completed_node head result) st"
  let ?s2 = "fold (\<lambda>inherited. update_node inherited (inherited_node head result)) (filter (\<lambda>l. l \<noteq> name) lineage) ?s1"
  have s2: "calm st ?s2" using calm_trans [OF calm_update_node calm_nodes_loop'] .
  have "calm st (fold (\<lambda>d st. update_node d (outdated_node (never_executed st d)) st) ds ?s2)" for ds
    using calm_trans [OF s2 calm_nodes_loop] .
  with s2 show ?thesis by (simp add: settle_node_def Let_def)
qed

lemma calm_finish_node: "finish_node name lineage head result st = Some st' \<Longrightarrow> calm st st'"
  unfolding finish_node_def by (blast intro: calm_trans calm_settle_node calm_requeue)

lemma calm_finished:
  "handle_finished en ts eid head output bytes metrics st = Some st' \<Longrightarrow> calm st st'"
proof -
  have "calm st (update_attempt p (finished_execution en head output bytes metrics ts) st)" for p
    by (rule calm_attempt) (rule identity_update)
  then show "handle_finished en ts eid head output bytes metrics st = Some st' \<Longrightarrow> calm st st'"
    by (auto simp: handle_finished_def Let_def split: option.splits if_splits
        intro: calm_trans dest!: calm_finish_node)
qed

lemma calm_failed: "handle_failed en ts name eid error bytes metrics st = Some st' \<Longrightarrow> calm st st'"
proof -
  have "calm u (update_attempt p (failed_execution en bytes metrics ts) u)" for p u
    by (rule calm_attempt) (rule identity_update)
  then show "handle_failed en ts name eid error bytes metrics st = Some st' \<Longrightarrow> calm st st'"
    by (auto simp: handle_failed_def Let_def split: if_splits intro: calm_trans dest!: calm_unwrap)
qed

lemma calm_unwrap_loop:
  "try_fold (\<lambda>x s. unwrap_node x (f x s) s) xs st = Some st' \<Longrightarrow> calm st st'"
  by (rule calm_only_nodes, rule only_nodes_try_fold) (auto intro: only_nodes_unwrap)

lemma calm_resolved: "handle_workspace_resolved ts eid head names st = Some st' \<Longrightarrow> calm st st'"
proof -
  let ?u = "st\<lparr>st_executions := update_first (\<lambda>e. ex_id e = eid)
     (\<lambda>e. e\<lparr>ex_status := ''resolved'', ex_completed_at := Some ts\<rparr>) (st_executions st)\<rparr>"
  have "calm st ?u" by (rule calm_executions) simp
  then have u: "calm st (?u\<lparr>st_publication := None\<rparr>)" by simp
  assume "handle_workspace_resolved ts eid head names st = Some st'"
  then obtain target z where z: "try_fold (\<lambda>name st. unwrap_node name
      (resolved_node (name = target) (never_executed st name) head) st) names (?u\<lparr>st_publication := None\<rparr>) = Some z"
    and st': "st' = z\<lparr>st_phase := run_or_pause z\<rparr>"
    by (auto simp: handle_workspace_resolved_def Let_def split: option.splits)
  from calm_trans [OF u calm_unwrap_loop [OF z]] show ?thesis by (simp add: st')
qed

lemma calm_invalidate_scope:
  "invalidate_scope names target instruction human images workspace shared_workspace st = Some st' \<Longrightarrow> calm st st'"
proof -
  assume "invalidate_scope names target instruction human images workspace shared_workspace st = Some st'"
  then obtain u v where "try_fold (\<lambda>name st. unwrap_node name (invalidated_node (name = target) human (never_executed st name)) st)
      names (st\<lparr>st_publication := None\<rparr>) = Some u"
    and v: "unwrap_node target (target_node instruction human images workspace shared_workspace) u = Some v"
    and st': "st' = v\<lparr>st_phase := run_or_pause v\<rparr>"
    by (auto simp: invalidate_scope_def split: option.splits)
  then have "calm (st\<lparr>st_publication := None\<rparr>) u" by (intro calm_unwrap_loop)
  moreover have "calm st (st\<lparr>st_publication := None\<rparr>)" by simp
  ultimately have "calm st v" using calm_unwrap [OF v] by (blast intro: calm_trans)
  then show ?thesis by (simp add: st')
qed

lemma calm_queue_turn:
  "queue_turn sq target instruction human images shared_workspace source_direct st = Some u \<Longrightarrow> calm st u"
  by (auto simp: queue_turn_def split: if_splits dest: calm_unwrap)

lemma calm_invalidated:
  assumes "handle_invalidated sq names target instruction human images workspace shared_workspace source_direct st
     = Some st'"
  shows "calm st st'"
proof -
  let ?s = "st\<lparr>st_stop_requested := False\<rparr>"
  obtain u where q: "queue_turn sq target instruction human images shared_workspace source_direct ?s = Some u"
    using assms by (auto simp: handle_invalidated_def split: option.splits)
  have u: "calm st u" by (rule calm_trans [OF _ calm_queue_turn [OF q]]) simp
  show ?thesis
  proof (cases "turn_stays_queued target instruction human u")
    case True
    with assms q have "st' = update_node target bump_waiting u" by (simp add: handle_invalidated_def)
    with u show ?thesis by (blast intro: calm_trans calm_update_node)
  next
    case False
    show ?thesis
    proof (cases source_direct)
      case True
      with assms q False obtain v where v: "unwrap_node target (source_direct_node human instruction images) u = Some v"
        and st': "st' = v\<lparr>st_phase := (if st_paused v then ''paused'' else ''followup'')\<rparr>"
        by (auto simp: handle_invalidated_def)
      from calm_trans [OF u calm_unwrap [OF v]] show ?thesis by (simp add: st')
    next
      case direct: False
      with assms q False
      have "invalidate_scope names target instruction human images workspace shared_workspace u = Some st'"
        by (simp add: handle_invalidated_def)
      from calm_trans [OF u calm_invalidate_scope [OF this]] show ?thesis .
    qed
  qed
qed

lemma calm_first_turn [simp]: "calm st (edit_first_turn target instruction st)"
  by (simp add: edit_first_turn_def Let_def calm_defs map_update_first)

lemma calm_conversation_edited:
  "handle_conversation_edited names target instruction images from_execution_id first_turn st = Some st' \<Longrightarrow> calm st st'"
proof -
  assume h: "handle_conversation_edited names target instruction images from_execution_id first_turn st = Some st'"
  define s1 where "s1 = st\<lparr>st_stop_requested := False\<rparr>"
  obtain anchor where "find (\<lambda>e. ex_id e = from_execution_id) (st_executions s1) = Some anchor"
    using h by (auto simp: handle_conversation_edited_def Let_def s1_def split: option.splits)
  define s2 where "s2 = s1\<lparr>st_superseded_execution_ids := supersede
      (filter (\<lambda>e. ex_node e \<in> set names \<and> ex_started_at anchor \<le> ex_started_at e) (st_executions s1))
      (st_superseded_execution_ids s1), st_publication := None\<rparr>"
  define s3 where "s3 = (if first_turn then edit_first_turn target instruction s2 else s2)"
  have "calm st s1" by (simp add: s1_def)
  then have "calm st s2" unfolding s2_def by (simp add: calm_supersede)
  then have s3: "calm st s3" unfolding s3_def by (auto intro: calm_trans)
  obtain u where "try_fold (\<lambda>name. unwrap_node name
        (edited_node (name = target) (ex_before anchor) from_execution_id instruction images)) names s3 = Some u"
      "st' = u\<lparr>st_phase := run_or_pause u\<rparr>"
    using h \<open>find _ _ = Some anchor\<close>
    by (auto simp: handle_conversation_edited_def Let_def s1_def s2_def s3_def split: option.splits if_splits)
  with s3 show ?thesis by (auto dest!: calm_unwrap_loop intro: calm_trans)
qed

lemma calm_mergers_finished: "calm st (handle_merger_finished en ts eid head bytes metrics st)"
proof -
  let ?u = "st\<lparr>st_mergers := update_first (\<lambda>e. ex_id e = eid)
     (finished_merger en head bytes metrics ts) (st_mergers st)\<rparr>"
  have u: "calm st ?u" by (rule calm_mergers) (rule identity_update)
  have "calm v (recover_repaired name revision v)" for v name revision
    by (auto simp: recover_repaired_def Let_def split: option.split)
  then have recover: "calm st v \<Longrightarrow> calm st (recover_repaired name revision v)" for v name revision
    by (blast intro: calm_trans)
  show ?thesis
    using u unfolding handle_merger_finished_def Let_def by (auto intro!: recover split: option.split)
qed

lemma calm_merger_failed: "calm st (handle_merger_failed en ts eid error bytes metrics st)"
proof -
  have u: "calm st (st\<lparr>st_mergers := update_first (\<lambda>e. ex_id e = eid)
     (failed_execution en bytes metrics ts) (st_mergers st)\<rparr>)"
    by (rule calm_mergers) (rule identity_update)
  then show ?thesis
    unfolding handle_merger_failed_def Let_def
    by (auto intro: calm_trans [OF _ calm_update_node] split: option.split)
qed


section \<open>The whole reducer\<close>

text \<open>The four events that replace the graph, and with it the set of nodes.\<close>

fun replaces_graph :: "event_kind \<Rightarrow> bool" where
  "replaces_graph (Created _ _ _ _) = True"
| "replaces_graph (DraftEdited _ _) = True"
| "replaces_graph (GraphRevised _ _ _ _ _) = True"
| "replaces_graph (ManualGraphRevised _ _ _) = True"
| "replaces_graph _ = False"

lemmas plain_defs = handle_planning_started_def handle_planner_turn_def handle_review_started_def
  handle_review_progress_def handle_preview_progress_def handle_review_finished_def
  handle_turn_aborted_def handle_planning_failed_def handle_approved_def handle_execution_stop_def
  handle_paused_def handle_rejected_def resume_attention_def handle_policy_requested_def
  handle_policy_resolved_def handle_result_started_def handle_result_prepared_def
  handle_result_failed_def handle_planner_edited_def handle_feedback_queued_def
  handle_feedback_resolved_def handle_feedback_def handle_publication_started_def
  handle_publication_completed_def handle_publication_failed_def handle_merger_started_def
  handle_settled_def

lemma calm_planning:
  assumes "recorded (Some planning) (st_planning_turns st)"
  shows "calm st (handle_planning_started goal c planning plan_type st)"
    and "calm st (handle_planner_turn planning st)" and "calm st (handle_review_started planning st)"
    and "calm st (handle_review_finished planning approval st)"
    and "calm st (handle_turn_aborted planning st)" and "calm st (handle_planning_failed planning st)"
  using assms by (auto simp: plain_defs Let_def calm_defs)

lemma calm_plain:
  "calm st (handle_review_progress g st)" "calm st (handle_preview_progress g st)"
  "calm st (handle_approved base st)" "calm st (handle_execution_stop ids st)" "calm st (handle_paused p st)"
  "calm st (handle_rejected st)" "calm st (resume_attention st)" "calm st (handle_policy_requested st)"
  "calm st (handle_policy_resolved environment st)" "calm st (handle_result_started input args st)"
  "calm st (handle_result_prepared input st)" "calm st (handle_result_failed generation error st)"
  "calm st (handle_planner_edited instruction first_turn st)" "calm st (handle_feedback_queued f st)"
  "calm st (handle_feedback_resolved eid st)" "calm st (handle_feedback from to accepted st)"
  "calm st (handle_publication_started ts repository heads st)"
  "calm st (handle_publication_completed ts head st)" "calm st (handle_publication_failed error st)"
  "calm st (handle_merger_started e st)" "calm st (handle_settled st)"
  by (auto simp: plain_defs Let_def calm_defs push_new_prefix push_new_distinct distinct_map
        bt_wf_entry bt.wf_update inj_on_def split: option.split)

lemma calm_records:
  "calm st (handle_input_recorded eid input st)" "calm st (handle_result_recorded eid result st)"
  "calm st (handle_prepared eid head st)"
  unfolding handle_input_recorded_def handle_result_recorded_def handle_prepared_def
  by (auto intro!: calm_executions)

lemma calm_result_finished: "calm st (handle_result_finished d st)"
proof (cases "running_result (cr_generation (rd_result d)) st")
  case None
  then show ?thesis by (simp add: handle_result_finished_def)
next
  case (Some e)
  then show ?thesis
    by (simp add: handle_result_finished_def calm_defs bt_keys_def case_prod_unfold comp_def)
qed

lemma calm_output: "calm st (handle_output en eid chunk st)"
  unfolding handle_output_def by (rule calm_attempt) (rule identity_update)

lemma calm_blocked: "handle_blocked name error st = Some st' \<Longrightarrow> calm st st'"
  unfolding handle_blocked_def by (rule calm_unwrap)

lemma calm_single_fields:
  "calm st (st\<lparr>st_plan_type := a\<rparr>)" "calm st (st\<lparr>st_environment_baseline := b\<rparr>)"
  "calm st (st\<lparr>st_published_result := c\<rparr>)"
  by (simp_all add: calm_defs)

lemma handle_calm:
  assumes "handle en sq ts kind st = Some st'" and "\<not> replaces_graph kind"
    and "recorded (event_kind_planning kind) (st_planning_turns st)"
  shows "calm st st'"
  using assms
  by (cases kind)
     (auto simp: handle_def calm_planning calm_plain calm_records calm_result_finished calm_models calm_snapshotted
        calm_mergers_finished calm_merger_failed calm_single_fields
      dest: calm_started calm_finished calm_failed calm_blocked calm_resolved calm_invalidated
        calm_conversation_edited)


section \<open>Replacing the graph\<close>

lemma quiet_fields [simp]:
  "quiet st (u\<lparr>st_phase := a\<rparr>) = quiet st u" "quiet st (u\<lparr>st_publication := b\<rparr>) = quiet st u"
  "quiet st (u\<lparr>st_nodes := d\<rparr>) = quiet st u" "quiet st (u\<lparr>st_graph := g\<rparr>) = quiet st u"
  by (simp_all add: quiet_def history_le_def collections_wf_def)

lemma quiet_retain_counts:
  "quiet st u \<Longrightarrow> quiet st (u\<lparr>st_feedback_counts := bt_retain p (st_feedback_counts u)\<rparr>)"
proof (erule quiet_trans)
  show "quiet u (u\<lparr>st_feedback_counts := bt_retain p (st_feedback_counts u)\<rparr>)"
    by (simp add: quiet_def history_le_def collections_wf_def bt.wf_retain)
qed

lemma calm_revise_node: "revise_node name st = Some st' \<Longrightarrow> calm st st'"
proof -
  have "calm st (st\<lparr>st_superseded_execution_ids := supersede es (st_superseded_execution_ids st)\<rparr>)" for es
    by (rule calm_supersede) simp
  then show "revise_node name st = Some st' \<Longrightarrow> calm st st'"
    unfolding revise_node_def Let_def by (blast intro: calm_trans calm_unwrap)
qed

lemma calm_revise_loop: "try_fold revise_node names st = Some st' \<Longrightarrow> calm st st'"
proof (induction names arbitrary: st)
  case (Cons name names)
  then obtain u where "revise_node name st = Some u" "try_fold revise_node names u = Some st'"
    by (auto split: option.splits)
  with Cons show ?case by (blast intro: calm_trans calm_revise_node)
qed simp

lemma graph_revise_loop: "try_fold revise_node names st = Some st' \<Longrightarrow> st_graph st' = st_graph st
   \<and> st_feedback_counts st' = st_feedback_counts st \<and> st_pending_feedback st' = st_pending_feedback st"
proof (induction names arbitrary: st)
  case (Cons name names)
  then obtain u where u: "revise_node name st = Some u" "try_fold revise_node names u = Some st'"
    by (auto split: option.splits)
  from u(1) have "st_graph u = st_graph st \<and> st_feedback_counts u = st_feedback_counts st
      \<and> st_pending_feedback u = st_pending_feedback st"
    by (auto simp: revise_node_def Let_def unwrap_node_def update_node_def split: if_splits)
  with Cons.IH [OF u(2)] show ?case by simp
qed simp

lemma entry_loop:
  "set (bt_keys (fold (\<lambda>n. bt_entry (nd_name n) d) ns m)) = set (bt_keys m) \<union> nd_name ` set ns"
  "bt_wf m \<Longrightarrow> bt_wf (fold (\<lambda>n. bt_entry (nd_name n) d) ns m)"
  by (induction ns arbitrary: m) (auto simp: bt_keys_entry bt_wf_entry)

text \<open>The node map while a graph is replaced: the kept nodes, and fresh ones for the new names.\<close>

definition regraphed :: "env \<Rightarrow> graph \<Rightarrow> snapshot \<Rightarrow> snapshot" where
  "regraphed en g st =
     st\<lparr>st_graph := g, st_preview_graph := None, st_plan := replay_plan en g,
        st_nodes := fold (\<lambda>n. bt_entry (nd_name n) node_state_default) (gr_nodes g)
          (bt_retain (\<lambda>name. \<exists>n \<in> set (gr_nodes g). nd_name n = name) (st_nodes st))\<rparr>"

lemma graph_revisedE:
  assumes "handle_graph_revised en g invalidated st = Some st'"
  obtains u where "try_fold revise_node invalidated (regraphed en g st) = Some u"
    and "\<exists>phase publication. st' = u\<lparr>st_feedback_counts := bt_retain (\<lambda>key. \<exists>e \<in> set (gr_edges g).
       eg_feedback e \<and> key = feedback_key (eg_from e) (eg_to e)) (st_feedback_counts u),
       st_publication := publication, st_phase := phase\<rparr>"
proof -
  obtain u where u: "try_fold revise_node invalidated (regraphed en g st) = Some u"
    using assms by (auto simp: handle_graph_revised_def regraphed_def Let_def)
  have "\<exists>phase publication. st' = u\<lparr>st_feedback_counts := bt_retain (\<lambda>key. \<exists>e \<in> set (gr_edges g).
       eg_feedback e \<and> key = feedback_key (eg_from e) (eg_to e)) (st_feedback_counts u),
       st_publication := publication, st_phase := phase\<rparr>"
  proof (cases "st_approved u")
    case True
    show ?thesis
    proof (cases "st_graph st \<noteq> g")
      case changed: True
      with True u assms have "st' = u\<lparr>st_feedback_counts := bt_retain (\<lambda>key. \<exists>e \<in> set (gr_edges g).
         eg_feedback e \<and> key = feedback_key (eg_from e) (eg_to e)) (st_feedback_counts u),
         st_publication := None, st_phase := run_or_pause u\<rparr>"
        by (simp add: handle_graph_revised_def regraphed_def [symmetric] Let_def run_or_pause_def)
      then show ?thesis by blast
    next
      case False
      let ?v = "u\<lparr>st_feedback_counts := bt_retain (\<lambda>key. \<exists>e \<in> set (gr_edges g).
         eg_feedback e \<and> key = feedback_key (eg_from e) (eg_to e)) (st_feedback_counts u)\<rparr>"
      from False True u assms have "st' = ?v"
        by (simp add: handle_graph_revised_def regraphed_def [symmetric] Let_def)
      also have "\<dots> = ?v\<lparr>st_publication := st_publication ?v, st_phase := st_phase ?v\<rparr>" by (cases u) simp
      finally have "st' = u\<lparr>st_feedback_counts := bt_retain (\<lambda>key. \<exists>e \<in> set (gr_edges g).
         eg_feedback e \<and> key = feedback_key (eg_from e) (eg_to e)) (st_feedback_counts u),
         st_publication := st_publication u, st_phase := st_phase u\<rparr>" by simp
      then show ?thesis by blast
    qed
  next
    case False
    with u assms have "st' = u\<lparr>st_feedback_counts := bt_retain (\<lambda>key. \<exists>e \<in> set (gr_edges g).
       eg_feedback e \<and> key = feedback_key (eg_from e) (eg_to e)) (st_feedback_counts u),
       st_publication := st_publication u, st_phase := ''awaiting_approval''\<rparr>"
      by (simp add: handle_graph_revised_def regraphed_def [symmetric] Let_def)
    then show ?thesis by blast
  qed
  with u show ?thesis by (rule that)
qed

lemma quiet_graph_revised:
  assumes "handle_graph_revised en g invalidated st = Some st'"
  shows "quiet st st'"
proof -
  obtain u where u: "try_fold revise_node invalidated (regraphed en g st) = Some u"
    and "\<exists>phase publication. st' = u\<lparr>st_feedback_counts := bt_retain (\<lambda>key. \<exists>e \<in> set (gr_edges g).
       eg_feedback e \<and> key = feedback_key (eg_from e) (eg_to e)) (st_feedback_counts u),
       st_publication := publication, st_phase := phase\<rparr>"
    using graph_revisedE [OF assms] by blast
  then obtain phase publication where st': "st' = u\<lparr>st_feedback_counts := bt_retain (\<lambda>key. \<exists>e \<in> set (gr_edges g).
       eg_feedback e \<and> key = feedback_key (eg_from e) (eg_to e)) (st_feedback_counts u),
       st_publication := publication, st_phase := phase\<rparr>"
    by blast
  have "quiet st (regraphed en g st)" by (simp add: regraphed_def quiet_def history_le_def collections_wf_def)
  then have "quiet st u" using calm_quiet [OF calm_revise_loop [OF u]] by (rule quiet_trans)
  then show ?thesis by (simp add: st' quiet_retain_counts)
qed

lemma nodes_graph_revised:
  assumes "handle_graph_revised en g invalidated st = Some st'"
  shows "st_graph st' = g" and "set (bt_keys (st_nodes st')) = node_names g"
    and "bt_wf (st_nodes st) \<Longrightarrow> bt_wf (st_nodes st')"
    and "st_pending_feedback st' = st_pending_feedback st"
    and "bt_wf (st_feedback_counts st) \<Longrightarrow> bt_wf (st_feedback_counts st')"
proof -
  obtain u where u: "try_fold revise_node invalidated (regraphed en g st) = Some u"
    and "\<exists>phase publication. st' = u\<lparr>st_feedback_counts := bt_retain (\<lambda>key. \<exists>e \<in> set (gr_edges g).
       eg_feedback e \<and> key = feedback_key (eg_from e) (eg_to e)) (st_feedback_counts u),
       st_publication := publication, st_phase := phase\<rparr>"
    using graph_revisedE [OF assms] by blast
  then obtain phase publication where st': "st' = u\<lparr>st_feedback_counts := bt_retain (\<lambda>key. \<exists>e \<in> set (gr_edges g).
       eg_feedback e \<and> key = feedback_key (eg_from e) (eg_to e)) (st_feedback_counts u),
       st_publication := publication, st_phase := phase\<rparr>"
    by blast
  have same: "bt_keys (st_nodes u) = bt_keys (st_nodes (regraphed en g st))" "st_graph u = g"
    "st_feedback_counts u = st_feedback_counts st" "st_pending_feedback u = st_pending_feedback st"
    using calm_revise_loop [OF u] graph_revise_loop [OF u] by (simp_all add: calm_def regraphed_def)
  have keys: "set (bt_keys (st_nodes (regraphed en g st))) = node_names g"
    by (auto simp: regraphed_def entry_loop node_names_def btree_simps)
  show "st_graph st' = g" "set (bt_keys (st_nodes st')) = node_names g"
    "st_pending_feedback st' = st_pending_feedback st" by (simp_all add: st' same keys)
  have "bt_wf (st_nodes (regraphed en g st))" if "bt_wf (st_nodes st)"
    using that by (simp add: regraphed_def entry_loop(2) bt.wf_retain)
  moreover have "bt_wf (st_nodes st') \<longleftrightarrow> bt_wf (st_nodes (regraphed en g st))"
    by (simp add: bt_wf_def st' same)
  ultimately show "bt_wf (st_nodes st) \<Longrightarrow> bt_wf (st_nodes st')" by simp
  show "bt_wf (st_feedback_counts st) \<Longrightarrow> bt_wf (st_feedback_counts st')"
    by (simp add: st' same bt.wf_retain)
qed

lemma planning_of_created [simp]: "event_kind_planning (Created g c planning_id planning) = planning"
  by (cases planning) simp_all

lemma quiet_replaced:
  "recorded planning (st_planning_turns st) \<Longrightarrow> quiet st (handle_created en g c planning_id planning st)"
  "quiet st (handle_draft_edited en g c st)"
  by (simp_all add: handle_created_def handle_draft_edited_def quiet_def history_le_def collections_wf_def)

lemma quiet_planner_revised:
  assumes "handle_planner_revised en g planning_id planning invalidated st = Some st'"
    and "recorded (Some planning) (st_planning_turns st)"
  shows "quiet st st'"
proof (rule quiet_trans)
  show "quiet st (st\<lparr>st_stop_requested := False, st_planning_id := Some planning_id, st_planning := Some planning\<rparr>)"
    using assms(2) by (simp add: quiet_def history_le_def collections_wf_def)
  show "quiet (st\<lparr>st_stop_requested := False, st_planning_id := Some planning_id, st_planning := Some planning\<rparr>) st'"
    using assms(1) unfolding handle_planner_revised_def by (rule quiet_graph_revised)
qed

lemma handle_quiet:
  assumes "handle en sq ts kind st = Some st'"
    and "recorded (event_kind_planning kind) (st_planning_turns st)"
  shows "quiet st st'"
proof (cases "replaces_graph kind")
  case False
  with assms show ?thesis by (blast intro: calm_quiet handle_calm)
next
  case True
  with assms show ?thesis
    by (cases kind rule: replaces_graph.cases)
       (auto simp: handle_def quiet_replaced intro: quiet_graph_revised quiet_planner_revised)
qed

section \<open>One event\<close>

lemma apply_eventE:
  assumes "apply_event en ev st = Some st'"
  obtains (streamed) eid chunk where "ev_kind ev = Output eid chunk"
      "st' = refresh_metrics en (handle_output en eid chunk (note_planning ev st))"
  | (logged) u where "\<And>eid chunk. ev_kind ev \<noteq> Output eid chunk"
      "handle en (ev_sequence ev) (ev_timestamp ev) (ev_kind ev) (note_planning ev st) = Some u"
      "st' = log_event en ev u"
proof (cases "\<exists>eid chunk. ev_kind ev = Output eid chunk")
  case True
  with assms streamed show ?thesis by (auto simp: apply_event_def Let_def)
next
  case False
  then have "apply_event en ev st = map_option (log_event en ev)
      (handle en (ev_sequence ev) (ev_timestamp ev) (ev_kind ev) (note_planning ev st))"
    by (cases "ev_kind ev") (simp_all add: apply_event_def Let_def)
  with assms False logged show ?thesis by auto
qed

end
