(* ===== verification/Reducer_Correct.thy ===== *)
theory Reducer_Correct
  imports Reducer_Facts
begin

text \<open>
  Properties of the reducer over arbitrary event sequences: the well-formedness of the projected
  state, its append-only history, the agreement of incrementally kept state with state rebuilt
  from the log, when the reducer panics, and what single events may and may not change.  The
  interfaces \<open>step_invariant\<close> and \<open>step_order\<close> are interpreted on \<open>apply_event\<close>.
\<close>

section \<open>Well-formed states\<close>

definition run_wf :: "snapshot \<Rightarrow> bool" where
  "run_wf st \<longleftrightarrow> bt_wf (st_nodes st) \<and> set (bt_keys (st_nodes st)) = node_names (st_graph st)
     \<and> collections_wf st"

lemma node_names_map: "node_names g = set (map nd_name (gr_nodes g))"
  by (simp add: node_names_def)

lemma refresh_frame [simp]:
  "st_nodes (refresh_metrics en st) = st_nodes st" "st_graph (refresh_metrics en st) = st_graph st"
  "st_events (refresh_metrics en st) = st_events st" "st_planning (refresh_metrics en st) = st_planning st"
  "st_planning_turns (refresh_metrics en st) = st_planning_turns st"
  "st_executions (refresh_metrics en st) = st_executions st" "st_mergers (refresh_metrics en st) = st_mergers st"
  "collections_wf (refresh_metrics en st) = collections_wf st"
  "history_le s (refresh_metrics en st) = history_le s st"
  by (simp_all add: refresh_metrics_def collections_wf_def history_le_def)

lemma log_frame [simp]:
  "st_nodes (log_event en ev st) = st_nodes st" "st_graph (log_event en ev st) = st_graph st"
  "st_events (log_event en ev st) = st_events st @ [ev]" "st_planning (log_event en ev st) = st_planning st"
  "st_planning_turns (log_event en ev st) = st_planning_turns st"
  "st_executions (log_event en ev st) = st_executions st" "st_mergers (log_event en ev st) = st_mergers st"
  "st_publication (log_event en ev st) = st_publication st" "st_phase (log_event en ev st) = st_phase st"
  "collections_wf (log_event en ev st) = collections_wf st"
  by (simp_all add: log_event_def refresh_metrics_def collections_wf_def)

lemma note_frame [simp]:
  "st_nodes (note_planning ev st) = st_nodes st" "st_graph (note_planning ev st) = st_graph st"
  "st_events (note_planning ev st) = st_events st" "st_planning (note_planning ev st) = st_planning st"
  "st_executions (note_planning ev st) = st_executions st" "st_mergers (note_planning ev st) = st_mergers st"
  "st_superseded_execution_ids (note_planning ev st) = st_superseded_execution_ids st"
  "st_publication (note_planning ev st) = st_publication st" "st_phase (note_planning ev st) = st_phase st"
  "history_le (note_planning ev st) s = history_le st s"
  by (simp_all add: note_planning_def record_planning_turn_def history_le_def split: option.split)

lemma note_recorded: "recorded (planning_summary_of ev) (st_planning_turns (note_planning ev st))"
  by (auto simp: note_planning_def record_planning_turn_def recorded_def bt_contains_def btree_simps
      split: option.split)

lemma note_collections: "collections_wf st \<Longrightarrow> collections_wf (note_planning ev st)"
  by (auto simp: note_planning_def record_planning_turn_def collections_wf_def recorded_def
      bt_contains_def btree_simps split: option.splits)

lemma note_wf: "run_wf st \<Longrightarrow> run_wf (note_planning ev st)"
  by (simp add: run_wf_def note_collections)

lemma history_log: "history_le s st \<Longrightarrow> history_le s (log_event en ev st)"
  by (auto simp: log_event_def refresh_metrics_def history_le_def)

lemma run_wf_fresh: "bt_wf (fresh_nodes g) \<and> set (bt_keys (fresh_nodes g)) = node_names g"
  by (auto simp: fresh_nodes_def bt_wf_of_list bt_keys_of_list node_names_def image_image)

lemma handle_wf:
  assumes "handle en sq ts kind st = Some st'" and "recorded (event_kind_planning kind) (st_planning_turns st)"
    and "run_wf st"
  shows "run_wf st'"
proof -
  have coll: "collections_wf st'"
    using handle_quiet [OF assms(1,2)] assms(3) by (simp add: quiet_def run_wf_def)
  have nodes: "bt_wf (st_nodes st') \<and> set (bt_keys (st_nodes st')) = node_names (st_graph st')"
  proof (cases "replaces_graph kind")
    case False
    from handle_calm [OF assms(1) False assms(2)] have "bt_keys (st_nodes st') = bt_keys (st_nodes st)"
      "map nd_name (gr_nodes (st_graph st')) = map nd_name (gr_nodes (st_graph st))"
      by (simp_all add: calm_def)
    with assms(3) show ?thesis unfolding run_wf_def bt_wf_def node_names_map by simp
  next
    case True
    with assms run_wf_fresh show ?thesis
      by (cases kind rule: replaces_graph.cases)
         (auto simp: handle_def handle_created_def handle_draft_edited_def handle_planner_revised_def
            run_wf_def nodes_graph_revised dest: nodes_graph_revised(3))
  qed
  from coll nodes show ?thesis by (simp add: run_wf_def)
qed

lemma calm_run_wf: "calm st st' \<Longrightarrow> run_wf st \<Longrightarrow> run_wf st'"
  by (auto simp: calm_def quiet_def run_wf_def node_names_map bt_wf_def simp del: set_map)

lemma apply_wf:
  assumes "run_wf st" and "apply_event en ev st = Some st'"
  shows "run_wf st'"
  using assms(2)
proof (cases rule: apply_eventE)
  case (streamed eid chunk)
  from assms(1) have "run_wf (note_planning ev st)" by (rule note_wf)
  with calm_run_wf [OF calm_output] streamed(2) show ?thesis by (simp add: run_wf_def)
next
  case (logged u)
  from assms(1) have "run_wf (note_planning ev st)" by (rule note_wf)
  with handle_wf [OF logged(2) note_recorded [unfolded planning_summary_of_def]] logged(3) show ?thesis by (simp add: run_wf_def)
qed

interpretation wf: step_invariant "apply_event en" run_wf for en
  by unfold_locales (rule apply_wf)

lemma run_wf_start: "run_wf snapshot_default"
  by (simp add: run_wf_def snapshot_default_def graph_default_def node_names_def collections_wf_def
      recorded_def bt_keys_def)

section \<open>Append-only history\<close>

lemma apply_history:
  assumes "apply_event en ev st = Some st'"
  shows "history_le st st'"
  using assms
proof (cases rule: apply_eventE)
  case (streamed eid chunk)
  have "history_le (note_planning ev st) (handle_output en eid chunk (note_planning ev st))"
    using calm_output by (simp add: calm_def quiet_def)
  with streamed(2) show ?thesis by simp
next
  case (logged u)
  from handle_quiet [OF logged(2) note_recorded [unfolded planning_summary_of_def]] have "history_le st u" by (simp add: quiet_def)
  with logged(3) show ?thesis by (simp add: history_log)
qed

interpretation history: step_order "apply_event en" history_le for en
  by unfold_locales (auto intro: history_trans apply_history)

section \<open>Planning turns\<close>

definition turns_of :: "event list \<Rightarrow> (string, planning_summary) btree_map" where
  "turns_of evs = fold (\<lambda>p m. if ps_planning_id p \<noteq> [] then bt_insert (ps_planning_id p) p m else m)
     (List.map_filter planning_summary_of evs) []"

text \<open>The map kept while events arrive is that of the log.\<close>

definition planning_ok :: "snapshot \<Rightarrow> bool" where
  "planning_ok st \<longleftrightarrow> st_planning_turns st = turns_of (st_events st)"

lemma rebuild_turns:
  "fold record_planning_turn ps st =
     st\<lparr>st_planning_turns := fold (\<lambda>p m. if ps_planning_id p \<noteq> [] then bt_insert (ps_planning_id p) p m else m)
       ps (st_planning_turns st)\<rparr>"
  by (induction ps arbitrary: st) (simp_all add: record_planning_turn_def)

lemma rebuild_planning_ok: "planning_ok st \<Longrightarrow> collections_wf st \<Longrightarrow> rebuild_planning_turns st = st"
  by (auto simp: planning_ok_def collections_wf_def recorded_def rebuild_planning_turns_def rebuild_turns turns_of_def [symmetric] Let_def
      bt_entry_def split: option.split)

lemma turns_snoc:
  "turns_of (evs @ [ev]) = (case planning_summary_of ev of
     Some p \<Rightarrow> if ps_planning_id p \<noteq> [] then bt_insert (ps_planning_id p) p (turns_of evs) else turns_of evs
   | None \<Rightarrow> turns_of evs)"
  by (simp add: turns_of_def List.map_filter_def split: option.split)


lemma apply_planning:
  assumes "planning_ok st" and "apply_event en ev st = Some st'"
  shows "planning_ok st'"
  using assms(2)
proof (cases rule: apply_eventE)
  case (streamed eid chunk)
  then have "planning_summary_of ev = None" by (simp add: planning_summary_of_def)
  then have "note_planning ev st = st" by (simp add: note_planning_def)
  moreover have "calm st (handle_output en eid chunk st)" by (rule calm_output)
  ultimately show ?thesis
    using assms(1) streamed(2) by (simp add: planning_ok_def calm_def quiet_def)
next
  case (logged u)
  from handle_quiet [OF logged(2) note_recorded [unfolded planning_summary_of_def]]
  have "st_planning_turns u = st_planning_turns (note_planning ev st)" "st_events u = st_events st"
    by (simp_all add: quiet_def)
  moreover have "st_planning_turns (note_planning ev st) = turns_of (st_events st @ [ev])"
    using assms(1) by (auto simp: planning_ok_def turns_snoc note_planning_def record_planning_turn_def split: option.split)
  ultimately show ?thesis using logged(3) by (simp add: planning_ok_def)
qed

interpretation coherent: two_invariants "apply_event en" run_wf planning_ok for en
  by unfold_locales (auto intro: apply_wf apply_planning)

lemma planning_ok_start: "planning_ok snapshot_default"
  by (simp add: planning_ok_def snapshot_default_def turns_of_def List.map_filter_def)

section \<open>A sample run\<close>

text \<open>Two nodes in a row, the first of which is approved, started, streams a line and finishes.\<close>

definition sample_env :: env where
  "sample_env = \<lparr>en_lower = to_ascii_lowercase, en_parse = (\<lambda>_. None), en_catalog = (\<lambda>_. None)\<rparr>"

definition sample_config :: config where
  "sample_config = \<lparr>cf_repository = ''r'', cf_model = ''m'', cf_thinking_level = ''low'', cf_role_models = [],
     cf_max_parallel = 2, cf_max_feedback = 5, cf_auto_approve = False, cf_post_task_review = False,
     cf_planner_write_tools = False, cf_environment = None\<rparr>"

definition sample_run_graph :: graph where
  "sample_run_graph = \<lparr>gr_original_goal = ''g'',
     gr_nodes = [\<lparr>nd_name = ''a'', nd_task = ''t''\<rparr>, \<lparr>nd_name = ''b'', nd_task = ''u''\<rparr>],
     gr_edges = [\<lparr>eg_from = ''a'', eg_to = ''b'', eg_feedback = False\<rparr>]\<rparr>"

definition sample_attempt :: "string \<Rightarrow> string \<Rightarrow> execution" where
  "sample_attempt eid name = \<lparr>ex_id = eid, ex_node = name, ex_revision = 1, ex_attempt = 1,
     ex_session_id = ''s'', ex_worktree = ''w'', ex_before = ''h0'', ex_workspace_lineage = [], ex_after = None,
     ex_input = None, ex_result = None, ex_status = ''running'', ex_output = [], ex_output_bytes = 0,
     ex_pid = None, ex_started_at = 10, ex_completed_at = None, ex_metrics = None\<rparr>"

definition sample_event :: "int \<Rightarrow> event_kind \<Rightarrow> event" where
  "sample_event n kind = \<lparr>ev_sequence = n, ev_timestamp = 100 + nat n, ev_kind = kind\<rparr>"

definition sample_summary :: planning_summary where
  "sample_summary = \<lparr>ps_planning_id = ''p'', ps_roles = [], ps_status = None, ps_error = None,
     ps_created_at = None, ps_repository = None, ps_worktree = None, ps_workspace_execution_id = None,
     ps_plan_type = None, ps_goal = None, ps_run_id = None\<rparr>"

definition sample_events :: "event list" where
  "sample_events =
     [sample_event 1 (Created sample_run_graph sample_config (Some ''p'') (Some sample_summary)),
      sample_event 2 (Approved ''h0''),
      sample_event 3 (Started (sample_attempt ''e1'' ''a'') None False),
      sample_event 4 (Output ''e1'' ''line''),
      sample_event 5 (Finished ''e1'' ''h1'' [] 0 None)]"

lemma sample_run:
  "case apply_all sample_env sample_events snapshot_default of
     None \<Rightarrow> False
   | Some st \<Rightarrow> bt_keys (st_nodes st) = [''a'', ''b''] \<and> map ex_id (st_executions st) = [''e1'']
       \<and> st_superseded_execution_ids st = [] \<and> bt_keys (st_planning_turns st) = [''p'']
       \<and> length (st_events st) = 4
       \<and> map_option ns_status (bt_get (st_nodes st) ''a'') = Some ''completed''
       \<and> map_option ns_head (bt_get (st_nodes st) ''a'') = Some (Some ''h1'')"
  by code_simp

lemma sample_state:
  obtains st where "apply_all sample_env sample_events snapshot_default = Some st"
    and "bt_keys (st_nodes st) = [''a'', ''b'']" and "map ex_id (st_executions st) = [''e1'']"
    and "bt_keys (st_planning_turns st) = [''p'']" and "length (st_events st) = 4"
proof (cases "apply_all sample_env sample_events snapshot_default")
  case None
  from sample_run show ?thesis unfolding None option.case by (rule FalseE)
next
  case (Some st)
  note run = sample_run [unfolded Some option.case]
  show ?thesis
    by (rule that [OF Some conjunct1 [OF run] conjunct1 [OF conjunct2 [OF run]]
        conjunct1 [OF conjunct2 [OF conjunct2 [OF conjunct2 [OF run]]]]
        conjunct1 [OF conjunct2 [OF conjunct2 [OF conjunct2 [OF conjunct2 [OF run]]]]]])
qed

section \<open>Properties of whole runs\<close>

text \<open>C5: whatever events a run is made of, its projected state is well-formed: exactly the nodes of the
  current graph have a state, the ordered maps are sorted without duplicate keys, no feedback
  request, delivered head or stop request is listed twice, and the displayed planning turn is among
  the recorded ones.\<close>

theorem run_state_well_formed:
  assumes "apply_all en evs snapshot_default = Some st"
  shows "bt_wf (st_nodes st) \<and> set (bt_keys (st_nodes st)) = node_names (st_graph st)
    \<and> bt_wf (st_feedback_counts st) \<and> distinct (map pf_execution_id (st_pending_feedback st))
    \<and> distinct (st_published_heads st) \<and> distinct (st_execution_stop_requests st)
    \<and> recorded (st_planning st) (st_planning_turns st)"
  using wf.run_inv [OF run_wf_start assms [unfolded apply_all_def]]
  by (simp add: run_wf_def collections_wf_def)

theorem run_state_well_formed_witness:
  "\<exists>st. apply_all sample_env sample_events snapshot_default = Some st
     \<and> {''a'', ''b''} = node_names (st_graph st) \<and> distinct (st_published_heads st)"
proof -
  obtain st where st: "apply_all sample_env sample_events snapshot_default = Some st"
    "bt_keys (st_nodes st) = [''a'', ''b'']" by (rule sample_state)
  with run_state_well_formed [OF st(1)] show ?thesis by auto
qed

text \<open>C6: history is append-only: along any sequence of events the attempts keep their place and their
  identity (node, revision, session, workspace, start), and superseded ids, delivered heads, stop
  requests and events are never dropped or reordered.\<close>

theorem history_append_only:
  assumes "apply_all en evs st = Some st'"
  shows "prefix (map identity_of (st_executions st)) (map identity_of (st_executions st'))
     \<and> prefix (map identity_of (st_mergers st)) (map identity_of (st_mergers st'))
     \<and> prefix (st_superseded_execution_ids st) (st_superseded_execution_ids st')
     \<and> prefix (st_published_heads st) (st_published_heads st')
     \<and> prefix (st_execution_stop_requests st) (st_execution_stop_requests st')
     \<and> prefix (st_events st) (st_events st')"
  using history.run_le [OF assms [unfolded apply_all_def]] by (simp add: history_le_def)

theorem history_append_only_witness:
  "\<exists>st. apply_all sample_env sample_events snapshot_default = Some st
     \<and> prefix (map identity_of (st_executions snapshot_default)) (map identity_of (st_executions st))
     \<and> length (st_executions st) = 1"
proof -
  obtain st where st: "apply_all sample_env sample_events snapshot_default = Some st"
    "map ex_id (st_executions st) = [''e1'']" by (rule sample_state)
  from arg_cong [OF st(2), of length] history_append_only [OF st(1)] st(1) show ?thesis by auto
qed

text \<open>C16: the planning turns kept while events arrive are those rebuilt from the log when a checkpoint,
  which does not store them, is loaded: rebuilding changes nothing.\<close>

theorem planning_turns_rebuilt:
  assumes "apply_all en evs snapshot_default = Some st"
  shows "rebuild_planning_turns st = st"
proof -
  have "run_wf st \<and> planning_ok st"
    using coherent.both.run_inv [OF conjI [OF run_wf_start planning_ok_start] assms [unfolded apply_all_def]] .
  then show ?thesis by (simp add: rebuild_planning_ok run_wf_def)
qed


theorem planning_turns_rebuilt_witness:
  "\<exists>st. apply_all sample_env sample_events snapshot_default = Some st
     \<and> bt_keys (st_planning_turns (rebuild_planning_turns st)) = [''p'']"
proof -
  obtain st where st: "apply_all sample_env sample_events snapshot_default = Some st"
    "bt_keys (st_planning_turns st) = [''p'']" by (rule sample_state)
  with planning_turns_rebuilt [OF st(1)] show ?thesis by auto
qed

fun is_output :: "event_kind \<Rightarrow> bool" where
  "is_output (Output _ _) = True"
| "is_output _ = False"

lemma apply_events:
  assumes "apply_event en ev st = Some st'"
  shows "st_events st' = st_events st @ filter (\<lambda>ev. \<not> is_output (ev_kind ev)) [ev]
    \<and> st_run_metrics st' = Some (compute_run_metrics (en_catalog en) st')"
proof -
  have metrics: "st_run_metrics (refresh_metrics en u) = Some (compute_run_metrics (en_catalog en) (refresh_metrics en u))" for u
  proof -
    have "planning_turn_list (u\<lparr>st_run_metrics := x\<rparr>) = planning_turn_list u" for x
      by (cases "st_planning u") (simp_all add: planning_turn_list_def Let_def)
    then show ?thesis by (simp add: refresh_metrics_def compute_run_metrics_def)
  qed
  from assms show ?thesis
  proof (cases rule: apply_eventE)
    case (streamed eid chunk)
    have "st_events (handle_output en eid chunk (note_planning ev st)) = st_events st"
      using calm_output by (simp add: calm_def quiet_def)
    with streamed metrics show ?thesis by simp
  next
    case (logged u)
    from logged(1) have "\<not> is_output (ev_kind ev)" by (cases "ev_kind ev") auto
    moreover from handle_quiet [OF logged(2) note_recorded [unfolded planning_summary_of_def]]
    have "st_events u = st_events st" by (simp add: quiet_def)
    ultimately show ?thesis using logged(3) metrics by (simp add: log_event_def)
  qed
qed

text \<open>The log of a run is its event sequence without the streamed output, in order and without
  loss; and after every event the published run metrics are those computed from the current state.\<close>

theorem log_and_metrics_current:
  assumes "apply_all en (evs @ [ev]) snapshot_default = Some st"
  shows "st_events st = filter (\<lambda>ev. \<not> is_output (ev_kind ev)) (evs @ [ev])
    \<and> st_run_metrics st = Some (compute_run_metrics (en_catalog en) st)"
proof -
  have log: "st_events s' = st_events s @ filter (\<lambda>ev. \<not> is_output (ev_kind ev)) es"
    if "try_fold (apply_event en) es s = Some s'" for es s s'
    using that
  proof (induction es arbitrary: s)
    case (Cons e es)
    then obtain t where "apply_event en e s = Some t" "try_fold (apply_event en) es t = Some s'"
      by (auto split: option.splits)
    with Cons.IH [OF this(2)] apply_events [OF this(1)] show ?case by simp
  qed simp
  from assms obtain t where t: "apply_event en ev t = Some st"
    by (auto simp: apply_all_def try_fold_append bind_eq_Some_conv split: option.splits)
  from log [OF assms [unfolded apply_all_def]] apply_events [OF t] show ?thesis
    by (simp add: snapshot_default_def)
qed

theorem log_and_metrics_current_witness:
  "\<exists>st. apply_all sample_env (butlast sample_events @ [last sample_events]) snapshot_default = Some st
     \<and> length (st_events st) = 4 \<and> st_run_metrics st = Some (compute_run_metrics (\<lambda>_. None) st)"
proof -
  have split: "butlast sample_events @ [last sample_events] = sample_events"
    by (simp add: sample_events_def)
  obtain st where st: "apply_all sample_env sample_events snapshot_default = Some st"
    "length (st_events st) = 4" by (rule sample_state)
  from log_and_metrics_current [of sample_env "butlast sample_events" "last sample_events" st] st
  show ?thesis by (auto simp: split sample_env_def)
qed

end
