(* ===== verification/Reducer_Steps.thy ===== *)
theory Reducer_Steps
  imports Reducer_Correct
begin

text \<open>
  What single events do: exactly when the reducer panics, that late results of superseded attempts
  are ignored, how revisions grow, how far a finished or started node reaches into the graph, what
  a publication delivers, and two flaws of the bookkeeping of feedback and recovery.
\<close>

section \<open>When an event panics\<close>

definition has_node :: "snapshot \<Rightarrow> string \<Rightarrow> bool" where
  "has_node st name \<longleftrightarrow> bt_contains (st_nodes st) name"

definition target_is_busy :: "snapshot \<Rightarrow> string \<Rightarrow> bool" where
  "target_is_busy st name \<longleftrightarrow>
     (case bt_get (st_nodes st) name of
        None \<Rightarrow> False
      | Some n \<Rightarrow> ns_status n = ''running''
          \<or> (ns_pending_messages n \<noteq> [] \<and> ns_status n \<in> set [''dirty'', ''waiting'', ''blocked'']))"

text \<open>The nodes and attempts an event must find.\<close>

fun event_refs_ok :: "event_kind \<Rightarrow> snapshot \<Rightarrow> bool" where
  "event_refs_ok (GraphRevised g _ _ invalidated _) st = (set invalidated \<subseteq> node_names g)"
| "event_refs_ok (ManualGraphRevised g invalidated _) st = (set invalidated \<subseteq> node_names g)"
| "event_refs_ok (Started e _ _) st = has_node st (ex_node e)"
| "event_refs_ok (Finished eid _ _ _ _) st =
     (case find_attempt (\<lambda>e. ex_id e = eid) st of
        None \<Rightarrow> True
      | Some e \<Rightarrow> eid \<in> set (st_superseded_execution_ids st) \<or> has_node st (ex_node e))"
| "event_refs_ok (Failed name eid _ _ _) st =
     ((case eid of Some i \<Rightarrow> i \<in> set (st_superseded_execution_ids st) | None \<Rightarrow> False) \<or> has_node st name)"
| "event_refs_ok (Blocked name _) st = has_node st name"
| "event_refs_ok (WorkspaceResolved eid _ names _) st =
     (find (\<lambda>e. ex_id e = eid) (st_executions st) \<noteq> None \<and> (\<forall>name \<in> set names. has_node st name))"
| "event_refs_ok (Invalidated names target instruction human _ _ _ source_direct) st =
     (has_node st target
      \<and> (source_direct \<or> (human \<and> instruction \<noteq> [] \<and> target_is_busy st target)
         \<or> (\<forall>name \<in> set names. has_node st name)))"
| "event_refs_ok (ConversationEdited names _ _ _ from _ _ _ _ _) st =
     (find (\<lambda>e. ex_id e = from) (st_executions st) \<noteq> None \<and> (\<forall>name \<in> set names. has_node st name))"
| "event_refs_ok _ st = True"

lemma has_node_keys: "has_node st name \<longleftrightarrow> name \<in> set (bt_keys (st_nodes st))"
  by (simp add: has_node_def bt_contains_keys)

lemma unwrap_node_None: "unwrap_node name f st = None \<longleftrightarrow> \<not> has_node st name"
  by (simp add: unwrap_node_def has_node_def)

lemma has_node_only_nodes: "only_nodes st st' \<Longrightarrow> has_node st' name = has_node st name"
  by (simp add: has_node_keys only_nodes_simps)

text \<open>A loop that unwraps one node per round panics at the first name that is missing.\<close>

lemma unwrap_loop_None:
  "try_fold (\<lambda>x s. unwrap_node x (f x s) s) xs st = None \<longleftrightarrow> \<not> (\<forall>x \<in> set xs. has_node st x)"
proof (induction xs arbitrary: st)
  case (Cons x xs)
  show ?case
  proof (cases "unwrap_node x (f x st) st")
    case None
    then have "\<not> has_node st x" by (simp add: unwrap_node_None)
    with None show ?thesis by simp
  next
    case (Some s)
    then have "has_node st x" using unwrap_node_None [of x "f x st" st] by simp
    moreover have "has_node s y = has_node st y" for y
      by (rule has_node_only_nodes [OF only_nodes_unwrap [OF Some]])
    ultimately show ?thesis using Some by (simp add: Cons.IH)
  qed
qed simp

lemma revise_loop_None: "try_fold revise_node xs st = None \<longleftrightarrow> \<not> (\<forall>x \<in> set xs. has_node st x)"
proof (induction xs arbitrary: st)
  case (Cons x xs)
  show ?case
  proof (cases "revise_node x st")
    case None
    then have "\<not> has_node st x" by (simp add: revise_node_def unwrap_node_None has_node_def Let_def)
    with None show ?thesis by simp
  next
    case (Some s)
    then have "has_node st x"
      using unwrap_node_None by (force simp: revise_node_def has_node_def unwrap_node_def split: if_splits)
    moreover have "has_node s y = has_node st y" for y
      using calm_revise_node [OF Some] by (simp add: has_node_keys calm_def)
    ultimately show ?thesis using Some by (simp add: Cons.IH)
  qed
qed simp

lemma find_attempt_update_frame [simp]: "has_node (update_attempt p f st) name = has_node st name"
  by (simp add: has_node_def)

lemma has_node_update [simp]: "has_node (update_node name f st) x = has_node st x"
  by (simp add: has_node_keys update_node_def btree_simps)

lemma requeue_None: "requeue_message name head st = None \<longleftrightarrow> \<not> has_node st name"
  by (auto simp: requeue_message_def has_node_def bt_contains_def Let_def split: option.split list.split)

lemma settle_has_node [simp]: "has_node (settle_node name lineage head result st) x = has_node st x"
  using calm_settle_node [of st name lineage head result] by (simp add: has_node_keys calm_def)

lemma finished_None:
  "handle_finished en ts eid head out bytes metrics st = None \<longleftrightarrow> \<not> event_refs_ok (Finished eid head out bytes metrics) st"
  by (auto simp: handle_finished_def finish_node_def requeue_None Let_def split: option.split)

lemma graph_revised_None:
  "handle_graph_revised en g invalidated st = None \<longleftrightarrow> \<not> set invalidated \<subseteq> node_names g"
proof -
  have "set (bt_keys (st_nodes (regraphed en g st))) = node_names g"
    by (auto simp: regraphed_def entry_loop node_names_def btree_simps)
  moreover have "handle_graph_revised en g invalidated st = None
      \<longleftrightarrow> try_fold revise_node invalidated (regraphed en g st) = None"
    by (simp add: handle_graph_revised_def regraphed_def Let_def)
  ultimately show ?thesis by (auto simp: revise_loop_None has_node_keys)
qed

lemma has_node_fields [simp]:
  "has_node (st\<lparr>st_publication := a\<rparr>) x = has_node st x" "has_node (st\<lparr>st_stop_requested := b\<rparr>) x = has_node st x"
  "has_node (st\<lparr>st_executions := c\<rparr>) x = has_node st x" "has_node (st\<lparr>st_graph := d\<rparr>) x = has_node st x"
  "has_node (st\<lparr>st_superseded_execution_ids := e\<rparr>) x = has_node st x"
  "has_node (edit_first_turn target instruction st) x = has_node st x"
  by (simp_all add: has_node_def edit_first_turn_def Let_def)

lemma resolved_None:
  "handle_workspace_resolved ts eid head names st = None
     \<longleftrightarrow> find (\<lambda>e. ex_id e = eid) (st_executions st) = None \<or> \<not> (\<forall>name \<in> set names. has_node st name)"
  by (simp add: handle_workspace_resolved_def Let_def unwrap_loop_None split: option.split)

lemma edited_None:
  "handle_conversation_edited names target instruction images from first_turn st = None
     \<longleftrightarrow> find (\<lambda>e. ex_id e = from) (st_executions st) = None \<or> \<not> (\<forall>name \<in> set names. has_node st name)"
  by (simp add: handle_conversation_edited_def Let_def unwrap_loop_None split: option.split)

lemma invalidate_scope_None:
  "invalidate_scope names target instruction human images workspace shared st = None
     \<longleftrightarrow> \<not> (\<forall>name \<in> set names. has_node st name) \<or> \<not> has_node st target"
proof (cases "try_fold (\<lambda>name st. unwrap_node name
    (invalidated_node (name = target) human (never_executed st name)) st) names (st\<lparr>st_publication := None\<rparr>)")
  case None
  then have "\<not> (\<forall>name \<in> set names. has_node st name)" by (simp add: unwrap_loop_None)
  with None show ?thesis by (simp add: invalidate_scope_def)
next
  case (Some u)
  have "\<not> (try_fold (\<lambda>name st. unwrap_node name
    (invalidated_node (name = target) human (never_executed st name)) st) names (st\<lparr>st_publication := None\<rparr>) = None)"
    by (simp add: Some)
  then have "\<forall>name \<in> set names. has_node st name" by (simp add: unwrap_loop_None)
  moreover from calm_unwrap_loop [OF Some] have "has_node u target = has_node st target"
    by (simp add: has_node_keys calm_def)
  ultimately show ?thesis using Some by (simp add: invalidate_scope_def unwrap_node_None)
qed

lemma queued_turn_busy:
  "turn_stays_queued target instruction human
       (update_node target (queue_message sequence instruction images source_direct shared) st)
     \<longleftrightarrow> human \<and> instruction \<noteq> [] \<and> target_is_busy st target"
  by (auto simp: turn_stays_queued_def target_is_busy_def update_node_def queue_message_def
      keeps_queued_turn_def btree_simps split: option.splits)

lemma not_queued: "\<not> (human \<and> instruction \<noteq> []) \<Longrightarrow> \<not> turn_stays_queued target instruction human st"
  by (auto simp: turn_stays_queued_def)

lemma target_is_busy_fields [simp]: "target_is_busy (st\<lparr>st_stop_requested := b\<rparr>) x = target_is_busy st x"
  by (simp add: target_is_busy_def)

lemma invalidated_None:
  "handle_invalidated sequence names target instruction human images workspace shared source_direct st = None
     \<longleftrightarrow> \<not> event_refs_ok (Invalidated names target instruction human images workspace shared source_direct) st"
proof (cases "human \<and> instruction \<noteq> []")
  case True
  let ?st = "st\<lparr>st_stop_requested := False\<rparr>"
  let ?u = "update_node target (queue_message sequence instruction images source_direct shared) ?st"
  show ?thesis
  proof (cases "has_node st target")
    case False
    with True show ?thesis
      by (simp add: handle_invalidated_def queue_turn_def unwrap_node_def has_node_def)
  next
    case found: True
    with True have "queue_turn sequence target instruction human images shared source_direct ?st = Some ?u"
      by (simp add: queue_turn_def unwrap_node_def has_node_def)
    with True found show ?thesis
      by (simp add: handle_invalidated_def queued_turn_busy unwrap_node_None invalidate_scope_None)
  qed
next
  case False
  then show ?thesis
    by (auto simp: handle_invalidated_def queue_turn_def not_queued unwrap_node_None invalidate_scope_None)
qed

lemma failed_None:
  "handle_failed en ts name eid error bytes metrics st = None
     \<longleftrightarrow> \<not> event_refs_ok (Failed name eid error bytes metrics) st"
  by (auto simp: handle_failed_def Let_def unwrap_node_None split: option.split)

lemma started_None:
  "handle_started e sequences fresh st = None \<longleftrightarrow> \<not> has_node st (ex_node e)"
  by (simp add: handle_started_def has_node_def bt_contains_def Let_def split: option.split)

lemma planner_revised_None:
  "handle_planner_revised en g planning_id planning invalidated st = None \<longleftrightarrow> \<not> set invalidated \<subseteq> node_names g"
  by (simp add: handle_planner_revised_def graph_revised_None)

lemma handle_None:
  assumes "\<And>eid chunk. kind \<noteq> Output eid chunk"
  shows "handle en sq ts kind st = None \<longleftrightarrow> \<not> event_refs_ok kind st"
  using assms
  by (cases kind)
     (simp_all add: handle_def finished_None graph_revised_None resolved_None edited_None invalidated_None
        failed_None started_None planner_revised_None handle_blocked_def unwrap_node_None
        del: event_refs_ok.simps(4,5,8))

lemma refs_note_planning [simp]: "event_refs_ok kind (note_planning ev st) = event_refs_ok kind st"
proof -
  have "has_node (note_planning ev st) x = has_node st x" "target_is_busy (note_planning ev st) x = target_is_busy st x"
    "find_attempt p (note_planning ev st) = find_attempt p st"
    "st_superseded_execution_ids (note_planning ev st) = st_superseded_execution_ids st"
    "st_executions (note_planning ev st) = st_executions st" for x p
    by (simp_all add: note_planning_def record_planning_turn_def has_node_def target_is_busy_def find_attempt_def
        split: option.split)
  then show ?thesis by (cases "(kind, st)" rule: event_refs_ok.cases) (simp_all split: option.split)
qed

text \<open>C17: the reducer panics on exactly the events that name a node or an attempt that must exist and
  does not, whatever the rest of the state; every other event is applied.  A result of a superseded
  or unknown attempt needs no node.\<close>

theorem apply_panics_iff: "apply_event en ev st = None \<longleftrightarrow> \<not> event_refs_ok (ev_kind ev) st"
proof (cases "\<exists>eid chunk. ev_kind ev = Output eid chunk")
  case True
  then show ?thesis by (auto simp: apply_event_def Let_def)
next
  case False
  then have "apply_event en ev st = map_option (log_event en ev)
      (handle en (ev_sequence ev) (ev_timestamp ev) (ev_kind ev) (note_planning ev st))"
    by (cases "ev_kind ev") (simp_all add: apply_event_def Let_def)
  with False show ?thesis by (simp add: handle_None)
qed

section \<open>Loops over the graph\<close>

lemma update_node_same [simp]: "update_node name (\<lambda>n. n) st = st"
  by (simp add: update_node_def bt_update_def case_prod_unfold)

lemma nodes_loop: "st_nodes (fold (\<lambda>x. update_node x (f x)) xs st) = fold (\<lambda>x. bt_update x (f x)) xs (st_nodes st)"
  by (induction xs arbitrary: st) (simp_all add: update_node_def)

lemma get_nodes_loop:
  "distinct xs \<Longrightarrow> bt_get (st_nodes (fold (\<lambda>x. update_node x (f x)) xs st)) name
     = (if name \<in> set xs then map_option (f name) (bt_get (st_nodes st) name) else bt_get (st_nodes st) name)"
  by (simp add: nodes_loop bt.get_update_fold)

text \<open>Whether a node was ever executed does not change while nodes are updated.\<close>

lemma never_executed_loop:
  "fold (\<lambda>x st. update_node x (f (never_executed st x) x) st) xs st
     = fold (\<lambda>x. update_node x (f (never_executed st x) x)) xs st"
proof (induction xs arbitrary: st)
  case (Cons x xs)
  have "never_executed (update_node x g st) = never_executed st" for g
    by (auto simp: never_executed_def update_node_def fun_eq_iff)
  then show ?case by (simp add: Cons.IH)
qed simp

lemma distinct_downstream [simp]: "distinct (downstream g x)"
  using downstream_sorted [of g x] by (simp add: strict_sorted_iff)

lemma in_downstream: "y \<in> set (downstream g x) \<longleftrightarrow> (dep_step g)\<^sup>*\<^sup>* x y"
  by (rule down.search_iff)

section \<open>Starting and finishing an attempt\<close>

lemma begin_execution_frame:
  "st_nodes (begin_execution e sequences fresh n st) = bt_update (ex_node e) (started_node sequences) (st_nodes st)"
  "st_graph (begin_execution e sequences fresh n st) = st_graph st"
  "st_executions (begin_execution e sequences fresh n st) = st_executions st @ [e]"
  by (simp_all add: begin_execution_def update_node_def Let_def)

lemma logged_frame [simp]:
  "st_nodes (log_event en ev st) = st_nodes st" "st_executions (log_event en ev st) = st_executions st"
  "st_graph (log_event en ev st) = st_graph st" "st_phase (log_event en ev st) = st_phase st"
  "st_publication (log_event en ev st) = st_publication st" "st_published_heads (log_event en ev st) = st_published_heads st"
  "st_pending_feedback (log_event en ev st) = st_pending_feedback st"
  "st_superseded_execution_ids (log_event en ev st) = st_superseded_execution_ids st"
  "st_feedback_counts (log_event en ev st) = st_feedback_counts st"
  by (simp_all add: log_event_def refresh_metrics_def)

lemma noted_frame [simp]:
  "st_nodes (note_planning ev st) = st_nodes st" "st_executions (note_planning ev st) = st_executions st"
  "st_graph (note_planning ev st) = st_graph st" "st_phase (note_planning ev st) = st_phase st"
  "st_publication (note_planning ev st) = st_publication st" "st_published_heads (note_planning ev st) = st_published_heads st"
  "st_pending_feedback (note_planning ev st) = st_pending_feedback st"
  "st_superseded_execution_ids (note_planning ev st) = st_superseded_execution_ids st"
  "st_feedback_counts (note_planning ev st) = st_feedback_counts st" "st_mergers (note_planning ev st) = st_mergers st"
  "st_approved (note_planning ev st) = st_approved st" "st_paused (note_planning ev st) = st_paused st"
  by (simp_all add: note_planning_def record_planning_turn_def split: option.split)

lemma applyE:
  assumes "apply_event en ev st = Some st'" and "ev_kind ev = kind" and "\<not> is_output kind"
  obtains u where "handle en (ev_sequence ev) (ev_timestamp ev) kind (note_planning ev st) = Some u"
    and "st' = log_event en ev u"
  using assms(1)
proof (cases rule: apply_eventE)
  case (streamed eid chunk)
  with assms(2,3) show ?thesis by auto
next
  case (logged u)
  with assms that show ?thesis by simp
qed

lemma started_effect:
  assumes "apply_event en ev st = Some st'" and "ev_kind ev = Started e sequences fresh"
  shows "st_graph st' = st_graph st \<and> st_executions st' = st_executions st @ [e]
    \<and> (\<forall>name. bt_get (st_nodes st') name =
         (if name = ex_node e then map_option (started_node sequences) (bt_get (st_nodes st) name)
          else if (dep_step (st_graph st))\<^sup>*\<^sup>* (ex_node e) name
          then map_option unblock_node (bt_get (st_nodes st) name)
          else bt_get (st_nodes st) name))"
proof -
  obtain u where "handle_started e sequences fresh (note_planning ev st) = Some u" and st': "st' = log_event en ev u"
    using assms(1) by (rule applyE [OF _ assms(2)]) (simp_all add: handle_def)
  then obtain n where u: "u = fold (\<lambda>name. if name = ex_node e then (\<lambda>st. st) else update_node name unblock_node)
      (downstream (st_graph st) (ex_node e)) (begin_execution e sequences fresh n (note_planning ev st))"
    by (auto simp: handle_started_def Let_def begin_execution_frame split: option.splits)
  have "(\<lambda>name. if name = ex_node e then (\<lambda>st. st) else update_node name unblock_node)
      = (\<lambda>name. update_node name (if name = ex_node e then (\<lambda>n. n) else unblock_node))"
    by (rule ext, rule ext) simp
  note u = u [unfolded this]
  have "st_graph u = st_graph st" and "st_executions u = st_executions st @ [e]"
    unfolding u by (simp_all add: only_nodes_simps [OF only_nodes_fold] begin_execution_frame)
  then show ?thesis
    by (auto simp: st' u get_nodes_loop begin_execution_frame in_downstream btree_simps option.map_ident
        option.map_comp comp_def)
qed

text \<open>Starting an attempt sets its node running, appends the attempt, and returns to waiting exactly
  the blocked nodes that depend on it, directly or not; no other node changes.\<close>

theorem start_frees_dependents:
  assumes "apply_event en ev st = Some st'" and "ev_kind ev = Started e sequences fresh"
  shows "st_executions st' = st_executions st @ [e]
    \<and> (\<forall>name. bt_get (st_nodes st') name =
         (if name = ex_node e then map_option (started_node sequences) (bt_get (st_nodes st) name)
          else if (dep_step (st_graph st))\<^sup>*\<^sup>* (ex_node e) name
          then map_option unblock_node (bt_get (st_nodes st) name)
          else bt_get (st_nodes st) name))"
  using started_effect [OF assms] by (rule conjunct2)

text \<open>Sample runs for the witnesses.\<close>

definition run_of :: "event_kind list \<Rightarrow> snapshot" where
  "run_of kinds = (case apply_all sample_env (map (sample_event 1) kinds) snapshot_default of
     Some st \<Rightarrow> st | None \<Rightarrow> snapshot_default)"

definition runs :: "event_kind list \<Rightarrow> bool" where
  "runs kinds \<longleftrightarrow> apply_all sample_env (map (sample_event 1) kinds) snapshot_default \<noteq> None"

lemma run_of_step:
  assumes "runs (kinds @ [kind])"
  shows "apply_event sample_env (sample_event 1 kind) (run_of kinds) = Some (run_of (kinds @ [kind]))"
  using assms
  by (auto simp: runs_def run_of_def apply_all_def try_fold_append bind_eq_Some_conv split: option.splits)

lemma sample_event_kind [simp]: "ev_kind (sample_event n kind) = kind"
  by (simp add: sample_event_def)

definition sample_created :: "event_kind list" where
  "sample_created = [Created sample_run_graph sample_config (Some ''p'') (Some sample_summary), Approved ''h0'']"

definition sample_blocked :: "event_kind list" where
  "sample_blocked = sample_created @ [Blocked ''b'' ''upstream failed'']"

lemma sample_start_runs: "runs (sample_blocked @ [Started (sample_attempt ''e1'' ''a'') None False])"
  by code_simp

lemma sample_blocked_b: "bt_get (st_nodes (run_of sample_blocked)) ''b''
    = Some (node_state_default\<lparr>ns_status := ''blocked'', ns_error := Some ''upstream failed''\<rparr>)"
  by code_simp

lemma sample_blocked_graph: "st_graph (run_of sample_blocked) = sample_run_graph"
  by code_simp

lemma sample_dep: "(dep_step sample_run_graph)\<^sup>*\<^sup>* ''a'' ''b''"
  by (rule r_into_rtranclp) (simp add: dep_step_def sample_run_graph_def)

theorem start_frees_dependents_witness:
  "map_option ns_status (bt_get (st_nodes (run_of sample_blocked)) ''b'') = Some ''blocked''
   \<and> map_option ns_status (bt_get (st_nodes (run_of (sample_blocked
       @ [Started (sample_attempt ''e1'' ''a'') None False]))) ''b'') = Some ''waiting''"
proof -
  have "ex_node (sample_attempt ''e1'' ''a'') = ''a''" by (simp add: sample_attempt_def)
  with start_frees_dependents [OF run_of_step [OF sample_start_runs] sample_event_kind]
  show ?thesis
    using sample_dep by (simp add: sample_blocked_b sample_blocked_graph unblock_node_def)
qed

text \<open>A late result or failure of a superseded attempt is recorded with the attempt and changes
  nothing else: nodes, graph, phase, publication and pending feedback stay, and the event never
  panics.\<close>

theorem superseded_result_ignored:
  assumes "eid \<in> set (st_superseded_execution_ids st)"
    and "ev_kind ev = Finished eid head out bytes metrics \<or> ev_kind ev = Failed name (Some eid) err bytes metrics"
  shows "\<exists>st'. apply_event en ev st = Some st' \<and> st_nodes st' = st_nodes st \<and> st_graph st' = st_graph st
     \<and> st_phase st' = st_phase st \<and> st_publication st' = st_publication st
     \<and> st_pending_feedback st' = st_pending_feedback st
     \<and> st_superseded_execution_ids st' = st_superseded_execution_ids st"
  using assms
  by (auto simp: apply_event_def handle_def handle_finished_def handle_failed_def Let_def split: option.split)

definition sample_restarted :: "event_kind list" where
  "sample_restarted = sample_created @ [Started (sample_attempt ''e1'' ''a'') None False,
     Started (sample_attempt ''e2'' ''a'') None True]"

lemma sample_restarted_superseded: "''e1'' \<in> set (st_superseded_execution_ids (run_of sample_restarted))"
  by code_simp

theorem superseded_result_ignored_witness:
  "\<exists>st'. apply_event sample_env (sample_event 9 (Finished ''e1'' ''late'' [] 0 None)) (run_of sample_restarted) = Some st'
     \<and> st_nodes st' = st_nodes (run_of sample_restarted)"
  using superseded_result_ignored [OF sample_restarted_superseded, of "sample_event 9 (Finished ''e1'' ''late'' [] 0 None)"
      "''late''" "[]" 0 None "[]" "[]" sample_env]
  by auto

text \<open>Where a loop may visit a node twice, the second visit of the inherited workspaces changes nothing.\<close>

lemma get_nodes_loop_repeated:
  assumes "\<And>x n. f x (f x n) = f x n"
  shows "bt_get (st_nodes (fold (\<lambda>x. update_node x (f x)) xs st)) name
     = (if name \<in> set xs then map_option (f name) (bt_get (st_nodes st) name) else bt_get (st_nodes st) name)"
proof (induction xs arbitrary: st)
  case (Cons x xs)
  have "bt_get (st_nodes (update_node x (f x) st)) name
      = (if name = x then map_option (f x) (bt_get (st_nodes st) x) else bt_get (st_nodes st) name)"
    by (simp add: update_node_def btree_simps)
  then show ?case
    by (auto simp: Cons.IH option.map_comp comp_def assms intro: option.map_cong)
qed simp

lemma inherited_twice: "inherited_node head result (inherited_node head result n) = inherited_node head result n"
  by (simp add: inherited_node_def)

lemma settle_get:
  assumes "bt_get (st_nodes st) v = Some n"
    and "changed \<longleftrightarrow> (\<exists>b. ns_baseline_head n = Some b \<and> b \<noteq> head)"
  shows "bt_get (st_nodes (settle_node v lineage head result st)) d =
    (if d = v then Some (completed_node head result n)
     else map_option ((if changed \<and> \<not> ns_shared_workspace n \<and> (dep_step (st_graph st))\<^sup>*\<^sup>* v d
             then outdated_node (never_executed st d) else (\<lambda>n. n))
           \<circ> (if d \<in> set lineage then inherited_node head result else (\<lambda>n. n)))
         (bt_get (st_nodes st) d))"
proof -
  let ?s1 = "update_node v (completed_node head result) st"
  let ?s2 = "fold (\<lambda>i. update_node i (inherited_node head result)) (filter (\<lambda>l. l \<noteq> v) lineage) ?s1"
  let ?deps = "if changed \<and> \<not> ns_shared_workspace n
    then filter (\<lambda>d. d \<noteq> v) (downstream (st_graph st) v) else []"
  have changed: "(case Option.bind (bt_get (st_nodes st) v) ns_baseline_head of
      Some baseline \<Rightarrow> baseline \<noteq> head | None \<Rightarrow> False) = changed"
    using assms by (auto split: option.split)
  have s1: "bt_get (st_nodes ?s1) d = (if d = v then Some (completed_node head result n) else bt_get (st_nodes st) d)" for d
    using assms(1) by (simp add: update_node_def btree_simps)
  have s2: "bt_get (st_nodes ?s2) d = (if d = v then Some (completed_node head result n)
      else map_option (if d \<in> set lineage then inherited_node head result else (\<lambda>n. n)) (bt_get (st_nodes st) d))" for d
    by (subst get_nodes_loop_repeated) (auto simp: inherited_twice s1 option.map_ident)
  have frame: "never_executed ?s2 = never_executed st"
    by (simp add: never_executed_def fun_eq_iff only_nodes_simps [OF only_nodes_fold] only_nodes_simps [OF only_nodes_update])
  have unfolded: "st_nodes (settle_node v lineage head result st)
      = st_nodes (fold (\<lambda>d st. update_node d (outdated_node (never_executed st d)) st) ?deps ?s2)"
    unfolding settle_node_def Let_def changed using assms(1) by simp
  have loop: "fold (\<lambda>d st. update_node d (outdated_node (never_executed st d)) st) ?deps ?s2
      = fold (\<lambda>d. update_node d (outdated_node (never_executed st d))) ?deps ?s2"
    using never_executed_loop [of "\<lambda>b d. outdated_node b" ?deps ?s2] by (simp add: frame)
  show ?thesis
    unfolding unfolded loop by (subst get_nodes_loop) (auto simp: s2 in_downstream option.map_comp comp_def option.map_ident)
qed

text \<open>When an attempt finishes, its node is completed with the new head; only if the head differs
  from the one the follow-up started from, and the workspace is not shared, every node that depends
  on it loses its result and runs again (a completed one under a new revision); nodes that share its
  workspace take over the new head; all others stay as they are.\<close>

theorem finish_reaches:
  assumes "apply_event en ev st = Some st'" and "ev_kind ev = Finished eid head out bytes metrics"
    and "find_attempt (\<lambda>e. ex_id e = eid) st = Some e" and "eid \<notin> set (st_superseded_execution_ids st)"
    and "bt_get (st_nodes st) (ex_node e) = Some n" and "ns_pending_messages n = []"
    and "bt_get (st_nodes st) d = Some nd" and "d \<noteq> ex_node e"
  shows "map_option ns_status (bt_get (st_nodes st') (ex_node e)) = Some ''completed''
    \<and> map_option ns_head (bt_get (st_nodes st') (ex_node e)) = Some (Some head)
    \<and> (\<exists>nd'. bt_get (st_nodes st') d = Some nd' \<and>
        (if ns_baseline_head n \<notin> {None, Some head} \<and> \<not> ns_shared_workspace n
            \<and> (dep_step (st_graph st))\<^sup>*\<^sup>* (ex_node e) d
         then ns_status nd' \<in> {''waiting'', ''dirty''} \<and> ns_head nd' = None \<and> ns_instruction nd' = []
           \<and> (ns_status nd \<noteq> ''completed'' \<or> (ns_status nd' = ''dirty'' \<and> ns_revision nd' = ns_revision nd + 1))
         else if d \<in> set (ex_workspace_lineage e) \<and> ns_status nd = ''completed''
         then nd' = nd\<lparr>ns_head := Some head, ns_result := ex_result e\<rparr>
         else nd' = nd))"
proof -
  define changed where "changed \<longleftrightarrow> ns_baseline_head n \<notin> {None, Some head}"
  then have baseline: "changed \<longleftrightarrow> (\<exists>b. ns_baseline_head n = Some b \<and> b \<noteq> head)" by auto
  obtain u where u: "handle_finished en (ev_timestamp ev) eid head out bytes metrics (note_planning ev st) = Some u"
    and st': "st' = log_event en ev u"
    using assms(1) by (rule applyE [OF _ assms(2)]) (simp_all add: handle_def)
  let ?s = "update_attempt (\<lambda>e. ex_id e = eid) (finished_execution en head out bytes metrics (ev_timestamp ev))
      (note_planning ev st)"
  have e: "find_attempt (\<lambda>e. ex_id e = eid) (note_planning ev st) = Some e"
    using assms(3) by (simp add: find_attempt_def)
  have "requeue_message (ex_node e) head (settle_node (ex_node e) (ex_workspace_lineage e) head (ex_result e) ?s) = Some u"
    using u e assms(4) by (simp add: handle_finished_def finish_node_def Let_def)
  moreover have get: "bt_get (st_nodes (settle_node (ex_node e) (ex_workspace_lineage e) head (ex_result e) ?s)) d =
    (if d = ex_node e then Some (completed_node head (ex_result e) n)
     else map_option ((if changed \<and> \<not> ns_shared_workspace n \<and> (dep_step (st_graph st))\<^sup>*\<^sup>* (ex_node e) d
             then outdated_node (never_executed ?s d) else (\<lambda>n. n))
           \<circ> (if d \<in> set (ex_workspace_lineage e) then inherited_node head (ex_result e) else (\<lambda>n. n)))
         (bt_get (st_nodes st) d))" for d
    using settle_get [of ?s "ex_node e" n changed head] assms(5) baseline by simp
  moreover have "ns_pending_messages (completed_node head (ex_result e) n) = []"
    using assms(6) by (simp add: completed_node_def)
  ultimately have "u = settle_node (ex_node e) (ex_workspace_lineage e) head (ex_result e) ?s"
    by (simp add: requeue_message_def)
  then have nodes: "bt_get (st_nodes st') x
      = bt_get (st_nodes (settle_node (ex_node e) (ex_workspace_lineage e) head (ex_result e) ?s)) x" for x
    by (simp add: st')
  show ?thesis
    unfolding nodes get changed_def [symmetric] using assms(7,8)
    by (simp add: completed_node_def inherited_node_def outdated_node_def Let_def)
qed

text \<open>Both nodes finish, the first takes a follow-up and runs again.\<close>

definition sample_followup :: "event_kind list" where
  "sample_followup = sample_created @ [Started (sample_attempt ''e1'' ''a'') None False, Finished ''e1'' ''h1'' [] 0 None,
     Started (sample_attempt ''e2'' ''b'') None False, Finished ''e2'' ''h2'' [] 0 None,
     Invalidated [''a''] ''a'' ''again'' True None None False False, Started (sample_attempt ''e3'' ''a'') None False]"

lemma sample_followup_runs: "runs (sample_followup @ [Finished ''e3'' ''h3'' [] 0 None])"
  by code_simp

lemma sample_followup_facts:
  "find_attempt (\<lambda>e. ex_id e = ''e3'') (run_of sample_followup) = Some (sample_attempt ''e3'' ''a'')"
  "''e3'' \<notin> set (st_superseded_execution_ids (run_of sample_followup))"
  "st_graph (run_of sample_followup) = sample_run_graph"
  "bt_get (st_nodes (run_of sample_followup)) ''a'' = Some (node_state_default\<lparr>ns_status := ''running'',
     ns_revision := 2, ns_head := Some ''h1'', ns_baseline_head := Some ''h1'', ns_instruction := ''again'',
     ns_human_instruction := True\<rparr>)"
  "bt_get (st_nodes (run_of sample_followup)) ''b''
     = Some (node_state_default\<lparr>ns_status := ''completed'', ns_head := Some ''h2''\<rparr>)"
  by code_simp+

theorem finish_reaches_witness:
  "map_option ns_status (bt_get (st_nodes (run_of sample_followup)) ''b'') = Some ''completed''
   \<and> map_option ns_status (bt_get (st_nodes (run_of (sample_followup @ [Finished ''e3'' ''h3'' [] 0 None]))) ''b'')
     = Some ''dirty''"
proof -
  have a: "ex_node (sample_attempt ''e3'' ''a'') = ''a''" by (simp add: sample_attempt_def)
  note fact = finish_reaches [OF run_of_step [OF sample_followup_runs] sample_event_kind
      sample_followup_facts(1,2), unfolded a, OF sample_followup_facts(4) _ sample_followup_facts(5)]
  from fact show ?thesis
    using sample_dep by (auto simp: sample_followup_facts(3,5) node_state_default_def)
qed

end
