(* ===== verification/Reducer_Growth.thy ===== *)
theory Reducer_Growth
  imports Reducer_Steps
begin

text \<open>
  What holds between a node before and after any event that keeps the graph.  The interface
  \<open>node_relation\<close> asks for a preorder on node states that every node operation of the reducer
  respects; its clients get the relation between the node maps before and after each handler, and so
  along a run.  One instance orders nodes by revision: a revision tells one generation of a node's
  work from the next, and late messages and repairs are matched against it.
\<close>

section \<open>The interface\<close>

definition nodes_le :: "(node_state \<Rightarrow> node_state \<Rightarrow> bool) \<Rightarrow> snapshot \<Rightarrow> snapshot \<Rightarrow> bool" where
  "nodes_le rel st st' \<longleftrightarrow> bt_keys (st_nodes st') = bt_keys (st_nodes st)
     \<and> (\<forall>name n n'. bt_get (st_nodes st) name = Some n \<longrightarrow> bt_get (st_nodes st') name = Some n' \<longrightarrow> rel n n')"

text \<open>A node operation that moves along the relation.\<close>

definition moves :: "(node_state \<Rightarrow> node_state \<Rightarrow> bool) \<Rightarrow> (node_state \<Rightarrow> node_state) \<Rightarrow> bool" where
  "moves rel f \<longleftrightarrow> (\<forall>n. rel n (f n))"

lemma movesI: "(\<And>n. rel n (f n)) \<Longrightarrow> moves rel f"
  by (simp add: moves_def)

text \<open>The reducer restricted to the events that keep the graph.\<close>

definition steady_event :: "env \<Rightarrow> event \<Rightarrow> snapshot \<Rightarrow> snapshot option" where
  "steady_event en ev st = (if replaces_graph (ev_kind ev) then None else apply_event en ev st)"

locale node_relation =
  fixes rel :: "node_state \<Rightarrow> node_state \<Rightarrow> bool"
  assumes rel_refl: "rel n n"
    and rel_trans: "rel n k \<Longrightarrow> rel k m \<Longrightarrow> rel n m"
    and moves_nodes:
      "moves rel (snapshotted_node h head result)" "moves rel (snapshot_invalidated fresh)"
      "moves rel (recovered_node a b c d)" "moves rel (started_node sequences)" "moves rel unblock_node"
      "moves rel (completed_node head result)" "moves rel (inherited_node head result)"
      "moves rel (outdated_node fresh)" "moves rel (failed_node error)" "moves rel (blocked_node error)"
      "moves rel (resolved_node target fresh head)"
      "moves rel (queue_message sequence instruction images source_direct shared)"
      "moves rel (source_direct_node human instruction images)" "moves rel (invalidated_node target human fresh)"
      "moves rel (target_node instruction human images workspace shared)" "moves rel bump_waiting"
      "moves rel (edited_node target before from instruction images)"
    and rel_model: "rel n (n\<lparr>ns_model_config := settings, ns_model_retry := retry\<rparr>)"
    and rel_requeued: "rel n (n\<lparr>ns_status := ''dirty'', ns_baseline_head := base, ns_human_instruction := True,
      ns_instruction := instruction, ns_instruction_images := images, ns_shared_workspace := shared\<rparr>)"
    and rel_repaired: "rel n (n\<lparr>ns_status := ''dirty'', ns_error := None, ns_revision := Suc (ns_revision n)\<rparr>)"
    and rel_result: "rel n (n\<lparr>ns_head := Some head, ns_result := result\<rparr>)"
begin

lemma moved_same: "st_nodes st' = st_nodes st \<Longrightarrow> nodes_le rel st st'"
  by (simp add: nodes_le_def rel_refl)

lemma moved_refl [simp]: "nodes_le rel st st"
  by (rule moved_same) simp

lemma moved_trans: "nodes_le rel st u \<Longrightarrow> nodes_le rel u w \<Longrightarrow> nodes_le rel st w"
proof -
  assume le: "nodes_le rel st u" "nodes_le rel u w"
  have keys: "bt_get (st_nodes u) name \<noteq> None \<longleftrightarrow> bt_get (st_nodes st) name \<noteq> None" for name
    using le(1) bt.set_keys [of "st_nodes u"] bt.set_keys [of "st_nodes st"] by (auto simp: nodes_le_def)
  show ?thesis
    unfolding nodes_le_def
  proof (intro conjI allI impI)
    show "bt_keys (st_nodes w) = bt_keys (st_nodes st)" using le by (simp add: nodes_le_def)
    fix name n n' assume n: "bt_get (st_nodes st) name = Some n" "bt_get (st_nodes w) name = Some n'"
    with keys obtain k where "bt_get (st_nodes u) name = Some k" by blast
    with n le show "rel n n'" unfolding nodes_le_def by (meson rel_trans)
  qed
qed

lemma moved_update: "moves rel f \<Longrightarrow> nodes_le rel st (update_node name f st)"
  by (auto simp: nodes_le_def update_node_def btree_simps moves_def rel_refl split: if_splits)

lemma moved_unwrap: "moves rel f \<Longrightarrow> unwrap_node name f st = Some st' \<Longrightarrow> nodes_le rel st st'"
  by (auto simp: unwrap_node_def moved_update split: if_splits)

lemma moved_fold: "(\<And>x s. nodes_le rel s (f x s)) \<Longrightarrow> nodes_le rel st (fold f xs st)"
  by (induction xs arbitrary: st) (auto intro: moved_trans)

lemma moved_nodes_loop: "(\<And>x s. moves rel (f x s)) \<Longrightarrow> nodes_le rel st (fold (\<lambda>x s. update_node x (f x s) s) xs st)"
  by (rule moved_fold) (rule moved_update)

lemma moved_nodes_loop': "(\<And>x. moves rel (f x)) \<Longrightarrow> nodes_le rel st (fold (\<lambda>x. update_node x (f x)) xs st)"
  by (rule moved_fold) (rule moved_update)

lemma moved_unwrap_loop:
  "(\<And>x s. moves rel (f x s)) \<Longrightarrow> try_fold (\<lambda>x s. unwrap_node x (f x s) s) xs st = Some st' \<Longrightarrow> nodes_le rel st st'"
proof (induction xs arbitrary: st)
  case (Cons x xs)
  then obtain u where "unwrap_node x (f x st) st = Some u" "try_fold (\<lambda>x s. unwrap_node x (f x s) s) xs u = Some st'"
    by (auto split: option.splits)
  with Cons show ?case by (blast intro: moved_trans moved_unwrap)
qed simp

lemma moved_fields [simp]:
  "nodes_le rel st (u\<lparr>st_phase := a\<rparr>) = nodes_le rel st u" "nodes_le rel st (u\<lparr>st_publication := b\<rparr>) = nodes_le rel st u"
  "nodes_le rel st (u\<lparr>st_stop_requested := c\<rparr>) = nodes_le rel st u"
  "nodes_le rel st (u\<lparr>st_model_config := d\<rparr>) = nodes_le rel st u"
  "nodes_le rel (u\<lparr>st_stop_requested := c\<rparr>) st = nodes_le rel u st"
  "nodes_le rel (u\<lparr>st_publication := b\<rparr>) st = nodes_le rel u st"
  "nodes_le rel (u\<lparr>st_model_config := d\<rparr>) st = nodes_le rel u st"
  "nodes_le rel (u\<lparr>st_superseded_execution_ids := e\<rparr>) st = nodes_le rel u st"
  by (simp_all add: nodes_le_def)

section \<open>The handlers\<close>

lemma moved_snapshotted: "nodes_le rel st (handle_workspace_snapshotted eid head result invalidated detached st)"
proof -
  let ?loop = "\<lambda>u. fold (\<lambda>name st. update_node name (snapshot_invalidated (never_executed st name)) st) invalidated u"
  let ?own = "\<lambda>h xs es. fold (\<lambda>name. update_node name (snapshotted_node h head result)) xs (st\<lparr>st_executions := es\<rparr>)"
  have own: "nodes_le rel st (?own h xs es)" for xs h es
    by (rule moved_trans [OF moved_same moved_nodes_loop']) (simp_all add: moves_nodes)
  have loop: "nodes_le rel u (?loop u)" for u
    by (rule moved_nodes_loop) (rule moves_nodes)
  have both: "nodes_le rel st (?loop (?own h xs es))" for xs h es by (rule moved_trans [OF own loop])
  have "nodes_le rel st (st\<lparr>st_executions := es\<rparr>)" for es by (rule moved_same) simp
  with loop both show ?thesis
    unfolding handle_workspace_snapshotted_def Let_def
    by (simp del: fold_append split: option.split if_split)
qed

lemma moved_models:
  "nodes_le rel st (handle_failed_models names settings st)" "nodes_le rel st (handle_node_models names settings st)"
  "nodes_le rel st (handle_conversation_models models names st)"
  "nodes_le rel st (handle_recovery_queued names continuation_nodes resume_failed source_direct_nodes st)"
proof -
  have agent: "nodes_le rel st (set_agent_model settings st)"
    by (rule moved_same) (simp add: set_agent_model_def Let_def)
  show "nodes_le rel st (handle_failed_models names settings st)"
    unfolding handle_failed_models_def
    by (rule moved_trans [OF agent moved_nodes_loop']) (simp add: moves_def rel_model rel_refl)
  show "nodes_le rel st (handle_node_models names settings st)"
    unfolding handle_node_models_def
    by (rule moved_trans [OF agent moved_nodes_loop]) (simp add: moves_def rel_model rel_refl)
  have "nodes_le rel st (st\<lparr>st_model_config := Some models\<rparr>)" by simp
  then show "nodes_le rel st (handle_conversation_models models names st)"
    unfolding handle_conversation_models_def Let_def
    by (rule moved_trans [OF _ moved_nodes_loop]) (simp add: moves_def rel_model rel_refl)
  show "nodes_le rel st (handle_recovery_queued names continuation_nodes resume_failed source_direct_nodes st)"
    unfolding handle_recovery_queued_def by (rule moved_nodes_loop) (rule moves_nodes)
qed

lemma moved_started: "handle_started e sequences fresh st = Some st' \<Longrightarrow> nodes_le rel st st'"
proof -
  assume "handle_started e sequences fresh st = Some st'"
  then obtain n where st': "st' = fold (\<lambda>name. if name = ex_node e then (\<lambda>st. st) else update_node name unblock_node)
      (downstream (st_graph (begin_execution e sequences fresh n st)) (ex_node e)) (begin_execution e sequences fresh n st)"
    by (auto simp: handle_started_def Let_def split: option.splits)
  have "nodes_le rel st (begin_execution e sequences fresh n st)"
    by (rule moved_trans [OF moved_update moved_same, of "started_node sequences"])
       (auto simp: begin_execution_def Let_def moves_nodes)
  moreover have "nodes_le rel u (fold (\<lambda>name. if name = ex_node e then (\<lambda>st. st) else update_node name unblock_node) xs u)" for xs u
    by (rule moved_fold) (auto intro: moved_update moves_nodes)
  ultimately show ?thesis unfolding st' by (rule moved_trans)
qed

lemma moved_settle: "nodes_le rel st (settle_node name lineage head result st)"
proof -
  let ?s1 = "update_node name (completed_node head result) st"
  let ?s2 = "fold (\<lambda>i. update_node i (inherited_node head result)) (filter (\<lambda>l. l \<noteq> name) lineage) ?s1"
  have "nodes_le rel st ?s1" by (rule moved_update) (rule moves_nodes)
  moreover have "nodes_le rel ?s1 ?s2" by (rule moved_nodes_loop') (rule moves_nodes)
  ultimately have s2: "nodes_le rel st ?s2" by (rule moved_trans)
  have "nodes_le rel ?s2 (fold (\<lambda>d st. update_node d (outdated_node (never_executed st d)) st) ds ?s2)" for ds
    by (rule moved_nodes_loop) (rule moves_nodes)
  with s2 have "nodes_le rel st (fold (\<lambda>d st. update_node d (outdated_node (never_executed st d)) st) ds ?s2)" for ds
    by (rule moved_trans)
  with s2 show ?thesis by (simp add: settle_node_def Let_def)
qed

lemma moved_requeue: "requeue_message name head st = Some st' \<Longrightarrow> nodes_le rel st st'"
  by (auto simp: requeue_message_def Let_def split: option.splits list.splits if_splits
      intro!: moved_update movesI rel_requeued)

lemma moved_attempt [simp]: "nodes_le rel (update_attempt p f st) st' = nodes_le rel st st'"
  "nodes_le rel st' (update_attempt p f st) = nodes_le rel st' st"
  by (simp_all add: nodes_le_def)

lemma moved_finished: "handle_finished en ts eid head out bytes metrics st = Some st' \<Longrightarrow> nodes_le rel st st'"
proof -
  have "nodes_le rel u st'" if "finish_node name lineage head result u = Some st'" for name lineage result u
    using that unfolding finish_node_def by (blast intro: moved_trans moved_settle moved_requeue)
  then show "handle_finished en ts eid head out bytes metrics st = Some st' \<Longrightarrow> nodes_le rel st st'"
    by (fastforce simp: handle_finished_def Let_def split: option.splits if_splits)
qed

lemma moved_failed: "handle_failed en ts name eid error bytes metrics st = Some st' \<Longrightarrow> nodes_le rel st st'"
  by (auto simp: handle_failed_def Let_def moves_nodes split: if_splits dest!: moved_unwrap [rotated])

lemma moved_resolved: "handle_workspace_resolved ts eid head names st = Some st' \<Longrightarrow> nodes_le rel st st'"
proof -
  assume "handle_workspace_resolved ts eid head names st = Some st'"
  then obtain es target z where z: "try_fold (\<lambda>name st. unwrap_node name
      (resolved_node (name = target) (never_executed st name) head) st) names (st\<lparr>st_executions := es, st_publication := None\<rparr>) = Some z"
    and st': "st' = z\<lparr>st_phase := run_or_pause z\<rparr>"
    by (auto simp: handle_workspace_resolved_def Let_def split: option.splits)
  have "nodes_le rel (st\<lparr>st_executions := es, st_publication := None\<rparr>) z"
    by (rule moved_unwrap_loop [OF _ z]) (rule moves_nodes)
  with moved_same [of "st\<lparr>st_executions := es, st_publication := None\<rparr>" st] have "nodes_le rel st z"
    by (auto intro: moved_trans)
  then show ?thesis by (simp add: st')
qed

lemma moved_scope:
  assumes "invalidate_scope names target instruction human images workspace shared st = Some st'"
  shows "nodes_le rel st st'"
proof -
  from assms obtain z w where z: "try_fold (\<lambda>name st. unwrap_node name
      (invalidated_node (name = target) human (never_executed st name)) st) names (st\<lparr>st_publication := None\<rparr>) = Some z"
    and w: "unwrap_node target (target_node instruction human images workspace shared) z = Some w"
    and st': "st' = w\<lparr>st_phase := run_or_pause w\<rparr>"
    by (auto simp: invalidate_scope_def split: option.splits)
  have "nodes_le rel (st\<lparr>st_publication := None\<rparr>) z" by (rule moved_unwrap_loop [OF _ z]) (rule moves_nodes)
  moreover have "nodes_le rel z w" by (rule moved_unwrap [OF _ w]) (rule moves_nodes)
  ultimately have "nodes_le rel (st\<lparr>st_publication := None\<rparr>) w" by (rule moved_trans)
  then show ?thesis by (simp add: st')
qed

lemma moved_invalidated:
  assumes "handle_invalidated sequence names target instruction human images workspace shared source_direct st = Some st'"
  shows "nodes_le rel st st'"
proof -
  from assms obtain u where u: "queue_turn sequence target instruction human images shared source_direct
      (st\<lparr>st_stop_requested := False\<rparr>) = Some u"
    and rest: "(if turn_stays_queued target instruction human u then Some (update_node target bump_waiting u)
          else if source_direct then
            map_option (\<lambda>st. st\<lparr>st_phase := (if st_paused st then ''paused'' else ''followup'')\<rparr>)
              (unwrap_node target (source_direct_node human instruction images) u)
          else invalidate_scope names target instruction human images workspace shared u) = Some st'"
    by (auto simp: handle_invalidated_def split: option.splits)
  from u have "nodes_le rel (st\<lparr>st_stop_requested := False\<rparr>) u"
    by (auto simp: queue_turn_def moves_nodes split: if_splits dest!: moved_unwrap [rotated])
  moreover have "nodes_le rel u st'"
  proof (cases "turn_stays_queued target instruction human u")
    case True
    with rest have "st' = update_node target bump_waiting u" by simp
    then show ?thesis using moved_update [OF moves_nodes(16)] by simp
  next
    case False
    show ?thesis
    proof (cases source_direct)
      case True
      with False rest obtain w where w: "unwrap_node target (source_direct_node human instruction images) u = Some w"
        and st': "st' = w\<lparr>st_phase := (if st_paused w then ''paused'' else ''followup'')\<rparr>"
        by auto
      from moved_unwrap [OF moves_nodes(13) w] show ?thesis by (simp add: st')
    next
      case other: False
      with False rest show ?thesis by (simp add: moved_scope)
    qed
  qed
  ultimately have "nodes_le rel (st\<lparr>st_stop_requested := False\<rparr>) st'" by (rule moved_trans)
  then show ?thesis by simp
qed

lemma moved_edited:
  assumes "handle_conversation_edited names target instruction images from first_turn st = Some st'"
  shows "nodes_le rel st st'"
proof (cases "find (\<lambda>e. ex_id e = from) (st_executions st)")
  case None
  with assms show ?thesis by (simp add: handle_conversation_edited_def)
next
  case (Some anchor)
  let ?u = "st\<lparr>st_stop_requested := False, st_superseded_execution_ids := supersede
      (filter (\<lambda>e. ex_node e \<in> set names \<and> ex_started_at anchor \<le> ex_started_at e) (st_executions st))
      (st_superseded_execution_ids st), st_publication := None\<rparr>"
  let ?s = "if first_turn then edit_first_turn target instruction ?u else ?u"
  from assms Some obtain z where z: "try_fold (\<lambda>name. unwrap_node name
      (edited_node (name = target) (ex_before anchor) from instruction images)) names ?s = Some z"
    and st': "st' = z\<lparr>st_phase := run_or_pause z\<rparr>"
    by (auto simp: handle_conversation_edited_def Let_def)
  have "st_nodes ?s = st_nodes st" by (simp add: edit_first_turn_def Let_def)
  then have "nodes_le rel st ?s" by (rule moved_same)
  moreover have "nodes_le rel ?s z" by (rule moved_unwrap_loop [OF _ z]) (rule moves_nodes)
  ultimately have "nodes_le rel st z" by (rule moved_trans)
  then show ?thesis by (simp add: st')
qed

lemma moved_merger:
  "nodes_le rel st (handle_merger_finished en ts eid head bytes metrics st)"
  "nodes_le rel st (handle_merger_failed en ts eid error bytes metrics st)"
proof -
  have recover: "nodes_le rel u (recover_repaired name revision u)" for u name revision
    by (auto simp: recover_repaired_def Let_def intro!: moved_update movesI rel_repaired split: option.split)
  have "nodes_le rel st (case r of None \<Rightarrow> u | Some (name, revision) \<Rightarrow> recover_repaired name revision u)"
    if "st_nodes u = st_nodes st" for r u
    using that moved_trans [OF moved_same recover] by (auto simp: moved_same split: option.split)
  then show "nodes_le rel st (handle_merger_finished en ts eid head bytes metrics st)"
    unfolding handle_merger_finished_def Let_def by simp
  have "nodes_le rel st (case t of None \<Rightarrow> u | Some name \<Rightarrow> update_node name (blocked_node e) u)"
    if "st_nodes u = st_nodes st" for t u e
    using that moved_trans [OF moved_same moved_update]
    by (auto simp: moved_same moves_nodes split: option.split)
  then show "nodes_le rel st (handle_merger_failed en ts eid error bytes metrics st)"
    unfolding handle_merger_failed_def Let_def by simp
qed

lemma moved_result_finished: "nodes_le rel st (handle_result_finished d st)"
proof -
  have get: "bt_get (map (\<lambda>(name, n). (name, f n)) m) k = map_option f (bt_get m k)"
    for f :: "node_state \<Rightarrow> node_state" and m and k :: string by (induction m) (auto simp: bt_get_def)
  have keys: "bt_keys (map (\<lambda>(name, n). (name, f n)) m) = bt_keys m"
    for f :: "node_state \<Rightarrow> node_state" and m :: "(string, node_state) btree_map"
    by (induction m) (auto simp: bt_keys_def)
  have "nodes_le rel st u" if "moves rel f" "st_nodes u = map (\<lambda>(name, n). (name, f n)) (st_nodes st)" for u f
    using that(1) by (auto simp: nodes_le_def that(2) get keys moves_def)
  note step = this
  show ?thesis
  proof (cases "running_result (cr_generation (rd_result d)) st")
    case None
    then show ?thesis by (simp add: handle_result_finished_def)
  next
    case (Some e)
    show ?thesis
      by (rule step [where f = "\<lambda>n. if ns_status n = ''completed''
            \<and> (case ns_result n of Some r \<Rightarrow> cr_layout r = Some (rd_workspace d) | None \<Rightarrow> False)
          then n\<lparr>ns_head := Some (cr_code_ref (rd_result d)), ns_result := Some (rd_result d)\<rparr> else n"])
         (simp_all add: moves_def handle_result_finished_def Some rel_result rel_refl)
  qed
qed

lemma moved_plain:
  "nodes_le rel st (handle_planning_started goal c planning plan_type st)"
  "nodes_le rel st (handle_planner_turn planning st)" "nodes_le rel st (handle_review_started planning st)"
  "nodes_le rel st (handle_review_finished planning approval st)" "nodes_le rel st (handle_turn_aborted planning st)"
  "nodes_le rel st (handle_planning_failed planning st)" "nodes_le rel st (handle_review_progress g st)"
  "nodes_le rel st (handle_preview_progress g st)" "nodes_le rel st (handle_approved base st)"
  "nodes_le rel st (handle_execution_stop ids st)" "nodes_le rel st (handle_paused p st)"
  "nodes_le rel st (handle_rejected st)" "nodes_le rel st (resume_attention st)"
  "nodes_le rel st (handle_policy_requested st)" "nodes_le rel st (handle_policy_resolved environment st)"
  "nodes_le rel st (handle_result_started input args st)" "nodes_le rel st (handle_result_prepared input' st)"
  "nodes_le rel st (handle_result_failed generation error st)"
  "nodes_le rel st (handle_planner_edited instruction first_turn st)" "nodes_le rel st (handle_feedback_queued f st)"
  "nodes_le rel st (handle_feedback_resolved eid st)" "nodes_le rel st (handle_feedback from to accepted st)"
  "nodes_le rel st (handle_publication_started ts repository heads st)"
  "nodes_le rel st (handle_publication_completed ts head st)" "nodes_le rel st (handle_publication_failed error st)"
  "nodes_le rel st (handle_merger_started e st)" "nodes_le rel st (handle_settled st)"
  "nodes_le rel st (handle_input_recorded eid input' st)" "nodes_le rel st (handle_result_recorded eid input' st)"
  "nodes_le rel st (handle_prepared eid head st)"
  by (rule moved_same, simp add: plain_defs handle_input_recorded_def handle_result_recorded_def
      handle_prepared_def Let_def split: option.split)+

lemma moved_single_fields:
  "nodes_le rel st (st\<lparr>st_plan_type := a\<rparr>)" "nodes_le rel st (st\<lparr>st_environment_baseline := b\<rparr>)"
  "nodes_le rel st (st\<lparr>st_published_result := c\<rparr>)"
  by (rule moved_same, simp)+

lemma moved_blocked: "handle_blocked name error st = Some st' \<Longrightarrow> nodes_le rel st st'"
  unfolding handle_blocked_def by (rule moved_unwrap [OF moves_nodes(10)])

lemma handle_moved:
  assumes "handle en sq ts kind st = Some st'" and "\<not> replaces_graph kind"
  shows "nodes_le rel st st'"
  using assms
  by (cases kind)
     (auto simp: handle_def moved_plain moved_snapshotted moved_models moved_merger
        moved_result_finished moved_single_fields
      dest: moved_started moved_finished moved_failed moved_resolved moved_invalidated
        moved_edited moved_blocked)

lemma steady_nodes:
  assumes "steady_event en ev st = Some st'"
  shows "nodes_le rel st st'"
proof -
  from assms have ev: "apply_event en ev st = Some st'" and steady: "\<not> replaces_graph (ev_kind ev)"
    by (auto simp: steady_event_def split: if_splits)
  have noted: "st_nodes (note_planning ev st) = st_nodes st"
    by (simp add: note_planning_def record_planning_turn_def split: option.split)
  from ev show ?thesis
  proof (cases rule: apply_eventE)
    case (streamed eid chunk)
    then have "st_nodes st' = st_nodes st" by (simp add: refresh_metrics_def handle_output_def noted)
    then show ?thesis by (rule moved_same)
  next
    case (logged u)
    have "nodes_le rel st (note_planning ev st)" by (rule moved_same [OF noted])
    also have "nodes_le rel (note_planning ev st) u" by (rule handle_moved [OF logged(2) steady])
    finally (moved_trans) have "nodes_le rel st u" .
    then show ?thesis by (simp add: logged(3) nodes_le_def log_event_def refresh_metrics_def)
  qed
qed

end

sublocale node_relation \<subseteq> steady: step_order "steady_event en" "nodes_le rel" for en
  by unfold_locales (auto intro: moved_trans steady_nodes)

section \<open>Invariants of single nodes\<close>

text \<open>
  A predicate on node states that the node operations keep and that new and revised nodes satisfy
  holds for all nodes of a run.
\<close>

definition all_nodes :: "(node_state \<Rightarrow> bool) \<Rightarrow> snapshot \<Rightarrow> bool" where
  "all_nodes holds st \<longleftrightarrow> (\<forall>name n. bt_get (st_nodes st) name = Some n \<longrightarrow> holds n)"

lemma all_nodes_moved: "nodes_le (\<lambda>n n'. holds n \<longrightarrow> holds n') st st' \<Longrightarrow> all_nodes holds st \<Longrightarrow> all_nodes holds st'"
proof -
  assume le: "nodes_le (\<lambda>n n'. holds n \<longrightarrow> holds n') st st'" and all: "all_nodes holds st"
  have "bt_get (st_nodes st) name \<noteq> None" if "bt_get (st_nodes st') name = Some n" for name n
    using le that bt.set_keys [of "st_nodes st'"] bt.set_keys [of "st_nodes st"] by (auto simp: nodes_le_def)
  with le all show ?thesis unfolding all_nodes_def nodes_le_def by blast
qed

locale node_invariant = node_relation "\<lambda>n n'. holds n \<longrightarrow> holds n'" for holds :: "node_state \<Rightarrow> bool" +
  assumes holds_default: "holds node_state_default"
    and holds_revised: "holds n \<Longrightarrow> holds (revised_node n)"
begin

lemma fresh_all: "st_nodes st' = fresh_nodes g \<Longrightarrow> all_nodes holds st'"
proof -
  have "holds n" if "map_of (rev (map (\<lambda>n. (nd_name n, node_state_default)) ns)) name = Some n" for ns name n
    using map_of_SomeD [OF that] by (auto simp: holds_default)
  then show "st_nodes st' = fresh_nodes g \<Longrightarrow> all_nodes holds st'"
    unfolding all_nodes_def fresh_nodes_def by (metis bt_get_of_list)
qed

lemma entries_all:
  "(\<And>name n. bt_get m name = Some n \<Longrightarrow> holds n) \<Longrightarrow>
   bt_get (fold (\<lambda>n. bt_entry (nd_name n) node_state_default) ns m) name = Some n \<Longrightarrow> holds n"
proof (induction ns arbitrary: m)
  case Nil
  from Nil.prems(2) show ?case by simp (rule Nil.prems(1))
next
  case (Cons k ns)
  have "holds n" if "bt_get (bt_entry (nd_name k) node_state_default m) name = Some n" for name n
    using that Cons.prems(1) by (auto simp: btree_simps holds_default split: if_splits option.splits)
  then show ?case by (rule Cons.IH [OF _ Cons.prems(2) [simplified]])
qed

lemma revise_all: "try_fold revise_node names st = Some st' \<Longrightarrow> all_nodes holds st \<Longrightarrow> all_nodes holds st'"
proof (induction names arbitrary: st)
  case (Cons name names)
  then obtain u where u: "revise_node name st = Some u" "try_fold revise_node names u = Some st'"
    by (auto split: option.splits)
  have "all_nodes holds u"
    using u(1) Cons.prems(2) holds_revised
    by (auto simp: revise_node_def unwrap_node_def update_node_def all_nodes_def btree_simps Let_def split: if_splits)
  with Cons.IH u(2) show ?case by blast
qed simp

lemma graph_revised_all:
  assumes "handle_graph_revised en g names st = Some st'" and "all_nodes holds st"
  shows "all_nodes holds st'"
proof -
  obtain u where u: "try_fold revise_node names (regraphed en g st) = Some u" "st_nodes st' = st_nodes u"
  proof (rule graph_revisedE [OF assms(1)])
    fix u assume "try_fold revise_node names (regraphed en g st) = Some u"
      and "\<exists>phase publication. st' = u\<lparr>st_feedback_counts := bt_retain (\<lambda>key. \<exists>e \<in> set (gr_edges g).
       eg_feedback e \<and> key = feedback_key (eg_from e) (eg_to e)) (st_feedback_counts u),
       st_publication := publication, st_phase := phase\<rparr>"
    then show thesis by (intro that [of u]) auto
  qed
  have "holds n" if "bt_get (bt_retain (\<lambda>name. \<exists>n \<in> set (gr_nodes g). nd_name n = name) (st_nodes st)) name = Some n" for name n
    using that assms(2) by (auto simp: btree_simps all_nodes_def split: if_splits)
  then have "all_nodes holds (regraphed en g st)"
    unfolding all_nodes_def regraphed_def by (auto intro: entries_all)
  from revise_all [OF u(1) this] show ?thesis by (simp add: all_nodes_def u(2))
qed

lemma handle_all:
  assumes "handle en sq ts kind st = Some st'" and "all_nodes holds st"
  shows "all_nodes holds st'"
proof (cases "replaces_graph kind")
  case False
  with handle_moved [OF assms(1)] assms(2) show ?thesis by (blast intro: all_nodes_moved)
next
  case True
  have "all_nodes holds (st\<lparr>st_stop_requested := a, st_planning_id := b, st_planning := c\<rparr>)" for a b c
    using assms(2) by (simp add: all_nodes_def)
  with True assms show ?thesis
    by (cases kind rule: replaces_graph.cases)
      (auto simp: handle_def handle_created_def handle_draft_edited_def handle_planner_revised_def
        intro: fresh_all graph_revised_all)
qed

lemma apply_all_nodes:
  assumes "all_nodes holds st" and "apply_event en ev st = Some st'"
  shows "all_nodes holds st'"
proof -
  have noted: "st_nodes (note_planning ev st) = st_nodes st"
    by (simp add: note_planning_def record_planning_turn_def split: option.split)
  from assms(2) show ?thesis
  proof (cases rule: apply_eventE)
    case (streamed eid chunk)
    with assms(1) show ?thesis by (simp add: refresh_metrics_def handle_output_def noted all_nodes_def)
  next
    case (logged u)
    have "all_nodes holds u" by (rule handle_all [OF logged(2)]) (use assms(1) in \<open>simp add: all_nodes_def noted\<close>)
    then show ?thesis by (simp add: logged(3) all_nodes_def log_event_def refresh_metrics_def)
  qed
qed

end

sublocale node_invariant \<subseteq> run: step_invariant "apply_event en" "all_nodes holds" for en
  by unfold_locales (rule apply_all_nodes)

lemmas node_op_defs = snapshotted_node_def snapshot_invalidated_def recovered_node_def started_node_def
  unblock_node_def completed_node_def inherited_node_def outdated_node_def failed_node_def blocked_node_def
  resolved_node_def queue_message_def source_direct_node_def invalidated_node_def target_node_def
  bump_waiting_def edited_node_def revised_node_def

section \<open>What a node may look like\<close>

definition node_statuses :: "string list" where
  "node_statuses = [''waiting'', ''running'', ''dirty'', ''completed'', ''failed'', ''blocked'']"

text \<open>The status is one the reducer writes; a completed node has a result, a failed or blocked one says
  why, a running one carries no error and no continuation mark; revisions start at one; the fields kept for
  the files of earlier versions are unset.\<close>

definition node_ok :: "node_state \<Rightarrow> bool" where
  "node_ok n \<longleftrightarrow> ns_status n \<in> set node_statuses \<and> 1 \<le> ns_revision n
     \<and> (ns_status n = ''completed'' \<longrightarrow> ns_head n \<noteq> None)
     \<and> (ns_status n \<in> set [''failed'', ''blocked''] \<longrightarrow> ns_error n \<noteq> None)
     \<and> (ns_status n = ''running'' \<longrightarrow> ns_error n = None \<and> \<not> ns_continuation n)
     \<and> ns_legacy_files_override n = None \<and> ns_legacy_files_version n = None
     \<and> ns_legacy_baseline_files_version n = None \<and> \<not> ns_legacy_files_changed n"

interpretation typed: node_invariant node_ok
  by unfold_locales (auto simp: moves_def node_ok_def node_statuses_def node_op_defs node_state_default_def Let_def
      split: option.split)

lemma all_nodes_start: "all_nodes holds snapshot_default"
  by (simp add: all_nodes_def snapshot_default_def bt_get_def)

text \<open>C18: every node of every state that events can produce is well-typed: its status is one of the
  six the reducer writes, a completed node has a head, a failed or blocked node has an error, a running
  node carries no error and no continuation mark, its revision is at least one, and none of the fields kept for
  the files of earlier versions is set.\<close>

theorem node_states_typed:
  assumes "apply_all en evs snapshot_default = Some st" and "bt_get (st_nodes st) name = Some n"
  shows "ns_status n \<in> set node_statuses \<and> 1 \<le> ns_revision n
    \<and> (ns_status n = ''completed'' \<longrightarrow> ns_head n \<noteq> None)
    \<and> (ns_status n \<in> set [''failed'', ''blocked''] \<longrightarrow> ns_error n \<noteq> None)
    \<and> (ns_status n = ''running'' \<longrightarrow> ns_error n = None \<and> \<not> ns_continuation n)
    \<and> ns_legacy_files_override n = None \<and> ns_legacy_files_version n = None
    \<and> ns_legacy_baseline_files_version n = None \<and> \<not> ns_legacy_files_changed n"
proof -
  have "all_nodes node_ok st"
    using typed.run.run_inv [OF all_nodes_start] assms(1) unfolding apply_all_def by blast
  with assms(2) show ?thesis by (simp add: all_nodes_def node_ok_def)
qed

lemma run_of_all: "runs kinds \<Longrightarrow> apply_all sample_env (map (sample_event 1) kinds) snapshot_default = Some (run_of kinds)"
  by (auto simp: runs_def run_of_def)

lemma sample_blocked_runs: "runs sample_blocked"
  by code_simp

theorem node_states_typed_witness:
  "\<exists>n. bt_get (st_nodes (run_of sample_blocked)) ''b'' = Some n \<and> ns_status n = ''blocked'' \<and> ns_error n \<noteq> None
     \<and> ns_legacy_files_version n = None"
  using node_states_typed [OF run_of_all [OF sample_blocked_runs] sample_blocked_b] sample_blocked_b
  by (simp add: node_statuses_def)

section \<open>Revisions\<close>

interpretation revisions: node_relation "\<lambda>n n'. ns_revision n \<le> ns_revision n'"
  by unfold_locales (simp_all add: moves_def snapshotted_node_def snapshot_invalidated_def recovered_node_def
      started_node_def unblock_node_def completed_node_def inherited_node_def outdated_node_def failed_node_def
      blocked_node_def resolved_node_def queue_message_def source_direct_node_def invalidated_node_def
      target_node_def bump_waiting_def edited_node_def Let_def split: option.split)

text \<open>While the graph is not replaced, no node disappears and no revision is ever lowered, whatever
  events arrive in whatever order.\<close>

theorem revisions_only_grow:
  assumes "apply_all en evs st = Some st'" and "\<forall>ev \<in> set evs. \<not> replaces_graph (ev_kind ev)"
    and "bt_get (st_nodes st) name = Some n"
  shows "\<exists>n'. bt_get (st_nodes st') name = Some n' \<and> ns_revision n \<le> ns_revision n'"
proof -
  have "try_fold (steady_event en) evs st = try_fold (apply_event en) evs st"
    using assms(2) by (induction evs arbitrary: st) (auto simp: steady_event_def split: option.split)
  then have le: "nodes_le (\<lambda>n n'. ns_revision n \<le> ns_revision n') st st'"
    using assms(1) by (intro revisions.steady.run_le) (simp add: apply_all_def)
  then have "bt_get (st_nodes st') name \<noteq> None"
    using assms(3) bt.set_keys [of "st_nodes st'"] bt.set_keys [of "st_nodes st"] by (auto simp: nodes_le_def)
  with le assms(3) show ?thesis by (auto simp: nodes_le_def)
qed

theorem revisions_only_grow_witness:
  "\<exists>n'. bt_get (st_nodes (run_of (sample_blocked @ [Started (sample_attempt ''e1'' ''a'') None False]))) ''b'' = Some n'
     \<and> ns_revision node_state_default \<le> ns_revision n'"
proof -
  have "apply_all sample_env [sample_event 1 (Started (sample_attempt ''e1'' ''a'') None False)] (run_of sample_blocked)
      = Some (run_of (sample_blocked @ [Started (sample_attempt ''e1'' ''a'') None False]))"
    by (simp add: apply_all_def run_of_step [OF sample_start_runs])
  from revisions_only_grow [OF this _ sample_blocked_b] show ?thesis by simp
qed

end
