(* ===== verification/Reducer_Protocols.thy ===== *)
theory Reducer_Protocols
  imports Reducer_Steps
begin

text \<open>
  Sequences of events: a publication delivers the heads it started with, recovery can be repeated,
  and the recovery hints of a state agree with each other; and a flaw, the lost
  continuation of a claimed follow-up.
\<close>

section \<open>Publication\<close>

text \<open>What may happen between the start and the completion of a publication.\<close>

fun delivery_kind :: "event_kind \<Rightarrow> bool" where
  "delivery_kind (MergerStarted _) = True"
| "delivery_kind (MergerFinished _ _ _ _) = True"
| "delivery_kind (MergerFailed _ _ _ _) = True"
| "delivery_kind (PublicationFailed _) = True"
| "delivery_kind (Output _ _) = True"
| "delivery_kind _ = False"

definition delivering :: "string list \<Rightarrow> string list \<Rightarrow> snapshot \<Rightarrow> bool" where
  "delivering heads delivered st \<longleftrightarrow>
     map_option pb_heads (st_publication st) = Some heads \<and> st_published_heads st = delivered"

definition delivery_event :: "env \<Rightarrow> event \<Rightarrow> snapshot \<Rightarrow> snapshot option" where
  "delivery_event en ev st = (if delivery_kind (ev_kind ev) then apply_event en ev st else None)"

lemma delivering_fields:
  "st_publication (update_node name f st) = st_publication st"
  "st_published_heads (update_node name f st) = st_published_heads st"
  "st_publication (recover_repaired name revision st) = st_publication st"
  "st_published_heads (recover_repaired name revision st) = st_published_heads st"
  "st_publication (resume_attention st) = st_publication st"
  "st_published_heads (resume_attention st) = st_published_heads st"
  by (simp_all add: update_node_def recover_repaired_def resume_attention_def Let_def split: option.split)

lemma delivering_refresh [simp]:
  "delivering heads delivered (log_event en ev st) = delivering heads delivered st"
  "delivering heads delivered (refresh_metrics en st) = delivering heads delivered st"
  "delivering heads delivered (note_planning ev st) = delivering heads delivered st"
  by (simp_all add: delivering_def refresh_metrics_def)

lemma heads_kept: "map_option pb_heads (map_option (\<lambda>p. p\<lparr>pb_status := a\<rparr>) p) = map_option pb_heads p"
  "map_option pb_heads (map_option (\<lambda>p. p\<lparr>pb_status := a, pb_error := b\<rparr>) p) = map_option pb_heads p"
  by (cases p; simp)+

lemma delivering_mergers:
  "delivering heads delivered (handle_merger_started e st) = delivering heads delivered st"
  "delivering heads delivered (handle_merger_finished en ts eid head bytes metrics st) = delivering heads delivered st"
  "delivering heads delivered (handle_merger_failed en ts eid error bytes metrics st) = delivering heads delivered st"
  "delivering heads delivered (handle_publication_failed error st) = delivering heads delivered st"
proof -
  show "delivering heads delivered (handle_merger_started e st) = delivering heads delivered st"
    unfolding handle_merger_started_def Let_def delivering_def if_distrib [of st_publication]
      if_distrib [of st_published_heads] delivering_fields by (simp add: heads_kept del: map_option_eq_Some)
  have "delivering heads delivered (case r of None \<Rightarrow> u | Some (name, revision) \<Rightarrow> recover_repaired name revision u)
      = delivering heads delivered u" for r u
    by (simp add: delivering_def delivering_fields split: option.split)
  then show "delivering heads delivered (handle_merger_finished en ts eid head bytes metrics st) = delivering heads delivered st"
    unfolding handle_merger_finished_def Let_def by (simp add: delivering_def heads_kept del: map_option_eq_Some)
  have "delivering heads delivered (case t of None \<Rightarrow> u | Some name \<Rightarrow> update_node name (f name) u)
      = delivering heads delivered u" for t u f
    by (simp add: delivering_def delivering_fields split: option.split)
  then show "delivering heads delivered (handle_merger_failed en ts eid error bytes metrics st) = delivering heads delivered st"
    unfolding handle_merger_failed_def Let_def by (simp add: delivering_def)
  show "delivering heads delivered (handle_publication_failed error st) = delivering heads delivered st"
    by (simp add: handle_publication_failed_def delivering_def heads_kept del: map_option_eq_Some)
qed

lemma delivering_handle:
  assumes "delivering heads delivered st" and "handle en sq ts kind st = Some st'" and "delivery_kind kind"
    and "\<not> is_output kind"
  shows "delivering heads delivered st'"
  using assms
  by (cases kind rule: delivery_kind.cases) (simp_all add: handle_def, auto simp: delivering_mergers)

interpretation delivery: step_invariant "delivery_event en" "delivering heads delivered" for en heads delivered
proof
  fix st ev st'
  assume inv: "delivering heads delivered st" and "delivery_event en ev st = Some st'"
  then have ev: "apply_event en ev st = Some st'" and kind: "delivery_kind (ev_kind ev)"
    by (auto simp: delivery_event_def split: if_splits)
  from ev show "delivering heads delivered st'"
  proof (cases rule: apply_eventE)
    case (streamed eid chunk)
    with inv show ?thesis by (simp add: handle_output_def delivering_def refresh_metrics_def)
  next
    case (logged u)
    from logged(1) have "\<not> is_output (ev_kind ev)" by (cases "ev_kind ev") auto
    from delivering_handle [OF _ logged(2) kind this] inv logged(3) show ?thesis by simp
  qed
qed

text \<open>C20: a publication that completes has delivered exactly the heads it was started with, added to those
  delivered before; mergers that ran in between, streamed output and failed tries do not change which
  heads count as delivered.\<close>

theorem publication_delivers:
  assumes "apply_all en (start # evs @ [finish]) st = Some st'"
    and "ev_kind start = PublicationStarted repository heads" and "ev_kind finish = PublicationCompleted head"
    and "\<forall>ev \<in> set evs. delivery_kind (ev_kind ev)"
  shows "set (st_published_heads st') = set (st_published_heads st) \<union> set heads
    \<and> prefix (st_published_heads st) (st_published_heads st')
    \<and> st_published_head st' = Some head \<and> st_phase st' = ''completed'' \<and> \<not> st_paused st'
    \<and> map_option (\<lambda>p. (pb_status p, pb_heads p, pb_head p)) (st_publication st') = Some (''completed'', heads, Some head)"
proof -
  from assms(1) obtain a b where a: "apply_event en start st = Some a"
    and b: "try_fold (apply_event en) evs a = Some b" and c: "apply_event en finish b = Some st'"
    by (auto simp: apply_all_def try_fold_append bind_eq_Some_conv split: option.splits)
  obtain v where "handle en (ev_sequence start) (ev_timestamp start) (PublicationStarted repository heads)
      (note_planning start st) = Some v" and v: "a = log_event en start v"
    using a by (rule applyE [OF _ assms(2)]) simp
  then have "delivering heads (st_published_heads st) a"
    by (simp add: handle_def) (auto simp: delivering_def handle_publication_started_def)
  moreover have "try_fold (delivery_event en) evs a = try_fold (apply_event en) evs a"
    using assms(4) by (induction evs arbitrary: a) (auto simp: delivery_event_def split: option.split)
  ultimately have "delivering heads (st_published_heads st) b"
    using b delivery.run_inv by simp
  moreover obtain w where "handle en (ev_sequence finish) (ev_timestamp finish) (PublicationCompleted head)
      (note_planning finish b) = Some w" and st': "st' = log_event en finish w"
    using c by (rule applyE [OF _ assms(3)]) simp
  then have u: "w = handle_publication_completed (ev_timestamp finish) head (note_planning finish b)"
    by (simp add: handle_def)
  ultimately show ?thesis
    by (auto simp: st' u handle_publication_completed_def delivering_def push_new_set push_new_prefix
        log_event_def refresh_metrics_def)
qed

definition sample_delivery :: "event list" where
  "sample_delivery = [sample_event 5 (PublicationStarted ''r'' [''h1'', ''h2'']),
     sample_event 6 (MergerStarted (sample_attempt ''m1'' ''merger'')),
     sample_event 7 (MergerFinished ''m1'' ''h3'' 0 None),
     sample_event 8 (PublicationCompleted ''h3'')]"

lemma sample_delivery_runs: "case apply_all sample_env sample_delivery (run_of sample_created) of
    Some st \<Rightarrow> True | None \<Rightarrow> False"
  by code_simp

theorem publication_delivers_witness:
  "\<exists>st'. apply_all sample_env sample_delivery (run_of sample_created) = Some st'
     \<and> set [''h1'', ''h2''] \<subseteq> set (st_published_heads st') \<and> st_published_head st' = Some ''h3''"
proof -
  obtain st' where run: "apply_all sample_env sample_delivery (run_of sample_created) = Some st'"
    using sample_delivery_runs by (auto split: option.splits)
  let ?evs = "[sample_event 6 (MergerStarted (sample_attempt ''m1'' ''merger'')),
     sample_event 7 (MergerFinished ''m1'' ''h3'' 0 None)]"
  have "apply_all sample_env (sample_event 5 (PublicationStarted ''r'' [''h1'', ''h2'']) # ?evs
      @ [sample_event 8 (PublicationCompleted ''h3'')]) (run_of sample_created) = Some st'"
    using run by (simp add: sample_delivery_def)
  from publication_delivers [OF this, of "''r''" "[''h1'', ''h2'']" "''h3''"] run show ?thesis by auto
qed

section \<open>Recovery\<close>

lemma recovered_status: "ns_status (recovered_node a b c d n) \<notin> {''failed'', ''blocked''}"
  by (simp add: recovered_node_def Let_def)

lemma recovered_again: "recovered_node a' b' c' d' (recovered_node a b c d n) = recovered_node a b c d n"
  using recovered_status [of a b c d n] by (simp add: recovered_node_def [of a' b' c' d'])

text \<open>A loop of idempotent updates is one pass over the node map.\<close>

lemma nodes_loop_map:
  assumes "\<And>x n. f x (f x n) = f x n"
  shows "fold (\<lambda>x. update_node x (f x)) xs st
     = st\<lparr>st_nodes := map (\<lambda>(name, n). (name, if name \<in> set xs then f name n else n)) (st_nodes st)\<rparr>"
proof (induction xs arbitrary: st)
  case (Cons x xs)
  show ?case
    by (simp add: Cons.IH) (auto simp: update_node_def bt_update_def comp_def case_prod_unfold assms)
qed (simp add: case_prod_unfold)

definition recovery_of :: "string list \<Rightarrow> bool \<Rightarrow> string list \<Rightarrow> snapshot \<Rightarrow> string \<Rightarrow> node_state \<Rightarrow> node_state" where
  "recovery_of cs r ss st name = recovered_node (name \<in> set cs) r
     (\<exists>e \<in> set (st_executions st). ex_node e = name \<and> ex_status e = ''completed''
        \<and> ex_id e \<notin> set (st_superseded_execution_ids st)) (name \<in> set ss)"

lemma recovery_frame [simp]: "recovery_of cs r ss (st\<lparr>st_nodes := m\<rparr>) = recovery_of cs r ss st"
  by (simp add: recovery_of_def fun_eq_iff)

lemma recovery_map:
  "handle_recovery_queued names cs r ss st
     = st\<lparr>st_nodes := map (\<lambda>(name, n). (name, if name \<in> set names then recovery_of cs r ss st name n else n)) (st_nodes st)\<rparr>"
proof -
  have "fold (\<lambda>name st. update_node name (recovery_of cs r ss st name) st) xs st
      = fold (\<lambda>name. update_node name (recovery_of cs r ss st name)) xs st" for xs st
  proof (induction xs arbitrary: st)
    case (Cons x xs)
    have "recovery_of cs r ss (update_node x g st) = recovery_of cs r ss st" for g
      by (simp add: update_node_def)
    then show ?case by (simp add: Cons.IH)
  qed simp
  then have "handle_recovery_queued names cs r ss st = fold (\<lambda>name. update_node name (recovery_of cs r ss st name)) names st"
    by (simp add: handle_recovery_queued_def recovery_of_def)
  also have "\<dots> = st\<lparr>st_nodes := map (\<lambda>(name, n). (name, if name \<in> set names then recovery_of cs r ss st name n else n)) (st_nodes st)\<rparr>"
    by (rule nodes_loop_map) (simp add: recovery_of_def recovered_again)
  finally show ?thesis .
qed

text \<open>Recovery may be queued again without harm: none of the named nodes is failed or blocked
  afterwards, and a second request for the same nodes, even with a different choice of what to
  resume, changes nothing.\<close>

theorem recovery_idempotent:
  "handle_recovery_queued names cs' r' ss' (handle_recovery_queued names cs r ss st) = handle_recovery_queued names cs r ss st
   \<and> set names \<inter> {name. \<exists>n. bt_get (st_nodes (handle_recovery_queued names cs r ss st)) name = Some n
        \<and> ns_status n \<in> {''failed'', ''blocked''}} = {}"
proof
  show "handle_recovery_queued names cs' r' ss' (handle_recovery_queued names cs r ss st) = handle_recovery_queued names cs r ss st"
    by (simp add: recovery_map comp_def case_prod_unfold) (auto simp: recovery_of_def recovered_again)
  have "bt_get (st_nodes (handle_recovery_queued names cs r ss st)) name
      = map_option (recovery_of cs r ss st name) (bt_get (st_nodes st) name)" if "name \<in> set names" for name
  proof -
    have "map_of (map (\<lambda>(name, n). (name, if name \<in> set names then recovery_of cs r ss st name n else n)) m) name
        = map_option (recovery_of cs r ss st name) (map_of m name)" for m
      using that by (induction m) auto
    then show ?thesis by (simp add: recovery_map bt_get_def)
  qed
  then show "set names \<inter> {name. \<exists>n. bt_get (st_nodes (handle_recovery_queued names cs r ss st)) name = Some n
        \<and> ns_status n \<in> {''failed'', ''blocked''}} = {}"
    using recovered_status by (fastforce simp: recovery_of_def)
qed

text \<open>C22: when recovery claims the queued message of a failed multi-source repair, the message leaves the
  queue but the node is not marked as a continuation: the mark set with the claim is overwritten by
  the value computed while the message was still queued.\<close>

theorem claimed_recovery_not_continued:
  assumes "ns_status n = ''failed'' \<or> ns_status n = ''blocked''" and "ns_pending_messages n = [message]"
    and "ns_human_instruction n" and "pm_instruction message = ns_instruction n"
    and "ns_feedback_workspace n = Some input" and "fw_additional_sources input \<noteq> []"
  shows "ns_pending_messages (recovered_node in_continuation resume_failed executed source_direct n) = []
    \<and> \<not> ns_continuation (recovered_node in_continuation resume_failed executed source_direct n)"
  using assms by (auto simp: recovered_node_def Let_def)

definition sample_claim :: node_state where
  "sample_claim = node_state_default\<lparr>ns_status := ''failed'', ns_human_instruction := True, ns_instruction := ''fix'',
     ns_pending_messages := [\<lparr>pm_sequence = 7, pm_instruction = ''fix'', pm_images = None, pm_source_direct = False,
       pm_shared_workspace = False\<rparr>],
     ns_feedback_workspace := Some \<lparr>fw_source_execution_id = ''e1'', fw_target_execution_id = ''e0'', fw_worktree = ''w1'', fw_head = ''h1'',
       fw_additional_sources = [\<lparr>fs_source_execution_id = ''e2'', fs_worktree = ''w2'', fs_head = ''h2''\<rparr>]\<rparr>\<rparr>"

theorem claimed_recovery_not_continued_witness:
  "ns_pending_messages (recovered_node True True False False sample_claim) = []
   \<and> \<not> ns_continuation (recovered_node True True False False sample_claim)"
  by (rule claimed_recovery_not_continued) (simp add: sample_claim_def; fail)+

section \<open>Recovery hints\<close>

lemma find_some_in: "find p xs = Some x \<Longrightarrow> x \<in> set xs \<and> p x"
  by (auto simp: find_Some_iff)

text \<open>The hints a client sees agree: the nodes resumed after an interruption are exactly the retryable
  ones that the user paused, every failed node is either paused by the user or a real failure but
  never both, and nothing is offered while an attempt runs.\<close>

theorem recovery_hints_agree:
  assumes "bt_wf (st_nodes st)"
  shows "set (interrupted_nodes st) = set (failed_retry_nodes st) \<inter> set (user_paused_nodes st)
    \<and> set (failed_nodes st) \<inter> set (user_paused_nodes st) = {}
    \<and> set (failed_nodes st) \<union> set (user_paused_nodes st)
        = {name. \<exists>n. bt_get (st_nodes st) name = Some n \<and> ns_status n = ''failed''}
    \<and> (can_resume_interrupted st \<longrightarrow> can_resume st)
    \<and> (can_resume st \<longrightarrow> \<not> (\<exists>e \<in> set (st_executions st @ st_mergers st). ex_status e = ''running''))"
proof -
  have in_map: "(name, n) \<in> set (st_nodes st) \<longleftrightarrow> bt_get (st_nodes st) name = Some n" for name n
    using bt_wf_distinct [OF assms] by (simp add: bt_get_def)
  have interrupted: "set (interrupted_nodes st) = set (failed_retry_nodes st) \<inter> set (user_paused_nodes st)"
    by (force simp: interrupted_nodes_def failed_retry_nodes_def user_paused_nodes_def is_user_paused_def in_map)
  moreover have "set (failed_nodes st) \<inter> set (user_paused_nodes st) = {}"
    by (force simp: failed_nodes_def user_paused_nodes_def is_user_paused_def is_real_failure_def in_map)
  moreover have "set (failed_nodes st) \<union> set (user_paused_nodes st)
        = {name. \<exists>n. bt_get (st_nodes st) name = Some n \<and> ns_status n = ''failed''}"
    by (force simp: failed_nodes_def user_paused_nodes_def is_user_paused_def is_real_failure_def in_map)
  moreover have "can_resume_interrupted st \<Longrightarrow> can_resume st"
    using interrupted by (auto simp: can_resume_interrupted_def can_resume_def)
  moreover have "can_resume st \<Longrightarrow> \<not> (\<exists>e \<in> set (st_executions st @ st_mergers st). ex_status e = ''running'')"
    by (simp add: can_resume_def recovery_is_idle_def)
  ultimately show ?thesis by blast
qed

theorem recovery_hints_agree_witness:
  "set (failed_nodes (run_of sample_created)) \<inter> set (user_paused_nodes (run_of sample_created)) = {}"
proof -
  have "bt_wf (st_nodes (run_of sample_created))" by code_simp
  from recovery_hints_agree [OF this] show ?thesis by blast
qed

end
