(* ===== verification/Store_Log.thy ===== *)
theory Store_Log
  imports Prelude "HOL-Library.Sublist"
begin

text \<open>
  The transcript table \<open>execution_logs\<close> of \<open>backend/src/store/logs.rs\<close>: how streamed output is cut into
  rows of at most 32 KiB on character boundaries, how the last row is filled up, and how pages are
  read back.  A table is the list of its rows in the order of the primary key (execution, offset).
  SQLite's statements succeed unless they violate that key.
\<close>

section \<open>UTF-8 boundaries\<close>

definition is_continuation :: "char \<Rightarrow> bool" where
  "is_continuation c = (128 \<le> (of_char c :: nat) \<and> (of_char c :: nat) < 192)"

text \<open>The number of bytes a lead byte announces; \<open>0\<close> for a byte that starts no character.\<close>

definition utf8_len :: "char \<Rightarrow> nat" where
  "utf8_len c = (let n = (of_char c :: nat) in
     if n < 128 then 1 else if n < 194 then 0 else if n < 224 then 2 else if n < 240 then 3
     else if n < 245 then 4 else 0)"

text \<open>Every Rust \<open>String\<close> satisfies this; it is the only fact on their bytes used here.\<close>

function utf8 :: "string \<Rightarrow> bool" where
  "utf8 [] = True"
| "utf8 (c # s) = (let k = utf8_len c in
     0 < k \<and> k - 1 \<le> length s \<and> list_all is_continuation (take (k - 1) s) \<and> utf8 (drop (k - 1) s))"
  by pat_completeness auto
termination by (relation "measure length") auto

declare utf8.simps(2) [simp del]

text \<open>\<open>str::is_char_boundary\<close>\<close>

definition is_char_boundary :: "string \<Rightarrow> nat \<Rightarrow> bool" where
  "is_char_boundary s i \<longleftrightarrow> i = 0 \<or> i = length s \<or> (i < length s \<and> \<not> is_continuation (s ! i))"

fun floor_down :: "string \<Rightarrow> nat \<Rightarrow> nat" where
  "floor_down s 0 = 0"
| "floor_down s (Suc i) = (if is_char_boundary s (Suc i) then Suc i else floor_down s i)"

definition floor_boundary :: "string \<Rightarrow> nat \<Rightarrow> nat" where
  "floor_boundary s i = floor_down s (min i (length s))"

section \<open>The table\<close>

definition chunk_bytes :: nat where
  "chunk_bytes = 32 * 1024"

record log_row =
  lg_run :: string
  lg_execution :: string
  lg_offset :: nat
  lg_bytes :: nat
  lg_text :: string

definition key_before :: "log_row \<Rightarrow> log_row \<Rightarrow> bool" where
  "key_before r x \<longleftrightarrow> lg_execution r < lg_execution x
     \<or> (lg_execution r = lg_execution x \<and> lg_offset r < lg_offset x)"

text \<open>\<open>INSERT\<close>; \<open>None\<close> is the violation of the primary key.\<close>

fun insert_row :: "log_row \<Rightarrow> log_row list \<Rightarrow> log_row list option" where
  "insert_row r [] = Some [r]"
| "insert_row r (x # xs) =
     (if lg_execution r = lg_execution x \<and> lg_offset r = lg_offset x then None
      else if key_before r x then Some (r # x # xs)
      else map_option (\<lambda>ys. x # ys) (insert_row r xs))"

definition rows_of :: "string \<Rightarrow> string \<Rightarrow> log_row list \<Rightarrow> log_row list" where
  "rows_of run eid t = filter (\<lambda>r. lg_execution r = eid \<and> lg_run r = run) t"

definition last_row :: "log_row list \<Rightarrow> log_row option" where
  "last_row rs = (if rs = [] then None else Some (last rs))"

section \<open>Writing\<close>

text \<open>
  The outer option is \<open>None\<close> when the cut makes no progress, which the code does not guard against
  (it would insert the same offset for ever); it cannot happen on UTF-8 text.
\<close>

function insert_chunks ::
  "string \<Rightarrow> string \<Rightarrow> nat \<Rightarrow> string \<Rightarrow> bool \<Rightarrow> nat \<Rightarrow> log_row list \<Rightarrow> (string + log_row list) option" where
  "insert_chunks run eid start text idempotent pos t =
     (if pos < length text then
        (let stop = floor_boundary text (pos + chunk_bytes) in
         if stop \<le> pos then None
         else
           case insert_row \<lparr>lg_run = run, lg_execution = eid, lg_offset = start + pos, lg_bytes = stop - pos,
               lg_text = take (stop - pos) (drop pos text)\<rparr> t of
             Some t' \<Rightarrow> insert_chunks run eid start text idempotent stop t'
           | None \<Rightarrow>
               if idempotent then insert_chunks run eid start text idempotent stop t
               else Some (Inl ''UNIQUE constraint failed: execution_logs.execution_id, execution_logs.offset''))
      else Some (Inr t))"
  by pat_completeness auto
termination by (relation "measure (\<lambda>(_, _, _, text, _, pos, _). length text - pos)") auto

declare insert_chunks.simps [simp del]

text \<open>\<open>UPDATE execution_logs SET bytes=bytes+?1, text=text||?2 WHERE ... AND offset=?5\<close>\<close>

definition grown :: "string \<Rightarrow> string \<Rightarrow> nat \<Rightarrow> string \<Rightarrow> log_row \<Rightarrow> log_row" where
  "grown run eid offset piece r =
     (if lg_execution r = eid \<and> lg_run r = run \<and> lg_offset r = offset
      then r\<lparr>lg_bytes := lg_bytes r + length piece, lg_text := lg_text r @ piece\<rparr> else r)"

definition grow_row :: "string \<Rightarrow> string \<Rightarrow> nat \<Rightarrow> string \<Rightarrow> log_row list \<Rightarrow> log_row list" where
  "grow_row run eid offset piece t = map (grown run eid offset piece) t"

definition append_chunks ::
  "string \<Rightarrow> string \<Rightarrow> nat \<Rightarrow> string \<Rightarrow> log_row list \<Rightarrow> (string + log_row list) option" where
  "append_chunks run eid start text t =
     (if text = [] then Some (Inr t)
      else case last_row (rows_of run eid t) of
        Some r \<Rightarrow>
          if lg_bytes r < chunk_bytes \<and> lg_offset r + lg_bytes r = start then
            (let stop = floor_boundary text (chunk_bytes - lg_bytes r) in
             if 0 < stop
             then insert_chunks run eid (start + stop) (drop stop text) False 0
                    (grow_row run eid (lg_offset r) (take stop text) t)
             else insert_chunks run eid start text False 0 t)
          else insert_chunks run eid start text False 0 t
      | None \<Rightarrow> insert_chunks run eid start text False 0 t)"

definition log_bytes :: "string \<Rightarrow> string \<Rightarrow> log_row list \<Rightarrow> nat" where
  "log_bytes run eid t = (case last_row (rows_of run eid t) of Some r \<Rightarrow> lg_offset r + lg_bytes r | None \<Rightarrow> 0)"

text \<open>The transaction of \<open>replace_logs\<close>.\<close>

definition replace_rows :: "string \<Rightarrow> string \<Rightarrow> string \<Rightarrow> log_row list \<Rightarrow> (string + log_row list) option" where
  "replace_rows run eid text t =
     insert_chunks run eid 0 text False 0 (filter (\<lambda>r. \<not> (lg_execution r = eid \<and> lg_run r = run)) t)"

section \<open>Reading\<close>

record log_page =
  lp_content :: string
  lp_start_offset :: nat
  lp_next_offset :: nat
  lp_total_bytes :: nat
  lp_complete :: bool

fun read_rows :: "nat \<Rightarrow> log_row list \<Rightarrow> string \<Rightarrow> nat \<Rightarrow> string + string \<times> nat" where
  "read_rows stop [] content nxt = Inr (content, nxt)"
| "read_rows stop (r # rs) content nxt =
     (if length (lg_text r) \<noteq> lg_bytes r \<or> nxt < lg_offset r then Inl ''Corrupt execution log''
      else
        let from = nxt - lg_offset r in
        if length (lg_text r) < from \<or> \<not> is_char_boundary (lg_text r) from then Inl ''Invalid output offset''
        else
          let to = floor_boundary (lg_text r) (stop - lg_offset r) in
          if to < from then Inl ''Invalid output offset''
          else
            let content = content @ take (to - from) (drop from (lg_text r));
                nxt = lg_offset r + to
            in if to < lg_bytes r then Inr (content, nxt) else read_rows stop rs content nxt)"

definition make_page :: "nat \<Rightarrow> nat \<Rightarrow> string \<times> nat \<Rightarrow> log_page" where
  "make_page start total_bytes result =
     \<lparr>lp_content = fst result, lp_start_offset = start, lp_next_offset = snd result,
      lp_total_bytes = total_bytes, lp_complete = (snd result = total_bytes)\<rparr>"

definition map_result :: "('a \<Rightarrow> 'b) \<Rightarrow> 'e + 'a \<Rightarrow> 'e + 'b" where
  "map_result f r = (case r of Inl e \<Rightarrow> Inl e | Inr x \<Rightarrow> Inr (f x))"

definition execution_log_page ::
  "string \<Rightarrow> string \<Rightarrow> nat \<Rightarrow> nat \<Rightarrow> log_row list \<Rightarrow> string + log_page" where
  "execution_log_page run eid offset limit t =
     (let total_bytes = log_bytes run eid t; rs = rows_of run eid t in
      if total_bytes < offset then Inl ''Invalid output offset''
      else if offset = total_bytes
      then Inr \<lparr>lp_content = [], lp_start_offset = offset, lp_next_offset = offset,
                lp_total_bytes = total_bytes, lp_complete = True\<rparr>
      else
        case last_row (filter (\<lambda>r. lg_offset r \<le> offset) rs) of
          None \<Rightarrow> Inl ''Query returned no rows''
        | Some first \<Rightarrow>
            let stop = min (offset + limit) total_bytes in
            map_result (make_page offset total_bytes)
              (read_rows stop (filter (\<lambda>r. lg_offset first \<le> lg_offset r \<and> lg_offset r < stop) rs) [] offset))"

definition execution_log_tail_page ::
  "string \<Rightarrow> string \<Rightarrow> nat \<Rightarrow> nat \<Rightarrow> log_row list \<Rightarrow> string + log_page" where
  "execution_log_tail_page run eid before limit t =
     (let total_bytes = log_bytes run eid t; stop = min before total_bytes; rs = rows_of run eid t in
      if stop = 0
      then Inr \<lparr>lp_content = [], lp_start_offset = 0, lp_next_offset = 0, lp_total_bytes = total_bytes,
                lp_complete = (total_bytes = 0)\<rparr>
      else
        case last_row (filter (\<lambda>r. lg_offset r \<le> stop - limit) rs) of
          None \<Rightarrow> Inl ''Query returned no rows''
        | Some chunk \<Rightarrow>
            let start = (case last_row (filter (\<lambda>r. lg_offset r < lg_offset chunk) rs) of
                  Some previous \<Rightarrow> lg_offset previous | None \<Rightarrow> lg_offset chunk)
            in map_result (make_page start total_bytes)
                 (read_rows stop (filter (\<lambda>r. start \<le> lg_offset r \<and> lg_offset r < stop) rs) [] start))"

section \<open>Boundaries\<close>

lemma utf8_hd: "utf8 (c # s) \<Longrightarrow> \<not> is_continuation c"
  by (auto simp: utf8.simps(2) Let_def utf8_len_def is_continuation_def split: if_splits)

lemma utf8_append: "utf8 a \<Longrightarrow> utf8 b \<Longrightarrow> utf8 (a @ b)"
  by (induction a rule: utf8.induct) (auto simp: utf8.simps(2) Let_def)

lemma boundary_0 [simp]: "is_char_boundary s 0" and boundary_length [simp]: "is_char_boundary s (length s)"
  by (simp_all add: is_char_boundary_def)

lemma boundary_le: "is_char_boundary s i \<Longrightarrow> i \<le> length s"
  by (auto simp: is_char_boundary_def)

lemma boundary_append:
  assumes "utf8 b"
  shows "is_char_boundary (a @ b) i \<longleftrightarrow>
    (if i \<le> length a then is_char_boundary a i else is_char_boundary b (i - length a))"
  using assms by (cases b) (auto simp: is_char_boundary_def nth_append dest: utf8_hd)

lemma boundary_take: "i \<le> k \<Longrightarrow> is_char_boundary s i \<Longrightarrow> is_char_boundary (take k s) i"
  by (auto simp: is_char_boundary_def)

lemma utf8_first:
  assumes "utf8 (c # s)"
  shows "0 < utf8_len c" "utf8_len c \<le> 4" "utf8_len c \<le> length (c # s)"
    "utf8 (take (utf8_len c) (c # s))" "utf8 (drop (utf8_len c) (c # s))"
    "list_all is_continuation (take (utf8_len c - 1) s)"
proof -
  obtain k where k: "utf8_len c = Suc k" using assms by (cases "utf8_len c") (auto simp: utf8.simps(2))
  show "0 < utf8_len c" "utf8_len c \<le> length (c # s)" "utf8 (drop (utf8_len c) (c # s))"
      "list_all is_continuation (take (utf8_len c - 1) s)"
    using assms k by (auto simp: utf8.simps(2) Let_def)
  show "utf8_len c \<le> 4" by (simp add: utf8_len_def Let_def)
  show "utf8 (take (utf8_len c) (c # s))" using assms k by (auto simp: utf8.simps(2) Let_def)
qed

lemma boundary_inside:
  assumes "utf8 (c # s)" and "0 < i" and "i < utf8_len c"
  shows "\<not> is_char_boundary (c # s) i"
proof -
  note first = utf8_first [OF assms(1)]
  obtain j where j: "i = Suc j" using assms(2) by (cases i) auto
  with assms(3) first(3) have "j < length (take (utf8_len c - 1) s)" by auto
  with first(6) have "is_continuation (s ! j)" unfolding list_all_length by auto
  with j assms first(3) show ?thesis by (auto simp: is_char_boundary_def)
qed

lemma utf8_split:
  "utf8 s \<Longrightarrow> is_char_boundary s i \<Longrightarrow> utf8 (take i s) \<and> utf8 (drop i s)"
proof (induction s arbitrary: i rule: length_induct)
  case (1 s)
  show ?case
  proof (cases s)
    case (Cons c cs)
    note first = utf8_first [OF "1.prems"(1) [unfolded Cons]]
    let ?k = "utf8_len c"
    show ?thesis
    proof (cases "i = 0 \<or> ?k \<le> i")
      case False
      with boundary_inside [OF "1.prems"(1) [unfolded Cons]] "1.prems"(2) Cons show ?thesis by auto
    next
      case True
      show ?thesis
      proof (cases "i = 0")
        case True
        with "1.prems" show ?thesis by simp
      next
        case False
        with True have k: "?k \<le> i" by simp
        let ?d = "drop ?k s"
        have split: "s = take ?k s @ ?d" by simp
        have ud: "utf8 ?d" and ut: "utf8 (take ?k s)" using first Cons by simp_all
        have len: "length (take ?k s) = ?k" using first Cons by simp
        have "is_char_boundary ?d (i - ?k)"
        proof (cases "i = ?k")
          case True
          then show ?thesis by simp
        next
          case False
          with k have "\<not> i \<le> length (take ?k s)" using len by simp
          then show ?thesis using "1.prems"(2) boundary_append [OF ud, of "take ?k s" i] len
            boundary_le [OF "1.prems"(2)] k by simp
        qed
        moreover have "length ?d < length s" using first Cons by simp
        ultimately have both: "utf8 (take (i - ?k) ?d)" "utf8 (drop (i - ?k) ?d)"
          using "1.IH" ud by blast+
        have "take i s = take ?k s @ take (i - ?k) ?d" using k by (simp add: min_def flip: take_add)
        moreover have "drop i s = drop (i - ?k) ?d" using k by simp
        ultimately show ?thesis using both ut utf8_append by simp
      qed
    qed
  qed simp
qed

lemmas utf8_take = utf8_split [THEN conjunct1] and utf8_drop = utf8_split [THEN conjunct2]

lemma next_boundary:
  assumes "utf8 s" "is_char_boundary s i" "i < length s"
  shows "\<exists>j. i < j \<and> j \<le> i + 4 \<and> is_char_boundary s j"
proof -
  have u: "utf8 (drop i s)" using assms utf8_drop by blast
  obtain c cs where d: "drop i s = c # cs" using assms(3) by (cases "drop i s") auto
  note first = utf8_first [OF u [unfolded d]]
  let ?k = "utf8_len c"
  have "is_char_boundary (take (i + ?k) s @ drop ?k (c # cs)) (i + ?k)"
    using boundary_append [OF first(5)] first(3) d assms(3)
    by (metis add.commute boundary_length drop_drop length_append append_take_drop_id length_drop
        length_take min.absorb2 le_add_diff_inverse2 less_imp_le_nat nat_add_left_cancel_le order.refl)
  moreover have "take (i + ?k) s @ drop ?k (c # cs) = s" by (metis append_take_drop_id d drop_drop add.commute)
  ultimately show ?thesis using first(1,2) by (intro exI [of _ "i + ?k"]) simp
qed

lemma floor_down_props:
  "is_char_boundary s (floor_down s i)" "floor_down s i \<le> i"
  "is_char_boundary s j \<Longrightarrow> j \<le> i \<Longrightarrow> j \<le> floor_down s i"
proof -
  show "is_char_boundary s (floor_down s i)" "floor_down s i \<le> i" by (induction i) auto
  show "is_char_boundary s j \<Longrightarrow> j \<le> i \<Longrightarrow> j \<le> floor_down s i" by (induction i) (auto simp: le_Suc_eq)
qed

text \<open>\<open>floor_boundary\<close> is the greatest boundary up to its argument.\<close>

lemma floor_boundary_greatest:
  "floor_boundary s i = k \<longleftrightarrow> is_char_boundary s k \<and> k \<le> i \<and> (\<forall>j \<le> i. is_char_boundary s j \<longrightarrow> j \<le> k)"
proof -
  have props: "is_char_boundary s (floor_boundary s i)" "floor_boundary s i \<le> i"
    "\<And>j. is_char_boundary s j \<Longrightarrow> j \<le> i \<Longrightarrow> j \<le> floor_boundary s i"
    using floor_down_props(1,2) [of s "min i (length s)"] floor_down_props(3) [of s _ "min i (length s)"] boundary_le
    unfolding floor_boundary_def by simp_all
  then show ?thesis by (meson le_antisym)
qed

lemma floor_boundary_props [simp]:
  "is_char_boundary s (floor_boundary s i)" "floor_boundary s i \<le> i" "floor_boundary s i \<le> length s"
  using floor_boundary_greatest [of s i "floor_boundary s i"] boundary_le by auto

lemma floor_boundary_0 [simp]: "floor_boundary s 0 = 0"
  by (simp add: floor_boundary_def)

lemma floor_boundary_ge: "is_char_boundary s j \<Longrightarrow> j \<le> i \<Longrightarrow> j \<le> floor_boundary s i"
  using floor_boundary_greatest [of s i "floor_boundary s i"] by auto

lemma floor_boundary_progress:
  assumes "utf8 s" "is_char_boundary s i" "i < length s" "i + 4 \<le> k"
  shows "i < floor_boundary s k"
proof -
  obtain j where "i < j" "j \<le> i + 4" "is_char_boundary s j" using next_boundary assms by blast
  with floor_boundary_ge [of s j k] assms(4) show ?thesis by simp
qed

end
