(* ===== verification/Store.thy ===== *)
theory Store
  imports Reducer Store_Log
begin

text \<open>
  The durable store of \<open>backend/src/store.rs\<close>: the tables, appending one event or a batch, the projection
  checkpoints, loading a run, selecting and deleting runs.  A payload column is the event it encodes
  (the codec is \<open>serde\<close>'s), the time of a row an argument.  SQLite statements succeed unless they violate
  a primary key; a transaction that fails leaves the tables as they were.  Not modelled are the file
  change cache that \<open>append\<close> feeds, the schema migration of \<open>open\<close> and page reclamation.
\<close>

section \<open>Columns\<close>

definition event_kind_name :: "event_kind \<Rightarrow> string" where
  "event_kind_name kind = (case kind of
     PlanningStarted _ _ _ _ \<Rightarrow> ''planning_started'' | PlanningFailed _ \<Rightarrow> ''planning_failed''
   | PlannerReviewStarted _ \<Rightarrow> ''planner_review_started''
   | PlannerReviewProgress _ \<Rightarrow> ''planner_review_progress''
   | PlannerPreviewProgress _ \<Rightarrow> ''planner_preview_progress''
   | PlannerTurnProgress _ \<Rightarrow> ''planner_turn_progress''
   | PlannerSteerSubmitted _ _ _ _ \<Rightarrow> ''planner_steer_submitted''
   | PlannerSteerStatus _ _ _ _ \<Rightarrow> ''planner_steer_status''
   | PlannerReviewFinished _ _ \<Rightarrow> ''planner_review_finished''
   | PlannerTurnAborted _ \<Rightarrow> ''planner_turn_aborted''
   | PlannerWorkspaceSelected _ \<Rightarrow> ''planner_workspace_selected''
   | PlannerReworkNoteInjected \<Rightarrow> ''planner_rework_note_injected''
   | PlannerWorkspaceRedirected _ _ _ \<Rightarrow> ''planner_workspace_redirected''
   | PlannerWorkspaceSnapshotted _ _ _ _ _ \<Rightarrow> ''planner_workspace_snapshotted''
   | Created _ _ _ _ \<Rightarrow> ''created'' | Routed _ \<Rightarrow> ''routed'' | Approved _ \<Rightarrow> ''approved''
   | SourceSnapshotted _ \<Rightarrow> ''source_snapshotted'' | SourceFilesRecorded _ \<Rightarrow> ''source_files_recorded''
   | EnvironmentPolicyRequested \<Rightarrow> ''environment_policy_requested''
   | EnvironmentPolicyResolved _ _ \<Rightarrow> ''environment_policy_resolved''
   | EnvironmentInitialized _ \<Rightarrow> ''environment_initialized''
   | ExecutionInputRecorded _ _ \<Rightarrow> ''execution_input_recorded''
   | ExecutionResultRecorded _ _ \<Rightarrow> ''execution_result_recorded''
   | ResultPublished _ \<Rightarrow> ''result_published'' | ResultExecutionStarted _ _ \<Rightarrow> ''result_execution_started''
   | ResultExecutionPrepared _ \<Rightarrow> ''result_execution_prepared''
   | ResultExecutionFinished _ \<Rightarrow> ''result_execution_finished''
   | ResultExecutionFailed _ _ \<Rightarrow> ''result_execution_failed''
   | WorkspaceFilesChanged _ \<Rightarrow> ''workspace_files_changed'' | GraphRevised _ _ _ _ _ \<Rightarrow> ''graph_revised''
   | ManualGraphRevised _ _ _ \<Rightarrow> ''manual_graph_revised'' | DraftEdited _ _ \<Rightarrow> ''draft_edited''
   | Paused _ \<Rightarrow> ''paused'' | FailedNodeModelsUpdated _ _ \<Rightarrow> ''failed_node_models_updated''
   | NodeModelsUpdated _ _ \<Rightarrow> ''node_models_updated''
   | ConversationModelsUpdated _ _ \<Rightarrow> ''conversation_models_updated''
   | RecoveryQueued _ _ _ _ \<Rightarrow> ''recovery_queued'' | StopRequested \<Rightarrow> ''stop_requested''
   | ExecutionStopRequested _ \<Rightarrow> ''execution_stop_requested'' | Rejected \<Rightarrow> ''rejected''
   | Started _ _ _ \<Rightarrow> ''started'' | Prepared _ _ \<Rightarrow> ''prepared'' | Steered _ _ _ _ \<Rightarrow> ''steered''
   | NodeMessaged _ _ _ \<Rightarrow> ''node_messaged'' | Output _ _ \<Rightarrow> ''output'' | Finished _ _ _ _ _ \<Rightarrow> ''finished''
   | Failed _ _ _ _ _ \<Rightarrow> ''failed'' | Blocked _ _ \<Rightarrow> ''blocked''
   | WorkspaceResolved _ _ _ _ \<Rightarrow> ''workspace_resolved'' | Invalidated _ _ _ _ _ _ _ _ \<Rightarrow> ''invalidated''
   | ConversationEdited _ _ _ _ _ _ _ _ _ _ \<Rightarrow> ''conversation_edited''
   | PlannerConversationEdited _ _ _ _ \<Rightarrow> ''planner_conversation_edited''
   | FeedbackQueued _ \<Rightarrow> ''feedback_queued'' | FeedbackResolved _ _ \<Rightarrow> ''feedback_resolved''
   | Feedback _ _ _ \<Rightarrow> ''feedback'' | FeedbackExhausted _ _ _ _ _ \<Rightarrow> ''feedback_exhausted''
   | PublicationStarted _ _ \<Rightarrow> ''publication_started'' | PublicationCompleted _ \<Rightarrow> ''publication_completed''
   | PublicationFailed _ \<Rightarrow> ''publication_failed'' | MergerStarted _ \<Rightarrow> ''merger_started''
   | MergerFinished _ _ _ _ \<Rightarrow> ''merger_finished'' | MergerFailed _ _ _ _ \<Rightarrow> ''merger_failed''
   | Settled \<Rightarrow> ''settled'')"

definition event_execution_id :: "event_kind \<Rightarrow> string option" where
  "event_execution_id kind = (case kind of
     Started e _ _ \<Rightarrow> Some (ex_id e) | MergerStarted e \<Rightarrow> Some (ex_id e)
   | Prepared eid _ \<Rightarrow> Some eid | ExecutionInputRecorded eid _ \<Rightarrow> Some eid
   | ExecutionResultRecorded eid _ \<Rightarrow> Some eid | PlannerWorkspaceSnapshotted eid _ _ _ _ \<Rightarrow> Some eid
   | Steered eid _ _ _ \<Rightarrow> Some eid | Output eid _ \<Rightarrow> Some eid | Finished eid _ _ _ _ \<Rightarrow> Some eid
   | FeedbackExhausted eid _ _ _ _ \<Rightarrow> Some eid | FeedbackResolved eid _ \<Rightarrow> Some eid
   | WorkspaceFilesChanged eid \<Rightarrow> Some eid | WorkspaceResolved eid _ _ _ \<Rightarrow> Some eid
   | MergerFinished eid _ _ _ \<Rightarrow> Some eid | MergerFailed eid _ _ _ \<Rightarrow> Some eid
   | Failed _ eid _ _ _ \<Rightarrow> eid
   | ResultExecutionStarted input _ \<Rightarrow> Some (cr_generation input)
   | ResultExecutionFinished d \<Rightarrow> Some (cr_generation (rd_result d))
   | ResultExecutionFailed generation _ \<Rightarrow> Some generation
   | _ \<Rightarrow> None)"

definition created_planning_ids :: "event_kind \<Rightarrow> string option \<times> string option" where
  "created_planning_ids kind = (case kind of
     Created _ _ planning_id planning \<Rightarrow> (planning_id, map_option ps_planning_id planning)
   | PlanningStarted _ _ planning _ \<Rightarrow> (Some (ps_planning_id planning), None)
   | PlanningFailed planning \<Rightarrow> (Some (ps_planning_id planning), None)
   | PlannerReviewStarted planning \<Rightarrow> (Some (ps_planning_id planning), None)
   | PlannerReviewFinished planning _ \<Rightarrow> (Some (ps_planning_id planning), None)
   | PlannerTurnAborted planning \<Rightarrow> (Some (ps_planning_id planning), None)
   | GraphRevised _ _ planning _ _ \<Rightarrow> (Some (ps_planning_id planning), None)
   | _ \<Rightarrow> (None, None))"

section \<open>The tables\<close>

record event_row =
  er_sequence :: int
  er_run :: string
  er_timestamp :: nat
  er_payload :: event_kind
  er_planning_id :: "string option"
  er_nested_planning_id :: "string option"
  er_kind :: "string option"
  er_execution_id :: "string option"

text \<open>A checkpoint payload: \<open>nodeMessageQueueVersion\<close> and the projection, as reading it back gives it.\<close>

record checkpoint =
  ck_sequence :: int
  ck_queue_version :: nat
  ck_state :: snapshot

text \<open>\<open>so_last_sequence\<close> is the counter of the \<open>AUTOINCREMENT\<close> key, which deletion does not lower.  The
  last two fields are the handle's: events since the last checkpoint and the cached transcript ends.\<close>

record store =
  so_events :: "event_row list"
  so_last_sequence :: int
  so_checkpoints :: "(string, checkpoint) btree_map"
  so_logs :: "log_row list"
  so_selection :: "string option option"
  so_deleted :: "string list"
  so_cleanup :: "(string, string) btree_map"
  so_appended :: nat
  so_offsets :: "(string, nat) btree_map"

definition store_empty :: store where
  "store_empty = \<lparr>so_events = [], so_last_sequence = 0, so_checkpoints = [], so_logs = [], so_selection = None,
     so_deleted = [], so_cleanup = [], so_appended = 0, so_offsets = []\<rparr>"

text \<open>The result of an operation on the store and the state it projects: \<open>Error\<close> carries what the call left
  behind, \<open>Panic\<close> is a panic of the reducer.\<close>

datatype 'a outcome = Ok 'a | Error string 'a | Panic

section \<open>Queries\<close>

definition run_was_deleted :: "string \<Rightarrow> store \<Rightarrow> bool" where
  "run_was_deleted run db \<longleftrightarrow> run \<in> set (so_deleted db)"

definition contains_run :: "string \<Rightarrow> store \<Rightarrow> bool" where
  "contains_run run db \<longleftrightarrow> (\<exists>r \<in> set (so_events db). er_run r = run)"

text \<open>\<open>GROUP BY run_id ORDER BY MAX(sequence) DESC\<close>: the runs, latest event first.\<close>

definition stored_runs :: "store \<Rightarrow> string list" where
  "stored_runs db = fold push_new (map er_run (rev (so_events db))) []"

definition selected_run :: "store \<Rightarrow> string option" where
  "selected_run db = (case so_selection db of
     Some run \<Rightarrow> run | None \<Rightarrow> (case stored_runs db of [] \<Rightarrow> None | run # _ \<Rightarrow> Some run))"

definition select_run :: "string option \<Rightarrow> store \<Rightarrow> store" where
  "select_run run db = db\<lparr>so_selection := Some run\<rparr>"

definition run_for_planning_id :: "string \<Rightarrow> store \<Rightarrow> string option" where
  "run_for_planning_id pid db =
     map_option er_run (find (\<lambda>r. er_planning_id r = Some pid \<or> er_nested_planning_id r = Some pid) (rev (so_events db)))"

definition created_repository :: "string \<Rightarrow> event_row \<Rightarrow> string option" where
  "created_repository pid r = (case er_payload r of
     Created _ c planning_id planning \<Rightarrow>
       if planning_id = Some pid \<or> map_option ps_planning_id planning = Some pid then Some (cf_repository c) else None
   | _ \<Rightarrow> None)"

definition find_repository_by_planning_id :: "string \<Rightarrow> store \<Rightarrow> string option" where
  "find_repository_by_planning_id pid db =
     first_some (created_repository pid)
       (filter (\<lambda>r. er_planning_id r = Some pid) (so_events db)
        @ filter (\<lambda>r. er_nested_planning_id r = Some pid) (so_events db))"

text \<open>\<open>delivered_heads\<close>: the pending heads of the last start, moved over by each completion.\<close>

fun delivered_step :: "event_row \<Rightarrow> string list \<times> string list \<Rightarrow> string list \<times> string list" where
  "delivered_step r (pending, delivered) = (case er_payload r of
     PublicationStarted _ heads \<Rightarrow> (heads, delivered)
   | PublicationCompleted _ \<Rightarrow> ([], fold push_new pending delivered)
   | _ \<Rightarrow> (pending, delivered))"

definition delivered_heads :: "string \<Rightarrow> store \<Rightarrow> string list" where
  "delivered_heads run db =
     snd (fold delivered_step (filter (\<lambda>r. er_run r = run
       \<and> er_kind r \<in> set [Some ''publication_started'', Some ''publication_completed'']) (so_events db)) ([], []))"

section \<open>Checkpoints\<close>

definition execution_metadata :: "execution \<Rightarrow> execution" where
  "execution_metadata e = e\<lparr>ex_output := [], ex_output_bytes := (if ex_status e = ''running''
     then max (length (ex_output e)) (ex_output_bytes e) else ex_output_bytes e)\<rparr>"

text \<open>\<open>NodeState\<close> skips its legacy fields when it is written and renames \<open>done\<close> when it is read.\<close>

definition reread_node :: "node_state \<Rightarrow> node_state" where
  "reread_node n = n\<lparr>ns_status := deserialize_node_status (ns_status n), ns_legacy_files_override := None,
     ns_legacy_files_version := None, ns_legacy_baseline_files_version := None, ns_legacy_files_changed := False\<rparr>"

definition checkpoint_projection :: "snapshot \<Rightarrow> snapshot" where
  "checkpoint_projection st = st\<lparr>st_planning_turns := [], st_source_files := None, st_events := [],
     st_nodes := map (\<lambda>(name, n). (name, reread_node n)) (st_nodes st),
     st_executions := map execution_metadata (st_executions st),
     st_mergers := map execution_metadata (st_mergers st)\<rparr>"

definition save_checkpoint :: "snapshot \<Rightarrow> store \<Rightarrow> store" where
  "save_checkpoint st db =
     (if st_events st = [] then db
      else db\<lparr>so_checkpoints := bt_insert (st_run_id st)
        \<lparr>ck_sequence = ev_sequence (last (st_events st)), ck_queue_version = 1, ck_state = checkpoint_projection st\<rparr>
        (so_checkpoints db)\<rparr>)"

definition checkpoint_interval :: nat where
  "checkpoint_interval = 128"

definition note_appended :: "snapshot \<Rightarrow> nat \<Rightarrow> store \<Rightarrow> store" where
  "note_appended st added db =
     (let pending = so_appended db + added in
      if checkpoint_interval \<le> pending then save_checkpoint st (db\<lparr>so_appended := 0\<rparr>)
      else db\<lparr>so_appended := pending\<rparr>)"

definition forget_log_cursor :: "string \<Rightarrow> store \<Rightarrow> store" where
  "forget_log_cursor eid db = db\<lparr>so_offsets := bt_retain (\<lambda>k. k \<noteq> eid) (so_offsets db)\<rparr>"

section \<open>Streamed output\<close>

definition deleted_message :: string where
  "deleted_message = ''Run was deleted; stale writers cannot recreate it''"

text \<open>Coalesce a batch by execution; \<open>None\<close> when it holds another event.  The code iterates a \<open>HashMap\<close>,
  whose order is unspecified; here it is the order of the ids.\<close>

fun collect_texts :: "event_kind list \<Rightarrow> (string, string) btree_map \<Rightarrow> (string, string) btree_map option" where
  "collect_texts [] texts = Some texts"
| "collect_texts (Output eid chunk # kinds) texts =
     collect_texts kinds (bt_update eid (\<lambda>t. t @ chunk) (bt_entry eid [] texts))"
| "collect_texts (kind # kinds) texts = None"

text \<open>The transaction: append every text, remember where each transcript ends now.\<close>

fun append_texts ::
  "string \<Rightarrow> store \<Rightarrow> (string \<times> string) list \<Rightarrow> log_row list \<Rightarrow> (string, nat) btree_map
   \<Rightarrow> (string + log_row list \<times> (string, nat) btree_map) option" where
  "append_texts run db [] t offsets = Some (Inr (t, offsets))"
| "append_texts run db ((eid, chunk) # texts) t offsets =
     (let offset = (case bt_get (so_offsets db) eid of Some offset \<Rightarrow> offset | None \<Rightarrow> log_bytes run eid t) in
      case append_chunks run eid offset chunk t of
        None \<Rightarrow> None
      | Some (Inl e) \<Rightarrow> Some (Inl e)
      | Some (Inr t') \<Rightarrow> append_texts run db texts t' (bt_insert eid (offset + length chunk) offsets))"

definition stream_text :: "env \<Rightarrow> (string, nat) btree_map \<Rightarrow> string \<times> string \<Rightarrow> snapshot \<Rightarrow> snapshot" where
  "stream_text en offsets entry st = (case entry of (eid, chunk) \<Rightarrow>
     update_attempt (\<lambda>e. ex_id e = eid)
       (\<lambda>e. (append_live_output (en_parse en) chunk e)\<lparr>ex_output_bytes :=
          (case bt_get offsets eid of Some offset \<Rightarrow> offset | None \<Rightarrow> 0)\<rparr>) st)"

definition append_logs :: "env \<Rightarrow> event_kind list \<Rightarrow> snapshot \<times> store \<Rightarrow> (snapshot \<times> store) outcome" where
  "append_logs en kinds s = (case s of (st, db) \<Rightarrow>
     if kinds = [] then Ok (st, db)
     else if run_was_deleted (st_run_id st) db then Error deleted_message (st, db)
     else case collect_texts kinds [] of
       None \<Rightarrow> Error ''Expected output batch'' (st, db)
     | Some texts \<Rightarrow>
         (case append_texts (st_run_id st) db texts (so_logs db) [] of
            None \<Rightarrow> Panic
          | Some (Inl e) \<Rightarrow> Error e (st, db)
          | Some (Inr (t, offsets)) \<Rightarrow>
              let st = refresh_metrics en (fold (stream_text en offsets) texts st);
                  db = db\<lparr>so_logs := t, so_offsets := fold (\<lambda>(k, v). bt_insert k v) offsets (so_offsets db)\<rparr>
              in Ok (st, note_appended st (length kinds) db)))"

section \<open>Appending\<close>

definition replace_logs :: "string \<Rightarrow> string \<Rightarrow> string \<Rightarrow> store \<Rightarrow> (string + store) option" where
  "replace_logs run eid txt db = map_option (map_result (\<lambda>t.
     db\<lparr>so_logs := t, so_offsets := bt_insert eid (length txt) (so_offsets db)\<rparr>)) (replace_rows run eid txt (so_logs db))"

text \<open>Transcripts never enter the event log: the text of a \<open>Finished\<close>, \<open>Started\<close> or \<open>MergerStarted\<close> event goes
  to the transcript table first.  The second result is the text an attempt starts with.\<close>

definition detach_output ::
  "env \<Rightarrow> string \<Rightarrow> event_kind \<Rightarrow> store \<Rightarrow> (string + event_kind \<times> (string \<times> string) option \<times> store) option" where
  "detach_output en run kind db = (case kind of
     Finished eid head output bytes metrics \<Rightarrow>
       if output = [] then Some (Inr (kind, None, db))
       else
         let metrics = (case metrics of Some m \<Rightarrow> Some m
               | None \<Rightarrow> Some (parse_execution_metrics (en_parse en) output))
         in map_option (map_result (\<lambda>db. (Finished eid head [] (length output) metrics, None, db)))
              (replace_logs run eid output db)
   | Started e sequences fresh \<Rightarrow>
       if ex_output e = [] then Some (Inr (kind, None, db))
       else map_option (map_result (\<lambda>db. (Started (e\<lparr>ex_output := [], ex_output_bytes := length (ex_output e)\<rparr>)
              sequences fresh, Some (ex_id e, ex_output e), db))) (replace_logs run (ex_id e) (ex_output e) db)
   | MergerStarted e \<Rightarrow>
       if ex_output e = [] then Some (Inr (kind, None, db))
       else map_option (map_result (\<lambda>db. (MergerStarted (e\<lparr>ex_output := [], ex_output_bytes := length (ex_output e)\<rparr>),
              Some (ex_id e, ex_output e), db))) (replace_logs run (ex_id e) (ex_output e) db)
   | _ \<Rightarrow> Some (Inr (kind, None, db)))"

definition event_of :: "event_row \<Rightarrow> event" where
  "event_of r = \<lparr>ev_sequence = er_sequence r, ev_timestamp = er_timestamp r, ev_kind = er_payload r\<rparr>"

definition new_row :: "string \<Rightarrow> nat \<Rightarrow> event_kind \<Rightarrow> store \<Rightarrow> event_row" where
  "new_row run ts kind db = \<lparr>er_sequence = so_last_sequence db + 1, er_run = run, er_timestamp = ts, er_payload = kind,
     er_planning_id = fst (created_planning_ids kind), er_nested_planning_id = snd (created_planning_ids kind),
     er_kind = Some (event_kind_name kind), er_execution_id = event_execution_id kind\<rparr>"

definition insert_event :: "event_row \<Rightarrow> store \<Rightarrow> store" where
  "insert_event r db = db\<lparr>so_events := so_events db @ [r], so_last_sequence := er_sequence r\<rparr>"

definition ends_attempt :: "event_kind \<Rightarrow> bool" where
  "ends_attempt kind = (case kind of
     Finished _ _ _ _ _ \<Rightarrow> True | Failed _ _ _ _ _ \<Rightarrow> True | MergerFinished _ _ _ _ \<Rightarrow> True
   | MergerFailed _ _ _ _ \<Rightarrow> True | _ \<Rightarrow> False)"

definition show_initial :: "env \<Rightarrow> (string \<times> string) option \<Rightarrow> snapshot \<Rightarrow> snapshot" where
  "show_initial en initial st = (case initial of
     None \<Rightarrow> st
   | Some (eid, txt) \<Rightarrow>
       refresh_metrics en (update_attempt (\<lambda>e. ex_id e = eid) (append_live_output (en_parse en) txt) st))"

definition append_event :: "env \<Rightarrow> nat \<Rightarrow> event_kind \<Rightarrow> snapshot \<times> store \<Rightarrow> (snapshot \<times> store) outcome" where
  "append_event en ts kind s = (case s of (st, db) \<Rightarrow>
     case kind of Output _ _ \<Rightarrow> append_logs en [kind] s
   | _ \<Rightarrow>
     if run_was_deleted (st_run_id st) db then Error deleted_message s
     else case detach_output en (st_run_id st) kind db of
       None \<Rightarrow> Panic
     | Some (Inl e) \<Rightarrow> Error e s
     | Some (Inr (kind, initial, db)) \<Rightarrow>
         let row = new_row (st_run_id st) ts kind db; db = insert_event row db in
         case apply_event en (event_of row) st of
           None \<Rightarrow> Panic
         | Some st \<Rightarrow>
             let st = show_initial en initial st;
                 db = (if ends_attempt kind
                   then save_checkpoint st
                     (case event_execution_id kind of Some eid \<Rightarrow> forget_log_cursor eid db | None \<Rightarrow> db)
                   else db)
             in Ok (st, note_appended st 1 db))"

text \<open>A batch of events without transcripts is one transaction; any other batch is appended one by one.\<close>

definition needs_single :: "event_kind \<Rightarrow> bool" where
  "needs_single kind = (case kind of
     Output _ _ \<Rightarrow> True | Started _ _ _ \<Rightarrow> True | MergerStarted _ \<Rightarrow> True
   | Finished _ _ output _ _ \<Rightarrow> output \<noteq> [] | _ \<Rightarrow> False)"

fun append_each :: "env \<Rightarrow> (nat \<times> event_kind) list \<Rightarrow> snapshot \<times> store \<Rightarrow> (snapshot \<times> store) outcome" where
  "append_each en [] s = Ok s"
| "append_each en ((ts, kind) # items) s = (case append_event en ts kind s of
     Ok s' \<Rightarrow> append_each en items s' | failure \<Rightarrow> failure)"

fun insert_rows :: "string \<Rightarrow> (nat \<times> event_kind) list \<Rightarrow> store \<Rightarrow> event list \<Rightarrow> store \<times> event list" where
  "insert_rows run [] db events = (db, events)"
| "insert_rows run ((ts, kind) # items) db events =
     (let row = new_row run ts kind db in insert_rows run items (insert_event row db) (events @ [event_of row]))"

definition is_finished :: "event_kind \<Rightarrow> bool" where
  "is_finished kind = (case kind of Finished _ _ _ _ _ \<Rightarrow> True | _ \<Rightarrow> False)"

definition forget_finished :: "event \<Rightarrow> store \<Rightarrow> store" where
  "forget_finished ev db = (if is_finished (ev_kind ev)
     then (case event_execution_id (ev_kind ev) of Some eid \<Rightarrow> forget_log_cursor eid db | None \<Rightarrow> db) else db)"

definition append_batch :: "env \<Rightarrow> (nat \<times> event_kind) list \<Rightarrow> snapshot \<times> store \<Rightarrow> (snapshot \<times> store) outcome" where
  "append_batch en items s = (case s of (st, db) \<Rightarrow>
     if \<forall>(_, kind) \<in> set items. (case kind of Output _ _ \<Rightarrow> True | _ \<Rightarrow> False) then append_logs en (map snd items) s
     else if \<exists>(_, kind) \<in> set items. needs_single kind then append_each en items s
     else if run_was_deleted (st_run_id st) db then Error deleted_message s
     else case insert_rows (st_run_id st) items db [] of
       (db, events) \<Rightarrow>
         (case apply_all en events st of
            None \<Rightarrow> Panic
          | Some st \<Rightarrow>
              let db = fold forget_finished events db;
                  db = (if \<exists>ev \<in> set events. is_finished (ev_kind ev) then save_checkpoint st db else db)
              in Ok (st, note_appended st (length items) db)))"

section \<open>Loading\<close>

text \<open>A checkpoint counts when the event it ends with still exists, the queue version is current and the
  projection is of this run and that event.\<close>

definition usable_checkpoint :: "string \<Rightarrow> store \<Rightarrow> (int \<times> snapshot) option" where
  "usable_checkpoint run db = (case bt_get (so_checkpoints db) run of
     None \<Rightarrow> None
   | Some c \<Rightarrow>
       if (\<exists>r \<in> set (so_events db). er_run r = run \<and> er_sequence r = ck_sequence c)
          \<and> ck_queue_version c = 1 \<and> st_run_id (ck_state c) = run
          \<and> (st_events (ck_state c) = [] \<or> ev_sequence (last (st_events (ck_state c))) = ck_sequence c)
       then Some (ck_sequence c, ck_state c) else None)"

definition new_run :: "string \<Rightarrow> snapshot" where
  "new_run run = snapshot_default\<lparr>st_run_id := run\<rparr>"

definition clear_output :: "execution \<Rightarrow> execution" where
  "clear_output e = e\<lparr>ex_output := []\<rparr>"

text \<open>The rows a load reads: no streamed output of any age; \<open>oversize\<close> tells the legacy \<open>Finished\<close> payloads
  beyond 4096 bytes, of which only the ids are read.\<close>

definition is_output_row :: "event_row \<Rightarrow> bool" where
  "is_output_row r \<longleftrightarrow> er_kind r = Some ''output''
     \<or> (er_kind r = None \<and> (case er_payload r of Output _ _ \<Rightarrow> True | _ \<Rightarrow> False))"

definition read_payload :: "(event_kind \<Rightarrow> bool) \<Rightarrow> event_row \<Rightarrow> event_kind" where
  "read_payload oversize r = (case er_payload r of
     Finished eid head output bytes metrics \<Rightarrow>
       if oversize (er_payload r) then Finished eid head [] 0 None else er_payload r
   | kind \<Rightarrow> kind)"

definition read_row :: "(event_kind \<Rightarrow> bool) \<Rightarrow> event_row \<Rightarrow> event" where
  "read_row oversize r = \<lparr>ev_sequence = er_sequence r, ev_timestamp = er_timestamp r, ev_kind = read_payload oversize r\<rparr>"

definition replay_event :: "env \<Rightarrow> int \<Rightarrow> event \<Rightarrow> snapshot \<Rightarrow> snapshot option" where
  "replay_event en sequence ev st =
     (if sequence < ev_sequence ev then apply_event en ev st
      else Some (st\<lparr>st_events := st_events st @ [ev]\<rparr>))"

definition measure_log :: "string \<Rightarrow> store \<Rightarrow> execution \<Rightarrow> execution" where
  "measure_log run db e =
     e\<lparr>ex_output_bytes := max (ex_output_bytes e) (log_bytes run (ex_id e) (so_logs db)), ex_output := []\<rparr>"

definition finish_load :: "env \<Rightarrow> string \<Rightarrow> store \<Rightarrow> snapshot \<Rightarrow> snapshot" where
  "finish_load en run db st =
     (let st = rebuild_planning_turns st;
          st = backfill_snapshot st;
          st = hydrate_legacy_model_config st;
          st = st\<lparr>st_executions := map (measure_log run db) (st_executions st),
                  st_mergers := map (measure_log run db) (st_mergers st)\<rparr>
      in refresh_metrics en st)"

text \<open>\<open>None\<close> is a panic of the reducer on the stored events.\<close>

definition load_run :: "env \<Rightarrow> (event_kind \<Rightarrow> bool) \<Rightarrow> string \<Rightarrow> store \<Rightarrow> (string + snapshot) option" where
  "load_run en oversize run db =
     (if \<not> contains_run run db then Some (Inl (''Run does not exist: '' @ run))
      else
        let (sequence, st) = (case usable_checkpoint run db of Some c \<Rightarrow> c | None \<Rightarrow> (0, new_run run));
            st = st\<lparr>st_events := [], st_executions := map clear_output (st_executions st),
                    st_mergers := map clear_output (st_mergers st)\<rparr>;
            events = map (read_row oversize) (filter (\<lambda>r. er_run r = run \<and> \<not> is_output_row r) (so_events db))
        in map_option (\<lambda>st. Inr (finish_load en run db st)) (try_fold (replay_event en sequence) events st))"

section \<open>Deleting\<close>

definition enqueue_cleanup :: "string \<Rightarrow> string \<Rightarrow> store \<Rightarrow> store" where
  "enqueue_cleanup run manifest db = db\<lparr>so_cleanup := bt_insert run manifest (so_cleanup db)\<rparr>"

definition delete_run :: "string \<times> string option \<Rightarrow> store \<Rightarrow> store" where
  "delete_run entry db = (case entry of (run, cleanup) \<Rightarrow>
     let db = (case cleanup of Some manifest \<Rightarrow> enqueue_cleanup run manifest db | None \<Rightarrow> db)
     in db\<lparr>so_deleted := push_new run (so_deleted db),
           so_selection := (if so_selection db = Some (Some run) then Some None else so_selection db),
           so_checkpoints := bt_retain (\<lambda>k. k \<noteq> run) (so_checkpoints db),
           so_events := filter (\<lambda>r. er_run r \<noteq> run) (so_events db),
           so_logs := filter (\<lambda>r. lg_run r \<noteq> run) (so_logs db)\<rparr>)"

definition delete_runs :: "(string \<times> string option) list \<Rightarrow> store \<Rightarrow> store" where
  "delete_runs runs db = (fold delete_run runs db)\<lparr>so_offsets := []\<rparr>"

definition clear_store :: "(string \<times> string) list \<Rightarrow> store \<Rightarrow> store" where
  "clear_store cleanups db =
     (let db = fold (\<lambda>(run, manifest) db. let db = enqueue_cleanup run manifest db
            in db\<lparr>so_deleted := push_new run (so_deleted db)\<rparr>) cleanups db
      in db\<lparr>so_deleted := fold push_new (map er_run (so_events db)) (so_deleted db), so_selection := Some None,
            so_checkpoints := [], so_events := [], so_logs := [], so_offsets := []\<rparr>)"

end
