(* ===== verification/Store_Legacy.thy ===== *)
theory Store_Legacy
  imports Store
begin

text \<open>
  Transcripts of databases that still kept streamed output among the events: reading such a transcript,
  copying it to the transcript table on first use, and the offline migration that empties the events
  (\<open>legacy_transcript\<close>, \<open>ensure_legacy_logs\<close>, \<open>backfill_event_index\<close> and \<open>migrate_legacy_logs\<close> of
  \<open>backend/src/store/logs.rs\<close> and \<open>store.rs\<close>).  \<open>payload_id\<close> is the execution id that the SQL text
  functions find in a payload without an index column; \<open>oversize\<close> tells payloads beyond 4096 bytes.
\<close>

section \<open>Reading\<close>

definition legacy_rows :: "(event_kind \<Rightarrow> string option) \<Rightarrow> string \<Rightarrow> string \<Rightarrow> store \<Rightarrow> event_row list" where
  "legacy_rows payload_id run eid db = filter (\<lambda>r. er_run r = run
     \<and> (er_execution_id r = Some eid \<or> (er_kind r = None \<and> payload_id (er_payload r) = Some eid))) (so_events db)"

text \<open>The text so far, and whether a \<open>Finished\<close> event has given the whole of it.\<close>

definition transcript_step :: "event_row \<Rightarrow> string \<times> bool \<Rightarrow> string \<times> bool" where
  "transcript_step r s = (case s of (text_so_far, authoritative) \<Rightarrow>
     case er_payload r of
       Started e _ _ \<Rightarrow> if authoritative then s else (ex_output e, authoritative)
     | MergerStarted e \<Rightarrow> if authoritative then s else (ex_output e, authoritative)
     | Output _ chunk \<Rightarrow> if authoritative then s else (text_so_far @ chunk, authoritative)
     | Finished _ _ output _ _ \<Rightarrow> if output \<noteq> [] then (output, True) else s
     | MergerFailed _ error _ _ \<Rightarrow>
         if authoritative then s
         else (text_so_far @ CHR 0x0A # ''Merger failed: '' @ error @ [CHR 0x0A], authoritative)
     | _ \<Rightarrow> s)"

definition is_output_kind :: "event_kind \<Rightarrow> bool" where
  "is_output_kind kind = (case kind of Output _ _ \<Rightarrow> True | _ \<Rightarrow> False)"

definition legacy_transcript ::
  "(event_kind \<Rightarrow> string option) \<Rightarrow> string \<Rightarrow> string \<Rightarrow> store \<Rightarrow> string \<times> event_row list" where
  "legacy_transcript payload_id run eid db =
     (let rs = legacy_rows payload_id run eid db
      in (fst (fold transcript_step rs ([], False)), filter (\<lambda>r. \<not> is_output_kind (er_payload r)) rs))"

text \<open>Copy on first use.  The outer option is the one of \<open>insert_chunks\<close>.\<close>

definition ensure_legacy_logs ::
  "(event_kind \<Rightarrow> string option) \<Rightarrow> string \<Rightarrow> string \<Rightarrow> store \<Rightarrow> (string + nat \<times> store) option" where
  "ensure_legacy_logs payload_id run eid db =
     (let existing = log_bytes run eid (so_logs db) in
      if 0 < existing then Some (Inr (existing, db))
      else
        let content = fst (legacy_transcript payload_id run eid db)
        in map_option (map_result (\<lambda>t. (length content, db\<lparr>so_logs := t\<rparr>)))
             (insert_chunks run eid 0 content True 0 (so_logs db)))"

section \<open>Migration\<close>

text \<open>\<open>row_index\<close> is what \<open>json_extract\<close> finds in the payload of a row without index columns.\<close>

definition backfill_event_index :: "(event_kind \<Rightarrow> string \<times> string option) \<Rightarrow> store \<Rightarrow> nat \<times> store" where
  "backfill_event_index row_index db =
     (length (filter (\<lambda>r. er_kind r = None) (so_events db)),
      db\<lparr>so_events := map (\<lambda>r. if er_kind r = None
        then r\<lparr>er_kind := Some (fst (row_index (er_payload r))), er_execution_id := snd (row_index (er_payload r))\<rparr>
        else r) (so_events db)\<rparr>)"

definition needs_migration :: "(event_kind \<Rightarrow> bool) \<Rightarrow> store \<Rightarrow> event_row \<Rightarrow> bool" where
  "needs_migration oversize db r = (case er_execution_id r of
     None \<Rightarrow> False
   | Some eid \<Rightarrow>
       er_kind r = Some ''output''
       \<or> (er_kind r = Some ''finished'' \<and> (oversize (er_payload r)
            \<or> (case er_payload r of Finished _ _ output _ _ \<Rightarrow> output \<noteq> [] | _ \<Rightarrow> False)))
       \<or> (er_kind r \<in> set [Some ''started'', Some ''merger_started'']
            \<and> (case er_payload r of Started e _ _ \<Rightarrow> ex_output e \<noteq> [] | MergerStarted e \<Rightarrow> ex_output e \<noteq> [] | _ \<Rightarrow> False))
       \<or> (er_kind r = Some ''merger_failed'' \<and> \<not> (\<exists>l \<in> set (so_logs db). lg_execution l = eid)))"

definition migration_ids :: "(event_kind \<Rightarrow> bool) \<Rightarrow> store \<Rightarrow> (string \<times> string) list" where
  "migration_ids oversize db = fold push_new
     (List.map_filter (\<lambda>r. if needs_migration oversize db r
        then map_option (\<lambda>eid. (er_run r, eid)) (er_execution_id r) else None) (so_events db)) []"

text \<open>The terminal events lose their text and gain its length and metrics.\<close>

definition migrated_payload :: "(string \<Rightarrow> json option) \<Rightarrow> string \<Rightarrow> event_kind \<Rightarrow> event_kind option" where
  "migrated_payload parse content kind =
     (let measure = (\<lambda>metrics. case metrics of Some m \<Rightarrow> Some m | None \<Rightarrow> Some (parse_execution_metrics parse content)) in
      case kind of
        Finished eid head output bytes metrics \<Rightarrow> Some (Finished eid head [] (length content) (measure metrics))
      | Failed name eid error bytes metrics \<Rightarrow> Some (Failed name eid error (length content) (measure metrics))
      | MergerFinished eid head bytes metrics \<Rightarrow> Some (MergerFinished eid head (length content) (measure metrics))
      | MergerFailed eid error bytes metrics \<Rightarrow> Some (MergerFailed eid error (length content) (measure metrics))
      | Started e sequences fresh \<Rightarrow>
          if ex_output e \<noteq> [] then Some (Started (e\<lparr>ex_output := []\<rparr>) sequences fresh) else None
      | MergerStarted e \<Rightarrow> if ex_output e \<noteq> [] then Some (MergerStarted (e\<lparr>ex_output := []\<rparr>)) else None
      | _ \<Rightarrow> None)"

record migration_report =
  mr_backfilled_rows :: nat
  mr_migrated_executions :: nat
  mr_updated_rows :: nat
  mr_deleted_chunks :: nat

text \<open>One execution, in one transaction.\<close>

definition migrate_one ::
  "(string \<Rightarrow> json option) \<Rightarrow> (event_kind \<Rightarrow> string option) \<Rightarrow> string \<Rightarrow> string \<Rightarrow> store \<times> migration_report
   \<Rightarrow> (string + store \<times> migration_report) option" where
  "migrate_one parse payload_id run eid s = (case s of (db, report) \<Rightarrow>
     let (content, events) = legacy_transcript payload_id run eid db in
     case insert_chunks run eid 0 content True 0 (so_logs db) of
       None \<Rightarrow> None
     | Some (Inl e) \<Rightarrow> Some (Inl e)
     | Some (Inr t) \<Rightarrow>
         (case execution_log_page run eid 0 (log_bytes run eid t) t of
            Inl e \<Rightarrow> Some (Inl e)
          | Inr page \<Rightarrow>
              if lp_content page \<noteq> content
              then Some (Inl (''Legacy log mismatch for '' @ eid @ ''; source events preserved''))
              else
                let touched = (\<lambda>r. er_sequence r \<in> er_sequence ` set events \<and> migrated_payload parse content (er_payload r) \<noteq> None);
                    gone = (\<lambda>r. er_execution_id r = Some eid \<and> er_run r = run \<and> er_kind r = Some ''output'');
                    rows = map (\<lambda>r. if touched r
                      then r\<lparr>er_payload := (case migrated_payload parse content (er_payload r) of Some k \<Rightarrow> k | None \<Rightarrow> er_payload r)\<rparr>
                      else r) (so_events db)
                in Some (Inr (forget_log_cursor eid
                     (db\<lparr>so_logs := t, so_events := filter (\<lambda>r. \<not> gone r) rows,
                         so_checkpoints := bt_retain (\<lambda>k. k \<noteq> run) (so_checkpoints db)\<rparr>),
                   report\<lparr>mr_updated_rows := mr_updated_rows report + length (filter touched (so_events db)),
                     mr_deleted_chunks := mr_deleted_chunks report + length (filter gone rows),
                     mr_migrated_executions := mr_migrated_executions report + 1\<rparr>))))"

text \<open>A failing execution stops the migration; those before it stay committed.\<close>

fun migrate_all ::
  "(string \<Rightarrow> json option) \<Rightarrow> (event_kind \<Rightarrow> string option) \<Rightarrow> (string \<times> string) list \<Rightarrow> store \<times> migration_report
   \<Rightarrow> (store \<times> migration_report) outcome" where
  "migrate_all parse payload_id [] s = Ok s"
| "migrate_all parse payload_id ((run, eid) # ids) s = (case migrate_one parse payload_id run eid s of
     None \<Rightarrow> Panic
   | Some (Inl e) \<Rightarrow> Error e s
   | Some (Inr s') \<Rightarrow> migrate_all parse payload_id ids s')"

definition migrate_legacy_logs ::
  "(string \<Rightarrow> json option) \<Rightarrow> (event_kind \<Rightarrow> string option) \<Rightarrow> (event_kind \<Rightarrow> string \<times> string option)
   \<Rightarrow> (event_kind \<Rightarrow> bool) \<Rightarrow> store \<Rightarrow> (store \<times> migration_report) outcome" where
  "migrate_legacy_logs parse payload_id row_index oversize db =
     (let (n, db) = backfill_event_index row_index db
      in migrate_all parse payload_id (migration_ids oversize db)
           (db, \<lparr>mr_backfilled_rows = n, mr_migrated_executions = 0, mr_updated_rows = 0, mr_deleted_chunks = 0\<rparr>))"

end
