(* ===== verification/Runtime.thy ===== *)
theory Runtime
  imports Store_Legacy
begin

text \<open>
  The core of \<open>Runtime\<close> (\<open>backend/src/runtime.rs\<close>): one run's live state beside the store, the funnel
  \<open>emit\<close>/\<open>emit_outputs\<close> through which every change goes, reopening a run after the backend stopped, and
  the guards commands share.  Git, the file system and the environment records are the record
  \<open>world\<close>: what the runtime asks of them and gets back.  Notifications and the browser's caches are
  not modelled.
\<close>

section \<open>The runtime and its world\<close>

record runtime =
  rn_store :: store
  rn_state :: snapshot
  rn_revision :: u64

text \<open>
  \<open>wd_clock\<close> is the time at which the event of a sequence number is stored.  A \<open>string option\<close> is the
  error of a \<open>Result<(), String>\<close>.
\<close>

record world =
  wd_env :: env
  wd_clock :: "int \<Rightarrow> nat"
  wd_payload_id :: "event_kind \<Rightarrow> string option"
  wd_oversize :: "event_kind \<Rightarrow> bool"
  wd_render :: "diagnostic list \<Rightarrow> string"
  wd_remember :: "snapshot \<Rightarrow> event_kind \<Rightarrow> string option"
  wd_publication :: "snapshot \<Rightarrow> string \<Rightarrow> string + result_descriptor option"
  wd_record :: "snapshot \<Rightarrow> string \<Rightarrow> string \<Rightarrow> string + composite_result"
  wd_environments :: "snapshot \<Rightarrow> string option"
  wd_binding :: "string \<Rightarrow> string option"
  wd_graph_native :: "string option"
  wd_standard_git :: "string \<Rightarrow> bool"
  wd_shadow :: "string \<Rightarrow> string + string option"
  wd_shadow_base :: "string \<Rightarrow> string \<Rightarrow> string option"
  wd_verify :: "string \<Rightarrow> string option"
  wd_snapshot :: "string \<Rightarrow> string list \<Rightarrow> string + string"
  wd_exclusions :: "snapshot \<Rightarrow> string + string list"
  wd_policy :: "string \<Rightarrow> bool \<Rightarrow> string + environment_config option \<times> string"
  wd_check_environment :: "environment_config \<Rightarrow> string \<Rightarrow> string option"
  wd_initialize :: "snapshot \<Rightarrow> string \<Rightarrow> string + composite_result"
  wd_valid_environment :: "environment_config \<Rightarrow> string + unit"
  wd_same_path :: "string \<Rightarrow> string \<Rightarrow> bool"
  wd_finish_project :: "snapshot \<Rightarrow> string \<Rightarrow> string option"
  wd_status :: "string \<Rightarrow> string + string"
  wd_merging :: "string \<Rightarrow> bool"
  wd_prepared_ancestor :: "string \<Rightarrow> string \<Rightarrow> string option"
  wd_snapshot_node :: "string \<Rightarrow> string \<Rightarrow> string \<Rightarrow> string \<Rightarrow> string + string"
  wd_stop :: "string \<Rightarrow> string \<times> string \<Rightarrow> string option"

section \<open>Results in sequence\<close>

text \<open>\<open>r?; f\<close>, and \<open>?\<close> on a result that does not touch the runtime.\<close>

definition andthen :: "'a outcome \<Rightarrow> ('a \<Rightarrow> 'a outcome) \<Rightarrow> 'a outcome" where
  "andthen r f = (case r of Ok s \<Rightarrow> f s | Error e s \<Rightarrow> Error e s | Panic \<Rightarrow> Panic)"

definition try_get :: "string + 'b \<Rightarrow> 'a \<Rightarrow> ('b \<Rightarrow> 'a outcome) \<Rightarrow> 'a outcome" where
  "try_get r s f = (case r of Inl e \<Rightarrow> Error e s | Inr x \<Rightarrow> f x)"

definition try_ok :: "string option \<Rightarrow> 'a \<Rightarrow> 'a outcome \<Rightarrow> 'a outcome" where
  "try_ok r s k = (case r of Some e \<Rightarrow> Error e s | None \<Rightarrow> k)"

definition ok_or :: "'b option \<Rightarrow> string \<Rightarrow> string + 'b" where
  "ok_or x e = (case x of Some y \<Rightarrow> Inr y | None \<Rightarrow> Inl e)"

section \<open>Emitting events\<close>

definition bump :: "runtime \<Rightarrow> runtime" where
  "bump rt = rt\<lparr>rn_revision := rn_revision rt + 1\<rparr>"

fun in_runtime :: "runtime \<Rightarrow> (snapshot \<times> store) outcome \<Rightarrow> runtime outcome" where
  "in_runtime rt (Ok (st, db)) = Ok (rt\<lparr>rn_state := st, rn_store := db\<rparr>)"
| "in_runtime rt (Error e (st, db)) = Error e (rt\<lparr>rn_state := st, rn_store := db\<rparr>)"
| "in_runtime rt Panic = Panic"

definition persist :: "world \<Rightarrow> event_kind \<Rightarrow> runtime \<Rightarrow> runtime outcome" where
  "persist w kind rt = in_runtime rt (append_event (wd_env w) (wd_clock w (so_last_sequence (rn_store rt) + 1)) kind
     (rn_state rt, rn_store rt))"

fun stamped :: "(int \<Rightarrow> nat) \<Rightarrow> int \<Rightarrow> event_kind list \<Rightarrow> (nat \<times> event_kind) list" where
  "stamped clock n [] = []"
| "stamped clock n (kind # kinds) = (clock n, kind) # stamped clock (n + 1) kinds"

definition emit_outputs :: "world \<Rightarrow> event_kind list \<Rightarrow> runtime \<Rightarrow> runtime outcome" where
  "emit_outputs w kinds rt =
     (if kinds = [] then Ok rt
      else try_ok (first_some (wd_remember w (rn_state rt)) kinds) rt
        (andthen (in_runtime rt (append_batch (wd_env w)
            (stamped (wd_clock w) (so_last_sequence (rn_store rt) + 1) kinds) (rn_state rt, rn_store rt)))
          (\<lambda>rt. Ok (bump rt))))"

definition ensure_logs :: "world \<Rightarrow> string \<Rightarrow> runtime \<Rightarrow> (nat \<Rightarrow> runtime \<Rightarrow> runtime outcome) \<Rightarrow> runtime outcome" where
  "ensure_logs w eid rt k = (case ensure_legacy_logs (wd_payload_id w) (st_run_id (rn_state rt)) eid (rn_store rt) of
     None \<Rightarrow> Panic | Some (Inl e) \<Rightarrow> Error e rt | Some (Inr (n, db)) \<Rightarrow> k n (rt\<lparr>rn_store := db\<rparr>))"

definition whole_log :: "string \<Rightarrow> string \<Rightarrow> store \<Rightarrow> string + string" where
  "whole_log run eid db =
     map_result lp_content (execution_log_page run eid 0 (log_bytes run eid (so_logs db)) (so_logs db))"

text \<open>The size and the metrics of an attempt that ends, from its live buffer or its transcript.\<close>

definition measured :: "world \<Rightarrow> string \<Rightarrow> nat \<Rightarrow> execution_metrics option \<Rightarrow> runtime
   \<Rightarrow> string + nat \<times> execution_metrics option" where
  "measured w eid n metrics rt = (case find_attempt (\<lambda>e. ex_id e = eid) (rn_state rt) of
     None \<Rightarrow> Inr (n, metrics)
   | Some e \<Rightarrow>
       let bytes = max (max n (ex_output_bytes e)) (length (ex_output e)) in
       case metrics of
         Some m \<Rightarrow> Inr (bytes, Some m)
       | None \<Rightarrow>
           if length (ex_output e) \<noteq> bytes
           then map_result (\<lambda>content. (bytes, Some (parse_execution_metrics (en_parse (wd_env w)) content)))
                  (whole_log (st_run_id (rn_state rt)) eid (rn_store rt))
           else Inr (bytes, Some (parse_execution_metrics (en_parse (wd_env w)) (ex_output e))))"

definition settle_terminal :: "world \<Rightarrow> event_kind \<Rightarrow> runtime \<Rightarrow> (event_kind \<Rightarrow> runtime \<Rightarrow> runtime outcome) \<Rightarrow> runtime outcome" where
  "settle_terminal w kind rt k = (case kind of
     Failed name (Some eid) error bytes metrics \<Rightarrow> ensure_logs w eid rt (\<lambda>n rt.
       try_get (measured w eid n metrics rt) rt (\<lambda>(bytes, metrics). k (Failed name (Some eid) error bytes metrics) rt))
   | MergerFinished eid head bytes metrics \<Rightarrow> ensure_logs w eid rt (\<lambda>n rt.
       try_get (measured w eid n metrics rt) rt (\<lambda>(bytes, metrics). k (MergerFinished eid head bytes metrics) rt))
   | MergerFailed eid error bytes metrics \<Rightarrow> ensure_logs w eid rt (\<lambda>n rt.
       try_get (measured w eid n metrics rt) rt (\<lambda>(bytes, metrics). k (MergerFailed eid error bytes metrics) rt))
   | _ \<Rightarrow> k kind rt)"

text \<open>The error of a failed merger is shown at the end of its transcript.\<close>

definition note_merger_failure :: "world \<Rightarrow> event_kind \<Rightarrow> runtime \<Rightarrow> runtime outcome" where
  "note_merger_failure w kind rt = (case kind of
     MergerFailed eid error bytes metrics \<Rightarrow> ensure_logs w eid rt (\<lambda>n rt.
       persist w (Output eid (CHR 0x0A # ''Merger failed: '' @ error @ [CHR 0x0A])) rt)
   | _ \<Rightarrow> Ok rt)"

definition emit_plain :: "world \<Rightarrow> event_kind \<Rightarrow> runtime \<Rightarrow> runtime outcome" where
  "emit_plain w kind rt = try_ok (wd_remember w (rn_state rt) kind) rt
     (andthen (note_merger_failure w kind rt) (\<lambda>rt.
        settle_terminal w kind rt (\<lambda>kind rt. andthen (persist w kind rt) (\<lambda>rt. Ok (bump rt)))))"

definition emit :: "world \<Rightarrow> event_kind \<Rightarrow> runtime \<Rightarrow> runtime outcome" where
  "emit w kind rt = (case kind of
     Prepared eid head \<Rightarrow>
       if has_environment (rn_state rt) \<and> (\<exists>e \<in> set (st_executions (rn_state rt)). ex_id e = eid)
       then try_get (wd_record w (rn_state rt) eid ''before'') rt (\<lambda>input.
         if (case st_environment_baseline (rn_state rt) of
               None \<Rightarrow> True | Some baseline \<Rightarrow> cr_domain baseline \<noteq> cr_domain input)
         then Error ''Prepared composite evidence differs from the frozen native domain'' rt
         else emit_outputs w [kind, ExecutionInputRecorded eid input] rt)
       else emit_plain w kind rt
   | PublicationCompleted head \<Rightarrow>
       (case wd_publication w (rn_state rt) head of
          Inr (Some d) \<Rightarrow> emit_outputs w [ResultPublished d, kind] rt
        | _ \<Rightarrow> emit_plain w kind rt)
   | _ \<Rightarrow> emit_plain w kind rt)"

fun emit_each :: "world \<Rightarrow> event_kind list \<Rightarrow> runtime \<Rightarrow> runtime outcome" where
  "emit_each w [] rt = Ok rt"
| "emit_each w (kind # kinds) rt = andthen (emit w kind rt) (emit_each w kinds)"

section \<open>Publication\<close>

definition is_serial :: "snapshot \<Rightarrow> bool" where
  "is_serial st = (case st_plan_type st of
     Some mode \<Rightarrow> mode = ''serial''
   | None \<Rightarrow> (case gr_nodes (st_graph st) of [n] \<Rightarrow> nd_name n = ''task'' | _ \<Rightarrow> False))"

definition active :: "snapshot \<Rightarrow> bool" where
  "active st \<longleftrightarrow> st_phase st \<in> set [''publishing'', ''merging'', ''launching_result'']
     \<or> (case st_result_execution st of Some e \<Rightarrow> rx_status e = ''running'' | None \<Rightarrow> False)
     \<or> (\<exists>n \<in> set (bt_values (st_nodes st)). ns_status n = ''running'')
     \<or> (\<exists>e \<in> set (st_mergers st). ex_status e = ''running'')"

definition interrupted_review :: "snapshot \<Rightarrow> event_kind list" where
  "interrupted_review st = (case (st_review_graph st, st_planning st) of
     (Some g, Some planning) \<Rightarrow>
       [PlannerReviewFinished (planning\<lparr>ps_status := Some ''failed'',
            ps_error := Some ''Backend stopped during post-task Planner review. Saved output is preserved; send a follow-up to continue.''\<rparr>)
          (\<exists>n \<in> set (bt_values (st_nodes st)). ns_status n \<noteq> ''completed'')]
   | _ \<Rightarrow> [])"

definition interrupted_result :: "snapshot \<Rightarrow> event_kind list" where
  "interrupted_result st = (case st_result_execution st of
     Some e \<Rightarrow> if rx_status e = ''running''
       then [ResultExecutionFailed (cr_generation (rx_input e))
          ''Native result execution was interrupted; partial workspace retained for explicit retry'']
       else []
   | None \<Rightarrow> [])"

fun fail_mergers :: "world \<Rightarrow> string list \<Rightarrow> runtime \<Rightarrow> runtime outcome" where
  "fail_mergers w [] rt = Ok rt"
| "fail_mergers w (eid # ids) rt =
     (let publication_merge = (\<exists>e \<in> set (st_mergers (rn_state rt)). ex_id e = eid \<and> ex_node e = ''merger'')
      in andthen (emit w (MergerFailed eid
           (if publication_merge then ''Merger interrupted; inspect the merge and retry publication.''
            else ''Merger interrupted; inspect the node worktree and rerun or resolve it.'') 0 None) rt)
         (fail_mergers w ids))"

definition fail_publication :: "world \<Rightarrow> runtime \<Rightarrow> runtime outcome" where
  "fail_publication w rt =
     (if st_phase (rn_state rt) \<in> set [''publishing'', ''merging'']
      then emit w (PublicationFailed ''Publication interrupted. Results and any pending merge are preserved; retry publication to verify and continue.'') rt
      else Ok rt)"

definition recover_publication :: "world \<Rightarrow> runtime \<Rightarrow> runtime outcome" where
  "recover_publication w rt =
     andthen (andthen (andthen (emit_each w (interrupted_review (rn_state rt)) rt)
        (\<lambda>rt. emit_each w (interrupted_result (rn_state rt)) rt))
        (\<lambda>rt. fail_mergers w (map ex_id (filter (\<lambda>e. ex_status e = ''running'') (st_mergers (rn_state rt)))) rt))
        (fail_publication w)"

definition undelivered_heads :: "string list \<Rightarrow> string list \<Rightarrow> string list" where
  "undelivered_heads published heads = filter (\<lambda>head. head \<notin> set published) heads"

section \<open>Reopening a run\<close>

definition repair_delivered_heads :: "store \<Rightarrow> snapshot \<Rightarrow> snapshot" where
  "repair_delivered_heads db st =
     (if st_published_head st = None \<or> st_run_id st = [] then st
      else st\<lparr>st_published_heads := fold push_new (delivered_heads (st_run_id st) db) (st_published_heads st)\<rparr>)"

definition interruption :: "string \<Rightarrow> execution \<Rightarrow> event_kind" where
  "interruption message e = Failed (ex_node e) (Some (ex_id e)) message 0 None"

definition pause_reopened :: "world \<Rightarrow> runtime \<Rightarrow> runtime outcome" where
  "pause_reopened w rt =
     (if st_approved (rn_state rt)
         \<and> st_phase (rn_state rt) \<notin> set [''completed'', ''needs_attention'', ''publication_failed'', ''paused'']
      then emit w (Paused True) rt else Ok rt)"

text \<open>What \<open>open_with\<close> and \<open>open_run_with_lease\<close> do once the state is loaded; they differ in the message.\<close>

definition reopen :: "world \<Rightarrow> string \<Rightarrow> snapshot \<Rightarrow> store \<Rightarrow> runtime outcome" where
  "reopen w message st db =
     (let rt = \<lparr>rn_store = db, rn_state = repair_delivered_heads db st, rn_revision = 0\<rparr>
      in andthen (andthen
           (emit_each w (map (interruption message)
              (filter (\<lambda>e. ex_status e = ''running'') (st_executions (rn_state rt)))) rt)
           (recover_publication w)) (pause_reopened w))"

definition fresh_runtime :: "snapshot \<Rightarrow> store \<Rightarrow> runtime" where
  "fresh_runtime st db = \<lparr>rn_store = db, rn_state = st, rn_revision = 0\<rparr>"

definition load_into :: "world \<Rightarrow> string \<Rightarrow> store \<Rightarrow> (snapshot \<Rightarrow> runtime outcome) \<Rightarrow> runtime \<Rightarrow> runtime outcome" where
  "load_into w run db k rt = (case load_run (wd_env w) (wd_oversize w) run db of
     None \<Rightarrow> Panic | Some (Inl e) \<Rightarrow> Error e rt | Some (Inr st) \<Rightarrow> k st)"

definition open_with :: "world \<Rightarrow> bool \<Rightarrow> store \<Rightarrow> runtime outcome" where
  "open_with w load_selected db =
     (let message = ''Application stopped during this execution. Its result is not trusted; inspect and rerun with a fresh Execution Instance.''
      in if load_selected
         then (case selected_run db of
             Some run \<Rightarrow> load_into w run db (\<lambda>st. reopen w message st db) (fresh_runtime snapshot_default db)
           | None \<Rightarrow> reopen w message snapshot_default db)
         else reopen w message snapshot_default db)"

definition open_run :: "world \<Rightarrow> string \<Rightarrow> store \<Rightarrow> runtime outcome" where
  "open_run w run db =
     (let message = ''Application stopped during this execution. Inspect and rerun.''
      in if run = [] then reopen w message snapshot_default db
         else load_into w run db (\<lambda>st. reopen w message st db) (fresh_runtime snapshot_default db))"

text \<open>Selecting another run in the same runtime.\<close>

definition switch_run :: "world \<Rightarrow> string \<Rightarrow> runtime \<Rightarrow> runtime outcome" where
  "switch_run w run rt =
     (if active (rn_state rt) then Error ''Pause and wait for the current executions to finish first'' rt
      else load_into w run (rn_store rt) (\<lambda>st.
        let interrupted = filter (\<lambda>e. ex_status e = ''running'') (st_executions st);
            rt = bump (rt\<lparr>rn_store := select_run (Some run) (rn_store rt), rn_state := st\<rparr>)
        in andthen (emit_each w (map (interruption ''Execution was interrupted. Inspect and rerun.'') interrupted) rt)
             (recover_publication w)) rt)"

section \<open>The file contract and the source\<close>

definition has_resources :: "composite_result option \<Rightarrow> bool" where
  "has_resources r = (case r of Some c \<Rightarrow> cr_resource_refs c \<noteq> [] | None \<Rightarrow> False)"

definition legacy_file_event :: "event_kind \<Rightarrow> bool" where
  "legacy_file_event kind = (case kind of
     SourceFilesRecorded _ \<Rightarrow> True | WorkspaceFilesChanged _ \<Rightarrow> True
   | WorkspaceResolved _ _ _ files_version \<Rightarrow> files_version \<noteq> None | _ \<Rightarrow> False)"

definition uses_legacy_file_channel :: "snapshot \<Rightarrow> bool" where
  "uses_legacy_file_channel st \<longleftrightarrow> st_source_files st \<noteq> None
     \<or> (\<exists>n \<in> set (bt_values (st_nodes st)). ns_legacy_files_override n \<noteq> None \<or> ns_legacy_files_version n \<noteq> None
          \<or> ns_legacy_baseline_files_version n \<noteq> None \<or> ns_legacy_files_changed n \<or> has_resources (ns_result n))
     \<or> (\<exists>e \<in> set (st_executions st). has_resources (ex_input e) \<or> has_resources (ex_result e))
     \<or> (case st_published_result st of Some d \<Rightarrow> cr_resource_refs (rd_result d) \<noteq> [] | None \<Rightarrow> False)
     \<or> (\<exists>ev \<in> set (st_events st). legacy_file_event (ev_kind ev))"

definition require_current_file_contract :: "snapshot \<Rightarrow> string option" where
  "require_current_file_contract st =
     (if uses_legacy_file_channel st
      then Some ''This saved workspace uses legacy ignored-file snapshots and is read-only; use the current workspace Git inheritance contract''
      else None)"

definition source_head_of :: "event \<Rightarrow> string option" where
  "source_head_of ev = (case ev_kind ev of
     GraphRevised _ _ _ _ source_head \<Rightarrow> source_head
   | ManualGraphRevised _ _ source_head \<Rightarrow> source_head
   | SourceSnapshotted head \<Rightarrow> Some head | PublicationCompleted head \<Rightarrow> Some head
   | Approved base \<Rightarrow> Some base | _ \<Rightarrow> None)"

definition latest_source_head :: "snapshot \<Rightarrow> string" where
  "latest_source_head st = (case first_some source_head_of (rev (st_events st)) of
     Some head \<Rightarrow> head
   | None \<Rightarrow> (case st_published_head st of Some head \<Rightarrow> head | None \<Rightarrow> st_base st))"

definition resolve_repository :: "world \<Rightarrow> config \<Rightarrow> string + string" where
  "resolve_repository w c = (case wd_binding w (cf_repository c) of
     Some e \<Rightarrow> Inl e | None \<Rightarrow> Inr (cf_repository c))"

definition compiled :: "world \<Rightarrow> graph \<Rightarrow> runtime \<Rightarrow> (plan \<Rightarrow> runtime outcome) \<Rightarrow> runtime outcome" where
  "compiled w g rt k = (case compile (en_lower (wd_env w)) g True of
     Inr p \<Rightarrow> k p | Inl (Diagnostics errors) \<Rightarrow> Error (wd_render w errors) rt | Inl Aborted \<Rightarrow> Panic)"

definition retry_publication :: "world \<Rightarrow> runtime \<Rightarrow> runtime outcome" where
  "retry_publication w rt =
     (let st = rn_state rt in
      try_ok (require_current_file_contract st) rt
      (if st_phase st \<noteq> ''publication_failed'' then Error ''Only failed publication can be retried'' rt
       else try_get (ok_or (st_publication st) ''No publication to retry'') rt (\<lambda>p.
         let start = (\<lambda>heads. try_ok (wd_binding w (pb_repository p)) rt
               (emit w (PublicationStarted (pb_repository p) heads) rt))
         in case st_published_head st of
              Some published_head \<Rightarrow>
                let heads = undelivered_heads (st_published_heads st) (pb_heads p) in
                if heads = [] then emit_outputs w [PublicationCompleted published_head] rt else start heads
            | None \<Rightarrow> start (pb_heads p))))"

end
