(* ===== verification/Runtime_Commands.thy ===== *)
theory Runtime_Commands
  imports Runtime
begin

text \<open>
  The commands a user gives a run (\<open>backend/src/runtime.rs\<close>): creating, routing, approving and editing it,
  revising the graph of an approved run, choosing models, pausing and resuming with recovery of failed
  nodes, and messages to nodes.  Each is the guards of the code in their order and the events it emits.
\<close>

section \<open>Creating and approving\<close>

definition create_with_planning ::
  "world \<Rightarrow> string \<Rightarrow> graph \<Rightarrow> config \<Rightarrow> string option \<Rightarrow> planning_summary option \<Rightarrow> runtime \<Rightarrow> runtime outcome" where
  "create_with_planning w new_id g c planning_id planning rt =
     (if active (rn_state rt) then Error ''Pause and wait for the current executions to finish first'' rt
      else compiled w g rt (\<lambda>_.
        let c = c\<lparr>cf_max_feedback := min (cf_max_feedback c) 5\<rparr>;
            st = rn_state rt;
            completing_planning = (st_phase st = ''planning'' \<and> planning_id \<noteq> None \<and> st_planning_id st = planning_id);
            rt = (if completing_planning then rt
              else bump (rt\<lparr>rn_state := new_run (if st_events st = [] \<and> st_run_id st \<noteq> [] then st_run_id st else new_id)\<rparr>))
        in andthen (emit_outputs w (Created g c planning_id planning
               # (if cf_environment c = None then [EnvironmentPolicyRequested] else [])) rt)
             (\<lambda>rt. Ok (rt\<lparr>rn_store := select_run (Some (st_run_id (rn_state rt))) (rn_store rt)\<rparr>))))"

definition set_route :: "world \<Rightarrow> string \<Rightarrow> runtime \<Rightarrow> runtime outcome" where
  "set_route w plan_type rt =
     (let st = rn_state rt in
      if st_phase st \<noteq> ''awaiting_approval'' \<or> plan_type \<notin> set [''serial'', ''graph'']
         \<or> (plan_type = ''serial'' \<and> \<not> (case gr_nodes (st_graph st) of [n] \<Rightarrow> nd_name n = ''task'' | _ \<Rightarrow> False))
      then Error ''Invalid execution route or routing phase'' rt
      else try_ok (if plan_type = ''graph'' then wd_graph_native w else None) rt (emit w (Routed plan_type) rt))"

definition resolve_policy :: "world \<Rightarrow> string \<Rightarrow> runtime \<Rightarrow> runtime outcome" where
  "resolve_policy w repository rt =
     (if st_environment_policy (rn_state rt) = Some ''automatic-pending''
      then try_get (wd_policy w repository (is_serial (rn_state rt))) rt (\<lambda>(environment, reason).
        emit w (EnvironmentPolicyResolved environment reason) rt)
      else Ok rt)"

definition check_managed :: "world \<Rightarrow> string \<Rightarrow> snapshot \<Rightarrow> string option" where
  "check_managed w repository st = (case st_config st of
     None \<Rightarrow> Some ''No graph''
   | Some c \<Rightarrow> (case cf_environment c of
        None \<Rightarrow> None
      | Some environment \<Rightarrow>
          if is_serial st
          then Some ''Managed environments require explicit Graph mode; Planner/Serial keep native source semantics''
          else if \<not> wd_standard_git w repository
          then Some ''Managed environments currently require a native Git source repository''
          else wd_check_environment w environment repository))"

definition initialize_environment :: "world \<Rightarrow> string \<Rightarrow> runtime \<Rightarrow> runtime outcome" where
  "initialize_environment w repository rt =
     (if \<not> has_environment (rn_state rt) then Ok rt
      else try_ok (wd_environments w (rn_state rt)) rt
        (if st_environment_baseline (rn_state rt) = None
         then try_get (wd_initialize w (rn_state rt) repository) rt (\<lambda>result. emit w (EnvironmentInitialized result) rt)
         else Ok rt))"

definition approval_base :: "world \<Rightarrow> string \<Rightarrow> runtime \<Rightarrow> (string \<Rightarrow> runtime outcome) \<Rightarrow> runtime outcome" where
  "approval_base w repository rt k =
     (if is_serial (rn_state rt) \<or> \<not> wd_standard_git w repository then k []
      else try_ok (wd_verify w repository) rt
        (try_get (wd_exclusions w (rn_state rt)) rt (\<lambda>exclusions.
          try_get (wd_snapshot w repository exclusions) rt k)))"

definition approve :: "world \<Rightarrow> runtime \<Rightarrow> runtime outcome" where
  "approve w rt =
     (let st = rn_state rt in
      try_ok (require_current_file_contract st) rt
      (if st_phase st \<noteq> ''awaiting_approval'' then Error ''Only a compiled, unapproved graph can be approved'' rt
       else try_get (ok_or (st_config st) ''No graph'') rt (\<lambda>c.
         try_get (resolve_repository w c) rt (\<lambda>repository.
         try_ok (if is_serial st then None else wd_graph_native w) rt
         (andthen (andthen (resolve_policy w repository rt)
            (\<lambda>rt. try_ok (check_managed w repository (rn_state rt)) rt
               (try_ok (wd_binding w repository) rt (initialize_environment w repository rt))))
            (\<lambda>rt. approval_base w repository rt (\<lambda>base. emit w (Approved base) rt)))))))"

text \<open>\<open>edit_draft_graph\<close>: the environment the edited draft keeps, or the refusal.\<close>

definition draft_environment :: "snapshot \<Rightarrow> config \<Rightarrow> config \<Rightarrow> string + config" where
  "draft_environment st previous c =
     (if st_environment_policy st \<noteq> None \<and> cf_environment c \<noteq> None \<and> cf_environment c \<noteq> cf_environment previous
      then Inl ''Environment policy is Runtime-owned; draft edits cannot select or override an environment''
      else
        let c = (if st_environment_policy st \<noteq> None then c\<lparr>cf_environment := cf_environment previous\<rparr> else c)
        in if cf_environment c \<noteq> cf_environment previous \<and> st_environment_baseline st \<noteq> None
           then Inl ''Environment domain is already initialized for this workspace execution''
           else Inr c)"

definition edit_draft_graph :: "world \<Rightarrow> graph \<Rightarrow> config \<Rightarrow> runtime \<Rightarrow> runtime outcome" where
  "edit_draft_graph w g c rt =
     (let st = rn_state rt in
      try_ok (require_current_file_contract st) rt
      (if st_run_id st = [] \<or> st_approved st \<or> st_phase st \<notin> set [''rejected'', ''awaiting_approval'']
       then Error ''Only an unapproved graph draft can be edited in place'' rt
       else try_get (ok_or (st_config st) ''Missing config'') rt (\<lambda>previous.
         if cf_repository c \<noteq> cf_repository previous then Error ''Cannot move a draft to another repository'' rt
         else try_get (draft_environment st previous c) rt (\<lambda>c.
           try_get (resolve_repository w c) rt (\<lambda>_.
           compiled w g rt (\<lambda>_.
           try_ok (wd_graph_native w) rt
             (emit w (DraftEdited g (c\<lparr>cf_max_feedback := min (cf_max_feedback c) 5\<rparr>)) rt)))))))"

section \<open>Revising the graph\<close>

definition inputs_of :: "graph \<Rightarrow> string \<Rightarrow> string set" where
  "inputs_of g name = eg_from ` set (filter (\<lambda>e. eg_to e = name \<and> \<not> eg_feedback e) (gr_edges g))"

definition reviews_of :: "graph \<Rightarrow> string \<Rightarrow> string set" where
  "reviews_of g name = eg_to ` set (filter (\<lambda>e. eg_from e = name \<and> eg_feedback e) (gr_edges g))"

definition node_changed :: "graph \<Rightarrow> graph \<Rightarrow> node \<Rightarrow> bool" where
  "node_changed previous g n = (case find (\<lambda>old. nd_name old = nd_name n) (gr_nodes previous) of
     None \<Rightarrow> False
   | Some old \<Rightarrow> nd_task old \<noteq> nd_task n
       \<or> inputs_of previous (nd_name n) \<noteq> inputs_of g (nd_name n)
       \<or> reviews_of previous (nd_name n) \<noteq> reviews_of g (nd_name n))"

definition revision_affected :: "graph \<Rightarrow> graph \<Rightarrow> string list" where
  "revision_affected previous g =
     bs_of_list (filter (\<lambda>name. name \<notin> nd_name ` set (gr_nodes g)) (map nd_name (gr_nodes previous))
       @ concat (map (\<lambda>n. if node_changed previous g n then downstream g (nd_name n) else []) (gr_nodes g)))"

definition running_in :: "string list \<Rightarrow> snapshot \<Rightarrow> bool" where
  "running_in names st \<longleftrightarrow> (\<exists>e \<in> set (st_executions st). ex_status e = ''running'' \<and> ex_node e \<in> set names)"

text \<open>The head of the source recorded with a revision; none for a directory never materialized.\<close>

definition revision_source :: "world \<Rightarrow> string \<Rightarrow> runtime \<Rightarrow> (string option \<Rightarrow> runtime outcome) \<Rightarrow> runtime outcome" where
  "revision_source w repository rt k =
     (let snapshot = try_get (wd_exclusions w (rn_state rt)) rt (\<lambda>exclusions.
            try_get (wd_snapshot w repository exclusions) rt (\<lambda>head. k (Some head)))
      in if wd_standard_git w repository then snapshot
         else try_get (wd_shadow w repository) rt (\<lambda>shadow. if shadow = None then k None else snapshot))"

text \<open>A node of the old graph without a state is the panic of \<open>self.state.nodes[name]\<close>.\<close>

definition removes_completed :: "graph \<Rightarrow> snapshot \<Rightarrow> bool option" where
  "removes_completed g st =
     (let removed = filter (\<lambda>n. nd_name n \<notin> nd_name ` set (gr_nodes g)) (gr_nodes (st_graph st)) in
      case find (\<lambda>n. (case bt_get (st_nodes st) (nd_name n) of None \<Rightarrow> True | Some s \<Rightarrow> ns_status s = ''completed'')) removed of
        None \<Rightarrow> Some False
      | Some n \<Rightarrow> if bt_get (st_nodes st) (nd_name n) = None then None else Some True)"

definition revise_graph :: "world \<Rightarrow> graph \<Rightarrow> planning_summary \<Rightarrow> runtime \<Rightarrow> runtime outcome" where
  "revise_graph w g planning rt =
     (let st = rn_state rt in
      try_ok (require_current_file_contract st) rt
      (if \<not> st_approved st \<or> is_serial st \<or> st_phase st \<in> set [''publishing'', ''merging'', ''publication_failed'']
       then Error ''Wait for active executions/publication before revising the approved graph'' rt
       else try_get (ok_or (st_config st) ''Missing config'') rt (\<lambda>c.
         try_get (resolve_repository w c) rt (\<lambda>repository.
         compiled w g rt (\<lambda>_.
           case (if st_published_head st = None then Some False else removes_completed g st) of
             None \<Rightarrow> Panic
           | Some True \<Rightarrow> Error ''Cannot remove already published nodes from this run'' rt
           | Some False \<Rightarrow>
               let affected = revision_affected (st_graph st) g in
               if running_in affected st then Error ''Wait for affected running nodes before revising the graph'' rt
               else revision_source w repository rt (\<lambda>source_head.
                 emit w (GraphRevised g (ps_planning_id planning) planning
                   (filter (\<lambda>name. name \<in> nd_name ` set (gr_nodes g)) affected) source_head) rt))))))"

definition update_draft_graph :: "world \<Rightarrow> graph \<Rightarrow> string \<Rightarrow> planning_summary \<Rightarrow> runtime \<Rightarrow> runtime outcome" where
  "update_draft_graph w g planning_id planning rt =
     (let st = rn_state rt in
      try_ok (require_current_file_contract st) rt
      (if st_approved st then revise_graph w g planning rt
       else try_get (ok_or (st_config st) ''Missing config'') rt (\<lambda>c.
         try_get (resolve_repository w c) rt (\<lambda>_.
         compiled w g rt (\<lambda>_. emit w (GraphRevised g planning_id planning [] None) rt)))))"

section \<open>Adding a node by hand\<close>

record confirmed_node =
  cn_name :: string
  cn_revision :: nat
  cn_head :: "string option"

record manual_node_request =
  mq_node :: node
  mq_from :: "string option"
  mq_to :: "string option"
  mq_feedback :: bool
  mq_confirmed :: "confirmed_node list"

definition manual_edges :: "manual_node_request \<Rightarrow> string \<Rightarrow> edge list \<Rightarrow> edge list" where
  "manual_edges r name es =
     (let es = (case (mq_from r, mq_to r) of
            (Some from, Some to) \<Rightarrow>
              if mq_feedback r then es
              else filter (\<lambda>e. eg_feedback e \<or> eg_from e \<noteq> from \<or> eg_to e \<noteq> to) es
          | _ \<Rightarrow> es);
          es = (case mq_from r of Some from \<Rightarrow> es @ [\<lparr>eg_from = from, eg_to = name, eg_feedback = False\<rparr>] | None \<Rightarrow> es)
      in case mq_to r of Some to \<Rightarrow> es @ [\<lparr>eg_from = name, eg_to = to, eg_feedback = mq_feedback r\<rparr>] | None \<Rightarrow> es)"

definition manual_graph :: "manual_node_request \<Rightarrow> graph \<Rightarrow> graph" where
  "manual_graph r g =
     (let n = (mq_node r)\<lparr>nd_name := trim (nd_name (mq_node r))\<rparr>
      in g\<lparr>gr_edges := manual_edges r (nd_name n) (gr_edges g), gr_nodes := gr_nodes g @ [n]\<rparr>)"

text \<open>\<open>errors.map(|e| format!("{}: {}", e.code, e.message)).join("\\n")\<close>\<close>

definition plain_errors :: "diagnostic list \<Rightarrow> string" where
  "plain_errors errors = join [CHR 0x0A] (map (\<lambda>d. dg_code d @ '': '' @ dg_message d) errors)"

definition unconfirmed :: "manual_node_request \<Rightarrow> string list \<Rightarrow> snapshot \<Rightarrow> bool" where
  "unconfirmed r names st \<longleftrightarrow> (\<exists>name \<in> set names. case bt_get (st_nodes st) name of
     None \<Rightarrow> False
   | Some n \<Rightarrow> ns_status n = ''completed''
       \<and> \<not> (\<exists>c \<in> set (mq_confirmed r). cn_name c = name \<and> cn_revision c = ns_revision n \<and> cn_head c = ns_head n))"

definition manual_blocked :: "snapshot \<Rightarrow> string option" where
  "manual_blocked st =
     (if st_run_id st = [] \<or> is_serial st then Some ''Manual nodes require an existing Graph run''
      else if st_phase st = ''launching_result''
        \<or> (case st_result_execution st of Some e \<Rightarrow> rx_status e = ''running'' | None \<Rightarrow> False)
      then Some ''Wait for the published result to finish before adding a node''
      else if st_phase st \<in> set [''publishing'', ''merging'', ''publication_failed'', ''followup'']
        \<or> (\<exists>e \<in> set (st_mergers st). ex_status e = ''running'')
        \<or> (\<exists>n \<in> set (bt_values (st_nodes st)). ns_source_direct_recovery n
             \<or> (\<exists>m \<in> set (ns_pending_messages n). pm_source_direct m))
      then Some ''Wait for publication or the active follow-up to finish before adding a node''
      else None)"

definition manual_source :: "world \<Rightarrow> string \<Rightarrow> runtime \<Rightarrow> (string option \<Rightarrow> runtime outcome) \<Rightarrow> runtime outcome" where
  "manual_source w repository rt k =
     (if \<not> st_approved (rn_state rt) then k None else revision_source w repository rt k)"

definition add_manual_node :: "world \<Rightarrow> manual_node_request \<Rightarrow> runtime \<Rightarrow> runtime outcome" where
  "add_manual_node w r rt =
     (let st = rn_state rt in
      try_ok (require_current_file_contract st) rt
      (try_ok (manual_blocked st) rt
      (if mq_feedback r \<and> (mq_to r = None \<or> mq_to r = Some []) then Error ''A feedback edge requires a target node'' rt
       else
         let g = manual_graph r (st_graph st) in
         case compile (en_lower (wd_env w)) g True of
           Inl Aborted \<Rightarrow> Panic
         | Inl (Diagnostics errors) \<Rightarrow> Error (plain_errors errors) rt
         | Inr _ \<Rightarrow>
             let affected = revision_affected (st_graph st) g;
                 scope = affected @ (case mq_to r of Some to \<Rightarrow> if mq_feedback r then downstream g to else [] | None \<Rightarrow> [])
             in if unconfirmed r scope st
                then Error ''Completed results changed or require confirmation; review the graph and confirm again'' rt
                else if running_in affected st
                then Error ''Pause or wait for affected running nodes before adding this node'' rt
                else if \<not> st_approved st \<and> st_phase st \<notin> set [''rejected'', ''awaiting_approval'']
                then Error ''Only an unapproved graph draft can be edited in place'' rt
                else try_get (ok_or (st_config st) ''Missing config'') rt (\<lambda>c.
                  if \<not> st_approved st \<and> st_executions st = [] then edit_draft_graph w g c rt
                  else try_get (resolve_repository w c) rt (\<lambda>repository.
                    manual_source w repository rt (\<lambda>source_head.
                      emit w (ManualGraphRevised g
                        (filter (\<lambda>name. name \<in> nd_name ` set (gr_nodes g)) affected) source_head) rt))))))"

end
