(* ===== verification/Runtime_Control.thy ===== *)
theory Runtime_Control
  imports Runtime_Commands
begin

text \<open>
  Controlling a run (\<open>backend/src/runtime.rs\<close>): model settings of a conversation and their reconciliation
  with failed nodes, stopping, pausing and resuming with recovery, messages and follow-ups, and
  resolving a blocked workspace.
\<close>

section \<open>Model settings\<close>

definition latest_failed :: "snapshot \<Rightarrow> string \<Rightarrow> bool" where
  "latest_failed st name = (case latest_execution st name of Some e \<Rightarrow> ex_status e = ''failed'' | None \<Rightarrow> False)"

definition model_differs :: "role_model_config \<Rightarrow> role_model_config \<Rightarrow> node_state \<Rightarrow> bool" where
  "model_differs fallback settings n \<longleftrightarrow> (case ns_model_config n of Some m \<Rightarrow> m | None \<Rightarrow> fallback) \<noteq> settings"

definition stale_failed_nodes :: "string list option \<Rightarrow> role_model_config \<Rightarrow> role_model_config \<Rightarrow> snapshot \<Rightarrow> string list" where
  "stale_failed_nodes only fallback settings st = map fst (filter (\<lambda>(name, n).
     (case only of Some names \<Rightarrow> name \<in> set names | None \<Rightarrow> True)
     \<and> ((ns_status n = ''failed'' \<and> latest_failed st name) \<or> node_has_own_blocked_failure st name)
     \<and> model_differs fallback settings n) (st_nodes st))"

definition sync_failed_node_models :: "world \<Rightarrow> string list option \<Rightarrow> runtime \<Rightarrow> runtime outcome" where
  "sync_failed_node_models w only rt =
     (case (st_model_config (rn_state rt), st_config (rn_state rt)) of
        (Some settings, Some original) \<Rightarrow>
          let node_settings = run_agent_settings settings;
              names = stale_failed_nodes only (config_agent_settings original) node_settings (rn_state rt)
          in if ro_model node_settings = [] \<or> names = [] then Ok rt
             else emit w (ConversationModelsUpdated settings names) rt
      | _ \<Rightarrow> Ok rt)"

definition retargeted_nodes :: "role_model_config \<Rightarrow> role_model_config \<Rightarrow> snapshot \<Rightarrow> string list" where
  "retargeted_nodes previous settings st = map fst (filter (\<lambda>(name, n).
     ((ns_status n \<in> set [''waiting'', ''blocked'', ''dirty''] \<and> never_executed st name)
      \<or> (ns_status n = ''failed'' \<and> latest_failed st name) \<or> node_has_own_blocked_failure st name)
     \<and> model_differs previous settings n) (st_nodes st))"

definition update_node_models :: "world \<Rightarrow> config \<Rightarrow> runtime \<Rightarrow> runtime outcome" where
  "update_node_models w c rt =
     try_get (validate_model_settings (wd_valid_environment w) c) rt (\<lambda>_.
       case st_config (rn_state rt) of
         None \<Rightarrow> Ok rt
       | Some original \<Rightarrow>
           let st = rn_state rt;
               settings = from_config c;
               previous = (case st_model_config st of Some m \<Rightarrow> m | None \<Rightarrow> from_config original)
           in if settings = previous then sync_failed_node_models w None rt
              else if ro_model (run_agent_settings settings) = [] then Ok rt
              else
                let names = (if run_agent_settings settings = run_agent_settings previous then []
                      else retargeted_nodes (run_agent_settings previous) (run_agent_settings settings) st)
                in andthen (emit w (ConversationModelsUpdated settings names) rt) (sync_failed_node_models w None))"

section \<open>Recovery\<close>

datatype recovery_scope = AllFailed | InterruptedOnly

definition started_of :: "string \<Rightarrow> event \<Rightarrow> int list option option" where
  "started_of eid ev = (case ev_kind ev of
     Started e sequences _ \<Rightarrow> if ex_id e = eid then Some sequences else None | _ \<Rightarrow> None)"

definition claims_source_direct :: "string \<Rightarrow> int list \<Rightarrow> event \<Rightarrow> bool" where
  "claims_source_direct name sequences ev \<longleftrightarrow> ev_sequence ev \<in> set sequences
     \<and> (case ev_kind ev of Invalidated _ target _ _ _ _ _ source_direct \<Rightarrow> source_direct \<and> target = name | _ \<Rightarrow> False)"

text \<open>The latest earlier event that decides the ownership of an attempt of a node.\<close>

definition ownership :: "string \<Rightarrow> bool \<Rightarrow> event \<Rightarrow> bool option" where
  "ownership name unclaimed ev = (case ev_kind ev of
     RecoveryQueued names _ _ source_direct_nodes \<Rightarrow>
       if name \<in> set names then Some (name \<in> set source_direct_nodes) else None
   | Started previous _ _ \<Rightarrow> if ex_node previous = name then Some False else None
   | Invalidated _ target _ _ _ _ _ source_direct \<Rightarrow>
       if unclaimed \<and> target = name then Some source_direct else None
   | _ \<Rightarrow> None)"

fun source_direct_attempt :: "execution \<Rightarrow> event list \<Rightarrow> bool" where
  "source_direct_attempt e [] = False"
| "source_direct_attempt e (ev # earlier) = (case started_of (ex_id e) ev of
     Some sequences \<Rightarrow>
       (case sequences of Some ss \<Rightarrow> \<exists>x \<in> set earlier. claims_source_direct (ex_node e) ss x | None \<Rightarrow> False)
       \<or> first_some (ownership (ex_node e) (sequences = None)) earlier = Some True
   | None \<Rightarrow> source_direct_attempt e earlier)"

definition execution_was_source_direct :: "snapshot \<Rightarrow> execution \<Rightarrow> bool" where
  "execution_was_source_direct st e = source_direct_attempt e (rev (st_events st))"

definition source_direct_roots :: "world \<Rightarrow> string \<Rightarrow> string list \<Rightarrow> snapshot \<Rightarrow> string list" where
  "source_direct_roots w repository roots st = filter (\<lambda>name. case latest_execution st name of
     Some e \<Rightarrow> ex_status e = ''failed'' \<and> wd_same_path w (ex_worktree e) repository \<and> execution_was_source_direct st e
   | None \<Rightarrow> False) roots"

definition recovery_roots :: "recovery_scope \<Rightarrow> snapshot \<Rightarrow> string list" where
  "recovery_roots scope st = bs_of_list (case scope of
     InterruptedOnly \<Rightarrow> interrupted_nodes st
   | AllFailed \<Rightarrow> failed_retry_nodes st @ preparation_failed_nodes st)"

definition recovery_nodes :: "string list \<Rightarrow> snapshot \<Rightarrow> string list" where
  "recovery_nodes roots st = filter (\<lambda>name. case bt_get (st_nodes st) name of
       Some n \<Rightarrow> ns_status n \<in> set [''failed'', ''blocked''] | None \<Rightarrow> False)
     (bs_of_list (concat (map (downstream (st_graph st)) roots)))"

definition queue_node_recovery :: "world \<Rightarrow> recovery_scope \<Rightarrow> runtime \<Rightarrow> runtime outcome" where
  "queue_node_recovery w scope rt =
     (let roots = recovery_roots scope (rn_state rt) in
      if roots = [] then Ok rt
      else andthen (sync_failed_node_models w (Some roots) rt) (\<lambda>rt.
        let st = rn_state rt;
            queue = (\<lambda>source_direct_nodes.
              let names = recovery_nodes roots st in
              if names = [] then Ok rt
              else emit w (RecoveryQueued names roots (scope = AllFailed) source_direct_nodes) rt)
        in case st_config st of
             Some c \<Rightarrow>
               if \<not> is_serial st \<and> cf_environment c = None
               then try_get (resolve_repository w c) rt (\<lambda>repository. queue (source_direct_roots w repository roots st))
               else queue []
           | None \<Rightarrow> queue []))"

section \<open>Stopping, pausing and resuming\<close>

definition running_attempts :: "string option \<Rightarrow> snapshot \<Rightarrow> execution list" where
  "running_attempts node st = filter (\<lambda>e. ex_status e = ''running''
     \<and> (case node of Some name \<Rightarrow> ex_node e = name | None \<Rightarrow> True)) (st_executions st)"

definition request_execution_stop :: "world \<Rightarrow> string option \<Rightarrow> runtime \<Rightarrow> runtime outcome" where
  "request_execution_stop w node rt =
     (let es = running_attempts node (rn_state rt) in
      if es = [] then Ok rt else emit w (ExecutionStopRequested (map ex_id es)) rt)"

definition set_paused :: "world \<Rightarrow> bool \<Rightarrow> recovery_scope option \<Rightarrow> runtime \<Rightarrow> runtime outcome" where
  "set_paused w paused recovery rt =
     (let st = rn_state rt in
      if st_phase st \<in> set [''publishing'', ''merging'', ''publication_failed'']
      then Error ''Publication has its own lifecycle; wait for it to finish or retry failed publication'' rt
      else if \<not> st_approved st then Error ''Approve the graph first'' rt
      else if paused then emit w (Paused True) rt
      else if \<exists>e \<in> set (st_executions st). ex_status e = ''running'' \<and> ex_id e \<in> set (st_execution_stop_requests st)
      then Error ''Wait for paused executions to stop before continuing'' rt
      else try_get (ok_or (st_config st) ''Missing config'') rt (\<lambda>c.
        try_get (resolve_repository w c) rt (\<lambda>_.
          andthen (case recovery of Some scope \<Rightarrow> queue_node_recovery w scope rt | None \<Rightarrow> Ok rt)
            (emit w (Paused False)))))"

definition pause_scope :: "snapshot \<Rightarrow> recovery_scope" where
  "pause_scope st =
     (if interrupted_nodes st \<noteq> []
         \<or> (st_paused st \<and> (\<exists>n \<in> set (bt_values (st_nodes st)). ns_status n \<in> set [''waiting'', ''dirty'']))
      then InterruptedOnly else AllFailed)"

definition pause :: "world \<Rightarrow> bool \<Rightarrow> runtime \<Rightarrow> runtime outcome" where
  "pause w paused rt = set_paused w paused (Some (pause_scope (rn_state rt))) rt"

definition resume_scheduling :: "world \<Rightarrow> runtime \<Rightarrow> runtime outcome" where
  "resume_scheduling w = set_paused w False None"

definition resume_after_intervention :: "world \<Rightarrow> runtime \<Rightarrow> runtime outcome" where
  "resume_after_intervention w = set_paused w False (Some InterruptedOnly)"

section \<open>Graph positions\<close>

definition parents :: "graph \<Rightarrow> string \<Rightarrow> string list" where
  "parents g name = map eg_from (filter (\<lambda>e. \<not> eg_feedback e \<and> eg_to e = name) (gr_edges g))"

definition latest_node_execution :: "snapshot \<Rightarrow> string \<Rightarrow> execution option" where
  "latest_node_execution st name = find (\<lambda>e. ex_node e = name \<and> ex_status e = ''completed''
     \<and> ex_completed_at e \<noteq> None \<and> ex_id e \<notin> set (st_superseded_execution_ids st)) (rev (st_executions st))"

definition has_single_consumer :: "graph \<Rightarrow> string \<Rightarrow> bool" where
  "has_single_consumer g name \<longleftrightarrow> length (filter (\<lambda>e. \<not> eg_feedback e \<and> eg_from e = name) (gr_edges g)) = 1"

text \<open>\<open>max_by_key\<close>: the last of the greatest.\<close>

fun last_max :: "('a \<Rightarrow> nat) \<Rightarrow> 'a list \<Rightarrow> 'a option" where
  "last_max f [] = None"
| "last_max f (x # xs) = (case last_max f xs of
     None \<Rightarrow> Some x | Some y \<Rightarrow> if f y < f x then Some x else Some y)"

definition terminal_workspace_for :: "world \<Rightarrow> snapshot \<Rightarrow> string \<Rightarrow> execution option" where
  "terminal_workspace_for w st name =
     (let terminals = filter (\<lambda>n. \<not> (\<exists>e \<in> set (gr_edges (st_graph st)). \<not> eg_feedback e \<and> eg_from e = nd_name n))
            (gr_nodes (st_graph st));
          es = filter (\<lambda>e. name \<in> set (ex_workspace_lineage e))
            (List.map_filter (\<lambda>n. latest_node_execution st (nd_name n)) terminals)
      in case es of
           [] \<Rightarrow> None
         | first # _ \<Rightarrow>
             if \<exists>e \<in> set es. \<not> wd_same_path w (ex_worktree e) (ex_worktree first) then None
             else last_max (\<lambda>e. case ex_completed_at e of Some at \<Rightarrow> at | None \<Rightarrow> ex_started_at e) es)"

section \<open>Messages\<close>

definition message_completed_node ::
  "world \<Rightarrow> string \<Rightarrow> string \<Rightarrow> image_attachment list option \<Rightarrow> runtime \<Rightarrow> runtime outcome" where
  "message_completed_node w name instruction images rt =
     (let st = rn_state rt in
      if \<not> st_approved st \<or> map_option ns_status (bt_get (st_nodes st) name) \<noteq> Some ''completed''
      then Error ''Select a completed node to message'' rt
      else if trim instruction = [] then Error ''Enter a message for the node'' rt
      else emit w (NodeMessaged name (trim instruction) images) rt)"

definition source_direct_context :: "snapshot \<Rightarrow> string \<Rightarrow> bool" where
  "source_direct_context st name \<longleftrightarrow>
     (case bt_get (st_nodes st) name of
        Some n \<Rightarrow> (case ns_pending_messages n of m # _ \<Rightarrow> pm_source_direct m | [] \<Rightarrow> False) | None \<Rightarrow> False)
     \<or> (\<not> is_serial st \<and> \<not> has_environment st \<and> st_phase st \<in> set [''completed'', ''followup'']
        \<and> map_option ns_status (bt_get (st_nodes st) name) = Some ''completed'')"

definition validate_invalidation :: "world \<Rightarrow> string \<Rightarrow> snapshot \<Rightarrow> string option" where
  "validate_invalidation w name st =
     (if case st_result_execution st of Some e \<Rightarrow> rx_status e = ''running'' | None \<Rightarrow> False
      then Some ''Wait for the native result writer or recover its interrupted execution before editing nodes''
      else if st_phase st \<in> set [''publishing'', ''merging'', ''publication_failed'']
      then Some ''Resolve or retry publication before changing node results''
      else if \<not> st_approved st then Some ''Approve the graph before updating a node''
      else if \<not> bt_contains (st_nodes st) name then Some ''Select a node''
      else case require_current_file_contract st of
        Some e \<Rightarrow> Some e
      | None \<Rightarrow>
          if \<exists>e \<in> set (st_executions st). ex_status e = ''running'' \<and> ex_node e \<noteq> name
               \<and> ex_node e \<in> set (downstream (st_graph st) name)
          then Some ''Steer a running node directly; wait for running downstream nodes before rerunning this node''
          else case st_config st of
            None \<Rightarrow> Some ''Missing config''
          | Some c \<Rightarrow> (case resolve_repository w c of
               Inl e \<Rightarrow> Some e
             | Inr repository \<Rightarrow>
                 if \<not> is_serial st \<and> \<not> wd_standard_git w repository
                 then wd_shadow_base w repository (latest_source_head st) else None))"

definition intervene_with_images ::
  "world \<Rightarrow> string \<Rightarrow> string \<Rightarrow> image_attachment list option \<Rightarrow> runtime \<Rightarrow> runtime outcome" where
  "intervene_with_images w name instruction images rt =
     (let st = rn_state rt in
      if trim instruction = [] then Error ''Enter an instruction for the node'' rt
      else if \<not> (\<exists>e \<in> set (st_executions st). ex_node e = name \<and> (ex_after e \<noteq> None \<or> ex_status e = ''failed''))
      then Error ''No previous node session to continue; revise the plan instead'' rt
      else
        let source_direct = source_direct_context st name;
            shared_workspace = (\<not> source_direct \<and> terminal_workspace_for w st name \<noteq> None)
        in try_ok (if source_direct then require_current_file_contract st else validate_invalidation w name st) rt
             (andthen (sync_failed_node_models w (Some [name]) rt)
               (emit w (Invalidated [name] name (trim instruction) True images None shared_workspace source_direct))))"

text \<open>The unfinished turns of a session: the ids, then the references their prompts carry.\<close>

definition unfinished_attempts :: "snapshot \<Rightarrow> string \<Rightarrow> string \<Rightarrow> string list" where
  "unfinished_attempts st name session = map ex_id (takeWhile (\<lambda>e. ex_status e \<noteq> ''completed'')
     (filter (\<lambda>e. ex_node e = name \<and> ex_session_id e = session \<and> ex_id e \<notin> set (st_superseded_execution_ids st))
       (rev (st_executions st))))"

definition claimed_sequences :: "string list \<Rightarrow> event \<Rightarrow> int list" where
  "claimed_sequences ids ev = (case ev_kind ev of
     Started e sequences _ \<Rightarrow> if ex_id e \<in> set ids then (case sequences of Some ss \<Rightarrow> ss | None \<Rightarrow> []) else []
   | _ \<Rightarrow> [])"

definition steered_text :: "string list \<Rightarrow> event \<Rightarrow> string option" where
  "steered_text ids ev = (case ev_kind ev of
     Steered eid _ instruction _ \<Rightarrow> if eid \<in> set ids then Some instruction else None
   | _ \<Rightarrow> None)"

definition claimed_text :: "string \<Rightarrow> int list \<Rightarrow> event \<Rightarrow> string option" where
  "claimed_text name sequences ev = (case ev_kind ev of
     Invalidated _ target instruction _ _ _ _ _ \<Rightarrow>
       if target = name \<and> ev_sequence ev \<in> set sequences then Some instruction else None
   | _ \<Rightarrow> None)"

definition recovery_attachment_instructions :: "snapshot \<Rightarrow> string \<Rightarrow> string \<Rightarrow> string \<Rightarrow> string" where
  "recovery_attachment_instructions st name session resent_task =
     (let ids = unfinished_attempts st name session;
          sequences = concat (map (claimed_sequences ids) (st_events st))
      in join [CHR 0x0A] ((if trim resent_task \<noteq> [] then [resent_task] else [])
           @ List.map_filter (steered_text ids) (st_events st)
           @ List.map_filter (claimed_text name sequences) (st_events st)))"

section \<open>A resolved workspace\<close>

definition latest_attempt :: "snapshot \<Rightarrow> string \<Rightarrow> execution option" where
  "latest_attempt st name = find (\<lambda>e. ex_node e = name) (rev (st_executions st))"

definition unresolved_workspace :: "world \<Rightarrow> string \<Rightarrow> string option" where
  "unresolved_workspace w path = (case wd_status w path of
     Inl e \<Rightarrow> Some e
   | Inr status \<Rightarrow>
       if status \<noteq> [] \<or> wd_merging w path
       then Some ''Resolve all conflicts and commit the merge in this worktree first'' else None)"

definition resolved :: "world \<Rightarrow> string \<Rightarrow> runtime \<Rightarrow> runtime outcome" where
  "resolved w name rt =
     (let st = rn_state rt in
      try_ok (require_current_file_contract st) rt
      (try_get (ok_or (st_config st) ''Missing config'') rt (\<lambda>c.
       try_get (resolve_repository w c) rt (\<lambda>repository.
         if active st \<or> map_option ns_status (bt_get (st_nodes st) name) \<noteq> Some ''blocked''
         then Error ''Pause first and select a blocked node'' rt
         else try_get (ok_or (latest_attempt st name) ''No workspace to resolve'') rt (\<lambda>e.
           try_ok (wd_finish_project w st (ex_worktree e)) rt
           (try_ok (unresolved_workspace w (ex_worktree e)) rt
           (try_ok (wd_prepared_ancestor w (ex_worktree e) (ex_before e)) rt
           (try_get (wd_snapshot_node w (ex_worktree e) repository name (st_run_id st)) rt (\<lambda>head.
              emit w (WorkspaceResolved (ex_id e) head (downstream (st_graph st) name) None) rt)))))))))"

end
