(* ===== verification/Feedback.thy ===== *)
theory Feedback
  imports Runtime_Control
begin

text \<open>
  What a finished attempt does to a run (\<open>backend/src/runtime.rs\<close>): \<open>finish\<close> records the result or the
  failure and, for a node that reviews another, queues its verdict; \<open>resolve_feedback\<close> applies the
  queued verdicts about one execution together.  The verdict is the last line of the output
  (\<open>backend/src/engine.rs\<close>, \<open>feedback\<close>).
\<close>

section \<open>The verdict in an output\<close>

definition final_line :: "string \<Rightarrow> string option" where
  "final_line output = (case rev (lines (trim output)) of [] \<Rightarrow> None | l # _ \<Rightarrow> Some (trim l))"

text \<open>True asks for a repair.\<close>

definition feedback :: "string \<Rightarrow> string + bool" where
  "feedback output =
     (if final_line output = Some ''<ACCEPT>'' then Inr False
      else if final_line output = Some ''<FEEDBACK>'' then Inr True
      else Inl ''Feedback protocol error: final line must be exactly <ACCEPT> or <FEEDBACK>'')"

text \<open>The text before the last line feed, nothing when there is none.\<close>

definition before_last_line :: "string \<Rightarrow> string" where
  "before_last_line s = rev (tl (dropWhile (\<lambda>c. c \<noteq> CHR 0x0A) (rev s)))"

definition feedback_body :: "string \<Rightarrow> string + string" where
  "feedback_body output = map_result (\<lambda>_. trim_end (before_last_line (trim_end output))) (feedback output)"

section \<open>Budget and scope of a verdict\<close>

definition feedback_limit :: "snapshot \<Rightarrow> nat" where
  "feedback_limit st = (case st_config st of Some c \<Rightarrow> min (cf_max_feedback c) 5 | None \<Rightarrow> 0)"

definition feedback_used :: "string \<Rightarrow> string \<Rightarrow> snapshot \<Rightarrow> nat" where
  "feedback_used from to st = (case bt_get (st_feedback_counts st) (feedback_key from to) of Some n \<Rightarrow> n | None \<Rightarrow> 0)"

definition feedback_budget_available :: "snapshot \<Rightarrow> edge \<Rightarrow> bool" where
  "feedback_budget_available st e \<longleftrightarrow> feedback_used (eg_from e) (eg_to e) st < feedback_limit st"

definition feedback_scope :: "snapshot \<Rightarrow> string \<Rightarrow> string list" where
  "feedback_scope st source = bs_of_list (concat (map (\<lambda>e. downstream (st_graph st) (eg_to e))
     (filter (\<lambda>e. eg_feedback e \<and> eg_from e = source \<and> feedback_budget_available st e) (gr_edges (st_graph st)))))"

definition node_is :: "snapshot \<Rightarrow> string list \<Rightarrow> string \<Rightarrow> bool" where
  "node_is st statuses name = (case bt_get (st_nodes st) name of Some n \<Rightarrow> ns_status n \<in> set statuses | None \<Rightarrow> False)"

definition feedback_scope_has_running :: "snapshot \<Rightarrow> string \<Rightarrow> bool" where
  "feedback_scope_has_running st source = list_ex (node_is st [''running'']) (feedback_scope st source)"

definition busy_feedback_nodes :: "snapshot \<Rightarrow> string list \<Rightarrow> string list" where
  "busy_feedback_nodes st pending_sources = bs_of_list (concat (map (\<lambda>e. feedback_scope st (eg_from e))
     (filter (\<lambda>e. eg_feedback e
         \<and> (node_is st [''waiting'', ''dirty'', ''running''] (eg_from e)
            \<or> (\<exists>p \<in> set (st_pending_feedback st). pf_from p = eg_from e)
            \<or> eg_from e \<in> set pending_sources)
         \<and> feedback_scope_has_running st (eg_from e)) (gr_edges (st_graph st)))))"

section \<open>Which execution a verdict is about\<close>

definition reviewed_execution :: "snapshot \<Rightarrow> string \<Rightarrow> string \<Rightarrow> execution option" where
  "reviewed_execution st source target =
     (if \<exists>e \<in> set (st_executions st). ex_id e = source
      then find (\<lambda>e. ex_node e = target \<and> ex_completed_at e \<noteq> None)
        (rev (takeWhile (\<lambda>e. ex_id e \<noteq> source) (st_executions st)))
      else None)"

definition feedback_request_is_current :: "snapshot \<Rightarrow> pending_feedback \<Rightarrow> bool" where
  "feedback_request_is_current st p \<longleftrightarrow>
     (\<exists>e \<in> set (gr_edges (st_graph st)). eg_feedback e \<and> eg_from e = pf_from p \<and> eg_to e = pf_to p)
     \<and> (case bt_get (st_nodes st) (pf_from p) of
          Some n \<Rightarrow> ns_status n = ''completed'' \<and> ns_head n = Some (pf_source_head p) | None \<Rightarrow> False)
     \<and> (case bt_get (st_nodes st) (pf_to p) of
          Some n \<Rightarrow> ns_revision n = pf_target_revision p
            \<and> (case pf_target_execution_id p of
                 Some eid \<Rightarrow> ns_status n = ''completed''
                   \<and> (case latest_node_execution st (pf_to p) of
                        Some e \<Rightarrow> ex_id e = eid \<and> ex_status e = ''completed'' | None \<Rightarrow> False)
               | None \<Rightarrow> ns_head n = pf_target_head p)
        | None \<Rightarrow> False)
     \<and> pf_execution_id p \<notin> set (st_superseded_execution_ids st)"

section \<open>Resolving verdicts\<close>

definition resolution_of :: "event \<Rightarrow> string option" where
  "resolution_of ev = (case ev_kind ev of FeedbackResolved eid _ \<Rightarrow> Some eid | _ \<Rightarrow> None)"

definition already_resolved :: "snapshot \<Rightarrow> string \<Rightarrow> bool" where
  "already_resolved st eid \<longleftrightarrow> Some eid \<in> resolution_of ` set (st_events st)"

definition feedback_batch :: "snapshot \<Rightarrow> pending_feedback \<Rightarrow> pending_feedback list" where
  "feedback_batch st p =
     (let batch = filter (\<lambda>c. pf_execution_id c = pf_execution_id p
            \<or> (pf_target_execution_id p \<noteq> None \<and> pf_to c = pf_to p
               \<and> pf_target_execution_id c = pf_target_execution_id p
               \<and> pf_target_revision c = pf_target_revision p
               \<and> feedback_request_is_current st c)) (st_pending_feedback st)
      in if \<exists>c \<in> set batch. pf_execution_id c = pf_execution_id p then batch else batch @ [p])"

text \<open>The running executions, as node and id, that a verdict asking for a repair makes void.\<close>

definition doomed_nodes :: "snapshot \<Rightarrow> pending_feedback list \<Rightarrow> string list" where
  "doomed_nodes st batch = concat (map (\<lambda>p. feedback_scope st (pf_from p)) (filter (\<lambda>p. \<not> pf_accepted p) batch))"

definition doomed_executions :: "snapshot \<Rightarrow> pending_feedback list \<Rightarrow> (string \<times> string) list" where
  "doomed_executions st batch = map (\<lambda>e. (ex_node e, ex_id e))
     (filter (\<lambda>e. ex_status e = ''running'' \<and> ex_node e \<in> set (doomed_nodes st batch)) (st_executions st))"

text \<open>The output of a member of the batch: given for the one just finished, read back for the others.\<close>

definition member_text :: "string option \<Rightarrow> pending_feedback \<Rightarrow> pending_feedback \<Rightarrow> snapshot \<Rightarrow> store \<Rightarrow> string + string" where
  "member_text output p member st db = (case (output, pf_execution_id member = pf_execution_id p) of
     (Some text, True) \<Rightarrow> Inr text
   | _ \<Rightarrow> (case execution_log_page (st_run_id st) (pf_execution_id member) (pf_output_offset member)
          (pf_output_bytes member) (so_logs db) of
        Inl e \<Rightarrow> Inl e
      | Inr page \<Rightarrow>
          if length (lp_content page) \<noteq> pf_output_bytes member then Inl ''Feedback output range is incomplete''
          else Inr (lp_content page)))"

definition feedback_source_of :: "pending_feedback \<Rightarrow> string \<Rightarrow> snapshot \<Rightarrow> string + string \<times> feedback_source" where
  "feedback_source_of member text st = (case feedback_body text of
     Inl e \<Rightarrow> Inl e
   | Inr body \<Rightarrow> (case find (\<lambda>e. ex_id e = pf_execution_id member) (st_executions st) of
        None \<Rightarrow> Inl ''Missing feedback execution''
      | Some e \<Rightarrow> Inr (''Feedback:'' @ CHR 0x0A # body,
          \<lparr>fs_source_execution_id = ex_id e, fs_worktree = ex_worktree e, fs_head = pf_source_head member\<rparr>)))"

text \<open>The events of one member, and its repair when its verdict applies.\<close>

definition resolve_member ::
  "string option \<Rightarrow> pending_feedback \<Rightarrow> snapshot \<Rightarrow> store \<Rightarrow> pending_feedback
     \<Rightarrow> string + event_kind list \<times> (string \<times> feedback_source) list" where
  "resolve_member output p st db member =
     (case find (\<lambda>e. eg_feedback e \<and> eg_from e = pf_from member \<and> eg_to e = pf_to member) (gr_edges (st_graph st)) of
        None \<Rightarrow> Inl ''No feedback edge''
      | Some edge \<Rightarrow>
          if \<not> pf_accepted member \<and> \<not> feedback_budget_available st edge
          then (case st_config st of
                  None \<Rightarrow> Inl ''Missing config''
                | Some c \<Rightarrow> Inr ([FeedbackExhausted (pf_from member) (pf_to member) (pf_execution_id member)
                      (feedback_used (pf_from member) (pf_to member) st) (min (cf_max_feedback c) 5),
                    FeedbackResolved (pf_execution_id member) ''exhausted''], []))
          else if pf_accepted member
          then Inr ([Feedback (pf_from member) (pf_to member) True,
                 FeedbackResolved (pf_execution_id member) ''accepted''], [])
          else (case member_text output p member st db of
                  Inl e \<Rightarrow> Inl e
                | Inr text \<Rightarrow> (case feedback_source_of member text st of
                    Inl e \<Rightarrow> Inl e
                  | Inr source \<Rightarrow> Inr ([Feedback (pf_from member) (pf_to member) False,
                        FeedbackResolved (pf_execution_id member) ''applied''], [source]))))"

fun resolve_members ::
  "(pending_feedback \<Rightarrow> string + 'a list \<times> 'b list) \<Rightarrow> pending_feedback list \<Rightarrow> string + 'a list \<times> 'b list" where
  "resolve_members f [] = Inr ([], [])"
| "resolve_members f (p # ps) = (case f p of
     Inl e \<Rightarrow> Inl e
   | Inr (xs, ys) \<Rightarrow> map_result (\<lambda>(xs', ys'). (xs @ xs', ys @ ys')) (resolve_members f ps))"

text \<open>The one invalidation that repairs the target of a batch.\<close>

definition repair_of :: "snapshot \<Rightarrow> pending_feedback \<Rightarrow> (string \<times> feedback_source) list \<Rightarrow> string + event_kind list" where
  "repair_of st p repairs = (case repairs of
     [] \<Rightarrow> Inr []
   | (_, source) # others \<Rightarrow>
       (case find (\<lambda>e. ex_node e = pf_to p \<and> ex_completed_at e \<noteq> None
            \<and> (case pf_target_execution_id p of Some eid \<Rightarrow> ex_id e = eid | None \<Rightarrow> True)) (rev (st_executions st)) of
          None \<Rightarrow> Inl ''Missing feedback target session''
        | Some target \<Rightarrow> Inr [Invalidated (downstream (st_graph st) (pf_to p)) (pf_to p)
            (join [CHR 0x0A, CHR 0x0A] (map fst repairs)) False None
            (Some \<lparr>fw_source_execution_id = fs_source_execution_id source, fw_target_execution_id = ex_id target,
               fw_worktree = fs_worktree source, fw_head = fs_head source, fw_additional_sources = map snd others\<rparr>)
            False False]))"

definition resolve_batch ::
  "world \<Rightarrow> string option \<Rightarrow> pending_feedback \<Rightarrow> pending_feedback list \<Rightarrow> runtime \<Rightarrow> runtime outcome" where
  "resolve_batch w output p batch rt =
     try_get (resolve_members (resolve_member output p (rn_state rt) (rn_store rt)) batch) rt (\<lambda>(kinds, repairs).
       try_get (repair_of (rn_state rt) p repairs) rt (\<lambda>repair. emit_outputs w (kinds @ repair) rt))"

definition resolve_feedback :: "world \<Rightarrow> pending_feedback \<Rightarrow> string option \<Rightarrow> runtime \<Rightarrow> runtime outcome" where
  "resolve_feedback w p output rt =
     (let st = rn_state rt in
      if already_resolved st (pf_execution_id p) then Ok rt
      else if \<not> feedback_request_is_current st p then emit w (FeedbackResolved (pf_execution_id p) ''superseded'') rt
      else
        let batch = feedback_batch st p;
            stopped = doomed_executions st batch
        in if stopped \<noteq> [] then try_ok (first_some (wd_stop w (st_run_id st)) stopped) rt (Ok rt)
           else if \<exists>c \<in> set batch. feedback_scope_has_running st (pf_from c) then Ok rt
           else resolve_batch w output p batch rt)"

fun resolve_each :: "world \<Rightarrow> pending_feedback list \<Rightarrow> runtime \<Rightarrow> runtime outcome" where
  "resolve_each w [] rt = Ok rt"
| "resolve_each w (p # ps) rt = andthen (resolve_feedback w p None rt) (resolve_each w ps)"

definition drain_feedback :: "world \<Rightarrow> runtime \<Rightarrow> runtime outcome" where
  "drain_feedback w rt = resolve_each w (st_pending_feedback (rn_state rt)) rt"

section \<open>Queueing a verdict\<close>

text \<open>The request of an execution of \<open>from\<close>; a target without a state is a panic.\<close>

definition pending_of ::
  "snapshot \<Rightarrow> string \<Rightarrow> edge \<Rightarrow> string \<Rightarrow> string option option \<Rightarrow> bool \<Rightarrow> nat \<Rightarrow> nat \<Rightarrow> pending_feedback option" where
  "pending_of st eid edge source_head handed accepted offset bytes =
     map_option (\<lambda>target. \<lparr>pf_execution_id = eid, pf_from = eg_from edge, pf_to = eg_to edge,
         pf_source_head = source_head,
         pf_target_head = (case handed of Some head \<Rightarrow> head | None \<Rightarrow> ns_head target),
         pf_target_revision = ns_revision target,
         pf_target_execution_id = map_option ex_id (reviewed_execution st eid (eg_to edge)),
         pf_accepted = accepted, pf_output_offset = offset, pf_output_bytes = bytes\<rparr>)
       (bt_get (st_nodes st) (eg_to edge))"

definition feedback_edge :: "graph \<Rightarrow> string \<Rightarrow> edge option" where
  "feedback_edge g from = find (\<lambda>e. eg_feedback e \<and> eg_from e = from) (gr_edges g)"

definition apply_feedback :: "world \<Rightarrow> string \<Rightarrow> string \<Rightarrow> runtime \<Rightarrow> runtime outcome" where
  "apply_feedback w from output rt =
     (let st = rn_state rt in
      try_get (feedback output) rt (\<lambda>repair.
      try_get (ok_or (find (\<lambda>e. ex_node e = from \<and> ex_status e = ''completed''
            \<and> ex_id e \<notin> set (st_superseded_execution_ids st)) (rev (st_executions st)))
          ''Feedback source has no completed execution'') rt (\<lambda>source.
      if already_resolved st (ex_id source) then Ok rt
      else case find (\<lambda>p. pf_execution_id p = ex_id source) (st_pending_feedback st) of
          Some p \<Rightarrow> resolve_feedback w p (Some output) rt
        | None \<Rightarrow> try_get (ok_or (feedback_edge (st_graph st) from) ''No feedback edge'') rt (\<lambda>edge.
            if \<not> bt_contains (st_nodes st) (eg_to edge) then Panic
            else try_get (ok_or (ex_after source) ''Feedback source has no result'') rt (\<lambda>head.
              case pending_of st (ex_id source) edge head None (\<not> repair) 0 (length output) of
                None \<Rightarrow> Panic
              | Some p \<Rightarrow> resolve_feedback w p (Some output) rt)))))"

section \<open>Finishing an attempt\<close>

definition paused_message :: string where
  "paused_message =
     [CHR 0xE7, CHR 0x94, CHR 0xA8, CHR 0xE6, CHR 0x88, CHR 0xB7, CHR 0xE5, CHR 0xB7,
      CHR 0xB2, CHR 0xE6, CHR 0x9A, CHR 0x82, CHR 0xE5, CHR 0x81, CHR 0x9C, CHR 0xE6,
      CHR 0x9C, CHR 0xAC, CHR 0xE6, CHR 0xAC, CHR 0xA1, CHR 0xE6, CHR 0x89, CHR 0xA7,
      CHR 0xE8, CHR 0xA1, CHR 0x8C, CHR 0xEF, CHR 0xBC, CHR 0x9B, CHR 0xE7, CHR 0x82,
      CHR 0xB9, CHR 0xE5, CHR 0x87, CHR 0xBB, CHR 0xE7, CHR 0xBB, CHR 0xA7, CHR 0xE7,
      CHR 0xBB, CHR 0xAD, CHR 0xE5, CHR 0x8F, CHR 0xAF, CHR 0xE6, CHR 0x81, CHR 0xA2,
      CHR 0xE5, CHR 0xA4, CHR 0x8D, CHR 0xE6, CHR 0x9C, CHR 0xAA, CHR 0xE5, CHR 0xAE,
      CHR 0x8C, CHR 0xE6, CHR 0x88, CHR 0x90, CHR 0xE7, CHR 0x9A, CHR 0x84, CHR 0xE4,
      CHR 0xBC, CHR 0x9A, CHR 0xE8, CHR 0xAF, CHR 0x9D, CHR 0xE3, CHR 0x80, CHR 0x82]"

definition stopped_message :: string where
  "stopped_message =
     [CHR 0xE7, CHR 0x94, CHR 0xA8, CHR 0xE6, CHR 0x88, CHR 0xB7, CHR 0xE5, CHR 0xB7,
      CHR 0xB2, CHR 0xE5, CHR 0x81, CHR 0x9C, CHR 0xE6, CHR 0xAD, CHR 0xA2, CHR 0xE6,
      CHR 0x9C, CHR 0xAC, CHR 0xE6, CHR 0xAC, CHR 0xA1, CHR 0xE6, CHR 0x89, CHR 0xA7,
      CHR 0xE8, CHR 0xA1, CHR 0x8C, CHR 0xEF, CHR 0xBC, CHR 0x9B, CHR 0xE5, CHR 0x8F,
      CHR 0xAF, CHR 0xE4, CHR 0xBB, CHR 0xA5, CHR 0xE4, CHR 0xBF, CHR 0xAE, CHR 0xE6,
      CHR 0x94, CHR 0xB9, CHR 0xE6, CHR 0xB6, CHR 0x88, CHR 0xE6, CHR 0x81, CHR 0xAF,
      CHR 0xE6, CHR 0x88, CHR 0x96, CHR 0xE9, CHR 0x87, CHR 0x8D, CHR 0xE6, CHR 0x96,
      CHR 0xB0, CHR 0xE8, CHR 0xBF, CHR 0x90, CHR 0xE8, CHR 0xA1, CHR 0x8C, CHR 0xE3,
      CHR 0x80, CHR 0x82]"

definition response_prefix :: string where
  "response_prefix = CHR 0x0A # [CHR 0xE2, CHR 0x94, CHR 0x80, CHR 0xE2, CHR 0x94, CHR 0x80]
     @ '' Final response '' @ [CHR 0xE2, CHR 0x94, CHR 0x80, CHR 0xE2, CHR 0x94, CHR 0x80, CHR 0x0A]"

definition fail_attempt :: "world \<Rightarrow> execution \<Rightarrow> string \<Rightarrow> runtime \<Rightarrow> runtime outcome" where
  "fail_attempt w e error rt =
     (let st = rn_state rt;
          error = (if st_stop_requested st \<and> ex_id e \<notin> set (st_execution_stop_requests st)
            then stopped_message else error)
      in andthen (andthen (emit w (Failed (ex_node e) (Some (ex_id e)) error 0 None) rt)
           (\<lambda>rt. if starts_with error ''Workspace composition blocked''
                  \<or> starts_with error ''Workspace composition failed'' \<or> contains_str error ''Merger:''
                then emit w (Blocked (ex_node e) error) rt else Ok rt))
           (sync_failed_node_models w (Some [ex_node e])))"

text \<open>The input and result an attempt in an environment must have recorded.\<close>

definition completion_evidence ::
  "world \<Rightarrow> execution \<Rightarrow> string \<Rightarrow> snapshot \<Rightarrow> string + composite_result \<times> composite_result" where
  "completion_evidence w e head st = (case (wd_record w st (ex_id e) ''before'') of
     Inl err \<Rightarrow> Inl err
   | Inr input \<Rightarrow> (case wd_record w st (ex_id e) ''after'' of
       Inl err \<Rightarrow> Inl err
     | Inr result \<Rightarrow>
         if cr_domain input \<noteq> cr_domain result
            \<or> (case st_environment_baseline st of None \<Rightarrow> True | Some b \<Rightarrow> cr_domain b \<noteq> cr_domain result)
         then Inl ''Completion composite evidence differs from the frozen native domain''
         else (case find (\<lambda>x. ex_id x = ex_id e) (st_executions st) of
             None \<Rightarrow> Inl ''Missing live execution''
           | Some live \<Rightarrow>
               if cr_code_ref input \<noteq> ex_before live \<or> cr_code_ref result \<noteq> head
               then Inl ''Composite evidence does not match actual execution code''
               else Inr (input, result))))"

text \<open>The events that end a successful attempt; \<open>None\<close> is the panic on a target without a state.\<close>

definition completion_events ::
  "world \<Rightarrow> execution \<Rightarrow> execution \<Rightarrow> (composite_result \<times> composite_result) option \<Rightarrow> string \<Rightarrow> string \<Rightarrow> nat
     \<Rightarrow> snapshot \<Rightarrow> (string + event_kind list) option" where
  "completion_events w e live composite head output offset st =
     (let records = (case composite of
            Some (input, result) \<Rightarrow>
              (if ex_input live = None then [ExecutionInputRecorded (ex_id e) input] else [])
                @ [ExecutionResultRecorded (ex_id e) result]
          | None \<Rightarrow> []);
          finished = Finished (ex_id e) head [] (length (ex_output live))
            (Some (parse_execution_metrics (en_parse (wd_env w)) (ex_output live)))
      in case feedback_edge (st_graph st) (ex_node e) of
           None \<Rightarrow> Some (Inr (records @ [finished]))
         | Some edge \<Rightarrow>
             if \<not> bt_contains (st_nodes st) (eg_to edge) then None
             else (case feedback output of
                 Inl err \<Rightarrow> Some (Inl err)
               | Inr repair \<Rightarrow> map_option (\<lambda>p. Inr (records @ [finished, FeedbackQueued p]))
                   (pending_of st (ex_id e) edge head
                     (if eg_to edge \<in> set (ex_workspace_lineage e) then Some (Some head) else None)
                     (\<not> repair) offset (length output))))"

definition complete_attempt ::
  "world \<Rightarrow> execution \<Rightarrow> (composite_result \<times> composite_result) option \<Rightarrow> string \<Rightarrow> string \<Rightarrow> runtime \<Rightarrow> runtime outcome" where
  "complete_attempt w e composite head output rt =
     try_get (ok_or (find (\<lambda>x. ex_id x = ex_id e) (st_executions (rn_state rt))) ''Execution not found'') rt (\<lambda>item.
       andthen (emit_outputs w [Output (ex_id e) (response_prefix @ output @ [CHR 0x0A])] rt) (\<lambda>rt.
         try_get (ok_or (find (\<lambda>x. ex_id x = ex_id e) (st_executions (rn_state rt))) ''Execution not found'') rt (\<lambda>live.
           case completion_events w e live composite head output
               (ex_output_bytes item + length response_prefix) (rn_state rt) of
             None \<Rightarrow> Panic
           | Some (Inl err) \<Rightarrow> Error err rt
           | Some (Inr kinds) \<Rightarrow> emit_outputs w kinds rt)))"

definition replying :: "'b option \<Rightarrow> 'a outcome \<Rightarrow> ('a \<times> 'b option) outcome" where
  "replying x r = (case r of Ok s \<Rightarrow> Ok (s, x) | Error e s \<Rightarrow> Error e (s, None) | Panic \<Rightarrow> Panic)"

text \<open>
  \<open>finish\<close>: the reply is the node and its output when its verdict is to be applied.  Clearing the stop
  mark of the process and reclaiming directories are not modelled.
\<close>

definition finish :: "world \<Rightarrow> execution \<Rightarrow> string + string \<times> string \<Rightarrow> runtime
    \<Rightarrow> (runtime \<times> (string \<times> string) option) outcome" where
  "finish w e result rt =
     (let st = rn_state rt;
          result = (if ex_id e \<in> set (st_execution_stop_requests st) then Inl paused_message else result);
          reviews = feedback_edge (st_graph st) (ex_node e) \<noteq> None;
          complete = (\<lambda>composite head output.
            case (if reviews then feedback output else Inr False) of
              Inl err \<Rightarrow> replying None (andthen (emit w (Failed (ex_node e) (Some (ex_id e)) err 0 None) rt)
                (sync_failed_node_models w (Some [ex_node e])))
            | Inr _ \<Rightarrow> replying (if reviews then Some (ex_node e, output) else None)
                (complete_attempt w e composite head output rt))
      in case result of
           Inl error \<Rightarrow> replying None (fail_attempt w e error rt)
         | Inr (head, output) \<Rightarrow>
             if has_environment st
             then (case wd_environments w st of
                 Some err \<Rightarrow> Error err (rt, None)
               | None \<Rightarrow> (case completion_evidence w e head st of
                   Inl err \<Rightarrow> replying None (fail_attempt w e err rt)
                 | Inr records \<Rightarrow> complete (Some records) head output))
             else complete None head output)"

end
