(* ===== verification/Feedback_Rounds.thy ===== *)
theory Feedback_Rounds
  imports Feedback Reducer_Growth
begin

text \<open>
  How often a review may send its target back: the counter of a feedback edge after any events, and which edges share
  one.  Every handler but those of a verdict and of a new graph leaves the counters alone.
\<close>

section \<open>Handlers that leave the counters alone\<close>

lemma counts_update [simp]: "st_feedback_counts (update_node name f st) = st_feedback_counts st"
  by (simp add: update_node_def)

lemma counts_fold: "(\<And>x s. st_feedback_counts (f x s) = st_feedback_counts s) \<Longrightarrow> st_feedback_counts (fold f xs st) = st_feedback_counts st"
  by (induction xs arbitrary: st) simp_all

lemma counts_loop [simp]:
  "st_feedback_counts (fold (\<lambda>x s. update_node (g x s) (f x s) s) xs st) = st_feedback_counts st"
  "st_feedback_counts (fold (\<lambda>x. update_node (g' x) (f' x)) xs st) = st_feedback_counts st"
  by (rule counts_fold; simp)+









lemma counts_plain [simp]:
  "st_feedback_counts (handle_workspace_snapshotted eid head result invalidated detached st) = st_feedback_counts st"
  "st_feedback_counts (set_agent_model settings st) = st_feedback_counts st"
  "st_feedback_counts (handle_result_finished d st) = st_feedback_counts st"
  "st_feedback_counts (recover_repaired name revision st) = st_feedback_counts st"
  "st_feedback_counts (handle_merger_finished en ts eid head bytes metrics st) = st_feedback_counts st"
  "st_feedback_counts (handle_merger_failed en ts eid error bytes metrics st) = st_feedback_counts st"
  by (simp_all add: handle_workspace_snapshotted_def set_agent_model_def handle_result_finished_def recover_repaired_def
      handle_merger_finished_def handle_merger_failed_def Let_def split: option.split prod.split)




section \<open>Which edges share a counter\<close>





section \<open>Rounds\<close>


















end
