(* ===== verification/Store_Log_Correct.thy ===== *)
theory Store_Log_Correct
  imports Store_Log
begin

text \<open>
  The transcript table keeps the text it was given: appended pieces read back as their
  concatenation, whatever the sizes of the pieces and of the pages, and the transcripts of other
  attempts are untouched.
\<close>

section \<open>Rows of one transcript\<close>

fun contiguous :: "nat \<Rightarrow> log_row list \<Rightarrow> bool" where
  "contiguous start [] = True"
| "contiguous start (r # rs) =
     (lg_offset r = start \<and> lg_bytes r = length (lg_text r) \<and> lg_text r \<noteq> [] \<and> utf8 (lg_text r)
      \<and> lg_bytes r \<le> chunk_bytes \<and> contiguous (start + lg_bytes r) rs)"

definition text_of :: "log_row list \<Rightarrow> string" where
  "text_of rs = concat (map lg_text rs)"

definition log_text :: "string \<Rightarrow> string \<Rightarrow> log_row list \<Rightarrow> string" where
  "log_text run eid t = text_of (rows_of run eid t)"

text \<open>Execution ids are unique across runs, as the primary key supposes.\<close>

definition log_ok :: "string \<Rightarrow> string \<Rightarrow> log_row list \<Rightarrow> bool" where
  "log_ok run eid t \<longleftrightarrow> sorted_wrt key_before t
     \<and> (\<forall>r \<in> set t. lg_execution r = eid \<longrightarrow> lg_run r = run) \<and> contiguous 0 (rows_of run eid t)"

lemma text_of_simps [simp]:
  "text_of [] = []" "text_of (r # rs) = lg_text r @ text_of rs" "text_of (rs @ ss) = text_of rs @ text_of ss"
  by (simp_all add: text_of_def)

lemma contiguous_append:
  "contiguous start (rs @ ss) \<longleftrightarrow> contiguous start rs \<and> contiguous (start + length (text_of rs)) ss"
  by (induction rs arbitrary: start) (auto simp: add.assoc)

lemma contiguous_utf8: "contiguous start rs \<Longrightarrow> utf8 (text_of rs)"
  by (induction rs arbitrary: start) (auto intro: utf8_append)

lemma contiguous_offset:
  "contiguous start rs \<Longrightarrow> r \<in> set rs \<Longrightarrow> start \<le> lg_offset r \<and> lg_offset r + lg_bytes r \<le> start + length (text_of rs)
    \<and> 0 < lg_bytes r"
  by (induction rs arbitrary: start) fastforce+

lemma log_ok_offsets:
  assumes "log_ok run eid t" and "r \<in> set t" and "lg_execution r = eid"
  shows "lg_offset r < length (log_text run eid t)"
proof -
  have "r \<in> set (rows_of run eid t)" using assms by (auto simp: log_ok_def rows_of_def)
  with assms(1) contiguous_offset [of 0 "rows_of run eid t" r] show ?thesis by (auto simp: log_ok_def log_text_def)
qed

lemma log_bytes_text: "contiguous 0 (rows_of run eid t) \<Longrightarrow> log_bytes run eid t = length (log_text run eid t)"
  by (cases "rows_of run eid t" rule: rev_cases)
    (auto simp: log_bytes_def last_row_def log_text_def contiguous_append)

section \<open>Inserting after the last row\<close>

lemma key_before_trans: "key_before a b \<Longrightarrow> key_before b c \<Longrightarrow> key_before a c"
  by (auto simp: key_before_def)

lemma insert_row_set: "insert_row r t = Some t' \<Longrightarrow> set t' = insert r (set t)"
  by (induction t arbitrary: t') (auto split: if_splits)

lemma key_total:
  "\<not> (lg_execution r = lg_execution x \<and> lg_offset r = lg_offset x) \<Longrightarrow> \<not> key_before r x \<Longrightarrow> key_before x r"
  by (auto simp: key_before_def)

lemma insert_row_sorted: "insert_row r t = Some t' \<Longrightarrow> sorted_wrt key_before t \<Longrightarrow> sorted_wrt key_before t'"
proof (induction t arbitrary: t')
  case (Cons x xs)
  show ?case
  proof (cases "key_before r x")
    case True
    then have "t' = r # x # xs" using Cons.prems(1) by (auto simp: key_before_def split: if_splits)
    with True Cons.prems(2) show ?thesis using key_before_trans [OF True] by simp
  next
    case False
    with Cons.prems(1) obtain ys where ys: "insert_row r xs = Some ys" "t' = x # ys" and "key_before x r"
      using key_total by (auto split: if_splits)
    with Cons.IH [OF ys(1)] Cons.prems(2) insert_row_set [OF ys(1)] show ?thesis by simp
  qed
qed simp

lemma insert_row_other: "insert_row r t = Some t' \<Longrightarrow> \<not> p r \<Longrightarrow> filter p t' = filter p t"
  by (induction t arbitrary: t') (auto split: if_splits)

lemma insert_row_end:
  assumes "\<And>x. x \<in> set t \<Longrightarrow> lg_execution x = lg_execution r \<Longrightarrow> lg_offset x < lg_offset r"
  shows "\<exists>t'. insert_row r t = Some t'"
  using assms
proof (induction t)
  case (Cons x xs)
  then obtain ys where "insert_row r xs = Some ys" by fastforce
  with Cons.prems [of x] show ?case by auto
qed simp

lemma insert_row_after:
  assumes "insert_row r t = Some t'" "sorted_wrt key_before t" "p r"
    and "\<And>x. x \<in> set t \<Longrightarrow> p x \<Longrightarrow> key_before x r"
  shows "filter p t' = filter p t @ [r]"
  using assms
proof (induction t arbitrary: t')
  case (Cons x xs)
  show ?case
  proof (cases "key_before r x")
    case True
    have "\<not> p y" if "y \<in> set (x # xs)" for y
    proof
      assume "p y"
      with Cons.prems(4) that have "key_before y r" by blast
      moreover have "key_before r y" using that True Cons.prems(2) key_before_trans [OF True] by auto
      ultimately show False by (auto simp: key_before_def)
    qed
    then have none: "filter p (x # xs) = []" by (auto simp: filter_empty_conv)
    have "t' = r # x # xs" using True Cons.prems(1) by (auto simp: key_before_def split: if_splits)
    with none Cons.prems(3) show ?thesis by simp
  next
    case False
    with Cons.prems(1) obtain ys where "insert_row r xs = Some ys" "t' = x # ys" by (auto split: if_splits)
    with Cons.IH [OF this(1)] Cons.prems(2-4) show ?thesis by simp
  qed
qed simp

text \<open>One more row at the end of a transcript.\<close>

lemma insert_at_end:
  assumes ok: "log_ok run eid t" and r: "lg_run r = run" "lg_execution r = eid"
    "lg_offset r = length (log_text run eid t)" "lg_bytes r = length (lg_text r)" "lg_text r \<noteq> []"
    "utf8 (lg_text r)" "lg_bytes r \<le> chunk_bytes"
  shows "\<exists>t'. insert_row r t = Some t' \<and> log_ok run eid t' \<and> log_text run eid t' = log_text run eid t @ lg_text r
    \<and> (\<forall>run' eid'. (run', eid') \<noteq> (run, eid) \<longrightarrow> rows_of run' eid' t' = rows_of run' eid' t)"
proof -
  have before: "lg_offset x < lg_offset r" if "x \<in> set t" "lg_execution x = lg_execution r" for x
    using log_ok_offsets [OF ok that(1)] that(2) r by simp
  obtain t' where t': "insert_row r t = Some t'" using insert_row_end [of t r] before by blast
  have sorted: "sorted_wrt key_before t" using ok by (simp add: log_ok_def)
  have rows: "rows_of run eid t' = rows_of run eid t @ [r]"
    unfolding rows_of_def by (rule insert_row_after [OF t' sorted]) (use before r in \<open>auto simp: key_before_def\<close>)
  have other: "rows_of run' eid' t' = rows_of run' eid' t" if "(run', eid') \<noteq> (run, eid)" for run' eid'
    unfolding rows_of_def by (rule insert_row_other [OF t']) (use that r in auto)
  have "log_ok run eid t'"
    using ok r insert_row_sorted [OF t' sorted] insert_row_set [OF t'] rows
    by (auto simp: log_ok_def contiguous_append log_text_def)
  with t' rows other show ?thesis by (auto simp: log_text_def)
qed

section \<open>Writing\<close>

lemma take_drop_utf8:
  assumes "utf8 s" "is_char_boundary s i" "is_char_boundary s j" "i \<le> j"
  shows "utf8 (take (j - i) (drop i s))"
proof -
  have "is_char_boundary (drop i s) (j - i)"
    using boundary_append [OF utf8_drop [OF assms(1,2)], of "take i s" j] assms boundary_le [OF assms(2)]
    by (cases "j = i") (simp_all add: min_absorb2)
  with utf8_drop [OF assms(1,2)] show ?thesis by (rule utf8_take)
qed

lemma insert_chunks_ok:
  "log_ok run eid t \<Longrightarrow> utf8 s \<Longrightarrow> is_char_boundary s pos \<Longrightarrow> start + pos = length (log_text run eid t) \<Longrightarrow>
   \<exists>t'. insert_chunks run eid start s idempotent pos t = Some (Inr t') \<and> log_ok run eid t'
     \<and> log_text run eid t' = log_text run eid t @ drop pos s
     \<and> (\<forall>run' eid'. (run', eid') \<noteq> (run, eid) \<longrightarrow> rows_of run' eid' t' = rows_of run' eid' t)"
proof (induction run eid start s idempotent pos t rule: insert_chunks.induct)
  case (1 run eid start s idempotent pos t)
  show ?case
  proof (cases "pos < length s")
    case False
    with "1.prems" boundary_le [OF "1.prems"(3)] show ?thesis by (simp add: insert_chunks.simps)
  next
    case True
    define stop where "stop = floor_boundary s (pos + chunk_bytes)"
    have bounds: "pos < stop" "stop \<le> length s" "stop \<le> pos + chunk_bytes" "is_char_boundary s stop"
      using floor_boundary_progress [OF "1.prems"(2,3) True] by (simp_all add: stop_def chunk_bytes_def)
    let ?r = "\<lparr>lg_run = run, lg_execution = eid, lg_offset = start + pos, lg_bytes = stop - pos,
      lg_text = take (stop - pos) (drop pos s)\<rparr>"
    have "\<exists>t'. insert_row ?r t = Some t' \<and> log_ok run eid t' \<and> log_text run eid t' = log_text run eid t @ lg_text ?r
      \<and> (\<forall>run' eid'. (run', eid') \<noteq> (run, eid) \<longrightarrow> rows_of run' eid' t' = rows_of run' eid' t)"
      by (rule insert_at_end [OF "1.prems"(1)])
        (use "1.prems" bounds take_drop_utf8 [OF "1.prems"(2,3) bounds(4)] in simp_all)
    then obtain t1 where t1: "insert_row ?r t = Some t1" "log_ok run eid t1"
      "log_text run eid t1 = log_text run eid t @ take (stop - pos) (drop pos s)"
      "\<forall>run' eid'. (run', eid') \<noteq> (run, eid) \<longrightarrow> rows_of run' eid' t1 = rows_of run' eid' t" by auto
    have "start + stop = length (log_text run eid t1)" using t1(3) "1.prems"(4) bounds by simp
    with "1.IH"(2) [OF True stop_def _ t1(1) t1(2) "1.prems"(2) bounds(4)] bounds(1)
    obtain t2 where t2: "insert_chunks run eid start s idempotent stop t1 = Some (Inr t2)" "log_ok run eid t2"
      "log_text run eid t2 = log_text run eid t1 @ drop stop s"
      "\<forall>run' eid'. (run', eid') \<noteq> (run, eid) \<longrightarrow> rows_of run' eid' t2 = rows_of run' eid' t1" by auto
    have "take (stop - pos) (drop pos s) @ drop stop s = drop pos s"
      by (metis append_take_drop_id bounds(1) drop_drop le_add_diff_inverse2 less_imp_le)
    with t1 t2 True bounds(1) show ?thesis
      by (subst insert_chunks.simps) (simp add: Let_def flip: stop_def)
  qed
qed

lemma grown_keys [simp]:
  "lg_execution (grown run eid offset piece r) = lg_execution r" "lg_run (grown run eid offset piece r) = lg_run r"
  "lg_offset (grown run eid offset piece r) = lg_offset r"
  by (simp_all add: grown_def)

lemma rows_of_grow: "rows_of run' eid' (grow_row run eid offset piece t) = map (grown run eid offset piece) (rows_of run' eid' t)"
  by (simp add: rows_of_def grow_row_def filter_map o_def)

lemma grow_row_keys:
  "sorted_wrt key_before (grow_row run eid offset piece t) = sorted_wrt key_before t"
  "(\<forall>r \<in> set (grow_row run eid offset piece t). lg_execution r = e \<longrightarrow> lg_run r = n)
   = (\<forall>r \<in> set t. lg_execution r = e \<longrightarrow> lg_run r = n)"
  by (simp_all add: grow_row_def sorted_wrt_map key_before_def [abs_def])

lemma rows_of_owner: "r \<in> set (rows_of run eid t) \<Longrightarrow> lg_execution r = eid \<and> lg_run r = run"
  by (auto simp: rows_of_def)

lemma grow_last:
  assumes ok: "log_ok run eid t" and rows: "rows_of run eid t = rs @ [r]"
    and piece: "utf8 piece" "lg_bytes r + length piece \<le> chunk_bytes"
  defines "t' \<equiv> grow_row run eid (lg_offset r) piece t"
  shows "log_ok run eid t'" "log_text run eid t' = log_text run eid t @ piece"
    "(run', eid') \<noteq> (run, eid) \<Longrightarrow> rows_of run' eid' t' = rows_of run' eid' t"
proof -
  have cont: "contiguous 0 (rs @ [r])" using ok rows by (simp add: log_ok_def)
  have "lg_offset x < lg_offset r" if "x \<in> set rs" for x
    using contiguous_offset [of 0 rs x] that cont by (auto simp: contiguous_append)
  then have keep: "map (grown run eid (lg_offset r) piece) rs = rs"
    by (intro map_idI) (fastforce simp: grown_def)
  have "lg_execution r = eid \<and> lg_run r = run" by (rule rows_of_owner [of _ _ _ t]) (simp add: rows)
  then have rows': "rows_of run eid t' = rs @ [r\<lparr>lg_bytes := lg_bytes r + length piece, lg_text := lg_text r @ piece\<rparr>]"
    unfolding t'_def rows_of_grow rows map_append keep by (simp add: grown_def)
  from ok cont piece rows' utf8_append show "log_ok run eid t'"
    unfolding log_ok_def t'_def grow_row_keys by (simp add: contiguous_append)
  show "log_text run eid t' = log_text run eid t @ piece" by (simp add: log_text_def rows rows')
  assume "(run', eid') \<noteq> (run, eid)"
  then show "rows_of run' eid' t' = rows_of run' eid' t"
    unfolding t'_def rows_of_grow by (intro map_idI) (auto simp: grown_def dest: rows_of_owner)
qed

text \<open>A piece that starts where the transcript ends is appended to it, and nothing else changes.\<close>

lemma append_chunks_ok:
  assumes ok: "log_ok run eid t" and s: "utf8 s" and start: "start = length (log_text run eid t)"
  shows "\<exists>t'. append_chunks run eid start s t = Some (Inr t') \<and> log_ok run eid t'
     \<and> log_text run eid t' = log_text run eid t @ s
     \<and> (\<forall>run' eid'. (run', eid') \<noteq> (run, eid) \<longrightarrow> rows_of run' eid' t' = rows_of run' eid' t)"
proof (cases "s = []")
  case False
  have plain: ?thesis if "append_chunks run eid start s t = insert_chunks run eid start s False 0 t"
    unfolding that using insert_chunks_ok [OF ok s, of 0 start False] start by simp
  show ?thesis
  proof (cases "rows_of run eid t" rule: rev_cases)
    case Nil
    then show ?thesis using False by (intro plain) (simp add: append_chunks_def last_row_def)
  next
    case (snoc rs r)
    let ?stop = "floor_boundary s (chunk_bytes - lg_bytes r)"
    show ?thesis
    proof (cases "lg_bytes r < chunk_bytes \<and> lg_offset r + lg_bytes r = start \<and> 0 < ?stop")
      case False
      with \<open>s \<noteq> []\<close> snoc show ?thesis by (intro plain) (auto simp: append_chunks_def last_row_def Let_def)
    next
      case True
      have "?stop \<le> chunk_bytes - lg_bytes r" by simp
      with True have "lg_bytes r + ?stop \<le> chunk_bytes" by linarith
      then have room: "lg_bytes r + length (take ?stop s) \<le> chunk_bytes" by simp
      note halves = utf8_split [OF s, of ?stop, simplified]
      note grown = grow_last [OF ok snoc halves [THEN conjunct1] room]
      let ?g = "grow_row run eid (lg_offset r) (take ?stop s) t"
      have "start + ?stop + 0 = length (log_text run eid ?g)" using grown(2) start by simp
      from insert_chunks_ok [OF grown(1) halves [THEN conjunct2] boundary_0 this, of False]
      obtain t' where "insert_chunks run eid (start + ?stop) (drop ?stop s) False 0 ?g = Some (Inr t')"
        "log_ok run eid t'" "log_text run eid t' = log_text run eid ?g @ drop ?stop s"
        "\<forall>run' eid'. (run', eid') \<noteq> (run, eid) \<longrightarrow> rows_of run' eid' t' = rows_of run' eid' ?g" by auto
      with True \<open>s \<noteq> []\<close> snoc grown(2,3) show ?thesis
        by (simp add: append_chunks_def last_row_def Let_def)
    qed
  qed
qed (use ok in \<open>simp add: append_chunks_def\<close>)

section \<open>Reading\<close>

lemma floor_boundary_append:
  assumes "utf8 b"
  shows "floor_boundary (a @ b) i = (if i < length a then floor_boundary a i else length a + floor_boundary b (i - length a))"
proof (cases "i < length a")
  case True
  then show ?thesis
    unfolding floor_boundary_greatest boundary_append [OF assms]
    using floor_boundary_props [of a i] floor_boundary_ge [of a _ i] by auto
next
  case False
  have "is_char_boundary (a @ b) (length a + floor_boundary b (i - length a))"
    unfolding boundary_append [OF assms] by auto
  moreover have "j \<le> length a + floor_boundary b (i - length a)" if "j \<le> i" "is_char_boundary (a @ b) j" for j
  proof (cases "j \<le> length a")
    case False
    with that have "is_char_boundary b (j - length a)" by (simp add: boundary_append [OF assms])
    with floor_boundary_ge [OF this diff_le_mono [OF that(1)]] show ?thesis by linarith
  qed simp
  ultimately have "floor_boundary (a @ b) i = length a + floor_boundary b (i - length a)"
    unfolding floor_boundary_greatest using le_diff_conv2 [of "length a" i "floor_boundary b (i - length a)"] False by auto
  with False show ?thesis by simp
qed

lemma floor_boundary_length: "length s \<le> i \<Longrightarrow> floor_boundary s i = length s"
  unfolding floor_boundary_greatest using boundary_le by auto

lemma contiguous_past: "contiguous start rs \<Longrightarrow> stop \<le> start \<Longrightarrow> filter (\<lambda>r. lg_offset r < stop) rs = []"
  using contiguous_offset [of start rs] by (fastforce simp: filter_empty_conv)

text \<open>The loop over rows that start at \<open>start\<close>, entered \<open>skip\<close> bytes into the first one.\<close>

lemma read_rows_text:
  assumes "contiguous start rs" and "rs \<noteq> [] \<Longrightarrow> skip \<le> lg_bytes (hd rs)" and "rs = [] \<Longrightarrow> skip = 0"
    and "start + skip \<le> stop" and "0 < skip \<Longrightarrow> start < stop"
  shows "read_rows stop (filter (\<lambda>r. lg_offset r < stop) rs) content (start + skip) =
    (if is_char_boundary (text_of rs) skip
     then Inr (content @ take (floor_boundary (text_of rs) (stop - start) - skip) (drop skip (text_of rs)),
       start + floor_boundary (text_of rs) (stop - start))
     else Inl ''Invalid output offset'')"
  using assms
proof (induction rs arbitrary: start skip content)
  case Nil
  then show ?case using floor_boundary_length [of "[]" "stop - start"] by simp
next
  case (Cons r rs)
  have r: "lg_offset r = start" "lg_bytes r = length (lg_text r)" "utf8 (lg_text r)" "lg_text r \<noteq> []"
    and rest: "contiguous (start + lg_bytes r) rs" using Cons.prems(1) by auto
  have skip_: "skip \<le> length (lg_text r)" using Cons.prems(2) r(2) by simp
  note u = contiguous_utf8 [OF rest]
  show ?case
  proof (cases "start < stop")
    case False
    with Cons.prems(4,5) have "stop = start" "skip = 0" by auto
    with contiguous_past [OF Cons.prems(1), of stop] floor_boundary_props(2) [of "text_of (r # rs)" 0] show ?thesis
      by simp
  next
    case True
    let ?to = "floor_boundary (lg_text r) (stop - start)"
    show ?thesis
    proof (cases "is_char_boundary (lg_text r) skip")
      case False
      with True r skip_ show ?thesis using boundary_append [OF u, of "lg_text r" skip] by simp
    next
      case here: True
      have le: "skip \<le> ?to" using floor_boundary_ge [OF here, of "stop - start"] Cons.prems(4) by simp
      have bound: "is_char_boundary (text_of (r # rs)) skip" using boundary_append [OF u, of "lg_text r" skip] here skip_ by simp
      show ?thesis
      proof (cases "stop - start < length (lg_text r)")
        case short: True
        have "?to < length (lg_text r)" by (rule le_less_trans [OF floor_boundary_props(2) short])
        with True here bound le r skip_ show ?thesis
          using floor_boundary_append [OF u, of "lg_text r" "stop - start"] short by (simp add: Let_def)
      next
        case False
        let ?k = "floor_boundary (text_of rs) (stop - start - length (lg_text r))"
        have full: "?to = length (lg_text r)" using False by (intro floor_boundary_length) simp
        have k: "floor_boundary (text_of (r # rs)) (stop - start) = length (lg_text r) + ?k"
          using floor_boundary_append [OF u, of "lg_text r" "stop - start"] False by simp
        have next_: "read_rows stop (filter (\<lambda>r. lg_offset r < stop) rs) (content @ drop skip (lg_text r)) (start + lg_bytes r + 0)
          = (if is_char_boundary (text_of rs) 0
             then Inr ((content @ drop skip (lg_text r)) @ take (floor_boundary (text_of rs) (stop - (start + lg_bytes r)) - 0)
                  (drop 0 (text_of rs)), start + lg_bytes r + floor_boundary (text_of rs) (stop - (start + lg_bytes r)))
             else Inl ''Invalid output offset'')"
          by (rule Cons.IH [OF rest]) (use False True r in auto)
        show ?thesis
          using True here bound le r skip_ full k next_ False by (simp add: Let_def)
      qed
    qed
  qed
qed

lemma contiguous_find:
  "contiguous start rs \<Longrightarrow> start \<le> x \<Longrightarrow> x < start + length (text_of rs) \<Longrightarrow>
   \<exists>pre r post. rs = pre @ r # post \<and> lg_offset r \<le> x \<and> x < lg_offset r + lg_bytes r"
proof (induction rs arbitrary: start)
  case (Cons r rs)
  show ?case
  proof (cases "x < lg_offset r + lg_bytes r")
    case True
    with Cons.prems show ?thesis by (intro exI [of _ "[]"]) auto
  next
    case False
    with Cons.prems have "start + lg_bytes r \<le> x" "x < start + lg_bytes r + length (text_of rs)" by auto
    with Cons.IH [of "start + lg_bytes r"] Cons.prems(1) obtain pre r' post where "rs = pre @ r' # post"
      "lg_offset r' \<le> x" "x < lg_offset r' + lg_bytes r'" by auto
    then show ?thesis by (intro exI [of _ "r # pre"]) auto
  qed
qed simp

lemma split_offsets:
  assumes "contiguous 0 (pre @ r # post)"
  shows "lg_offset r = length (text_of pre)" "x \<in> set pre \<Longrightarrow> lg_offset x < lg_offset r"
    "x \<in> set post \<Longrightarrow> lg_offset r + lg_bytes r \<le> lg_offset x" "0 < lg_bytes r"
  using assms contiguous_offset [of 0 pre x] contiguous_offset [of "length (text_of pre) + lg_bytes r" post x]
  by (auto simp: contiguous_append)

lemma rows_from:
  assumes "contiguous 0 (pre @ r # post)"
  shows "filter (\<lambda>x. lg_offset r \<le> lg_offset x \<and> q x) (pre @ r # post) = filter q (r # post)"
proof -
  have "filter (\<lambda>x. lg_offset r \<le> lg_offset x \<and> q x) pre = []"
    using split_offsets(2) [OF assms] by (fastforce simp: filter_empty_conv)
  moreover have "filter (\<lambda>x. lg_offset r \<le> lg_offset x \<and> q x) post = filter q post"
    using split_offsets(3) [OF assms] by (intro filter_cong) fastforce+
  ultimately show ?thesis by simp
qed

lemma rows_upto:
  assumes "contiguous 0 (pre @ r # post)" "lg_offset r \<le> k" "k < lg_offset r + lg_bytes r"
  shows "last_row (filter (\<lambda>x. lg_offset x \<le> k) (pre @ r # post)) = Some r"
proof -
  have "filter (\<lambda>x. lg_offset x \<le> k) post = []"
    using split_offsets(3) [OF assms(1)] assms(3) by (fastforce simp: filter_empty_conv)
  with assms(2) show ?thesis by (simp add: last_row_def)
qed

lemma read_window:
  assumes ok: "contiguous 0 (pre @ r # post)" and skip: "skip \<le> lg_bytes r" "lg_offset r + skip \<le> stop"
  defines "s \<equiv> text_of (pre @ r # post)"
  shows "read_rows stop (filter (\<lambda>x. lg_offset r \<le> lg_offset x \<and> lg_offset x < stop) (pre @ r # post)) [] (lg_offset r + skip)
    = (if is_char_boundary s (lg_offset r + skip)
       then Inr (take (floor_boundary s stop - (lg_offset r + skip)) (drop (lg_offset r + skip) s), floor_boundary s stop)
       else Inl ''Invalid output offset'')"
proof -
  have cont: "contiguous (lg_offset r) (r # post)" using ok by (auto simp: contiguous_append)
  note u = contiguous_utf8 [OF cont]
  have off: "lg_offset r = length (text_of pre)" by (rule split_offsets(1) [OF ok])
  have s: "s = text_of pre @ text_of (r # post)" by (simp add: s_def)
  have bound: "is_char_boundary s (lg_offset r + skip) = is_char_boundary (text_of (r # post)) skip"
    unfolding s boundary_append [OF u] off by (cases "skip = 0") simp_all
  have floor: "floor_boundary s stop = lg_offset r + floor_boundary (text_of (r # post)) (stop - lg_offset r)"
    unfolding s floor_boundary_append [OF u] using off skip(2) by simp
  have drop: "drop (lg_offset r + skip) s = drop skip (text_of (r # post))" unfolding s off by simp
  show ?thesis
    unfolding rows_from [OF ok] bound floor drop
    using read_rows_text [OF cont, of skip stop "[]"] skip split_offsets(4) [OF ok] by simp
qed

section \<open>Pages\<close>

text \<open>A page of a transcript is exact: it holds the text from the requested offset up to the last
  character boundary within the limit, reports where it stops, and says it is complete exactly at the end of
  the transcript; an offset outside the transcript or inside a character is refused.\<close>

theorem log_page_exact:
  assumes "log_ok run eid t"
  shows "execution_log_page run eid offset limit t =
    (let s = log_text run eid t; stop = floor_boundary s (min (offset + limit) (length s)) in
     if is_char_boundary s offset
     then Inr \<lparr>lp_content = take (stop - offset) (drop offset s), lp_start_offset = offset,
            lp_next_offset = stop, lp_total_bytes = length s, lp_complete = (stop = length s)\<rparr>
     else Inl ''Invalid output offset'')"
proof -
  let ?s = "log_text run eid t"
  have ok: "contiguous 0 (rows_of run eid t)" using assms by (simp add: log_ok_def)
  note total = log_bytes_text [OF ok]
  show ?thesis
  proof (cases "offset < length ?s")
    case False
    then show ?thesis
      using boundary_le [of ?s offset] floor_boundary_length [of ?s "length ?s"]
      by (cases "offset = length ?s") (auto simp: execution_log_page_def total Let_def)
  next
    case True
    obtain pre r post where rows: "rows_of run eid t = pre @ r # post" and r: "lg_offset r \<le> offset"
      "offset < lg_offset r + lg_bytes r" using contiguous_find [OF ok, of offset] True by (auto simp: log_text_def)
    have s: "?s = text_of (pre @ r # post)" by (simp add: log_text_def rows)
    have "lg_offset r + (offset - lg_offset r) \<le> min (offset + limit) (length ?s)" using r True by simp
    from read_window [OF ok [unfolded rows] _ this] r show ?thesis
      unfolding execution_log_page_def total Let_def rows rows_upto [OF ok [unfolded rows] r] option.case s [symmetric]
      using True by (simp add: map_result_def make_page_def)
  qed
qed

text \<open>A page of the tail can be prepended: it ends at the last character boundary before the
  requested end, holds the text from its start to there, starts at or before the requested length and always
  makes progress, so pages read backwards from the end join up to the whole transcript.\<close>

theorem log_tail_page_joins:
  assumes "log_ok run eid t" and "0 < min before (length (log_text run eid t))"
  shows "\<exists>page. execution_log_tail_page run eid before limit t = Inr page
    \<and> lp_next_offset page = floor_boundary (log_text run eid t) (min before (length (log_text run eid t)))
    \<and> lp_content page = take (lp_next_offset page - lp_start_offset page) (drop (lp_start_offset page) (log_text run eid t))
    \<and> is_char_boundary (log_text run eid t) (lp_start_offset page)
    \<and> lp_start_offset page < min before (length (log_text run eid t))
    \<and> lp_start_offset page \<le> min before (length (log_text run eid t)) - limit"
proof -
  let ?s = "log_text run eid t"
  let ?stop = "min before (length ?s)"
  have ok: "contiguous 0 (rows_of run eid t)" using assms by (simp add: log_ok_def)
  note total = log_bytes_text [OF ok]
  have "?stop - limit < length ?s \<or> ?stop - limit = length ?s" by auto
  then obtain pre r post where rows: "rows_of run eid t = pre @ r # post" and r: "lg_offset r \<le> ?stop - limit"
    and last: "last_row (filter (\<lambda>x. lg_offset x \<le> ?stop - limit) (rows_of run eid t)) = Some r"
  proof
    assume "?stop - limit < length ?s"
    then obtain pre r post where "rows_of run eid t = pre @ r # post" "lg_offset r \<le> ?stop - limit"
      "?stop - limit < lg_offset r + lg_bytes r" using contiguous_find [OF ok, of "?stop - limit"] by (auto simp: log_text_def)
    with rows_upto [OF ok [unfolded this(1)] this(2,3)] show thesis by (intro that [of pre r post]) simp_all
  next
    assume all: "?stop - limit = length ?s"
    with assms(2) have "rows_of run eid t \<noteq> []" by (auto simp: log_text_def)
    then obtain pre r where rows: "rows_of run eid t = pre @ [r]" by (cases "rows_of run eid t" rule: rev_cases) auto
    have "filter (\<lambda>x. lg_offset x \<le> ?stop - limit) (rows_of run eid t) = rows_of run eid t"
      using contiguous_offset [OF ok] all by (fastforce simp: log_text_def filter_id_conv)
    moreover have "lg_offset r \<le> ?stop - limit"
      unfolding all using contiguous_offset [OF ok, of r] rows by (simp add: log_text_def)
    ultimately show thesis using rows by (intro that [of pre r "[]"]) (simp_all add: last_row_def)
  qed
  note cont = ok [unfolded rows]
  define first where "first = (case last_row (filter (\<lambda>x. lg_offset x < lg_offset r) (rows_of run eid t)) of
      Some previous \<Rightarrow> previous | None \<Rightarrow> r)"
  have "filter (\<lambda>x. lg_offset x < lg_offset r) (rows_of run eid t) = pre"
    using split_offsets(2,3) [OF cont] unfolding rows by (fastforce simp: filter_empty_conv filter_id_conv)
  then have first: "first = (if pre = [] then r else last pre)" by (simp add: first_def last_row_def)
  obtain pre' post' where rows': "rows_of run eid t = pre' @ first # post'"
    using rows first by (cases pre rule: rev_cases) auto
  have le: "lg_offset first \<le> lg_offset r" "pre \<noteq> [] \<Longrightarrow> lg_offset first < lg_offset r"
    using first split_offsets(2) [OF cont, of "last pre"] by (cases "pre = []"; simp add: less_imp_le)+
  have less: "lg_offset first < ?stop"
  proof (cases "pre = []")
    case True
    with assms(2) split_offsets(1) [OF cont] show ?thesis by (simp add: first)
  next
    case False
    from le(2) [OF this] r show ?thesis by linarith
  qed
  have "contiguous (lg_offset first) (first # post')" using ok by (auto simp: rows' contiguous_append)
  from boundary_append [OF contiguous_utf8 [OF this], of "text_of pre'" "lg_offset first"]
  have bound: "is_char_boundary ?s (lg_offset first)"
    using split_offsets(1) [OF ok [unfolded rows']] by (simp add: log_text_def rows')
  have start: "(case last_row (filter (\<lambda>x. lg_offset x < lg_offset r) (rows_of run eid t)) of
      Some previous \<Rightarrow> lg_offset previous | None \<Rightarrow> lg_offset r) = lg_offset first"
    by (simp add: first_def split: option.split)
  have "read_rows ?stop (filter (\<lambda>x. lg_offset first \<le> lg_offset x \<and> lg_offset x < ?stop) (rows_of run eid t)) [] (lg_offset first)
    = Inr (take (floor_boundary ?s ?stop - lg_offset first) (drop (lg_offset first) ?s), floor_boundary ?s ?stop)"
    using read_window [OF ok [unfolded rows'], of 0 ?stop] less bound by (simp add: log_text_def rows')
  then show ?thesis
    using assms(2) last bound less le r
    by (simp add: execution_log_tail_page_def total Let_def start map_result_def make_page_def)
qed

section \<open>Writing then reading\<close>

text \<open>The pieces of a stream, each written where the transcript ends.\<close>

fun write_pieces :: "string \<Rightarrow> string \<Rightarrow> string list \<Rightarrow> log_row list \<Rightarrow> (string + log_row list) option" where
  "write_pieces run eid [] t = Some (Inr t)"
| "write_pieces run eid (p # ps) t =
     (case append_chunks run eid (log_bytes run eid t) p t of
        Some (Inr t') \<Rightarrow> write_pieces run eid ps t' | failure \<Rightarrow> failure)"

lemma write_pieces_ok:
  "log_ok run eid t \<Longrightarrow> list_all utf8 ps \<Longrightarrow> \<exists>t'. write_pieces run eid ps t = Some (Inr t') \<and> log_ok run eid t'
    \<and> log_text run eid t' = log_text run eid t @ concat ps
    \<and> (\<forall>run' eid'. (run', eid') \<noteq> (run, eid) \<longrightarrow> rows_of run' eid' t' = rows_of run' eid' t)"
proof (induction ps arbitrary: t)
  case (Cons p ps)
  have "log_bytes run eid t = length (log_text run eid t)" using Cons.prems(1) by (simp add: log_ok_def log_bytes_text)
  from append_chunks_ok [where s = p, OF Cons.prems(1) _ this] Cons.prems(2) obtain t1 where t1:
    "append_chunks run eid (log_bytes run eid t) p t = Some (Inr t1)" "log_ok run eid t1"
    "log_text run eid t1 = log_text run eid t @ p"
    "\<forall>run' eid'. (run', eid') \<noteq> (run, eid) \<longrightarrow> rows_of run' eid' t1 = rows_of run' eid' t" by auto
  with Cons.IH [OF t1(2)] Cons.prems(2) show ?case by auto
qed simp

text \<open>C15: streamed output round-trips: however the output of an attempt was split into writes and rows,
  all writes succeed and one page of sufficient size returns exactly their concatenation after what was
  there, complete, while the transcript of every other attempt keeps its rows.\<close>

theorem log_roundtrip:
  assumes "log_ok run eid t" and "list_all utf8 ps"
    and "length (log_text run eid t) + length (concat ps) \<le> limit"
  shows "\<exists>t' page. write_pieces run eid ps t = Some (Inr t') \<and> execution_log_page run eid 0 limit t' = Inr page
    \<and> lp_content page = log_text run eid t @ concat ps \<and> lp_complete page
    \<and> (\<forall>run' eid'. (run', eid') \<noteq> (run, eid) \<longrightarrow> rows_of run' eid' t' = rows_of run' eid' t)"
proof -
  obtain t' where t': "write_pieces run eid ps t = Some (Inr t')" "log_ok run eid t'"
    "log_text run eid t' = log_text run eid t @ concat ps"
    "\<forall>run' eid'. (run', eid') \<noteq> (run, eid) \<longrightarrow> rows_of run' eid' t' = rows_of run' eid' t"
    using write_pieces_ok [OF assms(1,2)] by auto
  then show ?thesis
    using log_page_exact [OF t'(2), of 0 limit] assms(3) floor_boundary_length [of "log_text run eid t'"]
    by (intro exI [of _ t']) (simp add: Let_def min_absorb2)
qed

text \<open>Two attempts share the table; the first one's last row, which ends in a two-byte character, is filled up.\<close>

definition sample_log :: "log_row list" where
  "sample_log =
     [\<lparr>lg_run = ''r'', lg_execution = ''a'', lg_offset = 0, lg_bytes = 3, lg_text = [CHR ''h'', CHR 0xC3, CHR 0xA9]\<rparr>,
      \<lparr>lg_run = ''r'', lg_execution = ''b'', lg_offset = 0, lg_bytes = 2, lg_text = ''ok''\<rparr>]"

lemma sample_log_ok: "log_ok ''r'' ''a'' sample_log"
  by (simp add: log_ok_def sample_log_def key_before_def rows_of_def utf8.simps(2) utf8_len_def is_continuation_def
      chunk_bytes_def Let_def)

theorem log_page_exact_witness:
  "execution_log_page ''r'' ''a'' 0 2 sample_log = Inr \<lparr>lp_content = ''h'', lp_start_offset = 0,
     lp_next_offset = 1, lp_total_bytes = 3, lp_complete = False\<rparr>
   \<and> execution_log_page ''r'' ''a'' 2 2 sample_log = Inl ''Invalid output offset''"
  unfolding log_page_exact [OF sample_log_ok]
  by (simp add: log_text_def rows_of_def sample_log_def Let_def floor_boundary_def is_char_boundary_def
      is_continuation_def numeral_2_eq_2)

theorem log_tail_page_joins_witness:
  "\<exists>page. execution_log_tail_page ''r'' ''a'' 3 1 sample_log = Inr page \<and> lp_start_offset page < 3"
proof -
  have "log_text ''r'' ''a'' sample_log = [CHR ''h'', CHR 0xC3, CHR 0xA9]"
    by (simp add: log_text_def rows_of_def sample_log_def)
  with log_tail_page_joins [OF sample_log_ok, of 3 1] show ?thesis by auto
qed

theorem log_roundtrip_witness:
  "\<exists>t' page. write_pieces ''r'' ''a'' [''!'', ''ok''] sample_log = Some (Inr t')
    \<and> execution_log_page ''r'' ''a'' 0 10 t' = Inr page
    \<and> lp_content page = [CHR ''h'', CHR 0xC3, CHR 0xA9, CHR ''!'', CHR ''o'', CHR ''k'']"
proof -
  have "log_text ''r'' ''a'' sample_log = [CHR ''h'', CHR 0xC3, CHR 0xA9]"
    by (simp add: log_text_def rows_of_def sample_log_def)
  moreover have "list_all utf8 [''!'', ''ok'']" by (simp add: utf8.simps(2) utf8_len_def Let_def)
  ultimately show ?thesis using log_roundtrip [OF sample_log_ok, of "[''!'', ''ok'']" 10] by auto
qed

end
