(* ===== verification/Reducer_Control.thy ===== *)
theory Reducer_Control
  imports Reducer_Steps
begin

text \<open>
  What steers a run is independent of what is only measured: streamed output, byte counts, process
  ids, token metrics and the planning turns kept for them never influence a node, a phase, a plan
  or an attempt.  \<open>control\<close> erases the measured fields; every event acts on the erased state as on the
  full one.  The checkpoints of the store rest on this.
\<close>

definition bare :: "execution \<Rightarrow> execution" where
  "bare e = e\<lparr>ex_output := [], ex_output_bytes := 0, ex_pid := None, ex_metrics := None\<rparr>"

definition control :: "snapshot \<Rightarrow> snapshot" where
  "control st = st\<lparr>st_planning_turns := [], st_executions := map bare (st_executions st),
     st_mergers := map bare (st_mergers st), st_source_files := None, st_run_metrics := None\<rparr>"

named_theorems control_simps \<open>erasing the measured fields commutes with an operation\<close>

section \<open>Fields and lookups\<close>

lemma bare_fields [simp]:
  "ex_id (bare e) = ex_id e" "ex_node (bare e) = ex_node e" "ex_revision (bare e) = ex_revision e"
  "ex_status (bare e) = ex_status e" "ex_before (bare e) = ex_before e" "ex_after (bare e) = ex_after e"
  "ex_input (bare e) = ex_input e" "ex_result (bare e) = ex_result e" "ex_attempt (bare e) = ex_attempt e"
  "ex_workspace_lineage (bare e) = ex_workspace_lineage e" "ex_started_at (bare e) = ex_started_at e"
  "bare (bare e) = bare e"
  by (simp_all add: bare_def)

lemma control_fields [simp]:
  "st_nodes (control st) = st_nodes st" "st_graph (control st) = st_graph st"
  "st_config (control st) = st_config st" "st_model_config (control st) = st_model_config st"
  "st_phase (control st) = st_phase st" "st_paused (control st) = st_paused st"
  "st_approved (control st) = st_approved st" "st_publication (control st) = st_publication st"
  "st_superseded_execution_ids (control st) = st_superseded_execution_ids st"
  "st_executions (control st) = map bare (st_executions st)" "st_mergers (control st) = map bare (st_mergers st)"
  "st_plan_type (control st) = st_plan_type st" "st_review_graph (control st) = st_review_graph st"
  "st_stop_requested (control st) = st_stop_requested st" "st_planning (control st) = st_planning st"
  "st_execution_stop_requests (control st) = st_execution_stop_requests st"
  "st_environment_policy (control st) = st_environment_policy st"
  "st_result_execution (control st) = st_result_execution st" "st_events (control st) = st_events st"
  "st_published_heads (control st) = st_published_heads st"
  "st_pending_feedback (control st) = st_pending_feedback st"
  "st_feedback_counts (control st) = st_feedback_counts st"
  by (simp_all add: control_def)

lemma control_idem [simp]: "control (control st) = control st"
  by (simp add: control_def o_def)

lemma find_bare: "(\<And>e. p (bare e) = p e) \<Longrightarrow> find p (map bare es) = map_option bare (find p es)"
  by (induction es) auto

lemma update_first_bare:
  "(\<And>e. p (bare e) = p e) \<Longrightarrow> (\<And>e. bare (f (bare e)) = bare (f e)) \<Longrightarrow>
   map bare (update_first p f (map bare es)) = map bare (update_first p f es)"
  by (induction es) auto

lemma filter_bare: "(\<And>e. p (bare e) = p e) \<Longrightarrow> map ex_id (filter p (map bare es)) = map ex_id (filter p es)"
  by (induction es) auto

lemma never_executed_control [simp]: "never_executed (control st) name = never_executed st name"
  by (simp add: never_executed_def)

lemma run_or_pause_control [simp]: "run_or_pause (control st) = run_or_pause st"
  by (simp add: run_or_pause_def)

lemma all_completed_control [simp]: "all_completed (control st) = all_completed st"
  by (simp add: all_completed_def)

section \<open>Steps that commute\<close>

lemma update_node_control [control_simps]: "update_node name f (control st) = control (update_node name f st)"
  by (simp add: update_node_def control_def)

lemma unwrap_node_control [control_simps]:
  "unwrap_node name f (control st) = map_option control (unwrap_node name f st)"
  by (simp add: unwrap_node_def control_simps)

lemma fold_control:
  "(\<And>x s. f x (control s) = control (f x s)) \<Longrightarrow> fold f xs (control st) = control (fold f xs st)"
  by (induction xs arbitrary: st) auto

lemma try_fold_control:
  "(\<And>x s. f x (control s) = map_option control (f x s)) \<Longrightarrow>
   try_fold f xs (control st) = map_option control (try_fold f xs st)"
  by (induction xs arbitrary: st) (auto split: option.split)

lemma nodes_loop_control [control_simps]:
  "fold (\<lambda>name. update_node name (f name)) xs (control st) = control (fold (\<lambda>name. update_node name (f name)) xs st)"
  "fold (\<lambda>name st. update_node name (g name (never_executed st name)) st) xs (control st)
   = control (fold (\<lambda>name st. update_node name (g name (never_executed st name)) st) xs st)"
  by (rule fold_control, simp add: control_simps)+

lemma field_updates_control [control_simps]:
  "(control st)\<lparr>st_phase := a\<rparr> = control (st\<lparr>st_phase := a\<rparr>)"
  "(control st)\<lparr>st_publication := b\<rparr> = control (st\<lparr>st_publication := b\<rparr>)"
  "(control st)\<lparr>st_stop_requested := c\<rparr> = control (st\<lparr>st_stop_requested := c\<rparr>)"
  "(control st)\<lparr>st_model_config := d\<rparr> = control (st\<lparr>st_model_config := d\<rparr>)"
  "(control st)\<lparr>st_superseded_execution_ids := e\<rparr> = control (st\<lparr>st_superseded_execution_ids := e\<rparr>)"
  "(control st)\<lparr>st_preview_graph := f\<rparr> = control (st\<lparr>st_preview_graph := f\<rparr>)"
  "(control st)\<lparr>st_graph := g\<rparr> = control (st\<lparr>st_graph := g\<rparr>)"
  by (simp_all add: control_def)

section \<open>The handlers that keep the attempts\<close>

lemma handle_planning_control [control_simps]:
  "handle_planning_started goal c planning plan_type (control st) = control (handle_planning_started goal c planning plan_type st)"
  "handle_planner_turn planning (control st) = control (handle_planner_turn planning st)"
  "handle_review_started planning (control st) = control (handle_review_started planning st)"
  "handle_review_progress g (control st) = control (handle_review_progress g st)"
  "handle_preview_progress g (control st) = control (handle_preview_progress g st)"
  "handle_turn_aborted planning (control st) = control (handle_turn_aborted planning st)"
  "handle_planning_failed planning (control st) = control (handle_planning_failed planning st)"
  "handle_planner_edited instruction first_turn (control st) = control (handle_planner_edited instruction first_turn st)"
  by (simp_all add: handle_planning_started_def handle_planner_turn_def handle_review_started_def
      handle_review_progress_def handle_preview_progress_def handle_turn_aborted_def
      handle_planning_failed_def handle_planner_edited_def control_def Let_def)

lemma handle_review_finished_control [control_simps]:
  "handle_review_finished planning required (control st) = control (handle_review_finished planning required st)"
  by (simp add: handle_review_finished_def all_completed_def Let_def) (simp add: control_def)

lemma handle_graph_control [control_simps]:
  "handle_created en g c planning_id planning (control st) = control (handle_created en g c planning_id planning st)"
  "handle_approved base (control st) = control (handle_approved base st)"
  "handle_draft_edited en g c (control st) = control (handle_draft_edited en g c st)"
  "handle_execution_stop ids (control st) = control (handle_execution_stop ids st)"
  "handle_paused paused (control st) = control (handle_paused paused st)"
  "handle_rejected (control st) = control (handle_rejected st)"
  "resume_attention (control st) = control (resume_attention st)"
  by (simp_all add: handle_created_def handle_approved_def handle_draft_edited_def handle_execution_stop_def
      handle_paused_def handle_rejected_def resume_attention_def run_or_pause_def control_def)

lemma handle_environment_control [control_simps]:
  "handle_policy_requested (control st) = control (handle_policy_requested st)"
  "handle_policy_resolved environment (control st) = control (handle_policy_resolved environment st)"
  "handle_result_started input args (control st) = control (handle_result_started input args st)"
  "handle_result_prepared input (control st) = control (handle_result_prepared input st)"
  "handle_result_failed generation error (control st) = control (handle_result_failed generation error st)"
  "handle_result_finished d (control st) = control (handle_result_finished d st)"
  unfolding handle_policy_requested_def handle_policy_resolved_def handle_result_started_def
    handle_result_prepared_def handle_result_failed_def handle_result_finished_def running_result_def
  by (simp_all add: control_def split: option.split)

lemma handle_publication_control [control_simps]:
  "handle_publication_started ts repository heads (control st) = control (handle_publication_started ts repository heads st)"
  "handle_publication_completed ts head (control st) = control (handle_publication_completed ts head st)"
  "handle_publication_failed error (control st) = control (handle_publication_failed error st)"
  "handle_feedback_queued f (control st) = control (handle_feedback_queued f st)"
  "handle_feedback_resolved eid (control st) = control (handle_feedback_resolved eid st)"
  "handle_feedback from to accepted (control st) = control (handle_feedback from to accepted st)"
  "handle_settled (control st) = control (handle_settled st)"
  unfolding handle_publication_started_def handle_publication_completed_def handle_publication_failed_def
    handle_feedback_queued_def handle_feedback_resolved_def handle_feedback_def handle_settled_def all_completed_def
  by (simp_all add: control_def)

lemma set_agent_model_control [control_simps]: "set_agent_model settings (control st) = control (set_agent_model settings st)"
  by (simp add: set_agent_model_def Let_def control_simps cong: option.case_cong)

lemma handle_models_control [control_simps]:
  "handle_failed_models names settings (control st) = control (handle_failed_models names settings st)"
  "handle_node_models names settings (control st) = control (handle_node_models names settings st)"
  "handle_conversation_models models names (control st) = control (handle_conversation_models models names st)"
  unfolding handle_failed_models_def handle_node_models_def handle_conversation_models_def Let_def set_agent_model_control
    field_updates_control
  by (rule fold_control, simp add: control_simps cong: if_cong)+

lemma executed_control:
  "(\<exists>e \<in> set (map bare es). ex_node e = name \<and> ex_status e = s \<and> ex_id e \<notin> S)
   = (\<exists>e \<in> set es. ex_node e = name \<and> ex_status e = s \<and> ex_id e \<notin> S)"
  by auto

lemma handle_recovery_control [control_simps]:
  "handle_recovery_queued names cont resume direct (control st) = control (handle_recovery_queued names cont resume direct st)"
  unfolding handle_recovery_queued_def
  by (rule fold_control) (simp only: control_fields executed_control control_simps)

lemma revise_node_control [control_simps]: "revise_node name (control st) = map_option control (revise_node name st)"
  by (simp add: revise_node_def supersede_def filter_bare control_simps)

lemma handle_graph_revised_control [control_simps]:
  "handle_graph_revised en g names (control st) = map_option control (handle_graph_revised en g names st)"
proof -
  have set_nodes: "(control st)\<lparr>st_graph := g, st_preview_graph := None, st_plan := p, st_nodes := ns\<rparr>
      = control (st\<lparr>st_graph := g, st_preview_graph := None, st_plan := p, st_nodes := ns\<rparr>)" for p ns
    by (simp add: control_def)
  have finish: "(let st = (control s)\<lparr>st_feedback_counts := cs (control s)\<rparr>
           in if \<not> st_approved st then st\<lparr>st_phase := ''awaiting_approval''\<rparr>
              else if changed then st\<lparr>st_publication := None, st_phase := run_or_pause st\<rparr> else st)
      = control (let st = s\<lparr>st_feedback_counts := cs s\<rparr>
           in if \<not> st_approved st then st\<lparr>st_phase := ''awaiting_approval''\<rparr>
              else if changed then st\<lparr>st_publication := None, st_phase := run_or_pause st\<rparr> else st)"
    if "\<And>s. cs (control s) = cs s" for s changed cs
    by (simp add: that run_or_pause_def Let_def) (simp add: control_def)
  show ?thesis
    unfolding handle_graph_revised_def Let_def set_nodes control_fields
      try_fold_control [of revise_node, OF revise_node_control] option.map_comp o_def
    using finish [of "\<lambda>s. bt_retain (\<lambda>key. \<exists>e \<in> set (gr_edges g).
                  eg_feedback e \<and> key = feedback_key (eg_from e) (eg_to e)) (st_feedback_counts s)"]
    by (simp add: Let_def)
qed

lemma handle_planner_revised_control [control_simps]:
  "handle_planner_revised en g planning_id planning names (control st)
   = map_option control (handle_planner_revised en g planning_id planning names st)"
proof -
  have "(control st)\<lparr>st_stop_requested := False, st_planning_id := Some planning_id, st_planning := Some planning\<rparr>
      = control (st\<lparr>st_stop_requested := False, st_planning_id := Some planning_id, st_planning := Some planning\<rparr>)"
    by (simp add: control_def)
  then show ?thesis by (simp only: handle_planner_revised_def control_simps)
qed

lemma handle_blocked_control [control_simps]:
  "handle_blocked name error (control st) = map_option control (handle_blocked name error st)"
  by (simp add: handle_blocked_def control_simps)

lemma queue_turn_control [control_simps]:
  "queue_turn sequence target instruction human images shared direct (control st)
   = map_option control (queue_turn sequence target instruction human images shared direct st)"
  by (simp add: queue_turn_def control_simps)

lemma turn_stays_queued_control [simp]:
  "turn_stays_queued target instruction human (control st) = turn_stays_queued target instruction human st"
  by (simp add: turn_stays_queued_def)

lemma invalidate_scope_control [control_simps]:
  "invalidate_scope names target instruction human images workspace shared (control st)
   = map_option control (invalidate_scope names target instruction human images workspace shared st)"
proof -
  have loop: "try_fold (\<lambda>name st. unwrap_node name (invalidated_node (name = target) human (never_executed st name)) st)
      names (control s) = map_option control (try_fold (\<lambda>name st. unwrap_node name
        (invalidated_node (name = target) human (never_executed st name)) st) names s)" for s
    by (rule try_fold_control) (simp add: control_simps)
  show ?thesis
    by (simp add: invalidate_scope_def loop control_simps option.map_comp o_def split: option.split)
qed

lemma handle_invalidated_control [control_simps]:
  "handle_invalidated sequence names target instruction human images workspace shared direct (control st)
   = map_option control (handle_invalidated sequence names target instruction human images workspace shared direct st)"
  unfolding handle_invalidated_def field_updates_control queue_turn_control
  by (simp add: control_simps option.map_comp o_def split: option.split)

section \<open>The handlers of attempts\<close>

text \<open>These store new attempts or update one, so the erasure is applied again after them.\<close>

lemma find_attempt_control: "(\<And>e. p (bare e) = p e) \<Longrightarrow> find_attempt p (control st) = map_option bare (find_attempt p st)"
  by (simp add: find_attempt_def find_bare flip: map_append)

lemma update_attempt_control:
  assumes "\<And>e. p (bare e) = p e" and "\<And>e. bare (f (bare e)) = bare (f e)"
  shows "control (update_attempt p f (control st)) = control (update_attempt p f st)"
proof -
  have "(\<exists>e \<in> set (map bare es). p e) = (\<exists>e \<in> set es. p e)" for es using assms(1) by auto
  with update_first_bare [of p f, OF assms] show ?thesis
    by (simp add: update_attempt_def) (simp add: control_def o_def)
qed

lemma update_executions_control:
  assumes "\<And>e. p (bare e) = p e" and "\<And>e. bare (f (bare e)) = bare (f e)"
  shows "control ((control st)\<lparr>st_executions := update_first p f (map bare (st_executions st))\<rparr>)
       = control (st\<lparr>st_executions := update_first p f (st_executions st)\<rparr>)"
  using update_first_bare [of p f, OF assms] by (simp add: control_def o_def)

lemma update_mergers_control:
  assumes "\<And>e. p (bare e) = p e" and "\<And>e. bare (f (bare e)) = bare (f e)"
  shows "control ((control st)\<lparr>st_mergers := update_first p f (map bare (st_mergers st))\<rparr>)
       = control (st\<lparr>st_mergers := update_first p f (st_mergers st)\<rparr>)"
  using update_first_bare [of p f, OF assms] by (simp add: control_def o_def)

lemma handle_recorded_control:
  "control (handle_input_recorded eid input (control st)) = control (handle_input_recorded eid input st)"
  "control (handle_result_recorded eid result (control st)) = control (handle_result_recorded eid result st)"
  "control (handle_prepared eid head (control st)) = control (handle_prepared eid head st)"
  unfolding handle_input_recorded_def handle_result_recorded_def handle_prepared_def control_fields
  by (rule update_executions_control; simp add: bare_def)+

lemma control_congs:
  "control s = control t \<Longrightarrow> control (update_node name f s) = control (update_node name f t)"
  "control s = control t \<Longrightarrow> control (s\<lparr>st_phase := a\<rparr>) = control (t\<lparr>st_phase := a\<rparr>)"
  "control s = control t \<Longrightarrow> control (s\<lparr>st_publication := b\<rparr>) = control (t\<lparr>st_publication := b\<rparr>)"
  by (metis control_simps)+

text \<open>An operation that commutes with the erasure respects equality up to it.\<close>

lemma commutes_cong:
  "(\<And>s. f (control s) = control (f s)) \<Longrightarrow> control s = control t \<Longrightarrow> control (f s) = control (f t)"
  by metis

lemma commutes_cong_option:
  "(\<And>s. f (control s) = map_option control (f s)) \<Longrightarrow> control s = control t \<Longrightarrow>
   map_option control (f s) = map_option control (f t)"
  by metis

lemma append_live_output_bare: "bare (append_live_output parse text e) = bare e"
proof -
  have "bare (accumulate_live_metrics parse text e) = bare e" for e
    by (simp add: accumulate_live_metrics_def bare_def Let_def split: option.split)
  then show ?thesis
    by (simp add: append_live_output_def Let_def bare_def split: option.split)
qed

lemma handle_output_control: "control (handle_output en eid chunk st) = control st"
proof -
  have same: "map bare (update_first p (append_live_output parse chunk) es) = map bare es" for p parse es
    by (induction es) (auto simp: append_live_output_bare)
  show ?thesis by (simp add: handle_output_def update_attempt_def) (simp add: control_def same)
qed

lemma handle_workspace_snapshotted_control:
  "control (handle_workspace_snapshotted eid head result invalidated detached (control st))
   = control (handle_workspace_snapshotted eid head result invalidated detached st)"
proof -
  let ?loop = "\<lambda>u. fold (\<lambda>name st. update_node name (snapshot_invalidated (never_executed st name)) st) invalidated u"
  let ?own = "\<lambda>h xs u. fold (\<lambda>name. update_node name (snapshotted_node h head result)) xs u"
  let ?set = "\<lambda>e. e\<lparr>ex_after := Some head, ex_result := (case result of Some r \<Rightarrow> Some r
      | None \<Rightarrow> map_option (set_code_ref head) (ex_result e))\<rparr>"
  have exec: "control ((control st)\<lparr>st_executions := update_first (\<lambda>e. ex_id e = eid) ?set (map bare (st_executions st))\<rparr>)
      = control (st\<lparr>st_executions := update_first (\<lambda>e. ex_id e = eid) ?set (st_executions st)\<rparr>)"
    by (rule update_executions_control) (simp_all add: bare_def split: option.split)
  have own: "control u = control v \<Longrightarrow> control (?own h xs u) = control (?own h xs v)" for u v h xs
    by (rule commutes_cong) (rule nodes_loop_control)
  have loop: "control u = control v \<Longrightarrow> control (?loop u) = control (?loop v)" for u v
    by (rule commutes_cong) (rule nodes_loop_control)
  have tail: "control ((?loop (control st))\<lparr>st_publication := None\<rparr>) = control ((?loop st)\<lparr>st_publication := None\<rparr>)"
    by (rule control_congs(3)) (rule loop, simp)
  show ?thesis
  proof (cases "find (\<lambda>e. ex_id e = eid) (st_executions st)")
    case None
    then show ?thesis
      using tail by (cases detached) (simp_all only: handle_workspace_snapshotted_def control_fields find_bare
          bare_fields None Let_def option.map option.case if_True if_False control_idem)
  next
    case (Some e)
    then show ?thesis
      using exec control_congs(3) [OF loop [OF own [OF exec]], of None "ex_after e" "ex_workspace_lineage e @ [ex_node e]"]
      by (cases detached) (simp_all only: handle_workspace_snapshotted_def control_fields find_bare
          bare_fields Let_def option.map option.case if_True if_False)
  qed
qed

lemma map_option_cong_control:
  assumes "map_option control a = map_option control b"
    and f: "\<And>s t. control s = control t \<Longrightarrow> control (f s) = control (f t)"
  shows "map_option control (map_option f a) = map_option control (map_option f b)"
proof (cases a)
  case (Some s)
  with assms(1) obtain t where "b = Some t" "control s = control t" by (cases b) simp_all
  with f [OF this(2)] Some show ?thesis by simp
qed (use assms(1) in \<open>cases b; simp\<close>)

lemma phase_cong:
  "control s = control t \<Longrightarrow> control (s\<lparr>st_phase := run_or_pause s\<rparr>) = control (t\<lparr>st_phase := run_or_pause t\<rparr>)"
  by (metis control_congs(2) run_or_pause_control)

lemma handle_workspace_resolved_control:
  "map_option control (handle_workspace_resolved ts eid head names (control st))
   = map_option control (handle_workspace_resolved ts eid head names st)"
proof (cases "find (\<lambda>e. ex_id e = eid) (st_executions st)")
  case (Some e)
  let ?set = "\<lambda>e. e\<lparr>ex_status := ''resolved'', ex_completed_at := Some ts\<rparr>"
  have exec: "control ((control st)\<lparr>st_executions := update_first (\<lambda>e. ex_id e = eid) ?set (map bare (st_executions st))\<rparr>)
      = control (st\<lparr>st_executions := update_first (\<lambda>e. ex_id e = eid) ?set (st_executions st)\<rparr>)"
    by (rule update_executions_control) (simp_all add: bare_def)
  have loop: "map_option control (try_fold (\<lambda>name st. unwrap_node name (resolved_node (name = target)
        (never_executed st name) head) st) names u) = map_option control (try_fold (\<lambda>name st. unwrap_node name
        (resolved_node (name = target) (never_executed st name) head) st) names v)"
    if "control u = control v" for u v target
    using that by (rule commutes_cong_option [rotated]) (rule try_fold_control, simp add: control_simps)
  show ?thesis
    using map_option_cong_control [OF loop [OF control_congs(3) [OF exec, of None], of "ex_node e"] phase_cong]
    by (simp only: handle_workspace_resolved_def control_fields find_bare bare_fields Some Let_def
        option.map option.case)
qed (simp add: handle_workspace_resolved_def find_bare)

lemma started_supersede_bare:
  "map ex_id (filter (\<lambda>prior. ex_node prior = a \<and> ex_id prior \<noteq> b \<and> ex_id prior \<notin> S) (map bare es))
   = map ex_id (filter (\<lambda>prior. ex_node prior = a \<and> ex_id prior \<noteq> b \<and> ex_id prior \<notin> S) es)"
  by (rule filter_bare) simp

definition prepare_start :: "execution \<Rightarrow> int list option \<Rightarrow> bool \<Rightarrow> node_state \<Rightarrow> snapshot \<Rightarrow> snapshot" where
  "prepare_start e sequences fresh n st =
     (let st = update_node (ex_node e) (started_node sequences) st;
          st = (if started_source_direct sequences n then st\<lparr>st_phase := ''followup''\<rparr> else st);
          st = st\<lparr>st_preview_graph := None\<rparr>
      in if fresh then st\<lparr>st_superseded_execution_ids := st_superseded_execution_ids st
           @ map ex_id (filter (\<lambda>prior. ex_node prior = ex_node e \<and> ex_id prior \<noteq> ex_id e
               \<and> ex_id prior \<notin> set (st_superseded_execution_ids st)) (st_executions st))\<rparr> else st)"

lemma prepare_start_control: "prepare_start e sequences fresh n (control st) = control (prepare_start e sequences fresh n st)"
  by (cases fresh; cases "started_source_direct sequences n")
    (simp_all only: prepare_start_def Let_def if_True if_False control_simps control_fields started_supersede_bare)

lemma begin_execution_prepare:
  "begin_execution e sequences fresh n st
   = resume_attention ((prepare_start e sequences fresh n st)\<lparr>st_executions := st_executions (prepare_start e sequences fresh n st) @ [e]\<rparr>)"
  by (simp only: begin_execution_def prepare_start_def resume_attention_def Let_def)

lemma begin_execution_control:
  "control (begin_execution e sequences fresh n (control st)) = control (begin_execution e sequences fresh n st)"
proof -
  have append: "control ((control s)\<lparr>st_executions := st_executions (control s) @ [e]\<rparr>)
      = control (s\<lparr>st_executions := st_executions s @ [e]\<rparr>)" for s
    by (simp add: control_def o_def)
  show ?thesis
    unfolding begin_execution_prepare prepare_start_control
    by (rule commutes_cong [where f = resume_attention, OF handle_graph_control(7) append])
qed

lemma handle_started_control:
  "map_option control (handle_started e sequences fresh (control st)) = map_option control (handle_started e sequences fresh st)"
proof (cases "bt_get (st_nodes st) (ex_node e)")
  case (Some n)
  have same: "(\<lambda>name. if name = ex_node e then (\<lambda>st. st) else update_node name unblock_node)
      = (\<lambda>name. update_node name (if name = ex_node e then (\<lambda>n. n) else unblock_node))"
    by (rule ext, rule ext) simp
  have graph: "st_graph (begin_execution e sequences fresh n u) = st_graph u" for u
    by (simp add: begin_execution_frame)
  have loop: "control (fold (\<lambda>name. update_node name (f name)) xs u) = control (fold (\<lambda>name. update_node name (f name)) xs v)"
    if "control u = control v" for u v f xs
    using that by (rule commutes_cong [rotated]) (rule nodes_loop_control)
  show ?thesis
    using loop [OF begin_execution_control, of "\<lambda>name. if name = ex_node e then (\<lambda>n. n) else unblock_node"]
    by (simp only: handle_started_def control_fields Some option.case option.map Let_def same graph)
qed (simp add: handle_started_def)

lemma settle_node_control [control_simps]:
  "settle_node name lineage head result (control st) = control (settle_node name lineage head result st)"
proof -
  have loops: "fold (\<lambda>inherited. update_node inherited g) xs (control u) = control (fold (\<lambda>inherited. update_node inherited g) xs u)"
    "fold (\<lambda>d st. update_node d (outdated_node (never_executed st d)) st) xs (control u)
     = control (fold (\<lambda>d st. update_node d (outdated_node (never_executed st d)) st) xs u)" for g xs u
    by (rule fold_control, simp add: control_simps)+
  show ?thesis
    by (cases "case Option.bind (bt_get (st_nodes st) name) ns_baseline_head of
            Some baseline \<Rightarrow> baseline \<noteq> head | None \<Rightarrow> False")
      (simp_all only: settle_node_def control_fields Let_def loops control_simps simp_thms if_True if_False)
qed

lemma requeue_message_control [control_simps]:
  "requeue_message name head (control st) = map_option control (requeue_message name head st)"
  by (simp add: requeue_message_def Let_def control_simps split: option.split list.split)

lemma finish_node_control [control_simps]:
  "finish_node name lineage head result (control st) = map_option control (finish_node name lineage head result st)"
  by (simp add: finish_node_def control_simps)

lemma bare_finished:
  "bare (finished_execution en head output bytes metrics ts (bare e)) = bare (finished_execution en head output bytes metrics ts e)"
  "bare (failed_execution en bytes metrics ts (bare e)) = bare (failed_execution en bytes metrics ts e)"
  "bare (finished_merger en head bytes metrics ts (bare e)) = bare (finished_merger en head bytes metrics ts e)"
  by (simp_all add: finished_execution_def failed_execution_def finished_merger_def bare_def)

lemma superseded_update_attempt [simp]:
  "st_superseded_execution_ids (update_attempt p f st) = st_superseded_execution_ids st"
  by (simp add: update_attempt_def)

lemma handle_finished_control:
  "map_option control (handle_finished en ts eid head output bytes metrics (control st))
   = map_option control (handle_finished en ts eid head output bytes metrics st)"
proof (cases "find_attempt (\<lambda>e. ex_id e = eid) st")
  case None
  then show ?thesis by (simp add: handle_finished_def find_attempt_control)
next
  case (Some e)
  let ?f = "finished_execution en head output bytes metrics ts"
  have upd: "control (update_attempt (\<lambda>e. ex_id e = eid) ?f (control st)) = control (update_attempt (\<lambda>e. ex_id e = eid) ?f st)"
    by (rule update_attempt_control) (simp_all add: bare_finished)
  have "map_option control (finish_node a b c d u) = map_option control (finish_node a b c d v)" if "control u = control v" for a b c d u v
    using that by (rule commutes_cong_option [rotated]) (rule finish_node_control)
  from upd this [OF upd] show ?thesis
    by (simp only: handle_finished_def find_attempt_control bare_fields Some option.map option.case Let_def control_fields
        split: if_split) simp
qed

lemma handle_failed_control:
  "map_option control (handle_failed en ts name eid error bytes metrics (control st))
   = map_option control (handle_failed en ts name eid error bytes metrics st)"
proof -
  let ?u = "update_attempt (\<lambda>e. Some (ex_id e) = eid) (failed_execution en bytes metrics ts)"
  have upd: "control (?u (control s)) = control (?u s)" for s
    by (rule update_attempt_control) (simp_all add: bare_finished)
  have cong: "control (?u s) = control (?u t)" if "control s = control t" for s t
    using upd [of s] upd [of t] that by simp
  have start: "map_option control (if b then Some (control st) else unwrap_node name (failed_node error) (control st))
      = map_option control (if b then Some st else unwrap_node name (failed_node error) st)" for b
    by (simp add: control_simps option.map_comp o_def)
  show ?thesis
    unfolding handle_failed_def Let_def control_fields
    by (rule map_option_cong_control [OF start cong])
qed

lemma edit_first_turn_control [control_simps]:
  "edit_first_turn target instruction (control st) = control (edit_first_turn target instruction st)"
  by (simp add: edit_first_turn_def Let_def control_simps)

lemma edited_supersede_bare:
  "supersede (filter (\<lambda>e. ex_node e \<in> S \<and> k \<le> ex_started_at e) (map bare es)) ids
   = supersede (filter (\<lambda>e. ex_node e \<in> S \<and> k \<le> ex_started_at e) es) ids"
  by (simp add: supersede_def filter_bare)

lemma handle_conversation_edited_control [control_simps]:
  "handle_conversation_edited names target instruction images from first_turn (control st)
   = map_option control (handle_conversation_edited names target instruction images from first_turn st)"
proof -
  have both: "(control s)\<lparr>st_superseded_execution_ids := i, st_publication := None\<rparr>
      = control (s\<lparr>st_superseded_execution_ids := i, st_publication := None\<rparr>)" for s i
    by (simp add: control_def)
  have loop: "try_fold (\<lambda>name. unwrap_node name (f name)) names (control u)
      = map_option control (try_fold (\<lambda>name. unwrap_node name (f name)) names u)" for f u
    by (rule try_fold_control) (rule unwrap_node_control)
  show ?thesis
  proof (cases "find (\<lambda>e. ex_id e = from) (st_executions (st\<lparr>st_stop_requested := False\<rparr>))")
    case None
    then show ?thesis
      by (simp only: handle_conversation_edited_def Let_def control_simps control_fields find_bare bare_fields
          option.map option.case)
  next
    case (Some e)
    then show ?thesis
      by (cases first_turn) (simp_all only: handle_conversation_edited_def Let_def control_simps control_fields
          find_bare bare_fields option.map option.case edited_supersede_bare both loop if_True if_False
          option.map_comp o_def run_or_pause_control)
  qed
qed

lemma handle_merger_started_control:
  "control (handle_merger_started e (control st)) = control (handle_merger_started e st)"
proof -
  let ?mark = "\<lambda>s. s\<lparr>st_phase := ''merging'',
      st_publication := map_option (\<lambda>p. p\<lparr>pb_status := ''merging''\<rparr>) (st_publication s)\<rparr>"
  have append: "control ((control st)\<lparr>st_mergers := st_mergers (control st) @ [e]\<rparr>) = control (st\<lparr>st_mergers := st_mergers st @ [e]\<rparr>)"
    by (simp add: control_def o_def)
  have mark: "control (?mark u) = control (?mark v)" if "control u = control v" for u v
    using that by (rule commutes_cong [where f = ?mark, rotated]) (simp add: control_def)
  have resume: "control (resume_attention u) = control (resume_attention v)" if "control u = control v" for u v
    using that by (rule commutes_cong [where f = resume_attention, rotated]) (rule handle_graph_control)
  have "publication_is ''publishing'' ((control st)\<lparr>st_mergers := st_mergers (control st) @ [e]\<rparr>)
      = publication_is ''publishing'' (st\<lparr>st_mergers := st_mergers st @ [e]\<rparr>)"
    by (simp add: publication_is_def)
  with mark [OF append] resume [OF append] show ?thesis
    by (cases "ex_node e = ''merger'' \<and> publication_is ''publishing'' (st\<lparr>st_mergers := st_mergers st @ [e]\<rparr>)")
      (simp_all only: handle_merger_started_def Let_def simp_thms if_True if_False)
qed

lemma repaired_node_control [simp]: "repaired_node eid (control st) = repaired_node eid st"
  by (simp add: repaired_node_def find_bare split: option.split)

lemma recover_repaired_control [control_simps]:
  "recover_repaired name revision (control st) = control (recover_repaired name revision st)"
  by (auto simp: recover_repaired_def Let_def control_simps split: option.split)

lemma handle_merger_failed_control:
  "control (handle_merger_failed en ts eid error bytes metrics (control st)) = control (handle_merger_failed en ts eid error bytes metrics st)"
proof -
  let ?f = "failed_execution en bytes metrics ts"
  have upd: "control ((control st)\<lparr>st_mergers := update_first (\<lambda>e. ex_id e = eid) ?f (map bare (st_mergers st))\<rparr>)
      = control (st\<lparr>st_mergers := update_first (\<lambda>e. ex_id e = eid) ?f (st_mergers st)\<rparr>)"
    by (rule update_mergers_control) (simp_all add: bare_finished)
  have target: "Option.bind (map_option bare x) (\<lambda>e. strip_prefix ''merge:'' (ex_node e))
      = Option.bind x (\<lambda>e. strip_prefix ''merge:'' (ex_node e))" for x
    by (cases x) simp_all
  show ?thesis
    using upd control_congs(1) [OF upd]
    by (simp only: handle_merger_failed_def Let_def control_fields find_bare bare_fields target split: option.split) simp
qed

lemma handle_merger_finished_control:
  "control (handle_merger_finished en ts eid head bytes metrics (control st)) = control (handle_merger_finished en ts eid head bytes metrics st)"
proof -
  let ?f = "finished_merger en head bytes metrics ts"
  let ?mark = "\<lambda>s. s\<lparr>st_phase := ''publishing'',
      st_publication := map_option (\<lambda>p. p\<lparr>pb_status := ''publishing''\<rparr>) (st_publication s)\<rparr>"
  let ?tail = "\<lambda>repaired s. case repaired of None \<Rightarrow> s | Some (name, revision) \<Rightarrow> recover_repaired name revision s"
  let ?pub = "\<lambda>s. (\<exists>e \<in> set (st_mergers s). ex_id e = eid \<and> ex_node e = ''merger'') \<and> publication_is ''merging'' s"
  have upd: "control ((control st)\<lparr>st_mergers := update_first (\<lambda>e. ex_id e = eid) ?f (map bare (st_mergers st))\<rparr>)
      = control (st\<lparr>st_mergers := update_first (\<lambda>e. ex_id e = eid) ?f (st_mergers st)\<rparr>)"
    by (rule update_mergers_control) (simp_all add: bare_finished)
  have mark: "control (if ?pub u then ?mark u else u) = control (if ?pub v then ?mark v else v)" if "control u = control v" for u v
  proof (rule commutes_cong [where f = "\<lambda>u. if ?pub u then ?mark u else u", OF _ that])
    fix s show "(if ?pub (control s) then ?mark (control s) else control s) = control (if ?pub s then ?mark s else s)"
    proof -
      have "?pub (control s) = ?pub s" by (auto simp: publication_is_def)
      moreover have "?mark (control s) = control (?mark s)" by (simp add: control_def)
      ultimately show ?thesis by (cases "?pub s") (simp_all only: simp_thms if_True if_False)
    qed
  qed
  have tail: "control (?tail r u) = control (?tail r v)" if "control u = control v" for u v r
    using that by (rule commutes_cong [where f = "?tail r", rotated]) (simp add: control_simps split: option.split prod.split)
  show ?thesis
    using tail [OF mark [OF upd], of "repaired_node eid st"]
    by (simp only: handle_merger_finished_def Let_def control_fields repaired_node_control)
qed

section \<open>Every event\<close>

text \<open>Output aside (it is not a control step), each event acts the same on the erased state.\<close>

lemma handle_control:
  "map_option control (handle en sq ts kind (control st)) = map_option control (handle en sq ts kind st)"
proof -
  have fields: "(control st)\<lparr>st_plan_type := a\<rparr> = control (st\<lparr>st_plan_type := a\<rparr>)"
    "(control st)\<lparr>st_environment_baseline := b\<rparr> = control (st\<lparr>st_environment_baseline := b\<rparr>)"
    "(control st)\<lparr>st_published_result := c\<rparr> = control (st\<lparr>st_published_result := c\<rparr>)" for a b c
    by (simp_all add: control_def)
  show ?thesis
    by (cases kind) (simp_all only: handle_def event_kind.case option.map control_simps fields option.map_comp
        o_def control_idem handle_workspace_snapshotted_control handle_started_control handle_recorded_control
        handle_finished_control handle_failed_control handle_workspace_resolved_control
        handle_merger_started_control handle_merger_failed_control handle_merger_finished_control)
qed

lemma control_derived [simp]:
  "control (refresh_metrics en st) = control st" "control (record_planning_turn planning st) = control st"
  "control (note_planning ev st) = control st"
  by (simp_all add: refresh_metrics_def record_planning_turn_def note_planning_def split: option.split)
    (simp_all add: control_def)

lemma control_log: "control (log_event en ev st) = (control st)\<lparr>st_events := st_events st @ [ev]\<rparr>"
  by (simp add: log_event_def) (simp add: control_def)

lemma map_control_log:
  "map_option control (map_option (log_event en ev) a) = map_option (\<lambda>u. u\<lparr>st_events := st_events u @ [ev]\<rparr>) (map_option control a)"
  by (simp add: option.map_comp o_def control_log)

lemma apply_output: "is_output (ev_kind ev) \<Longrightarrow> \<exists>u. apply_event en ev st = Some u \<and> control u = control st"
  by (cases "ev_kind ev") (simp_all add: apply_event_def handle_output_control)

lemma apply_logged:
  "\<not> is_output (ev_kind ev) \<Longrightarrow> apply_event en ev st
     = map_option (log_event en ev) (handle en (ev_sequence ev) (ev_timestamp ev) (ev_kind ev) (note_planning ev st))"
  by (cases "ev_kind ev") (simp_all add: apply_event_def)

lemma handle_cong:
  "control s = control t \<Longrightarrow> map_option control (handle en sq ts kind s) = map_option control (handle en sq ts kind t)"
  by (metis handle_control)

lemma apply_control_cong:
  assumes "control s = control t"
  shows "map_option control (apply_event en ev s) = map_option control (apply_event en ev t)"
proof (cases "is_output (ev_kind ev)")
  case True
  with apply_output [of ev en s] apply_output [of ev en t] assms show ?thesis by auto
next
  case False
  have "control (note_planning ev s) = control (note_planning ev t)" by (simp add: assms)
  from handle_cong [OF this] show ?thesis by (simp only: apply_logged [OF False] map_control_log)
qed

lemma apply_all_control_cong:
  "control s = control t \<Longrightarrow> map_option control (apply_all en evs s) = map_option control (apply_all en evs t)"
proof (induction evs arbitrary: s t)
  case (Cons ev evs)
  note step = apply_control_cong [OF Cons.prems, of en ev]
  show ?case
  proof (cases "apply_event en ev s")
    case None
    with step have "apply_event en ev t = None" by (cases "apply_event en ev t") simp_all
    with None show ?thesis by (simp add: apply_all_def)
  next
    case (Some u)
    with step obtain w where "apply_event en ev t = Some w" "control u = control w"
      by (cases "apply_event en ev t") simp_all
    with Some Cons.IH [OF this(2)] show ?thesis by (simp only: apply_all_def try_fold.simps option.case)
  qed
qed (simp add: apply_all_def)

lemma apply_all_outputs:
  "map_option control (apply_all en (filter (\<lambda>ev. \<not> is_output (ev_kind ev)) evs) st) = map_option control (apply_all en evs st)"
proof (induction evs arbitrary: st)
  case (Cons ev evs)
  show ?case
  proof (cases "is_output (ev_kind ev)")
    case True
    then obtain u where u: "apply_event en ev st = Some u" "control u = control st" using apply_output by blast
    with True Cons.IH [of st] apply_all_control_cong [OF u(2), of en evs] show ?thesis
      by (simp only: apply_all_def filter.simps simp_thms if_False try_fold.simps option.case)
  next
    case False
    with Cons.IH show ?thesis by (cases "apply_event en ev st") (simp_all add: apply_all_def)
  qed
qed (simp add: apply_all_def)

text \<open>C19: what is measured never steers: streamed output can be left out of the event sequence and the
  recorded output, byte counts, process ids, token metrics and planning turns erased from the state the
  events start from, and the run still panics at the same event or ends with the same nodes, attempts,
  phase, plan, publication and log.\<close>

theorem telemetry_inert:
  "map_option control (apply_all en (filter (\<lambda>ev. \<not> is_output (ev_kind ev)) evs) (control st))
   = map_option control (apply_all en evs st)"
  by (simp only: apply_all_outputs apply_all_control_cong [of "control st" st, OF control_idem])

end
