(* ===== verification/Store_Correct.thy ===== *)
theory Store_Correct
  imports Store Store_Log_Correct Reducer_Control Reducer_Growth
begin

text \<open>
  Loading is replaying.  Whatever calls wrote the events of however many runs, and whichever
  projection checkpoints were taken on the way, loading a run gives its live state back, up to what is
  only measured.
\<close>

section \<open>What the tables hold of a run\<close>

definition log_of :: "string \<Rightarrow> store \<Rightarrow> event list" where
  "log_of run db = map event_of (filter (\<lambda>r. er_run r = run) (so_events db))"

definition db_ok :: "store \<Rightarrow> bool" where
  "db_ok db \<longleftrightarrow> sorted_wrt (\<lambda>a b. er_sequence a < er_sequence b) (so_events db) \<and> 0 \<le> so_last_sequence db
     \<and> (\<forall>r \<in> set (so_events db). 0 < er_sequence r \<and> er_sequence r \<le> so_last_sequence db
          \<and> \<not> is_output (er_payload r) \<and> er_kind r = Some (event_kind_name (er_payload r)))"

text \<open>The checkpoint of a run is the projection of a prefix of its log.\<close>

definition checkpoint_ok :: "env \<Rightarrow> string \<Rightarrow> store \<Rightarrow> bool" where
  "checkpoint_ok en run db \<longleftrightarrow> (\<forall>c. bt_get (so_checkpoints db) run = Some c \<longrightarrow>
     ck_queue_version c = 1 \<and> st_run_id (ck_state c) = run \<and> st_events (ck_state c) = []
     \<and> (\<exists>pre suf u. log_of run db = pre @ suf \<and> pre \<noteq> [] \<and> ev_sequence (last pre) = ck_sequence c
          \<and> apply_all en pre (new_run run) = Some u \<and> control (ck_state c) = (control u)\<lparr>st_events := []\<rparr>))"

definition projects :: "env \<Rightarrow> string \<Rightarrow> snapshot \<Rightarrow> store \<Rightarrow> bool" where
  "projects en run st db \<longleftrightarrow> st_run_id st = run \<and> checkpoint_ok en run db
     \<and> (\<exists>t. apply_all en (log_of run db) (new_run run) = Some t \<and> control t = control st)"

text \<open>An operation on one run keeps what the tables hold of the others.\<close>

definition others_kept :: "string \<Rightarrow> store \<Rightarrow> store \<Rightarrow> bool" where
  "others_kept run db db' \<longleftrightarrow> (\<forall>r. r \<noteq> run \<longrightarrow> log_of r db' = log_of r db
     \<and> bt_get (so_checkpoints db') r = bt_get (so_checkpoints db) r)"

lemma others_kept_refl: "others_kept run db db"
  and others_kept_trans: "others_kept run db db' \<Longrightarrow> others_kept run db' db'' \<Longrightarrow> others_kept run db db''"
  by (simp_all add: others_kept_def)

lemma projects_kept:
  "others_kept run db db' \<Longrightarrow> r \<noteq> run \<Longrightarrow> projects en r st db \<Longrightarrow> projects en r st db'"
  by (simp add: projects_def checkpoint_ok_def others_kept_def)

text \<open>What an operation on the live state of a run promises.\<close>

definition keeps :: "env \<Rightarrow> string \<Rightarrow> snapshot \<times> store \<Rightarrow> snapshot \<times> store \<Rightarrow> bool" where
  "keeps en run s s' \<longleftrightarrow>
     (db_ok (snd s) \<longrightarrow> projects en run (fst s) (snd s) \<longrightarrow>
        db_ok (snd s') \<and> projects en run (fst s') (snd s')) \<and> others_kept run (snd s) (snd s')"

lemma keeps_refl: "keeps en run s s"
  and keeps_trans: "keeps en run s s' \<Longrightarrow> keeps en run s' s'' \<Longrightarrow> keeps en run s s''"
  by (auto simp: keeps_def others_kept_refl intro: others_kept_trans)

section \<open>The reducer\<close>

lemma apply_run_id:
  assumes "apply_event en ev st = Some st'"
  shows "st_run_id st' = st_run_id st"
proof -
  have noted: "st_run_id (note_planning ev st) = st_run_id st"
    by (simp add: note_planning_def record_planning_turn_def split: option.split)
  from assms show ?thesis
  proof (cases rule: apply_eventE)
    case (streamed eid chunk)
    then show ?thesis by (simp add: refresh_metrics_def handle_output_def noted)
  next
    case (logged u)
    from handle_quiet [OF logged(2) note_recorded [unfolded planning_summary_of_def]]
    show ?thesis by (simp add: quiet_def noted logged(3) log_event_def refresh_metrics_def)
  qed
qed

lemma apply_all_run_id: "apply_all en evs st = Some st' \<Longrightarrow> st_run_id st' = st_run_id st"
  by (induction evs arbitrary: st) (auto simp: apply_all_def apply_run_id split: option.splits)

lemma apply_all_log:
  assumes "apply_all en evs st = Some st'" and "\<forall>ev \<in> set evs. \<not> is_output (ev_kind ev)"
  shows "st_events st' = st_events st @ evs"
  using assms
proof (induction evs arbitrary: st)
  case (Cons ev evs)
  then obtain u where u: "apply_event en ev st = Some u" "apply_all en evs u = Some st'"
    by (auto simp: apply_all_def split: option.splits)
  with Cons.IH [OF u(2)] apply_events [OF u(1)] Cons.prems(2) show ?case by simp
qed (simp add: apply_all_def)

lemma apply_all_cong:
  assumes "apply_all en evs s = Some s'" and "control s = control t"
  shows "\<exists>t'. apply_all en evs t = Some t' \<and> control t' = control s'"
  using apply_all_control_cong [OF assms(2), of en evs] assms(1)
  by (cases "apply_all en evs t") auto

lemma log_of_payload: "db_ok db \<Longrightarrow> ev \<in> set (log_of run db) \<Longrightarrow> \<not> is_output (ev_kind ev) \<and> 0 < ev_sequence ev"
  by (auto simp: log_of_def db_ok_def event_of_def)

lemma new_run_fields [simp]: "st_run_id (new_run run) = run" "st_events (new_run run) = []" "st_nodes (new_run run) = []"
  by (simp_all add: new_run_def snapshot_default_def)

lemma replayed_nodes: "apply_all en evs (new_run run) = Some t \<Longrightarrow> all_nodes node_ok t"
  unfolding apply_all_def by (rule typed.run.run_inv) (simp_all add: all_nodes_def bt_get_def)

section \<open>Checkpoints\<close>

lemma reread_node_ok: "node_ok n \<Longrightarrow> reread_node n = n"
  by (auto simp: reread_node_def node_ok_def node_statuses_def deserialize_node_status_def)

lemma bare_metadata [simp]: "bare (execution_metadata e) = bare e"
  by (simp add: bare_def execution_metadata_def)

lemma checkpoint_fields [simp]: "st_run_id (checkpoint_projection st) = st_run_id st" "st_events (checkpoint_projection st) = []"
  by (simp_all add: checkpoint_projection_def)

lemma map_result_Inr: "map_result f r = Inr y \<longleftrightarrow> (\<exists>x. r = Inr x \<and> y = f x)"
  by (cases r) (auto simp: map_result_def)

lemma control_checkpoint:
  assumes "all_nodes node_ok st" and "bt_wf (st_nodes st)"
  shows "control (checkpoint_projection st) = (control st)\<lparr>st_events := []\<rparr>"
proof -
  have "reread_node n = n" if "(name, n) \<in> set (st_nodes st)" for name n
  proof -
    have "map_of (st_nodes st) name = Some n" using that bt_wf_distinct [OF assms(2)] by simp
    with assms(1) show ?thesis by (auto simp: all_nodes_def bt_get_def intro: reread_node_ok)
  qed
  then have "map (\<lambda>(name, n). (name, reread_node n)) (st_nodes st) = st_nodes st"
    by (intro map_idI) auto
  then show ?thesis by (simp add: checkpoint_projection_def control_def o_def)
qed

lemma log_frame_simps [simp]:
  "log_of run (db\<lparr>so_logs := a\<rparr>) = log_of run db" "log_of run (db\<lparr>so_offsets := b\<rparr>) = log_of run db"
  "log_of run (db\<lparr>so_appended := c\<rparr>) = log_of run db" "log_of run (db\<lparr>so_checkpoints := d\<rparr>) = log_of run db"
  "db_ok (db\<lparr>so_logs := a\<rparr>) = db_ok db" "db_ok (db\<lparr>so_offsets := b\<rparr>) = db_ok db"
  "db_ok (db\<lparr>so_appended := c\<rparr>) = db_ok db" "db_ok (db\<lparr>so_checkpoints := d\<rparr>) = db_ok db"
  "projects en run st (db\<lparr>so_logs := a\<rparr>) = projects en run st db"
  "projects en run st (db\<lparr>so_offsets := b\<rparr>) = projects en run st db"
  "projects en run st (db\<lparr>so_appended := c\<rparr>) = projects en run st db"
  by (simp_all add: log_of_def db_ok_def projects_def checkpoint_ok_def)

lemma run_wf_new: "run_wf (new_run run)"
  using run_wf_start by (simp add: new_run_def run_wf_def collections_wf_def)

lemma keeps_checkpoint: "keeps en (st_run_id st) (st, db) (st, save_checkpoint st db)"
proof (cases "st_events st = []")
  case True
  then show ?thesis by (simp add: save_checkpoint_def keeps_refl)
next
  case False
  let ?run = "st_run_id st"
  have others: "others_kept ?run db (save_checkpoint st db)"
    using False by (simp add: others_kept_def save_checkpoint_def btree_simps)
  have "projects en ?run st (save_checkpoint st db)" if ok: "db_ok db" and proj: "projects en ?run st db"
  proof -
    from proj obtain t where t: "apply_all en (log_of ?run db) (new_run ?run) = Some t" "control t = control st"
      by (auto simp: projects_def)
    have "st_events t = log_of ?run db" using apply_all_log [OF t(1)] log_of_payload [OF ok] by simp
    with t(2) have log: "st_events st = log_of ?run db" by (metis control_fields(19))
    have "run_wf t" using wf.run_inv [OF run_wf_new] t(1) unfolding apply_all_def by blast
    then have nodes: "all_nodes node_ok st" "bt_wf (st_nodes st)"
      using replayed_nodes [OF t(1)] t(2) unfolding all_nodes_def run_wf_def by (metis control_fields(1))+
    let ?c = "\<lparr>ck_sequence = ev_sequence (last (st_events st)), ck_queue_version = 1, ck_state = checkpoint_projection st\<rparr>"
    have saved: "save_checkpoint st db = db\<lparr>so_checkpoints := bt_insert ?run ?c (so_checkpoints db)\<rparr>"
      using False by (simp add: save_checkpoint_def)
    have "log_of ?run db = log_of ?run db @ [] \<and> log_of ?run db \<noteq> [] \<and> ev_sequence (last (log_of ?run db)) = ck_sequence ?c
        \<and> apply_all en (log_of ?run db) (new_run ?run) = Some t \<and> control (ck_state ?c) = (control t)\<lparr>st_events := []\<rparr>"
      using False log t control_checkpoint [OF nodes] by simp
    then have "checkpoint_ok en ?run (save_checkpoint st db)"
      unfolding checkpoint_ok_def saved log_frame_simps by (simp add: btree_simps del: append_Nil2) blast
    with proj show ?thesis by (simp add: projects_def saved)
  qed
  with others show ?thesis by (simp add: keeps_def save_checkpoint_def)
qed

lemma keeps_note: "keeps en (st_run_id st) (st, db) (st, note_appended st n db)"
proof -
  have step: "keeps en run (st, db) (st, db\<lparr>so_appended := k\<rparr>)" for run db k
    by (simp add: keeps_def others_kept_def)
  show ?thesis
    by (simp add: note_appended_def Let_def step keeps_trans [OF step keeps_checkpoint])
qed

section \<open>Appending\<close>

text \<open>A change of the measured fields and of the transcripts alone.\<close>

lemma keeps_measured:
  assumes "control st' = control st" and "st_run_id st' = st_run_id st"
    and "so_events db' = so_events db" "so_checkpoints db' = so_checkpoints db" "so_last_sequence db' = so_last_sequence db"
  shows "keeps en run (st, db) (st', db')"
  using assms by (simp add: keeps_def projects_def checkpoint_ok_def others_kept_def db_ok_def log_of_def)

lemma stream_text_control:
  "control (stream_text en offsets entry st) = control st \<and> st_run_id (stream_text en offsets entry st) = st_run_id st"
proof (cases entry)
  case (Pair eid chunk)
  let ?f = "\<lambda>e. (append_live_output (en_parse en) chunk e)\<lparr>ex_output_bytes :=
          (case bt_get offsets eid of Some offset \<Rightarrow> offset | None \<Rightarrow> 0)\<rparr>"
  have "bare (?f e) = bare e" for e
    using append_live_output_bare [of "en_parse en" chunk e] by (simp add: bare_def)
  then have "map bare (update_first p ?f es) = map bare es" for p es by (induction es) auto
  then show ?thesis by (simp add: Pair stream_text_def update_attempt_def) (simp add: control_def)
qed

lemma stream_texts_control:
  "control (fold (stream_text en offsets) texts st) = control st \<and> st_run_id (fold (stream_text en offsets) texts st) = st_run_id st"
  by (induction texts arbitrary: st) (simp_all add: stream_text_control)

lemma keeps_logs:
  assumes "append_logs en kinds (st, db) = Ok (st', db')"
  shows "keeps en (st_run_id st) (st, db) (st', db')"
proof (cases "kinds = []")
  case True
  with assms show ?thesis by (simp add: append_logs_def keeps_refl)
next
  case False
  with assms obtain texts t offsets where st': "st' = refresh_metrics en (fold (stream_text en offsets) texts st)"
    and db': "db' = note_appended st' (length kinds)
      (db\<lparr>so_logs := t, so_offsets := fold (\<lambda>(k, v). bt_insert k v) offsets (so_offsets db)\<rparr>)"
    by (auto simp: append_logs_def Let_def split: if_splits option.splits sum.splits prod.splits)
  have same: "control st' = control st" "st_run_id st' = st_run_id st"
    using stream_texts_control by (simp_all add: st' refresh_metrics_def) (simp add: control_def)
  show ?thesis
    unfolding db' by (rule keeps_trans [OF keeps_measured [OF same] keeps_note [of _ st', unfolded same]]) simp_all
qed

lemma replace_logs_frame:
  "replace_logs run eid txt db = Some (Inr db') \<Longrightarrow> so_events db' = so_events db \<and> so_checkpoints db' = so_checkpoints db
    \<and> so_last_sequence db' = so_last_sequence db"
  by (auto simp: replace_logs_def map_result_Inr)

lemma detach_output_frame:
  assumes "detach_output en run kind db = Some (Inr (kind', initial, db'))"
  shows "so_events db' = so_events db \<and> so_checkpoints db' = so_checkpoints db
    \<and> so_last_sequence db' = so_last_sequence db \<and> (\<not> is_output kind \<longrightarrow> \<not> is_output kind')"
  using assms
  by (cases kind) (auto simp: detach_output_def map_result_Inr Let_def dest: replace_logs_frame split: if_splits)

lemma show_initial_control:
  "control (show_initial en initial st) = control st \<and> st_run_id (show_initial en initial st) = st_run_id st"
proof -
  have "control (update_attempt p (append_live_output parse chunk) st) = control st" for p parse chunk
  proof -
    have "map bare (update_first p (append_live_output parse chunk) es) = map bare es" for es
      by (induction es) (auto simp: append_live_output_bare)
    then show ?thesis by (simp add: update_attempt_def) (simp add: control_def)
  qed
  then show ?thesis by (simp add: show_initial_def refresh_metrics_def split: option.split) (simp add: control_def)
qed

lemma log_insert: "log_of run (insert_event r db) = log_of run db @ (if er_run r = run then [event_of r] else [])"
  by (simp add: log_of_def insert_event_def)

lemma event_of_new [simp]: "ev_kind (event_of (new_row run ts kind db)) = kind"
  by (simp add: event_of_def new_row_def)

text \<open>One more event, in the log and in the live state.\<close>

lemma keeps_insert:
  assumes ev: "apply_event en (event_of (new_row (st_run_id st) ts kind db)) st = Some st'" and out: "\<not> is_output kind"
  shows "keeps en (st_run_id st) (st, db) (st', insert_event (new_row (st_run_id st) ts kind db) db)"
proof -
  let ?run = "st_run_id st"
  let ?row = "new_row ?run ts kind db"
  have others: "others_kept ?run db (insert_event ?row db)"
    by (auto simp: others_kept_def log_insert new_row_def) (simp add: insert_event_def)
  have ok: "db_ok (insert_event ?row db)" if "db_ok db"
    using that out by (fastforce simp: db_ok_def insert_event_def new_row_def sorted_wrt_append)
  have "projects en ?run st' (insert_event ?row db)" if proj: "projects en ?run st db"
  proof -
    have log: "log_of ?run (insert_event ?row db) = log_of ?run db @ [event_of ?row]"
      by (simp add: log_insert new_row_def)
    from proj obtain t where t: "apply_all en (log_of ?run db) (new_run ?run) = Some t" "control t = control st"
      by (auto simp: projects_def)
    have "apply_all en [event_of ?row] st = Some st'" using ev by (simp add: apply_all_def)
    from apply_all_cong [OF this t(2) [symmetric]] obtain t' where "apply_all en [event_of ?row] t = Some t'" "control t' = control st'"
      by auto
    with t have "apply_all en (log_of ?run db @ [event_of ?row]) (new_run ?run) = Some t'"
      by (simp add: apply_all_def try_fold_append)
    moreover have "checkpoint_ok en ?run (insert_event ?row db)"
      using proj unfolding projects_def checkpoint_ok_def log by (simp add: insert_event_def) (metis append.assoc)
    ultimately show ?thesis
      using \<open>control t' = control st'\<close> apply_run_id [OF ev] proj by (auto simp: projects_def log)
  qed
  with others ok show ?thesis by (simp add: keeps_def)
qed

lemma forget_frame:
  "so_events (forget_log_cursor eid db) = so_events db" "so_checkpoints (forget_log_cursor eid db) = so_checkpoints db"
  "so_last_sequence (forget_log_cursor eid db) = so_last_sequence db"
  by (simp_all add: forget_log_cursor_def)

lemma keeps_cursors: "keeps en run (st, db) (st, case eid of Some eid \<Rightarrow> forget_log_cursor eid db | None \<Rightarrow> db)"
  by (rule keeps_measured) (simp_all add: forget_frame split: option.split)

text \<open>The course of an append that succeeds.\<close>

lemma append_eventE:
  assumes "append_event en ts kind (st, db) = Ok (st', db')"
  obtains (streamed) "is_output kind" "append_logs en [kind] (st, db) = Ok (st', db')"
  | (logged) kind1 initial db1 u where "\<not> is_output kind" "\<not> run_was_deleted (st_run_id st) db"
      "detach_output en (st_run_id st) kind db = Some (Inr (kind1, initial, db1))"
      "apply_event en (event_of (new_row (st_run_id st) ts kind1 db1)) st = Some u"
      "st' = show_initial en initial u"
      "db' = note_appended st' 1 (if ends_attempt kind1
        then save_checkpoint st' (case event_execution_id kind1 of
          Some eid \<Rightarrow> forget_log_cursor eid (insert_event (new_row (st_run_id st) ts kind1 db1) db1)
        | None \<Rightarrow> insert_event (new_row (st_run_id st) ts kind1 db1) db1)
        else insert_event (new_row (st_run_id st) ts kind1 db1) db1)"
proof (cases "is_output kind")
  case True
  then have "append_logs en [kind] (st, db) = Ok (st', db')" using assms by (cases kind) (simp_all add: append_event_def)
  with True show ?thesis by (rule that(1))
next
  case False
  let ?run = "st_run_id st"
  have plain: "append_event en ts kind (st, db) =
     (if run_was_deleted ?run db then Error deleted_message (st, db)
     else case detach_output en ?run kind db of
       None \<Rightarrow> Panic
     | Some (Inl e) \<Rightarrow> Error e (st, db)
     | Some (Inr (kind, initial, db)) \<Rightarrow>
         let row = new_row ?run ts kind db; db = insert_event row db in
         case apply_event en (event_of row) st of
           None \<Rightarrow> Panic
         | Some st \<Rightarrow>
             let st = show_initial en initial st;
                 db = (if ends_attempt kind
                   then save_checkpoint st
                     (case event_execution_id kind of Some eid \<Rightarrow> forget_log_cursor eid db | None \<Rightarrow> db)
                   else db)
             in Ok (st, note_appended st 1 db))"
    using False by (cases kind) (simp_all add: append_event_def)
  from assms [unfolded plain] show ?thesis
    by (auto simp: Let_def split: if_splits option.splits sum.splits prod.splits intro: that(2) [OF False])
qed

lemma append_logs_run_id: "append_logs en kinds (st, db) = Ok (st', db') \<Longrightarrow> st_run_id st' = st_run_id st"
  using stream_texts_control
  by (auto simp: append_logs_def Let_def refresh_metrics_def split: if_splits option.splits sum.splits prod.splits)

lemma keeps_append:
  assumes "append_event en ts kind (st, db) = Ok (st', db')"
  shows "keeps en (st_run_id st) (st, db) (st', db') \<and> st_run_id st' = st_run_id st"
  using assms
proof (cases rule: append_eventE)
  case streamed
  then show ?thesis using keeps_logs append_logs_run_id by blast
next
  case (logged kind1 initial db1 u)
  note d = logged(3) and u = logged(4) and st' = logged(5) and db' = logged(6)
  let ?run = "st_run_id st"
  note frame = detach_output_frame [OF d]
  have id: "st_run_id st' = ?run" using show_initial_control apply_run_id [OF u] st' by simp
  let ?db2 = "insert_event (new_row ?run ts kind1 db1) db1"
  have "keeps en ?run (st, db) (st, db1)" by (rule keeps_measured) (use frame in simp_all)
  then have "keeps en ?run (st, db) (u, ?db2)"
    by (rule keeps_trans) (rule keeps_insert [OF u], use frame logged(1) in simp)
  moreover have "keeps en ?run (u, ?db2) (st', ?db2)"
    by (rule keeps_measured) (simp_all add: st' show_initial_control)
  ultimately have written: "keeps en ?run (st, db) (st', ?db2)" by (rule keeps_trans)
  have save: "keeps en ?run (st', db) (st', save_checkpoint st' db)"
    and noting: "keeps en ?run (st', db) (st', note_appended st' 1 db)" for db
    using keeps_checkpoint [of en st'] keeps_note [of en st'] by (simp_all add: id)
  show ?thesis
    unfolding db'
    using keeps_trans [OF written keeps_trans [OF keeps_trans [OF keeps_cursors save] noting]]
      keeps_trans [OF written noting] id by simp
qed

text \<open>A call that fails leaves what it found, or what the calls it is made of left.\<close>

fun left :: "'a outcome \<Rightarrow> 'a option" where
  "left (Ok s) = Some s"
| "left (Error _ s) = Some s"
| "left Panic = None"

lemma left_Some: "left r = Some s \<longleftrightarrow> r = Ok s \<or> (\<exists>e. r = Error e s)"
  by (cases r) auto

lemma append_logs_error: "append_logs en kinds s = Error e s' \<Longrightarrow> s' = s"
  by (auto simp: append_logs_def Let_def split: if_splits option.splits sum.splits prod.splits)

lemma append_event_error: "append_event en ts kind s = Error e s' \<Longrightarrow> s' = s"
  by (cases kind) (auto simp: append_event_def Let_def dest: append_logs_error
      split: if_splits option.splits sum.splits prod.splits)

lemma keeps_left:
  "left (append_event en ts kind (st, db)) = Some (st', db') \<Longrightarrow>
   keeps en (st_run_id st) (st, db) (st', db') \<and> st_run_id st' = st_run_id st"
  by (auto simp: left_Some dest: keeps_append append_event_error intro: keeps_refl)

lemma keeps_each:
  "left (append_each en items (st, db)) = Some (st', db') \<Longrightarrow>
   keeps en (st_run_id st) (st, db) (st', db') \<and> st_run_id st' = st_run_id st"
proof (induction items arbitrary: st db)
  case (Cons item items)
  obtain ts kind where item: "item = (ts, kind)" by (cases item)
  show ?case
  proof (cases "append_event en ts kind (st, db)")
    case (Ok s)
    then obtain u db1 where u: "append_event en ts kind (st, db) = Ok (u, db1)" by (cases s) simp
    with Cons.prems have "left (append_each en items (u, db1)) = Some (st', db')" by (simp add: item)
    with keeps_append [OF u] Cons.IH [OF this] show ?thesis by (auto intro: keeps_trans)
  next
    case (Error e s)
    with Cons.prems have "left (append_event en ts kind (st, db)) = Some (st', db')" by (simp add: item)
    then show ?thesis by (rule keeps_left)
  qed (use Cons.prems in \<open>simp add: item\<close>)
qed (simp add: keeps_refl)

text \<open>Inserting the rows of a batch first and applying their events after is the same as one by one.\<close>

lemma keeps_batch:
  "insert_rows (st_run_id st) items db [] = (db', events) \<Longrightarrow> apply_all en events st = Some st' \<Longrightarrow>
   \<forall>(_, kind) \<in> set items. \<not> is_output kind \<Longrightarrow>
   keeps en (st_run_id st) (st, db) (st', db') \<and> st_run_id st' = st_run_id st"
proof (induction items arbitrary: st db events)
  case Nil
  then show ?case by (auto simp: apply_all_def keeps_refl)
next
  case (Cons item items)
  obtain ts kind where item: "item = (ts, kind)" by (cases item)
  have acc: "insert_rows run is db (es @ fs) = (d, es @ gs) \<longleftrightarrow> insert_rows run is db fs = (d, gs)" for run "is" db es fs d gs
    by (induction "is" arbitrary: db fs) (auto simp: Let_def split: prod.splits)
  let ?row = "new_row (st_run_id st) ts kind db"
  have ins: "insert_rows (st_run_id st) items (insert_event ?row db) [event_of ?row] = (db', events)"
    using Cons.prems(1) by (simp add: item Let_def)
  have "\<exists>gs. events = [event_of ?row] @ gs"
  proof -
    have "\<exists>gs. snd (insert_rows run is db es) = es @ gs" for run "is" db es
    proof (induction "is" arbitrary: db es)
      case (Cons i js)
      obtain ts kind where "i = (ts, kind)" by (cases i)
      with Cons.IH [of "insert_event (new_row run ts kind db) db" "es @ [event_of (new_row run ts kind db)]"]
      show ?case by (auto simp: Let_def)
    qed simp
    from this [of "st_run_id st" items "insert_event ?row db" "[event_of ?row]"] ins show ?thesis by simp
  qed
  then obtain gs where events: "events = [event_of ?row] @ gs" by blast
  have rest: "insert_rows (st_run_id st) items (insert_event ?row db) [] = (db', gs)"
    using ins acc [of _ _ _ "[event_of ?row]" "[]"] by (simp add: events)
  from Cons.prems(2) obtain u where u: "apply_event en (event_of ?row) st = Some u" "apply_all en gs u = Some st'"
    by (auto simp: events apply_all_def split: option.splits)
  have id: "st_run_id u = st_run_id st" by (rule apply_run_id [OF u(1)])
  have "keeps en (st_run_id st) (st, db) (u, insert_event ?row db)"
    using keeps_insert [OF u(1)] Cons.prems(3) by (simp add: item)
  with Cons.IH [OF rest [folded id] u(2)] Cons.prems(3) id show ?case by (auto intro: keeps_trans)
qed

lemma append_batchE:
  assumes "append_batch en items (st, db) = Ok (st', db')"
  obtains (streamed) "append_logs en (map snd items) (st, db) = Ok (st', db')"
    | (single) "append_each en items (st, db) = Ok (st', db')"
    | (batch) db1 events where "insert_rows (st_run_id st) items db [] = (db1, events)" "apply_all en events st = Some st'"
      "\<not> (\<exists>(_, kind) \<in> set items. needs_single kind)" "\<not> run_was_deleted (st_run_id st) db"
      "db' = note_appended st' (length items) (if \<exists>ev \<in> set events. is_finished (ev_kind ev)
         then save_checkpoint st' (fold forget_finished events db1) else fold forget_finished events db1)"
  using assms by (auto simp: append_batch_def Let_def split: if_splits option.splits prod.splits)

lemma keeps_append_batch:
  assumes "append_batch en items (st, db) = Ok (st', db')"
  shows "keeps en (st_run_id st) (st, db) (st', db') \<and> st_run_id st' = st_run_id st"
proof -
  let ?run = "st_run_id st"
  from assms show ?thesis
  proof (cases rule: append_batchE)
    case streamed
    then show ?thesis using keeps_logs append_logs_run_id by blast
  next
    case single
    then show ?thesis using keeps_each [of en items st db st' db'] by simp
  next
    case (batch db1 events)
    have "\<forall>(_, kind) \<in> set items. \<not> is_output kind"
    proof (clarify)
      fix ts kind assume "(ts, kind) \<in> set items" "is_output kind"
      with batch(3) show False by (cases kind) (auto simp: needs_single_def)
    qed
    from keeps_batch [OF batch(1,2) this] have written: "keeps en ?run (st, db) (st', db1)" and id: "st_run_id st' = ?run" by auto
    have "keeps en ?run (st', db1) (st', fold forget_finished events db1)"
    proof (induction events arbitrary: db1)
      case (Cons ev events)
      have "keeps en ?run (st', db1) (st', forget_finished ev db1)"
        by (simp add: forget_finished_def keeps_cursors keeps_refl)
      with Cons.IH show ?case by (auto intro: keeps_trans)
    qed (simp add: keeps_refl)
    with written have cursors: "keeps en ?run (st, db) (st', fold forget_finished events db1)" by (rule keeps_trans)
    have save: "keeps en ?run (st', db) (st', save_checkpoint st' db)"
      and noting: "keeps en ?run (st', db) (st', note_appended st' n db)" for db n
      using keeps_checkpoint [of en st'] keeps_note [of en st'] by (simp_all add: id)
    show ?thesis
      unfolding batch(5) using keeps_trans [OF cursors keeps_trans [OF save noting]] keeps_trans [OF cursors noting] id by simp
  qed
qed

lemma keeps_left_batch:
  assumes "left (append_batch en items (st, db)) = Some (st', db')"
  shows "keeps en (st_run_id st) (st, db) (st', db') \<and> st_run_id st' = st_run_id st"
proof (cases "append_batch en items (st, db)")
  case (Error e s)
  with assms have s: "s = (st', db')" by simp
  from Error consider "append_logs en (map snd items) (st, db) = Error e s"
    | "append_each en items (st, db) = Error e s" | "s = (st, db)"
    by (auto simp: append_batch_def Let_def split: if_splits option.splits prod.splits)
  then show ?thesis
  proof cases
    case 1
    from append_logs_error [OF this] show ?thesis by (simp add: s keeps_refl)
  next
    case 2
    then show ?thesis using keeps_each [of en items st db st' db'] by (simp add: s)
  qed (simp add: s keeps_refl)
qed (use assms keeps_append_batch in auto)

section \<open>Loading\<close>

lemma read_row_event:
  "\<not> oversize (er_payload r) \<Longrightarrow> read_row oversize r = event_of r"
  by (cases "er_payload r") (simp_all add: read_row_def read_payload_def event_of_def)

lemma kind_name_output: "event_kind_name kind = ''output'' \<longleftrightarrow> is_output kind"
  by (cases kind) (simp_all add: event_kind_name_def)

lemma loaded_events:
  assumes "db_ok db" and "\<forall>r \<in> set (so_events db). \<not> oversize (er_payload r)"
  shows "map (read_row oversize) (filter (\<lambda>r. er_run r = run \<and> \<not> is_output_row r) (so_events db)) = log_of run db"
proof -
  have "filter (\<lambda>r. er_run r = run \<and> \<not> is_output_row r) (so_events db) = filter (\<lambda>r. er_run r = run) (so_events db)"
    using assms(1) by (intro filter_cong) (auto simp: db_ok_def is_output_row_def kind_name_output)
  with assms(2) show ?thesis by (auto simp: log_of_def read_row_event)
qed

lemma log_sorted: "db_ok db \<Longrightarrow> sorted_wrt (\<lambda>a b. ev_sequence a < ev_sequence b) (log_of run db)"
  by (simp add: db_ok_def log_of_def sorted_wrt_map event_of_def sorted_wrt_filter)

lemma replay_suffix:
  "\<forall>ev \<in> set evs. sequence < ev_sequence ev \<Longrightarrow> try_fold (replay_event en sequence) evs st = apply_all en evs st"
  by (induction evs arbitrary: st) (auto simp: replay_event_def apply_all_def split: option.split)

lemma replay_prefix:
  "\<forall>ev \<in> set evs. ev_sequence ev \<le> sequence \<Longrightarrow>
   try_fold (replay_event en sequence) evs st = Some (st\<lparr>st_events := st_events st @ evs\<rparr>)"
  by (induction evs arbitrary: st) (auto simp: replay_event_def)

lemma control_cleared:
  "control (st\<lparr>st_events := evs, st_executions := map clear_output (st_executions st), st_mergers := map clear_output (st_mergers st)\<rparr>)
   = (control st)\<lparr>st_events := evs\<rparr>"
proof -
  have "bare (clear_output e) = bare e" for e by (simp add: bare_def clear_output_def)
  then show ?thesis by (simp add: control_def o_def)
qed

lemma control_events: "control (st\<lparr>st_events := evs\<rparr>) = (control st)\<lparr>st_events := evs\<rparr>"
  by (simp add: control_def)

text \<open>Replaying the log from a usable checkpoint, or from nothing, ends in the replayed state.\<close>

lemma load_replay:
  assumes ok: "db_ok db" and proj: "projects en run st db" and log: "log_of run db \<noteq> []"
  defines "start \<equiv> case usable_checkpoint run db of Some c \<Rightarrow> c | None \<Rightarrow> (0, new_run run)"
  shows "\<exists>u. try_fold (replay_event en (fst start)) (log_of run db) ((snd start)\<lparr>st_events := [],
      st_executions := map clear_output (st_executions (snd start)),
      st_mergers := map clear_output (st_mergers (snd start))\<rparr>) = Some u \<and> control u = control st"
proof -
  from proj obtain t where t: "apply_all en (log_of run db) (new_run run) = Some t" "control t = control st"
    by (auto simp: projects_def)
  note sorted = log_sorted [OF ok, of run]
  show ?thesis
  proof (cases "usable_checkpoint run db")
    case None
    have "new_run run\<lparr>st_events := [], st_executions := map clear_output (st_executions (new_run run)),
        st_mergers := map clear_output (st_mergers (new_run run))\<rparr> = new_run run"
      by (simp add: new_run_def snapshot_default_def)
    with t log_of_payload [OF ok, of _ run] show ?thesis by (simp add: start_def None replay_suffix)
  next
    case (Some c)
    then obtain ck where ck: "bt_get (so_checkpoints db) run = Some ck" "c = (ck_sequence ck, ck_state ck)"
      by (auto simp: usable_checkpoint_def split: option.splits if_splits)
    with proj obtain pre suf u where pre: "log_of run db = pre @ suf" "pre \<noteq> []" "ev_sequence (last pre) = ck_sequence ck"
      "apply_all en pre (new_run run) = Some u" "control (ck_state ck) = (control u)\<lparr>st_events := []\<rparr>"
      unfolding projects_def checkpoint_ok_def by blast
    have below: "\<forall>ev \<in> set pre. ev_sequence ev \<le> ck_sequence ck"
    proof
      fix ev assume "ev \<in> set pre"
      moreover obtain init end_ev where "pre = init @ [end_ev]" using pre(2) by (cases pre rule: rev_cases) auto
      ultimately show "ev_sequence ev \<le> ck_sequence ck"
        using sorted pre(1,3) by (auto simp: sorted_wrt_append intro: less_imp_le)
    qed
    have above: "\<forall>ev \<in> set suf. ck_sequence ck < ev_sequence ev"
      using sorted pre(1,2) unfolding pre(3) [symmetric] by (auto simp: sorted_wrt_append)
    let ?s = "(ck_state ck)\<lparr>st_events := [], st_executions := map clear_output (st_executions (ck_state ck)),
      st_mergers := map clear_output (st_mergers (ck_state ck))\<rparr>"
    have "st_events u = pre" using apply_all_log [OF pre(4)] log_of_payload [OF ok, of _ run] pre(1) by simp
    then have "control (?s\<lparr>st_events := pre\<rparr>) = control u"
      unfolding control_events control_cleared pre(5) by (simp add: control_def)
    moreover have "apply_all en suf u = Some t"
      using t(1) pre(1,4) by (simp add: apply_all_def try_fold_append)
    ultimately obtain w where "apply_all en suf (?s\<lparr>st_events := pre\<rparr>) = Some w" "control w = control t"
      using apply_all_cong by metis
    with t(2) show ?thesis
      by (simp add: start_def Some ck(2) pre(1) try_fold_append replay_prefix [OF below] replay_suffix [OF above])
  qed
qed

definition normalised :: "snapshot \<Rightarrow> snapshot" where
  "normalised st = hydrate_legacy_model_config (backfill_snapshot st)"

lemma normalised_cong: "control s = control t \<Longrightarrow> control (normalised s) = control (normalised t)"
proof -
  have "control (normalised (control s)) = control (normalised s)" for s
  proof -
    have "bare (backfill_execution e) = bare e" for e by (simp add: bare_def backfill_execution_def)
    then have "control (backfill_snapshot (control s)) = control (backfill_snapshot s)"
      by (simp add: backfill_snapshot_def) (simp add: control_def o_def)
    moreover have "hydrate_legacy_model_config (control u) = control (hydrate_legacy_model_config u)" for u
      by (simp add: hydrate_legacy_model_config_def Let_def split: option.split) (simp add: control_def)
    ultimately show ?thesis unfolding normalised_def by metis
  qed
  then show "control s = control t \<Longrightarrow> control (normalised s) = control (normalised t)" by metis
qed

lemma control_turns: "control (u\<lparr>st_planning_turns := x\<rparr>) = control u"
  by (simp add: control_def)

lemma control_recorded: "control (fold record_planning_turn ps u) = control u"
  by (induction ps arbitrary: u) simp_all

lemma finish_load_control: "control (finish_load en run db st) = control (normalised st)"
proof -
  have rebuilt: "control (rebuild_planning_turns u) = control u" for u
    by (simp add: rebuild_planning_turns_def Let_def control_turns control_recorded split: option.split)
  have "bare (measure_log run db e) = bare e" for e by (simp add: bare_def measure_log_def)
  then have measured: "control (u\<lparr>st_executions := map (measure_log run db) (st_executions u),
      st_mergers := map (measure_log run db) (st_mergers u)\<rparr>) = control u" for u
    by (simp add: control_def o_def)
  show ?thesis
    using normalised_cong [OF rebuilt] by (simp add: finish_load_def Let_def measured normalised_def)
qed

section \<open>A store in service\<close>

text \<open>Calls of any runs in any order, each on the live state of its run.  A call that fails is answered with
  its error and the service goes on; a panic ends it.\<close>

datatype call = Single string nat event_kind | Batch string "(nat \<times> event_kind) list"

fun call_run :: "call \<Rightarrow> string" where
  "call_run (Single run _ _) = run"
| "call_run (Batch run _) = run"

fun perform :: "env \<Rightarrow> call \<Rightarrow> snapshot \<times> store \<Rightarrow> (snapshot \<times> store) outcome" where
  "perform en (Single run ts kind) s = append_event en ts kind s"
| "perform en (Batch run items) s = append_batch en items s"

fun serve :: "env \<Rightarrow> call list \<Rightarrow> (string \<Rightarrow> snapshot) \<times> store \<Rightarrow> ((string \<Rightarrow> snapshot) \<times> store) option" where
  "serve en [] (live, db) = Some (live, db)"
| "serve en (c # cs) (live, db) = (case left (perform en c (live (call_run c), db)) of
     Some (st, db') \<Rightarrow> serve en cs (live(call_run c := st), db') | None \<Rightarrow> None)"

definition in_step :: "env \<Rightarrow> (string \<Rightarrow> snapshot) \<Rightarrow> store \<Rightarrow> bool" where
  "in_step en live db \<longleftrightarrow> db_ok db \<and> (\<forall>run. projects en run (live run) db)"

lemma perform_keeps:
  "left (perform en c (st, db)) = Some (st', db') \<Longrightarrow>
   keeps en (st_run_id st) (st, db) (st', db') \<and> st_run_id st' = st_run_id st"
  by (cases c) (auto dest: keeps_left keeps_left_batch)

lemma serve_in_step: "in_step en live db \<Longrightarrow> serve en cs (live, db) = Some (live', db') \<Longrightarrow> in_step en live' db'"
proof (induction cs arbitrary: live db)
  case (Cons c cs)
  let ?run = "call_run c"
  from Cons.prems(2) obtain st db1 where st: "left (perform en c (live ?run, db)) = Some (st, db1)"
    "serve en cs (live(?run := st), db1) = Some (live', db')"
    by (auto split: option.splits)
  have id: "st_run_id (live ?run) = ?run" using Cons.prems(1) by (auto simp: in_step_def projects_def)
  from perform_keeps [OF st(1)] have keeps: "keeps en ?run (live ?run, db) (st, db1)" by (simp add: id)
  have "in_step en (live(?run := st)) db1"
    using keeps Cons.prems(1) projects_kept [of ?run db db1] by (auto simp: in_step_def keeps_def)
  from Cons.IH [OF this st(2)] show ?case .
qed simp

lemma in_step_start: "in_step en new_run store_empty"
  by (simp add: in_step_def db_ok_def store_empty_def projects_def checkpoint_ok_def log_of_def apply_all_def bt_get_def)

text \<open>Loading a run whose log the store holds.\<close>

lemma loads_live:
  assumes ok: "db_ok db" and proj: "projects en run st db" and "contains_run run db"
    and "\<forall>r \<in> set (so_events db). \<not> oversize (er_payload r)"
  shows "\<exists>u. load_run en oversize run db = Some (Inr u)
    \<and> control u = control (hydrate_legacy_model_config (backfill_snapshot st))"
proof -
  have "log_of run db \<noteq> []" using assms(3) by (auto simp: contains_run_def log_of_def filter_empty_conv)
  from load_replay [OF ok proj this] obtain u where
    "try_fold (replay_event en (fst (case usable_checkpoint run db of Some c \<Rightarrow> c | None \<Rightarrow> (0, new_run run)))) (log_of run db)
       ((snd (case usable_checkpoint run db of Some c \<Rightarrow> c | None \<Rightarrow> (0, new_run run)))\<lparr>st_events := [],
        st_executions := map clear_output (st_executions (snd (case usable_checkpoint run db of Some c \<Rightarrow> c | None \<Rightarrow> (0, new_run run)))),
        st_mergers := map clear_output (st_mergers (snd (case usable_checkpoint run db of Some c \<Rightarrow> c | None \<Rightarrow> (0, new_run run))))\<rparr>) = Some u"
    and u: "control u = control st" by blast
  then have "load_run en oversize run db = Some (Inr (finish_load en run db u))"
    using assms(3) by (simp add: load_run_def loaded_events [OF ok assms(4)] case_prod_beta)
  moreover have "control (finish_load en run db u) = control (normalised st)"
    unfolding finish_load_control by (rule normalised_cong [OF u])
  ultimately show ?thesis by (auto simp: normalised_def)
qed

text \<open>C7: loading a run gives its live state back.  Whatever calls, of however many runs sharing the store,
  appended events, batches and streamed output, the failed ones included, and whichever checkpoints the store took in between, loading
  a run succeeds and yields the state the run is in, its log included, up to the measured fields and the
  defaulting of fields older versions left out.\<close>

theorem reload_is_live:
  assumes "serve en cs (new_run, store_empty) = Some (live, db)" and "contains_run run db"
    and "\<forall>r \<in> set (so_events db). \<not> oversize (er_payload r)"
  shows "\<exists>st. load_run en oversize run db = Some (Inr st)
    \<and> control st = control (hydrate_legacy_model_config (backfill_snapshot (live run)))"
proof -
  have "db_ok db" and "projects en run (live run) db"
    using serve_in_step [OF in_step_start assms(1)] by (simp_all add: in_step_def)
  from loads_live [OF this assms(2,3)] show ?thesis .
qed

definition sample_calls :: "call list" where
  "sample_calls =
     [Single ''r'' 1 (Created sample_run_graph sample_config (Some ''p'') (Some sample_summary)),
      Batch ''r'' [(2, Approved ''h0''), (3, StopRequested)],
      Single ''r'' 4 (Started (sample_attempt ''e1'' ''a'') None False),
      Single ''q'' 6 (Created sample_run_graph sample_config None None),
      Single ''r'' 7 (Failed ''a'' (Some ''e1'') ''boom'' 0 None)]"

theorem reload_is_live_witness:
  "\<exists>live db st. serve sample_env sample_calls (new_run, store_empty) = Some (live, db)
    \<and> load_run sample_env (\<lambda>_. False) ''r'' db = Some (Inr st)
    \<and> control st = control (hydrate_legacy_model_config (backfill_snapshot (live ''r'')))"
proof -
  have "case serve sample_env sample_calls (new_run, store_empty) of
      Some s \<Rightarrow> contains_run ''r'' (snd s) | None \<Rightarrow> False" by code_simp
  then obtain live db where s: "serve sample_env sample_calls (new_run, store_empty) = Some (live, db)" "contains_run ''r'' db"
    by (auto split: option.splits)
  from reload_is_live [OF this, of "\<lambda>_. False"] s(1) show ?thesis by auto
qed

end
