(* ===== verification/Store_Delete.thy ===== *)
theory Store_Delete
  imports Store_Correct
begin

text \<open>
  Deletion is final: what \<open>delete_runs\<close> removes of a run no later call of the store brings back, and the
  other runs keep everything.
\<close>

section \<open>Nothing is left of a run\<close>

definition without :: "string \<Rightarrow> log_row list \<Rightarrow> bool" where
  "without run t \<longleftrightarrow> (\<forall>r \<in> set t. lg_run r \<noteq> run)"

definition gone :: "string \<Rightarrow> store \<Rightarrow> bool" where
  "gone run db \<longleftrightarrow> run_was_deleted run db \<and> \<not> contains_run run db \<and> bt_get (so_checkpoints db) run = None
     \<and> without run (so_logs db)"

text \<open>An operation on another run.\<close>

definition spares :: "string \<Rightarrow> store \<Rightarrow> store \<Rightarrow> bool" where
  "spares run db db' \<longleftrightarrow> (gone run db \<longrightarrow> gone run db')"

lemma spares_refl: "spares run db db"
  and spares_trans: "spares run db db' \<Longrightarrow> spares run db' db'' \<Longrightarrow> spares run db db''"
  by (simp_all add: spares_def)

lemma spares_checkpoint: "st_run_id st \<noteq> run \<Longrightarrow> spares run db (save_checkpoint st db)"
  by (simp add: spares_def gone_def save_checkpoint_def run_was_deleted_def contains_run_def btree_simps)

lemma spares_note: "st_run_id st \<noteq> run \<Longrightarrow> spares run db (note_appended st n db)"
proof -
  assume other: "st_run_id st \<noteq> run"
  have "spares run db (db\<lparr>so_appended := k\<rparr>)" for k
    by (simp add: spares_def gone_def run_was_deleted_def contains_run_def)
  with spares_checkpoint [OF other] show ?thesis by (auto simp: note_appended_def Let_def intro: spares_trans)
qed

lemma spares_insert: "er_run r \<noteq> run \<Longrightarrow> spares run db (insert_event r db)"
  by (simp add: spares_def gone_def insert_event_def run_was_deleted_def contains_run_def)

lemma spares_forget: "spares run db (forget_log_cursor eid db)"
  by (simp add: spares_def gone_def forget_log_cursor_def run_was_deleted_def contains_run_def)

lemma spares_logs: "without run t \<Longrightarrow> spares run db (db\<lparr>so_logs := t, so_offsets := offsets\<rparr>)"
  by (simp add: spares_def gone_def run_was_deleted_def contains_run_def)

section \<open>Transcripts\<close>

lemma insert_row_without: "insert_row r t = Some t' \<Longrightarrow> without run t \<Longrightarrow> lg_run r \<noteq> run \<Longrightarrow> without run t'"
  by (induction t arbitrary: t') (auto simp: without_def split: if_splits)

lemma insert_chunks_without:
  "insert_chunks other eid start piece idem pos t = Some (Inr t') \<Longrightarrow> without run t \<Longrightarrow> other \<noteq> run \<Longrightarrow> without run t'"
proof (induction other eid start piece idem pos t arbitrary: t' rule: insert_chunks.induct)
  case (1 other eid start piece idem pos t)
  show ?case
    using "1.prems" "1.IH" [OF _ refl] unfolding insert_chunks.simps [of other eid start piece idem pos t]
    by (auto simp: Let_def split: if_splits option.splits dest: insert_row_without)
qed

lemma grow_row_without [simp]: "without run (grow_row other eid offset piece t) = without run t"
proof -
  have "lg_run (grown other eid offset piece r) = lg_run r" for r by (simp add: grown_def)
  then show ?thesis by (simp add: without_def grow_row_def)
qed

lemma append_chunks_without:
  "append_chunks other eid start piece t = Some (Inr t') \<Longrightarrow> without run t \<Longrightarrow> other \<noteq> run \<Longrightarrow> without run t'"
  by (auto simp: append_chunks_def Let_def split: if_splits option.splits dest: insert_chunks_without)

lemma append_texts_without:
  "append_texts other db texts t offsets = Some (Inr (t', offsets')) \<Longrightarrow> without run t \<Longrightarrow> other \<noteq> run \<Longrightarrow> without run t'"
proof (induction texts arbitrary: t offsets)
  case (Cons entry texts)
  obtain eid chunk where "entry = (eid, chunk)" by (cases entry)
  with Cons show ?case
    by (auto simp: Let_def split: option.splits sum.splits dest: append_chunks_without)
qed simp

lemma spares_replace: "replace_logs other eid piece db = Some (Inr db') \<Longrightarrow> other \<noteq> run \<Longrightarrow> spares run db db'"
proof -
  assume r: "replace_logs other eid piece db = Some (Inr db')" and other: "other \<noteq> run"
  have kept: "without run (filter P t)" if "without run t" for P t using that by (auto simp: without_def)
  from r obtain t where t: "replace_rows other eid piece (so_logs db) = Some (Inr t)"
    "db' = db\<lparr>so_logs := t, so_offsets := bt_insert eid (length piece) (so_offsets db)\<rparr>"
    by (auto simp: replace_logs_def map_result_Inr)
  have "without run t" if "without run (so_logs db)"
    using insert_chunks_without [OF t(1) [unfolded replace_rows_def] kept [OF that] other] .
  then show ?thesis unfolding t(2) spares_def gone_def by (simp add: run_was_deleted_def contains_run_def)
qed

lemma spares_detach:
  "detach_output en other kind db = Some (Inr (kind', initial, db')) \<Longrightarrow> other \<noteq> run \<Longrightarrow> spares run db db'"
  by (cases kind) (simp_all add: detach_output_def map_result_Inr Let_def split: if_splits,
      auto simp: spares_refl dest: spares_replace)

section \<open>The calls\<close>

lemma spares_append_logs:
  assumes "append_logs en kinds (st, db) = Ok (st', db')" and other: "st_run_id st \<noteq> run"
  shows "spares run db db'"
proof (cases "kinds = []")
  case True
  with assms(1) show ?thesis by (simp add: append_logs_def spares_refl)
next
  case False
  with assms(1) obtain texts t offsets where st': "st' = refresh_metrics en (fold (stream_text en offsets) texts st)"
    and t: "append_texts (st_run_id st) db texts (so_logs db) [] = Some (Inr (t, offsets))"
    and db': "db' = note_appended st' (length kinds)
      (db\<lparr>so_logs := t, so_offsets := fold (\<lambda>(k, v). bt_insert k v) offsets (so_offsets db)\<rparr>)"
    by (auto simp: append_logs_def Let_def split: if_splits option.splits sum.splits prod.splits)
  have st_other: "st_run_id st' \<noteq> run" using other stream_texts_control by (simp add: st' refresh_metrics_def)
  have "without run t" if "without run (so_logs db)" by (rule append_texts_without [OF t that other])
  then have "spares run db (db\<lparr>so_logs := t, so_offsets := fold (\<lambda>(k, v). bt_insert k v) offsets (so_offsets db)\<rparr>)"
    by (simp add: spares_def gone_def run_was_deleted_def contains_run_def)
  then show ?thesis unfolding db' by (rule spares_trans [OF _ spares_note [OF st_other]])
qed

lemma spares_append_event:
  assumes "append_event en ts kind (st, db) = Ok (st', db')" and other: "st_run_id st \<noteq> run"
  shows "spares run db db'"
  using assms(1)
proof (cases rule: append_eventE)
  case streamed
  then show ?thesis by (intro spares_append_logs [OF _ other])
next
  case (logged kind1 initial db1 u)
  let ?row = "new_row (st_run_id st) ts kind1 db1"
  have id: "st_run_id st' \<noteq> run" using keeps_append [OF assms(1)] other by simp
  have "spares run db (insert_event ?row db1)"
    by (rule spares_trans [OF spares_detach [OF logged(3) other] spares_insert]) (use other in \<open>simp add: new_row_def\<close>)
  moreover have "spares run d (case x of Some eid \<Rightarrow> forget_log_cursor eid d | None \<Rightarrow> d)" for d x
    by (simp add: spares_refl spares_forget split: option.split)
  ultimately show ?thesis unfolding logged(6)
    by (auto intro!: spares_trans [OF _ spares_note [OF id]] intro: spares_trans [OF _ spares_checkpoint [OF id]] spares_trans)
qed

lemma spares_append_each:
  "left (append_each en items (st, db)) = Some (st', db') \<Longrightarrow> st_run_id st \<noteq> run \<Longrightarrow> spares run db db'"
proof (induction items arbitrary: st db)
  case (Cons item items)
  obtain ts kind where item: "item = (ts, kind)" by (cases item)
  show ?case
  proof (cases "append_event en ts kind (st, db)")
    case (Ok s)
    then obtain u db1 where u: "append_event en ts kind (st, db) = Ok (u, db1)" by (cases s) simp
    with Cons.prems have "left (append_each en items (u, db1)) = Some (st', db')" by (simp add: item)
    from Cons.IH [OF this] spares_append_event [OF u Cons.prems(2)] keeps_append [OF u] Cons.prems(2)
    show ?thesis by (auto intro: spares_trans)
  next
    case (Error e s)
    with Cons.prems(1) have "s = (st', db')" by (simp add: item)
    with append_event_error [OF Error] show ?thesis by (simp add: spares_refl)
  qed (use Cons.prems in \<open>simp add: item\<close>)
qed (simp add: spares_refl)

lemma spares_insert_rows:
  "insert_rows other items db events = (db', events') \<Longrightarrow> other \<noteq> run \<Longrightarrow> spares run db db'"
proof (induction items arbitrary: db events)
  case (Cons item items)
  obtain ts kind where item: "item = (ts, kind)" by (cases item)
  have "spares run db (insert_event (new_row other ts kind db) db)"
    by (rule spares_insert) (use Cons.prems(2) in \<open>simp add: new_row_def\<close>)
  with Cons.IH Cons.prems show ?case by (auto simp: item Let_def intro: spares_trans)
qed (simp add: spares_refl)

lemma spares_forget_all: "spares run db (fold forget_finished events db)"
proof (induction events arbitrary: db)
  case (Cons ev events)
  have "spares run db (forget_finished ev db)"
    by (simp add: forget_finished_def spares_forget spares_refl split: option.split)
  with Cons.IH show ?case by (auto intro: spares_trans)
qed (simp add: spares_refl)

lemma spares_append_batch:
  assumes "left (append_batch en items (st, db)) = Some (st', db')" and other: "st_run_id st \<noteq> run"
  shows "spares run db db'"
proof (cases "append_batch en items (st, db)")
  case (Ok s)
  with assms(1) have Ok: "append_batch en items (st, db) = Ok (st', db')" by simp
  then show ?thesis
  proof (cases rule: append_batchE)
    case streamed
    then show ?thesis by (rule spares_append_logs [OF _ other])
  next
    case single
    then show ?thesis using spares_append_each [of en items st db st' db'] other by simp
  next
    case (batch db1 events)
    have id: "st_run_id st' \<noteq> run" using keeps_append_batch [OF Ok] other by simp
    have "spares run db (fold forget_finished events db1)"
      by (rule spares_trans [OF spares_insert_rows [OF batch(1) other] spares_forget_all])
    then show ?thesis unfolding batch(5)
      by (auto intro!: spares_trans [OF _ spares_note [OF id]] intro: spares_trans [OF _ spares_checkpoint [OF id]])
  qed
next
  case (Error e s)
  with assms(1) have s: "s = (st', db')" by simp
  from Error consider "append_logs en (map snd items) (st, db) = Error e s"
    | "append_each en items (st, db) = Error e s" | "s = (st, db)"
    by (auto simp: append_batch_def Let_def split: if_splits option.splits prod.splits)
  then show ?thesis
  proof cases
    case 1
    from append_logs_error [OF this] show ?thesis by (simp add: s spares_refl)
  next
    case 2
    then show ?thesis using spares_append_each [of en items st db st' db'] other by (simp add: s)
  qed (simp add: s spares_refl)
qed (use assms in simp)

lemma spares_perform:
  assumes "left (perform en c (st, db)) = Some (st', db')" and "st_run_id st \<noteq> run"
  shows "spares run db db'"
proof (cases c)
  case (Single r ts kind)
  with assms show ?thesis
    by (auto simp: left_Some dest: spares_append_event append_event_error intro: spares_refl)
next
  case (Batch r items)
  with assms show ?thesis by (auto intro: spares_append_batch)
qed

text \<open>Every write to a deleted run is refused and leaves everything as it is.\<close>

lemma refused:
  assumes "run_was_deleted (st_run_id st) db" and "c \<noteq> Batch (call_run c) []"
  shows "perform en c (st, db) = Error deleted_message (st, db)"
proof -
  have one: "append_event en ts kind (st, db) = Error deleted_message (st, db)" for ts kind
    using assms(1) by (cases kind) (simp_all add: append_event_def append_logs_def)
  show ?thesis
  proof (cases c)
    case (Batch r items)
    with assms(2) obtain ts kind rest where "items = (ts, kind) # rest" by (cases items) auto
    then show ?thesis using assms(1) one Batch by (auto simp: append_batch_def append_logs_def)
  qed (simp add: one)
qed

section \<open>Deletion\<close>

lemma push_new_in [simp]: "x \<in> set (push_new y xs) \<longleftrightarrow> x = y \<or> x \<in> set xs"
  by (auto simp: push_new_def)

lemmas delete_defs = delete_run_def enqueue_cleanup_def

lemma gone_delete_run: "gone run db \<or> fst entry = run \<Longrightarrow> gone run (delete_run entry db)"
  by (cases entry) (auto simp: gone_def delete_defs run_was_deleted_def contains_run_def without_def Let_def btree_simps
      split: option.splits)

lemma gone_deleted: "gone run db \<or> run \<in> fst ` set doomed \<Longrightarrow> gone run (fold delete_run doomed db)"
proof (induction doomed arbitrary: db)
  case (Cons entry doomed)
  then show ?case using gone_delete_run [of run db entry] by auto
qed simp

lemma delete_run_others:
  assumes "r \<noteq> fst entry"
  shows "log_of r (delete_run entry db) = log_of r db"
    and "bt_get (so_checkpoints (delete_run entry db)) r = bt_get (so_checkpoints db) r"
    and "filter (\<lambda>x. lg_run x = r) (so_logs (delete_run entry db)) = filter (\<lambda>x. lg_run x = r) (so_logs db)"
proof -
  obtain run cleanup where entry: "entry = (run, cleanup)" by (cases entry)
  have keep: "filter (\<lambda>x. f x \<noteq> run \<and> f x = r) xs = filter (\<lambda>x. f x = r) xs" for f :: "'b \<Rightarrow> string" and xs
    using assms by (intro filter_cong) (auto simp: entry)
  show "log_of r (delete_run entry db) = log_of r db"
    by (simp add: log_of_def delete_defs entry Let_def keep split: option.split)
  show "bt_get (so_checkpoints (delete_run entry db)) r = bt_get (so_checkpoints db) r"
    using assms by (simp add: delete_defs entry Let_def btree_simps split: option.split)
  show "filter (\<lambda>x. lg_run x = r) (so_logs (delete_run entry db)) = filter (\<lambda>x. lg_run x = r) (so_logs db)"
    by (simp add: delete_defs entry Let_def keep split: option.split)
qed

lemma deleted_others:
  "r \<notin> fst ` set doomed \<Longrightarrow> log_of r (fold delete_run doomed db) = log_of r db
    \<and> bt_get (so_checkpoints (fold delete_run doomed db)) r = bt_get (so_checkpoints db) r
    \<and> filter (\<lambda>x. lg_run x = r) (so_logs (fold delete_run doomed db)) = filter (\<lambda>x. lg_run x = r) (so_logs db)"
  by (induction doomed arbitrary: db) (simp_all add: delete_run_others)

lemma gone_offsets: "gone run (db\<lparr>so_offsets := x\<rparr>) = gone run db"
  by (simp add: gone_def run_was_deleted_def contains_run_def)

text \<open>Deletion removes the selected runs and nothing else: every other run keeps its events, its
  checkpoint and its transcripts.\<close>

theorem deletion_precise:
  assumes "r \<notin> fst ` set doomed"
  shows "log_of r (delete_runs doomed db) = log_of r db
    \<and> bt_get (so_checkpoints (delete_runs doomed db)) r = bt_get (so_checkpoints db) r
    \<and> filter (\<lambda>x. lg_run x = r) (so_logs (delete_runs doomed db)) = filter (\<lambda>x. lg_run x = r) (so_logs db)"
  using deleted_others [OF assms, of db] by (simp add: delete_runs_def)

lemma serve_gone:
  "gone run db \<Longrightarrow> \<forall>r. st_run_id (live r) = r \<Longrightarrow> serve en cs (live, db) = Some (live', db') \<Longrightarrow>
   gone run db' \<and> live' run = live run \<and> (\<forall>r. st_run_id (live' r) = r)"
proof (induction cs arbitrary: live db)
  case (Cons c cs)
  let ?r = "call_run c"
  from Cons.prems(3) obtain st db1 where st: "left (perform en c (live ?r, db)) = Some (st, db1)"
    "serve en cs (live(?r := st), db1) = Some (live', db')"
    by (auto split: option.splits)
  have ids: "\<forall>r. st_run_id ((live(?r := st)) r) = r" using perform_keeps [OF st(1)] Cons.prems(2) by simp
  have "gone run db1 \<and> (?r = run \<longrightarrow> st = live run)"
  proof (cases "?r = run")
    case True
    have "(st, db1) = (live run, db)"
    proof (cases "c = Batch run []")
      case True
      with st(1) show ?thesis by (simp add: append_batch_def append_logs_def)
    next
      case False
      then have "perform en c (live run, db) = Error deleted_message (live run, db)"
        using Cons.prems(1,2) True by (intro refused) (auto simp: gone_def)
      with st(1) True show ?thesis by simp
    qed
    with Cons.prems(1) show ?thesis by simp
  next
    case False
    with spares_perform [OF st(1)] Cons.prems(1,2) show ?thesis by (simp add: spares_def)
  qed
  with Cons.IH [OF _ ids st(2)] show ?case by auto
qed simp

text \<open>C14: deletion is final.  Whatever calls of whatever runs follow, stale writers of the deleted run
  included, no event, checkpoint or transcript row of it exists afterwards, its live state does not move,
  every write to it is refused without effect, and loading it fails.\<close>

theorem deletion_final:
  assumes "run \<in> fst ` set doomed" and "\<forall>r. st_run_id (live r) = r"
    and "serve en cs (live, delete_runs doomed db) = Some (live', db')"
  shows "log_of run db' = [] \<and> bt_get (so_checkpoints db') run = None \<and> (\<forall>row \<in> set (so_logs db'). lg_run row \<noteq> run)
    \<and> live' run = live run
    \<and> (\<forall>ts kind. append_event en ts kind (live' run, db') = Error deleted_message (live' run, db'))
    \<and> load_run en oversize run db' = Some (Inl (''Run does not exist: '' @ run))"
proof -
  have "gone run (delete_runs doomed db)"
    using gone_deleted [of run db doomed] assms(1) by (simp add: delete_runs_def gone_offsets)
  from serve_gone [OF this assms(2,3)] have gone: "gone run db'" "live' run = live run" "st_run_id (live' run) = run" by blast+
  have "append_event en ts kind (live' run, db') = Error deleted_message (live' run, db')" for ts kind
    using refused [of "live' run" db' "Single run ts kind" en] gone by (simp add: gone_def)
  with gone show ?thesis
    by (auto simp: gone_def without_def contains_run_def log_of_def load_run_def filter_empty_conv)
qed

lemma sample_deleted:
  obtains live db where "serve sample_env [Single ''r'' 8 StopRequested, Single ''q'' 9 (Approved ''h0'')]
    (new_run, delete_runs [(''r'', None)] store_empty) = Some (live, db)"
proof -
  have "serve sample_env [Single ''r'' 8 StopRequested, Single ''q'' 9 (Approved ''h0'')]
    (new_run, delete_runs [(''r'', None)] store_empty) \<noteq> None" by code_simp
  with that show ?thesis by auto
qed

theorem deletion_precise_witness:
  "log_of ''q'' (delete_runs [(''r'', None)] store_empty) = log_of ''q'' store_empty"
  using deletion_precise [of "''q''" "[(''r'', None)]" store_empty] by simp

theorem deletion_final_witness:
  "\<exists>live db. serve sample_env [Single ''r'' 8 StopRequested, Single ''q'' 9 (Approved ''h0'')]
      (new_run, delete_runs [(''r'', None)] store_empty) = Some (live, db)
    \<and> log_of ''r'' db = [] \<and> live ''r'' = new_run ''r''"
proof -
  obtain live db where s: "serve sample_env [Single ''r'' 8 StopRequested, Single ''q'' 9 (Approved ''h0'')]
    (new_run, delete_runs [(''r'', None)] store_empty) = Some (live, db)" by (rule sample_deleted)
  from deletion_final [OF _ _ this] show ?thesis using s by auto
qed

end
