(* ===== verification/Slots.thy ===== *)
theory Slots
  imports Feedback
begin

text \<open>
  The physical directories of a run (\<open>backend/src/runtime.rs\<close>): which are reserved, which idle one a job
  may take over, and which directory, base commit and lineage a job gets.  The directories themselves
  are the record \<open>disk\<close>: what the file system, Git and the environment store answer during one pass.
\<close>

section \<open>The disk\<close>

text \<open>A session directory: a name that cannot be read counts as present.\<close>

datatype listing = Absent | Unreadable | Entries "string option list"

text \<open>
  \<open>dk_slots\<close> lists the run's directory: name, whether it is a directory, and the path shown for it;
  \<open>dk_slot\<close> is the path of a child of it; \<open>dk_ids\<close> the fresh execution and session ids of a node, and
  \<open>dk_now\<close> its start time.
\<close>

record disk =
  dk_is_dir :: "string \<Rightarrow> bool"
  dk_head :: "string \<Rightarrow> string option"
  dk_slots :: "(string \<times> bool \<times> string) list"
  dk_slot :: "string \<Rightarrow> string"
  dk_hash :: "string \<Rightarrow> string option"
  dk_sessions :: "string \<Rightarrow> listing"
  dk_ids :: "string \<Rightarrow> string \<times> string"
  dk_now :: "string \<Rightarrow> nat"
  dk_valid_result :: "composite_result \<Rightarrow> string option"
  dk_fixed_layout :: "string \<Rightarrow> string + bool"
  dk_select :: "string \<Rightarrow> (string \<times> composite_result) list \<Rightarrow> string \<Rightarrow> composite_result
     \<Rightarrow> composite_result option \<Rightarrow> string + composite_result"
  dk_record_selected :: "string \<Rightarrow> string \<Rightarrow> composite_result \<Rightarrow> string option"
  dk_canonical :: "string \<Rightarrow> string + string"

definition workspace_has_head :: "disk \<Rightarrow> string \<Rightarrow> string \<Rightarrow> bool" where
  "workspace_has_head d path head \<longleftrightarrow> dk_is_dir d path \<and> dk_head d path = Some head"

definition existing_workspace_paths :: "disk \<Rightarrow> string list" where
  "existing_workspace_paths d = map (\<lambda>(_, _, path). path) (filter (\<lambda>(name, dir, _).
     name \<notin> set [''.files'', ''.grapher-git'', ''.grapher-state''] \<and> \<not> starts_with name ''publication-'' \<and> dir)
     (dk_slots d))"

section \<open>Reserved directories\<close>

definition path_is_running :: "world \<Rightarrow> snapshot \<Rightarrow> string \<Rightarrow> bool" where
  "path_is_running w st path \<longleftrightarrow>
     (case st_result_execution st of
        Some e \<Rightarrow> rx_status e = ''running''
          \<and> (case cr_layout (rx_input e) of Some layout \<Rightarrow> wd_same_path w layout path | None \<Rightarrow> False)
      | None \<Rightarrow> False)
     \<or> (\<exists>e \<in> set (st_executions st @ st_mergers st). ex_status e = ''running'' \<and> wd_same_path w (ex_worktree e) path)"

text \<open>Evidence of a review: the directory of a queued verdict, or a source of another node's repair.\<close>

definition feedback_evidence :: "world \<Rightarrow> snapshot \<Rightarrow> string \<Rightarrow> string option \<Rightarrow> bool" where
  "feedback_evidence w st path owner \<longleftrightarrow>
     (\<exists>p \<in> set (st_pending_feedback st). \<exists>e \<in> set (st_executions st).
        ex_id e = pf_execution_id p \<and> wd_same_path w (ex_worktree e) path)
     \<or> (\<exists>(name, n) \<in> set (st_nodes st). Some name \<noteq> owner
        \<and> (case ns_feedback_workspace n of
             Some input \<Rightarrow> \<exists>source \<in> set (feedback_sources input). wd_same_path w (fs_worktree source) path
           | None \<Rightarrow> False))"

definition result_layout_is :: "world \<Rightarrow> composite_result option \<Rightarrow> string \<Rightarrow> bool" where
  "result_layout_is w r path = (case r of
     Some c \<Rightarrow> (case cr_layout c of Some layout \<Rightarrow> wd_same_path w layout path | None \<Rightarrow> False) | None \<Rightarrow> False)"

definition best_effort :: "config option \<Rightarrow> bool" where
  "best_effort c = (case Option.bind c cf_environment of Some environment \<Rightarrow> ec_best_effort environment | None \<Rightarrow> False)"

definition shared_handoff :: "world \<Rightarrow> snapshot \<Rightarrow> string \<Rightarrow> string option \<Rightarrow> bool" where
  "shared_handoff w st path owner = (case owner of
     None \<Rightarrow> False
   | Some name \<Rightarrow>
       (case bt_get (st_nodes st) name of Some n \<Rightarrow> ns_shared_workspace n | None \<Rightarrow> False)
       \<and> (case terminal_workspace_for w st name of Some e \<Rightarrow> wd_same_path w (ex_worktree e) path | None \<Rightarrow> False))"

definition is_terminal :: "graph \<Rightarrow> string \<Rightarrow> bool" where
  "is_terminal g name \<longleftrightarrow> \<not> (\<exists>e \<in> set (gr_edges g). \<not> eg_feedback e \<and> eg_from e = name)"

text \<open>The directory of a completed terminal result; a graph node without a state would be a panic.\<close>

definition terminal_result_at :: "world \<Rightarrow> snapshot \<Rightarrow> string \<Rightarrow> string option \<Rightarrow> bool" where
  "terminal_result_at w st path owner \<longleftrightarrow> (\<exists>n \<in> set (gr_nodes (st_graph st)). Some (nd_name n) \<noteq> owner
     \<and> is_terminal (st_graph st) (nd_name n)
     \<and> (case bt_get (st_nodes st) (nd_name n) of
          Some s \<Rightarrow> ns_status s = ''completed'' \<and> result_layout_is w (ns_result s) path | None \<Rightarrow> False))"

definition workspace_reserved :: "world \<Rightarrow> snapshot \<Rightarrow> string \<Rightarrow> string option \<Rightarrow> bool" where
  "workspace_reserved w st path owner \<longleftrightarrow>
     path_is_running w st path \<or> feedback_evidence w st path owner
     \<or> (has_environment st
        \<and> ((best_effort (st_config st) \<and> \<not> shared_handoff w st path owner \<and> terminal_result_at w st path owner)
           \<or> (\<exists>e \<in> set (st_executions st). ex_status e = ''failed'' \<and> Some (ex_node e) \<noteq> owner
                \<and> wd_same_path w (ex_worktree e) path \<and> node_is st [''failed''] (ex_node e))))"

definition idle_workspace_path :: "world \<Rightarrow> disk \<Rightarrow> snapshot \<Rightarrow> string option" where
  "idle_workspace_path w d st = find (\<lambda>path. \<not> workspace_reserved w st path None) (existing_workspace_paths d)"

section \<open>Ancestors\<close>

definition edge_sources :: "graph \<Rightarrow> string set" where
  "edge_sources g = eg_from ` set (gr_edges g)"

lemma parents_sources: "set (parents g name) \<subseteq> edge_sources g"
  by (auto simp: parents_def edge_sources_def)

text \<open>The stack of \<open>dependency_ancestors\<close>, its top first.\<close>

function ancestors_loop :: "graph \<Rightarrow> string list \<Rightarrow> string list \<Rightarrow> string list" where
  "ancestors_loop g [] found = found"
| "ancestors_loop g (current # pending) found =
     (if current \<in> set found then ancestors_loop g pending found
      else ancestors_loop g (rev (parents g current) @ pending) (bs_insert current found))"
  by pat_completeness auto
termination
proof (relation "measures [\<lambda>(g, pending, found). card ((set pending \<union> edge_sources g) - set found),
    \<lambda>(g, pending, found). length pending]", simp)
  fix g :: graph and current :: string and pending found :: "string list"
  have fin: "finite (edge_sources g)" by (simp add: edge_sources_def)
  show "((g, pending, found), (g, current # pending, found))
      \<in> measures [\<lambda>(g, pending, found). card ((set pending \<union> edge_sources g) - set found),
           \<lambda>(g, pending, found). length pending]" if "current \<in> set found"
    using that by (simp add: insert_Diff_if)
  have "set (rev (parents g current) @ pending) \<union> edge_sources g - set (bs_insert current found)
      \<subset> set (current # pending) \<union> edge_sources g - set found" if "current \<notin> set found"
    using that parents_sources [of g current] by auto
  then show "((g, rev (parents g current) @ pending, bs_insert current found), (g, current # pending, found))
      \<in> measures [\<lambda>(g, pending, found). card ((set pending \<union> edge_sources g) - set found),
           \<lambda>(g, pending, found). length pending]" if "current \<notin> set found"
    using that fin by (simp add: psubset_card_mono)
qed

definition dependency_ancestors :: "graph \<Rightarrow> string \<Rightarrow> string list" where
  "dependency_ancestors g name = ancestors_loop g [name] []"

end
