(* ===== verification/Dispatch.thy ===== *)
theory Dispatch
  imports Slots
begin

text \<open>
  How one ready node becomes a job (\<open>jobs_with_pending_feedback\<close> in \<open>backend/src/runtime.rs\<close>): which
  earlier attempt it resumes and how, which directory it works in, which text and images it is sent and
  which environment it starts from.  Everything here reads the state and the disk and decides; the
  events are emitted by the scheduler.
\<close>

section \<open>Resuming a session\<close>

text \<open>The first attempt of a session names its directory.\<close>

definition session_origin :: "snapshot \<Rightarrow> execution \<Rightarrow> execution" where
  "session_origin st previous =
     (case find (\<lambda>e. ex_node e = ex_node previous \<and> ex_session_id e = ex_session_id previous) (st_executions st) of
        Some e \<Rightarrow> e | None \<Rightarrow> previous)"

definition session_missing :: "disk \<Rightarrow> snapshot \<Rightarrow> execution \<Rightarrow> bool" where
  "session_missing d st previous =
     (case dk_sessions d (ex_id (session_origin st previous)) of
        Absent \<Rightarrow> True
      | Unreadable \<Rightarrow> False
      | Entries names \<Rightarrow> \<not> (\<exists>entry \<in> set names. case entry of
            Some name \<Rightarrow> ends_with name (CHR ''_'' # ex_session_id previous @ ''.jsonl'') | None \<Rightarrow> True))"

definition same_session :: "execution \<Rightarrow> execution \<Rightarrow> bool" where
  "same_session previous e \<longleftrightarrow> ex_node e = ex_node previous \<and> ex_session_id e = ex_session_id previous"

definition unlaunched :: "execution \<Rightarrow> bool" where
  "unlaunched e \<longleftrightarrow> ex_pid e = None \<and> ex_output_bytes e = 0"

definition no_unfinished_activity :: "snapshot \<Rightarrow> execution \<Rightarrow> bool" where
  "no_unfinished_activity st previous \<longleftrightarrow> list_all unlaunched (takeWhile (\<lambda>e. ex_status e \<noteq> ''completed'')
     (filter (same_session previous) (rev (st_executions st))))"

definition no_session_activity :: "snapshot \<Rightarrow> execution \<Rightarrow> bool" where
  "no_session_activity st previous \<longleftrightarrow> no_unfinished_activity st previous
     \<and> \<not> (\<exists>e \<in> set (st_executions st). same_session previous e \<and> ex_status e = ''completed'')"

definition has_completed_history :: "snapshot \<Rightarrow> execution \<Rightarrow> bool" where
  "has_completed_history st previous \<longleftrightarrow> (\<exists>e \<in> set (st_executions st). ex_node e = ex_node previous
     \<and> ex_status e = ''completed'' \<and> ex_id e \<notin> set (st_superseded_execution_ids st))"

definition resume_attempt :: "disk \<Rightarrow> snapshot \<Rightarrow> string \<Rightarrow> node_state \<Rightarrow> bool \<Rightarrow> string + execution option" where
  "resume_attempt d st name n continuation =
     (if continuation
      then Inr (find (\<lambda>e. ex_node e = name \<and> ex_status e = ''failed'' \<and> ex_completed_at e \<noteq> None
          \<and> ex_id e \<notin> set (st_superseded_execution_ids st)) (rev (st_executions st)))
      else if ns_human_instruction n
      then (case find (\<lambda>e. ex_node e = name \<and> ex_completed_at e \<noteq> None
              \<and> (case ns_edit_execution_id n of Some anchor \<Rightarrow> ex_id e = anchor | None \<Rightarrow> True)) (rev (st_executions st)) of
          None \<Rightarrow> Inl ''No previous node session to continue''
        | Some previous \<Rightarrow>
            (case ns_feedback_workspace n of
               Some input \<Rightarrow>
                 if session_missing d st previous
                 then map_result Some (ok_or (find (\<lambda>e. ex_id e = fw_target_execution_id input) (st_executions st))
                   ''Missing original target session'')
                 else Inr (Some previous)
             | None \<Rightarrow> Inr (Some previous)))
      else Inr None)"

text \<open>A preparation the user paused before anything was sent.\<close>

definition stopped_recovery :: "disk \<Rightarrow> snapshot \<Rightarrow> string \<Rightarrow> node_state \<Rightarrow> execution \<Rightarrow> bool" where
  "stopped_recovery d st name n previous \<longleftrightarrow>
     ex_id previous \<in> set (st_execution_stop_requests st) \<and> \<not> ns_human_instruction n
     \<and> (case ns_feedback_workspace n of Some input \<Rightarrow> fw_additional_sources input = [] | None \<Rightarrow> True)
     \<and> \<not> (\<exists>e \<in> set (st_executions st). ex_node e = name
            \<and> (ex_pid e \<noteq> None \<or> 0 < ex_output_bytes e \<or> ex_status e = ''completed''))
     \<and> session_missing d st previous"

text \<open>The completed session a follow-up that never started goes back to.\<close>

definition fallback_anchor :: "disk \<Rightarrow> snapshot \<Rightarrow> string \<Rightarrow> node_state \<Rightarrow> bool \<Rightarrow> execution option" where
  "fallback_anchor d st name n source_direct =
     (case (case ns_feedback_workspace n of
          Some input \<Rightarrow> find (\<lambda>e. ex_id e = fw_target_execution_id input) (st_executions st)
        | None \<Rightarrow>
            if source_direct
            then find (\<lambda>e. ex_node e = name \<and> ex_status e = ''completed''
                \<and> ex_id e \<notin> set (st_superseded_execution_ids st)) (rev (st_executions st))
            else None) of
        Some e \<Rightarrow> if ex_status e = ''completed'' \<and> ex_id e \<notin> set (st_superseded_execution_ids st)
            \<and> \<not> session_missing d st e then Some e else None
      | None \<Rightarrow> None)"

definition was_interrupted :: "snapshot \<Rightarrow> execution \<Rightarrow> bool" where
  "was_interrupted st previous \<longleftrightarrow> ex_id previous \<in> set (st_execution_stop_requests st)
     \<or> (\<exists>ev \<in> set (st_events st). case ev_kind ev of
          Failed _ (Some eid) error _ _ \<Rightarrow> eid = ex_id previous \<and> is_interrupted_error error | _ \<Rightarrow> False)"

text \<open>
  How a node is resumed: \<open>rs_from\<close> the attempt, \<open>rs_anchor\<close> the retained session instead of it,
  \<open>rs_unstarted\<close> a follow-up whose session exists but was never prompted, \<open>rs_unsent\<close> an attempt that
  failed before its session, \<open>rs_initial\<close> the task has to be sent again, \<open>rs_continuation\<close> the unfinished
  turn is continued without a prompt.
\<close>

record resumption =
  rs_from :: "execution option"
  rs_anchor :: "execution option"
  rs_unstarted :: bool
  rs_unsent :: bool
  rs_initial :: bool
  rs_continuation :: bool

definition resumption_of :: "disk \<Rightarrow> snapshot \<Rightarrow> string \<Rightarrow> node_state \<Rightarrow> bool \<Rightarrow> string + resumption" where
  "resumption_of d st name n source_direct =
     (let continuation = (ns_continuation n \<and> pending_prompt n = None)
      in map_result (\<lambda>resume.
        let some = (\<lambda>p. case resume of Some previous \<Rightarrow> p previous | None \<Rightarrow> False);
            never_ran = (\<lambda>previous. session_missing d st previous \<and> no_session_activity st previous);
            anchor = (if continuation \<and> some never_ran then fallback_anchor d st name n source_direct else None);
            unstarted = (continuation \<and> ns_human_instruction n \<and> ns_instruction n \<noteq> []
              \<and> some (\<lambda>previous. \<not> session_missing d st previous \<and> execution_is_preparation_only st previous
                   \<and> no_unfinished_activity st previous \<and> has_completed_history st previous));
            unsent = (ns_human_instruction n
              \<and> some (\<lambda>previous. ex_status previous = ''failed'' \<and> never_ran previous \<and> \<not> has_completed_history st previous));
            preparation = (has_environment st
              \<and> some (\<lambda>previous. execution_is_preparation_only st previous \<and> never_ran previous
                   \<and> \<not> has_completed_history st previous));
            missing_initial = (continuation
              \<and> some (\<lambda>previous. \<not> was_interrupted st previous \<and> never_ran previous \<and> \<not> has_completed_history st previous));
            initial = ((continuation \<and> some (stopped_recovery d st name n)) \<or> unsent \<or> preparation \<or> missing_initial)
        in \<lparr>rs_from = resume, rs_anchor = anchor, rs_unstarted = unstarted, rs_unsent = unsent, rs_initial = initial,
            rs_continuation = (continuation \<and> \<not> initial \<and> anchor = None \<and> \<not> unstarted)\<rparr>)
       (resume_attempt d st name n continuation))"

text \<open>The last prepared attempt of the resumed session, whose working tree is kept as it is.\<close>

definition preserved_workspace :: "world \<Rightarrow> snapshot \<Rightarrow> node_state \<Rightarrow> bool \<Rightarrow> execution option \<Rightarrow> execution option" where
  "preserved_workspace w st n source_direct resume = (case resume of
     None \<Rightarrow> None
   | Some previous \<Rightarrow>
       if ex_status previous = ''failed'' \<and> \<not> is_serial st \<and> \<not> source_direct \<and> ns_edit_execution_id n = None
          \<and> (case ns_feedback_workspace n of Some input \<Rightarrow> fw_additional_sources input \<noteq> [] | None \<Rightarrow> True)
       then find (\<lambda>e. list_ex (is_prepared_event (ex_id e)) (st_events st))
         (takeWhile (\<lambda>e. ex_status e = ''failed'') (filter (\<lambda>e. same_session previous e
              \<and> wd_same_path w (ex_worktree e) (ex_worktree previous)
              \<and> ex_id e \<notin> set (st_superseded_execution_ids st)) (rev (st_executions st))))
       else None)"

section \<open>Choosing a directory\<close>

record slot =
  sl_worktree :: string
  sl_before :: string
  sl_inherit :: bool
  sl_lineage :: "string list"

definition node_head :: "snapshot \<Rightarrow> string \<Rightarrow> string option" where
  "node_head st name = Option.bind (bt_get (st_nodes st) name) ns_head"

definition or_else :: "'a option \<Rightarrow> 'a option \<Rightarrow> 'a option" where
  "or_else x y = (case x of Some z \<Rightarrow> Some z | None \<Rightarrow> y)"

definition unwrap_or :: "'a option \<Rightarrow> 'a \<Rightarrow> 'a" where
  "unwrap_or x y = (case x of Some z \<Rightarrow> z | None \<Rightarrow> y)"

definition fresh_path :: "disk \<Rightarrow> string \<Rightarrow> string" where
  "fresh_path d name = dk_slot d (node_id (dk_hash d) name @ CHR ''-'' # fst (dk_ids d name))"

text \<open>Several reviewers are composed in a slot of the target; one is repaired where it worked.\<close>

definition feedback_slot :: "disk \<Rightarrow> snapshot \<Rightarrow> string \<Rightarrow> feedback_workspace \<Rightarrow> execution option \<Rightarrow> string \<Rightarrow> slot" where
  "feedback_slot d st name input preserved before =
     \<lparr>sl_worktree =
        (if fw_additional_sources input = [] then fw_worktree input
         else case preserved of
             Some previous \<Rightarrow> if ex_status previous = ''failed'' \<and> dk_is_dir d (ex_worktree previous)
               then ex_worktree previous else fresh_path d name
           | None \<Rightarrow> fresh_path d name),
      sl_before = before, sl_inherit = False,
      sl_lineage = concat (List.map_filter (\<lambda>source. map_option ex_workspace_lineage
         (find (\<lambda>e. ex_id e = fs_source_execution_id source) (st_executions st))) (feedback_sources input))\<rparr>"

text \<open>A directory of an earlier execution, unless it is busy or gone.\<close>

definition retained_slot :: "world \<Rightarrow> disk \<Rightarrow> snapshot \<Rightarrow> string \<Rightarrow> execution \<Rightarrow> string \<Rightarrow> slot" where
  "retained_slot w d st name e before =
     (let path = ex_worktree e;
          idle = idle_workspace_path w d st;
          (worktree, inherit) =
            (if \<not> workspace_reserved w st path (Some name)
             then if dk_is_dir d path then (path, workspace_has_head d path before) else (unwrap_or idle path, False)
             else (unwrap_or idle (fresh_path d name), False))
      in \<lparr>sl_worktree = worktree, sl_before = before, sl_inherit = inherit, sl_lineage = ex_workspace_lineage e\<rparr>)"

definition parent_lineage :: "snapshot \<Rightarrow> string \<Rightarrow> execution list \<Rightarrow> execution \<Rightarrow> string list" where
  "parent_lineage st name es parent =
     (if 1 < length es then dependency_ancestors (st_graph st) name
      else ex_workspace_lineage parent @ [ex_node parent])"

definition handoff_slot :: "world \<Rightarrow> disk \<Rightarrow> snapshot \<Rightarrow> string \<Rightarrow> string \<Rightarrow> string \<Rightarrow> slot" where
  "handoff_slot w d st name source_head before =
     (let names = parents (st_graph st) name;
          es = List.map_filter (latest_node_execution st) names;
          idle = idle_workspace_path w d st;
          free = (\<lambda>e. has_single_consumer (st_graph st) (ex_node e) \<and> \<not> workspace_reserved w st (ex_worktree e) (Some name));
          inherited = find (\<lambda>e. free e \<and> dk_is_dir d (ex_worktree e)) es
      in case or_else inherited (find free es) of
           Some parent \<Rightarrow>
             let path = (if inherited \<noteq> None then ex_worktree parent
                   else if length es = 1 \<and> \<not> has_single_consumer (st_graph st) (ex_node parent) then fresh_path d name
                   else unwrap_or idle (ex_worktree parent));
                 parent_head = unwrap_or (or_else (node_head st (ex_node parent)) (ex_after parent)) source_head
             in \<lparr>sl_worktree = path, sl_before = before,
                 sl_inherit = (length names = 1 \<and> workspace_has_head d path parent_head),
                 sl_lineage = parent_lineage st name es parent\<rparr>
         | None \<Rightarrow>
             \<lparr>sl_worktree = unwrap_or idle (fresh_path d name), sl_before = before, sl_inherit = False,
              sl_lineage = (case es of
                  [] \<Rightarrow> []
                | parent # _ \<Rightarrow>
                    if 1 < length es \<or> has_single_consumer (st_graph st) (ex_node parent)
                    then parent_lineage st name es parent else [])\<rparr>)"

text \<open>\<open>sl_lineage\<close> gets the node itself; as a \<open>BTreeSet\<close> it is sorted without duplicates.\<close>

definition choose_slot ::
  "world \<Rightarrow> disk \<Rightarrow> snapshot \<Rightarrow> string \<Rightarrow> string \<Rightarrow> node_state \<Rightarrow> bool \<Rightarrow> string \<Rightarrow> execution option \<Rightarrow> execution option \<Rightarrow> slot" where
  "choose_slot w d st repository name n source_direct source_head resume preserved =
     (let before = (if is_serial st \<or> source_direct then [] else unwrap_or (ns_head n) source_head);
          before = (case preserved of Some previous \<Rightarrow> ex_before previous | None \<Rightarrow> before);
          slot = (case ns_feedback_workspace n of
             Some input \<Rightarrow> feedback_slot d st name input preserved before
           | None \<Rightarrow>
               if is_serial st \<or> source_direct
               then \<lparr>sl_worktree = repository, sl_before = before, sl_inherit = False, sl_lineage = []\<rparr>
               else case (if ns_shared_workspace n then terminal_workspace_for w st name else None) of
                 Some terminal \<Rightarrow> retained_slot w d st name terminal
                   (unwrap_or (or_else (node_head st (ex_node terminal)) (ex_after terminal)) source_head)
               | None \<Rightarrow> (case resume of
                   Some previous \<Rightarrow> retained_slot w d st name previous before
                 | None \<Rightarrow> handoff_slot w d st name source_head before))
      in slot\<lparr>sl_lineage := bs_insert name (bs_of_list (sl_lineage slot))\<rparr>)"

text \<open>Where files outside the recorded commit are copied from when the directory does not exist.\<close>

definition copy_source ::
  "world \<Rightarrow> disk \<Rightarrow> snapshot \<Rightarrow> string \<Rightarrow> string \<Rightarrow> node_state \<Rightarrow> execution option \<Rightarrow> string \<Rightarrow> string option" where
  "copy_source w d st repository name n resume worktree =
     (let names = parents (st_graph st) name;
          busy = (\<lambda>e. workspace_reserved w st (ex_worktree e) (Some name));
          usable = (\<lambda>e. \<not> busy e \<and> dk_is_dir d (ex_worktree e));
          keep = (\<lambda>x. case x of Some e \<Rightarrow> if usable e then Some (ex_worktree e) else None | None \<Rightarrow> None)
      in if is_serial st \<or> dk_is_dir d worktree then None
         else if ns_feedback_workspace n \<noteq> None then None
         else if names = [] then Some repository
         else or_else (keep (if ns_shared_workspace n then terminal_workspace_for w st name else None))
           (or_else (keep resume)
             (map_option ex_worktree (find (\<lambda>e.
                (\<not> busy e \<or> (length names = 1 \<and> \<not> has_single_consumer (st_graph st) (ex_node e)))
                \<and> dk_is_dir d (ex_worktree e)) (List.map_filter (latest_node_execution st) names)))))"

text \<open>A running execution already works in the chosen directory: the node waits.\<close>

definition slot_taken :: "world \<Rightarrow> snapshot \<Rightarrow> string \<Rightarrow> bool" where
  "slot_taken w st worktree \<longleftrightarrow>
     (\<exists>e \<in> set (st_executions st). ex_status e = ''running'' \<and> wd_same_path w (ex_worktree e) worktree)"

section \<open>The session and the attempt\<close>

definition origin_id :: "snapshot \<Rightarrow> string \<Rightarrow> execution \<Rightarrow> string" where
  "origin_id st name previous =
     (case find (\<lambda>e. ex_node e = name \<and> ex_session_id e = ex_session_id previous) (st_executions st) of
        Some e \<Rightarrow> ex_id e | None \<Rightarrow> ex_id previous)"

text \<open>The session to fork when the work moves to another directory; otherwise the session is resumed.\<close>

definition session_fork ::
  "snapshot \<Rightarrow> string \<Rightarrow> node_state \<Rightarrow> resumption \<Rightarrow> execution option \<Rightarrow> string \<Rightarrow> execution option" where
  "session_fork st name n r preserved worktree =
     (case or_else (rs_anchor r) (rs_from r) of
        None \<Rightarrow> None
      | Some previous \<Rightarrow>
          if rs_anchor r \<noteq> None
             \<or> (\<not> rs_initial r
                \<and> (ex_worktree previous \<noteq> worktree
                   \<or> (case ns_feedback_workspace n of
                        Some input \<Rightarrow> fw_additional_sources input = [] \<or> preserved = None | None \<Rightarrow> False)))
          then Some (previous\<lparr>ex_id := origin_id st name previous\<rparr>) else None)"

definition resumed_session :: "snapshot \<Rightarrow> string \<Rightarrow> resumption \<Rightarrow> execution option \<Rightarrow> string option" where
  "resumed_session st name r fork =
     (if fork = None then map_option (origin_id st name) (rs_from r) else None)"

definition node_settings :: "snapshot \<Rightarrow> node_state \<Rightarrow> nat \<Rightarrow> role_model_config option" where
  "node_settings st n attempt = or_else (ns_model_config n)
     (if attempt = 1 then map_option run_agent_settings (st_model_config st)
      else map_option config_agent_settings (st_config st))"

definition planned_metrics :: "role_model_config \<Rightarrow> execution_metrics" where
  "planned_metrics settings = execution_metrics_default
     \<lparr>em_model := Some (ro_model settings), em_thinking_level := ro_thinking_level settings\<rparr>"

definition new_execution ::
  "disk \<Rightarrow> snapshot \<Rightarrow> string \<Rightarrow> node_state \<Rightarrow> resumption \<Rightarrow> execution option \<Rightarrow> slot \<Rightarrow> execution" where
  "new_execution d st name n r fork slot =
     (let attempt = length (filter (\<lambda>e. ex_node e = name) (st_executions st)) + 1
      in \<lparr>ex_id = fst (dk_ids d name), ex_node = name, ex_revision = ns_revision n, ex_attempt = attempt,
          ex_session_id = (case (rs_from r, fork) of
              (Some previous, None) \<Rightarrow> ex_session_id previous | _ \<Rightarrow> snd (dk_ids d name)),
          ex_worktree = sl_worktree slot, ex_before = sl_before slot, ex_workspace_lineage = sl_lineage slot,
          ex_after = None, ex_input = None, ex_result = None, ex_status = ''running'', ex_output = [],
          ex_output_bytes = 0, ex_pid = None, ex_started_at = dk_now d name, ex_completed_at = None,
          ex_metrics = map_option planned_metrics (node_settings st n attempt)\<rparr>)"

section \<open>What the session is sent\<close>

definition edited_opening_turn :: "snapshot \<Rightarrow> node_state \<Rightarrow> bool" where
  "edited_opening_turn st n =
     (case Option.bind (ns_edit_execution_id n) (\<lambda>eid. find (\<lambda>e. ex_id e = eid) (st_executions st)) of
        None \<Rightarrow> False
      | Some anchor \<Rightarrow> (case find (same_session anchor) (st_executions st) of
          Some first \<Rightarrow> ex_id first = ex_id anchor | None \<Rightarrow> False))"

text \<open>An instruction that is not itself one of the pending messages.\<close>

definition own_instruction :: "node_state \<Rightarrow> bool" where
  "own_instruction n \<longleftrightarrow> ns_instruction n \<noteq> []
     \<and> \<not> (\<exists>m \<in> set (ns_pending_messages n). pm_instruction m = ns_instruction n)"

definition with_instruction :: "node_state \<Rightarrow> string \<Rightarrow> string" where
  "with_instruction n prompt =
     (if own_instruction n then ns_instruction n @ [CHR 0x0A, CHR 0x0A] @ prompt else prompt)"

definition task_text :: "snapshot \<Rightarrow> node \<Rightarrow> node_state \<Rightarrow> resumption \<Rightarrow> string" where
  "task_text st node n r =
     (if rs_anchor r \<noteq> None \<or> rs_unstarted r then ns_instruction n
      else if rs_unsent r
      then (let followup = (case pending_prompt n of
                  Some (prompt, _) \<Rightarrow> with_instruction n prompt | None \<Rightarrow> ns_instruction n)
            in if followup = [] then nd_task node
               else if edited_opening_turn st n then followup
               else nd_task node @ CHR 0x0A # followup)
      else case pending_prompt n of
        Some (prompt, _) \<Rightarrow>
          if rs_from r = None then nd_task node @ [CHR 0x0A, CHR 0x0A] @ prompt
          else with_instruction n prompt
      | None \<Rightarrow>
          if rs_continuation r then []
          else if ns_instruction n = [] then nd_task node
          else if ns_human_instruction n then ns_instruction n
          else nd_task node @ CHR 0x0A # ns_instruction n)"

definition attachment_instructions :: "snapshot \<Rightarrow> string \<Rightarrow> resumption \<Rightarrow> string \<Rightarrow> string \<Rightarrow> string" where
  "attachment_instructions st name r session task =
     (if rs_continuation r \<or> rs_initial r then recovery_attachment_instructions st name session task else task)"

definition task_images :: "node_state \<Rightarrow> image_attachment list option" where
  "task_images n = (case pending_prompt n of Some (_, images) \<Rightarrow> images | None \<Rightarrow> ns_instruction_images n)"

section \<open>The environment a job starts from\<close>

text \<open>The result last left in the directory.\<close>

definition environment_previous :: "world \<Rightarrow> snapshot \<Rightarrow> string \<Rightarrow> composite_result option" where
  "environment_previous w st worktree =
     (case find (\<lambda>e. ex_status e = ''completed'' \<and> result_layout_is w (ex_result e) worktree) (rev (st_executions st)) of
        None \<Rightarrow> None
      | Some previous \<Rightarrow>
          (case Option.bind (bt_get (st_nodes st) (ex_node previous)) ns_result of
             Some result \<Rightarrow> if result_layout_is w (Some result) worktree then Some result else ex_result previous
           | None \<Rightarrow> ex_result previous))"

definition keeps_failed_environment :: "world \<Rightarrow> disk \<Rightarrow> node_state \<Rightarrow> execution option \<Rightarrow> string \<Rightarrow> bool" where
  "keeps_failed_environment w d n resume worktree \<longleftrightarrow> ns_edit_execution_id n = None
     \<and> (case resume of
          Some previous \<Rightarrow> ex_status previous = ''failed'' \<and> wd_same_path w (ex_worktree previous) worktree
            \<and> dk_is_dir d worktree
        | None \<Rightarrow> False)"

definition lost_failed_view :: "world \<Rightarrow> disk \<Rightarrow> node_state \<Rightarrow> execution option \<Rightarrow> string \<Rightarrow> bool" where
  "lost_failed_view w d n resume worktree \<longleftrightarrow> ns_edit_execution_id n = None \<and> ns_feedback_workspace n = None
     \<and> (case resume of
          Some previous \<Rightarrow> ex_status previous = ''failed''
            \<and> (\<not> wd_same_path w (ex_worktree previous) worktree \<or> \<not> dk_is_dir d (ex_worktree previous))
        | None \<Rightarrow> False)"

definition node_result :: "snapshot \<Rightarrow> string \<Rightarrow> composite_result option" where
  "node_result st name = Option.bind (bt_get (st_nodes st) name) ns_result"

fun collect_results :: "(string \<Rightarrow> composite_result option) \<Rightarrow> string list \<Rightarrow> string + (string \<times> composite_result) list" where
  "collect_results f [] = Inr []"
| "collect_results f (name # names) = (case f name of
     None \<Rightarrow> Inl ''Parent composite result is missing''
   | Some r \<Rightarrow> map_result (\<lambda>rs. (name, r) # rs) (collect_results f names))"

text \<open>The results composed for a node with parents, and the selection itself.\<close>

definition select_parents ::
  "world \<Rightarrow> disk \<Rightarrow> snapshot \<Rightarrow> string \<Rightarrow> string \<Rightarrow> string + composite_result list \<times> composite_result" where
  "select_parents w d st name worktree =
     (case collect_results (node_result st) (parents (st_graph st) name) of
        Inl e \<Rightarrow> Inl e
      | Inr inputs \<Rightarrow> (case st_environment_baseline st of
          None \<Rightarrow> Inl ''Environment baseline is missing''
        | Some baseline \<Rightarrow> map_result (\<lambda>selected. (map snd inputs, selected))
            (dk_select d name inputs worktree baseline (environment_previous w st worktree))))"

definition select_input ::
  "world \<Rightarrow> disk \<Rightarrow> snapshot \<Rightarrow> string \<Rightarrow> node_state \<Rightarrow> execution option \<Rightarrow> string
     \<Rightarrow> string + composite_result list \<times> composite_result" where
  "select_input w d st name n resume worktree =
     (let alone = map_result (\<lambda>r. ([], r)) in
      case ns_feedback_workspace n of
        Some input \<Rightarrow> alone (wd_record w st (fw_source_execution_id input) ''after'')
      | None \<Rightarrow>
          if ns_edit_execution_id n \<noteq> None
          then alone (ok_or (Option.bind resume ex_input) ''Historical environment input is unavailable'')
          else case (if ns_shared_workspace n then terminal_workspace_for w st name else None) of
            Some terminal \<Rightarrow> alone (ok_or (node_result st (ex_node terminal)) ''Current terminal composite result is missing'')
          | None \<Rightarrow> (case resume of
              Some previous \<Rightarrow>
                if keeps_failed_environment w d n resume worktree
                then alone (case ex_input previous of
                    Some input \<Rightarrow> Inr input | None \<Rightarrow> wd_record w st (ex_id previous) ''selected'')
                else alone (ok_or (or_else (ns_result n) (or_else (ex_result previous) (ex_input previous)))
                  ''Continuation environment input is missing'')
            | None \<Rightarrow>
                if parents (st_graph st) name \<noteq> [] then select_parents w d st name worktree
                else alone (ok_or (st_environment_baseline st) ''Environment was not explicitly initialized at approval'')))"

definition layout_moves :: "disk \<Rightarrow> composite_result \<Rightarrow> string \<Rightarrow> string + bool" where
  "layout_moves d selected worktree = map_result (\<lambda>fixed. fixed
     \<and> (case cr_layout selected of Some path \<Rightarrow> path \<noteq> worktree | None \<Rightarrow> False)) (dk_fixed_layout d (cr_launch_ref selected))"

text \<open>A best-effort environment with a fixed layout elsewhere is selected again for this directory.\<close>

definition relocate_input ::
  "world \<Rightarrow> disk \<Rightarrow> snapshot \<Rightarrow> string \<Rightarrow> node_state \<Rightarrow> execution option \<Rightarrow> string
     \<Rightarrow> composite_result list \<times> composite_result \<Rightarrow> string + composite_result list \<times> composite_result" where
  "relocate_input w d st name n resume worktree s =
     (if best_effort (effective_config st) \<and> \<not> keeps_failed_environment w d n resume worktree
         \<and> ns_edit_execution_id n = None
         \<and> (case ns_feedback_workspace n of Some input \<Rightarrow> fw_additional_sources input \<noteq> [] | None \<Rightarrow> True)
      then (case layout_moves d (snd s) worktree of
          Inl e \<Rightarrow> Inl e
        | Inr False \<Rightarrow> Inr s
        | Inr True \<Rightarrow> (case st_environment_baseline st of
            None \<Rightarrow> Inl ''Environment baseline is missing''
          | Some baseline \<Rightarrow> map_result (\<lambda>selected. (fst s @ [snd s], selected))
              (dk_select d name [(name, snd s)] worktree baseline (environment_previous w st worktree))))
      else Inr s)"

text \<open>The environment of a job with the results it draws on; \<open>Inl\<close> blocks the node.\<close>

definition select_environment ::
  "world \<Rightarrow> disk \<Rightarrow> snapshot \<Rightarrow> string \<Rightarrow> node_state \<Rightarrow> execution option \<Rightarrow> execution
     \<Rightarrow> string + composite_result list \<times> composite_result" where
  "select_environment w d st name n resume e =
     (let worktree = ex_worktree e in
      if lost_failed_view w d n resume worktree
      then Inl ''Failed partial environment view is missing or cannot be reused; refusing to silently restore old input''
      else case select_input w d st name n resume worktree of
        Inl err \<Rightarrow> Inl err
      | Inr s \<Rightarrow>
          if case st_environment_baseline st of None \<Rightarrow> True | Some baseline \<Rightarrow> cr_domain baseline \<noteq> cr_domain (snd s)
          then Inl ''Selected composite input differs from the frozen native domain''
          else case dk_valid_result d (snd s) of
            Some err \<Rightarrow> Inl err
          | None \<Rightarrow> (case relocate_input w d st name n resume worktree s of
              Inl err \<Rightarrow> Inl err
            | Inr s \<Rightarrow> (case layout_moves d (snd s) worktree of
                Inl err \<Rightarrow> Inl err
              | Inr True \<Rightarrow> Inl ''Workspace composition blocked: fixed environment cannot move to another physical slot; no silent path repair/serialization''
              | Inr False \<Rightarrow> (case dk_record_selected d (ex_id e) (ex_before e) (snd s) of
                  Some err \<Rightarrow> Inl err | None \<Rightarrow> Inr s))))"

text \<open>A best-effort slot keeps the evidence of the results left in it.\<close>

definition results_in_slot :: "world \<Rightarrow> snapshot \<Rightarrow> string \<Rightarrow> composite_result list" where
  "results_in_slot w st worktree =
     filter (\<lambda>r. result_layout_is w (Some r) worktree) (List.map_filter ns_result (bt_values (st_nodes st)))"

fun keep_first :: "('a \<Rightarrow> 'b) \<Rightarrow> 'b list \<Rightarrow> 'a list \<Rightarrow> 'a list" where
  "keep_first key seen [] = []"
| "keep_first key seen (x # xs) =
     (if key x \<in> set seen then keep_first key seen xs else x # keep_first key (key x # seen) xs)"

definition evidence_key :: "composite_result \<Rightarrow> string \<times> string" where
  "evidence_key r = (cr_environment_ref r, cr_launch_ref r)"

definition previous_launch :: "world \<Rightarrow> snapshot \<Rightarrow> execution \<Rightarrow> bool \<Rightarrow> string option" where
  "previous_launch w st e history_edit =
     (if history_edit
      then (case node_result st (ex_node e) of
          Some r \<Rightarrow> if result_layout_is w (Some r) (ex_worktree e) then Some (cr_launch_ref r) else None | None \<Rightarrow> None)
      else None)"

definition repair_retry :: "world \<Rightarrow> snapshot \<Rightarrow> string \<Rightarrow> feedback_workspace option \<Rightarrow> bool" where
  "repair_retry w st name input = (case input of
     None \<Rightarrow> False
   | Some input \<Rightarrow> fw_additional_sources input = []
       \<and> (\<exists>e \<in> set (st_executions st). ex_node e = name \<and> ex_status e = ''failed''
            \<and> wd_same_path w (ex_worktree e) (fw_worktree input)))"

section \<open>Jobs\<close>

record job =
  jb_execution :: execution
  jb_run_id :: string
  jb_parent_heads :: "string list"
  jb_config :: config
  jb_task :: string
  jb_attachment_instructions :: string
  jb_images :: "image_attachment list option"
  jb_resume_execution_id :: "string option"
  jb_session_fork :: "execution option"
  jb_feedback_workspace :: "feedback_workspace option"
  jb_feedback_repair_retry :: bool
  jb_inherit_workspace :: bool
  jb_preserved_workspace :: "execution option"
  jb_copy_from_workspace :: "string option"
  jb_history_edit :: bool
  jb_feedback_source :: bool
  jb_materialize_source :: bool
  jb_source_direct :: bool
  jb_expected_source_head :: string
  jb_environment_input :: "composite_result option"
  jb_environment_sources :: "composite_result list"
  jb_environment_previous :: "composite_result option"
  jb_previous_environment_launch :: "string option"
  jb_preserve_failed_environment :: bool
  jb_continuation :: bool
  jb_initial_recovery :: bool

end
