(* ===== verification/Runtime_Laws.thy ===== *)
theory Runtime_Laws
  imports Feedback Store_Correct
begin

text \<open>
  Every command of the runtime changes a run only through the store's appends, so what an append keeps,
  a command keeps.  The locale \<open>lawful\<close> says what a relation between runtimes has to satisfy for that;
  its lemmas cover the commands one by one, and the interpretations give the laws of the model:
  live state and store stay in step, the state stays well-formed, its history only grows.
\<close>

section \<open>Outcomes under a relation\<close>

named_theorems sound_intros \<open>outcomes that only reach related states\<close>

definition sound :: "('a \<Rightarrow> 'a \<Rightarrow> bool) \<Rightarrow> 'a \<Rightarrow> 'a outcome \<Rightarrow> bool" where
  "sound ok s r \<longleftrightarrow> (\<forall>s'. left r = Some s' \<longrightarrow> ok s s')"

lemma sound_Ok [sound_intros]: "ok s s' \<Longrightarrow> sound ok s (Ok s')"
  and sound_Error [sound_intros]: "ok s s' \<Longrightarrow> sound ok s (Error e s')"
  and sound_Panic [sound_intros]: "sound ok s Panic"
  by (simp_all add: sound_def)

lemma sound_try_get [sound_intros]:
  "ok s s' \<Longrightarrow> (\<And>x. r = Inr x \<Longrightarrow> sound ok s (f x)) \<Longrightarrow> sound ok s (try_get r s' f)"
  by (cases r) (simp_all add: try_get_def sound_def)

lemma sound_try_ok [sound_intros]: "ok s s' \<Longrightarrow> (r = None \<Longrightarrow> sound ok s k) \<Longrightarrow> sound ok s (try_ok r s' k)"
  by (cases r) (simp_all add: try_ok_def sound_def)

lemma sound_if [sound_intros]: "(c \<Longrightarrow> sound ok s p) \<Longrightarrow> (\<not> c \<Longrightarrow> sound ok s q) \<Longrightarrow> sound ok s (if c then p else q)"
  by simp

lemma sound_option [sound_intros]:
  "(x = None \<Longrightarrow> sound ok s p) \<Longrightarrow> (\<And>y. x = Some y \<Longrightarrow> sound ok s (q y)) \<Longrightarrow> sound ok s (case x of None \<Rightarrow> p | Some y \<Rightarrow> q y)"
  by (cases x) simp_all

lemma sound_sum [sound_intros]:
  "(\<And>y. x = Inl y \<Longrightarrow> sound ok s (p y)) \<Longrightarrow> (\<And>y. x = Inr y \<Longrightarrow> sound ok s (q y)) \<Longrightarrow>
   sound ok s (case x of Inl y \<Rightarrow> p y | Inr y \<Rightarrow> q y)"
  by (cases x) simp_all

lemma sound_prod [sound_intros]: "(\<And>a b. x = (a, b) \<Longrightarrow> sound ok s (p a b)) \<Longrightarrow> sound ok s (case x of (a, b) \<Rightarrow> p a b)"
  by (cases x) simp

lemma sound_list [sound_intros]:
  "(xs = [] \<Longrightarrow> sound ok s p) \<Longrightarrow> (\<And>y ys. xs = y # ys \<Longrightarrow> sound ok s (q y ys)) \<Longrightarrow>
   sound ok s (case xs of [] \<Rightarrow> p | y # ys \<Rightarrow> q y ys)"
  by (cases xs) simp_all

lemma sound_Let [sound_intros]: "(\<And>y. y = x \<Longrightarrow> sound ok s (f y)) \<Longrightarrow> sound ok s (Let x f)"
  by simp

lemma sound_andthen [sound_intros]:
  "sound ok s r \<Longrightarrow> (\<And>t. ok s t \<Longrightarrow> sound ok s (f t)) \<Longrightarrow> sound ok s (andthen r f)"
  by (cases r) (simp_all add: andthen_def sound_def)

section \<open>What commands keep\<close>

definition with_live :: "snapshot \<times> store \<Rightarrow> runtime \<Rightarrow> runtime" where
  "with_live s rt = rt\<lparr>rn_state := fst s, rn_store := snd s\<rparr>"

lemma in_runtime_left: "left (in_runtime rt r) = map_option (\<lambda>s. with_live s rt) (left r)"
  by (cases r) (auto simp: with_live_def)

locale lawful =
  fixes w :: world and ok :: "runtime \<Rightarrow> runtime \<Rightarrow> bool"
  assumes ok_refl [simp]: "ok rt rt"
    and ok_trans: "ok rt rt1 \<Longrightarrow> ok rt1 rt2 \<Longrightarrow> ok rt rt2"
    and appended: "left (append_event (wd_env w) ts kind (rn_state rt, rn_store rt)) = Some s \<Longrightarrow> ok rt (with_live s rt)"
    and batched: "left (append_batch (wd_env w) items (rn_state rt, rn_store rt)) = Some s \<Longrightarrow> ok rt (with_live s rt)"
    and copied: "ensure_legacy_logs (wd_payload_id w) (st_run_id (rn_state rt)) eid (rn_store rt) = Some (Inr (n, db))
      \<Longrightarrow> ok rt (rt\<lparr>rn_store := db\<rparr>)"
    and bumped: "ok rt (bump rt)"
begin

abbreviation sounds :: "runtime \<Rightarrow> runtime outcome \<Rightarrow> bool" where
  "sounds \<equiv> sound ok"

lemma sounds_from: "ok rt rt' \<Longrightarrow> sounds rt' r \<Longrightarrow> sounds rt r"
  by (auto simp: sound_def intro: ok_trans)

lemma ok_bump [sound_intros]: "ok rt rt' \<Longrightarrow> ok rt (bump rt')"
  by (rule ok_trans [OF _ bumped])

lemma sounds_persist [sound_intros]: "ok rt rt' \<Longrightarrow> sounds rt (persist w kind rt')"
  by (rule sounds_from) (auto simp: sound_def persist_def in_runtime_left intro: appended)

lemma sounds_outputs [sound_intros]: "ok rt rt' \<Longrightarrow> sounds rt (emit_outputs w kinds rt')"
proof (rule sounds_from, assumption)
  have "sounds rt' (in_runtime rt' (append_batch (wd_env w) items (rn_state rt', rn_store rt')))" for items
    by (auto simp: sound_def in_runtime_left intro: batched)
  then show "sounds rt' (emit_outputs w kinds rt')"
    by (auto simp: emit_outputs_def intro!: sound_intros)
qed

lemma sounds_ensure_logs [sound_intros]:
  "ok rt rt1 \<Longrightarrow> (\<And>n rt'. ok rt rt' \<Longrightarrow> sounds rt (k n rt')) \<Longrightarrow> sounds rt (ensure_logs w eid rt1 k)"
  by (auto simp: ensure_logs_def intro!: sound_intros intro: ok_trans [OF _ copied])

lemma sounds_settle_terminal [sound_intros]:
  "ok rt rt1 \<Longrightarrow> (\<And>kind rt'. ok rt rt' \<Longrightarrow> sounds rt (k kind rt')) \<Longrightarrow> sounds rt (settle_terminal w kind rt1 k)"
  by (cases kind) (auto simp: settle_terminal_def intro!: sound_intros)

lemma sounds_note_failure [sound_intros]: "ok rt rt' \<Longrightarrow> sounds rt (note_merger_failure w kind rt')"
  by (cases kind) (auto simp: note_merger_failure_def intro!: sound_intros)

lemma sounds_emit_plain [sound_intros]: "ok rt rt' \<Longrightarrow> sounds rt (emit_plain w kind rt')"
  by (auto simp: emit_plain_def intro!: sound_intros)

lemma sounds_emit [sound_intros]: "ok rt rt' \<Longrightarrow> sounds rt (emit w kind rt')"
  by (cases kind) (auto simp: emit_def intro!: sound_intros)

lemma sounds_each [sound_intros]: "ok rt rt' \<Longrightarrow> sounds rt (emit_each w kinds rt')"
  by (induction kinds arbitrary: rt') (auto intro!: sound_intros)

lemma sounds_compiled [sound_intros]:
  "ok rt rt' \<Longrightarrow> (\<And>p. sounds rt (k p)) \<Longrightarrow> sounds rt (compiled w g rt' k)"
  by (auto simp: compiled_def intro!: sound_intros split: compile_error.split)

text \<open>Publication and reopening.\<close>

lemma sounds_fail_mergers [sound_intros]: "ok rt rt' \<Longrightarrow> sounds rt (fail_mergers w ids rt')"
  by (induction ids arbitrary: rt') (auto simp: Let_def intro!: sound_intros)

lemma sounds_fail_publication [sound_intros]: "ok rt rt' \<Longrightarrow> sounds rt (fail_publication w rt')"
  by (auto simp: fail_publication_def intro!: sound_intros)

lemma sounds_recover_publication [sound_intros]: "ok rt rt' \<Longrightarrow> sounds rt (recover_publication w rt')"
  by (auto simp: recover_publication_def intro!: sound_intros)

lemma sounds_retry_publication [sound_intros]: "ok rt rt' \<Longrightarrow> sounds rt (retry_publication w rt')"
  by (auto simp: retry_publication_def intro!: sound_intros)

lemma sounds_pause_reopened [sound_intros]: "ok rt rt' \<Longrightarrow> sounds rt (pause_reopened w rt')"
  by (auto simp: pause_reopened_def intro!: sound_intros)

text \<open>Commands.\<close>

lemma sounds_set_route [sound_intros]: "ok rt rt' \<Longrightarrow> sounds rt (set_route w plan_type rt')"
  by (auto simp: set_route_def intro!: sound_intros)

lemma sounds_resolve_policy [sound_intros]: "ok rt rt' \<Longrightarrow> sounds rt (resolve_policy w repository rt')"
  by (auto simp: resolve_policy_def intro!: sound_intros)

lemma sounds_initialize_environment [sound_intros]: "ok rt rt' \<Longrightarrow> sounds rt (initialize_environment w repository rt')"
  by (auto simp: initialize_environment_def intro!: sound_intros)

lemma sounds_approval_base [sound_intros]:
  "ok rt rt' \<Longrightarrow> (\<And>base. sounds rt (k base)) \<Longrightarrow> sounds rt (approval_base w repository rt' k)"
  by (auto simp: approval_base_def intro!: sound_intros)

lemma sounds_approve [sound_intros]: "ok rt rt' \<Longrightarrow> sounds rt (approve w rt')"
  by (auto simp: approve_def intro!: sound_intros)

lemma sounds_edit_draft [sound_intros]: "ok rt rt' \<Longrightarrow> sounds rt (edit_draft_graph w g c rt')"
  by (auto simp: edit_draft_graph_def intro!: sound_intros)

lemma sounds_revision_source [sound_intros]:
  "ok rt rt' \<Longrightarrow> (\<And>head. sounds rt (k head)) \<Longrightarrow> sounds rt (revision_source w repository rt' k)"
  by (auto simp: revision_source_def intro!: sound_intros)

lemma sounds_manual_source [sound_intros]:
  "ok rt rt' \<Longrightarrow> (\<And>head. sounds rt (k head)) \<Longrightarrow> sounds rt (manual_source w repository rt' k)"
  by (auto simp: manual_source_def intro!: sound_intros)

lemma sounds_revise_graph [sound_intros]: "ok rt rt' \<Longrightarrow> sounds rt (revise_graph w g planning rt')"
  unfolding revise_graph_def Let_def by (auto intro!: sound_intros split: option.split bool.split)

lemma sounds_update_draft [sound_intros]: "ok rt rt' \<Longrightarrow> sounds rt (update_draft_graph w g planning_id planning rt')"
  by (auto simp: update_draft_graph_def intro!: sound_intros)

lemma sounds_add_manual_node [sound_intros]: "ok rt rt' \<Longrightarrow> sounds rt (add_manual_node w r rt')"
  unfolding add_manual_node_def Let_def by (auto intro!: sound_intros split: compile_error.split)

lemma sounds_sync_models [sound_intros]: "ok rt rt' \<Longrightarrow> sounds rt (sync_failed_node_models w only rt')"
  by (auto simp: sync_failed_node_models_def intro!: sound_intros)

lemma sounds_update_models [sound_intros]: "ok rt rt' \<Longrightarrow> sounds rt (update_node_models w c rt')"
  by (auto simp: update_node_models_def intro!: sound_intros)

lemma sounds_queue_recovery [sound_intros]: "ok rt rt' \<Longrightarrow> sounds rt (queue_node_recovery w scope rt')"
  by (auto simp: queue_node_recovery_def intro!: sound_intros)

lemma sounds_execution_stop [sound_intros]: "ok rt rt' \<Longrightarrow> sounds rt (request_execution_stop w name rt')"
  by (auto simp: request_execution_stop_def intro!: sound_intros)

lemma sounds_set_paused [sound_intros]: "ok rt rt' \<Longrightarrow> sounds rt (set_paused w paused recovery rt')"
  by (auto simp: set_paused_def intro!: sound_intros)

lemma sounds_pause [sound_intros]: "ok rt rt' \<Longrightarrow> sounds rt (pause w paused rt')"
  by (auto simp: pause_def intro!: sound_intros)

lemma sounds_resume [sound_intros]: "ok rt rt' \<Longrightarrow> sounds rt (resume_scheduling w rt')"
  by (auto simp: resume_scheduling_def intro!: sound_intros)

lemma sounds_resume_after [sound_intros]: "ok rt rt' \<Longrightarrow> sounds rt (resume_after_intervention w rt')"
  by (auto simp: resume_after_intervention_def intro!: sound_intros)

lemma sounds_message [sound_intros]: "ok rt rt' \<Longrightarrow> sounds rt (message_completed_node w name instruction images rt')"
  by (auto simp: message_completed_node_def intro!: sound_intros)

lemma sounds_intervene [sound_intros]: "ok rt rt' \<Longrightarrow> sounds rt (intervene_with_images w name instruction images rt')"
  by (auto simp: intervene_with_images_def intro!: sound_intros)

lemma sounds_resolved [sound_intros]: "ok rt rt' \<Longrightarrow> sounds rt (resolved w name rt')"
  by (auto simp: resolved_def intro!: sound_intros)

text \<open>Verdicts and the end of an attempt.\<close>

lemma sounds_resolve_batch [sound_intros]: "ok rt rt' \<Longrightarrow> sounds rt (resolve_batch w output p batch rt')"
  by (auto simp: resolve_batch_def intro!: sound_intros)

lemma sounds_resolve_feedback [sound_intros]: "ok rt rt' \<Longrightarrow> sounds rt (resolve_feedback w p output rt')"
  by (auto simp: resolve_feedback_def intro!: sound_intros)

lemma sounds_resolve_each [sound_intros]: "ok rt rt' \<Longrightarrow> sounds rt (resolve_each w ps rt')"
  by (induction ps arbitrary: rt') (auto intro!: sound_intros)

lemma sounds_drain_feedback [sound_intros]: "ok rt rt' \<Longrightarrow> sounds rt (drain_feedback w rt')"
  by (auto simp: drain_feedback_def intro!: sound_intros)

lemma sounds_apply_feedback [sound_intros]: "ok rt rt' \<Longrightarrow> sounds rt (apply_feedback w name output rt')"
  by (auto simp: apply_feedback_def intro!: sound_intros)

lemma sounds_fail_attempt [sound_intros]: "ok rt rt' \<Longrightarrow> sounds rt (fail_attempt w e error rt')"
  by (auto simp: fail_attempt_def intro!: sound_intros)

lemma sounds_complete_attempt [sound_intros]: "ok rt rt' \<Longrightarrow> sounds rt (complete_attempt w e composite head output rt')"
  by (auto simp: complete_attempt_def intro!: sound_intros)

end

end
