(* ===== verification/Plain_Events.thy ===== *)
theory Plain_Events
  imports Runtime_Control Store_Correct
begin

text \<open>
  Emitting an event that is stored as it is: success applies exactly that event to the live state, an error
  leaves the live state as it was.
\<close>

text \<open>No transcript, no measurement and no companion event.\<close>

definition plain_kind :: "event_kind \<Rightarrow> bool" where
  "plain_kind kind = (case kind of
     Output _ _ \<Rightarrow> False | Prepared _ _ \<Rightarrow> False | PublicationCompleted _ \<Rightarrow> False | Failed _ _ _ _ _ \<Rightarrow> False
   | Finished _ _ _ _ _ \<Rightarrow> False | MergerStarted _ \<Rightarrow> False | MergerFinished _ _ _ _ \<Rightarrow> False
   | MergerFailed _ _ _ _ \<Rightarrow> False | Started e _ _ \<Rightarrow> ex_output e = [] | _ \<Rightarrow> True)"

lemma emit_plain_event:
  assumes "emit w kind rt = Ok rt'" and "plain_kind kind"
  shows "\<exists>ev. ev_kind ev = kind \<and> apply_event (wd_env w) ev (rn_state rt) = Some (rn_state rt')"
proof -
  from assms have "emit_plain w kind rt = Ok rt'"
    by (cases kind) (simp_all add: emit_def plain_kind_def)
  then obtain rt1 where "persist w kind rt = Ok rt1" and rt': "rt' = bump rt1"
    using assms(2)
    by (cases kind) (auto simp: emit_plain_def try_ok_def andthen_def note_merger_failure_def settle_terminal_def plain_kind_def
        split: option.splits outcome.splits)
  then obtain st db where a: "append_event (wd_env w) (wd_clock w (so_last_sequence (rn_store rt) + 1)) kind
      (rn_state rt, rn_store rt) = Ok (st, db)" and st: "rn_state rt' = st"
    by (auto simp: persist_def bump_def elim!: in_runtime.elims)
  from a show ?thesis
  proof (cases rule: append_eventE)
    case streamed
    with assms(2) show ?thesis by (cases kind) (simp_all add: plain_kind_def)
  next
    case (logged kind1 initial db1 u)
    from logged(3) assms(2) have "kind1 = kind \<and> initial = None"
      by (cases kind) (auto simp: detach_output_def plain_kind_def split: if_splits)
    with logged(4,5) show ?thesis
      by (intro exI [of _ "event_of (new_row (st_run_id (rn_state rt)) (wd_clock w (so_last_sequence (rn_store rt) + 1)) kind db1)"])
        (simp add: st show_initial_def)
  qed
qed

lemma emit_plain_error:
  assumes "emit w kind rt = Error e rt'" and "plain_kind kind"
  shows "rn_state rt' = rn_state rt"
proof -
  from assms have "emit_plain w kind rt = Error e rt'"
    by (cases kind) (simp_all add: emit_def plain_kind_def)
  then have "rt' = rt \<or> persist w kind rt = Error e rt'"
    using assms(2)
    by (cases kind) (auto simp: emit_plain_def try_ok_def andthen_def note_merger_failure_def settle_terminal_def plain_kind_def
        split: option.splits outcome.splits)
  then show ?thesis
    by (auto simp: persist_def elim!: in_runtime.elims dest!: append_event_error)
qed

lemma emit_plain_left:
  assumes "left (emit w kind rt) = Some rt'" and "plain_kind kind"
  shows "rn_state rt' = rn_state rt
    \<or> (\<exists>ev. ev_kind ev = kind \<and> apply_event (wd_env w) ev (rn_state rt) = Some (rn_state rt'))"
  using assms emit_plain_event emit_plain_error by (cases "emit w kind rt") fastforce+

text \<open>The log of the live state grows by that event.\<close>

lemma emit_plain_log:
  assumes "emit w kind rt = Ok rt'" and "plain_kind kind"
  shows "\<exists>ev. ev_kind ev = kind \<and> st_events (rn_state rt') = st_events (rn_state rt) @ [ev]"
proof -
  have "\<not> is_output kind" using assms(2) by (cases kind) (simp_all add: plain_kind_def)
  then show ?thesis using emit_plain_event [OF assms] apply_events by fastforce
qed

lemma emit_plain_log_left:
  assumes "left (emit w kind rt) = Some rt'" and "plain_kind kind"
  shows "\<exists>evs. st_events (rn_state rt') = st_events (rn_state rt) @ evs \<and> (\<forall>ev \<in> set evs. ev_kind ev = kind)"
proof (cases "emit w kind rt")
  case (Ok rt1)
  then obtain ev where "ev_kind ev = kind" "st_events (rn_state rt1) = st_events (rn_state rt) @ [ev]"
    using emit_plain_log [OF _ assms(2)] by blast
  then show ?thesis using assms(1) Ok by (intro exI [of _ "[ev]"]) simp
next
  case (Error e rt1)
  then show ?thesis using assms(1) emit_plain_error [OF Error assms(2)] by simp
qed (use assms(1) in simp)

end
