(* ===== verification/Scheduler.thy ===== *)
theory Scheduler
  imports Dispatch Runtime_Laws Plain_Events
begin

text \<open>
  The scheduling pass \<open>jobs_with_pending_feedback\<close> (\<open>backend/src/runtime.rs\<close>): apply the verdicts that are
  due, count the free workers, block what can no longer run, start the ready nodes that fit, and publish or
  settle a run with nothing left to do.
\<close>

section \<open>Filters that may panic\<close>

text \<open>\<open>self.state.nodes[name]\<close> panics on a missing name: \<open>None\<close>.  Iterators stop as soon as they can.\<close>

definition status_in :: "snapshot \<Rightarrow> string list \<Rightarrow> string \<Rightarrow> bool option" where
  "status_in st statuses name = map_option (\<lambda>n. ns_status n \<in> set statuses) (bt_get (st_nodes st) name)"

fun any_opt :: "('a \<Rightarrow> bool option) \<Rightarrow> 'a list \<Rightarrow> bool option" where
  "any_opt f [] = Some False"
| "any_opt f (x # xs) = (case f x of None \<Rightarrow> None | Some True \<Rightarrow> Some True | Some False \<Rightarrow> any_opt f xs)"

fun all_opt :: "('a \<Rightarrow> bool option) \<Rightarrow> 'a list \<Rightarrow> bool option" where
  "all_opt f [] = Some True"
| "all_opt f (x # xs) = (case f x of None \<Rightarrow> None | Some False \<Rightarrow> Some False | Some True \<Rightarrow> all_opt f xs)"

fun take_opt :: "nat option \<Rightarrow> ('a \<Rightarrow> bool option) \<Rightarrow> 'a list \<Rightarrow> 'a list option" where
  "take_opt limit f [] = Some []"
| "take_opt limit f (x # xs) =
     (if limit = Some 0 then Some []
      else case f x of
        None \<Rightarrow> None
      | Some False \<Rightarrow> take_opt limit f xs
      | Some True \<Rightarrow> map_option (\<lambda>ys. x # ys) (take_opt (map_option (\<lambda>n. n - 1) limit) f xs))"

definition when_opt :: "bool \<Rightarrow> bool option \<Rightarrow> bool option" where
  "when_opt c x = (if c then x else Some False)"

definition and_opt :: "bool option \<Rightarrow> bool option \<Rightarrow> bool option" where
  "and_opt x y = (case x of None \<Rightarrow> None | Some c \<Rightarrow> when_opt c y)"

section \<open>Blocking what cannot run\<close>

definition incoming :: "graph \<Rightarrow> string \<Rightarrow> edge list" where
  "incoming g name = filter (\<lambda>e. \<not> eg_feedback e \<and> eg_to e = name) (gr_edges g)"

definition cut_off :: "snapshot \<Rightarrow> string list \<Rightarrow> node \<Rightarrow> bool option" where
  "cut_off st busy n = when_opt (nd_name n \<notin> set busy)
     (and_opt (status_in st [''waiting'', ''dirty''] (nd_name n))
       (any_opt (\<lambda>e. status_in st [''failed'', ''blocked''] (eg_from e)) (incoming (st_graph st) (nd_name n))))"

definition cut_off_nodes :: "snapshot \<Rightarrow> string list \<Rightarrow> string list option" where
  "cut_off_nodes st busy = map_option (map nd_name) (take_opt None (cut_off st busy) (gr_nodes (st_graph st)))"

definition block_event :: "string \<Rightarrow> event_kind" where
  "block_event name = Blocked name ''Required upstream branch failed or is blocked''"

text \<open>The nodes still waiting: what the loop uses up.\<close>

definition idle_entry :: "string \<times> node_state \<Rightarrow> bool" where
  "idle_entry entry \<longleftrightarrow> ns_status (snd entry) \<in> set [''waiting'', ''dirty'']"

definition idle_nodes :: "snapshot \<Rightarrow> nat" where
  "idle_nodes st = length (filter idle_entry (st_nodes st))"

lemma emit_block:
  assumes "emit w (Blocked name error) rt = Ok rt'"
  shows "st_nodes (rn_state rt') = bt_update name (blocked_node error) (st_nodes (rn_state rt))
     \<and> st_graph (rn_state rt') = st_graph (rn_state rt) \<and> st_executions (rn_state rt') = st_executions (rn_state rt)"
proof -
  obtain ev where ev: "ev_kind ev = Blocked name error" "apply_event (wd_env w) ev (rn_state rt) = Some (rn_state rt')"
    using emit_plain_event [OF assms] by (auto simp: plain_kind_def)
  from ev(2) ev(1) obtain u where "handle_blocked name error (note_planning ev (rn_state rt)) = Some u"
    and "rn_state rt' = log_event (wd_env w) ev u"
    by (rule applyE) (auto simp: handle_def)
  then show ?thesis by (auto simp: handle_blocked_def unwrap_node_def update_node_def split: if_splits)
qed

lemma blocked_not_idle [simp]: "\<not> idle_entry (name, blocked_node error n)"
  by (simp add: idle_entry_def blocked_node_def)

lemma idle_after_block: "length (filter idle_entry (bt_update name (blocked_node error) m)) \<le> length (filter idle_entry m)"
  by (induction m) (auto simp: bt_update_def idle_entry_def blocked_node_def split: if_splits)

lemma idle_block_less:
  assumes "bt_get m name = Some n" and "ns_status n \<in> set [''waiting'', ''dirty'']"
  shows "length (filter idle_entry (bt_update name (blocked_node error) m)) < length (filter idle_entry m)"
  using assms
proof (induction m)
  case (Cons entry m)
  obtain k v where entry: "entry = (k, v)" by (cases entry)
  have le: "length (filter idle_entry (bt_update name (blocked_node error) m)) \<le> length (filter idle_entry m)"
    by (rule idle_after_block)
  show ?case
  proof (cases "k = name")
    case True
    with Cons.prems entry have "idle_entry entry" by (auto simp: bt_get_def idle_entry_def)
    with le True entry show ?thesis by (simp add: bt_update_def)
  next
    case False
    with Cons entry show ?thesis by (simp add: bt_update_def bt_get_def)
  qed
qed (simp add: bt_get_def)

lemma emit_blocks:
  assumes "emit_each w (map block_event names) rt = Ok rt'"
  shows "idle_nodes (rn_state rt') \<le> idle_nodes (rn_state rt) \<and> st_graph (rn_state rt') = st_graph (rn_state rt)
     \<and> st_executions (rn_state rt') = st_executions (rn_state rt)"
  using assms
proof (induction names arbitrary: rt)
  case (Cons name names)
  from Cons.prems obtain rt1 where rt1: "emit w (block_event name) rt = Ok rt1" "emit_each w (map block_event names) rt1 = Ok rt'"
    by (auto simp: andthen_def split: outcome.splits)
  have "idle_nodes (rn_state rt1) \<le> idle_nodes (rn_state rt)"
    using emit_block [OF rt1(1) [unfolded block_event_def]] idle_after_block by (simp add: idle_nodes_def)
  with Cons.IH [OF rt1(2)] emit_block [OF rt1(1) [unfolded block_event_def]] show ?case by simp
qed simp

lemma take_opt_holds: "take_opt limit f xs = Some ys \<Longrightarrow> y \<in> set ys \<Longrightarrow> y \<in> set xs \<and> f y = Some True"
proof (induction xs arbitrary: limit ys)
  case (Cons x xs)
  then show ?case
    by (cases "f x") (fastforce split: if_splits option.splits bool.splits)+
qed simp

lemma and_opt_True: "and_opt x y = Some True \<longleftrightarrow> x = Some True \<and> y = Some True"
  by (auto simp: and_opt_def when_opt_def split: option.split)

lemma when_opt_True: "when_opt c x = Some True \<longleftrightarrow> c \<and> x = Some True"
  by (simp add: when_opt_def)

lemma blocks_less:
  assumes cut: "cut_off_nodes (rn_state rt) busy = Some (name # names)"
    and emitted: "emit_each w (map block_event (name # names)) rt = Ok rt'"
  shows "idle_nodes (rn_state rt') < idle_nodes (rn_state rt)"
proof -
  from cut obtain n ns where n: "take_opt None (cut_off (rn_state rt) busy) (gr_nodes (st_graph (rn_state rt))) = Some (n # ns)"
    "nd_name n = name"
    by (auto simp: cut_off_nodes_def)
  have "cut_off (rn_state rt) busy n = Some True"
    using take_opt_holds [OF n(1)] by simp
  then have "status_in (rn_state rt) [''waiting'', ''dirty''] name = Some True"
    unfolding cut_off_def by (simp add: n(2) when_opt_True and_opt_True)
  then obtain s where s: "bt_get (st_nodes (rn_state rt)) name = Some s" "ns_status s \<in> set [''waiting'', ''dirty'']"
    by (auto simp: status_in_def)
  from emitted obtain rt1 where rt1: "emit w (block_event name) rt = Ok rt1" "emit_each w (map block_event names) rt1 = Ok rt'"
    by (auto simp: andthen_def split: outcome.splits)
  have "idle_nodes (rn_state rt1) < idle_nodes (rn_state rt)"
    using emit_block [OF rt1(1) [unfolded block_event_def]] idle_block_less [OF s] by (simp add: idle_nodes_def)
  with emit_blocks [OF rt1(2)] show ?thesis by simp
qed

text \<open>Rounds of blocking until nothing more is cut off.\<close>

function block_loop :: "world \<Rightarrow> string list \<Rightarrow> runtime \<Rightarrow> runtime outcome" where
  "block_loop w busy rt = (case cut_off_nodes (rn_state rt) busy of
     None \<Rightarrow> Panic
   | Some [] \<Rightarrow> Ok rt
   | Some (name # names) \<Rightarrow>
       (case emit_each w (map block_event (name # names)) rt of
          Ok rt \<Rightarrow> block_loop w busy rt
        | Error e rt \<Rightarrow> Error e rt
        | Panic \<Rightarrow> Panic))"
  by pat_completeness auto
termination
  by (relation "measure (\<lambda>(w, busy, rt). idle_nodes (rn_state rt))") (simp_all add: blocks_less del: list.map emit_each.simps)

declare block_loop.simps [simp del]

section \<open>Ready nodes and free workers\<close>

definition max_graph_workers :: nat where
  "max_graph_workers = 8"

definition worker_limit :: "snapshot \<Rightarrow> config \<Rightarrow> nat" where
  "worker_limit st c =
     (if is_serial st then 1
      else if cf_max_parallel c = 0 then max_graph_workers else min (cf_max_parallel c) max_graph_workers)"

definition running_nodes :: "snapshot \<Rightarrow> nat" where
  "running_nodes st = length (filter (\<lambda>n. ns_status n = ''running'') (bt_values (st_nodes st)))"

definition available_workers :: "snapshot \<Rightarrow> config \<Rightarrow> nat" where
  "available_workers st c = worker_limit st c - running_nodes st"

text \<open>Nodes a verdict may still change, and the consumers of one not applied yet.\<close>

definition held_nodes :: "snapshot \<Rightarrow> string list \<Rightarrow> string list" where
  "held_nodes st pending_sources = busy_feedback_nodes st pending_sources
     @ concat (map (downstream (st_graph st)) (pending_sources @ map pf_from (st_pending_feedback st)))"

definition is_ready :: "snapshot \<Rightarrow> string list \<Rightarrow> node \<Rightarrow> bool option" where
  "is_ready st busy n = when_opt (nd_name n \<notin> set busy)
     (and_opt (status_in st [''waiting'', ''dirty''] (nd_name n))
       (when_opt (\<not> (\<exists>e \<in> set (st_executions st). ex_node e = nd_name n \<and> ex_status e = ''running''))
         (all_opt (\<lambda>e. status_in st [''completed''] (eg_from e)) (incoming (st_graph st) (nd_name n)))))"

definition ready_nodes :: "snapshot \<Rightarrow> string list \<Rightarrow> nat \<Rightarrow> node list option" where
  "ready_nodes st busy available = take_opt (Some available) (is_ready st busy) (gr_nodes (st_graph st))"

definition source_direct_run :: "snapshot \<Rightarrow> bool" where
  "source_direct_run st \<longleftrightarrow> st_phase st = ''followup''
     \<or> (\<exists>n \<in> set (bt_values (st_nodes st)). case ns_pending_messages n of m # _ \<Rightarrow> pm_source_direct m | [] \<Rightarrow> False)"

definition job_source_is_fresh :: "world \<Rightarrow> string \<Rightarrow> snapshot \<Rightarrow> string + bool" where
  "job_source_is_fresh w repository st =
     (if latest_source_head st = [] then Inr True else map_result (\<lambda>shadow. shadow = None) (wd_shadow w repository))"

definition materializes :: "world \<Rightarrow> string \<Rightarrow> snapshot \<Rightarrow> string + bool" where
  "materializes w repository st =
     (if source_direct_run st \<or> is_serial st \<or> wd_standard_git w repository then Inr False
      else job_source_is_fresh w repository st)"

section \<open>Starting one node\<close>

text \<open>The heads of the parents; the outer \<open>None\<close> is the panic on a missing state.\<close>

fun collect_heads :: "string \<Rightarrow> snapshot \<Rightarrow> string list \<Rightarrow> (string + string list) option" where
  "collect_heads e st [] = Some (Inr [])"
| "collect_heads e st (name # names) = (case bt_get (st_nodes st) name of
     None \<Rightarrow> None
   | Some n \<Rightarrow> (case ns_head n of
       None \<Rightarrow> Some (Inl e)
     | Some head \<Rightarrow> map_option (map_result (\<lambda>heads. head # heads)) (collect_heads e st names)))"

text \<open>What is decided for a node before anything is emitted; \<open>dc_environment\<close> is the input and its sources.\<close>

record decision =
  dc_parent_heads :: "string list"
  dc_direct :: bool
  dc_source_head :: string
  dc_resumption :: resumption
  dc_preserved :: "execution option"
  dc_slot :: slot
  dc_copy :: "string option"
  dc_fork :: "execution option"
  dc_execution :: execution

definition decide :: "world \<Rightarrow> disk \<Rightarrow> string \<Rightarrow> bool \<Rightarrow> snapshot \<Rightarrow> node \<Rightarrow> node_state \<Rightarrow> (string + decision) option" where
  "decide w d repository direct_run st node n =
     (let name = nd_name node;
          direct = (direct_run \<or> (ns_continuation n \<and> ns_source_direct_recovery n));
          source_head = (if is_serial st then [] else latest_source_head st)
      in map_option (\<lambda>heads. case heads of
           Inl e \<Rightarrow> Inl e
         | Inr heads \<Rightarrow> map_result (\<lambda>r.
             let preserved = preserved_workspace w st n direct (rs_from r);
                 slot = choose_slot w d st repository name n direct source_head (rs_from r) preserved;
                 fork = session_fork st name n r preserved (sl_worktree slot)
             in \<lparr>dc_parent_heads = heads, dc_direct = direct, dc_source_head = source_head, dc_resumption = r,
                 dc_preserved = preserved, dc_slot = slot,
                 dc_copy = copy_source w d st repository name n (rs_from r) (sl_worktree slot),
                 dc_fork = fork, dc_execution = new_execution d st name n r fork slot\<rparr>)
             (resumption_of d st name n direct))
         (collect_heads ''Ready node has no completed parent head'' st (parents (st_graph st) name)))"

definition started_event :: "decision \<Rightarrow> node_state \<Rightarrow> event_kind" where
  "started_event dc n = Started (dc_execution dc) (Some (map pm_sequence (ns_pending_messages n)))
     (dc_fork dc = None \<and> rs_from (dc_resumption dc) = None)"

text \<open>The job of a started node: \<open>st\<close> is the state the decision was made in, \<open>st'\<close> the one after the start.\<close>

definition job_of ::
  "world \<Rightarrow> disk \<Rightarrow> config \<Rightarrow> bool \<Rightarrow> node \<Rightarrow> node_state \<Rightarrow> decision \<Rightarrow> (composite_result list \<times> composite_result) option
     \<Rightarrow> snapshot \<Rightarrow> snapshot \<Rightarrow> job" where
  "job_of w d c materialize node n dc environment st st' =
     (let name = nd_name node; e = dc_execution dc; r = dc_resumption dc;
          task = task_text st node n r;
          history_edit = (ns_edit_execution_id n \<noteq> None);
          previous = environment_previous w st (ex_worktree e);
          chosen = (case environment of Some (sources, _) \<Rightarrow> sources | None \<Rightarrow> []);
          evidence = (if best_effort (Some c)
            then chosen @ results_in_slot w st (ex_worktree e) @ (case previous of Some r \<Rightarrow> [r] | None \<Rightarrow> [])
            else chosen)
      in \<lparr>jb_execution = e, jb_run_id = st_run_id st', jb_parent_heads = dc_parent_heads dc,
          jb_config = (case node_settings st n (ex_attempt e) of
              Some settings \<Rightarrow> c\<lparr>cf_role_models := bt_insert ''nodeAgent'' settings (cf_role_models c)\<rparr> | None \<Rightarrow> c),
          jb_task = task, jb_attachment_instructions = attachment_instructions st name r (ex_session_id e) task,
          jb_images = task_images n, jb_resume_execution_id = resumed_session st name r (dc_fork dc),
          jb_session_fork = dc_fork dc, jb_feedback_workspace = ns_feedback_workspace n,
          jb_feedback_repair_retry = repair_retry w st' name (ns_feedback_workspace n),
          jb_inherit_workspace = sl_inherit (dc_slot dc), jb_preserved_workspace = dc_preserved dc,
          jb_copy_from_workspace = dc_copy dc, jb_history_edit = history_edit,
          jb_feedback_source = (feedback_edge (st_graph st) name \<noteq> None),
          jb_materialize_source = (materialize \<and> \<not> dc_direct dc), jb_source_direct = dc_direct dc,
          jb_expected_source_head = dc_source_head dc, jb_environment_input = map_option snd environment,
          jb_environment_sources = keep_first evidence_key [] evidence, jb_environment_previous = previous,
          jb_previous_environment_launch = previous_launch w st' e history_edit,
          jb_preserve_failed_environment = keeps_failed_environment w d n (rs_from r) (ex_worktree e),
          jb_continuation = rs_continuation r, jb_initial_recovery = rs_initial r\<rparr>)"

text \<open>The jobs started so far ride along.\<close>

definition on_runtime :: "(runtime \<Rightarrow> runtime outcome) \<Rightarrow> runtime \<times> 'b \<Rightarrow> (runtime \<times> 'b) outcome" where
  "on_runtime f s = (case f (fst s) of
     Ok rt \<Rightarrow> Ok (rt, snd s) | Error e rt \<Rightarrow> Error e (rt, snd s) | Panic \<Rightarrow> Panic)"

definition start_node ::
  "world \<Rightarrow> disk \<Rightarrow> config \<Rightarrow> bool \<Rightarrow> node \<Rightarrow> node_state \<Rightarrow> decision \<Rightarrow> (composite_result list \<times> composite_result) option
     \<Rightarrow> runtime \<times> job list \<Rightarrow> (runtime \<times> job list) outcome" where
  "start_node w d c materialize node n dc environment s =
     andthen (on_runtime (emit w (started_event dc n)) s) (\<lambda>s'.
       Ok (fst s', snd s' @ [job_of w d c materialize node n dc environment (rn_state (fst s)) (rn_state (fst s'))]))"

definition dispatch ::
  "world \<Rightarrow> disk \<Rightarrow> config \<Rightarrow> string \<Rightarrow> bool \<Rightarrow> bool \<Rightarrow> node \<Rightarrow> runtime \<times> job list \<Rightarrow> (runtime \<times> job list) outcome" where
  "dispatch w d c repository direct_run materialize node s =
     (let st = rn_state (fst s); name = nd_name node in
      case bt_get (st_nodes st) name of
        None \<Rightarrow> Panic
      | Some n \<Rightarrow> (case decide w d repository direct_run st node n of
          None \<Rightarrow> Panic
        | Some (Inl e) \<Rightarrow> Error e s
        | Some (Inr dc) \<Rightarrow>
            if slot_taken w st (ex_worktree (dc_execution dc)) then Ok s
            else if has_environment st
            then try_ok (wd_environments w st) s
              (case select_environment w d st name n (rs_from (dc_resumption dc)) (dc_execution dc) of
                 Inl e \<Rightarrow> on_runtime (emit w (Blocked name e)) s
               | Inr environment \<Rightarrow> start_node w d c materialize node n dc (Some environment) s)
            else start_node w d c materialize node n dc None s))"

fun dispatch_all ::
  "(node \<Rightarrow> 's \<Rightarrow> 's outcome) \<Rightarrow> node list \<Rightarrow> 's \<Rightarrow> 's outcome" where
  "dispatch_all f [] s = Ok s"
| "dispatch_all f (node # nodes) s = andthen (f node s) (dispatch_all f nodes)"

section \<open>Nothing left to start\<close>

definition terminal_names :: "snapshot \<Rightarrow> string list" where
  "terminal_names st =
     (let everything = map nd_name (gr_nodes (st_graph st)) in
      case st_plan st of
        Some plan \<Rightarrow> if pl_terminals plan \<noteq> [] then pl_terminals plan else everything
      | None \<Rightarrow>
          (let ends = filter (is_terminal (st_graph st)) everything
           in if ends = [] then everything else ends))"

definition request_publication :: "world \<Rightarrow> disk \<Rightarrow> string \<Rightarrow> runtime \<Rightarrow> runtime outcome" where
  "request_publication w d repository rt =
     (let st = rn_state rt in
      case collect_heads ''Completed node has no snapshot'' st (terminal_names st) of
        None \<Rightarrow> Panic
      | Some (Inl e) \<Rightarrow> Error e rt
      | Some (Inr heads) \<Rightarrow>
          let heads = (if st_published_head st \<noteq> None then undelivered_heads (st_published_heads st) heads else heads)
          in if st_published_head st \<noteq> None \<and> heads = [] then emit w Settled rt
             else try_get (dk_canonical d repository) rt (\<lambda>path. emit w (PublicationStarted path heads) rt))"

definition settle :: "world \<Rightarrow> disk \<Rightarrow> string \<Rightarrow> runtime \<Rightarrow> runtime outcome" where
  "settle w d repository rt =
     (let st = rn_state rt in
      if st_phase st \<noteq> ''followup'' \<and> \<not> is_serial st \<and> list_all (\<lambda>n. ns_status n = ''completed'') (bt_values (st_nodes st))
      then request_publication w d repository rt else emit w Settled rt)"

section \<open>A scheduling pass\<close>

definition schedulable :: "snapshot \<Rightarrow> bool" where
  "schedulable st \<longleftrightarrow> st_approved st \<and> \<not> st_paused st
     \<and> st_phase st \<notin> set [''publishing'', ''merging'', ''publication_failed'', ''completed'']"

definition is_quiescent :: "snapshot \<Rightarrow> bool" where
  "is_quiescent st \<longleftrightarrow> st_pending_feedback st = [] \<and> \<not> active st \<and> st_phase st \<notin> set [''completed'', ''needs_attention'']"

definition start_ready ::
  "world \<Rightarrow> disk \<Rightarrow> config \<Rightarrow> string \<Rightarrow> string list \<Rightarrow> nat \<Rightarrow> runtime \<Rightarrow> (runtime \<times> job list) outcome" where
  "start_ready w d c repository busy available rt =
     (case ready_nodes (rn_state rt) busy available of
        None \<Rightarrow> Panic
      | Some nodes \<Rightarrow>
          try_get (materializes w repository (rn_state rt)) (rt, []) (\<lambda>materialize.
            dispatch_all (dispatch w d c repository (source_direct_run (rn_state rt)) materialize) nodes (rt, [])))"

definition finish_pass ::
  "world \<Rightarrow> disk \<Rightarrow> string \<Rightarrow> bool \<Rightarrow> string list \<Rightarrow> runtime \<times> job list \<Rightarrow> (runtime \<times> job list) outcome" where
  "finish_pass w d repository allow_publication pending_sources s =
     (if allow_publication \<and> pending_sources = [] \<and> snd s = [] \<and> is_quiescent (rn_state (fst s))
      then on_runtime (settle w d repository) s else Ok s)"

text \<open>The state and the jobs of a pass once the verdicts are applied.\<close>

definition pass ::
  "world \<Rightarrow> disk \<Rightarrow> bool \<Rightarrow> string list \<Rightarrow> runtime \<Rightarrow> (runtime \<times> job list) outcome" where
  "pass w d allow_publication pending_sources rt =
     try_get (ok_or (effective_config (rn_state rt)) ''Missing config'') (rt, []) (\<lambda>c.
     try_get (resolve_repository w c) (rt, []) (\<lambda>repository.
     try_ok (if is_serial (rn_state rt) then None else wd_graph_native w) (rt, [])
     (let busy = held_nodes (rn_state rt) pending_sources;
          available = available_workers (rn_state rt) c
      in case block_loop w busy rt of
           Panic \<Rightarrow> Panic
         | Error e rt \<Rightarrow> Error e (rt, [])
         | Ok rt \<Rightarrow> andthen (start_ready w d c repository busy available rt)
             (finish_pass w d repository allow_publication pending_sources))))"

definition jobs :: "world \<Rightarrow> disk \<Rightarrow> bool \<Rightarrow> string list \<Rightarrow> runtime \<Rightarrow> (runtime \<times> job list) outcome" where
  "jobs w d allow_publication pending_sources rt =
     (if \<not> schedulable (rn_state rt) then Ok (rt, [])
      else try_ok (require_current_file_contract (rn_state rt)) (rt, [])
        (case drain_feedback w rt of
           Panic \<Rightarrow> Panic
         | Error e rt \<Rightarrow> Error e (rt, [])
         | Ok rt \<Rightarrow> pass w d allow_publication pending_sources rt))"

end
