(* ===== verification/Runtime_Correct.thy ===== *)
theory Runtime_Correct
  imports Scheduler
begin

text \<open>
  The laws of the runtime's commands: the live state and the store stay in step, and what every event
  keeps of the state, every command keeps.
\<close>

section \<open>In step with the store\<close>

text \<open>A command on a run.\<close>

definition kept :: "world \<Rightarrow> runtime \<Rightarrow> runtime \<Rightarrow> bool" where
  "kept w rt rt' \<longleftrightarrow> st_run_id (rn_state rt') = st_run_id (rn_state rt)
     \<and> keeps (wd_env w) (st_run_id (rn_state rt)) (rn_state rt, rn_store rt) (rn_state rt', rn_store rt')"

lemma kept_refl: "kept w rt rt"
  by (simp add: kept_def keeps_refl)

lemma kept_trans: "kept w rt rt1 \<Longrightarrow> kept w rt1 rt2 \<Longrightarrow> kept w rt rt2"
  unfolding kept_def using keeps_trans by metis

lemma kept_copied:
  assumes "ensure_legacy_logs payload_id run eid (rn_store rt) = Some (Inr (n, db))"
  shows "kept w rt (rt\<lparr>rn_store := db\<rparr>)"
proof -
  from assms have "so_events db = so_events (rn_store rt) \<and> so_checkpoints db = so_checkpoints (rn_store rt)
      \<and> so_last_sequence db = so_last_sequence (rn_store rt)"
    by (auto simp: ensure_legacy_logs_def Let_def map_result_Inr split: if_splits)
  then show ?thesis by (simp add: kept_def keeps_measured)
qed

interpretation step: lawful w "kept w" for w :: world
proof unfold_locales
  fix w :: world and rt rt1 rt2 :: runtime
  show "kept w rt rt" by (rule kept_refl)
  show "kept w rt rt1 \<Longrightarrow> kept w rt1 rt2 \<Longrightarrow> kept w rt rt2" by (rule kept_trans)
  show "kept w rt (bump rt)" by (simp add: kept_def bump_def keeps_refl)
next
  fix w :: world and rt :: runtime and ts kind s
  assume "left (append_event (wd_env w) ts kind (rn_state rt, rn_store rt)) = Some s"
  then show "kept w rt (with_live s rt)"
    using keeps_left [of "wd_env w" ts kind "rn_state rt" "rn_store rt" "fst s" "snd s"] by (simp add: kept_def with_live_def)
next
  fix w :: world and rt :: runtime and items s
  assume "left (append_batch (wd_env w) items (rn_state rt, rn_store rt)) = Some s"
  then show "kept w rt (with_live s rt)"
    using keeps_left_batch [of "wd_env w" items "rn_state rt" "rn_store rt" "fst s" "snd s"] by (simp add: kept_def with_live_def)
qed (rule kept_copied)

section \<open>Relations every event satisfies\<close>

text \<open>A relation that events and streamed text satisfy is one that commands satisfy.\<close>

locale live_relation =
  fixes R :: "snapshot \<Rightarrow> snapshot \<Rightarrow> bool"
  assumes R_refl: "R st st"
    and R_trans: "R st u \<Longrightarrow> R u v \<Longrightarrow> R st v"
    and applied: "apply_event en ev st = Some st' \<Longrightarrow> R st st'"
    and shown: "(\<And>e. bare (f e) = bare e) \<Longrightarrow> R st (update_attempt p f st)"
    and refreshed: "R st (refresh_metrics en st)"
begin

lemma R_streamed: "R st (fold (stream_text en offsets) texts st)"
proof (induction texts arbitrary: st)
  case (Cons entry texts)
  obtain eid chunk where entry: "entry = (eid, chunk)" by (cases entry)
  have "bare ((append_live_output (en_parse en) chunk e)\<lparr>ex_output_bytes := n\<rparr>) = bare e" for e n
    using append_live_output_bare [of "en_parse en" chunk e] by (simp add: bare_def)
  then have "R st (stream_text en offsets entry st)"
    unfolding entry stream_text_def by (simp add: shown)
  with Cons show ?case by (auto intro: R_trans)
qed (simp add: R_refl)

lemma R_initial: "R st (show_initial en initial st)"
  by (auto simp: show_initial_def append_live_output_bare R_refl intro: R_trans [OF shown refreshed] split: option.split)

lemma R_logs: "append_logs en kinds (st, db) = Ok (st', db') \<Longrightarrow> R st st'"
  by (auto simp: append_logs_def Let_def R_refl intro: R_trans [OF R_streamed refreshed]
      split: if_splits option.splits sum.splits prod.splits)

lemma R_append: "left (append_event en ts kind (st, db)) = Some s \<Longrightarrow> R st (fst s)"
proof (cases "append_event en ts kind (st, db)")
  case (Ok t)
  assume "left (append_event en ts kind (st, db)) = Some s"
  with Ok obtain st' db' where s: "s = (st', db')" "append_event en ts kind (st, db) = Ok (st', db')" by (cases s) auto
  from s(2) have "R st st'"
  proof (cases rule: append_eventE)
    case (logged kind1 initial db1 u)
    from applied [OF logged(4)] R_initial show ?thesis unfolding logged(5) by (rule R_trans)
  qed (rule R_logs)
  with s(1) show ?thesis by simp
qed (auto dest: append_event_error simp: R_refl)

lemma R_each: "left (append_each en items (st, db)) = Some s \<Longrightarrow> R st (fst s)"
proof (induction items arbitrary: st db)
  case (Cons item items)
  obtain ts kind where item: "item = (ts, kind)" by (cases item)
  show ?case
  proof (cases "append_event en ts kind (st, db)")
    case (Ok t)
    obtain u db1 where t: "t = (u, db1)" by (cases t)
    from Ok have "R st u" using R_append [of en ts kind st db t] by (simp add: t)
    moreover from Cons.prems Ok have "left (append_each en items (u, db1)) = Some s" by (simp add: item t)
    ultimately show ?thesis using Cons.IH R_trans by blast
  next
    case (Error e t)
    with Cons.prems have "left (append_event en ts kind (st, db)) = Some s" by (simp add: item)
    then show ?thesis by (rule R_append)
  qed (use Cons.prems in \<open>simp add: item\<close>)
qed (auto simp: R_refl)

lemma R_all: "apply_all en evs st = Some st' \<Longrightarrow> R st st'"
  by (induction evs arbitrary: st) (auto simp: apply_all_def R_refl intro: R_trans [OF applied] split: option.splits)

lemma R_batch:
  assumes "left (append_batch en items (st, db)) = Some s"
  shows "R st (fst s)"
proof -
  have logs: "left (append_logs en kinds (st, db)) = Some s \<Longrightarrow> R st (fst s)" for kinds
    by (cases s) (auto simp: left_Some dest: R_logs append_logs_error intro: R_refl)
  from assms consider "left (append_logs en (map snd items) (st, db)) = Some s"
    | "left (append_each en items (st, db)) = Some s" | "s = (st, db)"
    | events where "apply_all en events st = Some (fst s)"
    by (fastforce simp: append_batch_def Let_def split: if_splits option.splits prod.splits)
  then show ?thesis by cases (auto intro: logs R_each R_refl R_all)
qed

end

sublocale live_relation \<subseteq> lawful w "\<lambda>rt rt'. R (rn_state rt) (rn_state rt')" for w :: world
  by unfold_locales (auto simp: with_live_def bump_def intro: R_refl R_trans dest: R_append R_batch)

section \<open>Passes and finished attempts\<close>

lemma left_replying: "left (replying x r) = Some (s, y) \<Longrightarrow> left r = Some s"
  by (cases r) (auto simp: replying_def)

context lawful
begin

definition okp :: "runtime \<times> 'b \<Rightarrow> runtime \<times> 'b \<Rightarrow> bool" where
  "okp s s' \<longleftrightarrow> ok (fst s) (fst s')"

lemma okp_intros [sound_intros]: "ok rt rt' \<Longrightarrow> okp (rt, x) (rt', y)" "okp s s"
  by (simp_all add: okp_def)

lemma okpD: "okp s s' \<Longrightarrow> ok (fst s) (fst s')"
  by (simp add: okp_def)

lemma sounds_on_runtime [sound_intros]:
  "okp s s' \<Longrightarrow> (\<And>rt. ok (fst s) rt \<Longrightarrow> sounds (fst s) (f rt)) \<Longrightarrow> sound okp s (on_runtime f s')"
proof -
  assume "okp s s'" and "\<And>rt. ok (fst s) rt \<Longrightarrow> sounds (fst s) (f rt)"
  then have "sounds (fst s) (f (fst s'))" by (simp add: okp_def)
  then show ?thesis by (cases "f (fst s')") (simp_all add: on_runtime_def sound_def okp_def)
qed

lemma sounds_replying [sound_intros]: "sounds rt r \<Longrightarrow> sound okp (rt, x) (replying y r)"
  by (cases r) (auto simp: sound_def replying_def okp_def)

lemma block_loop_reached:
  "left (block_loop w' busy rt') = Some s \<Longrightarrow> w' = w \<Longrightarrow> ok rt rt' \<Longrightarrow> ok rt s"
proof (induction w' busy rt' rule: block_loop.induct)
  case (1 w' busy rt')
  have emitted: "left (emit_each w' (map block_event names) rt') = Some s' \<Longrightarrow> ok rt s'" for names s'
    using sounds_each [OF "1.prems"(3)] "1.prems"(2) by (simp add: sound_def)
  show ?case
  proof (cases "cut_off_nodes (rn_state rt') busy")
    case None
    with "1.prems"(1) show ?thesis by (simp add: block_loop.simps [of w' busy rt'])
  next
    case (Some cut)
    show ?thesis
    proof (cases cut)
      case Nil
      with Some "1.prems"(1,3) show ?thesis by (simp add: block_loop.simps [of w' busy rt'])
    next
      case (Cons name names)
      show ?thesis
      proof (cases "emit_each w' (map block_event cut) rt'")
        case (Ok rt1)
        then have "left (block_loop w' busy rt1) = Some s"
          using Some "1.prems"(1) by (simp add: block_loop.simps [of w' busy rt'] Cons del: emit_each.simps list.map)
        then show ?thesis
          using "1.IH" [of cut name names rt1] "1.prems"(2) emitted [of cut] Some Ok by (simp add: Cons del: emit_each.simps list.map)
      next
        case (Error e rt1)
        then show ?thesis
          using Some "1.prems"(1) emitted [of cut s]
          by (simp add: block_loop.simps [of w' busy rt'] Cons del: emit_each.simps list.map)
      next
        case Panic
        then show ?thesis
          using Some "1.prems"(1) by (simp add: block_loop.simps [of w' busy rt'] Cons del: emit_each.simps list.map)
      qed
    qed
  qed
qed

lemma sounds_block_loop [sound_intros]: "ok rt rt' \<Longrightarrow> sounds rt (block_loop w busy rt')"
  unfolding sound_def using block_loop_reached by blast

lemma sounds_start [sound_intros]: "okp s s' \<Longrightarrow> sound okp s (start_node w d c materialize node n dc environment s')"
  by (auto simp: start_node_def okp_def intro!: sound_intros)

lemma sounds_dispatch [sound_intros]: "okp s s' \<Longrightarrow> sound okp s (dispatch w d c repository direct materialize node s')"
  unfolding dispatch_def Let_def by (auto intro!: sound_intros simp: okp_def)

lemma sounds_dispatch_all [sound_intros]:
  "okp s s' \<Longrightarrow> (\<And>node s'. okp s s' \<Longrightarrow> sound okp s (f node s')) \<Longrightarrow> sound okp s (dispatch_all f nodes s')"
  by (induction nodes arbitrary: s') (auto intro!: sound_intros)

lemma sounds_settle [sound_intros]: "ok rt rt' \<Longrightarrow> sounds rt (settle w d repository rt')"
  by (auto simp: settle_def request_publication_def intro!: sound_intros)

lemma sounds_finish_pass [sound_intros]:
  "okp s s' \<Longrightarrow> sound okp s (finish_pass w d repository allow sources s')"
  by (auto simp: finish_pass_def intro!: sound_intros)

lemma sounds_start_ready [sound_intros]:
  "ok rt rt' \<Longrightarrow> sound okp (rt, []) (start_ready w d c repository busy available rt')"
  by (auto simp: start_ready_def intro!: sound_intros)

lemma sounds_outcome [sound_intros]:
  "sounds rt r \<Longrightarrow> (\<And>rt'. ok rt rt' \<Longrightarrow> sound okp (rt, x) (k rt')) \<Longrightarrow>
   sound okp (rt, x) (case r of Ok rt' \<Rightarrow> k rt' | Error e rt' \<Rightarrow> Error e (rt', x) | Panic \<Rightarrow> Panic)"
  by (cases r) (auto simp: sound_def okp_def)

lemma sounds_pass [sound_intros]: "ok rt rt' \<Longrightarrow> sound okp (rt, []) (pass w d allow sources rt')"
  unfolding pass_def Let_def by (auto intro!: sound_intros)

lemma sounds_jobs [sound_intros]: "ok rt rt' \<Longrightarrow> sound okp (rt, []) (jobs w d allow sources rt')"
  unfolding jobs_def by (auto intro!: sound_intros)

lemma sounds_finish [sound_intros]: "ok rt rt' \<Longrightarrow> sound okp (rt, None) (finish w e result rt')"
  unfolding finish_def Let_def by (auto intro!: sound_intros)

end

end
