(* ===== verification/Sessions.thy ===== *)
theory Sessions
  imports Runtime_Correct
begin

text \<open>
  A process at work: any sequence of the runtime's commands, scheduling passes and finished attempts, the
  failing ones included.  Whatever it was, the store can give the run back.
\<close>

section \<open>Commands\<close>

datatype command =
    Create string graph config "string option" "planning_summary option"
  | Set_Route string
  | Approve
  | Edit_Draft graph config
  | Update_Draft graph string planning_summary
  | Add_Node manual_node_request
  | Update_Models config
  | Stop_Executions "string option"
  | Pause bool
  | Resume_After_Intervention
  | Message string string "image_attachment list option"
  | Intervene string string "image_attachment list option"
  | Resolve string
  | Retry_Publication
  | Apply_Feedback string string
  | Schedule disk bool "string list"
  | Finish execution "string + string \<times> string"
  | Emit event_kind
  | Emit_Outputs "event_kind list"

fun forget :: "('a \<times> 'b) outcome \<Rightarrow> 'a outcome" where
  "forget (Ok (s, _)) = Ok s"
| "forget (Error e (s, _)) = Error e s"
| "forget Panic = Panic"

fun execute :: "world \<Rightarrow> command \<Rightarrow> runtime \<Rightarrow> runtime outcome" where
  "execute w (Create new_id g c planning_id planning) = create_with_planning w new_id g c planning_id planning"
| "execute w (Set_Route plan_type) = set_route w plan_type"
| "execute w Approve = approve w"
| "execute w (Edit_Draft g c) = edit_draft_graph w g c"
| "execute w (Update_Draft g planning_id planning) = update_draft_graph w g planning_id planning"
| "execute w (Add_Node r) = add_manual_node w r"
| "execute w (Update_Models c) = update_node_models w c"
| "execute w (Stop_Executions name) = request_execution_stop w name"
| "execute w (Pause paused) = pause w paused"
| "execute w Resume_After_Intervention = resume_after_intervention w"
| "execute w (Message name instruction images) = message_completed_node w name instruction images"
| "execute w (Intervene name instruction images) = intervene_with_images w name instruction images"
| "execute w (Resolve name) = resolved w name"
| "execute w Retry_Publication = retry_publication w"
| "execute w (Apply_Feedback name output) = apply_feedback w name output"
| "execute w (Schedule d allow sources) = (\<lambda>rt. forget (jobs w d allow sources rt))"
| "execute w (Finish e result) = (\<lambda>rt. forget (finish w e result rt))"
| "execute w (Emit kind) = emit w kind"
| "execute w (Emit_Outputs kinds) = emit_outputs w kinds"

text \<open>A panic ends a session; an error does not.\<close>

fun session :: "world \<Rightarrow> command list \<Rightarrow> runtime \<Rightarrow> runtime option" where
  "session w [] rt = Some rt"
| "session w (c # cs) rt = (case left (execute w c rt) of Some rt \<Rightarrow> session w cs rt | None \<Rightarrow> None)"

text \<open>The random id of a new run is the id of no other.\<close>

definition fresh_run :: "string \<Rightarrow> store \<Rightarrow> bool" where
  "fresh_run run db \<longleftrightarrow> \<not> contains_run run db \<and> bt_get (so_checkpoints db) run = None"

fun fresh_ids :: "world \<Rightarrow> command list \<Rightarrow> runtime \<Rightarrow> bool" where
  "fresh_ids w [] rt = True"
| "fresh_ids w (c # cs) rt = ((case c of Create new_id _ _ _ _ \<Rightarrow> fresh_run new_id (rn_store rt) | _ \<Rightarrow> True)
     \<and> (case left (execute w c rt) of Some rt \<Rightarrow> fresh_ids w cs rt | None \<Rightarrow> True))"

lemma left_forget: "left (forget r) = map_option fst (left r)"
  by (cases r rule: forget.cases) auto

context lawful
begin

lemma sounds_forget: "sound okp (rt, x) r \<Longrightarrow> sounds rt (forget r)"
  by (auto simp: sound_def left_forget okp_def)

lemma sounds_execute: "(\<nexists>a b c d e. cmd = Create a b c d e) \<Longrightarrow> sounds rt (execute w cmd rt)"
  by (cases cmd) (auto intro!: sound_intros sounds_forget)

end

section \<open>In step\<close>

definition live_in_step :: "world \<Rightarrow> runtime \<Rightarrow> bool" where
  "live_in_step w rt \<longleftrightarrow> db_ok (rn_store rt)
     \<and> projects (wd_env w) (st_run_id (rn_state rt)) (rn_state rt) (rn_store rt)"

lemma kept_in_step: "kept w rt rt' \<Longrightarrow> live_in_step w rt \<Longrightarrow> live_in_step w rt'"
  by (auto simp: kept_def keeps_def live_in_step_def)

lemma projects_new: "fresh_run run db \<Longrightarrow> projects en run (new_run run) db"
  by (auto simp: fresh_run_def contains_run_def projects_def checkpoint_ok_def log_of_def apply_all_def filter_empty_conv)

lemma in_step_empty:
  assumes "live_in_step w rt" and "st_events (rn_state rt) = []"
  shows "fresh_run (st_run_id (rn_state rt)) (rn_store rt)"
proof -
  let ?run = "st_run_id (rn_state rt)" and ?db = "rn_store rt"
  from assms(1) obtain t where t: "apply_all (wd_env w) (log_of ?run ?db) (new_run ?run) = Some t"
    "control t = control (rn_state rt)" and ok: "db_ok ?db" and ck: "checkpoint_ok (wd_env w) ?run ?db"
    by (auto simp: live_in_step_def projects_def)
  have "st_events t = st_events (rn_state rt)"
    using arg_cong [OF t(2), of st_events] by (simp add: control_def)
  moreover have "st_events t = log_of ?run ?db"
    using apply_all_log [OF t(1)] log_of_payload [OF ok, of _ ?run] by simp
  ultimately have log: "log_of ?run ?db = []" using assms(2) by simp
  have "bt_get (so_checkpoints ?db) ?run = None"
  proof (rule ccontr)
    assume "bt_get (so_checkpoints ?db) ?run \<noteq> None"
    then obtain c where "bt_get (so_checkpoints ?db) ?run = Some c" by auto
    with ck log show False by (auto simp: checkpoint_ok_def)
  qed
  with log show ?thesis by (auto simp: fresh_run_def contains_run_def log_of_def filter_empty_conv)
qed

lemma projects_select: "projects en run st (select_run x db) = projects en run st db" "db_ok (select_run x db) = db_ok db"
  by (simp_all add: projects_def checkpoint_ok_def log_of_def select_run_def db_ok_def)

lemma create_in_step:
  assumes created: "left (create_with_planning w new_id g c planning_id planning rt) = Some rt'"
    and step: "live_in_step w rt" and fresh: "fresh_run new_id (rn_store rt)"
  shows "live_in_step w rt'"
proof -
  have new: "live_in_step w (bump (rt\<lparr>rn_state := new_run run\<rparr>))" if "fresh_run run (rn_store rt)" for run
    using projects_new [OF that] step by (simp add: live_in_step_def bump_def)
  have emitted: "live_in_step w rt2" if "left (emit_outputs w kinds rt1) = Some rt2" "live_in_step w rt1" for kinds rt1 rt2
    using step.sounds_outputs [OF kept_refl, of w rt1 kinds] that kept_in_step by (auto simp: sound_def)
  have selected: "live_in_step w (rt1\<lparr>rn_store := select_run x (rn_store rt1)\<rparr>)" if "live_in_step w rt1" for rt1 x
    using that by (simp add: live_in_step_def projects_select)
  have tail: "live_in_step w rt3" if "live_in_step w rt1"
      and "left (andthen (emit_outputs w kinds rt1)
        (\<lambda>rt. Ok (rt\<lparr>rn_store := select_run (Some (st_run_id (rn_state rt))) (rn_store rt)\<rparr>))) = Some rt3" for rt1 rt3 kinds
    using that emitted [of kinds rt1] selected
    by (cases "emit_outputs w kinds rt1") (auto simp: andthen_def)
  define completing where "completing \<longleftrightarrow> st_phase (rn_state rt) = ''planning'' \<and> planning_id \<noteq> None
    \<and> st_planning_id (rn_state rt) = planning_id"
  define run where "run = (if st_events (rn_state rt) = [] \<and> st_run_id (rn_state rt) \<noteq> []
    then st_run_id (rn_state rt) else new_id)"
  define rt1 where "rt1 = (if completing then rt else bump (rt\<lparr>rn_state := new_run run\<rparr>))"
  define kinds where "kinds = Created g (c\<lparr>cf_max_feedback := min (cf_max_feedback c) 5\<rparr>) planning_id planning
    # (if cf_environment (c\<lparr>cf_max_feedback := min (cf_max_feedback c) 5\<rparr>) = None then [EnvironmentPolicyRequested] else [])"
  have "fresh_run run (rn_store rt)"
    using in_step_empty [OF step] fresh by (simp add: run_def)
  with step new have rt1: "live_in_step w rt1" by (simp add: rt1_def)
  have "create_with_planning w new_id g c planning_id planning rt =
      (if active (rn_state rt) then Error ''Pause and wait for the current executions to finish first'' rt
       else compiled w g rt (\<lambda>_. andthen (emit_outputs w kinds rt1)
         (\<lambda>rt. Ok (rt\<lparr>rn_store := select_run (Some (st_run_id (rn_state rt))) (rn_store rt)\<rparr>))))"
    by (simp only: create_with_planning_def Let_def rt1_def run_def completing_def kinds_def)
  with created have "rt' = rt \<or> left (andthen (emit_outputs w kinds rt1)
      (\<lambda>rt. Ok (rt\<lparr>rn_store := select_run (Some (st_run_id (rn_state rt))) (rn_store rt)\<rparr>))) = Some rt'"
    by (auto simp: compiled_def split: if_splits sum.splits compile_error.splits)
  with tail [OF rt1] step show ?thesis by blast
qed

lemma execute_in_step:
  assumes "left (execute w cmd rt) = Some rt'" and "live_in_step w rt" and "fresh_ids w (cmd # cs) rt"
  shows "live_in_step w rt' \<and> fresh_ids w cs rt'"
proof -
  have "live_in_step w rt'"
  proof (cases "\<exists>a b c d e. cmd = Create a b c d e")
    case True
    with assms create_in_step show ?thesis by auto
  next
    case False
    from step.sounds_execute [OF False, of w rt] assms(1,2) show ?thesis by (auto simp: sound_def intro: kept_in_step)
  qed
  with assms(1,3) show ?thesis by simp
qed

lemma session_in_step:
  "session w cs rt = Some rt' \<Longrightarrow> live_in_step w rt \<Longrightarrow> fresh_ids w cs rt \<Longrightarrow> live_in_step w rt'"
proof (induction cs arbitrary: rt)
  case (Cons c cs)
  from Cons.prems(1) obtain rt1 where rt1: "left (execute w c rt) = Some rt1" "session w cs rt1 = Some rt'"
    by (auto split: option.splits)
  from execute_in_step [OF rt1(1) Cons.prems(2,3)] Cons.IH [OF rt1(2)] show ?case by simp
qed simp

text \<open>C8: a process never gets ahead of its store.  After any sequence of commands, scheduling passes and
  finished attempts on runs it created, whatever failed on the way and whatever the file system, Git and the
  environment store answered, loading the current run from the store succeeds and yields the state the process
  holds, up to the measured fields and the defaulting of fields older versions left out.\<close>

theorem session_reloads:
  assumes "db_ok db" and "fresh_run [] db" and "fresh_ids w cs (fresh_runtime (new_run []) db)"
    and "session w cs (fresh_runtime (new_run []) db) = Some rt"
    and "contains_run (st_run_id (rn_state rt)) (rn_store rt)"
    and "\<forall>r \<in> set (so_events (rn_store rt)). \<not> oversize (er_payload r)"
  shows "\<exists>st. load_run (wd_env w) oversize (st_run_id (rn_state rt)) (rn_store rt) = Some (Inr st)
    \<and> control st = control (hydrate_legacy_model_config (backfill_snapshot (rn_state rt)))"
proof -
  have "live_in_step w (fresh_runtime (new_run []) db)"
    using assms(1) projects_new [OF assms(2)] by (simp add: live_in_step_def fresh_runtime_def)
  from session_in_step [OF assms(4) this assms(3)] show ?thesis
    by (intro loads_live assms(5,6)) (simp_all add: live_in_step_def)
qed

definition sample_domain :: domain where
  "sample_domain = \<lparr>dm_platform = [], dm_arch = [], dm_baseline = [], dm_policy = [], dm_contract = []\<rparr>"

definition sample_world :: world where
  "sample_world = \<lparr>wd_env = sample_env, wd_clock = nat, wd_payload_id = (\<lambda>_. None), wd_oversize = (\<lambda>_. False),
     wd_render = (\<lambda>_. ''diagnostics''), wd_remember = (\<lambda>_ _. None), wd_publication = (\<lambda>_ _. Inr None),
     wd_record = (\<lambda>_ _ _. Inl ''no record''), wd_environments = (\<lambda>_. None), wd_binding = (\<lambda>_. None),
     wd_graph_native = None, wd_standard_git = (\<lambda>_. True), wd_shadow = (\<lambda>_. Inr None), wd_shadow_base = (\<lambda>_ _. None),
     wd_verify = (\<lambda>_. None), wd_snapshot = (\<lambda>_ _. Inr ''h0''), wd_exclusions = (\<lambda>_. Inr []),
     wd_policy = (\<lambda>_ _. Inr (None, ''none'')), wd_check_environment = (\<lambda>_ _. None),
     wd_initialize = (\<lambda>_ _. Inl ''no environment''), wd_valid_environment = (\<lambda>_. Inr ()), wd_same_path = (=),
     wd_finish_project = (\<lambda>_ _. None), wd_status = (\<lambda>_. Inr []), wd_merging = (\<lambda>_. False),
     wd_prepared_ancestor = (\<lambda>_ _. None), wd_snapshot_node = (\<lambda>_ _ _ _. Inr ''h1''), wd_stop = (\<lambda>_ _. None)\<rparr>"

definition sample_disk :: disk where
  "sample_disk = \<lparr>dk_is_dir = (\<lambda>_. False), dk_head = (\<lambda>_. None), dk_slots = [], dk_slot = (\<lambda>name. ''/slots/'' @ name),
     dk_hash = (\<lambda>_. None), dk_sessions = (\<lambda>_. Absent), dk_ids = (\<lambda>name. (''e-'' @ name, ''s-'' @ name)), dk_now = (\<lambda>_. 7),
     dk_valid_result = (\<lambda>_. None), dk_fixed_layout = (\<lambda>_. Inr False), dk_select = (\<lambda>_ _ _ _ _. Inl ''none''),
     dk_record_selected = (\<lambda>_ _ _. None), dk_canonical = Inr\<rparr>"

definition sample_session :: "command list" where
  "sample_session =
     [Create ''r'' sample_run_graph sample_config None None, Set_Route ''graph'', Approve,
      Schedule sample_disk True [], Pause True]"

lemma sample_session_runs:
  "case session sample_world sample_session (fresh_runtime (new_run []) store_empty) of
     Some rt \<Rightarrow> fresh_ids sample_world sample_session (fresh_runtime (new_run []) store_empty)
       \<and> contains_run (st_run_id (rn_state rt)) (rn_store rt)
       \<and> map ex_worktree (st_executions (rn_state rt)) = [''/slots/a-e-a''] \<and> st_paused (rn_state rt)
   | None \<Rightarrow> False"
  by code_simp

theorem session_reloads_witness:
  "\<exists>rt st. session sample_world sample_session (fresh_runtime (new_run []) store_empty) = Some rt
    \<and> load_run (wd_env sample_world) (\<lambda>_. False) (st_run_id (rn_state rt)) (rn_store rt) = Some (Inr st)
    \<and> control st = control (hydrate_legacy_model_config (backfill_snapshot (rn_state rt)))
    \<and> map ex_worktree (st_executions (rn_state rt)) = [''/slots/a-e-a'']"
proof -
  obtain rt where rt: "session sample_world sample_session (fresh_runtime (new_run []) store_empty) = Some rt"
    "fresh_ids sample_world sample_session (fresh_runtime (new_run []) store_empty)"
    "contains_run (st_run_id (rn_state rt)) (rn_store rt)"
    "map ex_worktree (st_executions (rn_state rt)) = [''/slots/a-e-a'']"
    using sample_session_runs by (auto split: option.splits)
  have "db_ok store_empty" and "fresh_run [] store_empty"
    by (simp_all add: db_ok_def store_empty_def fresh_run_def contains_run_def bt_get_def)
  from session_reloads [OF this rt(2,1,3), of "\<lambda>_. False"] rt(1,4) show ?thesis by auto
qed

end
