(* ===== verification/Scheduler_Correct.thy ===== *)
theory Scheduler_Correct
  imports Sessions
begin

text \<open>
  What a scheduling pass guarantees: it blocks exactly the nodes that are cut off, starts only nodes whose
  upstream results exist, never more than there are workers, never two in one directory, and publishes only a
  run that is complete.
\<close>

section \<open>State invariants of the commands\<close>

lemma identity_bare: "(\<And>e. bare (f e) = bare e) \<Longrightarrow> identity_of (f e) = identity_of e"
proof -
  have "identity_of e = identity_of (bare e)" for e by (simp add: identity_of_def bare_def)
  then show "(\<And>e. bare (f e) = bare e) \<Longrightarrow> identity_of (f e) = identity_of e" by metis
qed

lemma wf_frames: "run_wf st \<Longrightarrow> run_wf (update_attempt p f st)" "run_wf st \<Longrightarrow> run_wf (refresh_metrics en st)"
  by (simp_all add: run_wf_def collections_wf_def refresh_metrics_def)

interpretation wf_commands: live_relation "\<lambda>st st'. run_wf st \<longrightarrow> run_wf st'"
  by unfold_locales (use apply_wf wf_frames in blast)+

lemma history_refreshed: "history_le st (refresh_metrics en st)"
  by (simp add: history_le_def refresh_metrics_def)

interpretation history_commands: live_relation history_le
  by unfold_locales (use history_trans apply_history history_update_attempt identity_bare history_refreshed in \<open>blast | simp\<close>)+

section \<open>Blocking\<close>

text \<open>Blocking a list of idle nodes touches nothing else.\<close>

lemma emit_blocks_get:
  assumes "emit_each w (map block_event names) rt = Ok rt'"
  shows "bt_get (st_nodes (rn_state rt')) name
    = (if name \<in> set names then map_option (blocked_node ''Required upstream branch failed or is blocked'')
         (bt_get (st_nodes (rn_state rt)) name)
       else bt_get (st_nodes (rn_state rt)) name)"
  using assms
proof (induction names arbitrary: rt)
  case (Cons x names)
  from Cons.prems obtain rt1 where rt1: "emit w (block_event x) rt = Ok rt1" "emit_each w (map block_event names) rt1 = Ok rt'"
    by (auto simp: andthen_def split: outcome.splits)
  have "blocked_node e (blocked_node e n) = blocked_node e n" for e n by (simp add: blocked_node_def)
  with Cons.IH [OF rt1(2)] emit_block [OF rt1(1) [unfolded block_event_def]] show ?case
    by (auto simp: btree_simps option.map_comp o_def)
qed simp

definition cut_reason :: "graph \<Rightarrow> (string \<Rightarrow> node_state option) \<Rightarrow> string \<Rightarrow> bool" where
  "cut_reason g get name \<longleftrightarrow> (\<exists>e \<in> set (incoming g name). case get (eg_from e) of
     Some n \<Rightarrow> ns_status n \<in> set [''failed'', ''blocked''] | None \<Rightarrow> False)"

lemma cut_reason_iff: "cut_reason g get name \<longleftrightarrow>
    (\<exists>e \<in> set (incoming g name). \<exists>n. get (eg_from e) = Some n \<and> ns_status n \<in> set [''failed'', ''blocked''])"
  unfolding cut_reason_def by (rule bex_cong [OF refl]) (simp split: option.split)

lemma status_in_True: "status_in st statuses name = Some True \<longleftrightarrow>
    (\<exists>n. bt_get (st_nodes st) name = Some n \<and> ns_status n \<in> set statuses)"
  by (auto simp: status_in_def)

lemma any_opt_True: "any_opt f xs = Some True \<Longrightarrow> \<exists>x \<in> set xs. f x = Some True"
  by (induction xs) (auto split: option.splits bool.splits)

lemma any_opt_False: "any_opt f xs = Some False \<longleftrightarrow> (\<forall>x \<in> set xs. f x = Some False)"
  by (induction xs) (auto split: option.splits bool.splits)

lemma all_opt_True: "all_opt f xs = Some True \<longleftrightarrow> (\<forall>x \<in> set xs. f x = Some True)"
  by (induction xs) (auto split: option.splits bool.splits)

lemma take_opt_all: "take_opt None f xs = Some [] \<Longrightarrow> x \<in> set xs \<Longrightarrow> f x = Some False"
  by (induction xs) (auto split: option.splits bool.splits)

lemma take_opt_prefix: "take_opt (Some k) f xs = Some ys \<Longrightarrow> length ys \<le> k"
proof (induction xs arbitrary: k ys)
  case (Cons x xs)
  then show ?case
    by (cases "f x") (fastforce split: if_splits option.splits bool.splits)+
qed simp

lemma take_opt_subseq: "take_opt limit f xs = Some ys \<Longrightarrow> subseq ys xs"
proof (induction xs arbitrary: limit ys)
  case (Cons x xs)
  then show ?case
    by (cases "f x") (fastforce split: if_splits option.splits bool.splits)+
qed simp

text \<open>What the loop does to the nodes: those it touches were idle, free of any verdict and have a dead upstream.\<close>

definition blocked_from :: "string list \<Rightarrow> snapshot \<Rightarrow> snapshot \<Rightarrow> bool" where
  "blocked_from busy st st' \<longleftrightarrow> st_graph st' = st_graph st \<and> st_executions st' = st_executions st
     \<and> (\<forall>name. bt_get (st_nodes st') name = bt_get (st_nodes st) name
          \<or> (\<exists>n. bt_get (st_nodes st) name = Some n \<and> ns_status n \<in> set [''waiting'', ''dirty''] \<and> name \<notin> set busy
               \<and> cut_reason (st_graph st) (bt_get (st_nodes st')) name
               \<and> bt_get (st_nodes st') name = Some (blocked_node ''Required upstream branch failed or is blocked'' n)))"

lemma blocked_from_refl: "blocked_from busy st st"
  by (simp add: blocked_from_def)

lemma blocked_from_dead:
  assumes "blocked_from busy st st'" and "bt_get (st_nodes st) x = Some n" and "ns_status n \<in> set [''failed'', ''blocked'', ''completed'', ''running'']"
  shows "bt_get (st_nodes st') x = Some n"
  using assms unfolding blocked_from_def by (elim conjE allE [of _ x]) auto

lemma blocked_from_reason:
  assumes "blocked_from busy st st'" and "cut_reason g (bt_get (st_nodes st)) name"
  shows "cut_reason g (bt_get (st_nodes st')) name"
proof -
  from assms(2) obtain e n where e: "e \<in> set (incoming g name)" "bt_get (st_nodes st) (eg_from e) = Some n"
    "ns_status n \<in> set [''failed'', ''blocked'']" unfolding cut_reason_iff by blast
  then have "bt_get (st_nodes st') (eg_from e) = Some n" by (intro blocked_from_dead [OF assms(1)]) auto
  with e show ?thesis unfolding cut_reason_iff by blast
qed

lemma blocked_from_trans:
  assumes first: "blocked_from busy st st1" and second: "blocked_from busy st1 st2"
  shows "blocked_from busy st st2"
proof -
  have graph: "st_graph st2 = st_graph st" "st_graph st1 = st_graph st" "st_executions st2 = st_executions st"
    using assms by (simp_all add: blocked_from_def)
  let ?done = "\<lambda>name a b. bt_get (st_nodes b) name = bt_get (st_nodes a) name
      \<or> (\<exists>n. bt_get (st_nodes a) name = Some n \<and> ns_status n \<in> set [''waiting'', ''dirty''] \<and> name \<notin> set busy
           \<and> cut_reason (st_graph a) (bt_get (st_nodes b)) name
           \<and> bt_get (st_nodes b) name = Some (blocked_node ''Required upstream branch failed or is blocked'' n))"
  have "?done name st st2" for name
  proof -
    from first have "?done name st st1" unfolding blocked_from_def by blast
    then show ?thesis
    proof
      assume same: "bt_get (st_nodes st1) name = bt_get (st_nodes st) name"
      from second have "?done name st1 st2" unfolding blocked_from_def by blast
      with same graph show ?thesis by simp
    next
      assume "\<exists>n. bt_get (st_nodes st) name = Some n \<and> ns_status n \<in> set [''waiting'', ''dirty''] \<and> name \<notin> set busy
           \<and> cut_reason (st_graph st) (bt_get (st_nodes st1)) name
           \<and> bt_get (st_nodes st1) name = Some (blocked_node ''Required upstream branch failed or is blocked'' n)"
      then obtain n where n: "bt_get (st_nodes st) name = Some n" "ns_status n \<in> set [''waiting'', ''dirty'']" "name \<notin> set busy"
        "cut_reason (st_graph st) (bt_get (st_nodes st1)) name"
        "bt_get (st_nodes st1) name = Some (blocked_node ''Required upstream branch failed or is blocked'' n)" by blast
      have "bt_get (st_nodes st2) name = bt_get (st_nodes st1) name"
        using blocked_from_dead [OF second n(5)] n(5) by (simp add: blocked_node_def)
      with n blocked_from_reason [OF second n(4)] show ?thesis by auto
    qed
  qed
  with graph show ?thesis by (simp add: blocked_from_def)
qed

lemma cut_offD:
  assumes "cut_off_nodes st busy = Some names" and "name \<in> set names"
  shows "name \<notin> set busy \<and> cut_reason (st_graph st) (bt_get (st_nodes st)) name
    \<and> (\<exists>n. bt_get (st_nodes st) name = Some n \<and> ns_status n \<in> set [''waiting'', ''dirty''])"
proof -
  from assms obtain ns n where ns: "take_opt None (cut_off st busy) (gr_nodes (st_graph st)) = Some ns" "n \<in> set ns" "nd_name n = name"
    by (auto simp: cut_off_nodes_def)
  have "cut_off st busy n = Some True" using take_opt_holds [OF ns(1,2)] by simp
  then have parts: "name \<notin> set busy" "status_in st [''waiting'', ''dirty''] name = Some True"
    "any_opt (\<lambda>e. status_in st [''failed'', ''blocked''] (eg_from e)) (incoming (st_graph st) name) = Some True"
    unfolding cut_off_def by (simp_all add: ns(3) when_opt_True and_opt_True)
  from any_opt_True [OF parts(3)] parts(1,2) show ?thesis
    unfolding status_in_True cut_reason_iff by blast
qed

lemma round_blocks:
  assumes cut: "cut_off_nodes (rn_state rt) busy = Some names"
    and emitted: "emit_each w (map block_event names) rt = Ok rt'"
  shows "blocked_from busy (rn_state rt) (rn_state rt')"
proof -
  note get = emit_blocks_get [OF emitted]
  have dead: "bt_get (st_nodes (rn_state rt')) x = Some n"
    if "bt_get (st_nodes (rn_state rt)) x = Some n" "ns_status n \<in> set [''failed'', ''blocked'']" for x n
    using get [of x] cut_offD [OF cut, of x] that by auto
  have "cut_reason g (bt_get (st_nodes (rn_state rt'))) name"
    if reason: "cut_reason g (bt_get (st_nodes (rn_state rt))) name" for g name
  proof -
    from reason obtain e n where e: "e \<in> set (incoming g name)" "bt_get (st_nodes (rn_state rt)) (eg_from e) = Some n"
      "ns_status n \<in> set [''failed'', ''blocked'']" unfolding cut_reason_iff by blast
    from e(1,3) dead [OF e(2,3)] show ?thesis unfolding cut_reason_iff by blast
  qed
  note kept = this
  have "bt_get (st_nodes (rn_state rt')) name = bt_get (st_nodes (rn_state rt)) name
      \<or> (\<exists>n. bt_get (st_nodes (rn_state rt)) name = Some n \<and> ns_status n \<in> set [''waiting'', ''dirty''] \<and> name \<notin> set busy
           \<and> cut_reason (st_graph (rn_state rt)) (bt_get (st_nodes (rn_state rt'))) name
           \<and> bt_get (st_nodes (rn_state rt')) name = Some (blocked_node ''Required upstream branch failed or is blocked'' n))" for name
    using get [of name] cut_offD [OF cut, of name] kept [of _ name] by (cases "name \<in> set names") auto
  with emit_blocks [OF emitted] show ?thesis unfolding blocked_from_def by blast
qed

lemma block_loop_result:
  "block_loop w busy rt = Ok rt' \<Longrightarrow>
   blocked_from busy (rn_state rt) (rn_state rt') \<and> cut_off_nodes (rn_state rt') busy = Some []"
proof (induction w busy rt rule: block_loop.induct)
  case (1 w busy rt)
  from "1.prems" obtain names where names: "cut_off_nodes (rn_state rt) busy = Some names"
    by (cases "cut_off_nodes (rn_state rt) busy") (simp_all add: block_loop.simps [of w busy rt])
  show ?case
  proof (cases names)
    case Nil
    with "1.prems" names show ?thesis by (simp add: block_loop.simps [of w busy rt] blocked_from_refl)
  next
    case (Cons x xs)
    with "1.prems" names obtain rt1 where rt1: "emit_each w (map block_event names) rt = Ok rt1" "block_loop w busy rt1 = Ok rt'"
      by (auto simp: block_loop.simps [of w busy rt] simp del: emit_each.simps list.map split: outcome.splits)
    from "1.IH" [of names x xs rt1] rt1 Cons names
    have "blocked_from busy (rn_state rt1) (rn_state rt') \<and> cut_off_nodes (rn_state rt') busy = Some []" by simp
    with blocked_from_trans [OF round_blocks [OF names rt1(1)]] show ?thesis by blast
  qed
qed

text \<open>C13: blocking is exact.  The loop that blocks nodes always ends (its definition carries the termination
  proof); when it is done no waiting node outside the scope of a verdict has a failed or blocked upstream, a
  node changed only if it was waiting, outside every such scope and has a failed or blocked upstream, and then
  only by becoming blocked.\<close>

theorem blocking_exact:
  assumes "block_loop w busy rt = Ok rt'"
  shows "(\<forall>n \<in> set (gr_nodes (st_graph (rn_state rt'))).
        nd_name n \<notin> set busy \<and> status_in (rn_state rt') [''waiting'', ''dirty''] (nd_name n) = Some True \<longrightarrow>
        \<not> cut_reason (st_graph (rn_state rt')) (bt_get (st_nodes (rn_state rt'))) (nd_name n))
    \<and> (\<forall>name. bt_get (st_nodes (rn_state rt')) name \<noteq> bt_get (st_nodes (rn_state rt)) name \<longrightarrow>
        name \<notin> set busy \<and> cut_reason (st_graph (rn_state rt')) (bt_get (st_nodes (rn_state rt'))) name
        \<and> (\<exists>n. bt_get (st_nodes (rn_state rt)) name = Some n \<and> ns_status n \<in> set [''waiting'', ''dirty'']
             \<and> bt_get (st_nodes (rn_state rt')) name
                 = Some (blocked_node ''Required upstream branch failed or is blocked'' n)))"
proof (rule conjI, intro ballI impI)
  let ?st = "rn_state rt'"
  note result = block_loop_result [OF assms]
  fix n assume n: "n \<in> set (gr_nodes (st_graph ?st))"
    and idle: "nd_name n \<notin> set busy \<and> status_in ?st [''waiting'', ''dirty''] (nd_name n) = Some True"
  from result have "take_opt None (cut_off ?st busy) (gr_nodes (st_graph ?st)) = Some []" by (auto simp: cut_off_nodes_def)
  from take_opt_all [OF this n] have "cut_off ?st busy n = Some False" .
  with idle have "any_opt (\<lambda>e. status_in ?st [''failed'', ''blocked''] (eg_from e)) (incoming (st_graph ?st) (nd_name n)) = Some False"
    unfolding cut_off_def by (simp add: when_opt_def and_opt_def)
  then show "\<not> cut_reason (st_graph ?st) (bt_get (st_nodes ?st)) (nd_name n)"
    by (auto simp: any_opt_False cut_reason_def status_in_def split: option.splits)
next
  show "\<forall>name. bt_get (st_nodes (rn_state rt')) name \<noteq> bt_get (st_nodes (rn_state rt)) name \<longrightarrow>
        name \<notin> set busy \<and> cut_reason (st_graph (rn_state rt')) (bt_get (st_nodes (rn_state rt'))) name
        \<and> (\<exists>n. bt_get (st_nodes (rn_state rt)) name = Some n \<and> ns_status n \<in> set [''waiting'', ''dirty'']
             \<and> bt_get (st_nodes (rn_state rt')) name
                 = Some (blocked_node ''Required upstream branch failed or is blocked'' n))"
    using block_loop_result [OF assms] unfolding blocked_from_def by metis
qed

section \<open>Starting a node\<close>

lemma decideE:
  assumes "decide w d repository direct_run st node n = Some (Inr dc)"
  obtains heads r where "collect_heads ''Ready node has no completed parent head'' st (parents (st_graph st) (nd_name node)) = Some (Inr heads)"
    and "dc_parent_heads dc = heads" "dc_resumption dc = r"
    and "dc_execution dc = new_execution d st (nd_name node) n r (dc_fork dc) (dc_slot dc)"
proof -
  from assms obtain z where z: "collect_heads ''Ready node has no completed parent head'' st (parents (st_graph st) (nd_name node)) = Some z"
    by (cases "collect_heads ''Ready node has no completed parent head'' st (parents (st_graph st) (nd_name node))")
      (simp_all add: decide_def Let_def)
  with assms obtain heads where heads: "z = Inr heads" by (cases z) (simp_all add: decide_def Let_def)
  from assms z heads obtain r where "resumption_of d st (nd_name node) n (direct_run \<or> (ns_continuation n \<and> ns_source_direct_recovery n)) = Inr r"
    by (cases "resumption_of d st (nd_name node) n (direct_run \<or> (ns_continuation n \<and> ns_source_direct_recovery n))")
      (simp_all add: decide_def Let_def map_result_def)
  with assms z heads that show ?thesis by (auto simp: decide_def Let_def map_result_def)
qed

lemma new_execution_fields [simp]:
  "ex_node (new_execution d st name n r fork slot) = name" "ex_output (new_execution d st name n r fork slot) = []"
  "ex_status (new_execution d st name n r fork slot) = ''running''"
  by (simp_all add: new_execution_def Let_def)

lemma collect_heads_Inr:
  "collect_heads e st names = Some (Inr heads) \<Longrightarrow> map (node_head st) names = map Some heads"
proof (induction names arbitrary: heads)
  case (Cons name names)
  then obtain n head rest where "bt_get (st_nodes st) name = Some n" "ns_head n = Some head"
    "collect_heads e st names = Some (Inr rest)" "heads = head # rest"
    by (auto simp: map_result_Inr split: option.splits)
  with Cons.IH show ?case by (simp add: node_head_def)
qed simp

text \<open>What a dispatch leaves, whether it succeeds or fails.\<close>

lemma dispatchE:
  assumes "left (dispatch w d c repository direct_run materialize node s) = Some s'"
  obtains (same) "rn_state (fst s') = rn_state (fst s)" "snd s' = snd s"
  | (blocked) error ev where "ev_kind ev = Blocked (nd_name node) error"
      "apply_event (wd_env w) ev (rn_state (fst s)) = Some (rn_state (fst s'))" "snd s' = snd s"
  | (started) n dc ev j where "bt_get (st_nodes (rn_state (fst s))) (nd_name node) = Some n"
      "decide w d repository direct_run (rn_state (fst s)) node n = Some (Inr dc)"
      "\<not> slot_taken w (rn_state (fst s)) (ex_worktree (dc_execution dc))"
      "ev_kind ev = started_event dc n"
      "apply_event (wd_env w) ev (rn_state (fst s)) = Some (rn_state (fst s'))"
      "snd s' = snd s @ [j]" "jb_execution j = dc_execution dc" "jb_parent_heads j = dc_parent_heads dc"
proof -
  let ?st = "rn_state (fst s)" and ?name = "nd_name node"
  have emitting: "rn_state (fst t) = ?st \<and> snd t = snd s
      \<or> (\<exists>ev. ev_kind ev = kind \<and> apply_event (wd_env w) ev ?st = Some (rn_state (fst t)) \<and> snd t = snd s)"
    if "left (on_runtime (emit w kind) s) = Some t" "plain_kind kind" for kind t
  proof -
    from that(1) have "left (emit w kind (fst s)) = Some (fst t)" and "snd t = snd s"
      by (cases "emit w kind (fst s)"; auto simp: on_runtime_def)+
    with emit_plain_left [OF _ that(2)] show ?thesis by blast
  qed
  from assms obtain n where n: "bt_get (st_nodes ?st) ?name = Some n"
    by (cases "bt_get (st_nodes ?st) ?name") (simp_all add: dispatch_def Let_def)
  show ?thesis
  proof (cases "decide w d repository direct_run ?st node n")
    case None
    with assms n show ?thesis by (simp add: dispatch_def Let_def)
  next
    case (Some r)
    show ?thesis
    proof (cases r)
      case (Inl e)
      with assms n Some same show ?thesis by (simp add: dispatch_def Let_def)
    next
      case (Inr dc)
      note dc = Some [unfolded Inr]
      then have plain: "plain_kind (started_event dc n)"
        by (elim decideE) (simp add: started_event_def plain_kind_def)
      have start: ?thesis if run: "left (start_node w d c materialize node n dc environment s) = Some s'"
        and free: "\<not> slot_taken w ?st (ex_worktree (dc_execution dc))" for environment
      proof (cases "on_runtime (emit w (started_event dc n)) s")
        case (Ok t)
        with run have s': "fst s' = fst t" "snd s' = snd t @ [job_of w d c materialize node n dc environment ?st (rn_state (fst t))]"
          by (auto simp: start_node_def andthen_def)
        from Ok obtain rt1 where rt1: "emit w (started_event dc n) (fst s) = Ok rt1" "t = (rt1, snd s)"
          by (cases "emit w (started_event dc n) (fst s)") (auto simp: on_runtime_def)
        from emit_plain_event [OF rt1(1) plain] obtain ev where "ev_kind ev = started_event dc n"
          "apply_event (wd_env w) ev ?st = Some (rn_state rt1)" by blast
        with started [OF n dc free, of ev "job_of w d c materialize node n dc environment ?st (rn_state (fst t))"]
        show ?thesis by (simp add: s' rt1(2) job_of_def Let_def)
      next
        case (Error e t)
        then obtain rt1 where rt1: "emit w (started_event dc n) (fst s) = Error e rt1" "t = (rt1, snd s)"
          by (cases "emit w (started_event dc n) (fst s)") (auto simp: on_runtime_def)
        from run Error have "s' = t" by (simp add: start_node_def andthen_def)
        with emit_plain_error [OF rt1(1) plain] show ?thesis by (intro same) (simp_all add: rt1(2))
      qed (use run in \<open>simp add: start_node_def andthen_def\<close>)
      have unblocked: ?thesis if "left (on_runtime (emit w (Blocked ?name e)) s) = Some s'" for e
        using emitting [OF that] same blocked by (auto simp: plain_kind_def)
      from assms have "s' = s \<or> \<not> slot_taken w ?st (ex_worktree (dc_execution dc))
          \<and> ((\<exists>environment. left (start_node w d c materialize node n dc environment s) = Some s')
             \<or> (\<exists>e. left (on_runtime (emit w (Blocked ?name e)) s) = Some s'))"
        unfolding dispatch_def Let_def n dc option.case sum.case try_ok_def
        by (auto split: if_splits option.splits sum.splits)
      with start unblocked same show ?thesis by blast
    qed
  qed
qed

section \<open>A pass step by step\<close>

definition running_names :: "snapshot \<Rightarrow> string set" where
  "running_names st = {name. \<exists>n. bt_get (st_nodes st) name = Some n \<and> ns_status n = ''running''}"

definition running_executions :: "snapshot \<Rightarrow> execution list" where
  "running_executions st = filter (\<lambda>e. ex_status e = ''running'') (st_executions st)"

definition apart :: "world \<Rightarrow> snapshot \<Rightarrow> bool" where
  "apart w st \<longleftrightarrow> sorted_wrt (\<lambda>a b. \<not> wd_same_path w (ex_worktree a) (ex_worktree b)) (running_executions st)"

text \<open>Outside \<open>names\<close> a node changes at most by being freed.\<close>

definition stays :: "string set \<Rightarrow> snapshot \<Rightarrow> snapshot \<Rightarrow> bool" where
  "stays names st st' \<longleftrightarrow> st_graph st' = st_graph st
     \<and> (\<forall>name n. name \<notin> names \<longrightarrow> bt_get (st_nodes st) name = Some n \<longrightarrow>
          bt_get (st_nodes st') name = Some n \<or> bt_get (st_nodes st') name = Some (unblock_node n))"

lemma stays_refl: "stays names st st"
  by (simp add: stays_def)

lemma unblock_twice [simp]: "unblock_node (unblock_node n) = unblock_node n"
  by (simp add: unblock_node_def)

lemma stays_trans:
  assumes "stays names st st1" and "stays names st1 st2"
  shows "stays names st st2"
  unfolding stays_def
proof (intro conjI allI impI)
  show "st_graph st2 = st_graph st" using assms by (simp add: stays_def)
  fix name n assume name: "name \<notin> names" and n: "bt_get (st_nodes st) name = Some n"
  with assms(1) have "bt_get (st_nodes st1) name = Some n \<or> bt_get (st_nodes st1) name = Some (unblock_node n)"
    unfolding stays_def by blast
  with assms(2) name show "bt_get (st_nodes st2) name = Some n \<or> bt_get (st_nodes st2) name = Some (unblock_node n)"
    unfolding stays_def by (metis unblock_twice)
qed

lemma stays_mono: "stays names st st' \<Longrightarrow> names \<subseteq> names' \<Longrightarrow> stays names' st st'"
  unfolding stays_def by blast

lemma stays_completed:
  "stays names st st' \<Longrightarrow> name \<notin> names \<Longrightarrow> bt_get (st_nodes st) name = Some n \<Longrightarrow> ns_status n = ''completed'' \<Longrightarrow>
   bt_get (st_nodes st') name = Some n"
  unfolding stays_def by (auto simp: unblock_node_def)

text \<open>What starting some nodes of \<open>names\<close> does, with the jobs it adds.\<close>

definition progressed :: "world \<Rightarrow> string set \<Rightarrow> snapshot \<Rightarrow> job list \<Rightarrow> snapshot \<Rightarrow> bool" where
  "progressed w names st js st' \<longleftrightarrow> stays names st st'
     \<and> st_executions st' = st_executions st @ map jb_execution js
     \<and> running_names st' \<subseteq> running_names st \<union> (ex_node \<circ> jb_execution) ` set js
     \<and> (apart w st \<longrightarrow> apart w st')
     \<and> (\<forall>j \<in> set js. ex_node (jb_execution j) \<in> names
          \<and> (\<exists>mid. stays names st mid
               \<and> map (node_head mid) (parents (st_graph st) (ex_node (jb_execution j))) = map Some (jb_parent_heads j)))"

lemma progressed_refl: "progressed w names st [] st"
  by (simp add: progressed_def stays_refl)

lemma progressed_trans:
  assumes first: "progressed w names st js st1" and second: "progressed w names st1 js' st2"
  shows "progressed w names st (js @ js') st2"
proof -
  have graph: "st_graph st1 = st_graph st" and stay: "stays names st st1" using first by (simp_all add: progressed_def stays_def)
  have mid: "\<exists>mid. stays names st mid \<and> map (node_head mid) (parents (st_graph st) x) = hs"
    if "\<exists>mid. stays names st1 mid \<and> map (node_head mid) (parents (st_graph st1) x) = hs" for x hs
    using that stays_trans [OF stay] unfolding graph by blast
  have "stays names st st2" using stay second stays_trans unfolding progressed_def by blast
  moreover have "st_executions st2 = st_executions st @ map jb_execution (js @ js')"
    using first second by (simp add: progressed_def)
  moreover have "running_names st2 \<subseteq> running_names st \<union> (ex_node \<circ> jb_execution) ` set (js @ js')"
    using first second unfolding progressed_def set_append image_Un by blast
  moreover have "apart w st \<longrightarrow> apart w st2" using first second by (simp add: progressed_def)
  moreover have "\<forall>j \<in> set (js @ js'). ex_node (jb_execution j) \<in> names
      \<and> (\<exists>mid. stays names st mid \<and> map (node_head mid) (parents (st_graph st) (ex_node (jb_execution j))) = map Some (jb_parent_heads j))"
    using first second mid unfolding progressed_def set_append by blast
  ultimately show ?thesis unfolding progressed_def by blast
qed

lemma progressed_mono: "progressed w names st js st' \<Longrightarrow> names \<subseteq> names' \<Longrightarrow> progressed w names' st js st'"
  unfolding progressed_def using stays_mono by blast

lemma apart_started:
  assumes "apart w st" and "\<not> slot_taken w st (ex_worktree e)" and "st_executions st' = st_executions st @ [e]"
  shows "apart w st'"
  using assms by (auto simp: apart_def running_executions_def sorted_wrt_append slot_taken_def)

lemma progressed_blocked:
  assumes "apply_event en ev st = Some st'" and "ev_kind ev = Blocked name error"
  shows "progressed w {name} st [] st'"
proof -
  from assms(1) obtain u where "handle_blocked name error (note_planning ev st) = Some u" and "st' = log_event en ev u"
    by (rule applyE [OF _ assms(2)]) (auto simp: handle_def)
  then have st': "st_nodes st' = bt_update name (blocked_node error) (st_nodes st)" "st_graph st' = st_graph st"
    "st_executions st' = st_executions st"
    by (auto simp: handle_blocked_def unwrap_node_def update_node_def split: if_splits)
  have "running_names st' \<subseteq> running_names st"
    by (auto simp: running_names_def st' btree_simps blocked_node_def split: if_splits)
  with st' show ?thesis
    by (simp add: progressed_def stays_def btree_simps apart_def running_executions_def)
qed

lemma progressed_started:
  assumes "apply_event en ev st = Some st'" and "ev_kind ev = Started e sequences fresh"
    and "\<not> slot_taken w st (ex_worktree e)" and "jb_execution j = e"
    and "map (node_head st) (parents (st_graph st) (ex_node e)) = map Some (jb_parent_heads j)"
  shows "progressed w {ex_node e} st [j] st'"
proof -
  note effect = started_effect [OF assms(1,2)]
  then have graph: "st_graph st' = st_graph st" and es: "st_executions st' = st_executions st @ [e]" by simp_all
  have other: "bt_get (st_nodes st') x = bt_get (st_nodes st) x
      \<or> bt_get (st_nodes st') x = map_option unblock_node (bt_get (st_nodes st) x)" if "x \<noteq> ex_node e" for x
    using effect that by simp
  have stay: "stays {ex_node e} st st'"
    unfolding stays_def
  proof (intro conjI allI impI graph)
    fix x n assume "x \<notin> {ex_node e}" "bt_get (st_nodes st) x = Some n"
    with other [of x] show "bt_get (st_nodes st') x = Some n \<or> bt_get (st_nodes st') x = Some (unblock_node n)" by auto
  qed
  have "running_names st' \<subseteq> running_names st \<union> {ex_node e}"
  proof
    fix x assume "x \<in> running_names st'"
    then obtain n where n: "bt_get (st_nodes st') x = Some n" "ns_status n = ''running''" by (auto simp: running_names_def)
    show "x \<in> running_names st \<union> {ex_node e}"
    proof (cases "x = ex_node e")
      case False
      with other [of x] n obtain m where "bt_get (st_nodes st) x = Some m" "n = m \<or> n = unblock_node m"
        by (cases "bt_get (st_nodes st) x") auto
      with n(2) show ?thesis by (auto simp: running_names_def unblock_node_def split: if_splits)
    qed simp
  qed
  with stay es graph assms(3-5) apart_started [OF _ _ es] stays_refl show ?thesis by (auto simp: progressed_def)
qed

lemma dispatch_progressed:
  assumes "left (dispatch w d c repository direct_run materialize node s) = Some s'"
  shows "\<exists>js. length js \<le> 1 \<and> snd s' = snd s @ js \<and> progressed w {nd_name node} (rn_state (fst s)) js (rn_state (fst s'))"
  using assms
proof (cases rule: dispatchE)
  case same
  then show ?thesis by (intro exI [of _ "[]"]) (simp add: progressed_refl)
next
  case (blocked error ev)
  from progressed_blocked [OF blocked(2,1)] blocked(3) show ?thesis by (intro exI [of _ "[]"]) simp
next
  case (started n dc ev j)
  from started(2) obtain heads r where heads: "collect_heads ''Ready node has no completed parent head'' (rn_state (fst s))
      (parents (st_graph (rn_state (fst s))) (nd_name node)) = Some (Inr heads)" "dc_parent_heads dc = heads"
    and e: "ex_node (dc_execution dc) = nd_name node"
    by (rule decideE) simp
  from collect_heads_Inr [OF heads(1)] heads(2) started(8) have
    "map (node_head (rn_state (fst s))) (parents (st_graph (rn_state (fst s))) (ex_node (dc_execution dc))) = map Some (jb_parent_heads j)"
    by (simp add: e)
  from progressed_started [OF started(5) started(4) [unfolded started_event_def] started(3,7) this] e started(6)
  show ?thesis by (intro exI [of _ "[j]"]) simp
qed

lemma dispatch_all_progressed:
  "left (dispatch_all (dispatch w d c repository direct_run materialize) nodes s) = Some s' \<Longrightarrow>
   \<exists>js. length js \<le> length nodes \<and> snd s' = snd s @ js
     \<and> progressed w (nd_name ` set nodes) (rn_state (fst s)) js (rn_state (fst s'))"
proof (induction nodes arbitrary: s)
  case (Cons node nodes)
  let ?f = "dispatch w d c repository direct_run materialize"
  show ?case
  proof (cases "?f node s")
    case (Ok t)
    from Ok obtain js where js: "length js \<le> 1" "snd t = snd s @ js" "progressed w {nd_name node} (rn_state (fst s)) js (rn_state (fst t))"
      using dispatch_progressed [of w d c repository direct_run materialize node s t] by auto
    from Cons.prems Ok have "left (dispatch_all ?f nodes t) = Some s'" by (simp add: andthen_def)
    from Cons.IH [OF this] obtain js' where js': "length js' \<le> length nodes" "snd s' = snd t @ js'"
      "progressed w (nd_name ` set nodes) (rn_state (fst t)) js' (rn_state (fst s'))" by blast
    have "progressed w (nd_name ` set (node # nodes)) (rn_state (fst s)) (js @ js') (rn_state (fst s'))"
      by (rule progressed_trans [OF progressed_mono [OF js(3)] progressed_mono [OF js'(3)]]) auto
    with js js' show ?thesis by (intro exI [of _ "js @ js'"]) simp
  next
    case (Error e t)
    with Cons.prems have "left (?f node s) = Some s'" by (simp add: andthen_def)
    from dispatch_progressed [OF this] obtain js where "length js \<le> 1" "snd s' = snd s @ js"
      "progressed w {nd_name node} (rn_state (fst s)) js (rn_state (fst s'))" by blast
    then show ?thesis
      by (intro exI [of _ js]) (auto intro: progressed_mono)
  qed (use Cons.prems in \<open>simp add: andthen_def\<close>)
qed (auto simp: progressed_refl)

section \<open>Whole passes\<close>

lemma blocks_left:
  "left (emit_each w (map block_event names) rt) = Some rt' \<Longrightarrow> progressed w UNIV (rn_state rt) [] (rn_state rt')"
proof (induction names arbitrary: rt)
  case (Cons x names)
  have one: "progressed w UNIV (rn_state rt) [] (rn_state rt1)" if "left (emit w (block_event x) rt) = Some rt1" for rt1
  proof -
    have "plain_kind (block_event x)" by (simp add: block_event_def plain_kind_def)
    from emit_plain_left [OF that this] show ?thesis
    proof
      assume "\<exists>ev. ev_kind ev = block_event x \<and> apply_event (wd_env w) ev (rn_state rt) = Some (rn_state rt1)"
      then obtain ev where ev: "apply_event (wd_env w) ev (rn_state rt) = Some (rn_state rt1)"
        "ev_kind ev = Blocked x ''Required upstream branch failed or is blocked''" by (auto simp: block_event_def)
      from progressed_mono [OF progressed_blocked [OF ev]] show ?thesis by simp
    qed (simp add: progressed_refl)
  qed
  show ?case
  proof (cases "emit w (block_event x) rt")
    case (Ok rt1)
    with Cons.prems have "left (emit_each w (map block_event names) rt1) = Some rt'" by (simp add: andthen_def)
    from progressed_trans [OF one Cons.IH [OF this]] Ok show ?thesis by simp
  qed (use Cons.prems one in \<open>auto simp: andthen_def\<close>)
qed (simp add: progressed_refl)

lemma block_loop_left:
  "left (block_loop w busy rt) = Some rt' \<Longrightarrow> progressed w UNIV (rn_state rt) [] (rn_state rt')"
proof (induction w busy rt rule: block_loop.induct)
  case (1 w busy rt)
  from "1.prems" obtain names where names: "cut_off_nodes (rn_state rt) busy = Some names"
    by (cases "cut_off_nodes (rn_state rt) busy") (simp_all add: block_loop.simps [of w busy rt])
  show ?case
  proof (cases names)
    case Nil
    with "1.prems" names show ?thesis by (simp add: block_loop.simps [of w busy rt] progressed_refl)
  next
    case (Cons x xs)
    show ?thesis
    proof (cases "emit_each w (map block_event names) rt")
      case (Ok rt1)
      with "1.prems" names Cons have "left (block_loop w busy rt1) = Some rt'"
        by (simp add: block_loop.simps [of w busy rt] del: emit_each.simps list.map)
      with "1.IH" [of names x xs rt1] Ok Cons names have "progressed w UNIV (rn_state rt1) [] (rn_state rt')" by simp
      with blocks_left [of w names rt rt1] Ok progressed_trans [of w UNIV "rn_state rt" "[]" "rn_state rt1" "[]"] show ?thesis by simp
    qed (use "1.prems" names Cons blocks_left [of w names rt rt'] in
      \<open>auto simp: block_loop.simps [of w busy rt] simp del: emit_each.simps list.map\<close>)
  qed
qed

definition settling_kind :: "event_kind \<Rightarrow> bool" where
  "settling_kind kind \<longleftrightarrow> kind = Settled \<or> (\<exists>path heads. kind = PublicationStarted path heads)"

lemma settling_event:
  assumes "apply_event en ev st = Some st'" and "settling_kind (ev_kind ev)"
  shows "st_nodes st' = st_nodes st \<and> st_graph st' = st_graph st \<and> st_executions st' = st_executions st
    \<and> st_pending_feedback st' = st_pending_feedback st \<and> st_published_heads st' = st_published_heads st
    \<and> st_plan st' = st_plan st \<and> st_published_head st' = st_published_head st
    \<and> (case ev_kind ev of
         PublicationStarted path heads \<Rightarrow> map_option pb_heads (st_publication st') = Some heads
       | _ \<Rightarrow> st_phase st' \<noteq> ''publishing'')"
proof -
  from assms(2) have "\<not> is_output (ev_kind ev)" by (auto simp: settling_kind_def)
  with assms(1) obtain u where u: "handle en (ev_sequence ev) (ev_timestamp ev) (ev_kind ev) (note_planning ev st) = Some u"
    "st' = log_event en ev u" by (rule applyE [OF _ refl])
  have "st_plan (log_event en ev u) = st_plan u" "st_published_head (log_event en ev u) = st_published_head u" for u
    by (simp_all add: log_event_def refresh_metrics_def)
  moreover have "st_plan (note_planning ev st) = st_plan st" "st_published_head (note_planning ev st) = st_published_head st"
    by (simp_all add: note_planning_def record_planning_turn_def split: option.split)
  ultimately show ?thesis
    using assms(2) u
    by (auto simp: settling_kind_def handle_def handle_settled_def handle_publication_started_def split: if_splits)
qed

lemma settle_left:
  assumes "left (settle w d repository rt) = Some rt'"
  obtains (same) "rn_state rt' = rn_state rt"
  | (settled) ev where "ev_kind ev = Settled" "apply_event (wd_env w) ev (rn_state rt) = Some (rn_state rt')"
  | (publishing) ev path heads where "ev_kind ev = PublicationStarted path
        (if st_published_head (rn_state rt) \<noteq> None then undelivered_heads (st_published_heads (rn_state rt)) heads else heads)"
      "apply_event (wd_env w) ev (rn_state rt) = Some (rn_state rt')"
      "collect_heads ''Completed node has no snapshot'' (rn_state rt) (terminal_names (rn_state rt)) = Some (Inr heads)"
      "list_all (\<lambda>n. ns_status n = ''completed'') (bt_values (st_nodes (rn_state rt)))"
proof -
  let ?st = "rn_state rt"
  let ?send = "\<lambda>heads. if st_published_head ?st \<noteq> None then undelivered_heads (st_published_heads ?st) heads else heads"
  from assms consider "rt' = rt" | "left (emit w Settled rt) = Some rt'"
    | heads path where "collect_heads ''Completed node has no snapshot'' ?st (terminal_names ?st) = Some (Inr heads)"
        "list_all (\<lambda>n. ns_status n = ''completed'') (bt_values (st_nodes ?st))"
        "left (emit w (PublicationStarted path (?send heads)) rt) = Some rt'"
    unfolding settle_def request_publication_def Let_def try_get_def
    by (auto split: if_splits option.splits sum.splits)
  then show ?thesis
  proof cases
    case 2
    then show ?thesis using emit_plain_left [OF 2] same settled by (auto simp: plain_kind_def)
  next
    case (3 heads path)
    then show ?thesis using emit_plain_left [OF 3(3)] same publishing by (auto simp: plain_kind_def)
  qed (use same in simp)
qed

lemma settle_progressed: "left (settle w d repository rt) = Some rt' \<Longrightarrow> progressed w {} (rn_state rt) [] (rn_state rt')"
proof -
  have "progressed w {} st [] st'" if "apply_event (wd_env w) ev st = Some st'" "settling_kind (ev_kind ev)" for ev st st'
    using settling_event [OF that]
    by (simp add: progressed_def stays_def running_names_def apart_def running_executions_def)
  then show "left (settle w d repository rt) = Some rt' \<Longrightarrow> ?thesis"
    by (elim settle_left) (simp_all add: progressed_refl settling_kind_def)
qed

text \<open>A pass that ends well: the state after blocking, the nodes found ready there, and the one after the starts.\<close>

lemma pass_OkE:
  assumes "pass w d allow sources rt = Ok (rt', js)"
  obtains c repository materialize rt1 rt2 nodes where "effective_config (rn_state rt) = Some c"
    and "block_loop w (held_nodes (rn_state rt) sources) rt = Ok rt1"
    and "ready_nodes (rn_state rt1) (held_nodes (rn_state rt) sources) (available_workers (rn_state rt) c) = Some nodes"
    and "dispatch_all (dispatch w d c repository (source_direct_run (rn_state rt1)) materialize) nodes (rt1, []) = Ok (rt2, js)"
    and "finish_pass w d repository allow sources (rt2, js) = Ok (rt', js)"
proof -
  from assms obtain c repository where c: "effective_config (rn_state rt) = Some c" "resolve_repository w c = Inr repository"
    by (auto simp: pass_def try_get_def ok_or_def split: option.splits sum.splits)
  with assms obtain rt1 where rt1: "block_loop w (held_nodes (rn_state rt) sources) rt = Ok rt1"
    and rest: "andthen (start_ready w d c repository (held_nodes (rn_state rt) sources) (available_workers (rn_state rt) c) rt1)
      (finish_pass w d repository allow sources) = Ok (rt', js)"
    by (auto simp: pass_def try_get_def ok_or_def try_ok_def Let_def split: option.splits outcome.splits)
  from rest obtain s2 where s2: "start_ready w d c repository (held_nodes (rn_state rt) sources) (available_workers (rn_state rt) c) rt1 = Ok s2"
    "finish_pass w d repository allow sources s2 = Ok (rt', js)"
    by (auto simp: andthen_def split: outcome.splits)
  have "snd s2 = js"
    using s2(2) by (cases "settle w d repository (fst s2)") (auto simp: finish_pass_def on_runtime_def split: if_splits)
  then obtain rt2 where "s2 = (rt2, js)" by (cases s2) auto
  with s2 obtain nodes materialize where
    "ready_nodes (rn_state rt1) (held_nodes (rn_state rt) sources) (available_workers (rn_state rt) c) = Some nodes"
    "dispatch_all (dispatch w d c repository (source_direct_run (rn_state rt1)) materialize) nodes (rt1, []) = Ok (rt2, js)"
    by (auto simp: start_ready_def try_get_def split: option.splits sum.splits)
  with that [OF c(1) rt1] s2(2) \<open>s2 = (rt2, js)\<close> show ?thesis by blast
qed

lemma finish_pass_left:
  assumes "left (finish_pass w d repository allow sources s) = Some s'"
  shows "snd s' = snd s \<and> progressed w {} (rn_state (fst s)) [] (rn_state (fst s'))
    \<and> (snd s \<noteq> [] \<longrightarrow> fst s' = fst s)"
proof (cases "allow \<and> sources = [] \<and> snd s = [] \<and> is_quiescent (rn_state (fst s))")
  case True
  with assms have "left (settle w d repository (fst s)) = Some (fst s')" and "snd s' = snd s"
    by (cases "settle w d repository (fst s)"; auto simp: finish_pass_def on_runtime_def)+
  with settle_progressed True show ?thesis by blast
next
  case False
  with assms have "s' = s" by (auto simp: finish_pass_def)
  then show ?thesis by (simp add: progressed_refl)
qed

lemma pass_left:
  assumes run: "left (pass w d allow sources rt) = Some (rt', js)"
  shows "progressed w UNIV (rn_state rt) js (rn_state rt')
    \<and> (\<forall>c. effective_config (rn_state rt) = Some c \<longrightarrow> length js \<le> available_workers (rn_state rt) c)"
proof -
  let ?busy = "held_nodes (rn_state rt) sources"
  show ?thesis
  proof (cases "\<exists>c repository. effective_config (rn_state rt) = Some c \<and> resolve_repository w c = Inr repository
      \<and> (is_serial (rn_state rt) \<or> wd_graph_native w = None)")
    case False
    then have "rt' = rt \<and> js = []"
      using run by (auto simp: pass_def try_get_def ok_or_def try_ok_def split: option.splits sum.splits if_splits)
    then show ?thesis by (simp add: progressed_refl)
  next
    case True
    then obtain c repository where c: "effective_config (rn_state rt) = Some c" "resolve_repository w c = Inr repository"
      "(if is_serial (rn_state rt) then None else wd_graph_native w) = None" by auto
    let ?k = "available_workers (rn_state rt) c"
    from run c have rest: "left (case block_loop w ?busy rt of
           Panic \<Rightarrow> Panic
         | Error e rt \<Rightarrow> Error e (rt, [])
         | Ok rt \<Rightarrow> andthen (start_ready w d c repository ?busy ?k rt) (finish_pass w d repository allow sources)) = Some (rt', js)"
      by (simp add: pass_def try_get_def ok_or_def try_ok_def Let_def)
    show ?thesis
    proof (cases "block_loop w ?busy rt")
      case (Error e rt1)
      with rest block_loop_left [of w ?busy rt rt1] show ?thesis by auto
    next
      case (Ok rt1)
      note blocked = block_loop_left [of w ?busy rt rt1, unfolded Ok, simplified]
      have start: "\<exists>js'. snd s = js' \<and> length js' \<le> ?k \<and> progressed w UNIV (rn_state rt1) js' (rn_state (fst s))"
        if "left (start_ready w d c repository ?busy ?k rt1) = Some s" for s
      proof (cases "ready_nodes (rn_state rt1) ?busy ?k")
        case (Some nodes)
        then have "length nodes \<le> ?k" unfolding ready_nodes_def by (rule take_opt_prefix)
        with that Some dispatch_all_progressed [of w d c repository "source_direct_run (rn_state rt1)" _ nodes "(rt1, [])" s]
        show ?thesis
          by (fastforce simp: start_ready_def try_get_def progressed_refl split: sum.splits intro: progressed_mono)
      qed (use that in \<open>simp add: start_ready_def\<close>)
      show ?thesis
      proof (cases "start_ready w d c repository ?busy ?k rt1")
        case (Ok s)
        with rest \<open>block_loop w ?busy rt = Ok rt1\<close>
        have "left (finish_pass w d repository allow sources s) = Some (rt', js)" by (simp add: andthen_def)
        from finish_pass_left [OF this] have finished: "js = snd s" "progressed w UNIV (rn_state (fst s)) [] (rn_state rt')"
          by (auto intro: progressed_mono)
        with start [of s] Ok progressed_trans [OF progressed_trans [OF blocked] finished(2)] c show ?thesis by auto
      next
        case (Error e s)
        with rest \<open>block_loop w ?busy rt = Ok rt1\<close> have "s = (rt', js)" by (simp add: andthen_def)
        with start [of s] Error progressed_trans [OF blocked] c show ?thesis by auto
      qed (use rest Ok in \<open>simp add: andthen_def\<close>)
    qed (use rest in simp)
  qed
qed

section \<open>Properties of a pass\<close>

lemma running_nodes_card:
  assumes "bt_wf (st_nodes st)"
  shows "running_nodes st = card (running_names st)"
proof -
  let ?live = "filter (\<lambda>entry. ns_status (snd entry) = ''running'') (st_nodes st)"
  have keys: "distinct (map fst (st_nodes st))" by (rule bt_wf_distinct [OF assms])
  then have "distinct (map fst ?live)" by (rule distinct_map_filter)
  moreover have "running_names st = fst ` set ?live"
    using keys by (force simp: running_names_def bt_get_def map_of_eq_Some_iff)
  moreover have "running_nodes st = length ?live"
    by (simp add: running_nodes_def bt_values_def filter_map comp_def)
  ultimately show ?thesis using distinct_card [of "map fst ?live"] by simp
qed

lemma finite_running: "finite (running_names st)"
  by (rule finite_subset [of _ "fst ` set (st_nodes st)"]) (force simp: running_names_def bt_get_def dest: map_of_SomeD)+

text \<open>C11: workers are bounded.  Whether a pass succeeds or fails on the way, it starts at most as many nodes as
  there are free workers: afterwards no more nodes run than the limit of the run, one for a serial run and at
  most eight for a graph, unless more already ran before.\<close>

theorem workers_bounded:
  assumes "left (pass w d allow sources rt) = Some (rt', js)" and "effective_config (rn_state rt) = Some c"
    and "run_wf (rn_state rt)"
  shows "running_nodes (rn_state rt') \<le> max (running_nodes (rn_state rt)) (worker_limit (rn_state rt) c)
    \<and> length js \<le> worker_limit (rn_state rt) c - running_nodes (rn_state rt)
    \<and> worker_limit (rn_state rt) c \<le> 8 \<and> (is_serial (rn_state rt) \<longrightarrow> worker_limit (rn_state rt) c = 1)"
proof -
  let ?st = "rn_state rt" and ?st' = "rn_state rt'"
  have progress: "progressed w UNIV ?st js ?st'" and few: "length js \<le> worker_limit ?st c - running_nodes ?st"
    using pass_left [OF assms(1)] assms(2) by (simp_all add: available_workers_def)
  have "run_wf ?st'"
    using wf_commands.sounds_pass [of rt rt w d allow sources] assms(1,3)
    by (auto simp: sound_def wf_commands.okp_def)
  then have "running_nodes ?st' = card (running_names ?st')" by (intro running_nodes_card) (simp add: run_wf_def)
  also have "\<dots> \<le> card (running_names ?st \<union> (ex_node \<circ> jb_execution) ` set js)"
    using progress by (intro card_mono) (auto simp: progressed_def finite_running)
  also have "\<dots> \<le> card (running_names ?st) + length js"
    by (rule order_trans [OF card_Un_le]) (simp add: order_trans [OF card_image_le card_length])
  also have "card (running_names ?st) = running_nodes ?st"
    using running_nodes_card [of ?st] assms(3) by (simp add: run_wf_def)
  finally have "running_nodes ?st' \<le> running_nodes ?st + length js" .
  with few show ?thesis by (auto simp: worker_limit_def max_graph_workers_def)
qed

text \<open>C9: a node starts only on finished work.  Every job of a pass belongs to a node that no verdict can still
  change, all its upstream nodes are completed, in the state the pass ends in too, the job carries exactly their
  heads, and its attempt is among the recorded ones.\<close>

theorem starts_on_finished_work:
  assumes "pass w d allow sources rt = Ok (rt', js)" and "j \<in> set js"
  defines "name \<equiv> ex_node (jb_execution j)" and "st' \<equiv> rn_state rt'"
  shows "name \<notin> set (held_nodes (rn_state rt) sources) \<and> jb_execution j \<in> set (st_executions st')
    \<and> (\<forall>p \<in> set (parents (st_graph st') name). node_is st' [''completed''] p)
    \<and> map (node_head st') (parents (st_graph st') name) = map Some (jb_parent_heads j)"
proof -
  let ?busy = "held_nodes (rn_state rt) sources"
  from assms(1) obtain c repository materialize rt1 rt2 nodes where
    nodes: "ready_nodes (rn_state rt1) ?busy (available_workers (rn_state rt) c) = Some nodes"
    and started: "dispatch_all (dispatch w d c repository (source_direct_run (rn_state rt1)) materialize) nodes (rt1, []) = Ok (rt2, js)"
    and finished: "finish_pass w d repository allow sources (rt2, js) = Ok (rt', js)"
    by (rule pass_OkE)
  let ?st1 = "rn_state rt1" and ?names = "nd_name ` set nodes"
  have st': "st' = rn_state rt2"
    using finish_pass_left [of w d repository allow sources "(rt2, js)" "(rt', js)"] finished assms(2) by (auto simp: st'_def)
  have progress: "progressed w ?names ?st1 js st'"
    using dispatch_all_progressed [of w d c repository "source_direct_run ?st1" materialize nodes "(rt1, [])" "(rt2, js)"] started
    by (simp add: st')
  then have stay: "stays ?names ?st1 st'" and graph: "st_graph st' = st_graph ?st1" by (simp_all add: progressed_def stays_def)
  from progress assms(2) obtain mid where name: "name \<in> ?names" and mid: "stays ?names ?st1 mid"
    and heads: "map (node_head mid) (parents (st_graph ?st1) name) = map Some (jb_parent_heads j)"
    unfolding progressed_def name_def by blast
  have ready: "is_ready ?st1 ?busy n = Some True" if "n \<in> set nodes" for n
    using take_opt_holds [OF nodes [unfolded ready_nodes_def] that] by simp
  have idle: "\<exists>m. bt_get (st_nodes ?st1) x = Some m \<and> ns_status m \<in> set [''waiting'', ''dirty'']" if "x \<in> ?names" for x
    using that ready by (force simp: is_ready_def when_opt_True and_opt_True status_in_True)
  from name obtain n where n: "n \<in> set nodes" "nd_name n = name" by auto
  from ready [OF n(1)] n(2) have free: "name \<notin> set ?busy"
    and finished_all: "all_opt (\<lambda>e. status_in ?st1 [''completed''] (eg_from e)) (incoming (st_graph ?st1) name) = Some True"
    by (simp_all add: is_ready_def when_opt_True and_opt_True)
  have parent: "\<exists>m. bt_get (st_nodes ?st1) p = Some m \<and> ns_status m = ''completed'' \<and> p \<notin> ?names"
    if p: "p \<in> set (parents (st_graph ?st1) name)" for p
  proof -
    from p obtain e where "e \<in> set (incoming (st_graph ?st1) name)" "eg_from e = p" by (auto simp: parents_def incoming_def)
    with finished_all obtain m where "bt_get (st_nodes ?st1) p = Some m" "ns_status m = ''completed''"
      by (auto simp: all_opt_True status_in_True)
    with idle [of p] show ?thesis by auto
  qed
  have same: "bt_get (st_nodes st') p = bt_get (st_nodes ?st1) p" "bt_get (st_nodes mid) p = bt_get (st_nodes ?st1) p"
    if "p \<in> set (parents (st_graph ?st1) name)" for p
    using parent [OF that] stays_completed [OF stay] stays_completed [OF mid] by metis+
  have "map (node_head st') (parents (st_graph ?st1) name) = map (node_head mid) (parents (st_graph ?st1) name)"
    using same by (intro map_cong) (simp_all add: node_head_def)
  moreover have "\<forall>p \<in> set (parents (st_graph ?st1) name). node_is st' [''completed''] p"
    using parent same by (fastforce simp: node_is_def)
  moreover have "jb_execution j \<in> set (st_executions st')" using progress assms(2) by (simp add: progressed_def)
  ultimately show ?thesis using free heads by (simp add: graph)
qed

text \<open>C10: attempts never share a directory.  If the running attempts of a run work in pairwise different
  directories, they still do after a pass, whatever it starts and even when it fails half way.\<close>

theorem directories_apart:
  assumes "left (pass w d allow sources rt) = Some (rt', js)" and "apart w (rn_state rt)"
  shows "apart w (rn_state rt') \<and> st_executions (rn_state rt') = st_executions (rn_state rt) @ map jb_execution js"
  using pass_left [OF assms(1)] assms(2) by (simp add: progressed_def)

text \<open>C12: only complete work is published.  When the end of a pass starts a publication, publishing was allowed,
  nothing was started, no verdict is pending and nothing runs, every node is completed, and what is published is
  the heads of the terminal nodes, without those a completed publication already delivered.\<close>

theorem publishes_complete_work:
  assumes "finish_pass w d repository allow sources (rt, js) = Ok (rt', js')"
    and "st_phase (rn_state rt') = ''publishing''" and "st_phase (rn_state rt) \<noteq> ''publishing''"
  defines "st \<equiv> rn_state rt'"
  shows "allow \<and> sources = [] \<and> js = [] \<and> st_pending_feedback st = [] \<and> running_nodes st = 0
    \<and> (\<forall>n \<in> set (bt_values (st_nodes st)). ns_status n = ''completed'')
    \<and> (\<exists>p. st_publication st = Some p \<and> set (pb_heads p) =
         {head. \<exists>name \<in> set (terminal_names st). node_head st name = Some head}
         - (if st_published_head st \<noteq> None then set (st_published_heads st) else {}))"
proof -
  let ?st = "rn_state rt"
  have gate: "allow \<and> sources = [] \<and> js = [] \<and> is_quiescent ?st"
    using assms(1-3) by (auto simp: finish_pass_def split: if_splits)
  with assms(1) have "left (settle w d repository rt) = Some rt'"
    by (cases "settle w d repository rt") (auto simp: finish_pass_def on_runtime_def)
  then show ?thesis
  proof (cases rule: settle_left)
    case same
    with assms(2,3) show ?thesis by simp
  next
    case (settled ev)
    with settling_event [OF settled(2)] assms(2) show ?thesis by (simp add: settling_kind_def)
  next
    case (publishing ev path heads)
    have kind: "settling_kind (ev_kind ev)" using publishing(1) by (simp add: settling_kind_def)
    note frame = settling_event [OF publishing(2) kind]
    then have graph: "st_graph st = st_graph ?st" and plan: "st_plan st = st_plan ?st" and nodes: "st_nodes st = st_nodes ?st"
      by (simp_all add: st_def)
    have same: "node_head st = node_head ?st" "terminal_names st = terminal_names ?st" "running_nodes st = running_nodes ?st"
      unfolding node_head_def terminal_names_def running_nodes_def graph plan nodes by (rule refl)+
    obtain p where p: "st_publication st = Some p" "pb_heads p = (if st_published_head ?st \<noteq> None
        then undelivered_heads (st_published_heads ?st) heads else heads)"
      using frame publishing(1) by (auto simp: st_def)
    have "set heads = {head. \<exists>name \<in> set (terminal_names ?st). node_head ?st name = Some head}"
    proof -
      have "map (node_head ?st) (terminal_names ?st) = map Some heads" by (rule collect_heads_Inr [OF publishing(3)])
      from arg_cong [OF this, of set] have eq: "node_head ?st ` set (terminal_names ?st) = Some ` set heads" by simp
      have "head \<in> set heads \<longleftrightarrow> Some head \<in> node_head ?st ` set (terminal_names ?st)" for head
        unfolding eq by auto
      then show ?thesis by (auto simp: image_iff) metis+
    qed
    with p frame same have "set (pb_heads p) =
         {head. \<exists>name \<in> set (terminal_names st). node_head st name = Some head}
         - (if st_published_head st \<noteq> None then set (st_published_heads st) else {})"
      by (auto simp: st_def undelivered_heads_def)
    moreover have "\<forall>n \<in> set (bt_values (st_nodes st)). ns_status n = ''completed''"
      using publishing(4) frame by (simp add: st_def list_all_iff)
    moreover have "running_nodes ?st = 0"
      using publishing(4) by (auto simp: running_nodes_def list_all_iff filter_empty_conv)
    ultimately show ?thesis using gate frame p(1) same(3) by (simp add: st_def is_quiescent_def)
  qed
qed

section \<open>Sample passes\<close>

text \<open>\<open>b\<close> depends on \<open>a\<close>; \<open>a\<close> is finished, or has failed, or both are finished.\<close>

definition sample_half :: runtime where
  "sample_half = fresh_runtime (run_of (sample_created
     @ [Started (sample_attempt ''e1'' ''a'') None False, Finished ''e1'' ''h1'' [] 0 None])) store_empty"

definition sample_dead :: runtime where
  "sample_dead = fresh_runtime (run_of (sample_created
     @ [Started (sample_attempt ''e1'' ''a'') None False, Failed ''a'' (Some ''e1'') ''boom'' 0 None])) store_empty"

definition sample_complete :: runtime where
  "sample_complete = fresh_runtime (run_of (sample_created
     @ [Started (sample_attempt ''e1'' ''a'') None False, Finished ''e1'' ''h1'' [] 0 None,
        Started (sample_attempt ''e2'' ''b'') None False, Finished ''e2'' ''h2'' [] 0 None])) store_empty"

lemma sample_half_pass:
  "case pass sample_world sample_disk True [] sample_half of
     Ok (rt', js) \<Rightarrow> map (\<lambda>j. (ex_node (jb_execution j), jb_parent_heads j)) js = [(''b'', [''h1''])]
       \<and> running_nodes (rn_state rt') = 1
   | _ \<Rightarrow> False"
  by code_simp

lemma sample_half_facts:
  "map_option cf_max_parallel (effective_config (rn_state sample_half)) = Some 2 \<and> running_nodes (rn_state sample_half) = 0"
  by code_simp

lemma sample_half_wf: "run_wf (rn_state sample_half)"
proof -
  let ?kinds = "sample_created @ [Started (sample_attempt ''e1'' ''a'') None False, Finished ''e1'' ''h1'' [] 0 None]"
  have "runs ?kinds" by code_simp
  from run_of_all [OF this] have "run_wf (run_of ?kinds)"
    by (intro wf.run_inv [OF run_wf_start]) (simp add: apply_all_def)
  then show ?thesis by (simp add: sample_half_def fresh_runtime_def)
qed

lemma sample_half_apart: "apart sample_world (rn_state sample_half)"
  by code_simp

lemma sample_half_job:
  obtains rt' j where "pass sample_world sample_disk True [] sample_half = Ok (rt', [j])"
    and "ex_node (jb_execution j) = ''b''" "jb_parent_heads j = [''h1'']" "running_nodes (rn_state rt') = 1"
  using sample_half_pass by (auto split: outcome.splits)

theorem workers_bounded_witness:
  "\<exists>rt' js. pass sample_world sample_disk True [] sample_half = Ok (rt', js) \<and> running_nodes (rn_state rt') = 1
    \<and> running_nodes (rn_state rt') \<le> max (running_nodes (rn_state sample_half)) 2"
proof -
  obtain rt' j where run: "pass sample_world sample_disk True [] sample_half = Ok (rt', [j])" "running_nodes (rn_state rt') = 1"
    by (rule sample_half_job)
  obtain c where c: "effective_config (rn_state sample_half) = Some c" "cf_max_parallel c = 2"
    using sample_half_facts by auto
  from workers_bounded [OF _ c(1) sample_half_wf, of sample_world sample_disk True "[]" rt' "[j]"] run
  show ?thesis by auto
qed

theorem starts_on_finished_work_witness:
  "\<exists>rt' j. pass sample_world sample_disk True [] sample_half = Ok (rt', [j]) \<and> jb_parent_heads j = [''h1'']
    \<and> map (node_head (rn_state rt')) (parents (st_graph (rn_state rt')) ''b'') = [Some ''h1'']
    \<and> jb_execution j \<in> set (st_executions (rn_state rt'))"
proof -
  obtain rt' j where run: "pass sample_world sample_disk True [] sample_half = Ok (rt', [j])" "ex_node (jb_execution j) = ''b''"
    "jb_parent_heads j = [''h1'']" by (rule sample_half_job)
  from starts_on_finished_work [OF run(1), of j] run(2,3)
  show ?thesis by (intro exI [of _ rt'] exI [of _ j]) (simp add: run(1))
qed

theorem directories_apart_witness:
  "\<exists>rt' j. pass sample_world sample_disk True [] sample_half = Ok (rt', [j]) \<and> apart sample_world (rn_state rt')"
proof -
  obtain rt' j where run: "pass sample_world sample_disk True [] sample_half = Ok (rt', [j])" by (rule sample_half_job)
  from directories_apart [OF _ sample_half_apart, of sample_disk True "[]" rt' "[j]"] run show ?thesis by auto
qed

lemma sample_dead_blocks:
  "case block_loop sample_world [] sample_dead of
     Ok rt' \<Rightarrow> map (\<lambda>(name, n). (name, ns_status n)) (st_nodes (rn_state rt')) = [(''a'', ''failed''), (''b'', ''blocked'')]
       \<and> map (\<lambda>(name, n). (name, ns_status n)) (st_nodes (rn_state sample_dead)) = [(''a'', ''failed''), (''b'', ''waiting'')]
   | _ \<Rightarrow> False"
  by code_simp

theorem blocking_exact_witness:
  "\<exists>rt'. block_loop sample_world [] sample_dead = Ok rt'
    \<and> cut_reason (st_graph (rn_state rt')) (bt_get (st_nodes (rn_state rt'))) ''b''"
proof -
  obtain rt' where run: "block_loop sample_world [] sample_dead = Ok rt'"
    and after: "map (\<lambda>(name, n). (name, ns_status n)) (st_nodes (rn_state rt')) = [(''a'', ''failed''), (''b'', ''blocked'')]"
    and before: "map (\<lambda>(name, n). (name, ns_status n)) (st_nodes (rn_state sample_dead)) = [(''a'', ''failed''), (''b'', ''waiting'')]"
    using sample_dead_blocks by (auto split: outcome.splits)
  have status: "map_option ns_status (bt_get m x) = map_of (map (\<lambda>(name, n). (name, ns_status n)) m) x" for m x
    by (induction m) (auto simp: bt_get_def)
  have "bt_get (st_nodes (rn_state rt')) ''b'' \<noteq> bt_get (st_nodes (rn_state sample_dead)) ''b''"
    using status [of "st_nodes (rn_state rt')" "''b''"] status [of "st_nodes (rn_state sample_dead)" "''b''"]
    unfolding after before by auto
  with blocking_exact [OF run] run show ?thesis by blast
qed

lemma sample_complete_publishes:
  "case finish_pass sample_world sample_disk ''r'' True [] (sample_complete, []) of
     Ok (rt', js) \<Rightarrow> st_phase (rn_state rt') = ''publishing'' \<and> js = [] \<and> map_option pb_heads (st_publication (rn_state rt')) = Some [''h2'']
   | _ \<Rightarrow> False"
  by code_simp

lemma sample_complete_phase: "st_phase (rn_state sample_complete) \<noteq> ''publishing''"
  by code_simp

theorem publishes_complete_work_witness:
  "\<exists>rt' p. finish_pass sample_world sample_disk ''r'' True [] (sample_complete, []) = Ok (rt', [])
    \<and> st_publication (rn_state rt') = Some p \<and> ''h2'' \<in> set (pb_heads p)
    \<and> (\<exists>name \<in> set (terminal_names (rn_state rt')). node_head (rn_state rt') name = Some ''h2'')"
proof -
  obtain rt' where run: "finish_pass sample_world sample_disk ''r'' True [] (sample_complete, []) = Ok (rt', [])"
    "st_phase (rn_state rt') = ''publishing''" "map_option pb_heads (st_publication (rn_state rt')) = Some [''h2'']"
    using sample_complete_publishes by (auto split: outcome.splits)
  from publishes_complete_work [OF run(1,2) sample_complete_phase] obtain p X where p: "st_publication (rn_state rt') = Some p"
    "set (pb_heads p) = {head. \<exists>name \<in> set (terminal_names (rn_state rt')). node_head (rn_state rt') name = Some head} - X"
    by blast
  from p(1) run(3) have "''h2'' \<in> set (pb_heads p)" by simp
  with p run(1) show ?thesis by blast
qed

section \<open>A pass that fails half way\<close>

text \<open>The attempt of a job is recorded as running, and so is its node.\<close>

definition attempt_runs :: "snapshot \<Rightarrow> job \<Rightarrow> bool" where
  "attempt_runs st j \<longleftrightarrow> jb_execution j \<in> set (st_executions st) \<and> ex_status (jb_execution j) = ''running''
     \<and> node_is st [''running''] (ex_node (jb_execution j))"

lemma attempt_runs_stays:
  assumes "attempt_runs st j" and "stays names st st'" and "ex_node (jb_execution j) \<notin> names"
    and "set (st_executions st) \<subseteq> set (st_executions st')"
  shows "attempt_runs st' j"
proof -
  let ?name = "ex_node (jb_execution j)"
  obtain n where n: "bt_get (st_nodes st) ?name = Some n" "ns_status n = ''running''"
    using assms(1) by (auto simp: attempt_runs_def node_is_def split: option.splits)
  then have "unblock_node n = n" by (simp add: unblock_node_def)
  with n assms(2,3) have "bt_get (st_nodes st') ?name = Some n" unfolding stays_def by metis
  with n assms show ?thesis by (auto simp: attempt_runs_def node_is_def)
qed

lemma dispatch_runs:
  assumes "left (dispatch w d c repository direct_run materialize node s) = Some s'" and "j \<in> set (snd s')" and "j \<notin> set (snd s)"
  shows "attempt_runs (rn_state (fst s')) j \<and> ex_node (jb_execution j) = nd_name node"
  using assms(1)
proof (cases rule: dispatchE)
  case (started n dc ev k)
  then have j: "jb_execution j = dc_execution dc" using assms(2,3) by auto
  from started(2) have e: "ex_node (dc_execution dc) = nd_name node" "ex_status (dc_execution dc) = ''running''"
    by (auto elim: decideE)
  note effect = started_effect [OF started(5) started(4) [unfolded started_event_def]]
  then have "bt_get (st_nodes (rn_state (fst s'))) (nd_name node)
      = Some (started_node (Some (map pm_sequence (ns_pending_messages n))) n)"
    using started(1) e by simp
  moreover have "ns_status (started_node sequences n) = ''running''" for sequences by (simp add: started_node_def Let_def)
  ultimately have "node_is (rn_state (fst s')) [''running''] (nd_name node)" by (simp add: node_is_def)
  with effect e j show ?thesis by (simp add: attempt_runs_def)
qed (use assms in auto)

lemma dispatch_all_runs:
  assumes "left (dispatch_all (dispatch w d c repository direct_run materialize) nodes s) = Some s'"
    and "distinct (map nd_name nodes)" and "j \<in> set (snd s')" and "j \<notin> set (snd s)"
  shows "attempt_runs (rn_state (fst s')) j"
  using assms
proof (induction nodes arbitrary: s)
  case (Cons node nodes)
  let ?f = "dispatch w d c repository direct_run materialize"
  show ?case
  proof (cases "?f node s")
    case (Ok t)
    then have rest: "left (dispatch_all ?f nodes t) = Some s'" using Cons.prems(1) by (simp add: andthen_def)
    show ?thesis
    proof (cases "j \<in> set (snd t)")
      case False
      with Cons.IH [OF rest] Cons.prems show ?thesis by simp
    next
      case True
      from dispatch_runs [of w d c repository direct_run materialize node s t j] True Ok Cons.prems(4)
      have runs: "attempt_runs (rn_state (fst t)) j" "ex_node (jb_execution j) \<notin> nd_name ` set nodes"
        using Cons.prems(2) by auto
      from dispatch_all_progressed [OF rest] have "stays (nd_name ` set nodes) (rn_state (fst t)) (rn_state (fst s'))"
        "set (st_executions (rn_state (fst t))) \<subseteq> set (st_executions (rn_state (fst s')))" by (auto simp: progressed_def)
      with runs attempt_runs_stays show ?thesis by blast
    qed
  next
    case (Error e t)
    with Cons.prems(1) have "left (?f node s) = Some s'" by (simp add: andthen_def)
    with dispatch_runs Cons.prems(3,4) show ?thesis by blast
  qed (use Cons.prems in \<open>simp add: andthen_def\<close>)
qed simp

text \<open>A pass that has started something dispatched nodes, and did nothing after that.\<close>

lemma pass_startedE:
  assumes "left (pass w d allow sources rt) = Some (rt', js)" and "js \<noteq> []"
  obtains c repository materialize rt1 nodes where "block_loop w (held_nodes (rn_state rt) sources) rt = Ok rt1"
    and "ready_nodes (rn_state rt1) (held_nodes (rn_state rt) sources) (available_workers (rn_state rt) c) = Some nodes"
    and "left (dispatch_all (dispatch w d c repository (source_direct_run (rn_state rt1)) materialize) nodes (rt1, [])) = Some (rt', js)"
proof -
  let ?busy = "held_nodes (rn_state rt) sources"
  from assms obtain c repository where rest: "left (case block_loop w ?busy rt of
           Panic \<Rightarrow> Panic
         | Error e rt1 \<Rightarrow> Error e (rt1, [])
         | Ok rt1 \<Rightarrow> andthen (start_ready w d c repository ?busy (available_workers (rn_state rt) c) rt1)
             (finish_pass w d repository allow sources)) = Some (rt', js)"
    by (auto simp: pass_def try_get_def ok_or_def try_ok_def Let_def split: option.splits sum.splits if_splits)
  with assms(2) obtain rt1 where rt1: "block_loop w ?busy rt = Ok rt1" by (cases "block_loop w ?busy rt") simp_all
  let ?start = "start_ready w d c repository ?busy (available_workers (rn_state rt) c) rt1"
  have "left ?start = Some (rt', js)"
  proof (cases ?start)
    case (Ok s)
    with rest rt1 have left: "left (finish_pass w d repository allow sources s) = Some (rt', js)" by (simp add: andthen_def)
    from finish_pass_left [OF this] assms(2) have "s = (rt', js)" by (cases s) simp
    with Ok show ?thesis by simp
  qed (use rest rt1 in \<open>simp_all add: andthen_def\<close>)
  then obtain nodes materialize where
    "ready_nodes (rn_state rt1) ?busy (available_workers (rn_state rt) c) = Some nodes"
    "left (dispatch_all (dispatch w d c repository (source_direct_run (rn_state rt1)) materialize) nodes (rt1, [])) = Some (rt', js)"
    using assms(2) by (auto simp: start_ready_def try_get_def split: option.splits sum.splits)
  with that rt1 show ?thesis by blast
qed

text \<open>C24: Whether a pass succeeds or fails half way, exactly the attempts it started are new in the history, each is
  recorded as running and its node is running.  The code returns either the jobs or an error; so after a pass that failed
  on a later node the attempts of the earlier ones run without a job.\<close>

theorem started_attempts_stay_running:
  assumes "left (pass w d allow sources rt) = Some (rt', js)" and "distinct (map nd_name (gr_nodes (st_graph (rn_state rt))))"
  shows "st_executions (rn_state rt') = st_executions (rn_state rt) @ map jb_execution js
    \<and> (\<forall>j \<in> set js. ex_status (jb_execution j) = ''running'' \<and> node_is (rn_state rt') [''running''] (ex_node (jb_execution j)))"
proof (intro conjI ballI)
  show "st_executions (rn_state rt') = st_executions (rn_state rt) @ map jb_execution js"
    using pass_left [OF assms(1)] by (simp add: progressed_def)
  have runs: "attempt_runs (rn_state rt') j" if j: "j \<in> set js" for j
  proof -
    from j have some: "js \<noteq> []" by auto
    obtain c repository materialize rt1 nodes where
      rt1: "block_loop w (held_nodes (rn_state rt) sources) rt = Ok rt1"
      and ready: "ready_nodes (rn_state rt1) (held_nodes (rn_state rt) sources) (available_workers (rn_state rt) c) = Some nodes"
      and started: "left (dispatch_all (dispatch w d c repository (source_direct_run (rn_state rt1)) materialize) nodes (rt1, []))
        = Some (rt', js)" by (rule pass_startedE [OF assms(1) some])
    have "left (block_loop w (held_nodes (rn_state rt) sources) rt) = Some rt1" unfolding rt1 by simp
    from block_loop_left [OF this] have "st_graph (rn_state rt1) = st_graph (rn_state rt)"
      by (simp add: progressed_def stays_def)
    with ready have "subseq nodes (gr_nodes (st_graph (rn_state rt)))"
      unfolding ready_nodes_def by (auto dest: take_opt_subseq)
    then have "subseq (map nd_name nodes) (map nd_name (gr_nodes (st_graph (rn_state rt))))" by (rule subseq_map)
    then have "distinct (map nd_name nodes)" using assms(2) by (auto simp: subseq_conv_nths)
    from dispatch_all_runs [OF started this] j show ?thesis by simp
  qed
  then show "ex_status (jb_execution j) = ''running''" "node_is (rn_state rt') [''running''] (ex_node (jb_execution j))"
    if "j \<in> set js" for j using that by (simp_all add: attempt_runs_def)
qed

definition sample_environment :: environment_config where
  "sample_environment = \<lparr>ec_mode = [], ec_platform = [], ec_arch = [], ec_scopes = [], ec_caches = [], ec_layout = [],
     ec_launch = \<lparr>lc_entry = [], lc_path = [], lc_shell = [], lc_variables = [], lc_inherit = [], lc_hook = None,
       lc_managed_scopes = [], lc_ambient_hints = [], lc_environment = None\<rparr>,
     ec_baseline = [], ec_initialize = [], ec_import_source = False, ec_launch_file = None, ec_authority = [],
     ec_allow_descendant = False, ec_require = [], ec_resources = None, ec_discovery = False, ec_best_effort = False\<rparr>"

definition sample_baseline :: composite_result where
  "sample_baseline = \<lparr>cr_domain = sample_domain, cr_code_ref = ''h0'', cr_environment_ref = ''v0'', cr_launch_ref = ''l0'',
     cr_resource_refs = [], cr_layout = None, cr_generation = ''g0'', cr_selected_from = [], cr_inheritance = None\<rparr>"

definition sample_pair :: runtime where
  "sample_pair = fresh_runtime (run_of
     [Created (sample_run_graph\<lparr>gr_edges := []\<rparr>) (sample_config\<lparr>cf_environment := Some sample_environment\<rparr>) (Some ''p'') (Some sample_summary),
      EnvironmentInitialized sample_baseline, Approved ''h0'']) store_empty"

definition failing_world :: world where
  "failing_world = sample_world\<lparr>wd_environments := (\<lambda>st. if st_executions st = [] then None else Some ''environment store locked'')\<rparr>"

text \<open>Two independent nodes; the environment store cannot be opened for the second.\<close>

lemma sample_pair_fails:
  "case pass failing_world sample_disk True [] sample_pair of
     Error e (rt', js) \<Rightarrow> e = ''environment store locked'' \<and> map (ex_node \<circ> jb_execution) js = [''a'']
   | _ \<Rightarrow> False"
  by code_simp

lemma sample_pair_start: "st_executions (rn_state sample_pair) = []" "distinct (map nd_name (gr_nodes (st_graph (rn_state sample_pair))))"
  by code_simp+

theorem started_attempts_stay_running_witness:
  "\<exists>rt' js. pass failing_world sample_disk True [] sample_pair = Error ''environment store locked'' (rt', js)
     \<and> map ex_node (st_executions (rn_state rt')) = [''a''] \<and> node_is (rn_state rt') [''running''] ''a''"
proof -
  obtain rt' js where run: "pass failing_world sample_disk True [] sample_pair = Error ''environment store locked'' (rt', js)"
    and js: "map (ex_node \<circ> jb_execution) js = [''a'']"
    using sample_pair_fails by (auto split: outcome.splits)
  then have "left (pass failing_world sample_disk True [] sample_pair) = Some (rt', js)" by simp
  from started_attempts_stay_running [OF this sample_pair_start(2)] js run show ?thesis
    by (auto simp: sample_pair_start(1))
qed

end
