(* ===== verification/Session_Branch.thy ===== *)
theory Session_Branch
  imports Model Store_Log
begin

text \<open>
  Editing an earlier user turn of a conversation (\<open>backend/src/session_branch.rs\<close>).  The agent keeps a
  conversation as a file of JSON lines, each with an identity and the identity of its parent; the last
  line is the current leaf.  Editing a turn appends one marker whose parent is the parent of that turn,
  so the abandoned turns stay in the file.  A file is its text, a directory the list of its entries.
\<close>

section \<open>The library and the file system\<close>

text \<open>
  \<open>serde_json\<close> and \<open>uuid\<close> and the path functions of \<open>path_identity.rs\<close> and \<open>native.rs\<close>.  \<open>si_write\<close> is
  what appending a text to a file leaves and reports, \<open>si_truncate\<close> the error of \<open>set_len\<close>.
\<close>

record session_io =
  si_uuid :: "string \<Rightarrow> bool"
  si_parse :: "string \<Rightarrow> string + json"
  si_render :: "json \<Rightarrow> string"
  si_same_path :: "string \<Rightarrow> string \<Rightarrow> bool"
  si_actual_path :: "string \<Rightarrow> string + string"
  si_host_path :: "string \<Rightarrow> string"
  si_write :: "string \<Rightarrow> string \<Rightarrow> string option \<times> string"
  si_truncate :: "string option"

record dir_entry =
  de_name :: string
  de_is_file :: bool
  de_path :: string
  de_text :: "string + string"

section \<open>JSON values\<close>

text \<open>\<open>value[key]\<close>: null when there is no such key.\<close>

definition at_key :: "json \<Rightarrow> string \<Rightarrow> json" where
  "at_key v k = (case json_get v k of Some x \<Rightarrow> x | None \<Rightarrow> JNull)"

fun as_array :: "json \<Rightarrow> json list option" where
  "as_array (JArray xs) = Some xs"
| "as_array v = None"

text \<open>\<open>value[key] = x\<close> on an object, whose keys are sorted.\<close>

fun set_key :: "string \<Rightarrow> json \<Rightarrow> json \<Rightarrow> json" where
  "set_key k x (JObject m) = JObject (bt_insert k x m)"
| "set_key k x v = v"

definition text_part :: "json \<Rightarrow> string option" where
  "text_part part = (if get_str part ''type'' = Some ''text'' then get_str part ''text'' else None)"

definition user_text :: "json \<Rightarrow> string option" where
  "user_text value = (case json_get value ''message'' of
     None \<Rightarrow> None
   | Some message \<Rightarrow>
       if get_str value ''type'' \<noteq> Some ''message'' \<or> get_str message ''role'' \<noteq> Some ''user'' then None
       else (case json_get message ''content'' of
         None \<Rightarrow> None
       | Some content \<Rightarrow> (case as_str content of
           Some text \<Rightarrow> Some text
         | None \<Rightarrow> map_option (\<lambda>parts. concat (List.map_filter text_part parts)) (as_array content))))"

definition message_time :: "json \<Rightarrow> u64 option" where
  "message_time entry = as_u64 (at_key (at_key entry ''message'') ''timestamp'')"

section \<open>Text helpers\<close>

fun split_once :: "string \<Rightarrow> string \<Rightarrow> (string \<times> string) option" where
  "split_once p s = (if starts_with s p then Some ([], drop (length p) s)
     else case s of [] \<Rightarrow> None | c # cs \<Rightarrow> map_option (\<lambda>(a, b). (c # a, b)) (split_once p cs))"

declare split_once.simps [simp del]

definition rsplit_once :: "string \<Rightarrow> string \<Rightarrow> (string \<times> string) option" where
  "rsplit_once p s = map_option (\<lambda>(a, b). (rev b, rev a)) (split_once (rev p) (rev s))"

definition strip_suffix :: "string \<Rightarrow> string \<Rightarrow> string option" where
  "strip_suffix p s = (if ends_with s p then Some (take (length s - length p) s) else None)"

text \<open>\<open>split_inclusive('\\n')\<close>: each line with its line feed.\<close>

function split_inclusive :: "string \<Rightarrow> string list" where
  "split_inclusive s = (if s = [] then []
     else let (a, b) = (takeWhile (\<lambda>c. c \<noteq> CHR 0x0A) s, dropWhile (\<lambda>c. c \<noteq> CHR 0x0A) s)
       in case b of [] \<Rightarrow> [a] | c # rest \<Rightarrow> (a @ [c]) # split_inclusive rest)"
  by pat_completeness auto
termination
proof (relation "measure length", simp)
  fix s :: string and x a b c rest
  assume "s \<noteq> []" and x: "x = (takeWhile (\<lambda>c. c \<noteq> CHR 0x0A) s, dropWhile (\<lambda>c. c \<noteq> CHR 0x0A) s)" "(a, b) = x" and b: "b = c # rest"
  then have "length (c # rest) \<le> length s" using length_dropWhile_le [of "\<lambda>c. c \<noteq> CHR 0x0A" s] by simp
  then show "(rest, s) \<in> measure length" by simp
qed

declare split_inclusive.simps [simp del]

definition feedback_instructions :: string where
  "feedback_instructions = [CHR 0x0A, CHR 0x0A] @ ''End your response with exactly one standalone final line:''
     @ CHR 0x0A # ''<ACCEPT>'' @ CHR 0x0A # ''or'' @ CHR 0x0A # ''<FEEDBACK>'' @ CHR 0x0A
     # ''If sending <FEEDBACK>, clearly describe the additional instruction for the target before the marker.''"

definition without_planner_steer_marker :: "session_io \<Rightarrow> string \<Rightarrow> string" where
  "without_planner_steer_marker io text = (case rsplit_once ([CHR 0x0A, CHR 0x0A] @ ''<grapher-steer-id>'') text of
     None \<Rightarrow> text
   | Some (front, tail) \<Rightarrow> (case strip_suffix ''</grapher-steer-id>'' tail of
       None \<Rightarrow> text | Some steer \<Rightarrow> if si_uuid io steer then front else text))"

section \<open>Opening a session\<close>

definition session_files :: "string \<Rightarrow> dir_entry list \<Rightarrow> dir_entry list" where
  "session_files sid entries = filter (\<lambda>e. ends_with (de_name e) (CHR ''_'' # sid @ ''.jsonl'') \<and> de_is_file e) entries"

definition complete_text :: "string \<Rightarrow> bool" where
  "complete_text text \<longleftrightarrow> text \<noteq> [] \<and> last text = CHR 0x0A"

text \<open>The file, the text after its first line and the header in that line.\<close>

definition session_file ::
  "session_io \<Rightarrow> string + dir_entry list \<Rightarrow> string \<Rightarrow> string + dir_entry \<times> string \<times> json" where
  "session_file io dir sid =
     (if \<not> si_uuid io sid then Inl ''Invalid source session ID''
      else case dir of
        Inl e \<Rightarrow> Inl (''Cannot open node session: '' @ e)
      | Inr entries \<Rightarrow> (case session_files sid entries of
          [file] \<Rightarrow> (case de_text file of
              Inl e \<Rightarrow> Inl e
            | Inr text \<Rightarrow>
                if text = [] then Inl ''Empty node session''
                else if \<not> complete_text text then Inl ''Node session has an incomplete last entry''
                else let first = takeWhile (\<lambda>c. c \<noteq> CHR 0x0A) text @ [CHR 0x0A] in
                  case si_parse io first of
                    Inl e \<Rightarrow> Inl e
                  | Inr header \<Rightarrow>
                      if at_key header ''type'' \<noteq> JString ''session'' \<or> at_key header ''id'' \<noteq> JString sid
                      then Inl ''Node session history belongs to another identity''
                      else Inr (file, drop (length first) text, header))
        | _ \<Rightarrow> Inl ''Persisted node conversation is missing or ambiguous''))"

definition open_session ::
  "session_io \<Rightarrow> string + dir_entry list \<Rightarrow> string \<Rightarrow> string \<Rightarrow> string + dir_entry \<times> string \<times> json" where
  "open_session io dir sid cwd = (case session_file io dir sid of
     Inl e \<Rightarrow> Inl e
   | Inr (file, rest, header) \<Rightarrow>
       let expected = (case si_actual_path io cwd of Inl _ \<Rightarrow> cwd | Inr p \<Rightarrow> p)
       in if (case get_str header ''cwd'' of Some c \<Rightarrow> si_same_path io c expected | None \<Rightarrow> False)
          then Inr (file, rest, header)
          else Inl ''Node session history belongs to another workspace or identity'')"

definition session_cwd :: "session_io \<Rightarrow> string \<Rightarrow> string + string" where
  "session_cwd io cwd = map_result (si_host_path io) (si_actual_path io cwd)"

text \<open>The first line is replaced, the rest kept byte for byte; the text is written aside and renamed.\<close>

definition rewritten :: "session_io \<Rightarrow> json \<Rightarrow> string \<Rightarrow> string \<Rightarrow> string" where
  "rewritten io header rest actual = si_render io (set_key ''cwd'' (JString actual) header) @ CHR 0x0A # rest"

text \<open>The new text of a file, if it changes.\<close>

definition rebind_session_cwd ::
  "session_io \<Rightarrow> string + dir_entry list \<Rightarrow> string \<Rightarrow> string \<Rightarrow> string + (dir_entry \<times> string) option" where
  "rebind_session_cwd io dir sid cwd = (case session_file io dir sid of
     Inl e \<Rightarrow> Inl e
   | Inr (file, rest, header) \<Rightarrow> map_result (\<lambda>actual.
       if get_str header ''cwd'' = Some actual then None else Some (file, rewritten io header rest actual))
       (session_cwd io cwd))"

text \<open>Planner sessions are found by the identity in their header.\<close>

fun rebind_by_header ::
  "session_io \<Rightarrow> string \<Rightarrow> string \<Rightarrow> dir_entry list \<Rightarrow> string + (dir_entry \<times> string) option" where
  "rebind_by_header io sid actual [] = Inr None"
| "rebind_by_header io sid actual (file # files) =
     (if \<not> ends_with (de_name file) ''.jsonl'' then rebind_by_header io sid actual files
      else case de_text file of
        Inl e \<Rightarrow> Inl e
      | Inr text \<Rightarrow>
          let first = takeWhile (\<lambda>c. c \<noteq> CHR 0x0A) text @ (if CHR 0x0A \<in> set text then [CHR 0x0A] else []) in
          case si_parse io first of
            Inl e \<Rightarrow> Inl e
          | Inr header \<Rightarrow>
              if get_str header ''id'' \<noteq> Some sid then rebind_by_header io sid actual files
              else if get_str header ''cwd'' = Some actual then Inr None
              else Inr (Some (file, rewritten io header (drop (length first) text) actual)))"

definition rebind_session_cwd_by_header ::
  "session_io \<Rightarrow> bool \<Rightarrow> string + dir_entry list \<Rightarrow> string \<Rightarrow> string \<Rightarrow> string + (dir_entry \<times> string) option" where
  "rebind_session_cwd_by_header io is_dir dir sid cwd =
     (if \<not> is_dir then Inr None
      else case session_cwd io cwd of
        Inl e \<Rightarrow> Inl e
      | Inr actual \<Rightarrow> (case dir of Inl e \<Rightarrow> Inl e | Inr files \<Rightarrow> rebind_by_header io sid actual files))"

text \<open>The text of the file \<open>grapher_<target>.jsonl\<close> in the target directory, which must not exist.\<close>

definition fork_session ::
  "session_io \<Rightarrow> string + dir_entry list \<Rightarrow> string \<Rightarrow> string \<Rightarrow> bool \<Rightarrow> string \<Rightarrow> string \<Rightarrow> string + string" where
  "fork_session io dir source_id source_cwd target_exists target_id target_cwd =
     (if \<not> si_uuid io target_id then Inl ''Invalid target session ID''
      else if target_id = source_id then Inl ''A forked node session needs a new identity''
      else case open_session io dir source_id source_cwd of
        Inl e \<Rightarrow> Inl e
      | Inr (file, rest, header) \<Rightarrow> (case session_cwd io target_cwd of
          Inl e \<Rightarrow> Inl e
        | Inr cwd \<Rightarrow>
            if target_exists then Inl ''Cannot overwrite an existing forked node session''
            else Inr (si_render io (set_key ''parentSession'' (JString (si_host_path io (de_path file)))
                (set_key ''cwd'' (JString cwd) (set_key ''id'' (JString target_id) header))) @ CHR 0x0A # rest)))"

section \<open>User turns in a transcript\<close>

text \<open>A row of the transcript that shows the turn: its offset, time and identity.\<close>

record output_row =
  or_offset :: nat
  or_time :: "u64 option"
  or_id :: "string option"

definition normalized_turn :: "string \<Rightarrow> string" where
  "normalized_turn text = trim (case strip_suffix feedback_instructions text of Some t \<Rightarrow> t | None \<Rightarrow> text)"

definition row_kinds :: "string list" where
  "row_kinds = [''message_start'', ''message_end'', ''message'']"

definition output_row_of :: "string \<Rightarrow> string \<Rightarrow> nat \<Rightarrow> json \<Rightarrow> output_row option" where
  "output_row_of expected kind offset event =
     (if normalized_turn (case user_text (set_key ''type'' (JString ''message'') event) of Some t \<Rightarrow> t | None \<Rightarrow> []) \<noteq> expected
      then None
      else Some \<lparr>or_offset = offset, or_time = message_time event,
        or_id = (if kind = ''message'' then get_str event ''id'' else get_str (at_key event ''message'') ''id'')\<rparr>)"

text \<open>The end of a message whose start was seen is not another turn.\<close>

fun output_rows :: "(string \<Rightarrow> json option) \<Rightarrow> string \<Rightarrow> nat \<Rightarrow> bool \<Rightarrow> string list \<Rightarrow> output_row list" where
  "output_rows parse expected offset pending [] = []"
| "output_rows parse expected offset pending (line # ls) =
     (let next = offset + length line in
      case parse line of
        None \<Rightarrow> output_rows parse expected next pending ls
      | Some event \<Rightarrow>
          let kind = (case get_str event ''type'' of Some t \<Rightarrow> t | None \<Rightarrow> []) in
          if kind \<notin> set row_kinds \<or> at_key (at_key event ''message'') ''role'' \<noteq> JString ''user''
          then output_rows parse expected next pending ls
          else if kind = ''message_end'' \<and> pending then output_rows parse expected next False ls
          else (case output_row_of expected kind offset event of Some r \<Rightarrow> [r] | None \<Rightarrow> [])
            @ output_rows parse expected next (kind = ''message_start'') ls)"

definition output_user_turns :: "(string \<Rightarrow> json option) \<Rightarrow> string \<Rightarrow> string \<Rightarrow> output_row list" where
  "output_user_turns parse output old_text =
     output_rows parse (normalized_turn old_text) 0 False (split_inclusive output)"

definition unique_output_user_turn_offset :: "(string \<Rightarrow> json option) \<Rightarrow> string \<Rightarrow> string \<Rightarrow> nat option" where
  "unique_output_user_turn_offset parse output old_text =
     (case output_user_turns parse output old_text of [r] \<Rightarrow> Some (or_offset r) | _ \<Rightarrow> None)"

definition truncate_output :: "string \<Rightarrow> nat option \<Rightarrow> string" where
  "truncate_output output end_at = (case end_at of
     Some n \<Rightarrow> if n < length output then take (floor_down output n) output else output
   | None \<Rightarrow> output)"

text \<open>Which of the equal rows was selected, and how many there are.\<close>

record user_turn_selector =
  ot_occurrence :: nat
  ot_total :: nat
  ot_time :: "u64 option"
  ot_id :: "string option"

definition output_user_turn :: "(string \<Rightarrow> json option) \<Rightarrow> string \<Rightarrow> nat \<Rightarrow> string \<Rightarrow> string + user_turn_selector" where
  "output_user_turn parse output offset old_text =
     (let turns = output_user_turns parse output old_text;
          before = takeWhile (\<lambda>r. or_offset r \<noteq> offset) turns
      in case drop (length before) turns of
           r # _ \<Rightarrow> Inr \<lparr>ot_occurrence = length before, ot_total = length turns, ot_time = or_time r, ot_id = or_id r\<rparr>
         | [] \<Rightarrow> Inl ''The selected output row is not that user turn'')"


section \<open>The tree of a conversation\<close>

definition entry_id :: "json \<Rightarrow> string option" where
  "entry_id entry = get_str entry ''id''"

definition parent_id :: "json \<Rightarrow> string option" where
  "parent_id entry = get_str entry ''parentId''"

text \<open>The entries by identity; of equal identities the last counts.\<close>

definition tree_of :: "json list \<Rightarrow> (string \<times> json) list" where
  "tree_of entries = rev (List.map_filter (\<lambda>e. map_option (\<lambda>i. (i, e)) (entry_id e)) entries)"

text \<open>
  The walk to the root: \<open>found\<close> ends it early.  The result tells whether it did, and what it passed.
\<close>

function climb :: "(string \<Rightarrow> json option \<Rightarrow> bool) \<Rightarrow> string \<Rightarrow> (string \<times> json) list \<Rightarrow> string option \<Rightarrow> string list
    \<Rightarrow> string + bool \<times> string list" where
  "climb found missing tree None seen = Inr (False, seen)"
| "climb found missing tree (Some i) seen =
     (if i \<in> set seen then Inl ''Pi session contains a cycle''
      else if found i (map_of tree i) then Inr (True, i # seen)
      else case map_of tree i of
        None \<Rightarrow> Inl missing
      | Some entry \<Rightarrow> climb found missing tree (parent_id entry) (i # seen))"
  by pat_completeness auto
termination
proof (relation "measure (\<lambda>(found, missing, tree, cursor, seen). card (fst ` set tree - set seen))", simp)
  fix found :: "string \<Rightarrow> json option \<Rightarrow> bool" and missing i :: string and tree :: "(string \<times> json) list"
    and seen :: "string list" and entry
  assume "i \<notin> set seen" and "map_of tree i = Some entry"
  then have "fst ` set tree - set (i # seen) \<subset> fst ` set tree - set seen" by (force dest: map_of_SomeD)
  then have "card (fst ` set tree - set (i # seen)) < card (fst ` set tree - set seen)" by (intro psubset_card_mono) simp_all
  then show "((found, missing, tree, parent_id entry, i # seen), found, missing, tree, Some i, seen)
      \<in> measure (\<lambda>(found, missing, tree, cursor, seen). card (fst ` set tree - set seen))"
    by simp
qed

definition active_ids :: "(string \<times> json) list \<Rightarrow> string \<Rightarrow> string + string list" where
  "active_ids tree leaf = map_result snd (climb (\<lambda>_ _. False) ''Pi session contains a missing parent'' tree (Some leaf) [])"

section \<open>Selecting a turn\<close>

definition matches_turn :: "session_io \<Rightarrow> bool \<Rightarrow> string \<Rightarrow> string \<Rightarrow> bool" where
  "matches_turn io planner old_text content =
     (let t = (if planner then without_planner_steer_marker io content else content)
      in t = old_text \<or> (\<not> planner \<and> strip_suffix feedback_instructions t = Some old_text)
         \<or> (planner \<and> ends_with t (CHR 0x0A # old_text)
            \<and> (starts_with t (''Current graph node status:'' @ [CHR 0x0A]) \<or> starts_with t (''User query:'' @ [CHR 0x0A])
               \<or> starts_with t ''You are now at '')))"

definition entry_time :: "json \<Rightarrow> nat" where
  "entry_time entry = (case message_time entry of Some t \<Rightarrow> unat t | None \<Rightarrow> 0)"

definition within :: "nat \<Rightarrow> nat \<Rightarrow> json \<Rightarrow> bool" where
  "within started completed entry \<longleftrightarrow> started \<le> entry_time entry \<and> entry_time entry \<le> completed"

definition is_match :: "session_io \<Rightarrow> bool \<Rightarrow> string \<Rightarrow> nat \<Rightarrow> nat \<Rightarrow> json \<Rightarrow> bool" where
  "is_match io planner old_text started completed entry \<longleftrightarrow>
     (case user_text entry of Some content \<Rightarrow> matches_turn io planner old_text content | None \<Rightarrow> False)
     \<and> within started completed entry"

record turn_match =
  tm_id :: string
  tm_parent :: "string option"
  tm_active :: bool

definition turn_matches ::
  "session_io \<Rightarrow> bool \<Rightarrow> string \<Rightarrow> nat \<Rightarrow> nat \<Rightarrow> string list \<Rightarrow> json list \<Rightarrow> turn_match list" where
  "turn_matches io planner old_text started completed active entries =
     List.map_filter (\<lambda>entry. if is_match io planner old_text started completed entry
        then map_option (\<lambda>i. \<lparr>tm_id = i, tm_parent = parent_id entry, tm_active = (i \<in> set active)\<rparr>) (entry_id entry)
        else None) entries"

definition time_in :: "(string \<times> json) list \<Rightarrow> string \<Rightarrow> u64 option" where
  "time_in tree i = Option.bind (map_of tree i) message_time"

text \<open>By identity, else by a unique time, else by position among equal turns when none is missing.\<close>

definition select_row :: "(string \<times> json) list \<Rightarrow> user_turn_selector \<Rightarrow> turn_match list \<Rightarrow> string + turn_match" where
  "select_row tree s ms =
     (let live = filter tm_active ms;
          by_id = (case ot_id s of Some i \<Rightarrow> find (\<lambda>m. tm_id m = i) live | None \<Rightarrow> None);
          by_time = filter (\<lambda>m. ot_time s \<noteq> None \<and> time_in tree (tm_id m) = ot_time s) live;
          chosen = (case by_id of Some m \<Rightarrow> Inr m
            | None \<Rightarrow> (case by_time of [m] \<Rightarrow> Inr m
              | _ \<Rightarrow>
                  if length live = ot_total s
                  then (if ot_occurrence s < length live then Inr (live ! ot_occurrence s)
                    else Inl ''The selected user turn is no longer in the active Pi branch'')
                  else Inl ''Cannot unambiguously align this output row with the active Pi user turns''))
      in case chosen of
           Inl e \<Rightarrow> Inl e
         | Inr m \<Rightarrow>
             if map_of tree (tm_id m) = None then Inl ''Missing selected Pi entry''
             else if ot_time s \<noteq> None \<and> time_in tree (tm_id m) \<noteq> ot_time s
             then Inl ''The output row does not match the persisted Pi user turn''
             else Inr m)"

definition select_unique :: "turn_match list \<Rightarrow> string + turn_match" where
  "select_unique ms = (case ms of
     [] \<Rightarrow> Inl ''Cannot locate that user turn in the Pi conversation tree''
   | [m] \<Rightarrow> Inr m
   | _ \<Rightarrow> (case filter tm_active ms of
       [m] \<Rightarrow> Inr m | _ \<Rightarrow> Inl ''Multiple identical user turns match this Pi conversation''))"

record user_branch =
  ub_selected :: string
  ub_parent :: "string option"
  ub_first_user_turn :: bool
  ub_first_in_execution :: bool
  ub_require_active :: bool

fun parse_all :: "(string \<Rightarrow> string + json) \<Rightarrow> string list \<Rightarrow> string + json list" where
  "parse_all parse [] = Inr []"
| "parse_all parse (l # ls) = (case parse l of
     Inl _ \<Rightarrow> Inl ''Invalid Pi session entry'' | Inr v \<Rightarrow> map_result (\<lambda>vs. v # vs) (parse_all parse ls))"

definition session_header_ok :: "session_io \<Rightarrow> string \<Rightarrow> string \<Rightarrow> json \<Rightarrow> bool" where
  "session_header_ok io sid cwd header \<longleftrightarrow> get_str header ''type'' = Some ''session'' \<and> get_str header ''id'' = Some sid
     \<and> (case get_str header ''cwd'' of Some c \<Rightarrow> si_same_path io c cwd | None \<Rightarrow> False)"

text \<open>The branch before a turn of the parsed lines \<open>values\<close>.\<close>

definition branch_of ::
  "session_io \<Rightarrow> bool \<Rightarrow> string \<Rightarrow> nat \<Rightarrow> nat \<Rightarrow> user_turn_selector option \<Rightarrow> json list \<Rightarrow> string + user_branch" where
  "branch_of io planner old_text started completed selector lines_read =
     (let entries = tl lines_read; tree = tree_of entries in
      if \<exists>e \<in> set entries. entry_id e = None then Inl ''Pi session entry has no identity''
      else case entry_id (last lines_read) of
        None \<Rightarrow> Inl ''Pi session has no conversation''
      | Some leaf \<Rightarrow> (case active_ids tree leaf of
          Inl e \<Rightarrow> Inl e
        | Inr active \<Rightarrow>
            let ms = turn_matches io planner old_text started completed active entries in
            case (case selector of Some s \<Rightarrow> select_row tree s ms | None \<Rightarrow> select_unique ms) of
              Inl e \<Rightarrow> Inl e
            | Inr m \<Rightarrow> map_result (\<lambda>(user_above, _).
                \<lparr>ub_selected = tm_id m, ub_parent = tm_parent m, ub_first_user_turn = (\<not> user_above),
                 ub_first_in_execution = (case find (\<lambda>e. user_text e \<noteq> None
                     \<and> (case entry_id e of Some i \<Rightarrow> i \<in> set active | None \<Rightarrow> False) \<and> within started completed e) entries of
                   Some e \<Rightarrow> entry_id e = Some (tm_id m) | None \<Rightarrow> False),
                 ub_require_active = (selector \<noteq> None)\<rparr>)
               (climb (\<lambda>_ entry. case entry of Some e \<Rightarrow> user_text e \<noteq> None | None \<Rightarrow> False)
                 ''Pi session contains a missing parent'' tree (tm_parent m) [])))"

text \<open>Validation before the writer is stopped; it changes nothing.  The file comes with the branch.\<close>

definition prepare_user_branch ::
  "session_io \<Rightarrow> string + dir_entry list \<Rightarrow> string \<Rightarrow> string \<Rightarrow> string \<Rightarrow> nat \<Rightarrow> nat \<Rightarrow> bool \<Rightarrow> user_turn_selector option
     \<Rightarrow> string + dir_entry \<times> user_branch" where
  "prepare_user_branch io dir sid cwd old_text started completed planner selector =
     (if \<not> si_uuid io sid then Inl ''Invalid Pi session identity''
      else case dir of
        Inl e \<Rightarrow> Inl e
      | Inr files \<Rightarrow> (case session_files sid files of
          [file] \<Rightarrow> (case de_text file of
              Inl e \<Rightarrow> Inl e
            | Inr text \<Rightarrow>
                if \<not> complete_text text then Inl ''Pi session has an incomplete last entry''
                else case parse_all (si_parse io) (lines text) of
                  Inl e \<Rightarrow> Inl e
                | Inr [] \<Rightarrow> Inl ''Empty Pi session''
                | Inr (header # entries) \<Rightarrow>
                    if \<not> session_header_ok io sid cwd header
                    then Inl ''Pi session belongs to another workspace or execution''
                    else map_result (\<lambda>b. (file, b))
                      (branch_of io planner old_text started completed selector (header # entries)))
        | _ \<Rightarrow> Inl ''Expected exactly one persisted Pi session for this execution''))"

definition prepare_node_user_branch ::
  "session_io \<Rightarrow> string + dir_entry list \<Rightarrow> string \<Rightarrow> string \<Rightarrow> string \<Rightarrow> nat \<Rightarrow> nat \<Rightarrow> user_turn_selector option
     \<Rightarrow> string + dir_entry \<times> user_branch" where
  "prepare_node_user_branch io dir sid cwd old_text started completed selector =
     prepare_user_branch io dir sid cwd old_text started completed False selector"

section \<open>Committing a branch\<close>

record prepared_branch =
  pb_old_len :: nat
  pb_first_user_turn :: bool

definition branch_marker :: "string \<Rightarrow> string option \<Rightarrow> string \<Rightarrow> json \<Rightarrow> json" where
  "branch_marker fresh parent leaf last_entry = JObject
     [(''customType'', JString ''grapher-edit''), (''data'', JObject [(''fromId'', JString leaf)]),
      (''id'', JString fresh), (''parentId'', case parent of Some p \<Rightarrow> JString p | None \<Rightarrow> JNull),
      (''timestamp'', JString (case get_str last_entry ''timestamp'' of Some t \<Rightarrow> t | None \<Rightarrow> ''2025-01-01T00:00:00.000Z'')),
      (''type'', JString ''custom'')]"

text \<open>\<open>set_len\<close> pads a shorter file with zero bytes.\<close>

definition rollback :: "session_io \<Rightarrow> prepared_branch \<Rightarrow> string \<Rightarrow> string option \<times> string" where
  "rollback io b text = (case si_truncate io of
     Some e \<Rightarrow> (Some (''Cannot restore Pi session after failed edit: '' @ e), text)
   | None \<Rightarrow> (None, take (pb_old_len b) text @ replicate (pb_old_len b - length text) (CHR 0x00)))"

text \<open>Whether the turn is still on the way from the leaf to the root.\<close>

definition still_active :: "json list \<Rightarrow> string \<Rightarrow> string \<Rightarrow> string option" where
  "still_active lines_read leaf selected =
     (case climb (\<lambda>i _. i = selected) ''Missing Pi parent'' (tree_of (tl lines_read)) (Some leaf) [] of
        Inl e \<Rightarrow> Some e
      | Inr (found, _) \<Rightarrow> if found then None else Some ''The selected user turn is no longer active'')"

definition append_marker :: "session_io \<Rightarrow> string \<Rightarrow> user_branch \<Rightarrow> string \<Rightarrow> json list \<Rightarrow> string \<Rightarrow> (string + prepared_branch) \<times> string" where
  "append_marker io fresh b leaf lines_read text =
     (let branch = \<lparr>pb_old_len = length text, pb_first_user_turn = ub_first_user_turn b\<rparr>
      in case si_write io text (si_render io (branch_marker fresh (ub_parent b) leaf (last lines_read)) @ [CHR 0x0A]) of
           (None, written) \<Rightarrow> (Inr branch, written)
         | (Some e, written) \<Rightarrow> (case rollback io branch written of
             (None, restored) \<Rightarrow> (Inl e, restored)
           | (Some failed, restored) \<Rightarrow> (Inl (e @ ''; '' @ failed), restored)))"

text \<open>\<open>text\<close> is the file as it is now; the result has the file as it is then.\<close>

definition commit :: "session_io \<Rightarrow> string \<Rightarrow> user_branch \<Rightarrow> string + string \<Rightarrow> (string + prepared_branch) \<times> string" where
  "commit io fresh b file = (case file of
     Inl e \<Rightarrow> (Inl e, [])
   | Inr text \<Rightarrow>
       if \<not> complete_text text then (Inl ''Pi session has an incomplete last entry'', text)
       else case parse_all (si_parse io) (lines text) of
         Inl e \<Rightarrow> (Inl e, text)
       | Inr lines_read \<Rightarrow> (case (if lines_read = [] then None else entry_id (last lines_read)) of
           None \<Rightarrow> (Inl ''Missing Pi leaf'', text)
         | Some leaf \<Rightarrow>
             case (if ub_require_active b then still_active lines_read leaf (ub_selected b) else None) of
               Some e \<Rightarrow> (Inl e, text)
             | None \<Rightarrow> append_marker io fresh b leaf lines_read text))"

definition branch_before_user ::
  "session_io \<Rightarrow> string + dir_entry list \<Rightarrow> string \<Rightarrow> string \<Rightarrow> string \<Rightarrow> nat \<Rightarrow> nat \<Rightarrow> string \<Rightarrow> string + prepared_branch \<times> string" where
  "branch_before_user io dir sid cwd old_text started completed fresh =
     (case prepare_user_branch io dir sid cwd old_text started completed False None of
        Inl e \<Rightarrow> Inl e
      | Inr (file, b) \<Rightarrow> (case commit io fresh b (de_text file) of
          (Inl e, _) \<Rightarrow> Inl e | (Inr p, text) \<Rightarrow> Inr (p, text)))"

definition branch_before_planner_user ::
  "session_io \<Rightarrow> string + dir_entry list \<Rightarrow> string \<Rightarrow> string \<Rightarrow> string \<Rightarrow> string \<Rightarrow> string + prepared_branch \<times> string" where
  "branch_before_planner_user io dir sid cwd old_text fresh =
     (case prepare_user_branch io dir sid cwd old_text 0 (2 ^ 64 - 1) True None of
        Inl e \<Rightarrow> Inl e
      | Inr (file, b) \<Rightarrow> (case commit io fresh b (de_text file) of
          (Inl e, _) \<Rightarrow> Inl e | (Inr p, text) \<Rightarrow> Inr (p, text)))"

end
