(* ===== verification/Edit_Message.thy ===== *)
theory Edit_Message
  imports Runtime_Control Session_Branch
begin

text \<open>
  Editing an earlier user turn of a node (\<open>edit_node_message_at\<close> in \<open>backend/src/runtime.rs\<close>): the turn is
  located in the durable events, in the transcript and in the agent's session file before anything changes;
  then the writer is stopped, the branch committed and the edit logged, or the branch taken back.
\<close>

text \<open>
  \<open>ei_sessions\<close> lists the directory of a first attempt, \<open>ei_reread\<close> is the file as it is when the branch is
  committed, \<open>ei_metadata\<close> checks the environment of an attempt, \<open>ei_id\<close> is the random identity of the marker.
\<close>

record edit_io =
  ei_session :: session_io
  ei_sessions :: "string \<Rightarrow> string + dir_entry list"
  ei_reread :: "dir_entry \<Rightarrow> string + string"
  ei_metadata :: "composite_result \<Rightarrow> string option"
  ei_id :: string

text \<open>What the caller asks for.\<close>

record edit_request =
  er_node :: string
  er_execution :: string
  er_old_text :: string
  er_instruction :: string
  er_images :: "image_attachment list option"
  er_version :: "nat option"
  er_offset :: "nat option"

section \<open>The prefix that is kept\<close>

definition position_of :: "('a \<Rightarrow> bool) \<Rightarrow> 'a list \<Rightarrow> nat option" where
  "position_of p xs = (let n = length (takeWhile (\<lambda>x. \<not> p x) xs) in if n < length xs then Some n else None)"

definition edit_anchor :: "edit_request \<Rightarrow> snapshot \<Rightarrow> execution option" where
  "edit_anchor r st = find (\<lambda>e. ex_id e = er_execution r \<and> ex_node e = er_node r
     \<and> (ex_completed_at e \<noteq> None \<or> ex_status e = ''running'')) (st_executions st)"

definition is_superseded :: "snapshot \<Rightarrow> execution \<Rightarrow> bool" where
  "is_superseded st e \<longleftrightarrow> ex_id e \<in> set (st_superseded_execution_ids st)"

definition current_session :: "string \<Rightarrow> snapshot \<Rightarrow> execution option" where
  "current_session node st = find (\<lambda>e. ex_node e = node \<and> \<not> is_superseded st e) (rev (st_executions st))"

definition comes_before :: "string \<Rightarrow> string \<Rightarrow> execution list \<Rightarrow> bool" where
  "comes_before a b es = (case (position_of (\<lambda>e. ex_id e = a) es, position_of (\<lambda>e. ex_id e = b) es) of
     (Some i, Some j) \<Rightarrow> i < j | _ \<Rightarrow> False)"

text \<open>An earlier cut of the same conversation reopens the end, a cut of this attempt sets it.\<close>

definition retained_step :: "string \<Rightarrow> execution \<Rightarrow> snapshot \<Rightarrow> event \<Rightarrow> nat option \<Rightarrow> nat option" where
  "retained_step node anchor st ev retained = (case ev_kind ev of
     ConversationEdited _ target _ _ from_execution_id _ from_output_offset _ _ _ \<Rightarrow>
       if target \<noteq> node then retained
       else (case find (\<lambda>e. ex_id e = from_execution_id) (st_executions st) of
         None \<Rightarrow> retained
       | Some c \<Rightarrow>
           if ex_session_id c \<noteq> ex_session_id anchor then retained
           else if ex_id c = ex_id anchor then from_output_offset
           else if comes_before from_execution_id (ex_id anchor) (st_executions st) then None
           else retained)
   | _ \<Rightarrow> retained)"

definition retained_message :: string where
  "retained_message = ''Select a user turn retained in the active conversation''"

text \<open>The node exists: the edit was validated.\<close>

definition retained_end :: "edit_request \<Rightarrow> execution \<Rightarrow> snapshot \<Rightarrow> string + nat option" where
  "retained_end r anchor st =
     (if \<not> is_superseded st anchor \<or> er_version r \<noteq> None then Inr None
      else
        let end_at = fold (retained_step (er_node r) anchor st) (st_events st) None;
            current = current_session (er_node r) st
        in if (case current of Some e \<Rightarrow> ex_session_id e \<noteq> ex_session_id anchor | None \<Rightarrow> False)
              \<or> end_at = None
              \<or> (current = None \<and> (case bt_get (st_nodes st) (er_node r) of
                   Some n \<Rightarrow> ns_edit_execution_id n = None | None \<Rightarrow> True))
           then Inl retained_message else Inr end_at)"

definition edited_output :: "execution \<Rightarrow> nat option \<Rightarrow> runtime \<Rightarrow> string + string" where
  "edited_output anchor end_at rt =
     (let run = st_run_id (rn_state rt); logs = so_logs (rn_store rt); logged = log_bytes run (ex_id anchor) logs in
      if 0 < logged
      then map_result lp_content (execution_log_page run (ex_id anchor) 0
             (case end_at of Some n \<Rightarrow> min n logged | None \<Rightarrow> 2 ^ 64 - 1) logs)
      else if ex_output_bytes anchor = 0 \<or> ex_output_bytes anchor = length (ex_output anchor)
      then Inr (truncate_output (ex_output anchor) end_at) else Inr [])"

text \<open>The offset of the turn, which must lie in a kept prefix.\<close>

definition turn_offset :: "env \<Rightarrow> edit_request \<Rightarrow> execution \<Rightarrow> nat option \<Rightarrow> string \<Rightarrow> snapshot \<Rightarrow> string + nat option" where
  "turn_offset en r anchor end_at output st =
     (let offset = (if er_offset r = None \<and> er_version r = None
            then unique_output_user_turn_offset (en_parse en) output (er_old_text r) else er_offset r)
      in if is_superseded st anchor \<and> er_version r = None
            \<and> \<not> (case (offset, end_at) of (Some a, Some b) \<Rightarrow> a < b | _ \<Rightarrow> False)
         then Inl retained_message else Inr offset)"

section \<open>The events of the turn\<close>

definition is_start :: "(execution \<Rightarrow> bool) \<Rightarrow> event \<Rightarrow> bool" where
  "is_start p ev = (case ev_kind ev of Started e _ _ \<Rightarrow> p e | _ \<Rightarrow> False)"

definition opens :: "string \<Rightarrow> event \<Rightarrow> bool" where
  "opens node ev = (case ev_kind ev of
     Invalidated _ target _ human _ _ _ _ \<Rightarrow> human \<and> target = node
   | ConversationEdited _ target _ _ _ _ _ _ _ _ \<Rightarrow> target = node
   | _ \<Rightarrow> False)"

definition opening_sequence :: "string \<Rightarrow> nat \<Rightarrow> event list \<Rightarrow> int" where
  "opening_sequence node start evs =
     ev_sequence (case find (opens node) (rev (take start evs)) of Some ev \<Rightarrow> ev | None \<Rightarrow> evs ! start)"

definition steers :: "edit_request \<Rightarrow> event \<Rightarrow> bool" where
  "steers r ev = (case ev_kind ev of
     Steered eid _ instruction _ \<Rightarrow> eid = er_execution r \<and> trim instruction = trim (er_old_text r) | _ \<Rightarrow> False)"

text \<open>No other attempt of the node started between the opening event and this one.\<close>

definition bound_opening :: "string \<Rightarrow> nat \<Rightarrow> int \<Rightarrow> event list \<Rightarrow> bool" where
  "bound_opening node start opening evs = (case position_of (\<lambda>ev. ev_sequence ev = opening) evs of
     None \<Rightarrow> False
   | Some i \<Rightarrow> i < start \<and> \<not> (\<exists>ev \<in> set (drop (i + 1) (take start evs)). is_start (\<lambda>e. ex_node e = node) ev))"

definition edits_opening :: "string \<Rightarrow> nat \<Rightarrow> bool \<Rightarrow> (dir_entry \<times> user_branch) option \<Rightarrow> event list \<Rightarrow> bool" where
  "edits_opening node start first_turn pending evs \<longleftrightarrow> first_turn
     \<or> (bound_opening node start (opening_sequence node start evs) evs
        \<and> (case pending of Some (_, b) \<Rightarrow> ub_first_in_execution b | None \<Rightarrow> False))"

definition from_sequence :: "edit_request \<Rightarrow> nat \<Rightarrow> bool \<Rightarrow> (dir_entry \<times> user_branch) option \<Rightarrow> nat option \<Rightarrow> event list \<Rightarrow> int" where
  "from_sequence r start first_turn pending offset evs =
     (if edits_opening (er_node r) start first_turn pending evs then opening_sequence (er_node r) start evs
      else if offset \<noteq> None then ev_sequence (evs ! start)
      else case find (steers r) (drop start evs) of
        Some ev \<Rightarrow> ev_sequence ev | None \<Rightarrow> opening_sequence (er_node r) start evs)"

section \<open>The branch of the session file\<close>

definition session_writer :: "string \<Rightarrow> execution \<Rightarrow> snapshot \<Rightarrow> execution" where
  "session_writer node anchor st = (case find (\<lambda>e. ex_node e = node \<and> ex_session_id e = ex_session_id anchor
       \<and> \<not> is_superseded st e) (rev (st_executions st)) of Some e \<Rightarrow> e | None \<Rightarrow> anchor)"

definition is_persisted :: "string \<Rightarrow> string + dir_entry list \<Rightarrow> bool" where
  "is_persisted sid dir = (case dir of
     Inl _ \<Rightarrow> False | Inr entries \<Rightarrow> \<exists>e \<in> set entries. ends_with (de_name e) (CHR ''_'' # sid @ ''.jsonl''))"

definition conversation_origin :: "string \<Rightarrow> execution \<Rightarrow> snapshot \<Rightarrow> string option" where
  "conversation_origin node anchor st =
     map_option ex_id (find (\<lambda>e. ex_session_id e = ex_session_id anchor \<and> ex_node e = node) (st_executions st))"

text \<open>A failed attempt without a session file has nothing to branch.\<close>

definition pending_branch :: "edit_io \<Rightarrow> edit_request \<Rightarrow> execution \<Rightarrow> string \<Rightarrow> user_turn_selector option \<Rightarrow> snapshot
    \<Rightarrow> string + (dir_entry \<times> user_branch) option" where
  "pending_branch io r anchor origin selector st =
     (let dir = ei_sessions io origin in
      if \<not> is_persisted (ex_session_id anchor) dir \<and> ex_status anchor = ''failed'' \<and> selector = None then Inr None
      else map_result Some (prepare_node_user_branch (ei_session io) dir (ex_session_id anchor)
        (ex_worktree (session_writer (er_node r) anchor st)) (er_old_text r) (ex_started_at anchor)
        (case ex_completed_at anchor of Some at \<Rightarrow> at | None \<Rightarrow> 2 ^ 64 - 1) selector))"

section \<open>The edit\<close>

text \<open>What is found out before anything changes.\<close>

record located =
  lo_pending :: "(dir_entry \<times> user_branch) option"
  lo_offset :: "nat option"
  lo_first_turn :: bool
  lo_from :: int

definition selected_row :: "env \<Rightarrow> edit_request \<Rightarrow> string \<Rightarrow> nat option \<Rightarrow> string + user_turn_selector option" where
  "selected_row en r output offset = (case offset of
     None \<Rightarrow> Inr None
   | Some n \<Rightarrow> map_result Some (output_user_turn (en_parse en) output n (er_old_text r)))"

definition locate_in_session ::
  "world \<Rightarrow> edit_io \<Rightarrow> edit_request \<Rightarrow> execution \<Rightarrow> nat \<Rightarrow> nat option \<Rightarrow> string \<Rightarrow> snapshot \<Rightarrow> string + located" where
  "locate_in_session w io r anchor start offset output st =
     (case conversation_origin (er_node r) anchor st of
        None \<Rightarrow> Inl ''Missing Pi session origin''
      | Some origin \<Rightarrow> (case selected_row (wd_env w) r output offset of
          Inl e \<Rightarrow> Inl e
        | Inr selector \<Rightarrow> map_result (\<lambda>pending.
            let first_turn = (case pending of Some (_, b) \<Rightarrow> ub_first_user_turn b | None \<Rightarrow> ex_id anchor = origin)
            in \<lparr>lo_pending = pending, lo_offset = offset, lo_first_turn = first_turn,
                lo_from = from_sequence r start first_turn pending offset (st_events st)\<rparr>)
            (pending_branch io r anchor origin selector st)))"

definition locate_turn :: "world \<Rightarrow> edit_io \<Rightarrow> edit_request \<Rightarrow> execution \<Rightarrow> runtime \<Rightarrow> string + located" where
  "locate_turn w io r anchor rt =
     (let st = rn_state rt in
      case retained_end r anchor st of
        Inl e \<Rightarrow> Inl e
      | Inr end_at \<Rightarrow> (case edited_output anchor end_at rt of
          Inl e \<Rightarrow> Inl e
        | Inr output \<Rightarrow> (case turn_offset (wd_env w) r anchor end_at output st of
            Inl e \<Rightarrow> Inl e
          | Inr offset \<Rightarrow> (case position_of (is_start (\<lambda>e. ex_id e = er_execution r)) (st_events st) of
              None \<Rightarrow> Inl ''Missing execution start''
            | Some start \<Rightarrow> locate_in_session w io r anchor start offset output st))))"

definition validate_anchor :: "world \<Rightarrow> edit_io \<Rightarrow> execution \<Rightarrow> snapshot \<Rightarrow> string option" where
  "validate_anchor w io anchor st =
     (if \<not> has_environment st then None
      else case wd_environments w st of
        Some e \<Rightarrow> Some e
      | None \<Rightarrow> (case ex_input anchor of
            None \<Rightarrow> Some ''Historical environment input is unavailable'' | Some input \<Rightarrow> ei_metadata io input))"

text \<open>
  The runtime comes with the session file, once its branch was committed: the file and its text then.
\<close>

type_synonym editing = "runtime \<times> (dir_entry \<times> string) option"

definition edited_event :: "edit_request \<Rightarrow> located \<Rightarrow> event_kind" where
  "edited_event r l = ConversationEdited [er_node r] (er_node r) (trim (er_instruction r)) (er_images r)
     (er_execution r) (lo_from l) (lo_offset l) (er_old_text r) (lo_first_turn l) (er_version r)"

definition commit_pending :: "edit_io \<Rightarrow> located \<Rightarrow> (string + prepared_branch option) \<times> (dir_entry \<times> string) option" where
  "commit_pending io l = (case lo_pending l of
     None \<Rightarrow> (Inr None, None)
   | Some (file, b) \<Rightarrow> (case commit (ei_session io) (ei_id io) b (ei_reread io file) of
       (result, written) \<Rightarrow> (map_result Some result, Some (file, written))))"

definition take_back :: "edit_io \<Rightarrow> string \<Rightarrow> prepared_branch option \<Rightarrow> (dir_entry \<times> string) option \<Rightarrow> runtime \<Rightarrow> editing outcome" where
  "take_back io e branch file rt = (case (branch, file) of
     (Some b, Some (d, written)) \<Rightarrow> (case rollback (ei_session io) b written of
        (None, restored) \<Rightarrow> Error e (rt, Some (d, restored))
      | (Some failed, restored) \<Rightarrow> Error (e @ ''; '' @ failed) (rt, Some (d, restored)))
   | _ \<Rightarrow> Error e (rt, file))"

text \<open>No mutation and no interruption before this.\<close>

definition apply_edit :: "world \<Rightarrow> edit_io \<Rightarrow> edit_request \<Rightarrow> located \<Rightarrow> runtime \<Rightarrow> editing outcome" where
  "apply_edit w io r l rt =
     (let node = er_node r;
          stopping = map (\<lambda>e. (ex_node e, ex_id e)) (running_attempts (Some node) (rn_state rt))
      in case andthen (request_execution_stop w (Some node) rt) (\<lambda>rt.
             try_ok (first_some (wd_stop w (st_run_id (rn_state rt))) stopping) rt
               (sync_failed_node_models w (Some [node]) rt)) of
           Panic \<Rightarrow> Panic
         | Error e rt \<Rightarrow> Error e (rt, None)
         | Ok rt \<Rightarrow> (case commit_pending io l of
             (Inl e, file) \<Rightarrow> Error e (rt, file)
           | (Inr branch, file) \<Rightarrow> (case emit w (edited_event r l) rt of
               Panic \<Rightarrow> Panic
             | Ok rt \<Rightarrow> Ok (rt, file)
             | Error e rt \<Rightarrow> take_back io e branch file rt)))"

definition in_editing :: "runtime outcome \<Rightarrow> editing outcome" where
  "in_editing r = (case r of Ok rt \<Rightarrow> Ok (rt, None) | Error e rt \<Rightarrow> Error e (rt, None) | Panic \<Rightarrow> Panic)"

definition edit_node_message_at :: "world \<Rightarrow> edit_io \<Rightarrow> edit_request \<Rightarrow> runtime \<Rightarrow> editing outcome" where
  "edit_node_message_at w io r rt =
     (let st = rn_state rt; node = er_node r in
      if trim (er_instruction r) = [] then Error ''Enter a replacement message'' (rt, None)
      else if source_direct_context st node
      then in_editing (try_ok (require_current_file_contract st) rt
        (andthen (sync_failed_node_models w (Some [node]) rt)
          (emit w (Invalidated [node] node (trim (er_instruction r)) True (er_images r) None False True))))
      else case validate_invalidation w node st of
        Some e \<Rightarrow> Error e (rt, None)
      | None \<Rightarrow> (case edit_anchor r st of
          None \<Rightarrow> Error ''Select an active node message to edit'' (rt, None)
        | Some anchor \<Rightarrow> (case validate_anchor w io anchor st of
            Some e \<Rightarrow> Error e (rt, None)
          | None \<Rightarrow> (case locate_turn w io r anchor rt of
              Inl e \<Rightarrow> Error e (rt, None) | Inr l \<Rightarrow> apply_edit w io r l rt))))"

definition edit_node_message_with_version :: "world \<Rightarrow> edit_io \<Rightarrow> edit_request \<Rightarrow> runtime \<Rightarrow> editing outcome" where
  "edit_node_message_with_version w io r = edit_node_message_at w io (r\<lparr>er_offset := None\<rparr>)"

definition edit_node_message :: "world \<Rightarrow> edit_io \<Rightarrow> edit_request \<Rightarrow> runtime \<Rightarrow> editing outcome" where
  "edit_node_message w io r = edit_node_message_with_version w io (r\<lparr>er_version := None\<rparr>)"

end
