(* ===== verification/Session_Branch_Correct.thy ===== *)
theory Session_Branch_Correct
  imports Session_Branch
begin

text \<open>
  What editing an earlier user turn does to the persisted conversation: the file only grows by one line,
  the turns above the edited one stay the active branch, and the edited turn leaves it.
\<close>

section \<open>The way to the root\<close>

text \<open>The path from an entry to the root, as the parent links give it.\<close>

fun ancestry :: "(string \<times> json) list \<Rightarrow> string option \<Rightarrow> string list \<Rightarrow> bool" where
  "ancestry tree None path = (path = [])"
| "ancestry tree (Some i) [] = False"
| "ancestry tree (Some i) (j # path) =
     (i = j \<and> (case map_of tree i of None \<Rightarrow> False | Some entry \<Rightarrow> ancestry tree (parent_id entry) path))"

lemma climb_ancestry:
  assumes "climb (\<lambda>_ _. False) missing tree cursor seen = Inr (found, out)"
  shows "\<not> found \<and> (\<exists>path. ancestry tree cursor path \<and> distinct path \<and> set path \<inter> set seen = {} \<and> out = rev path @ seen)"
  using assms
proof (induction "\<lambda>(_::string) (_::json option). False" missing tree cursor seen rule: climb.induct)
  case (2 missing tree i seen)
  then obtain entry where entry: "map_of tree i = Some entry" and i: "i \<notin> set seen"
    by (auto split: if_splits option.splits)
  then have "climb (\<lambda>_ _. False) missing tree (parent_id entry) (i # seen) = Inr (found, out)" using 2(2) by simp
  from 2(1) [OF i _ entry this] obtain path where "\<not> found"
    and path: "ancestry tree (parent_id entry) path" "distinct path" "set path \<inter> set (i # seen) = {}" "out = rev path @ i # seen"
    by auto
  then show ?case using entry i by (intro conjI exI [of _ "i # path"]) auto
qed simp

lemma climb_of_ancestry:
  assumes "ancestry tree cursor path" and "distinct path" and "set path \<inter> set seen = {}"
  shows "climb (\<lambda>_ _. False) missing tree cursor seen = Inr (False, rev path @ seen)"
  using assms
proof (induction path arbitrary: cursor seen)
  case (Cons i path)
  then obtain entry where "cursor = Some i" "map_of tree i = Some entry" "ancestry tree (parent_id entry) path"
    by (cases cursor) (auto split: option.splits)
  with Cons show ?case by simp
qed (case_tac cursor; simp)

text \<open>Looking for an entry of the path finds it.\<close>

lemma climb_finds:
  assumes "ancestry tree cursor path" and "distinct path" and "set path \<inter> set seen = {}" and "x \<in> set path"
  shows "\<exists>out. climb (\<lambda>i _. i = x) missing tree cursor seen = Inr (True, out)"
  using assms
proof (induction path arbitrary: cursor seen)
  case (Cons i path)
  then obtain entry where c: "cursor = Some i" "map_of tree i = Some entry" "ancestry tree (parent_id entry) path"
    by (cases cursor) (auto split: option.splits)
  show ?case
  proof (cases "i = x")
    case False
    then show ?thesis using Cons.IH [OF c(3), of "i # seen"] Cons.prems c by auto
  qed (use Cons.prems c in auto)
qed simp

lemma active_ids_iff: "active_ids tree leaf = Inr active \<longleftrightarrow> ancestry tree (Some leaf) (rev active) \<and> distinct active"
proof
  assume "active_ids tree leaf = Inr active"
  then obtain f where "climb (\<lambda>_ _. False) ''Pi session contains a missing parent'' tree (Some leaf) [] = Inr (f, active)"
    unfolding active_ids_def by (cases "climb (\<lambda>_ _. False) ''Pi session contains a missing parent'' tree (Some leaf) []")
      (simp_all add: map_result_def prod_eq_iff del: climb.simps)
  from climb_ancestry [OF this] show "ancestry tree (Some leaf) (rev active) \<and> distinct active" by auto
next
  assume "ancestry tree (Some leaf) (rev active) \<and> distinct active"
  then show "active_ids tree leaf = Inr active"
    using climb_of_ancestry [of tree "Some leaf" "rev active" "[]"] by (simp add: active_ids_def map_result_def del: climb.simps)
qed

lemma ancestry_below:
  assumes "ancestry tree cursor (lows @ x # ups)"
  shows "\<exists>entry. map_of tree x = Some entry \<and> ancestry tree (parent_id entry) ups"
  using assms
proof (induction lows arbitrary: cursor)
  case Nil
  then show ?case by (cases cursor) (auto split: option.splits)
next
  case (Cons i lows)
  then show ?case by (cases cursor) (auto split: option.splits)
qed

lemma map_of_key: "map_of m k = Some v \<Longrightarrow> k \<in> fst ` set m"
  by (metis map_of_eq_None_iff option.distinct(1))

lemma ancestry_extend:
  assumes "ancestry tree cursor path" and "fresh \<notin> fst ` set tree"
  shows "ancestry ((fresh, e) # tree) cursor path"
  using assms
proof (induction tree cursor path rule: ancestry.induct)
  case (3 tree i j path)
  then have "i \<noteq> fresh" by (auto split: option.splits dest: map_of_key)
  with 3 show ?case by (auto split: option.splits)
qed auto

lemma ancestry_known: "ancestry tree cursor path \<Longrightarrow> set path \<subseteq> fst ` set tree"
  by (induction tree cursor path rule: ancestry.induct) (auto split: option.splits intro: map_of_key)

lemma tree_of_snoc: "entry_id e = Some i \<Longrightarrow> tree_of (es @ [e]) = (i, e) # tree_of es"
  by (simp add: tree_of_def List.map_filter_def)

text \<open>A marker whose parent is the parent of \<open>x\<close> leaves what is above \<open>x\<close>, and itself.\<close>

lemma branch_path:
  assumes "active_ids (tree_of es) leaf = Inr active" and "x \<in> set active"
    and entry: "map_of (tree_of es) x = Some entry" and marker: "entry_id marker = Some fresh" "parent_id marker = parent_id entry"
    and fresh: "fresh \<notin> fst ` set (tree_of es)"
  shows "active_ids (tree_of (es @ [marker])) fresh = Inr (takeWhile (\<lambda>i. i \<noteq> x) active @ [fresh])"
proof -
  have c: "ancestry (tree_of es) (Some leaf) (rev active)" "distinct active" using assms(1) by (simp_all add: active_ids_iff)
  obtain ups lows where split: "active = ups @ x # lows" "x \<notin> set ups"
    using split_list_first [OF assms(2)] by blast
  have "ancestry (tree_of es) (parent_id entry) (rev ups)"
    using ancestry_below [of "tree_of es" "Some leaf" "rev lows" x "rev ups"] c split entry by simp
  then have "ancestry ((fresh, marker) # tree_of es) (parent_id entry) (rev ups)" and "fresh \<notin> set ups"
    using fresh ancestry_extend ancestry_known by fastforce+
  moreover have "takeWhile (\<lambda>i. i \<noteq> x) (ups @ x # lows) = ups" using split(2) by (induction ups) auto
  ultimately show ?thesis using c split marker by (simp add: active_ids_iff tree_of_snoc)
qed


section \<open>The selected turn\<close>

lemma turn_match_of:
  assumes "m \<in> set (turn_matches io planner old_text started completed active es)"
  shows "\<exists>e \<in> set es. entry_id e = Some (tm_id m) \<and> tm_parent m = parent_id e \<and> tm_active m = (tm_id m \<in> set active)"
  using assms by (auto simp: turn_matches_def List.map_filter_def split: if_splits)

lemma filter_single_in: "filter p xs = [m] \<Longrightarrow> m \<in> set xs \<and> p m"
  by (metis list.set_intros(1) mem_Collect_eq set_filter)

lemma select_row_in:
  assumes "select_row tree s ms = Inr m"
  shows "m \<in> set ms \<and> tm_active m"
proof -
  let ?live = "filter tm_active ms"
  let ?by_time = "filter (\<lambda>m. ot_time s \<noteq> None \<and> time_in tree (tm_id m) = ot_time s) ?live"
  have "(\<exists>i. find (\<lambda>m. tm_id m = i) ?live = Some m) \<or> ?by_time = [m] \<or> (ot_occurrence s < length ?live \<and> m = ?live ! ot_occurrence s)"
  proof (cases "case ot_id s of Some i \<Rightarrow> find (\<lambda>m. tm_id m = i) ?live | None \<Rightarrow> None")
    case (Some m')
    then show ?thesis using assms by (auto simp: select_row_def split: option.splits if_splits)
  next
    case None
    then show ?thesis using assms unfolding select_row_def Let_def None
      by (simp del: filter_filter split: list.splits if_splits sum.splits)
  qed
  then have "m \<in> set ?live"
    by (elim disjE exE conjE) (auto simp: find_Some_iff simp del: filter_filter dest: filter_single_in nth_mem)
  then show ?thesis by simp
qed

lemma select_unique_in:
  assumes "select_unique ms = Inr m"
  shows "m \<in> set ms"
proof -
  have "filter tm_active ms = [m] \<or> ms = [m]"
    using assms unfolding select_unique_def by (cases ms; cases "tl ms"; cases "filter tm_active ms"; cases "tl (filter tm_active ms)") auto
  then show ?thesis by (auto dest: filter_single_in)
qed


section \<open>What was prepared\<close>

text \<open>A prepared branch is the branch of the parsed lines of the one session file.\<close>

lemma prepare_user_branchD:
  assumes "prepare_user_branch io dir sid cwd old_text started completed planner selector = Inr (file, b)"
  shows "\<exists>text header entries. de_text file = Inr text \<and> complete_text text
     \<and> parse_all (si_parse io) (lines text) = Inr (header # entries)
     \<and> branch_of io planner old_text started completed selector (header # entries) = Inr b"
  using assms unfolding prepare_user_branch_def map_result_def
  by (fastforce split: if_splits sum.splits list.splits)

lemma branch_ofD:
  assumes "branch_of io planner old_text started completed selector vs = Inr b"
  shows "\<exists>leaf active e. entry_id (last vs) = Some leaf \<and> active_ids (tree_of (tl vs)) leaf = Inr active
     \<and> e \<in> set (tl vs) \<and> entry_id e = Some (ub_selected b) \<and> ub_parent b = parent_id e
     \<and> ub_require_active b = (selector \<noteq> None) \<and> (selector \<noteq> None \<longrightarrow> ub_selected b \<in> set active)"
proof -
  obtain leaf active m found out where leaf: "entry_id (last vs) = Some leaf" "active_ids (tree_of (tl vs)) leaf = Inr active"
    and m: "(case selector of Some s \<Rightarrow> select_row (tree_of (tl vs)) s (turn_matches io planner old_text started completed active (tl vs))
        | None \<Rightarrow> select_unique (turn_matches io planner old_text started completed active (tl vs))) = Inr m"
    and b: "ub_selected b = tm_id m" "ub_parent b = tm_parent m" "ub_require_active b = (selector \<noteq> None)"
    using assms unfolding branch_of_def Let_def map_result_def
    by (auto split: if_splits option.splits sum.splits)
  have "m \<in> set (turn_matches io planner old_text started completed active (tl vs)) \<and> (selector \<noteq> None \<longrightarrow> tm_active m)"
    using m by (auto split: option.splits dest: select_row_in select_unique_in)
  then show ?thesis using leaf b turn_match_of by fastforce
qed

lemma parse_all_snoc: "parse_all p (ls @ [l]) = (case parse_all p ls of Inl e \<Rightarrow> Inl e
    | Inr vs \<Rightarrow> (case p l of Inl _ \<Rightarrow> Inl ''Invalid Pi session entry'' | Inr v \<Rightarrow> Inr (vs @ [v])))"
  by (induction ls) (auto simp: map_result_def split: sum.splits)

lemma tree_of_unique:
  assumes "distinct (map entry_id es)" and "e \<in> set es" and "entry_id e = Some i"
  shows "map_of (tree_of es) i = Some e"
proof -
  have "e' = e" if "e' \<in> set es" "entry_id e' = Some i" for e'
    using assms that by (metis distinct_map inj_onD)
  then have "(i, e') \<in> set (tree_of es) \<Longrightarrow> e' = e" for e' by (auto simp: tree_of_def List.map_filter_def)
  moreover have "i \<in> fst ` set (tree_of es)" using assms(2,3) by (force simp: tree_of_def List.map_filter_def)
  ultimately show ?thesis by (metis map_of_SomeD map_of_eq_None_iff not_None_eq)
qed

lemma entry_id_marker: "entry_id (branch_marker fresh parent leaf last_entry) = Some fresh"
  and parent_id_marker: "parent_id (branch_marker fresh parent leaf last_entry) = parent"
  by (simp_all add: branch_marker_def entry_id_def parent_id_def get_str_def bt_get_def split: option.splits)


section \<open>Editing a turn\<close>

text \<open>The file system appends and truncates; the marker can be read back.\<close>

definition honest_files :: "session_io \<Rightarrow> bool" where
  "honest_files io \<longleftrightarrow> (\<forall>t s. si_write io t s = (None, t @ s)) \<and> si_truncate io = None"

definition readable :: "session_io \<Rightarrow> json \<Rightarrow> bool" where
  "readable io v \<longleftrightarrow> si_parse io (si_render io v) = Inr v \<and> CHR 0x0A \<notin> set (si_render io v)
     \<and> (si_render io v = [] \<or> last (si_render io v) \<noteq> CHR 0x0D)"

lemma still_active_of:
  assumes "active_ids (tree_of (tl vs)) leaf = Inr active" and "x \<in> set active"
  shows "still_active vs leaf x = None"
proof -
  have "ancestry (tree_of (tl vs)) (Some leaf) (rev active)" "distinct (rev active)" using assms(1) by (simp_all add: active_ids_iff)
  from climb_finds [OF this, of "[]" x "''Missing Pi parent''"] assms(2)
  obtain out where "climb (\<lambda>i _. i = x) ''Missing Pi parent'' (tree_of (tl vs)) (Some leaf) [] = Inr (True, out)" by auto
  then show ?thesis by (simp add: still_active_def del: climb.simps)
qed

lemma commit_appends:
  assumes "honest_files io" and "complete_text text" and "parse_all (si_parse io) (lines text) = Inr vs" and "vs \<noteq> []"
    and "entry_id (last vs) = Some leaf"
    and "ub_require_active b \<Longrightarrow> still_active vs leaf (ub_selected b) = None"
  shows "commit io fresh b (Inr text) = (Inr \<lparr>pb_old_len = length text, pb_first_user_turn = ub_first_user_turn b\<rparr>,
    text @ si_render io (branch_marker fresh (ub_parent b) leaf (last vs)) @ [CHR 0x0A])"
  using assms by (simp add: commit_def append_marker_def honest_files_def)

lemma rollback_restores:
  "honest_files io \<Longrightarrow> rollback io \<lparr>pb_old_len = length text, pb_first_user_turn = f\<rparr> (text @ l) = (None, text)"
  by (simp add: rollback_def honest_files_def)

text \<open>C26: Editing a turn appends exactly one line to the session file, which rolling back takes away again; the
  entries before it are read back as they were, and the active branch is what was above the edited turn, then
  the marker: the edited turn and all after it have left the conversation but not the file.  A commit of a
  prepared edit does not fail by itself.\<close>

theorem edit_branches_before_turn:
  assumes prepared: "prepare_user_branch io dir sid cwd old_text started completed planner selector = Inr (file, b)"
    and content: "de_text file = Inr text"
    and vs: "parse_all (si_parse io) (lines text) = Inr vs" and unique: "distinct (map entry_id (tl vs))"
    and leaf: "entry_id (last vs) = Some leaf"
    and marker: "marker = branch_marker fresh (ub_parent b) leaf (last vs)" "readable io marker"
    and fresh: "Some fresh \<notin> entry_id ` set (tl vs)"
    and files: "honest_files io"
  shows "\<exists>active p line.
     active_ids (tree_of (tl vs)) leaf = Inr active
     \<and> commit io fresh b (Inr text) = (Inr p, text @ line)
     \<and> rollback io p (text @ line) = (None, text)
     \<and> parse_all (si_parse io) (lines (text @ line)) = Inr (vs @ [marker])
     \<and> (ub_selected b \<in> set active \<longrightarrow>
          active_ids (tree_of (tl (vs @ [marker]))) fresh = Inr (takeWhile (\<lambda>i. i \<noteq> ub_selected b) active @ [fresh]))"
proof -
  have complete: "complete_text text" and "vs \<noteq> []"
    and branch: "branch_of io planner old_text started completed selector vs = Inr b"
    using prepare_user_branchD [OF prepared] content vs by auto
  obtain active e where active: "active_ids (tree_of (tl vs)) leaf = Inr active"
    and e: "e \<in> set (tl vs)" "entry_id e = Some (ub_selected b)" "ub_parent b = parent_id e"
    and selected: "ub_require_active b \<Longrightarrow> ub_selected b \<in> set active"
    using branch_ofD [OF branch] leaf by auto
  let ?line = "si_render io marker @ [CHR 0x0A]"
  let ?p = "\<lparr>pb_old_len = length text, pb_first_user_turn = ub_first_user_turn b\<rparr>"
  have "commit io fresh b (Inr text) = (Inr ?p, text @ ?line)"
    unfolding marker(1)
    by (rule commit_appends [OF files complete vs \<open>vs \<noteq> []\<close> leaf]) (rule still_active_of [OF active selected])
  moreover have "rollback io ?p (text @ ?line) = (None, text)" by (rule rollback_restores [OF files])
  moreover have "parse_all (si_parse io) (lines (text @ ?line)) = Inr (vs @ [marker])"
    using lines_snoc [of "text" "si_render io marker"] complete marker(2) vs
    by (simp add: complete_text_def readable_def parse_all_snoc)
  moreover have "active_ids (tree_of (tl (vs @ [marker]))) fresh = Inr (takeWhile (\<lambda>i. i \<noteq> ub_selected b) active @ [fresh])"
    if "ub_selected b \<in> set active"
  proof -
    have "map_of (tree_of (tl vs)) (ub_selected b) = Some e" by (rule tree_of_unique [OF unique e(1,2)])
    moreover have "fresh \<notin> fst ` set (tree_of (tl vs))"
      using fresh by (force simp: tree_of_def List.map_filter_def image_iff)
    ultimately show ?thesis
      using branch_path [OF active that] e(3) \<open>vs \<noteq> []\<close> by (simp add: marker(1) entry_id_marker parent_id_marker)
  qed
  ultimately show ?thesis using active by blast
qed

text \<open>A task, its answer and a steer; the steer is edited.\<close>

definition sample_turn :: "string \<Rightarrow> string option \<Rightarrow> string \<Rightarrow> string \<Rightarrow> json" where
  "sample_turn i parent role content = JObject
     [(''id'', JString i), (''message'', JObject [(''content'', JString content), (''role'', JString role), (''timestamp'', JPosInt 20)]),
      (''parentId'', case parent of Some p \<Rightarrow> JString p | None \<Rightarrow> JNull), (''type'', JString ''message'')]"

definition sample_lines :: "(string \<times> json) list" where
  "sample_lines =
     [(''H'', JObject [(''cwd'', JString ''w''), (''id'', JString ''s''), (''type'', JString ''session'')]),
      (''A'', sample_turn ''a'' None ''user'' ''task''), (''B'', sample_turn ''b'' (Some ''a'') ''assistant'' ''answer''),
      (''C'', sample_turn ''c'' (Some ''b'') ''user'' ''steer'')]"

definition sample_marker :: json where
  "sample_marker = branch_marker ''m'' (Some ''b'') ''c'' (snd (last sample_lines))"

definition sample_files :: session_io where
  "sample_files = \<lparr>si_uuid = (\<lambda>_. True),
     si_parse = (\<lambda>l. case map_of ((''M'', sample_marker) # sample_lines) l of Some v \<Rightarrow> Inr v | None \<Rightarrow> Inl ''bad''),
     si_render = (\<lambda>_. ''M''), si_same_path = (=), si_actual_path = Inr, si_host_path = id,
     si_write = (\<lambda>t s. (None, t @ s)), si_truncate = None\<rparr>"

definition sample_file :: dir_entry where
  "sample_file = \<lparr>de_name = ''x_s.jsonl'', de_is_file = True, de_path = ''/d/x_s.jsonl'',
     de_text = Inr (concat (map (\<lambda>(l, _). l @ [CHR 0x0A]) sample_lines))\<rparr>"

lemma edit_branches_before_turn_witness:
  "\<exists>p t. commit sample_files ''m'' \<lparr>ub_selected = ''c'', ub_parent = Some ''b'', ub_first_user_turn = False,
        ub_first_in_execution = False, ub_require_active = False\<rparr> (de_text sample_file) = (Inr p, t)
     \<and> parse_all (si_parse sample_files) (lines t) = Inr (map snd sample_lines @ [sample_marker])
     \<and> active_ids (tree_of (tl (map snd sample_lines @ [sample_marker]))) ''m'' = Inr [''a'', ''b'', ''m'']"
proof -
  have prepared: "prepare_user_branch sample_files (Inr [sample_file]) ''s'' ''w'' ''steer'' 0 50 False None
      = Inr (sample_file, \<lparr>ub_selected = ''c'', ub_parent = Some ''b'', ub_first_user_turn = False,
        ub_first_in_execution = False, ub_require_active = False\<rparr>)"
    by code_simp
  have content: "de_text sample_file = Inr (concat (map (\<lambda>(l, _). l @ [CHR 0x0A]) sample_lines))" by (simp add: sample_file_def)
  have vs: "parse_all (si_parse sample_files) (lines (concat (map (\<lambda>(l, _). l @ [CHR 0x0A]) sample_lines)))
      = Inr (map snd sample_lines)"
    by code_simp
  have facts: "distinct (map entry_id (tl (map snd sample_lines)))" "entry_id (last (map snd sample_lines)) = Some ''c''"
    "sample_marker = branch_marker ''m'' (Some ''b'') ''c'' (last (map snd sample_lines))" "readable sample_files sample_marker"
    "Some ''m'' \<notin> entry_id ` set (tl (map snd sample_lines))" "active_ids (tree_of (tl (map snd sample_lines))) ''c'' = Inr [''a'', ''b'', ''c'']"
    by code_simp+
  have files: "honest_files sample_files" by (simp add: honest_files_def sample_files_def)
  show ?thesis
    using edit_branches_before_turn [OF prepared content vs facts(1,2) _ facts(4,5) files] facts(3,6) content by auto
qed

end
