(* ===== verification/Edit_Correct.thy ===== *)
theory Edit_Correct
  imports Edit_Message Plain_Events Sessions Session_Branch_Correct
begin

text \<open>
  An edit of a node's turn is all or nothing: the log of the run and the session file of the conversation
  either both have it or neither does; where the file cannot be restored, the error says so.
\<close>

definition is_edit :: "event \<Rightarrow> bool" where
  "is_edit ev = (case ev_kind ev of ConversationEdited _ _ _ _ _ _ _ _ _ _ \<Rightarrow> True
     | Invalidated _ _ _ human _ _ _ _ \<Rightarrow> human | _ \<Rightarrow> False)"

definition edits :: "runtime \<Rightarrow> event list" where
  "edits rt = filter is_edit (st_events (rn_state rt))"

definition same_edits :: "runtime \<Rightarrow> runtime \<Rightarrow> bool" where
  "same_edits rt rt' \<longleftrightarrow> edits rt' = edits rt"

lemma same_edits_emit [sound_intros]:
  assumes "same_edits rt rt'" and "plain_kind kind" and "\<And>ev. ev_kind ev = kind \<Longrightarrow> \<not> is_edit ev"
  shows "sound same_edits rt (emit w kind rt')"
proof -
  have "edits t = edits rt'" if "left (emit w kind rt') = Some t" for t
    using emit_plain_log_left [OF that assms(2)] assms(3) by (auto simp: edits_def filter_empty_conv)
  then show ?thesis using assms(1) by (simp add: sound_def same_edits_def)
qed

lemma same_edits_refl [sound_intros]: "same_edits rt rt"
  by (simp add: same_edits_def)

lemma same_edits_stop [sound_intros]: "same_edits rt rt' \<Longrightarrow> sound same_edits rt (request_execution_stop w name rt')"
  unfolding request_execution_stop_def by (auto intro!: sound_intros simp: plain_kind_def is_edit_def)

lemma same_edits_sync [sound_intros]: "same_edits rt rt' \<Longrightarrow> sound same_edits rt (sync_failed_node_models w only rt')"
  unfolding sync_failed_node_models_def by (auto intro!: sound_intros simp: plain_kind_def is_edit_def)

section \<open>The session file\<close>

text \<open>
  What writing leaves when it fails: the text that was there and some part of what was to be written, or
  anything else after it.  Both writing and truncating may fail.
\<close>

definition writes_append :: "session_io \<Rightarrow> bool" where
  "writes_append io \<longleftrightarrow> (\<forall>t s. si_write io t s = (None, t @ s) \<or> (\<exists>e part. si_write io t s = (Some e, t @ part)))"

text \<open>
  The file a failed edit leaves: the text that was read, or that text and a remainder, when truncating the
  file failed as well and the error ends with that failure.
\<close>

definition unrestored :: "string \<Rightarrow> string" where
  "unrestored failure = ''; '' @ ''Cannot restore Pi session after failed edit: '' @ failure"

definition restored_or_reported :: "edit_io \<Rightarrow> string \<Rightarrow> (dir_entry \<times> string) option \<Rightarrow> bool" where
  "restored_or_reported io e file = (case file of
     None \<Rightarrow> True
   | Some (d, t) \<Rightarrow> (case ei_reread io d of
       Inl _ \<Rightarrow> t = []
     | Inr u \<Rightarrow> t = u \<or> (\<exists>failure cause part. si_truncate (ei_session io) = Some failure \<and> e = cause @ unrestored failure
         \<and> t = u @ part)))"

text \<open>The file a success leaves: one line more, if there was a conversation to branch.\<close>

definition branched :: "edit_io \<Rightarrow> located \<Rightarrow> (dir_entry \<times> string) option \<Rightarrow> bool" where
  "branched io l file = (case lo_pending l of
     None \<Rightarrow> file = None
   | Some (d, b) \<Rightarrow> (\<exists>u marker. ei_reread io d = Inr u \<and> entry_id marker = Some (ei_id io) \<and> parent_id marker = ub_parent b
       \<and> file = Some (d, u @ si_render (ei_session io) marker @ [CHR 0x0A])))"

lemma append_marker_cases:
  assumes "writes_append io"
  obtains (restored) e where "append_marker io fresh b leaf ls u = (Inl e, u)"
  | (unrestorable) e failure part where "si_truncate io = Some failure"
      "append_marker io fresh b leaf ls u = (Inl (e @ unrestored failure), u @ part)"
  | (stored) "append_marker io fresh b leaf ls u
        = (Inr \<lparr>pb_old_len = length u, pb_first_user_turn = ub_first_user_turn b\<rparr>,
           u @ si_render io (branch_marker fresh (ub_parent b) leaf (last ls)) @ [CHR 0x0A])"
proof -
  let ?line = "si_render io (branch_marker fresh (ub_parent b) leaf (last ls)) @ [CHR 0x0A]"
  from assms have "si_write io u ?line = (None, u @ ?line) \<or> (\<exists>e part. si_write io u ?line = (Some e, u @ part))"
    by (simp add: writes_append_def)
  then consider "si_write io u ?line = (None, u @ ?line)" | e part where "si_write io u ?line = (Some e, u @ part)" by blast
  then show thesis
  proof cases
    case 1
    then show thesis by (intro stored) (simp add: append_marker_def)
  next
    case (2 e part)
    then show thesis
      by (cases "si_truncate io")
        (auto simp: append_marker_def rollback_def unrestored_def intro: restored unrestorable)
  qed
qed

text \<open>Before the marker is written nothing is changed.\<close>

lemma commit_split:
  fixes content :: "string + string"
  obtains (unreadable) e where "content = Inl e" "commit io fresh b content = (Inl e, [])"
  | (refused) u e where "content = Inr u" "commit io fresh b content = (Inl e, u)"
  | (appended) u leaf ls where "content = Inr u" "commit io fresh b content = append_marker io fresh b leaf ls u"
proof (cases content)
  case (Inl e)
  then show thesis by (intro unreadable [of e]) (simp_all add: commit_def)
next
  case (Inr u)
  then have "(\<exists>e. commit io fresh b content = (Inl e, u)) \<or> (\<exists>leaf ls. commit io fresh b content = append_marker io fresh b leaf ls u)"
    by (auto simp: commit_def simp del: parse_all.simps split: sum.splits option.splits if_splits)
  with Inr show thesis by (auto intro: refused appended)
qed

lemma commit_pending_cases:
  assumes "writes_append (ei_session io)"
  obtains (failed) e left_file where "commit_pending io l = (Inl e, left_file)" "restored_or_reported io e left_file"
  | (nothing) "commit_pending io l = (Inr None, None)" "lo_pending l = None"
  | (stored) d u p s where "commit_pending io l = (Inr (Some p), Some (d, u @ s))" "ei_reread io d = Inr u"
      "branched io l (Some (d, u @ s))" "pb_old_len p = length u"
proof (cases "lo_pending l")
  case None
  then have "commit_pending io l = (Inr None, None)" by (simp add: commit_pending_def)
  then show thesis using None by (rule nothing)
next
  case (Some pending)
  then obtain d b where l: "lo_pending l = Some (d, b)" by (cases pending) simp
  have pending: "commit_pending io l = (case commit (ei_session io) (ei_id io) b (ei_reread io d) of
      (result, written) \<Rightarrow> (map_result Some result, Some (d, written)))"
    by (simp add: commit_pending_def l)
  show thesis
  proof (cases rule: commit_split [of "ei_reread io d" "ei_session io" "ei_id io" b])
    case (unreadable e)
    then show thesis by (intro failed [of e "Some (d, [])"]) (simp_all add: pending map_result_def restored_or_reported_def)
  next
    case (refused u e)
    then show thesis by (intro failed [of e "Some (d, u)"]) (simp_all add: pending map_result_def restored_or_reported_def)
  next
    case (appended u leaf ls)
    from assms show thesis
    proof (cases rule: append_marker_cases [of "ei_session io" "ei_id io" b leaf ls u])
      case (restored e)
      with appended show thesis
        by (intro failed [of e "Some (d, u)"]) (simp_all add: pending map_result_def restored_or_reported_def)
    next
      case (unrestorable e failure part)
      with appended show thesis
        by (intro failed [of "e @ unrestored failure" "Some (d, u @ part)"])
          (auto simp: pending map_result_def restored_or_reported_def)
    next
      case stored
      with appended show thesis
        by (intro that(3) [of _ d u])
          (auto simp: pending map_result_def branched_def l entry_id_marker parent_id_marker
            intro!: exI [of _ "branch_marker (ei_id io) (ub_parent b) leaf (last ls)"])
    qed
  qed
qed

lemma take_back_restores:
  assumes "ei_reread io d = Inr u" and "pb_old_len p = length u"
  shows "\<exists>e' t. take_back io e (Some p) (Some (d, u @ s)) rt = Error e' (rt, Some (d, t))
    \<and> restored_or_reported io e' (Some (d, t))"
  using assms by (cases "si_truncate (ei_session io)")
    (auto simp: take_back_def rollback_def restored_or_reported_def unrestored_def)

section \<open>All or nothing\<close>

lemma edited_event_plain: "plain_kind (edited_event r l)" "ev_kind ev = edited_event r l \<Longrightarrow> is_edit ev"
  by (simp_all add: edited_event_def plain_kind_def is_edit_def)

lemma apply_edit_all_or_nothing:
  assumes files: "writes_append (ei_session io)"
  shows "case apply_edit w io r l rt of
     Panic \<Rightarrow> True
   | Error e (rt', file) \<Rightarrow> edits rt' = edits rt \<and> restored_or_reported io e file
   | Ok (rt', file) \<Rightarrow> (\<exists>ev. edits rt' = edits rt @ [ev] \<and> ev_kind ev = edited_event r l) \<and> branched io l file"
proof -
  let ?stop = "andthen (request_execution_stop w (Some (er_node r)) rt) (\<lambda>rt'.
      try_ok (first_some (wd_stop w (st_run_id (rn_state rt')))
        (map (\<lambda>e. (ex_node e, ex_id e)) (running_attempts (Some (er_node r)) (rn_state rt)))) rt'
        (sync_failed_node_models w (Some [er_node r]) rt'))"
  have stop: "sound same_edits rt ?stop" by (auto intro!: sound_intros)
  show ?thesis
  proof (cases ?stop)
    case Panic
    then show ?thesis by (simp add: apply_edit_def)
  next
    case (Error e rt1)
    then have "edits rt1 = edits rt" using stop by (simp add: sound_def same_edits_def)
    then show ?thesis using Error by (simp add: apply_edit_def restored_or_reported_def)
  next
    case (Ok rt1)
    then have same: "edits rt1 = edits rt" using stop by (simp add: sound_def same_edits_def)
    have edit: "apply_edit w io r l rt = (case commit_pending io l of
             (Inl e, file) \<Rightarrow> Error e (rt1, file)
           | (Inr branch, file) \<Rightarrow> (case emit w (edited_event r l) rt1 of
               Panic \<Rightarrow> Panic | Ok rt \<Rightarrow> Ok (rt, file) | Error e rt \<Rightarrow> take_back io e branch file rt))"
      using Ok by (simp add: apply_edit_def)
    have success: "\<exists>ev. edits rt2 = edits rt @ [ev] \<and> ev_kind ev = edited_event r l" if "emit w (edited_event r l) rt1 = Ok rt2" for rt2
      using emit_plain_log [OF that edited_event_plain(1)] edited_event_plain(2) same by (fastforce simp: edits_def)
    have failure: "edits rt2 = edits rt" if "emit w (edited_event r l) rt1 = Error e rt2" for e rt2
      using emit_plain_error [OF that edited_event_plain(1)] same by (simp add: edits_def)
    from files show ?thesis
    proof (cases rule: commit_pending_cases [of io l])
      case (failed e left_file)
      then show ?thesis by (simp add: edit same)
    next
      case nothing
      then show ?thesis
        by (cases "emit w (edited_event r l) rt1")
          (simp_all add: edit branched_def take_back_def restored_or_reported_def success failure)
    next
      case (stored d u p s)
      show ?thesis
      proof (cases "emit w (edited_event r l) rt1")
        case (Error e rt2)
        from take_back_restores [OF stored(2,4), of e s rt2] show ?thesis
          by (auto simp: edit stored(1) Error failure [OF Error])
      qed (simp_all add: edit stored(1,3) success)
    qed
  qed
qed

text \<open>A conversation in the source directory is not branched: the message is one human invalidation.\<close>

definition source_edit :: "edit_request \<Rightarrow> event_kind" where
  "source_edit r = Invalidated [er_node r] (er_node r) (trim (er_instruction r)) True (er_images r) None False True"

lemma source_edit_plain: "plain_kind (source_edit r)" "ev_kind ev = source_edit r \<Longrightarrow> is_edit ev"
  by (simp_all add: source_edit_def plain_kind_def is_edit_def)

lemma source_edit_all_or_nothing:
  assumes "source_direct_context (rn_state rt) (er_node r)"
  shows "case edit_node_message_at w io r rt of
     Panic \<Rightarrow> True
   | Error e (rt', file) \<Rightarrow> edits rt' = edits rt \<and> file = None
   | Ok (rt', file) \<Rightarrow> (\<exists>ev. edits rt' = edits rt @ [ev] \<and> ev_kind ev = source_edit r) \<and> file = None"
proof (cases "trim (er_instruction r) = [] \<or> require_current_file_contract (rn_state rt) \<noteq> None")
  case True
  with assms show ?thesis by (auto simp: edit_node_message_at_def Let_def in_editing_def try_ok_def)
next
  case False
  let ?sync = "sync_failed_node_models w (Some [er_node r]) rt"
  have edit: "edit_node_message_at w io r rt = in_editing (andthen ?sync (emit w (source_edit r)))"
    using False assms by (simp add: edit_node_message_at_def Let_def source_edit_def try_ok_def)
  have sync: "sound same_edits rt ?sync" by (intro same_edits_sync same_edits_refl)
  show ?thesis
  proof (cases ?sync)
    case synced: (Ok rt1)
    with sync have same: "edits rt1 = edits rt" by (simp add: sound_def same_edits_def)
    show ?thesis
    proof (cases "emit w (source_edit r) rt1")
      case (Ok rt2)
      from emit_plain_log [OF this source_edit_plain(1)] source_edit_plain(2) same
      have "\<exists>ev. edits rt2 = edits rt @ [ev] \<and> ev_kind ev = source_edit r" by (fastforce simp: edits_def)
      then show ?thesis by (simp add: edit synced in_editing_def andthen_def Ok)
    next
      case (Error e rt2)
      from emit_plain_error [OF this source_edit_plain(1)] same have "edits rt2 = edits rt" by (simp add: edits_def)
      then show ?thesis by (simp add: edit synced in_editing_def andthen_def Error)
    qed (simp add: edit synced in_editing_def andthen_def)
  next
    case (Error e rt1)
    with sync show ?thesis by (simp add: edit in_editing_def andthen_def sound_def same_edits_def)
  qed (simp add: edit in_editing_def andthen_def)
qed

text \<open>Only a failed attempt is edited without a session file.\<close>

lemma pending_none: "pending_branch io r anchor origin selector st = Inr None \<Longrightarrow> ex_status anchor = ''failed''"
  by (auto simp: pending_branch_def Let_def map_result_def split: if_splits sum.splits)

lemma located_pending:
  "locate_turn w io r anchor rt = Inr l \<Longrightarrow> lo_pending l = None \<Longrightarrow> ex_status anchor = ''failed''"
  by (auto simp: locate_turn_def locate_in_session_def map_result_def Let_def dest!: pending_none split: sum.splits option.splits)

text \<open>C25: Whichever of reading, writing, truncating the session file or logging fails: a failed edit logs no edit, and the
  session file is as it was read, unless truncating it failed, and then the error ends with that failure.  A
  successful edit logs exactly one edit.  In the source directory that is a human invalidation and no file is
  touched.  Otherwise it is the edit of the turn located before anything was interrupted, and the session file has
  one line more, the marker that makes the turns above it the conversation; only an edit of a failed attempt
  that never wrote a session file goes without.  A write may leave any remainder behind, but what was in the file stays.\<close>

theorem edit_all_or_nothing:
  assumes files: "writes_append (ei_session io)"
  shows "case edit_node_message_at w io r rt of
     Panic \<Rightarrow> True
   | Error e (rt', file) \<Rightarrow> edits rt' = edits rt \<and> restored_or_reported io e file
   | Ok (rt', file) \<Rightarrow> (\<exists>ev. edits rt' = edits rt @ [ev]
       \<and> (if source_direct_context (rn_state rt) (er_node r) then ev_kind ev = source_edit r \<and> file = None
          else \<exists>anchor l. edit_anchor r (rn_state rt) = Some anchor \<and> locate_turn w io r anchor rt = Inr l
            \<and> ev_kind ev = edited_event r l \<and> branched io l file \<and> (file = None \<longrightarrow> ex_status anchor = ''failed'')))"
proof (cases "source_direct_context (rn_state rt) (er_node r)")
  case True
  from source_edit_all_or_nothing [OF this, of w io] True show ?thesis
    by (auto simp: restored_or_reported_def split: outcome.splits)
next
  case conversation: False
  show ?thesis
  proof (cases "\<exists>anchor l. edit_node_message_at w io r rt = apply_edit w io r l rt
      \<and> edit_anchor r (rn_state rt) = Some anchor \<and> locate_turn w io r anchor rt = Inr l")
    case True
    then obtain anchor l where *: "edit_node_message_at w io r rt = apply_edit w io r l rt"
      "edit_anchor r (rn_state rt) = Some anchor" "locate_turn w io r anchor rt = Inr l" by blast
    have "ex_status anchor = ''failed''" if "branched io l None"
      using that located_pending [OF *(3)] by (auto simp: branched_def split: option.splits)
    then show ?thesis
      using apply_edit_all_or_nothing [OF files, where w = w and r = r and l = l and rt = rt] *(2,3) conversation
      by (fastforce simp: *(1) split: outcome.splits)
  next
    case False
    then have "\<exists>e. edit_node_message_at w io r rt = Error e (rt, None)"
      using conversation by (auto simp: edit_node_message_at_def Let_def split: option.splits sum.splits)
    then show ?thesis by (auto simp: restored_or_reported_def)
  qed
qed

text \<open>A finished node, whose steer is edited.\<close>

definition sample_edit :: edit_request where
  "sample_edit = \<lparr>er_node = ''a'', er_execution = ''e1'', er_old_text = ''steer'', er_instruction = ''better'',
     er_images = None, er_version = None, er_offset = None\<rparr>"

definition sample_edit_io :: edit_io where
  "sample_edit_io = \<lparr>ei_session = sample_files, ei_sessions = (\<lambda>_. Inr [sample_file]), ei_reread = de_text,
     ei_metadata = (\<lambda>_. None), ei_id = ''m''\<rparr>"

definition sample_finished :: runtime where
  "sample_finished = fresh_runtime (run_of (sample_created
     @ [Started (sample_attempt ''e1'' ''a'') None False, Finished ''e1'' ''h1'' [] 0 None])) store_empty"

lemma sample_edit_runs:
  "\<not> source_direct_context (rn_state sample_finished) ''a'' \<and>
   (case edit_node_message_at sample_world sample_edit_io sample_edit sample_finished of
      Ok (rt, Some (d, t)) \<Rightarrow> map_option ns_status (bt_get (st_nodes (rn_state rt)) ''a'') = Some ''dirty''
        \<and> st_superseded_execution_ids (rn_state rt) = [''e1'']
        \<and> active_ids (tree_of (tl (map snd sample_lines @ [sample_marker]))) ''m'' = Inr [''a'', ''b'', ''m'']
    | _ \<Rightarrow> False)"
  by code_simp

text \<open>The same edit on a full disk: half a line is written, and taken back.\<close>

definition full_disk_io :: edit_io where
  "full_disk_io = sample_edit_io\<lparr>ei_session := sample_files\<lparr>si_write := (\<lambda>t s. (Some ''no space'', t @ [CHR 0x7B]))\<rparr>\<rparr>"

lemma full_disk_runs:
  "case edit_node_message_at sample_world full_disk_io sample_edit sample_finished of
     Error e (rt, Some (d, t)) \<Rightarrow> e = ''no space'' \<and> de_name d = de_name sample_file \<and> de_text d = Inr t | _ \<Rightarrow> False"
  by code_simp

lemma edit_all_or_nothing_witness:
  "(\<exists>rt l ev d t. edit_node_message_at sample_world sample_edit_io sample_edit sample_finished = Ok (rt, Some (d, t))
     \<and> edits rt = edits sample_finished @ [ev] \<and> ev_kind ev = edited_event sample_edit l
     \<and> branched sample_edit_io l (Some (d, t)))
   \<and> (\<exists>rt d t. edit_node_message_at sample_world full_disk_io sample_edit sample_finished = Error ''no space'' (rt, Some (d, t))
     \<and> edits rt = edits sample_finished \<and> restored_or_reported full_disk_io ''no space'' (Some (d, t))
     \<and> de_text d = Inr t)"
proof -
  have files: "writes_append (ei_session sample_edit_io)" "writes_append (ei_session full_disk_io)"
    by (simp_all add: sample_edit_io_def full_disk_io_def writes_append_def sample_files_def)
  from edit_all_or_nothing [OF files(1), of sample_finished sample_edit sample_world] sample_edit_runs
  have "\<exists>rt l ev d t. edit_node_message_at sample_world sample_edit_io sample_edit sample_finished = Ok (rt, Some (d, t))
     \<and> edits rt = edits sample_finished @ [ev] \<and> ev_kind ev = edited_event sample_edit l
     \<and> branched sample_edit_io l (Some (d, t))"
    by (auto simp: sample_edit_def split: outcome.splits prod.splits option.splits)
  moreover from edit_all_or_nothing [OF files(2), of sample_finished sample_edit sample_world] full_disk_runs
  have "\<exists>rt d t. edit_node_message_at sample_world full_disk_io sample_edit sample_finished = Error ''no space'' (rt, Some (d, t))
     \<and> edits rt = edits sample_finished \<and> restored_or_reported full_disk_io ''no space'' (Some (d, t))
     \<and> de_text d = Inr t"
    by (auto split: outcome.splits prod.splits option.splits)
  ultimately show ?thesis by blast
qed

end
