(* ===== verification/Planner_Workspace.thy ===== *)
theory Planner_Workspace
  imports Slots Runtime_Correct
begin

text \<open>
  Where the Planner works between node attempts (\<open>backend/src/runtime.rs\<close>, \<open>planner_workspace\<close> and what
  follows): an explicit choice while it is the newest, else the directory of the latest attempt, else the source
  project; and how the changes the Planner made there become part of the run.
\<close>

text \<open>
  \<open>pl_child\<close> is \<open>real_child_path\<close> under the run's directory, \<open>pl_shown\<close> the path that is displayed,
  \<open>pl_environment\<close> the environment of a bound directory, \<open>pl_generation\<close> a fresh identity; sealing and launch
  references belong to the environment store.
\<close>

record planner_disk =
  pl_child :: "string \<Rightarrow> string + string option"
  pl_shown :: "string \<Rightarrow> string"
  pl_parent :: "string \<Rightarrow> string option"
  pl_private_git :: "string \<Rightarrow> bool"
  pl_ready :: "string \<Rightarrow> string \<Rightarrow> string option"
  pl_environment :: "string \<Rightarrow> (string + json) option"
  pl_snapshot_detached :: "string \<Rightarrow> string \<Rightarrow> string \<Rightarrow> string \<Rightarrow> string list \<Rightarrow> string + string"
  pl_snapshot_node :: "string \<Rightarrow> string \<Rightarrow> string \<Rightarrow> string \<Rightarrow> string list \<Rightarrow> string + string"
  pl_state_bound :: "string \<Rightarrow> string + bool"
  pl_seal :: "string \<Rightarrow> composite_result \<Rightarrow> string \<Rightarrow> string + composite_result"
  pl_generation :: string
  pl_config_exclusions :: "environment_config \<Rightarrow> string list"
  pl_exclusions :: "string \<Rightarrow> string + string list"

section \<open>Excluded paths\<close>

definition composite_results :: "snapshot \<Rightarrow> composite_result list" where
  "composite_results st =
     concat (map (\<lambda>e. List.map_filter id [ex_input e, ex_result e]) (st_executions st))
     @ List.map_filter ns_result (bt_values (st_nodes st))
     @ (case st_published_result st of Some d \<Rightarrow> [rd_result d] | None \<Rightarrow> [])"

fun launch_exclusions :: "planner_disk \<Rightarrow> composite_result list \<Rightarrow> string + string list" where
  "launch_exclusions p [] = Inr []"
| "launch_exclusions p (r # rs) = (case pl_exclusions p (cr_launch_ref r) of
     Inl e \<Rightarrow> Inl e | Inr paths \<Rightarrow> map_result (\<lambda>more. paths @ more) (launch_exclusions p rs))"

definition exclusions :: "world \<Rightarrow> planner_disk \<Rightarrow> snapshot \<Rightarrow> string + string list" where
  "exclusions w p st =
     (if \<not> has_environment st then Inr []
      else case wd_environments w st of
        Some e \<Rightarrow> Inl e
      | None \<Rightarrow> map_result (\<lambda>paths. bs_of_list
            ((case Option.bind (st_config st) cf_environment of
                Some environment \<Rightarrow> pl_config_exclusions p environment | None \<Rightarrow> []) @ paths))
          (launch_exclusions p (composite_results st)))"

section \<open>Attempts since the last publication\<close>

definition is_publication :: "event \<Rightarrow> bool" where
  "is_publication ev = (case ev_kind ev of PublicationCompleted _ \<Rightarrow> True | _ \<Rightarrow> False)"

definition worked_on :: "event \<Rightarrow> string option" where
  "worked_on ev = (case ev_kind ev of
     Started e _ _ \<Rightarrow> Some (ex_id e) | Prepared eid _ \<Rightarrow> Some eid | Finished eid _ _ _ _ \<Rightarrow> Some eid
   | PlannerWorkspaceSnapshotted eid _ _ _ _ \<Rightarrow> Some eid | _ \<Rightarrow> None)"

definition unpublished :: "snapshot \<Rightarrow> string list" where
  "unpublished st = List.map_filter worked_on (takeWhile (\<lambda>ev. \<not> is_publication ev) (rev (st_events st)))"

text \<open>Nothing was published, or the attempt is younger than what was.\<close>

definition is_new :: "snapshot \<Rightarrow> string \<Rightarrow> bool" where
  "is_new st eid \<longleftrightarrow> st_published_head st = None \<or> eid \<in> set (unpublished st)"

section \<open>The explicit choice\<close>

definition moved_to :: "event \<Rightarrow> string option" where
  "moved_to ev = (case ev_kind ev of
     WorkspaceResolved eid _ _ _ \<Rightarrow> Some eid | Failed _ eid _ _ _ \<Rightarrow> eid | _ \<Rightarrow> worked_on ev)"

definition selection_sequence :: "string \<Rightarrow> snapshot \<Rightarrow> int option" where
  "selection_sequence current st = first_some (\<lambda>ev. case ev_kind ev of
     PlannerWorkspaceSelected planning \<Rightarrow>
       if ps_workspace_execution_id planning = Some current then Some (ev_sequence ev) else None
   | _ \<Rightarrow> None) (rev (st_events st))"

definition live_attempt :: "snapshot \<Rightarrow> execution \<Rightarrow> bool" where
  "live_attempt st e \<longleftrightarrow> ex_id e \<notin> set (st_superseded_execution_ids st) \<and> bt_contains (st_nodes st) (ex_node e)"

text \<open>Another attempt was worked on after the choice.\<close>

definition newer_workspace :: "string \<Rightarrow> snapshot \<Rightarrow> bool" where
  "newer_workspace current st = (case selection_sequence current st of
     Some n \<Rightarrow> \<exists>ev \<in> set (st_events st). n < ev_sequence ev
       \<and> (case moved_to ev of Some eid \<Rightarrow> eid \<noteq> current | None \<Rightarrow> False)
   | None \<Rightarrow> list_ex (live_attempt st) (tl (dropWhile (\<lambda>e. ex_id e \<noteq> current) (st_executions st))))"

definition is_source_path :: "disk \<Rightarrow> snapshot \<Rightarrow> string \<Rightarrow> bool" where
  "is_source_path d st path = (case st_config st of
     None \<Rightarrow> False
   | Some c \<Rightarrow> (case (dk_canonical d path, dk_canonical d (cf_repository c)) of
       (Inr a, Inr b) \<Rightarrow> a = b | _ \<Rightarrow> False))"

definition shown_at :: "planner_disk \<Rightarrow> execution \<Rightarrow> string \<Rightarrow> execution" where
  "shown_at p e actual = e\<lparr>ex_worktree := pl_shown p actual\<rparr>"

definition explicit_workspace :: "world \<Rightarrow> disk \<Rightarrow> planner_disk \<Rightarrow> snapshot \<Rightarrow> execution option" where
  "explicit_workspace w d p st = (case Option.bind (st_planning st) ps_workspace_execution_id of
     None \<Rightarrow> None
   | Some current \<Rightarrow> (case find (\<lambda>e. ex_id e = current) (st_executions st) of
       None \<Rightarrow> None
     | Some e \<Rightarrow>
         if newer_workspace current st \<or> \<not> is_new st current then None
         else if path_is_running w st (ex_worktree e) then Some e
         else if \<not> dk_is_dir d (ex_worktree e) then None
         else if is_source_path d st (ex_worktree e) then Some e
         else case pl_child p (ex_worktree e) of
           Inr (Some actual) \<Rightarrow> if pl_private_git p actual then Some (shown_at p e actual) else None
         | _ \<Rightarrow> None))"

section \<open>The latest attempt\<close>

text \<open>A downstream node has already built on the attempt and still has its directory.\<close>

definition has_started_child :: "disk \<Rightarrow> snapshot \<Rightarrow> string \<Rightarrow> bool" where
  "has_started_child d st name \<longleftrightarrow> (\<exists>child \<in> set (downstream (st_graph st) name). child \<noteq> name
     \<and> (case bt_get (st_nodes st) child of
          Some n \<Rightarrow> ns_status n \<in> set [''completed'', ''failed'', ''running''] | None \<Rightarrow> False)
     \<and> (\<exists>e \<in> set (st_executions st). ex_node e = child \<and> dk_is_dir d (ex_worktree e)
          \<and> ex_id e \<notin> set (st_superseded_execution_ids st)))"

text \<open>The newest first; \<open>seen\<close> are the directories passed, \<open>reserved\<close> whether one was held for a verdict.\<close>

fun latest_workspace :: "world \<Rightarrow> disk \<Rightarrow> planner_disk \<Rightarrow> snapshot \<Rightarrow> string list \<Rightarrow> bool \<Rightarrow> execution list
    \<Rightarrow> string + execution option" where
  "latest_workspace w d p st seen reserved [] =
     (if reserved then Inl ''Current workspaces are reserved for feedback; continue the repair before planning'' else Inr None)"
| "latest_workspace w d p st seen reserved (e # es) =
     (let path = ex_worktree e in
      if \<not> live_attempt st e \<or> \<not> is_new st (ex_id e) \<or> path \<in> set seen then latest_workspace w d p st seen reserved es
      else if path_is_running w st path then Inr (Some e)
      else if st_published_head st \<noteq> None \<and> is_source_path d st path then Inr None
      else if has_started_child d st (ex_node e) then latest_workspace w d p st (path # seen) reserved es
      else if \<not> dk_is_dir d path then Inr None
      else case pl_child p path of
        Inr (Some actual) \<Rightarrow>
          if workspace_reserved w st path None then latest_workspace w d p st (path # seen) True es
          else if \<not> pl_private_git p actual then Inr None
          else Inr (Some (shown_at p e actual))
      | _ \<Rightarrow> Inr None)"

definition planner_workspace_candidate :: "world \<Rightarrow> disk \<Rightarrow> planner_disk \<Rightarrow> snapshot \<Rightarrow> string + execution option" where
  "planner_workspace_candidate w d p st = (case explicit_workspace w d p st of
     Some e \<Rightarrow> Inr (Some e) | None \<Rightarrow> latest_workspace w d p st [] False (rev (st_executions st)))"

section \<open>The gate\<close>

definition planner_workspace_owner :: "world \<Rightarrow> snapshot \<Rightarrow> execution \<Rightarrow> execution option" where
  "planner_workspace_owner w st target =
     find (\<lambda>e. wd_same_path w (ex_worktree target) (ex_worktree e)) (rev (st_executions st))"

definition was_prepared :: "snapshot \<Rightarrow> string \<Rightarrow> bool" where
  "was_prepared st eid \<longleftrightarrow> (\<exists>ev \<in> set (st_events st). case ev_kind ev of Prepared i _ \<Rightarrow> i = eid | _ \<Rightarrow> False)"

definition validate_planner_workspace :: "world \<Rightarrow> planner_disk \<Rightarrow> snapshot \<Rightarrow> execution \<Rightarrow> string \<Rightarrow> string option" where
  "validate_planner_workspace w p st e repository =
     (if wd_same_path w (ex_worktree e) repository then None
      else if ex_status e \<noteq> ''completed'' \<and> \<not> was_prepared st (ex_id e)
      then Some ''workspace preparation has not completed for this execution''
      else pl_ready p (ex_worktree e) repository)"

definition source_of :: "world \<Rightarrow> snapshot \<Rightarrow> string + string" where
  "source_of w st = (case st_config st of None \<Rightarrow> Inl ''Missing config'' | Some c \<Rightarrow> resolve_repository w c)"

text \<open>A directory that fails the gate is given up for this turn; the Planner works in the source then.\<close>

definition planner_workspace :: "world \<Rightarrow> disk \<Rightarrow> planner_disk \<Rightarrow> snapshot \<Rightarrow> string + execution option" where
  "planner_workspace w d p st = (case planner_workspace_candidate w d p st of
     Inl e \<Rightarrow> Inl e
   | Inr None \<Rightarrow> Inr None
   | Inr (Some e) \<Rightarrow> map_result (\<lambda>repository.
       if \<not> wd_same_path w (ex_worktree e) repository
            \<and> map_option ex_id (planner_workspace_owner w st e) \<noteq> Some (ex_id e) then None
       else if validate_planner_workspace w p st e repository \<noteq> None then None
       else Some e) (source_of w st))"

definition planner_attachment_workspace :: "world \<Rightarrow> disk \<Rightarrow> planner_disk \<Rightarrow> snapshot \<Rightarrow> string + string option" where
  "planner_attachment_workspace w d p st =
     (case (case st_planning st of
          Some planning \<Rightarrow> if ps_status planning = Some ''running'' then ps_worktree planning else None | None \<Rightarrow> None) of
        Some worktree \<Rightarrow> Inr (Some worktree)
      | None \<Rightarrow> map_result (map_option ex_worktree) (planner_workspace w d p st))"

definition merger_attachment_workspace :: "snapshot \<Rightarrow> string \<Rightarrow> string + string" where
  "merger_attachment_workspace st name = (case find (\<lambda>e. ex_node e = name) (rev (st_mergers st)) of
     None \<Rightarrow> Inl ''Merger workspace not found in this Run''
   | Some merger \<Rightarrow>
       if ex_status merger \<noteq> ''running'' \<and> name = ''merger''
          \<and> (case st_publication st of Some pub \<Rightarrow> pb_status pub = ''completed'' | None \<Rightarrow> False)
       then (case st_config st of Some c \<Rightarrow> Inr (cf_repository c) | None \<Rightarrow> Inl ''Missing Run config'')
       else Inr (ex_worktree merger))"

section \<open>Moving to the directory of a node\<close>

record planner_workspace_resolution =
  pr_execution :: execution
  pr_redirected_from :: "string option"

definition planner_workspace_for_node_candidate ::
  "world \<Rightarrow> disk \<Rightarrow> planner_disk \<Rightarrow> snapshot \<Rightarrow> string \<Rightarrow> string + planner_workspace_resolution option" where
  "planner_workspace_for_node_candidate w d p st name =
     (case find (\<lambda>e. ex_node e = name \<and> ex_id e \<notin> set (st_superseded_execution_ids st) \<and> is_new st (ex_id e))
         (rev (st_executions st)) of
        None \<Rightarrow> Inr None
      | Some requested \<Rightarrow>
          let owner = (case planner_workspace_owner w st requested of Some e \<Rightarrow> e | None \<Rightarrow> requested);
              redirected = (if ex_node owner \<noteq> name then Some name else None)
          in if ex_id owner \<in> set (st_superseded_execution_ids st) \<or> \<not> dk_is_dir d (ex_worktree owner) then Inr None
             else if is_source_path d st (ex_worktree owner)
             then Inr (Some \<lparr>pr_execution = owner, pr_redirected_from = redirected\<rparr>)
             else case pl_child p (ex_worktree owner) of
               Inl e \<Rightarrow> Inl e
             | Inr None \<Rightarrow> Inr None
             | Inr (Some actual) \<Rightarrow>
                 if \<not> pl_private_git p actual then Inr None
                 else Inr (Some \<lparr>pr_execution = shown_at p owner actual, pr_redirected_from = redirected\<rparr>))"

definition planner_workspace_for_node ::
  "world \<Rightarrow> disk \<Rightarrow> planner_disk \<Rightarrow> snapshot \<Rightarrow> string \<Rightarrow> string + planner_workspace_resolution option" where
  "planner_workspace_for_node w d p st name = (case planner_workspace_for_node_candidate w d p st name of
     Inl e \<Rightarrow> Inl e
   | Inr None \<Rightarrow> Inr None
   | Inr (Some r) \<Rightarrow> map_result (\<lambda>repository.
       if validate_planner_workspace w p st (pr_execution r) repository \<noteq> None then None else Some r) (source_of w st))"

text \<open>A private directory of this run, ready for the Planner.\<close>

definition is_target :: "world \<Rightarrow> planner_disk \<Rightarrow> snapshot \<Rightarrow> string \<Rightarrow> string \<Rightarrow> execution \<Rightarrow> bool" where
  "is_target w p st repository current_workspace e \<longleftrightarrow>
     \<not> wd_same_path w (ex_worktree e) repository
     \<and> (case (pl_parent p (ex_worktree e), pl_parent p current_workspace) of
          (Some a, Some b) \<Rightarrow> wd_same_path w a b | _ \<Rightarrow> False)
     \<and> validate_planner_workspace w p st e repository = None"

definition target_entry :: "string \<Rightarrow> planner_workspace_resolution \<Rightarrow> json \<Rightarrow> json" where
  "target_entry name r environment = JObject
     [(''actualNode'', JString (ex_node (pr_execution r))), (''executionId'', JString (ex_id (pr_execution r))),
      (''redirected'', JBool (pr_redirected_from r \<noteq> None)), (''requestedNode'', JString name),
      (''runtimeEnvironment'', environment), (''workspace'', JString (ex_worktree (pr_execution r)))]"

fun planner_targets :: "world \<Rightarrow> disk \<Rightarrow> planner_disk \<Rightarrow> snapshot \<Rightarrow> string option \<Rightarrow> string \<Rightarrow> string
    \<Rightarrow> node list \<Rightarrow> (string, json) btree_map \<Rightarrow> string + (string, json) btree_map" where
  "planner_targets w d p st current_node current_workspace repository [] targets = Inr targets"
| "planner_targets w d p st current_node current_workspace repository (n # ns) targets =
     (let skip = planner_targets w d p st current_node current_workspace repository ns targets in
      if current_node = Some (nd_name n) then skip
      else case planner_workspace_for_node_candidate w d p st (nd_name n) of
        Inr (Some r) \<Rightarrow>
          if \<not> is_target w p st repository current_workspace (pr_execution r) then skip
          else (case (case pl_environment p (ex_worktree (pr_execution r)) of None \<Rightarrow> Inr JNull | Some x \<Rightarrow> x) of
              Inl e \<Rightarrow> Inl e
            | Inr environment \<Rightarrow> planner_targets w d p st current_node current_workspace repository ns
                (bt_insert (nd_name n) (target_entry (nd_name n) r environment) targets))
      | _ \<Rightarrow> skip)"

definition planner_workspace_targets ::
  "world \<Rightarrow> disk \<Rightarrow> planner_disk \<Rightarrow> snapshot \<Rightarrow> string option \<Rightarrow> string \<Rightarrow> string + json" where
  "planner_workspace_targets w d p st current_node current_workspace = (case source_of w st of
     Inl e \<Rightarrow> Inl e
   | Inr repository \<Rightarrow> map_result JObject
       (planner_targets w d p st current_node current_workspace repository (gr_nodes (st_graph st)) []))"

section \<open>Capturing what the Planner changed\<close>

definition is_detached :: "snapshot \<Rightarrow> execution \<Rightarrow> bool" where
  "is_detached st e \<longleftrightarrow> \<not> live_attempt st e"

definition planner_snapshot :: "planner_disk \<Rightarrow> snapshot \<Rightarrow> execution \<Rightarrow> string \<Rightarrow> string list \<Rightarrow> string + string" where
  "planner_snapshot p st e repository excluded =
     (if is_detached st e then pl_snapshot_detached p (ex_worktree e) repository (st_run_id st) (ex_id e) excluded
      else pl_snapshot_node p (ex_worktree e) repository (ex_node e) (st_run_id st) excluded)"

text \<open>The environment is sealed again when its state belongs to the directory.\<close>

definition sealed_environment :: "world \<Rightarrow> planner_disk \<Rightarrow> snapshot \<Rightarrow> execution \<Rightarrow> string
    \<Rightarrow> string + (composite_result \<times> bool) option" where
  "sealed_environment w p st e head =
     (if \<not> has_environment st then Inr None
      else case wd_environments w st of
     Some err \<Rightarrow> Inl err
   | None \<Rightarrow> (case (case ex_result e of Some r \<Rightarrow> Some r | None \<Rightarrow> ex_input e) of
       None \<Rightarrow> Inr None
     | Some previous \<Rightarrow> (case pl_state_bound p (cr_launch_ref previous) of
         Inl err \<Rightarrow> Inl err
       | Inr False \<Rightarrow> Inr None
       | Inr True \<Rightarrow> map_result (\<lambda>sealed. Some (sealed,
             cr_environment_ref sealed \<noteq> cr_environment_ref previous \<or> cr_launch_ref sealed \<noteq> cr_launch_ref previous))
           (pl_seal p (ex_worktree e) (previous\<lparr>cr_generation := pl_generation p\<rparr>) head))))"

definition captured_invalidation :: "snapshot \<Rightarrow> execution \<Rightarrow> string list" where
  "captured_invalidation st e =
     (if is_detached st e then []
      else filter (\<lambda>name. name \<noteq> ex_node e \<and> name \<notin> set (ex_workspace_lineage e)) (downstream (st_graph st) (ex_node e)))"

definition expected_head :: "execution \<Rightarrow> string" where
  "expected_head e = (case ex_after e of Some head \<Rightarrow> head | None \<Rightarrow> ex_before e)"

definition capture_owned :: "world \<Rightarrow> planner_disk \<Rightarrow> execution \<Rightarrow> string \<Rightarrow> runtime \<Rightarrow> runtime outcome" where
  "capture_owned w p e repository rt =
     (let st = rn_state rt in
      try_ok (map_option (\<lambda>err. ''Cannot capture an unready Planner workspace: '' @ err)
        (validate_planner_workspace w p st e repository)) rt
      (try_ok (wd_prepared_ancestor w (ex_worktree e) (expected_head e)) rt
      (try_get (exclusions w p st) rt (\<lambda>excluded.
       try_get (planner_snapshot p st e repository excluded) rt (\<lambda>head.
       try_get (sealed_environment w p st e head) rt (\<lambda>sealed.
         if head \<noteq> expected_head e \<or> (case sealed of Some (_, changed) \<Rightarrow> changed | None \<Rightarrow> False)
         then emit w (PlannerWorkspaceSnapshotted (ex_id e) head (map_option fst sealed)
                (captured_invalidation st e) (is_detached st e)) rt
         else Ok rt))))))"

definition capture_planner_workspace :: "world \<Rightarrow> planner_disk \<Rightarrow> string \<Rightarrow> runtime \<Rightarrow> runtime outcome" where
  "capture_planner_workspace w p eid rt =
     (let st = rn_state rt in
      try_get (ok_or (find (\<lambda>e. ex_id e = eid) (st_executions st)) ''Planner workspace execution is missing'') rt (\<lambda>selected.
      try_get (ok_or (planner_workspace_owner w st selected) ''Planner workspace no longer has a recorded physical owner'') rt (\<lambda>e.
        if ex_id e \<noteq> ex_id selected
        then Error ''Planner workspace ownership changed after selection; refusing to capture another execution'' rt
        else if path_is_running w st (ex_worktree e) then Error ''Planner workspace still has an active writer'' rt
        else try_get (pl_child p (ex_worktree e)) rt (\<lambda>child.
          if child = None then Error ''Planner workspace is no longer owned by this Run'' rt
          else try_get (source_of w st) rt (\<lambda>repository. capture_owned w p e repository rt)))))"

definition capture_planner_source :: "world \<Rightarrow> planner_disk \<Rightarrow> runtime \<Rightarrow> runtime outcome" where
  "capture_planner_source w p rt =
     (let st = rn_state rt in
      try_ok (require_current_file_contract st) rt
      (if is_serial st then Ok rt
       else try_get (source_of w st) rt (\<lambda>repository.
         let capture = try_get (exclusions w p st) rt (\<lambda>excluded. try_get (wd_snapshot w repository excluded) rt (\<lambda>head.
               if head \<noteq> latest_source_head st then emit w (SourceSnapshotted head) rt else Ok rt))
         in if wd_standard_git w repository then capture
            else try_get (wd_shadow w repository) rt (\<lambda>shadow. if shadow = None then Ok rt else capture))))"

end
