(* ===== verification/Planner_Correct.thy ===== *)
theory Planner_Correct
  imports Planner_Workspace Plain_Events Sessions
begin

text \<open>
  The Planner is only ever sent to a directory of this run that is ready and still belongs to the attempt it was
  chosen for, and what it changed there is recorded as the result of exactly that attempt.
\<close>

section \<open>The choice\<close>

text \<open>A directory of this run with a Git repository of its own.\<close>

definition private_directory :: "disk \<Rightarrow> planner_disk \<Rightarrow> execution \<Rightarrow> execution \<Rightarrow> bool" where
  "private_directory d p e chosen \<longleftrightarrow> dk_is_dir d (ex_worktree e)
     \<and> (\<exists>actual. pl_child p (ex_worktree e) = Inr (Some actual) \<and> pl_private_git p actual \<and> chosen = shown_at p e actual)"

definition chosen_explicitly :: "snapshot \<Rightarrow> execution \<Rightarrow> bool" where
  "chosen_explicitly st e \<longleftrightarrow> Option.bind (st_planning st) ps_workspace_execution_id = Some (ex_id e)
     \<and> \<not> newer_workspace (ex_id e) st"

text \<open>A later attempt is passed over only if the work in its directory was built on, or the directory is held for
  a verdict.\<close>

definition passed_over :: "world \<Rightarrow> disk \<Rightarrow> snapshot \<Rightarrow> string list \<Rightarrow> execution list \<Rightarrow> execution \<Rightarrow> bool" where
  "passed_over w d st seen later e \<longleftrightarrow> \<not> live_attempt st e \<or> \<not> is_new st (ex_id e) \<or> ex_worktree e \<in> set seen
     \<or> (\<exists>x \<in> set later. ex_worktree x = ex_worktree e
          \<and> (has_started_child d st (ex_node x) \<or> workspace_reserved w st (ex_worktree x) None))"

lemma explicit_workspaceD:
  assumes "explicit_workspace w d p st = Some e"
  shows "\<exists>e0 \<in> set (st_executions st). ex_id e = ex_id e0 \<and> chosen_explicitly st e \<and> is_new st (ex_id e)
     \<and> ((e = e0 \<and> (path_is_running w st (ex_worktree e0) \<or> is_source_path d st (ex_worktree e0))) \<or> private_directory d p e0 e)"
proof -
  obtain current e0 where c: "Option.bind (st_planning st) ps_workspace_execution_id = Some current"
    "find (\<lambda>e. ex_id e = current) (st_executions st) = Some e0" "\<not> newer_workspace current st" "is_new st current"
    and e: "(e = e0 \<and> (path_is_running w st (ex_worktree e0) \<or> is_source_path d st (ex_worktree e0))) \<or> private_directory d p e0 e"
    using assms unfolding explicit_workspace_def private_directory_def
    by (auto split: option.splits sum.splits if_splits)
  from c(2) have e0: "e0 \<in> set (st_executions st)" "ex_id e0 = current" by (auto simp: find_Some_iff)
  moreover have "ex_id e = current" using e e0 by (auto simp: private_directory_def shown_at_def)
  ultimately show ?thesis using c e by (auto simp: chosen_explicitly_def)
qed

lemma latest_workspaceD:
  assumes "latest_workspace w d p st seen reserved es = Inr (Some e)"
  shows "\<exists>later e0 earlier. es = later @ e0 # earlier \<and> ex_id e = ex_id e0 \<and> live_attempt st e0 \<and> is_new st (ex_id e)
     \<and> ((e = e0 \<and> path_is_running w st (ex_worktree e0))
        \<or> (private_directory d p e0 e \<and> \<not> has_started_child d st (ex_node e0) \<and> \<not> workspace_reserved w st (ex_worktree e0) None))
     \<and> (\<forall>x \<in> set later. passed_over w d st seen later x)"
  using assms
proof (induction es arbitrary: seen reserved)
  case (Cons x es)
  let ?path = "ex_worktree x"
  consider (skip) "\<not> live_attempt st x \<or> \<not> is_new st (ex_id x) \<or> ?path \<in> set seen"
      "latest_workspace w d p st seen reserved es = Inr (Some e)"
    | (pass) r where "has_started_child d st (ex_node x) \<or> workspace_reserved w st ?path None"
      "latest_workspace w d p st (?path # seen) r es = Inr (Some e)"
    | (here) "live_attempt st x" "is_new st (ex_id x)"
      "(e = x \<and> path_is_running w st ?path)
        \<or> (private_directory d p x e \<and> \<not> has_started_child d st (ex_node x) \<and> \<not> workspace_reserved w st ?path None)"
    using Cons.prems unfolding latest_workspace.simps Let_def private_directory_def
    by (auto split: if_splits sum.splits option.splits)
  then show ?case
  proof cases
    case skip
    from Cons.IH [OF skip(2)] obtain later e0 earlier where "es = later @ e0 # earlier" "ex_id e = ex_id e0"
      "live_attempt st e0" "is_new st (ex_id e)"
      "(e = e0 \<and> path_is_running w st (ex_worktree e0))
        \<or> (private_directory d p e0 e \<and> \<not> has_started_child d st (ex_node e0) \<and> \<not> workspace_reserved w st (ex_worktree e0) None)"
      "\<forall>y \<in> set later. passed_over w d st seen later y" by blast
    then show ?thesis using skip(1)
      by (intro exI [of _ "x # later"] exI [of _ e0] exI [of _ earlier]) (auto simp: passed_over_def)
  next
    case pass
    from Cons.IH [OF pass(2)] obtain later e0 earlier where "es = later @ e0 # earlier" "ex_id e = ex_id e0"
      "live_attempt st e0" "is_new st (ex_id e)"
      "(e = e0 \<and> path_is_running w st (ex_worktree e0))
        \<or> (private_directory d p e0 e \<and> \<not> has_started_child d st (ex_node e0) \<and> \<not> workspace_reserved w st (ex_worktree e0) None)"
      "\<forall>y \<in> set later. passed_over w d st (?path # seen) later y" by blast
    then show ?thesis using pass(1)
      by (intro exI [of _ "x # later"] exI [of _ e0] exI [of _ earlier]) (auto simp: passed_over_def)
  next
    case here
    then have "ex_id e = ex_id x" by (auto simp: private_directory_def shown_at_def)
    with here show ?thesis by (intro exI [of _ "[]"] exI [of _ x] exI [of _ es]) simp
  qed
qed (simp split: if_splits)

text \<open>C27: Whatever directory the Planner is sent to is ready and, unless it is the source project, was last taken by
  the very attempt it was chosen for; it is running, or the source, or a private directory of this run; its work
  is not already published; and it is the explicit choice, if nothing happened since, or else the latest attempt
  whose work was not built on and is not held for a verdict.\<close>

theorem planner_works_on_latest:
  assumes "planner_workspace w d p st = Inr (Some e)"
  shows "\<exists>repository. source_of w st = Inr repository \<and> validate_planner_workspace w p st e repository = None
     \<and> (wd_same_path w (ex_worktree e) repository \<or> map_option ex_id (planner_workspace_owner w st e) = Some (ex_id e))
     \<and> (\<exists>earlier e0 later. st_executions st = earlier @ e0 # later \<and> ex_id e = ex_id e0 \<and> is_new st (ex_id e)
          \<and> (e = e0 \<and> (path_is_running w st (ex_worktree e) \<or> is_source_path d st (ex_worktree e)) \<or> private_directory d p e0 e)
          \<and> (chosen_explicitly st e \<or> live_attempt st e0 \<and> list_all (passed_over w d st [] later) later))"
proof -
  obtain repository where candidate: "planner_workspace_candidate w d p st = Inr (Some e)" and "source_of w st = Inr repository"
    and gate: "wd_same_path w (ex_worktree e) repository \<or> map_option ex_id (planner_workspace_owner w st e) = Some (ex_id e)"
      "validate_planner_workspace w p st e repository = None"
    using assms by (auto simp: planner_workspace_def map_result_def split: sum.splits option.splits if_splits)
  moreover have "\<exists>earlier e0 later. st_executions st = earlier @ e0 # later \<and> ex_id e = ex_id e0 \<and> is_new st (ex_id e)
      \<and> (e = e0 \<and> (path_is_running w st (ex_worktree e) \<or> is_source_path d st (ex_worktree e)) \<or> private_directory d p e0 e)
      \<and> (chosen_explicitly st e \<or> live_attempt st e0 \<and> list_all (passed_over w d st [] later) later)"
  proof (cases "explicit_workspace w d p st")
    case (Some x)
    then have "x = e" using candidate by (simp add: planner_workspace_candidate_def)
    with explicit_workspaceD [OF Some] show ?thesis by (metis split_list)
  next
    case None
    then have "latest_workspace w d p st [] False (rev (st_executions st)) = Inr (Some e)"
      using candidate by (simp add: planner_workspace_candidate_def)
    from latest_workspaceD [OF this] obtain later e0 earlier where split: "rev (st_executions st) = later @ e0 # earlier"
      and e0: "ex_id e = ex_id e0" "live_attempt st e0" "is_new st (ex_id e)"
        "(e = e0 \<and> path_is_running w st (ex_worktree e0)) \<or> private_directory d p e0 e"
      and later: "\<forall>x \<in> set later. passed_over w d st [] later x" by blast
    from arg_cong [OF split, of rev] have "st_executions st = rev earlier @ e0 # rev later" by simp
    moreover have "list_all (passed_over w d st [] (rev later)) (rev later)"
      using later by (auto simp: list_all_iff passed_over_def)
    ultimately show ?thesis using e0 by (intro exI [of _ "rev earlier"] exI [of _ e0] exI [of _ "rev later"]) auto
  qed
  ultimately show ?thesis by blast
qed

section \<open>Recording what the Planner changed\<close>

text \<open>The loop over the nodes that have to run again.\<close>

lemma rescheduled_loop:
  "st_executions (fold (\<lambda>x s. update_node x (f x s) s) xs st) = st_executions st"
  "name \<notin> set xs \<Longrightarrow> bt_get (st_nodes (fold (\<lambda>x s. update_node x (f x s) s) xs st)) name = bt_get (st_nodes st) name"
  by (induction xs arbitrary: st) (auto simp: update_node_def bt.get_update)

lemma rescheduled_loop_all:
  assumes "\<And>x s n. P (f x s n)" and "name \<in> set xs \<or> (\<forall>n. bt_get (st_nodes st) name = Some n \<longrightarrow> P n)"
  shows "\<forall>n. bt_get (st_nodes (fold (\<lambda>x s. update_node x (f x s) s) xs st)) name = Some n \<longrightarrow> P n"
  using assms(2)
proof (induction xs arbitrary: st)
  case (Cons x xs)
  have "name \<in> set xs \<or> (\<forall>n. bt_get (st_nodes (update_node x (f x st) st)) name = Some n \<longrightarrow> P n)"
    using Cons.prems assms(1) by (auto simp: update_node_def bt.get_update)
  from Cons.IH [OF this] show ?case by simp
qed simp

lemma find_in: "find p xs = Some x \<Longrightarrow> x \<in> set xs \<and> p x"
  by (metis find_Some_iff nth_mem)

lemma find_update_first:
  assumes "find p xs = Some x" and "p (f x)"
  shows "find p (update_first p f xs) = Some (f x)"
  using assms by (induction xs) auto

text \<open>What a recorded capture does to the run.\<close>

definition rescheduled :: "node_state \<Rightarrow> bool" where
  "rescheduled n \<longleftrightarrow> ns_status n \<in> set [''waiting'', ''dirty''] \<and> ns_head n = None"

definition recorded :: "snapshot \<Rightarrow> execution \<Rightarrow> string \<Rightarrow> string list \<Rightarrow> bool \<Rightarrow> snapshot \<Rightarrow> bool" where
  "recorded st e head invalidated detached st' \<longleftrightarrow>
     (case find (\<lambda>x. ex_id x = ex_id e) (st_executions st') of Some x \<Rightarrow> ex_after x = Some head | None \<Rightarrow> False)
     \<and> (\<forall>name. (detached \<or> name \<notin> set invalidated \<union> set (ex_workspace_lineage e) \<union> {ex_node e}) \<longrightarrow>
          bt_get (st_nodes st') name = bt_get (st_nodes st) name)
     \<and> (\<not> detached \<longrightarrow> (\<forall>name n. name \<in> set invalidated \<longrightarrow> bt_get (st_nodes st') name = Some n \<longrightarrow> rescheduled n))"

lemma snapshotted_recorded:
  assumes e: "find (\<lambda>x. ex_id x = ex_id e) (st_executions st) = Some e"
  shows "recorded st e head invalidated detached (handle_workspace_snapshotted (ex_id e) head result invalidated detached st)"
proof -
  define f :: "execution \<Rightarrow> execution" where "f = (\<lambda>x. x\<lparr>ex_after := Some head, ex_result := (case result of Some r \<Rightarrow> Some r
    | None \<Rightarrow> map_option (set_code_ref head) (ex_result x))\<rparr>)"
  define st1 where "st1 = st\<lparr>st_executions := update_first (\<lambda>x. ex_id x = ex_id e) f (st_executions st)\<rparr>"
  have found: "find (\<lambda>x. ex_id x = ex_id e) (st_executions st1) = Some (f e)"
    unfolding st1_def using find_update_first [OF e, of f] by (simp add: f_def)
  show ?thesis
  proof (cases detached)
    case True
    then have "handle_workspace_snapshotted (ex_id e) head result invalidated detached st = st1"
      using e by (simp add: handle_workspace_snapshotted_def st1_def f_def)
    then show ?thesis using True found by (simp add: recorded_def f_def) (simp add: st1_def)
  next
    case False
    define st2 where "st2 = fold (\<lambda>name. update_node name (snapshotted_node (ex_after e) head result))
      (ex_workspace_lineage e @ [ex_node e]) st1"
    define st3 where "st3 = fold (\<lambda>name s. update_node name (snapshot_invalidated (never_executed s name)) s) invalidated st2"
    have handled: "handle_workspace_snapshotted (ex_id e) head result invalidated detached st = st3\<lparr>st_publication := None\<rparr>"
      using e False unfolding handle_workspace_snapshotted_def st3_def st2_def st1_def f_def by (simp del: fold_append)
    have "st_executions st3 = st_executions st1"
      unfolding st3_def st2_def by (simp only: rescheduled_loop(1))
    moreover have "bt_get (st_nodes st3) name = bt_get (st_nodes st) name"
      if "name \<notin> set invalidated \<union> set (ex_workspace_lineage e) \<union> {ex_node e}" for name
      using that unfolding st3_def st2_def by (subst rescheduled_loop(2), simp)+ (simp add: st1_def)
    moreover have "\<forall>n. bt_get (st_nodes st3) name = Some n \<longrightarrow> rescheduled n" if "name \<in> set invalidated" for name
      unfolding st3_def by (rule rescheduled_loop_all) (simp_all add: that rescheduled_def snapshot_invalidated_def Let_def)
    ultimately show ?thesis unfolding handled recorded_def using False found by (auto simp: f_def)
  qed
qed

text \<open>C28: Capturing the Planner's directory either finds the head the attempt already has and leaves the run as it
  was, or records the new head as the result of the attempt it was asked for.  That attempt is the last that took
  the directory, nothing writes there, and its preparation is proved; a detached capture touches no node, any
  other reschedules exactly the downstream nodes that do not share the directory.\<close>

theorem planner_capture_recorded:
  assumes captured: "capture_planner_workspace w p eid rt = Ok rt'"
    and ids: "distinct (map ex_id (st_executions (rn_state rt)))"
  shows "\<exists>e repository excluded head.
     planner_workspace_owner w (rn_state rt) e = Some e \<and> ex_id e = eid \<and> e \<in> set (st_executions (rn_state rt))
     \<and> \<not> path_is_running w (rn_state rt) (ex_worktree e)
     \<and> validate_planner_workspace w p (rn_state rt) e repository = None
     \<and> planner_snapshot p (rn_state rt) e repository excluded = Inr head
     \<and> (rt' = rt \<and> head = expected_head e
        \<or> recorded (rn_state rt) e head (captured_invalidation (rn_state rt) e) (is_detached (rn_state rt) e) (rn_state rt'))"
proof -
  let ?st = "rn_state rt"
  obtain selected e repository where selected: "find (\<lambda>e. ex_id e = eid) (st_executions ?st) = Some selected"
    and owner: "planner_workspace_owner w ?st selected = Some e" "ex_id e = ex_id selected"
    and free: "\<not> path_is_running w ?st (ex_worktree e)" and capture: "capture_owned w p e repository rt = Ok rt'"
    using captured unfolding capture_planner_workspace_def Let_def try_get_def ok_or_def
    by (auto split: sum.splits option.splits if_splits)
  have in_run: "selected \<in> set (st_executions ?st)" "ex_id selected = eid" "e \<in> set (st_executions ?st)"
    using selected owner(1) by (auto simp: planner_workspace_owner_def dest: find_in)
  then have same: "e = selected" using owner(2) ids by (metis distinct_map inj_onD)
  obtain excluded head sealed where valid: "validate_planner_workspace w p ?st e repository = None"
    and head: "planner_snapshot p ?st e repository excluded = Inr head"
    and stored: "(if head \<noteq> expected_head e \<or> (case sealed of Some (_, changed) \<Rightarrow> changed | None \<Rightarrow> False)
         then emit w (PlannerWorkspaceSnapshotted (ex_id e) head (map_option fst sealed)
                (captured_invalidation ?st e) (is_detached ?st e)) rt
         else Ok rt) = Ok rt'"
    using capture unfolding capture_owned_def Let_def try_get_def try_ok_def
    by (auto split: sum.splits option.splits)
  have "rt' = rt \<and> head = expected_head e
      \<or> recorded ?st e head (captured_invalidation ?st e) (is_detached ?st e) (rn_state rt')"
  proof (cases "head \<noteq> expected_head e \<or> (case sealed of Some (_, changed) \<Rightarrow> changed | None \<Rightarrow> False)")
    case True
    let ?kind = "PlannerWorkspaceSnapshotted (ex_id e) head (map_option fst sealed) (captured_invalidation ?st e) (is_detached ?st e)"
    have "plain_kind ?kind" by (simp add: plain_kind_def)
    moreover have "emit w ?kind rt = Ok rt'" using stored by (simp only: if_P [OF True])
    ultimately obtain ev where ev: "ev_kind ev = ?kind" "apply_event (wd_env w) ev ?st = Some (rn_state rt')"
      using emit_plain_event by blast
    obtain u where u: "u = handle_workspace_snapshotted (ex_id e) head (map_option fst sealed)
        (captured_invalidation ?st e) (is_detached ?st e) (note_planning ev ?st)" "rn_state rt' = log_event (wd_env w) ev u"
      by (cases rule: apply_eventE [OF ev(2)]) (use ev(1) in \<open>auto simp: handle_def\<close>)
    have quiet: "note_planning ev ?st = ?st" using ev(1) by (simp add: note_planning_def planning_summary_of_def)
    have "find (\<lambda>x. ex_id x = ex_id e) (st_executions ?st) = Some e" using selected same in_run by simp
    from snapshotted_recorded [OF this] show ?thesis unfolding u quiet by (auto simp: recorded_def)
  qed (use stored in auto)
  with owner free valid head in_run same show ?thesis by blast
qed

text \<open>\<open>a\<close> is finished in its directory \<open>w\<close>, where the Planner then changes something.\<close>

definition sample_planner :: planner_disk where
  "sample_planner = \<lparr>pl_child = (\<lambda>path. Inr (Some path)), pl_shown = (\<lambda>path. path), pl_parent = (\<lambda>_. None),
     pl_private_git = (\<lambda>_. True), pl_ready = (\<lambda>_ _. None), pl_environment = (\<lambda>_. None),
     pl_snapshot_detached = (\<lambda>_ _ _ _ _. Inr ''h2''), pl_snapshot_node = (\<lambda>_ _ _ _ _. Inr ''h2''),
     pl_state_bound = (\<lambda>_. Inr False), pl_seal = (\<lambda>_ r _. Inr r), pl_generation = ''g'',
     pl_config_exclusions = (\<lambda>_. []), pl_exclusions = (\<lambda>_. Inr [])\<rparr>"

definition sample_idle :: runtime where
  "sample_idle = fresh_runtime (run_of (sample_created
     @ [Started (sample_attempt ''e1'' ''a'') None False, Finished ''e1'' ''h1'' [] 0 None])) store_empty"

definition sample_slots :: disk where
  "sample_slots = sample_disk\<lparr>dk_is_dir := \<lambda>path. path = ''w''\<rparr>"

lemma sample_choice:
  "case planner_workspace sample_world sample_slots sample_planner (rn_state sample_idle) of
     Inr (Some e) \<Rightarrow> ex_id e = ''e1'' | _ \<Rightarrow> False"
  by code_simp

lemma planner_works_on_latest_witness:
  "\<exists>e. planner_workspace sample_world sample_slots sample_planner (rn_state sample_idle) = Inr (Some e) \<and> ex_id e = ''e1''
     \<and> is_new (rn_state sample_idle) (ex_id e)"
proof -
  obtain e where e: "planner_workspace sample_world sample_slots sample_planner (rn_state sample_idle) = Inr (Some e)" "ex_id e = ''e1''"
    using sample_choice by (auto split: sum.splits option.splits)
  from planner_works_on_latest [OF e(1)] e show ?thesis by auto
qed

lemma sample_capture:
  "distinct (map ex_id (st_executions (rn_state sample_idle))) \<and>
   (case capture_planner_workspace sample_world sample_planner ''e1'' sample_idle of
      Ok rt \<Rightarrow> map_option ns_head (bt_get (st_nodes (rn_state rt)) ''a'') = Some (Some ''h2'')
        \<and> length (st_events (rn_state rt)) \<noteq> length (st_events (rn_state sample_idle))
    | _ \<Rightarrow> False)"
  by code_simp

lemma planner_capture_recorded_witness:
  "\<exists>rt e head. capture_planner_workspace sample_world sample_planner ''e1'' sample_idle = Ok rt
     \<and> recorded (rn_state sample_idle) e head (captured_invalidation (rn_state sample_idle) e)
          (is_detached (rn_state sample_idle) e) (rn_state rt)"
proof -
  obtain rt where rt: "capture_planner_workspace sample_world sample_planner ''e1'' sample_idle = Ok rt" "rt \<noteq> sample_idle"
    using sample_capture by (auto split: outcome.splits)
  from planner_capture_recorded [OF rt(1)] sample_capture rt show ?thesis by blast
qed

end
