(* ===== verification/Steps.thy ===== *)
theory Steps
  imports Main
begin

text \<open>
  Programs that may fail: a \<open>prog\<close> changes a state, a \<open>step\<close> acts on the world, its state being the list of what
  was done so far, on all of which the answers of the world may depend.  \<open>holds\<close> is partial correctness with a
  separate postcondition for failure.
\<close>

type_synonym ('s, 'a) prog = "'s \<Rightarrow> (string + 'a) \<times> 's"

type_synonym ('e, 'a) step = "('e list, 'a) prog"

section \<open>Steps\<close>

definition give :: "'a \<Rightarrow> ('s, 'a) prog" where
  "give x h = (Inr x, h)"

text \<open>\<open>m?; f\<close>\<close>

definition attempt :: "('s, 'a) prog \<Rightarrow> ('a \<Rightarrow> ('s, 'b) prog) \<Rightarrow> ('s, 'b) prog" where
  "attempt m f h = (case m h of (Inl e, h') \<Rightarrow> (Inl e, h') | (Inr x, h') \<Rightarrow> f x h')"

definition and_then :: "('s, 'a) prog \<Rightarrow> ('s, 'b) prog \<Rightarrow> ('s, 'b) prog" where
  "and_then m k = attempt m (\<lambda>_. k)"

definition ask :: "('s \<Rightarrow> string + 'a) \<Rightarrow> ('s, 'a) prog" where
  "ask q h = (q h, h)"

definition look :: "('s \<Rightarrow> 'a) \<Rightarrow> ('s, 'a) prog" where
  "look q h = (Inr (q h), h)"

definition demand :: "('s \<Rightarrow> bool) \<Rightarrow> string \<Rightarrow> ('s, unit) prog" where
  "demand c e h = (if c h then Inr () else Inl e, h)"

definition check_ok :: "('s \<Rightarrow> string option) \<Rightarrow> ('s, unit) prog" where
  "check_ok q h = (case q h of None \<Rightarrow> Inr () | Some e \<Rightarrow> Inl e, h)"

definition act :: "'e \<Rightarrow> ('e list \<Rightarrow> string + 'a) \<Rightarrow> ('e, 'a) step" where
  "act x q h = (q h, h @ [x])"

definition act_ok :: "'e \<Rightarrow> ('e list \<Rightarrow> string option) \<Rightarrow> ('e, unit) step" where
  "act_ok x q h = (case q h of None \<Rightarrow> Inr () | Some e \<Rightarrow> Inl e, h @ [x])"

definition only_if :: "bool \<Rightarrow> ('s, unit) prog \<Rightarrow> ('s, unit) prog" where
  "only_if c m = (if c then m else give ())"

fun each_with :: "('b \<Rightarrow> 'a \<Rightarrow> ('s, 'a) prog) \<Rightarrow> 'b list \<Rightarrow> 'a \<Rightarrow> ('s, 'a) prog" where
  "each_with f [] a = give a"
| "each_with f (x # xs) a = attempt (f x a) (each_with f xs)"

section \<open>Triples\<close>

named_theorems step_rules \<open>rules that take a step apart\<close>

definition holds :: "('s \<Rightarrow> bool) \<Rightarrow> ('s, 'a) prog \<Rightarrow> ('a \<Rightarrow> 's \<Rightarrow> bool) \<Rightarrow> ('s \<Rightarrow> bool) \<Rightarrow> bool" where
  "holds P m Q R \<longleftrightarrow> (\<forall>h. P h \<longrightarrow> (case m h of (Inr x, h') \<Rightarrow> Q x h' | (Inl e, h') \<Rightarrow> R h'))"

lemma holds_weaken:
  "holds P m Q R \<Longrightarrow> (\<And>h. P' h \<Longrightarrow> P h) \<Longrightarrow> (\<And>x h. Q x h \<Longrightarrow> Q' x h) \<Longrightarrow> (\<And>h. R h \<Longrightarrow> R' h) \<Longrightarrow> holds P' m Q' R'"
  unfolding holds_def by (fastforce split: sum.splits prod.splits)

lemma holds_give [step_rules]: "(\<And>h. P h \<Longrightarrow> Q x h) \<Longrightarrow> holds P (give x) Q R"
  by (simp add: holds_def give_def)

lemma holds_attempt [step_rules]:
  "holds P m M R \<Longrightarrow> (\<And>x. holds (M x) (f x) Q R) \<Longrightarrow> holds P (attempt m f) Q R"
  unfolding holds_def attempt_def by (fastforce split: sum.splits prod.splits)

lemma holds_and_then [step_rules]:
  "holds P m (\<lambda>_. M) R \<Longrightarrow> holds M k Q R \<Longrightarrow> holds P (and_then m k) Q R"
  unfolding and_then_def by (rule holds_attempt)

lemma holds_if [step_rules]:
  "(c \<Longrightarrow> holds P m Q R) \<Longrightarrow> (\<not> c \<Longrightarrow> holds P k Q R) \<Longrightarrow> holds P (if c then m else k) Q R"
  by simp

lemma holds_option [step_rules]:
  "(x = None \<Longrightarrow> holds P m Q R) \<Longrightarrow> (\<And>y. x = Some y \<Longrightarrow> holds P (f y) Q R) \<Longrightarrow>
   holds P (case x of None \<Rightarrow> m | Some y \<Rightarrow> f y) Q R"
  by (cases x) simp_all

lemma holds_prod [step_rules]: "(\<And>a b. x = (a, b) \<Longrightarrow> holds P (f a b) Q R) \<Longrightarrow> holds P (case x of (a, b) \<Rightarrow> f a b) Q R"
  by (cases x) simp

lemma holds_Let [step_rules]: "(\<And>y. y = x \<Longrightarrow> holds P (f y) Q R) \<Longrightarrow> holds P (Let x f) Q R"
  by simp

text \<open>What reads the world only adds knowledge.\<close>

lemma holds_ask: "holds P (ask q) (\<lambda>x h. P h \<and> q h = Inr x) P"
  and holds_look: "holds P (look q') (\<lambda>x h. P h \<and> x = q' h) P"
  and holds_demand: "holds P (demand c e) (\<lambda>_ h. P h \<and> c h) P"
  and holds_check: "holds P (check_ok r) (\<lambda>_ h. P h \<and> r h = None) P"
  by (auto simp: holds_def ask_def look_def demand_def check_ok_def split: sum.splits option.splits)

lemma holds_act: "holds P (act e q) (\<lambda>x h. \<exists>h0. h = h0 @ [e] \<and> P h0 \<and> q h0 = Inr x) (\<lambda>h. \<exists>h0. h = h0 @ [e] \<and> P h0)"
  and holds_act_ok: "holds P (act_ok e r) (\<lambda>_ h. \<exists>h0. h = h0 @ [e] \<and> P h0 \<and> r h0 = None) (\<lambda>h. \<exists>h0. h = h0 @ [e] \<and> P h0)"
  by (auto simp: holds_def act_def act_ok_def split: sum.splits option.splits)

lemma holds_only_if [step_rules]:
  "(c \<Longrightarrow> holds P m (\<lambda>_. M) R) \<Longrightarrow> (\<not> c \<Longrightarrow> (\<And>h. P h \<Longrightarrow> M h)) \<Longrightarrow> holds P (only_if c m) (\<lambda>_. M) R"
  by (auto simp: only_if_def give_def holds_def)

lemma holds_each [step_rules]:
  assumes "\<And>x a. x \<in> set xs \<Longrightarrow> holds (I a) (f x a) I R"
  shows "holds (I a) (each_with f xs a) I R"
  using assms
proof (induction xs arbitrary: a)
  case (Cons x xs)
  have "holds (I b) (each_with f xs b) I R" for b by (rule Cons.IH) (use Cons.prems in simp)
  then show ?case using Cons.prems by (auto intro: holds_attempt)
qed (simp add: holds_def give_def)

text \<open>A step that only reads leaves the trace alone.\<close>

definition reads :: "('s, 'a) prog \<Rightarrow> bool" where
  "reads m \<longleftrightarrow> (\<forall>h. snd (m h) = h)"

lemma reads_rules [step_rules]:
  "reads (give x)" "reads (ask q)" "reads (look q')" "reads (demand c e)" "reads (check_ok r)"
  by (simp_all add: reads_def give_def ask_def look_def demand_def check_ok_def)

lemma reads_attempt [step_rules]: "reads m \<Longrightarrow> (\<And>x. reads (f x)) \<Longrightarrow> reads (attempt m f)"
proof -
  assume m: "reads m" and f: "\<And>x. reads (f x)"
  show "reads (attempt m f)"
    unfolding reads_def
  proof
    fix h
    obtain r where "m h = (r, h)" using m by (metis reads_def surjective_pairing)
    then show "snd (attempt m f h) = h" using f by (cases r) (simp_all add: attempt_def reads_def)
  qed
qed

lemma reads_and_then [step_rules]: "reads m \<Longrightarrow> reads k \<Longrightarrow> reads (and_then m k)"
  by (simp add: and_then_def reads_attempt)

lemma reads_cases [step_rules]:
  "(c \<Longrightarrow> reads m) \<Longrightarrow> (\<not> c \<Longrightarrow> reads k) \<Longrightarrow> reads (if c then m else k)"
  "(x = None \<Longrightarrow> reads m) \<Longrightarrow> (\<And>y. x = Some y \<Longrightarrow> reads (g y)) \<Longrightarrow> reads (case x of None \<Rightarrow> m | Some y \<Rightarrow> g y)"
  "(c \<Longrightarrow> reads n) \<Longrightarrow> reads (only_if c n)"
  by (cases x; simp add: only_if_def reads_rules)+

lemma reads_each [step_rules]: "(\<And>x a. reads (f x a)) \<Longrightarrow> reads (each_with f xs a)"
  by (induction xs arbitrary: a) (simp_all add: reads_rules reads_attempt)

lemma holds_reads: "reads m \<Longrightarrow> holds P m (\<lambda>_. P) P"
proof -
  assume m: "reads m"
  have "\<exists>r. m h = (r, h)" for h using m by (metis reads_def surjective_pairing)
  then show ?thesis unfolding holds_def by (metis (no_types, lifting) case_prod_conv sum.case_eq_if)
qed

lemma reads_same: "reads p \<Longrightarrow> p s = (r, s') \<Longrightarrow> s' = s"
  by (metis reads_def snd_conv)

text \<open>A precondition that decides something.\<close>

lemma holds_pure: "(\<And>h. P h \<Longrightarrow> F) \<Longrightarrow> (F \<Longrightarrow> holds P m Q R) \<Longrightarrow> holds P m Q R"
  by (auto simp: holds_def)

section \<open>Successful steps\<close>

lemma attempt_ok: "attempt m f h = (Inr y, h') \<longleftrightarrow> (\<exists>x h1. m h = (Inr x, h1) \<and> f x h1 = (Inr y, h'))"
  by (auto simp: attempt_def split: prod.splits sum.splits)

lemma and_then_ok: "and_then m k h = (Inr y, h') \<longleftrightarrow> (\<exists>x h1. m h = (Inr x, h1) \<and> k h1 = (Inr y, h'))"
  by (simp add: and_then_def attempt_ok)

lemma basic_ok:
  "give x s = (Inr y, s') \<longleftrightarrow> y = x \<and> s' = s"
  "ask q s = (Inr y, s') \<longleftrightarrow> q s = Inr y \<and> s' = s"
  "look q' s = (Inr y, s') \<longleftrightarrow> y = q' s \<and> s' = s"
  "demand c e s = (Inr u, s') \<longleftrightarrow> c s \<and> s' = s"
  "check_ok r s = (Inr u, s') \<longleftrightarrow> r s = None \<and> s' = s"
  by (auto simp add: give_def ask_def look_def demand_def check_ok_def split: option.splits if_splits)

lemma effect_ok:
  "act a q h = (Inr y, h') \<longleftrightarrow> q h = Inr y \<and> h' = h @ [a]"
  "act_ok a r h = (Inr u, h') \<longleftrightarrow> r h = None \<and> h' = h @ [a]"
  by (auto simp add: act_def act_ok_def split: option.splits)

lemma only_if_ok: "only_if c m h = (Inr u, h') \<longleftrightarrow> (if c then m h = (Inr (), h') else h' = h)"
  by (auto simp: only_if_def give_def)

lemmas step_ok = attempt_ok and_then_ok basic_ok effect_ok only_if_ok

section \<open>Traces whose every effect is allowed where it stands\<close>

definition in_place :: "('e list \<Rightarrow> 'e \<Rightarrow> bool) \<Rightarrow> 'e list \<Rightarrow> bool" where
  "in_place ok h \<longleftrightarrow> (\<forall>a e b. h = a @ e # b \<longrightarrow> ok a e)"

lemma in_place_Nil [simp]: "in_place ok []"
  by (simp add: in_place_def)

lemma in_place_snoc [simp]: "in_place ok (h @ [e]) \<longleftrightarrow> in_place ok h \<and> ok h e"
proof
  assume k: "in_place ok (h @ [e])"
  then have "ok a x" if "h = a @ x # b" for a x b using that unfolding in_place_def by (metis append.assoc append_Cons)
  then show "in_place ok h \<and> ok h e" using k by (auto simp: in_place_def)
next
  assume k: "in_place ok h \<and> ok h e"
  have "ok a x" if "h @ [e] = a @ x # b" for a x b
  proof (cases b rule: rev_cases)
    case (snoc c y)
    then show ?thesis using that k by (auto simp: in_place_def)
  qed (use that k in auto)
  then show "in_place ok (h @ [e])" by (auto simp: in_place_def)
qed

definition so_far :: "('e list \<Rightarrow> 'e \<Rightarrow> bool) \<Rightarrow> ('e list \<Rightarrow> bool) \<Rightarrow> 'e list \<Rightarrow> bool" where
  "so_far ok S h \<longleftrightarrow> in_place ok h \<and> S h"

lemma act_so_far:
  assumes "\<And>h. S h \<Longrightarrow> ok h e"
  shows "holds (so_far ok S) (act e q) (\<lambda>x. so_far ok (\<lambda>h. \<exists>h0. h = h0 @ [e] \<and> S h0 \<and> q h0 = Inr x)) (in_place ok)"
    and "holds (so_far ok S) (act_ok e r) (\<lambda>_. so_far ok (\<lambda>h. \<exists>h0. h = h0 @ [e] \<and> S h0 \<and> r h0 = None)) (in_place ok)"
  using assms by (auto simp: holds_def act_def act_ok_def so_far_def split: sum.splits option.splits)

lemma read_so_far:
  "holds (so_far ok S) (ask q) (\<lambda>x. so_far ok (\<lambda>h. S h \<and> q h = Inr x)) (in_place ok)"
  "holds (so_far ok S) (look q') (\<lambda>x. so_far ok (\<lambda>h. S h \<and> x = q' h)) (in_place ok)"
  "holds (so_far ok S) (demand c msg) (\<lambda>_. so_far ok (\<lambda>h. S h \<and> c h)) (in_place ok)"
  "holds (so_far ok S) (check_ok r) (\<lambda>_. so_far ok (\<lambda>h. S h \<and> r h = None)) (in_place ok)"
  "holds (so_far ok S) (give y) (\<lambda>x. so_far ok (\<lambda>h. S h \<and> x = y)) (in_place ok)"
  by (auto simp: holds_def ask_def look_def demand_def check_ok_def give_def so_far_def split: sum.splits option.splits)

lemma so_far_weaken:
  assumes "holds (so_far ok S) m (\<lambda>x. so_far ok (T x)) (in_place ok)" and "\<And>h. S' h \<Longrightarrow> S h" and "\<And>x h. T x h \<Longrightarrow> T' x h"
  shows "holds (so_far ok S') m (\<lambda>x. so_far ok (T' x)) (in_place ok)"
  by (rule holds_weaken [OF assms(1)]) (use assms(2,3) in \<open>auto simp: so_far_def\<close>)

lemma reads_so_far: "reads s \<Longrightarrow> holds (so_far ok S) s (\<lambda>_. so_far ok S) (in_place ok)"
  by (rule holds_weaken [OF holds_reads [of s "so_far ok S"]]) (auto simp: so_far_def)

text \<open>An effect that keeps what holds.\<close>

lemma act_stable:
  assumes "\<And>h. S h \<Longrightarrow> ok h e" and "\<And>h. S h \<Longrightarrow> S (h @ [e])"
  shows "holds (so_far ok S) (act e q) (\<lambda>_. so_far ok S) (in_place ok)"
    and "holds (so_far ok S) (act_ok e r) (\<lambda>_. so_far ok S) (in_place ok)"
  by (rule holds_weaken [OF act_so_far(1) [where S = S and ok = ok]], use assms in \<open>auto simp: so_far_def\<close>)
    (rule holds_weaken [OF act_so_far(2) [where S = S and ok = ok]], use assms in \<open>auto simp: so_far_def\<close>)

section \<open>Programs that only change the state along a relation\<close>

definition kept_by :: "('s \<Rightarrow> 's \<Rightarrow> bool) \<Rightarrow> ('s, 'a) prog \<Rightarrow> bool" where
  "kept_by R p \<longleftrightarrow> (\<forall>s. R s (snd (p s)))"

locale kept_relation =
  fixes R :: "'s \<Rightarrow> 's \<Rightarrow> bool"
  assumes kept_refl: "R s s"
    and kept_trans: "R a b \<Longrightarrow> R b c \<Longrightarrow> R a c"
begin

lemma kept_reads: "reads p \<Longrightarrow> kept_by R p"
  by (simp add: kept_by_def reads_def kept_refl)

lemma kept_attempt:
  assumes "kept_by R p" and "\<And>x. kept_by R (f x)"
  shows "kept_by R (attempt p f)"
  unfolding kept_by_def
proof
  fix s
  obtain r s1 where p: "p s = (r, s1)" by (cases "p s")
  then have "R s s1" using assms(1) by (metis kept_by_def snd_conv)
  moreover have "R s1 (snd (f x s1))" for x using assms(2) by (simp add: kept_by_def)
  ultimately show "R s (snd (attempt p f s))" using p kept_trans by (cases r) (auto simp: attempt_def)
qed

lemma kept_and_then: "kept_by R p \<Longrightarrow> kept_by R q \<Longrightarrow> kept_by R (and_then p q)"
  by (simp add: and_then_def kept_attempt)

lemma kept_cases:
  "(c \<Longrightarrow> kept_by R p) \<Longrightarrow> (\<not> c \<Longrightarrow> kept_by R q) \<Longrightarrow> kept_by R (if c then p else q)"
  "(x = None \<Longrightarrow> kept_by R p) \<Longrightarrow> (\<And>y. x = Some y \<Longrightarrow> kept_by R (g y)) \<Longrightarrow> kept_by R (case x of None \<Rightarrow> p | Some y \<Rightarrow> g y)"
  "(c \<Longrightarrow> kept_by R u) \<Longrightarrow> kept_by R (only_if c u)"
  "kept_by R (h v) \<Longrightarrow> kept_by R (Let v h)"
  by (cases x; simp add: only_if_def give_def kept_by_def kept_refl)+

lemma kept_each: "(\<And>x a. kept_by R (f x a)) \<Longrightarrow> kept_by R (each_with f xs a)"
  by (induction xs arbitrary: a) (simp_all add: kept_attempt kept_reads step_rules)

lemma kept_after: "kept_by R p \<Longrightarrow> R s s1 \<Longrightarrow> R s (snd (p s1))"
  unfolding kept_by_def using kept_trans by blast

end

end
