(* ===== verification/Environment_Policy.thy ===== *)
theory Environment_Policy
  imports Queries
begin

text \<open>
  Which environment policies and launch settings a run may have (\<open>safe_relative\<close>, \<open>LaunchConfig\<close> and
  \<open>EnvironmentConfig\<close> in \<open>backend/src/environment.rs\<close>, \<open>Binding\<close> and \<open>AmbientEnvironmentHint\<close> in
  \<open>environment_discovery.rs\<close>, \<open>Resources\<close> in \<open>environment_resources.rs\<close>).  The host answers through the record
  \<open>native\<close>.  The result \<open>Some e\<close> of a check is its error.
\<close>

section \<open>The host\<close>

text \<open>
  \<open>nt_lower\<close> is Unicode lower case, \<open>nt_key\<close> the key under which \<open>path_identity.rs\<close> compares paths on this host
  (case folding, separators, symbolic links), \<open>nt_uuid\<close> parses a UUID.
\<close>

record native =
  nt_platform :: string
  nt_arch :: string
  nt_workspaces :: bool
  nt_lower :: "string \<Rightarrow> string"
  nt_key :: "string \<Rightarrow> string"
  nt_absolute :: "string \<Rightarrow> bool"
  nt_is_file :: "string \<Rightarrow> bool"
  nt_uuid :: "string \<Rightarrow> bool"

definition on_windows :: "native \<Rightarrow> bool" where
  "on_windows n \<longleftrightarrow> nt_platform n = ''windows''"

definition cuda_host :: "native \<Rightarrow> bool" where
  "cuda_host n \<longleftrightarrow> nt_platform n \<in> set [''windows'', ''linux'']"

section \<open>Relative paths\<close>

text \<open>\<open>str::split\<close> at a character: one piece more than separators.\<close>

fun split_at :: "char \<Rightarrow> string \<Rightarrow> string list" where
  "split_at c [] = [[]]"
| "split_at c (x # s) = (if x = c then [] # split_at c s
     else case split_at c s of p # ps \<Rightarrow> (x # p) # ps | [] \<Rightarrow> [[x]])"

datatype path_component = Root_Dir | Cur_Dir | Parent_Dir | Normal string

text \<open>\<open>Path::components\<close>: empty pieces and inner dots go.\<close>

definition inner_components :: "string list \<Rightarrow> path_component list" where
  "inner_components ps = map (\<lambda>p. if p = ''..'' then Parent_Dir else Normal p) (filter (\<lambda>p. p \<noteq> [] \<and> p \<noteq> ''.'') ps)"

definition path_components :: "string \<Rightarrow> path_component list" where
  "path_components s = (case split_at (CHR 0x2F) s of
     [] \<Rightarrow> []
   | p # ps \<Rightarrow> (if p = [] \<and> s \<noteq> [] then [Root_Dir] else if p = ''.'' then [Cur_Dir] else []) @ inner_components (p # ps))"

definition path_starts :: "string \<Rightarrow> string \<Rightarrow> bool" where
  "path_starts p scope \<longleftrightarrow> (let cs = path_components scope in take (length cs) (path_components p) = cs)"

text \<open>\<open>workspace::scope_contains\<close>: a path is a scope or below it.\<close>

definition scope_contains :: "native \<Rightarrow> string \<Rightarrow> string \<Rightarrow> bool" where
  "scope_contains n p scope \<longleftrightarrow> path_starts p scope \<or> path_starts (nt_key n p) (nt_key n scope)"

definition is_normal :: "path_component \<Rightarrow> bool" where
  "is_normal c = (case c of Normal _ \<Rightarrow> True | _ \<Rightarrow> False)"

definition forbidden_chars :: "char list" where
  "forbidden_chars = [CHR 0x00, CHR 0x5C, CHR 0x3A, CHR 0x2A, CHR 0x3F, CHR 0x5B, CHR 0x5D, CHR 0x0A, CHR 0x0D]"

text \<open>The superscripts one, two and three are digits to Windows.\<close>

definition device_digits :: "string list" where
  "device_digits = [''1'', ''2'', ''3'', ''4'', ''5'', ''6'', ''7'', ''8'', ''9'',
     [CHR 0xC2, CHR 0xB9], [CHR 0xC2, CHR 0xB2], [CHR 0xC2, CHR 0xB3]]"

definition windows_name :: "string \<Rightarrow> bool" where
  "windows_name name = (let device = hd (split_at (CHR 0x2E) name) in
     ends_with name ''.'' \<or> ends_with name '' ''
     \<or> device \<in> set [''con'', ''prn'', ''aux'', ''nul'', ''conin$'', ''conout$'']
     \<or> ((starts_with device ''com'' \<or> starts_with device ''lpt'') \<and> char_count device = 4
        \<and> (\<exists>d \<in> set device_digits. ends_with device d)))"

definition reserved_component :: "native \<Rightarrow> path_component \<Rightarrow> bool" where
  "reserved_component n c = (case c of
     Normal p \<Rightarrow> (let name = nt_lower n p in
       name \<in> set [''.git'', ''.grapher'', ''.grapher-worktrees'', ''.grapher-workspaces'']
       \<or> (on_windows n \<and> windows_name name))
   | _ \<Rightarrow> False)"

definition safe_relative :: "native \<Rightarrow> string \<Rightarrow> string option" where
  "safe_relative n s =
     (if s = [] \<or> (\<exists>c \<in> set s. c \<in> set forbidden_chars) \<or> \<not> list_all is_normal (path_components s)
        \<or> (\<exists>c \<in> set (path_components s). reserved_component n c)
      then Some (''Invalid managed environment path: '' @ s) else None)"

section \<open>Launch variables\<close>

definition is_ascii_alphabetic :: "char \<Rightarrow> bool" where
  "is_ascii_alphabetic c = (let n = (of_char c :: nat) in (65 \<le> n \<and> n \<le> 90) \<or> (97 \<le> n \<and> n \<le> 122))"

definition is_ascii_digit :: "char \<Rightarrow> bool" where
  "is_ascii_digit c = (let n = (of_char c :: nat) in 48 \<le> n \<and> n \<le> 57)"

definition is_ascii_hexdigit :: "char \<Rightarrow> bool" where
  "is_ascii_hexdigit c = (let n = (of_char c :: nat) in is_ascii_digit c \<or> (65 \<le> n \<and> n \<le> 70) \<or> (97 \<le> n \<and> n \<le> 102))"

definition variable_name :: "string \<Rightarrow> bool" where
  "variable_name key = (case key of [] \<Rightarrow> False | c # cs \<Rightarrow>
     (c = CHR ''_'' \<or> is_ascii_alphabetic c) \<and> list_all (\<lambda>c. c = CHR ''_'' \<or> is_ascii_alphabetic c \<or> is_ascii_digit c) cs)"

definition ascii_upper_char :: "char \<Rightarrow> char" where
  "ascii_upper_char c = (let n = (of_char c :: nat) in if 97 \<le> n \<and> n \<le> 122 then char_of (n - 32) else c)"

definition reserved_variable :: "string \<Rightarrow> bool" where
  "reserved_variable key = (let key = map ascii_upper_char key in
     starts_with key ''GRAPHER_'' \<or> starts_with key ''PI_'' \<or> starts_with key ''GIT_''
     \<or> key \<in> set [''PATH'', ''NODE_OPTIONS'', ''NODE_PATH'', ''BASH_ENV'', ''ENV'', ''SHELLOPTS'', ''BASHOPTS'', ''CDPATH'',
         ''OLDPWD'', ''GLOBIGNORE''])"

section \<open>Launch settings\<close>

abbreviation nul :: char where "nul \<equiv> CHR 0x00"

definition validate_hint :: "ambient_environment_hint \<Rightarrow> string option" where
  "validate_hint h =
     (if \<exists>s \<in> set [ah_manager h, ah_selector h, ah_executable h]. s = [] \<or> nul \<in> set s
      then Some ''Invalid ambient environment hint'' else None)"

definition validate_binding :: "native \<Rightarrow> binding \<Rightarrow> string option" where
  "validate_binding n b = (case safe_relative n (bd_prefix b) of
     Some e \<Rightarrow> Some e
   | None \<Rightarrow>
       if bd_kind b \<notin> set [''venv'', ''conda''] \<or> length (bd_abi b) \<noteq> 40 \<or> \<not> list_all is_ascii_hexdigit (bd_abi b)
       then Some ''Invalid discovered native environment binding''
       else if (case bd_root b of Some r \<Rightarrow> r \<notin> set [''workspace'', ''state''] | None \<Rightarrow> False)
       then Some ''Invalid discovered native environment root'' else None)"

definition launch_path_ok :: "native \<Rightarrow> string \<Rightarrow> bool" where
  "launch_path_ok n path \<longleftrightarrow> nul \<notin> set path
     \<and> (nt_absolute n path \<or> starts_with path ''{workspace}/'' \<or> starts_with path ''{state}/'')"

text \<open>Checks in sequence: the first error counts.\<close>

fun first_error :: "string option list \<Rightarrow> string option" where
  "first_error [] = None"
| "first_error (Some e # rs) = Some e"
| "first_error (None # rs) = first_error rs"

definition refuse :: "bool \<Rightarrow> string \<Rightarrow> string option" where
  "refuse c e = (if c then Some e else None)"

lemma first_error_None: "first_error rs = None \<longleftrightarrow> (\<forall>r \<in> set rs. r = None)"
proof (induction rs)
  case (Cons r rs)
  then show ?case by (cases r) auto
qed simp

lemma refuse_None [simp]: "refuse c e = None \<longleftrightarrow> \<not> c"
  by (simp add: refuse_def)

definition validate_launch :: "native \<Rightarrow> launch_config \<Rightarrow> string option" where
  "validate_launch n l = first_error (
     [refuse (lc_path l = [] \<or> lc_entry l = [] \<or> \<not> nt_absolute n (lc_shell l) \<or> \<not> nt_is_file n (lc_shell l))
        ''Launch needs an explicit entry, complete PATH and an existing absolute native Bash shell'']
     @ map (\<lambda>p. refuse (\<not> launch_path_ok n p) (''Launch path must be absolute, workspace-bound or state-bound: '' @ p))
         (lc_path l @ [lc_entry l])
     @ [case lc_environment l of Some b \<Rightarrow> validate_binding n b | None \<Rightarrow> None]
     @ map (safe_relative n) (lc_managed_scopes l) @ map validate_hint (lc_ambient_hints l)
     @ map (\<lambda>key. refuse (\<not> variable_name key \<or> reserved_variable key) (''Reserved/invalid launch variable: '' @ key))
         (bt_keys (lc_variables l) @ lc_inherit l)
     @ [refuse ((\<exists>v \<in> set (bt_values (lc_variables l)). nul \<in> set v)
          \<or> (case lc_hook l of Some v \<Rightarrow> nul \<in> set v | None \<Rightarrow> False)) ''NUL in launch configuration''])"

definition launch_state_bound :: "launch_config \<Rightarrow> bool" where
  "launch_state_bound l \<longleftrightarrow> (\<exists>v \<in> set (bt_values (lc_variables l) @ lc_path l @ [lc_entry l]). contains_str v ''{state}'')"

text \<open>\<open>str::replace\<close>, from left to right without overlap.\<close>

function replace_all :: "string \<Rightarrow> string \<Rightarrow> string \<Rightarrow> string" where
  "replace_all p r s =
     (if p \<noteq> [] \<and> starts_with s p then r @ replace_all p r (drop (length p) s)
      else case s of [] \<Rightarrow> [] | c # cs \<Rightarrow> c # replace_all p r cs)"
  by pat_completeness auto
termination
proof (relation "measure (\<lambda>(p, r, s). length s)")
  fix p r s :: string
  assume "p \<noteq> [] \<and> starts_with s p"
  then have "0 < length p" "length p \<le> length s" by (auto simp: starts_with_iff)
  then have "length s - length p < length s" by linarith
  then show "((p, r, drop (length p) s), p, r, s) \<in> measure (\<lambda>(p, r, s). length s)" by simp
qed auto

declare replace_all.simps [simp del]

text \<open>\<open>root\<close> and \<open>state\<close> are the paths of the workspace and of its process state, as the process sees them.\<close>

definition expand :: "string \<Rightarrow> string option \<Rightarrow> string \<Rightarrow> string" where
  "expand root state v = (let v = replace_all ''{workspace}'' root v in
     case state of Some s \<Rightarrow> replace_all ''{state}'' s v | None \<Rightarrow> v)"

definition expanded :: "string \<Rightarrow> string option \<Rightarrow> launch_config \<Rightarrow> launch_config" where
  "expanded root state l = l\<lparr>lc_entry := expand root state (lc_entry l), lc_path := map (expand root state) (lc_path l),
     lc_variables := map (\<lambda>(k, v). (k, expand root state v)) (lc_variables l),
     lc_hook := map_option (expand root state) (lc_hook l)\<rparr>"

section \<open>Resources\<close>

definition validate_device :: "native \<Rightarrow> device \<Rightarrow> string option" where
  "validate_device n d = first_error
     [refuse (dv_backend d \<noteq> ''cuda'' \<or> \<not> cuda_host n)
        (''Native accelerator backend not implemented on this host: '' @ dv_backend d @ ''; no CPU/OS fallback''),
      refuse (dv_ids d = [] \<or> 8 < length (dv_ids d) \<or> \<not> nt_absolute n (dv_probe d) \<or> \<not> nt_is_file n (dv_probe d))
        ''CUDA needs explicit UUIDs and an existing absolute native nvidia-smi probe'',
      refuse (\<not> distinct (dv_ids d) \<or> (\<exists>i \<in> set (dv_ids d). \<not> starts_with i ''GPU-'' \<or> \<not> nt_uuid n (drop 4 i)))
        ''CUDA devices must be distinct exact GPU UUIDs'']"

definition validate_timeout :: "nat option \<Rightarrow> string option" where
  "validate_timeout t = (case t of
     Some s \<Rightarrow> refuse (s = 0 \<or> 365 * 24 * 3600 < s) ''Explicit native command timeout must be 1..31536000 seconds''
   | None \<Rightarrow> None)"

definition validate_resources :: "native \<Rightarrow> resources \<Rightarrow> string option" where
  "validate_resources n r = first_error
     [if rs_memory_bytes r = None \<and> rs_cpu_rate r = None then None
      else first_error
        [refuse (\<not> on_windows n)
           ''Aggregate CPU/memory quotas require a supported native Job backend on this host; no per-process substitute'',
         refuse (case rs_memory_bytes r of Some b \<Rightarrow> b < 32 * 1024 * 1024 \<or> 2 ^ 64 - 1 < b | None \<Rightarrow> False)
           ''Native memory quota must be at least 32 MiB and fit the host'',
         refuse (case rs_cpu_rate r of Some rate \<Rightarrow> rate = 0 \<or> 10000 < rate | None \<Rightarrow> False)
           ''Native CPU rate must be 1..10000 basis points''],
      validate_timeout (rs_initialize_timeout_seconds r), validate_timeout (rs_result_timeout_seconds r),
      refuse (case rs_max_output_bytes r of Some b \<Rightarrow> b < 4 * 1024 * 1024 \<or> 256 * 1024 * 1024 < b | None \<Rightarrow> False)
        ''Native output cap must be between 4 MiB and 256 MiB'',
      case rs_device r of Some d \<Rightarrow> validate_device n d | None \<Rightarrow> None]"

section \<open>Policies\<close>

definition environment_exclusions :: "environment_config \<Rightarrow> string list" where
  "environment_exclusions c = (if launch_state_bound (ec_launch c) then [] else ec_scopes c @ ec_caches c)"

text \<open>One contains the other.\<close>

definition overlaps :: "native \<Rightarrow> string \<Rightarrow> string \<Rightarrow> bool" where
  "overlaps n a b \<longleftrightarrow> scope_contains n a b \<or> scope_contains n b a"

text \<open>A cache may only be carved out of a scope.\<close>

definition cache_conflict :: "native \<Rightarrow> string \<Rightarrow> string \<Rightarrow> bool" where
  "cache_conflict n cache scope =
     (let inside = scope_contains n cache scope; contains = scope_contains n scope cache
      in (inside \<or> contains) \<and> \<not> (inside \<and> \<not> contains))"

fun validate_scopes :: "native \<Rightarrow> string list \<Rightarrow> string list \<Rightarrow> string option" where
  "validate_scopes n earlier [] = None"
| "validate_scopes n earlier (s # ss) = first_error
     [safe_relative n s, refuse (\<exists>t \<in> set earlier. overlaps n s t) (''Overlapping environment scopes: '' @ s),
      validate_scopes n (earlier @ [s]) ss]"

fun validate_caches :: "native \<Rightarrow> string list \<Rightarrow> string list \<Rightarrow> string list \<Rightarrow> string option" where
  "validate_caches n scopes earlier [] = None"
| "validate_caches n scopes earlier (c # cs) = first_error
     [safe_relative n c, refuse (\<exists>t \<in> set earlier. overlaps n c t) (''Overlapping environment caches: '' @ c),
      refuse (\<exists>s \<in> set scopes. cache_conflict n c s)
        (''Environment cache must be nested inside a managed scope, not overlap it: '' @ c),
      validate_caches n scopes (earlier @ [c]) cs]"

definition supported :: "native \<Rightarrow> environment_config \<Rightarrow> string \<Rightarrow> bool" where
  "supported n c requirement =
     (if requirement \<in> set [''fixed-layout'', ''basic-snapshots'', ''private-copies'', ''process-drain''] then True
      else if requirement = ''cpu-quota''
      then on_windows n \<and> (case ec_resources c of Some r \<Rightarrow> rs_cpu_rate r \<noteq> None | None \<Rightarrow> False)
      else if requirement = ''memory-quota''
      then on_windows n \<and> (case ec_resources c of Some r \<Rightarrow> rs_memory_bytes r \<noteq> None | None \<Rightarrow> False)
      else if requirement \<in> set [''cuda'', ''device-leases'']
      then (case Option.bind (ec_resources c) rs_device of Some d \<Rightarrow> dv_backend d = ''cuda'' | None \<Rightarrow> False) \<and> cuda_host n
      else False)"

definition unsafe_best_effort :: "environment_config \<Rightarrow> bool" where
  "unsafe_best_effort c \<longleftrightarrow> ec_best_effort c \<and> (\<not> ec_discovery c \<or> ec_import_source c \<or> ec_initialize c \<noteq> []
     \<or> ec_launch_file c \<noteq> None \<or> ec_authority c \<noteq> [])"

definition validate_launch_file :: "native \<Rightarrow> environment_config \<Rightarrow> string option" where
  "validate_launch_file n c = (case ec_launch_file c of
     None \<Rightarrow> None
   | Some path \<Rightarrow> first_error [safe_relative n path,
       refuse (\<exists>s \<in> set (environment_exclusions c). overlaps n path s) ''Launch policy file overlaps a managed tree''])"

definition validate_environment :: "native \<Rightarrow> environment_config \<Rightarrow> string option" where
  "validate_environment n c = first_error (
     [refuse (ec_mode c \<noteq> ''native-workspace'' \<or> \<not> nt_workspaces n)
        (''Unverified native environment mode: '' @ ec_mode c @ '' (no execution fallback)''),
      refuse (ec_platform c \<noteq> nt_platform n \<or> ec_arch c \<noteq> nt_arch n)
        ''Environment platform/architecture differs from the actual native host; explicit rebuild required'',
      refuse (ec_layout c \<notin> set [''fixed'', ''relocatable''] \<or> ec_scopes c = [])
        ''Declare nonempty environment scopes and fixed/relocatable layout'',
      refuse (ec_import_source c \<and> (ec_layout c \<noteq> ''relocatable'' \<or> ec_initialize c \<noteq> []))
        ''Source import requires explicitly relocatable layout and cannot also initialize'',
      refuse (unsafe_best_effort c) ''Best-effort inheritance requires an empty-start discovery policy'',
      validate_scopes n [] (ec_scopes c), validate_caches n (ec_scopes c) [] (ec_caches c), validate_launch_file n c,
      refuse (case ec_baseline c of p # _ \<Rightarrow> \<not> nt_absolute n p \<or> \<not> nt_is_file n p | [] \<Rightarrow> True)
        ''An existing absolute native baseline probe is required'',
      refuse (\<exists>v \<in> set (ec_baseline c @ ec_initialize c). nul \<in> set v) ''NUL in environment command'',
      case ec_resources c of Some r \<Rightarrow> validate_resources n r | None \<Rightarrow> None]
     @ map (\<lambda>q. refuse (\<not> supported n c q) (''Native capability not verified: '' @ q @ ''; refusing rather than changing mode/OS''))
         (ec_require c)
     @ [validate_launch n (ec_launch c)])"

text \<open>\<open>tracked\<close> are the files in the index, \<open>linked\<close> the error of a scope that is not a real child.\<close>

definition check_tracked :: "native \<Rightarrow> environment_config \<Rightarrow> string + string list \<Rightarrow> (string \<Rightarrow> string option) \<Rightarrow> string option" where
  "check_tracked n c tracked linked =
     (if launch_state_bound (ec_launch c) then None
      else case tracked of
        Inl e \<Rightarrow> Some e
      | Inr names \<Rightarrow> first_error
          (map (\<lambda>name. refuse (\<exists>s \<in> set (environment_exclusions c). overlaps n name s)
              (''Managed environment/cache conflicts with tracked file: '' @ name)) (filter (\<lambda>name. name \<noteq> []) names)
           @ map linked (environment_exclusions c)))"

end
