(* ===== verification/Worker.thy ===== *)
theory Worker
  imports Steps Dispatch Session_Branch Environment_Policy
begin

text \<open>
  What a worker does with a job (\<open>perform_with_merger_inner\<close> and \<open>perform_with_merger\<close> in
  \<open>backend/src/runtime.rs\<close>): it checks that the directory may be used, composes it from the inputs or keeps what
  a failed attempt left, announces the base durably, runs the agent and takes a snapshot.  Git, the file system,
  the environment store and the agent answer through the record \<open>worker\<close>; an answer may depend on everything
  the worker did before, which is the trace.
\<close>

section \<open>What a worker does and asks\<close>

datatype effect =
    Clear_Index "string list"
  | Rediscover composite_result string
  | Collect_Source "string list" bool
  | Pin_Head string
  | Compose string "string list" string "string list"
  | Copy_Files string "string list"
  | Prepare_Environment composite_result string bool bool
  | Announce string
  | Fork_Session string string
  | Deliver_Attachments bool
  | Run_Agent execution string
  | Repair_Verdict execution string
  | Clear_Managed "string list"
  | Discover composite_result string
  | Snapshot "string list option"
  | Record_Changes string string
  | Prove_Accelerator composite_result
  | Seal composite_result string

type_synonym trace = "effect list"

text \<open>\<open>wk_owner\<close> and \<open>wk_bucket\<close> are the names of the parent directory of a path and of that one's parent.\<close>

record worker =
  wk_is_dir :: "trace \<Rightarrow> string \<Rightarrow> bool"
  wk_verify_ancestor :: "trace \<Rightarrow> string \<Rightarrow> string \<Rightarrow> string option"
  wk_missing_commit :: "trace \<Rightarrow> string \<Rightarrow> string \<Rightarrow> string option"
  wk_is_bound :: "trace \<Rightarrow> string \<Rightarrow> bool"
  wk_has_record :: "trace \<Rightarrow> string \<Rightarrow> string \<Rightarrow> bool"
  wk_descends :: "trace \<Rightarrow> string \<Rightarrow> string \<Rightarrow> string \<Rightarrow> bool"
  wk_head :: "trace \<Rightarrow> string \<Rightarrow> string + string"
  wk_open_store :: "environment_config \<Rightarrow> string option"
  wk_exclusions :: "trace \<Rightarrow> string \<Rightarrow> string + string list"
  wk_verify_result :: "trace \<Rightarrow> string \<Rightarrow> string \<Rightarrow> string \<Rightarrow> string list \<Rightarrow> string option"
  wk_private_git :: "trace \<Rightarrow> string \<Rightarrow> bool"
  wk_clear_index :: "trace \<Rightarrow> string \<Rightarrow> string list \<Rightarrow> string option"
  wk_history_scopes :: "trace \<Rightarrow> string \<Rightarrow> string \<Rightarrow> string option"
  wk_discover :: "trace \<Rightarrow> string \<Rightarrow> composite_result \<Rightarrow> string \<Rightarrow> string + composite_result"
  wk_validate_result :: "trace \<Rightarrow> composite_result \<Rightarrow> string option"
  wk_verify_view :: "trace \<Rightarrow> string \<Rightarrow> string \<Rightarrow> string \<Rightarrow> string option"
  wk_load_after :: "trace \<Rightarrow> string \<Rightarrow> string + composite_result"
  wk_owner :: "string \<Rightarrow> string option"
  wk_bucket :: "string \<Rightarrow> string option"
  wk_status :: "trace \<Rightarrow> string \<Rightarrow> string list \<Rightarrow> string + string"
  wk_collect :: "trace \<Rightarrow> string \<Rightarrow> string list \<Rightarrow> bool \<Rightarrow> string + string"
  wk_pin :: "trace \<Rightarrow> string \<Rightarrow> string \<Rightarrow> string option"
  wk_merging :: "trace \<Rightarrow> string \<Rightarrow> bool"
  wk_tracked :: "trace \<Rightarrow> string \<Rightarrow> string list \<Rightarrow> string + bool"
  wk_compose :: "trace \<Rightarrow> string \<Rightarrow> string list \<Rightarrow> string \<Rightarrow> string list \<Rightarrow> string + string"
  wk_copy :: "trace \<Rightarrow> string \<Rightarrow> string \<Rightarrow> string list \<Rightarrow> string option"
  wk_prepare_environment :: "trace \<Rightarrow> composite_result \<Rightarrow> string \<Rightarrow> bool \<Rightarrow> bool \<Rightarrow> string + composite_result"
  wk_announce :: "trace \<Rightarrow> string \<Rightarrow> string option"
  wk_session :: session_io
  wk_sessions :: "trace \<Rightarrow> string \<Rightarrow> string + dir_entry list"
  wk_session_exists :: "trace \<Rightarrow> string \<Rightarrow> bool"
  wk_write_session :: "trace \<Rightarrow> string \<Rightarrow> string \<Rightarrow> string option"
  wk_deliver :: "trace \<Rightarrow> string \<Rightarrow> bool \<Rightarrow> string option"
  wk_agent :: "trace \<Rightarrow> execution \<Rightarrow> string \<Rightarrow> string + string"
  wk_repair :: "trace \<Rightarrow> execution \<Rightarrow> string \<Rightarrow> string + string"
  wk_check_tracked :: "trace \<Rightarrow> environment_config \<Rightarrow> string \<Rightarrow> string option"
  wk_snapshot :: "trace \<Rightarrow> string \<Rightarrow> string list option \<Rightarrow> string + string"
  wk_prove :: "trace \<Rightarrow> string \<Rightarrow> composite_result \<Rightarrow> string option"
  wk_seal :: "trace \<Rightarrow> string \<Rightarrow> composite_result \<Rightarrow> string \<Rightarrow> string + composite_result"
  wk_acquire :: "environment_config \<Rightarrow> string option"

section \<open>The job\<close>

definition job_path :: "job \<Rightarrow> string" where
  "job_path j = ex_worktree (jb_execution j)"

definition job_policy :: "job \<Rightarrow> environment_config option" where
  "job_policy j = cf_environment (jb_config j)"

text \<open>A follow-up that runs in the source directory itself.\<close>

definition in_source :: "job \<Rightarrow> string \<Rightarrow> bool" where
  "in_source j repository \<longleftrightarrow> jb_source_direct j \<or> job_path j = repository"

text \<open>A repair of one source only is done in the directory of that source.\<close>

definition single_source_repair :: "job \<Rightarrow> bool" where
  "single_source_repair j = (case jb_feedback_workspace j of Some f \<Rightarrow> fw_additional_sources f = [] | None \<Rightarrow> False)"

section \<open>The directory\<close>

definition check_directory :: "world \<Rightarrow> job \<Rightarrow> string \<Rightarrow> (effect, unit) step" where
  "check_directory w j repository = (let source_tree = (job_path j = repository) in
     and_then (demand (\<lambda>_. source_tree \<or> \<not> wd_same_path w (job_path j) repository)
       ''Graph workspace resolves to the source directory; an isolated workspace is required'')
     (demand (\<lambda>_. source_tree \<or> (case job_policy j of Some c \<Rightarrow> launch_state_bound (ec_launch c) | None \<Rightarrow> True))
       ''Legacy in-project native state requires explicit migration/reconstruction before another agent launch; the original workspace is retained''))"

definition recovery_matches :: "world \<Rightarrow> job \<Rightarrow> execution \<Rightarrow> bool \<Rightarrow> bool" where
  "recovery_matches w j previous reused \<longleftrightarrow> reused \<and> wd_same_path w (ex_worktree previous) (job_path j)
     \<and> ex_node previous = ex_node (jb_execution j) \<and> ex_session_id previous = ex_session_id (jb_execution j)
     \<and> \<not> jb_history_edit j \<and> \<not> single_source_repair j"

definition additional_heads :: "job \<Rightarrow> string list" where
  "additional_heads j = (case jb_feedback_workspace j of Some f \<Rightarrow> map fs_head (fw_additional_sources f) | None \<Rightarrow> [])"

definition prepared_input_available :: "worker \<Rightarrow> string \<Rightarrow> string \<Rightarrow> bool \<Rightarrow> string \<Rightarrow> trace \<Rightarrow> bool" where
  "prepared_input_available k repository path standard_git input h \<longleftrightarrow> standard_git
     \<or> (wk_missing_commit k h repository input = None \<and> (\<not> wk_is_bound k h path \<or> wk_has_record k h repository input))"

definition inputs_unmoved :: "world \<Rightarrow> worker \<Rightarrow> job \<Rightarrow> string \<Rightarrow> execution \<Rightarrow> trace \<Rightarrow> bool" where
  "inputs_unmoved w k j repository previous h \<longleftrightarrow>
     (\<forall>input \<in> set (jb_parent_heads j @ [jb_expected_source_head j] @ additional_heads j).
        input \<noteq> [] \<and> prepared_input_available k repository (job_path j) (wd_standard_git w repository) input h
        \<longrightarrow> wk_descends k h (job_path j) input (ex_before previous))"

text \<open>The head of work a failed attempt left, which is never stashed, cleaned or reset.\<close>

definition preserved_head :: "world \<Rightarrow> worker \<Rightarrow> job \<Rightarrow> string \<Rightarrow> bool \<Rightarrow> (effect, string option) step" where
  "preserved_head w k j repository reused = (case jb_preserved_workspace j of
     None \<Rightarrow> give None
   | Some previous \<Rightarrow>
       and_then (demand (\<lambda>_. recovery_matches w j previous reused)
         ''Recovery workspace is missing or reassigned; refusing to replace preserved partial work'')
       (and_then (check_ok (\<lambda>h. wk_verify_ancestor k h (job_path j) (ex_before previous)))
       (and_then (demand (inputs_unmoved w k j repository previous)
         ''Recovery inputs changed after preparation; refusing to reset preserved partial work'')
       (attempt (ask (\<lambda>h. wk_head k h (job_path j))) (\<lambda>head. give (Some head))))))"

definition open_store :: "worker \<Rightarrow> environment_config \<Rightarrow> (effect, unit) step" where
  "open_store k c = check_ok (\<lambda>_. wk_open_store k c)"

definition early_exclusions :: "worker \<Rightarrow> job \<Rightarrow> (effect, string list) step" where
  "early_exclusions k j = (case (job_policy j, jb_environment_input j) of
     (Some c, Some input) \<Rightarrow> and_then (open_store k c) (ask (\<lambda>h. wk_exclusions k h (cr_launch_ref input)))
   | _ \<Rightarrow> give [])"

definition verify_reused :: "worker \<Rightarrow> job \<Rightarrow> string \<Rightarrow> bool \<Rightarrow> string option \<Rightarrow> (effect, unit) step" where
  "verify_reused k j repository reused preserved =
     attempt (look (\<lambda>h. wk_is_bound k h (job_path j))) (\<lambda>bound.
       only_if (reused \<and> preserved = None \<and> \<not> jb_history_edit j \<and> \<not> jb_feedback_repair_retry j \<and> bound)
         (attempt (ask (\<lambda>h. wk_head k h (job_path j))) (\<lambda>current.
          attempt (early_exclusions k j) (\<lambda>excluded.
            check_ok (\<lambda>h. wk_verify_result k h (job_path j) repository current excluded)))))"

section \<open>The environment\<close>

definition clear_index :: "worker \<Rightarrow> job \<Rightarrow> (effect, unit) step" where
  "clear_index k j = (case job_policy j of
     None \<Rightarrow> give ()
   | Some c \<Rightarrow> attempt (look (\<lambda>h. wk_private_git k h (job_path j))) (\<lambda>private.
       only_if private (act_ok (Clear_Index (environment_exclusions c))
         (\<lambda>h. wk_clear_index k h (job_path j) (environment_exclusions c)))))"

definition check_history :: "worker \<Rightarrow> job \<Rightarrow> (effect, unit) step" where
  "check_history k j = (case (job_policy j, jb_environment_input j, jb_previous_environment_launch j) of
     (Some c, Some input, Some previous) \<Rightarrow> only_if (jb_history_edit j)
        (and_then (open_store k c) (check_ok (\<lambda>h. wk_history_scopes k h (cr_launch_ref input) previous)))
   | _ \<Rightarrow> give ())"

text \<open>The environment a failed attempt may have grown.\<close>

definition selected_environment :: "worker \<Rightarrow> job \<Rightarrow> (effect, composite_result option) step" where
  "selected_environment k j = (case (job_policy j, jb_environment_input j, jb_resume_execution_id j) of
     (Some c, Some input, Some previous) \<Rightarrow>
       if jb_preserve_failed_environment j
       then and_then (open_store k c) (attempt (act (Rediscover input previous)
              (\<lambda>h. wk_discover k h (job_path j) input previous)) (\<lambda>found. give (Some found)))
       else give (Some input)
   | (_, selected, _) \<Rightarrow> give selected)"

definition base_exclusions :: "worker \<Rightarrow> job \<Rightarrow> composite_result option \<Rightarrow> (effect, string list) step" where
  "base_exclusions k j selected = (case (job_policy j, selected) of
     (Some c, Some input) \<Rightarrow> and_then (open_store k c) (ask (\<lambda>h. wk_exclusions k h (cr_launch_ref input)))
   | (Some c, None) \<Rightarrow> give (environment_exclusions c)
   | (None, _) \<Rightarrow> give [])"

definition add_exclusions :: "worker \<Rightarrow> composite_result \<Rightarrow> string list \<Rightarrow> (effect, string list) step" where
  "add_exclusions k r excluded = attempt (ask (\<lambda>h. wk_exclusions k h (cr_launch_ref r))) (\<lambda>more. give (excluded @ more))"

definition best_effort_policy :: "job \<Rightarrow> bool" where
  "best_effort_policy j = (case job_policy j of Some c \<Rightarrow> ec_best_effort c | None \<Rightarrow> False)"

definition is_portable :: "composite_result option \<Rightarrow> bool" where
  "is_portable selected = (case selected of Some r \<Rightarrow> cr_layout r = None | None \<Rightarrow> False)"

text \<open>The sources are validated, their exclusions collected, the reused view verified.\<close>

definition validate_sources ::
  "worker \<Rightarrow> job \<Rightarrow> bool \<Rightarrow> composite_result option \<Rightarrow> string list \<Rightarrow> (effect, string list) step" where
  "validate_sources k j reused selected excluded =
     attempt (each_with (\<lambda>source excluded. and_then (check_ok (\<lambda>h. wk_validate_result k h source))
         (add_exclusions k source excluded)) (jb_environment_sources j) excluded) (\<lambda>excluded.
       and_then (case jb_environment_previous j of
           Some previous \<Rightarrow> only_if (best_effort_policy j \<and> is_portable selected \<and> reused \<and> \<not> jb_preserve_failed_environment j)
             (check_ok (\<lambda>h. wk_verify_view k h (job_path j) (cr_launch_ref previous) (cr_environment_ref previous)))
         | None \<Rightarrow> give ())
         (give (bs_of_list excluded)))"

definition validate_input :: "worker \<Rightarrow> job \<Rightarrow> (effect, unit) step" where
  "validate_input k j = (case jb_environment_input j of
     None \<Rightarrow> give ()
   | Some input \<Rightarrow> and_then
       (only_if (\<not> (\<exists>source \<in> set (jb_environment_sources j).
            cr_environment_ref source = cr_environment_ref input \<and> cr_launch_ref source = cr_launch_ref input))
          (check_ok (\<lambda>h. wk_validate_result k h input)))
       (only_if (single_source_repair j)
          (check_ok (\<lambda>h. wk_verify_view k h (job_path j) (cr_launch_ref input) (cr_environment_ref input)))))"

definition with_environment :: "worker \<Rightarrow> job \<Rightarrow> bool \<Rightarrow> (effect, composite_result option \<times> string list) step" where
  "with_environment k j reused =
     attempt (selected_environment k j) (\<lambda>selected. attempt (base_exclusions k j selected) (\<lambda>excluded.
       case job_policy j of
         None \<Rightarrow> give (selected, excluded)
       | Some c \<Rightarrow> and_then (open_store k c) (attempt (validate_sources k j reused selected excluded) (\<lambda>excluded.
           and_then (validate_input k j) (give (selected, excluded))))))"

section \<open>Feedback sources\<close>

text \<open>What a failed attempt of this very repair left in the source directory may be continued.\<close>

definition own_residue :: "world \<Rightarrow> worker \<Rightarrow> job \<Rightarrow> feedback_source \<Rightarrow> trace \<Rightarrow> bool" where
  "own_residue w k j s h \<longleftrightarrow> jb_feedback_repair_retry j \<and> wd_same_path w (fs_worktree s) (job_path j)
     \<and> wk_verify_ancestor k h (fs_worktree s) (fs_head s) = None"

definition source_exclusions :: "worker \<Rightarrow> job \<Rightarrow> feedback_source \<Rightarrow> string list \<Rightarrow> (effect, string list) step" where
  "source_exclusions k j s excluded = (case job_policy j of
     None \<Rightarrow> give excluded
   | Some _ \<Rightarrow> attempt (ask (\<lambda>h. wk_load_after k h (fs_source_execution_id s))) (\<lambda>result.
       and_then (check_ok (\<lambda>h. wk_validate_result k h result)) (add_exclusions k result excluded)))"

definition check_source ::
  "world \<Rightarrow> worker \<Rightarrow> job \<Rightarrow> string \<Rightarrow> string list \<Rightarrow> feedback_source \<Rightarrow> string option \<Rightarrow> (effect, string option) step" where
  "check_source w k j repository excluded s adopted =
     and_then (demand (\<lambda>h. wk_owner k (fs_worktree s) = Some (jb_run_id j)
         \<and> wk_bucket k (fs_worktree s) = Some ''.grapher-worktrees'' \<and> wk_is_dir k h (fs_worktree s))
       ''Feedback requires an existing worktree owned by this Run'')
     (attempt (source_exclusions k j s excluded) (\<lambda>excluded.
      attempt (ask (\<lambda>h. wk_head k h (fs_worktree s))) (\<lambda>head.
      attempt (ask (\<lambda>h. wk_status k h (fs_worktree s) excluded)) (\<lambda>status.
      attempt (look (\<lambda>h. head \<noteq> fs_head s \<or> status \<noteq> []
          \<or> wk_verify_result k h (fs_worktree s) repository (fs_head s) excluded \<noteq> None)) (\<lambda>changed.
        and_then (only_if changed (demand (own_residue w k j s) ''Feedback workspace changed after completion''))
        (and_then (case Option.bind (jb_session_fork j) ex_after of
            Some after \<Rightarrow> check_ok (\<lambda>h. wk_verify_ancestor k h (fs_worktree s) after) | None \<Rightarrow> give ())
          (give (if changed then Some head else adopted))))))))"

definition check_feedback :: "world \<Rightarrow> worker \<Rightarrow> job \<Rightarrow> string \<Rightarrow> string list \<Rightarrow> (effect, string option) step" where
  "check_feedback w k j repository excluded = (case jb_feedback_workspace j of
     None \<Rightarrow> give None
   | Some f \<Rightarrow> each_with (check_source w k j repository excluded) (feedback_sources f) None)"

section \<open>The base\<close>

definition materialized_base :: "world \<Rightarrow> worker \<Rightarrow> job \<Rightarrow> string \<Rightarrow> string list \<Rightarrow> (effect, string option) step" where
  "materialized_base w k j repository excluded =
     (if jb_materialize_source j \<and> \<not> in_source j repository \<and> \<not> wd_standard_git w repository
      then attempt (act (Collect_Source excluded (jb_expected_source_head j = []))
             (\<lambda>h. wk_collect k h repository excluded (jb_expected_source_head j = []))) (\<lambda>head. give (Some head))
      else give None)"

definition feedback_commits :: "worker \<Rightarrow> job \<Rightarrow> string \<Rightarrow> (effect, unit) step" where
  "feedback_commits k j repository = (case jb_feedback_workspace j of
     None \<Rightarrow> give ()
   | Some f \<Rightarrow> each_with (\<lambda>s _. check_ok (\<lambda>h. map_option (\<lambda>e. ''Feedback input commit is unavailable: '' @ e)
       (wk_missing_commit k h repository (fs_head s)))) (feedback_sources f) ())"

definition history_environment :: "job \<Rightarrow> bool" where
  "history_environment j \<longleftrightarrow> jb_history_edit j \<and> job_policy j \<noteq> None"

text \<open>Commits that were reclaimed are part of the source snapshot already.\<close>

definition input_heads :: "world \<Rightarrow> worker \<Rightarrow> job \<Rightarrow> string \<Rightarrow> string list \<Rightarrow> trace \<Rightarrow> string list" where
  "input_heads w k j repository given h =
     (let heads = (if history_environment j then []
            else (if jb_parent_heads j = [] then given else jb_parent_heads j) @ additional_heads j)
      in if in_source j repository then heads
         else filter (\<lambda>head. head \<noteq> []
           \<and> (wd_standard_git w repository \<or> wk_missing_commit k h repository head = None)) heads)"

text \<open>Continuations also receive what the Planner wrote into the source.\<close>

definition pin_source :: "worker \<Rightarrow> job \<Rightarrow> string \<Rightarrow> string \<Rightarrow> string \<Rightarrow> string list \<Rightarrow> (effect, string list) step" where
  "pin_source k j repository expected base heads =
     (if \<not> in_source j repository \<and> expected \<noteq> [] \<and> base \<noteq> expected \<and> \<not> history_environment j
      then and_then (act_ok (Pin_Head expected) (\<lambda>h. wk_pin k h repository expected))
             (give (if expected \<in> set heads then heads else heads @ [expected]))
      else give heads)"

definition inherited_head :: "worker \<Rightarrow> job \<Rightarrow> string \<Rightarrow> trace \<Rightarrow> string option" where
  "inherited_head k j repository h =
     (if in_source j repository then None else case wk_head k h (job_path j) of Inr head \<Rightarrow> Some head | Inl _ \<Rightarrow> None)"

definition carries_inputs :: "worker \<Rightarrow> job \<Rightarrow> string \<Rightarrow> string \<Rightarrow> trace \<Rightarrow> bool" where
  "carries_inputs k j expected head h \<longleftrightarrow>
     ((jb_parent_heads j \<noteq> [] \<and> head \<in> set (jb_parent_heads j))
      \<or> (1 < length (ex_workspace_lineage (jb_execution j)) \<and> jb_parent_heads j = []))
     \<and> (\<forall>parent \<in> set (jb_parent_heads j). wk_descends k h (job_path j) parent head)
     \<and> wk_descends k h (job_path j) expected head"

definition can_inherit :: "worker \<Rightarrow> job \<Rightarrow> string \<Rightarrow> string \<Rightarrow> string list \<Rightarrow> trace \<Rightarrow> bool" where
  "can_inherit k j repository expected excluded h \<longleftrightarrow> \<not> in_source j repository \<and> jb_inherit_workspace j
     \<and> \<not> jb_history_edit j \<and> expected \<noteq> []
     \<and> (case inherited_head k j repository h of Some head \<Rightarrow> carries_inputs k j expected head h | None \<Rightarrow> False)
     \<and> wk_status k h (job_path j) excluded = Inr [] \<and> \<not> wk_merging k h (job_path j)
     \<and> wk_tracked k h (job_path j) excluded = Inr False"

definition choose_base :: "worker \<Rightarrow> job \<Rightarrow> string \<Rightarrow> string option \<Rightarrow> string option \<Rightarrow> string \<Rightarrow> string
    \<Rightarrow> string list \<Rightarrow> string list \<Rightarrow> (effect, string) step" where
  "choose_base k j repository preserved adopted expected base heads excluded =
     (case preserved of
        Some head \<Rightarrow> give head
      | None \<Rightarrow> (case adopted of
          Some head \<Rightarrow> give head
        | None \<Rightarrow> attempt (look (\<lambda>h. (can_inherit k j repository expected excluded h, inherited_head k j repository h)))
            (\<lambda>(inherits, inherited).
              if inherits then give (case inherited of Some head \<Rightarrow> head | None \<Rightarrow> base)
              else if in_source j repository then give []
              else act (Compose base heads expected excluded) (\<lambda>h. wk_compose k h base heads expected excluded))))"

definition prepare_base :: "world \<Rightarrow> worker \<Rightarrow> job \<Rightarrow> string \<Rightarrow> string list \<Rightarrow> string option \<Rightarrow> string option \<Rightarrow> string list
    \<Rightarrow> (effect, string) step" where
  "prepare_base w k j repository given preserved adopted excluded =
     attempt (materialized_base w k j repository excluded) (\<lambda>materialized.
       let expected = (case materialized of Some head \<Rightarrow> head | None \<Rightarrow> jb_expected_source_head j);
           base = (case adopted of Some head \<Rightarrow> head
             | None \<Rightarrow> (case materialized of Some head \<Rightarrow> head | None \<Rightarrow> ex_before (jb_execution j)))
       in and_then (feedback_commits k j repository)
          (attempt (look (input_heads w k j repository given)) (\<lambda>heads.
           attempt (pin_source k j repository expected base heads) (\<lambda>heads.
             choose_base k j repository preserved adopted expected base heads excluded))))"

section \<open>Preparing, running, finishing\<close>

definition copy_baseline :: "worker \<Rightarrow> job \<Rightarrow> bool \<Rightarrow> string list \<Rightarrow> (effect, unit) step" where
  "copy_baseline k j reused excluded =
     attempt (look (\<lambda>h. wk_is_bound k h (job_path j))) (\<lambda>bound.
       case jb_copy_from_workspace j of
         Some source \<Rightarrow> only_if (\<not> reused \<and> \<not> bound)
           (act_ok (Copy_Files source excluded) (\<lambda>h. wk_copy k h source (job_path j) excluded))
       | None \<Rightarrow> give ())"

definition prepare_environment :: "worker \<Rightarrow> job \<Rightarrow> bool \<Rightarrow> composite_result option \<Rightarrow> string \<Rightarrow> (effect, composite_result option) step" where
  "prepare_environment k j reused selected before = (case job_policy j of
     None \<Rightarrow> give None
   | Some _ \<Rightarrow> attempt (ask (\<lambda>_. ok_or selected ''Missing managed environment input'')) (\<lambda>input.
       let fresh = (jb_history_edit j \<or> \<not> reused) in
       attempt (act (Prepare_Environment input before (jb_preserve_failed_environment j) fresh)
         (\<lambda>h. wk_prepare_environment k h input before (jb_preserve_failed_environment j) fresh)) (\<lambda>r. give (Some r))))"

definition fork_conversation :: "worker \<Rightarrow> job \<Rightarrow> (effect, unit) step" where
  "fork_conversation k j = (case jb_session_fork j of
     None \<Rightarrow> give ()
   | Some source \<Rightarrow>
       attempt (ask (\<lambda>h. fork_session (wk_session k) (wk_sessions k h (ex_id source)) (ex_session_id source) (ex_worktree source)
           (wk_session_exists k h (ex_id (jb_execution j))) (ex_session_id (jb_execution j)) (job_path j))) (\<lambda>forked.
         act_ok (Fork_Session (ex_id source) forked) (\<lambda>h. wk_write_session k h (ex_id (jb_execution j)) forked)))"

definition run_agent :: "worker \<Rightarrow> job \<Rightarrow> composite_result option \<Rightarrow> (effect, string) step" where
  "run_agent k j environment =
     (let view = (jb_execution j)\<lparr>ex_input := environment\<rparr> in
      attempt (act (Run_Agent view (jb_task j)) (\<lambda>h. wk_agent k h view (jb_task j))) (\<lambda>output.
        if jb_feedback_source j
        then act (Repair_Verdict view output) (\<lambda>h. wk_repair k h view output) else give output))"

definition session_owner :: "job \<Rightarrow> string" where
  "session_owner j = (case jb_resume_execution_id j of Some i \<Rightarrow> i | None \<Rightarrow> ex_id (jb_execution j))"

definition discover_result :: "worker \<Rightarrow> job \<Rightarrow> composite_result option \<Rightarrow> string list
    \<Rightarrow> (effect, composite_result option \<times> string list) step" where
  "discover_result k j environment excluded = (case environment of
     None \<Rightarrow> give (None, excluded)
   | Some input \<Rightarrow> attempt (act (Discover input (session_owner j)) (\<lambda>h. wk_discover k h (job_path j) input (session_owner j)))
       (\<lambda>found. attempt (add_exclusions k found excluded) (\<lambda>excluded. give (Some found, excluded))))"

definition take_snapshot :: "worker \<Rightarrow> job \<Rightarrow> string \<Rightarrow> string list \<Rightarrow> (effect, string) step" where
  "take_snapshot k j repository excluded =
     (if in_source j repository then give []
      else let scope = (if job_policy j \<noteq> None then Some excluded else None)
           in act (Snapshot scope) (\<lambda>h. wk_snapshot k h repository scope))"

definition record_changes :: "string \<Rightarrow> string \<Rightarrow> (effect, unit) step" where
  "record_changes before head = only_if (head \<noteq> [] \<and> before \<noteq> []) (act_ok (Record_Changes before head) (\<lambda>_. None))"

definition seal_environment :: "worker \<Rightarrow> job \<Rightarrow> string \<Rightarrow> composite_result option \<Rightarrow> string \<Rightarrow> (effect, unit) step" where
  "seal_environment k j repository found head = (case found of
     None \<Rightarrow> give ()
   | Some input \<Rightarrow> and_then (act_ok (Prove_Accelerator input) (\<lambda>h. wk_prove k h repository input))
       (attempt (act (Seal input head) (\<lambda>h. wk_seal k h (job_path j) input head)) (\<lambda>_. give ())))"

definition finish_work :: "worker \<Rightarrow> job \<Rightarrow> string \<Rightarrow> string \<Rightarrow> composite_result option \<Rightarrow> string list \<Rightarrow> string
    \<Rightarrow> (effect, string \<times> string) step" where
  "finish_work k j repository before environment excluded output =
     and_then (only_if (job_path j \<noteq> repository)
       (and_then (check_ok (\<lambda>h. wk_verify_ancestor k h (job_path j) before))
         (act_ok (Clear_Managed excluded) (\<lambda>h. wk_clear_index k h (job_path j) excluded))))
     (attempt (discover_result k j environment excluded) (\<lambda>(found, excluded).
      and_then (case job_policy j of Some c \<Rightarrow> check_ok (\<lambda>h. wk_check_tracked k h c (job_path j)) | None \<Rightarrow> give ())
      (attempt (take_snapshot k j repository excluded) (\<lambda>head.
       and_then (record_changes before head)
       (and_then (seal_environment k j repository found head) (give (head, output)))))))"

text \<open>From the durable announcement of the base on, a failed attempt can be recovered.\<close>

definition announce_and_run :: "worker \<Rightarrow> job \<Rightarrow> string \<Rightarrow> string \<Rightarrow> composite_result option \<Rightarrow> string list
    \<Rightarrow> (effect, string \<times> string) step" where
  "announce_and_run k j repository before environment excluded =
     and_then (act_ok (Announce before) (\<lambda>h. wk_announce k h before))
     (and_then (fork_conversation k j)
     (and_then (act_ok (Deliver_Attachments (jb_preserved_workspace j \<noteq> None))
         (\<lambda>h. wk_deliver k h (job_path j) (jb_preserved_workspace j \<noteq> None)))
     (attempt (run_agent k j environment) (\<lambda>output. finish_work k j repository before environment excluded output))))"

definition perform_prepared ::
  "world \<Rightarrow> worker \<Rightarrow> job \<Rightarrow> string list \<Rightarrow> string \<Rightarrow> bool \<Rightarrow> string option \<Rightarrow> (effect, string \<times> string) step" where
  "perform_prepared w k j given repository reused preserved =
     and_then (verify_reused k j repository reused preserved)
     (and_then (clear_index k j)
     (and_then (check_history k j)
     (attempt (with_environment k j reused) (\<lambda>(selected, excluded).
      attempt (check_feedback w k j repository excluded) (\<lambda>adopted.
      and_then (only_if (job_path j \<noteq> repository) (check_ok (\<lambda>_. wd_graph_native w)))
      (attempt (prepare_base w k j repository given preserved adopted excluded) (\<lambda>before.
       and_then (copy_baseline k j reused excluded)
       (attempt (prepare_environment k j reused selected before) (\<lambda>environment.
          announce_and_run k j repository before environment excluded)))))))))"

definition perform_in :: "world \<Rightarrow> worker \<Rightarrow> job \<Rightarrow> string list \<Rightarrow> string \<Rightarrow> (effect, string \<times> string) step" where
  "perform_in w k j given repository =
     and_then (check_directory w j repository)
     (attempt (look (\<lambda>h. wk_is_dir k h (job_path j))) (\<lambda>reused.
      attempt (preserved_head w k j repository reused) (\<lambda>preserved.
        perform_prepared w k j given repository reused preserved)))"

definition perform_with_merger :: "world \<Rightarrow> worker \<Rightarrow> job \<Rightarrow> string list \<Rightarrow> (effect, string \<times> string) step" where
  "perform_with_merger w k j given =
     and_then (case job_policy j of Some c \<Rightarrow> check_ok (\<lambda>_. wk_acquire k c) | None \<Rightarrow> give ())
     (attempt (ask (\<lambda>_. resolve_repository w (jb_config j))) (perform_in w k j given))"

end
