(* ===== verification/Worker_Correct.thy ===== *)
theory Worker_Correct
  imports Worker Sessions
begin

text \<open>
  What a worker never does, whatever Git, the file system and the agent answer: its effects come in one order and
  at most once each, the agent runs only after the base was announced durably, preserved work is never replaced,
  and a follow-up in the source directory never touches Git.
\<close>

section \<open>The order of effects\<close>

fun phase :: "effect \<Rightarrow> nat" where
  "phase (Clear_Index _) = 0"
| "phase (Rediscover _ _) = 1"
| "phase (Collect_Source _ _) = 2"
| "phase (Pin_Head _) = 3"
| "phase (Compose _ _ _ _) = 4"
| "phase (Copy_Files _ _) = 5"
| "phase (Prepare_Environment _ _ _ _) = 6"
| "phase (Announce _) = 7"
| "phase (Fork_Session _ _) = 8"
| "phase (Deliver_Attachments _) = 9"
| "phase (Run_Agent _ _) = 10"
| "phase (Repair_Verdict _ _) = 11"
| "phase (Clear_Managed _) = 12"
| "phase (Discover _ _) = 13"
| "phase (Snapshot _) = 14"
| "phase (Record_Changes _ _) = 15"
| "phase (Prove_Accelerator _) = 16"
| "phase (Seal _ _) = 17"

text \<open>Effects in order, all before phase \<open>n\<close> and all allowed.\<close>

definition in_order :: "(trace \<Rightarrow> effect \<Rightarrow> bool) \<Rightarrow> nat \<Rightarrow> trace \<Rightarrow> bool" where
  "in_order ok n h \<longleftrightarrow> sorted_wrt (\<lambda>a b. phase a < phase b) h \<and> (\<forall>e \<in> set h. phase e < n)
     \<and> (\<forall>a e b. h = a @ e # b \<longrightarrow> ok a e)"

lemma in_order_mono: "in_order ok n h \<Longrightarrow> n \<le> m \<Longrightarrow> in_order ok m h"
  by (auto simp: in_order_def)

lemma in_order_snoc:
  assumes "in_order ok n h" and "n \<le> phase e" and "ok h e"
  shows "in_order ok (Suc (phase e)) (h @ [e])"
proof -
  have "ok a x" if "h @ [e] = a @ x # b" for a x b
  proof (cases b rule: rev_cases)
    case (snoc c y)
    then show ?thesis using that assms(1) by (auto simp: in_order_def)
  qed (use that assms(3) in auto)
  then show ?thesis using assms by (fastforce simp: in_order_def sorted_wrt_append)
qed

abbreviation last_phase :: nat where "last_phase \<equiv> 18"

lemma phase_less: "phase e < last_phase"
  by (cases e) simp_all

text \<open>In order so far, with a fact about the trace.\<close>

definition upto :: "(trace \<Rightarrow> effect \<Rightarrow> bool) \<Rightarrow> nat \<Rightarrow> (trace \<Rightarrow> bool) \<Rightarrow> trace \<Rightarrow> bool" where
  "upto ok n S h \<longleftrightarrow> in_order ok n h \<and> S h"

lemma upto_mono: "upto ok n S h \<Longrightarrow> n \<le> m \<Longrightarrow> upto ok m S h"
  by (auto simp: upto_def intro: in_order_mono)

lemma upto_snoc:
  "upto ok n S h \<Longrightarrow> n \<le> phase e \<Longrightarrow> ok h e \<Longrightarrow> S' (h @ [e]) \<Longrightarrow> Suc (phase e) \<le> m \<Longrightarrow> upto ok m S' (h @ [e])"
  by (auto simp: upto_def intro: in_order_mono [OF in_order_snoc])

lemma upto_last: "upto ok n S h \<Longrightarrow> n \<le> phase e \<Longrightarrow> ok h e \<Longrightarrow> in_order ok last_phase (h @ [e])"
  using phase_less [of e] by (auto simp: upto_def Suc_le_eq intro: in_order_mono [OF in_order_snoc])

lemma act_upto:
  assumes "n \<le> phase e" and "\<And>h. S h \<Longrightarrow> ok h e" and "Suc (phase e) \<le> m" and "\<And>h. S h \<Longrightarrow> S' (h @ [e])"
  shows "holds (upto ok n S) (act e q) (\<lambda>_. upto ok m S') (in_order ok last_phase)"
    and "holds (upto ok n S) (act_ok e r) (\<lambda>_. upto ok m S') (in_order ok last_phase)"
proof -
  have "upto ok m S' (h @ [e])" "in_order ok last_phase (h @ [e])" if "upto ok n S h" for h
    using that upto_snoc [OF that assms(1) _ _ assms(3)] upto_last [OF that assms(1)] assms(2,4) by (auto simp: upto_def)
  then show "holds (upto ok n S) (act e q) (\<lambda>_. upto ok m S') (in_order ok last_phase)"
    and "holds (upto ok n S) (act_ok e r) (\<lambda>_. upto ok m S') (in_order ok last_phase)"
    by (auto simp: holds_def act_def act_ok_def split: sum.splits option.splits)
qed

lemma read_upto:
  assumes "reads s" and "n \<le> m" and "n \<le> last_phase"
  shows "holds (upto ok n S) s (\<lambda>_. upto ok m S) (in_order ok last_phase)"
  by (rule holds_weaken [OF holds_reads [OF assms(1)], where P = "upto ok n S"])
    (use assms(2,3) upto_mono in \<open>auto simp: upto_def intro: in_order_mono\<close>)

section \<open>What is allowed\<close>

text \<open>The announcement of some base has succeeded.\<close>

definition announced :: "worker \<Rightarrow> trace \<Rightarrow> bool" where
  "announced k h \<longleftrightarrow> (\<exists>a before b. h = a @ Announce before # b \<and> wk_announce k a before = None)"

definition kept_base :: "worker \<Rightarrow> job \<Rightarrow> string \<Rightarrow> bool" where
  "kept_base k j before \<longleftrightarrow> (jb_preserved_workspace j \<noteq> None \<longrightarrow> wk_head k [] (job_path j) = Inr before)"

definition allowed :: "world \<Rightarrow> worker \<Rightarrow> job \<Rightarrow> string \<Rightarrow> trace \<Rightarrow> effect \<Rightarrow> bool" where
  "allowed w k j repository h e = (case e of
     Clear_Index _ \<Rightarrow> job_policy j \<noteq> None
   | Rediscover _ _ \<Rightarrow> job_policy j \<noteq> None
   | Collect_Source _ _ \<Rightarrow> \<not> in_source j repository
   | Pin_Head _ \<Rightarrow> \<not> in_source j repository
   | Compose _ _ _ _ \<Rightarrow> \<not> in_source j repository \<and> jb_preserved_workspace j = None
   | Copy_Files _ _ \<Rightarrow> jb_preserved_workspace j = None \<and> \<not> wk_is_dir k [] (job_path j)
   | Prepare_Environment _ _ _ _ \<Rightarrow> job_policy j \<noteq> None
   | Announce before \<Rightarrow> kept_base k j before
   | Run_Agent _ _ \<Rightarrow> announced k h \<and> (job_path j = repository \<or> \<not> wd_same_path w (job_path j) repository)
   | Snapshot _ \<Rightarrow> \<not> in_source j repository \<and> announced k h
   | Record_Changes _ _ \<Rightarrow> \<not> in_source j repository
   | Clear_Managed _ \<Rightarrow> job_path j \<noteq> repository
   | Discover _ _ \<Rightarrow> job_policy j \<noteq> None
   | Prove_Accelerator _ \<Rightarrow> job_policy j \<noteq> None
   | Seal _ _ \<Rightarrow> job_policy j \<noteq> None
   | _ \<Rightarrow> True)"

section \<open>The steps\<close>

lemma reads_worker [step_rules]:
  "reads (check_directory w j repository)" "reads (preserved_head w k j repository reused)"
  "reads (verify_reused k j repository reused preserved)" "reads (check_history k j)"
  "reads (base_exclusions k j selected)" "reads (validate_sources k j reused selected excluded)"
  "reads (validate_input k j)" "reads (check_feedback w k j repository excluded)"
  "reads (feedback_commits k j repository)" "reads (add_exclusions k r excluded)"
  by (auto simp: check_directory_def preserved_head_def verify_reused_def check_history_def base_exclusions_def
      validate_sources_def validate_input_def check_feedback_def feedback_commits_def open_store_def early_exclusions_def
      check_source_def source_exclusions_def add_exclusions_def Let_def intro!: step_rules split: option.split)

lemma upto_weaken: "upto ok n S h \<Longrightarrow> n \<le> m \<Longrightarrow> (S h \<Longrightarrow> S' h) \<Longrightarrow> upto ok m S' h"
  unfolding upto_def using in_order_mono by blast

lemma give_upto: "n \<le> m \<Longrightarrow> (\<And>h. S h \<Longrightarrow> S' h) \<Longrightarrow> holds (upto ok n S) (give x) (\<lambda>_. upto ok m S') R"
  by (rule holds_give) (rule upto_weaken)

lemma only_if_upto:
  assumes "n \<le> phase e" and "\<And>h. c \<Longrightarrow> S h \<Longrightarrow> ok h e" and "Suc (phase e) \<le> m"
    and "\<And>h. S h \<Longrightarrow> S' (h @ [e])" and "\<And>h. S h \<Longrightarrow> S' h"
  shows "holds (upto ok n S) (only_if c (act_ok e r)) (\<lambda>_. upto ok m S') (in_order ok last_phase)"
proof (cases c)
  case True
  then show ?thesis using act_upto(2) [of n e S ok m S' r] assms by (simp add: only_if_def)
next
  case False
  then show ?thesis using assms by (auto simp: only_if_def intro: give_upto)
qed

text \<open>Reading first.\<close>

lemma read_first:
  assumes "reads s" and "n \<le> last_phase" and "\<And>x. holds (upto ok n S) (f x) Q (in_order ok last_phase)"
  shows "holds (upto ok n S) (attempt s f) Q (in_order ok last_phase)"
  by (rule holds_attempt [OF read_upto [OF assms(1) order_refl assms(2)] assms(3)])

lemma read_first':
  assumes "reads s" and "n \<le> last_phase" and "holds (upto ok n S) k Q (in_order ok last_phase)"
  shows "holds (upto ok n S) (and_then s k) Q (in_order ok last_phase)"
  unfolding and_then_def by (rule read_first [OF assms])

abbreviation course :: "world \<Rightarrow> worker \<Rightarrow> job \<Rightarrow> string \<Rightarrow> nat \<Rightarrow> (trace \<Rightarrow> bool) \<Rightarrow> trace \<Rightarrow> bool" where
  "course w k j repository n S \<equiv> upto (allowed w k j repository) n S"

abbreviation fails :: "world \<Rightarrow> worker \<Rightarrow> job \<Rightarrow> string \<Rightarrow> trace \<Rightarrow> bool" where
  "fails w k j repository \<equiv> in_order (allowed w k j repository) last_phase"

abbreviation nothing :: "trace \<Rightarrow> bool" where "nothing \<equiv> (\<lambda>_. True)"

lemma clear_index_upto:
  "holds (course w k j repository 0 nothing) (clear_index k j) (\<lambda>_. course w k j repository 1 nothing) (fails w k j repository)"
  unfolding clear_index_def
  by (intro holds_option give_upto read_first only_if_upto) (simp_all add: allowed_def step_rules)

lemma selected_environment_upto:
  "holds (course w k j repository 1 nothing) (selected_environment k j) (\<lambda>_. course w k j repository 2 nothing) (fails w k j repository)"
proof -
  have found: "holds (course w k j repository 1 nothing) (act (Rediscover input previous) q) (\<lambda>_. course w k j repository 2 nothing)
      (fails w k j repository)" if "job_policy j = Some c" for input previous q c
    by (rule act_upto) (simp_all add: allowed_def that)
  show ?thesis
  proof (cases "job_policy j")
    case None
    then show ?thesis by (auto simp: selected_environment_def intro: give_upto)
  next
    case (Some c)
    then show ?thesis
      unfolding selected_environment_def open_store_def
      by (intro holds_prod holds_option holds_if read_first' holds_attempt [OF found [OF Some]] give_upto) (simp_all add: step_rules)
  qed
qed

lemma with_environment_upto:
  "holds (course w k j repository 1 nothing) (with_environment k j reused) (\<lambda>_. course w k j repository 2 nothing) (fails w k j repository)"
  unfolding with_environment_def open_store_def
  by (intro holds_attempt [OF selected_environment_upto] holds_option read_first read_first' give_upto) (simp_all add: step_rules)

lemma materialized_base_upto:
  "holds (course w k j repository 2 nothing) (materialized_base w k j repository excluded) (\<lambda>_. course w k j repository 3 nothing)
     (fails w k j repository)"
proof -
  have "holds (course w k j repository 2 nothing) (act (Collect_Source excluded fresh) q) (\<lambda>_. course w k j repository 3 nothing)
      (fails w k j repository)" if "\<not> in_source j repository" for fresh q
    using that by (intro act_upto) (simp_all add: allowed_def)
  then show ?thesis
    unfolding materialized_base_def by (auto intro!: holds_attempt give_upto)
qed

lemma pin_source_upto:
  "holds (course w k j repository 3 nothing) (pin_source k j repository expected base heads) (\<lambda>_. course w k j repository 4 nothing)
     (fails w k j repository)"
proof -
  have "holds (course w k j repository 3 nothing) (act_ok (Pin_Head expected) r) (\<lambda>_. course w k j repository 4 nothing)
      (fails w k j repository)" if "\<not> in_source j repository" for r
    using that by (intro act_upto) (simp_all add: allowed_def)
  then show ?thesis
    unfolding pin_source_def by (auto intro!: holds_and_then give_upto)
qed

text \<open>Whether the directory exists, and the work preserved in it, was found out at the very start.\<close>

definition found_preserved :: "worker \<Rightarrow> job \<Rightarrow> bool \<Rightarrow> string option \<Rightarrow> bool" where
  "found_preserved k j reused preserved \<longleftrightarrow> reused = wk_is_dir k [] (job_path j) \<and> (jb_preserved_workspace j \<noteq> None \<longrightarrow>
     reused \<and> (\<exists>head. preserved = Some head \<and> wk_head k [] (job_path j) = Inr head))"

lemma give_base: "kept_base k j before \<Longrightarrow> n \<le> m \<Longrightarrow>
   holds (upto ok n S) (give before) (\<lambda>before. upto ok m (\<lambda>_. kept_base k j before)) R"
  by (rule holds_give) (rule upto_weaken)

lemma choose_base_upto:
  assumes "found_preserved k j reused preserved"
  shows "holds (course w k j repository 4 nothing) (choose_base k j repository preserved adopted expected base heads excluded)
     (\<lambda>before. course w k j repository 5 (\<lambda>_. kept_base k j before)) (fails w k j repository)"
proof (cases preserved)
  case (Some head)
  then have "kept_base k j head" using assms by (auto simp: found_preserved_def kept_base_def)
  then show ?thesis using Some by (simp add: choose_base_def give_base)
next
  case None
  then have none: "jb_preserved_workspace j = None" using assms by (auto simp: found_preserved_def)
  then have kept: "kept_base k j = (\<lambda>_. True)" by (simp add: kept_base_def fun_eq_iff)
  have "holds (course w k j repository 4 nothing) (act (Compose base heads expected excluded) q) (\<lambda>_. course w k j repository 5 nothing)
      (fails w k j repository)" if "\<not> in_source j repository" for q
    using that none by (intro act_upto) (simp_all add: allowed_def)
  then show ?thesis
    unfolding choose_base_def None kept
    by (auto intro!: holds_option give_upto read_first holds_prod holds_if simp: step_rules)
qed

lemma prepare_base_upto:
  assumes "found_preserved k j reused preserved"
  shows "holds (course w k j repository 2 nothing) (prepare_base w k j repository given preserved adopted excluded)
     (\<lambda>before. course w k j repository 5 (\<lambda>_. kept_base k j before)) (fails w k j repository)"
  unfolding prepare_base_def Let_def
  by (intro holds_attempt [OF materialized_base_upto] read_first read_first' holds_attempt [OF pin_source_upto]
      choose_base_upto [OF assms]) (simp_all add: step_rules)

lemma copy_baseline_upto:
  assumes "found_preserved k j reused preserved"
  shows "holds (course w k j repository 5 (\<lambda>_. F)) (copy_baseline k j reused excluded) (\<lambda>_. course w k j repository 6 (\<lambda>_. F))
     (fails w k j repository)"
proof -
  have "jb_preserved_workspace j = None \<and> \<not> wk_is_dir k [] (job_path j)" if "\<not> reused"
    using assms that by (auto simp: found_preserved_def)
  then show ?thesis
    unfolding copy_baseline_def
    by (intro read_first holds_option give_upto only_if_upto) (auto simp: allowed_def step_rules)
qed

text \<open>There is an environment only under a policy.\<close>

definition managed :: "job \<Rightarrow> composite_result option \<Rightarrow> bool" where
  "managed j environment \<longleftrightarrow> (environment \<noteq> None \<longrightarrow> job_policy j \<noteq> None)"

lemma holds_managed:
  assumes "managed j environment \<Longrightarrow> holds (upto ok n S) m Q R"
  shows "holds (upto ok n (\<lambda>h. S h \<and> managed j environment)) m Q R"
  by (rule holds_pure [where F = "managed j environment"], simp add: upto_def,
      rule holds_weaken [OF assms]) (simp_all add: upto_def)

lemma prepare_environment_upto:
  "holds (course w k j repository 6 (\<lambda>_. F)) (prepare_environment k j reused selected before)
     (\<lambda>environment. course w k j repository 7 (\<lambda>_. F \<and> managed j environment)) (fails w k j repository)"
proof (cases "job_policy j")
  case None
  then show ?thesis by (simp add: prepare_environment_def managed_def) (rule holds_give, erule upto_weaken, simp_all)
next
  case (Some c)
  then have managed: "managed j = (\<lambda>_. True)" by (simp add: managed_def fun_eq_iff)
  have "holds (course w k j repository 6 (\<lambda>_. F)) (act (Prepare_Environment input before keep fresh) q)
      (\<lambda>_. course w k j repository 7 (\<lambda>_. F)) (fails w k j repository)" for input keep fresh q
    by (rule act_upto) (simp_all add: allowed_def Some)
  then show ?thesis
    unfolding prepare_environment_def Let_def managed
    by (intro holds_option give_upto read_first holds_attempt) (auto simp: step_rules intro: give_upto)
qed

lemma announced_snoc: "announced k h \<Longrightarrow> announced k (h @ [e])"
  unfolding announced_def by (metis append.assoc append_Cons)

lemma announce_upto:
  "holds (course w k j repository 7 (\<lambda>_. kept_base k j before)) (act_ok (Announce before) (\<lambda>h. wk_announce k h before))
     (\<lambda>_. course w k j repository 8 (announced k)) (fails w k j repository)"
proof -
  have "holds (course w k j repository 7 (\<lambda>_. kept_base k j before)) (act_ok (Announce before) (\<lambda>h. wk_announce k h before))
      (\<lambda>_. course w k j repository 8 nothing) (fails w k j repository)"
    by (rule act_upto) (simp_all add: allowed_def)
  moreover have "announced k (h @ [Announce before])" if "wk_announce k h before = None" for h
    using that unfolding announced_def by (metis append_Nil2)
  ultimately show ?thesis by (auto simp: holds_def act_ok_def upto_def split: option.splits)
qed

lemma fork_upto:
  "holds (course w k j repository 8 (announced k)) (fork_conversation k j) (\<lambda>_. course w k j repository 9 (announced k)) (fails w k j repository)"
proof -
  have "holds (course w k j repository 8 (announced k)) (act_ok (Fork_Session a b) r)
      (\<lambda>_. course w k j repository 9 (announced k)) (fails w k j repository)" for a b r
    by (rule act_upto) (simp_all add: allowed_def announced_snoc)
  then show ?thesis
    unfolding fork_conversation_def by (intro holds_option give_upto read_first) (simp_all add: step_rules)
qed

text \<open>An agent ran, after an announcement.\<close>

definition agent_ran :: "worker \<Rightarrow> trace \<Rightarrow> bool" where
  "agent_ran k h \<longleftrightarrow> announced k h \<and> (\<exists>view task. Run_Agent view task \<in> set h)"

lemma agent_ran_snoc: "agent_ran k h \<Longrightarrow> agent_ran k (h @ [e])"
  by (auto simp: agent_ran_def announced_snoc)

text \<open>An isolated directory is not the source.\<close>

definition apart_from_source :: "world \<Rightarrow> job \<Rightarrow> string \<Rightarrow> bool" where
  "apart_from_source w j repository \<longleftrightarrow> job_path j = repository \<or> \<not> wd_same_path w (job_path j) repository"

lemma run_agent_upto:
  assumes "apart_from_source w j repository"
  shows "holds (course w k j repository 10 (announced k)) (run_agent k j environment) (\<lambda>_. course w k j repository 12 (agent_ran k))
    (fails w k j repository)"
proof -
  have run: "holds (course w k j repository 10 (announced k)) (act (Run_Agent view task) q) (\<lambda>_. course w k j repository 11 (agent_ran k))
      (fails w k j repository)" for view task q
    by (rule act_upto) (use assms in \<open>auto simp: allowed_def apart_from_source_def agent_ran_def announced_snoc\<close>)
  have repair: "holds (course w k j repository 11 (agent_ran k)) (act (Repair_Verdict view out) q) (\<lambda>_. course w k j repository 12 (agent_ran k))
      (fails w k j repository)" for view out q
    by (rule act_upto) (simp_all add: allowed_def agent_ran_snoc)
  show ?thesis
    unfolding run_agent_def Let_def by (intro holds_attempt [OF run] holds_if repair give_upto) simp_all
qed

lemma discover_upto:
  assumes "managed j environment"
  shows "holds (course w k j repository 13 (agent_ran k)) (discover_result k j environment excluded)
    (\<lambda>x. course w k j repository 14 (\<lambda>h. agent_ran k h \<and> managed j (fst x))) (fails w k j repository)"
proof (cases environment)
  case None
  then show ?thesis by (simp add: discover_result_def managed_def) (rule holds_give, erule upto_weaken, simp_all)
next
  case (Some input)
  with assms have policy: "job_policy j \<noteq> None" by (simp add: managed_def)
  then have managed: "managed j = (\<lambda>_. True)" by (simp add: managed_def fun_eq_iff)
  have find: "holds (course w k j repository 13 (agent_ran k)) (act (Discover input i) q) (\<lambda>_. course w k j repository 14 (agent_ran k))
      (fails w k j repository)" for input i q
    by (rule act_upto) (simp_all add: allowed_def agent_ran_snoc policy)
  show ?thesis
    unfolding discover_result_def managed
    by (simp add: Some) (intro give_upto holds_attempt [OF find] read_first, simp_all add: step_rules)
qed

text \<open>A head comes only from an isolated directory.\<close>

lemma snapshot_upto:
  "holds (course w k j repository 14 (agent_ran k)) (take_snapshot k j repository excluded)
     (\<lambda>head. course w k j repository 15 (\<lambda>h. agent_ran k h \<and> (in_source j repository \<longrightarrow> head = []))) (fails w k j repository)"
proof (cases "in_source j repository")
  case True
  then show ?thesis by (simp add: take_snapshot_def) (rule holds_give, erule upto_weaken, simp_all)
next
  case False
  then have "holds (course w k j repository 14 (agent_ran k)) (act (Snapshot scope) q) (\<lambda>_. course w k j repository 15 (agent_ran k))
      (fails w k j repository)" for scope and q :: "trace \<Rightarrow> string + string"
    by (intro act_upto) (auto simp: allowed_def agent_ran_snoc, simp_all add: agent_ran_def)
  with False show ?thesis by (simp add: take_snapshot_def Let_def)
qed

lemma record_upto:
  "holds (course w k j repository 15 (\<lambda>h. agent_ran k h \<and> (in_source j repository \<longrightarrow> head = []))) (record_changes before head)
     (\<lambda>_. course w k j repository 16 (\<lambda>h. agent_ran k h \<and> (in_source j repository \<longrightarrow> head = []))) (fails w k j repository)"
  unfolding record_changes_def by (rule only_if_upto) (auto simp: allowed_def agent_ran_snoc)

lemma seal_upto:
  assumes "managed j found"
  shows "holds (course w k j repository 16 (\<lambda>h. agent_ran k h \<and> F)) (seal_environment k j repository found head)
     (\<lambda>_. course w k j repository 18 (\<lambda>h. agent_ran k h \<and> F)) (fails w k j repository)"
proof -
  have prove: "holds (course w k j repository 16 (\<lambda>h. agent_ran k h \<and> F)) (act_ok (Prove_Accelerator input) r)
      (\<lambda>_. course w k j repository 17 (\<lambda>h. agent_ran k h \<and> F)) (fails w k j repository)" if "job_policy j \<noteq> None" for input r
    by (rule act_upto) (simp_all add: allowed_def agent_ran_snoc that)
  have seal: "holds (course w k j repository 17 (\<lambda>h. agent_ran k h \<and> F)) (act (Seal input head) q)
      (\<lambda>_. course w k j repository 18 (\<lambda>h. agent_ran k h \<and> F)) (fails w k j repository)" if "job_policy j \<noteq> None" for input q
    by (rule act_upto) (simp_all add: allowed_def agent_ran_snoc that)
  show ?thesis
    unfolding seal_environment_def using assms
    by (intro holds_option holds_and_then [OF prove] holds_attempt [OF seal] give_upto) (auto simp: managed_def)
qed

lemma clear_managed_upto:
  "holds (course w k j repository 12 (agent_ran k))
     (only_if (job_path j \<noteq> repository) (and_then (check_ok q) (act_ok (Clear_Managed excluded) r)))
     (\<lambda>_. course w k j repository 13 (agent_ran k)) (fails w k j repository)"
proof -
  have clear: "holds (course w k j repository 12 (agent_ran k)) (act_ok (Clear_Managed excluded) r)
      (\<lambda>_. course w k j repository 13 (agent_ran k)) (fails w k j repository)" if "job_path j \<noteq> repository"
    by (rule act_upto) (simp_all add: allowed_def agent_ran_snoc that)
  show ?thesis
    by (intro holds_only_if read_first' clear) (simp_all add: step_rules, rule upto_mono, assumption, simp)
qed

text \<open>What a finished worker reports.\<close>

definition reported :: "worker \<Rightarrow> job \<Rightarrow> string \<Rightarrow> string \<times> string \<Rightarrow> trace \<Rightarrow> bool" where
  "reported k j repository result h \<longleftrightarrow> agent_ran k h \<and> (in_source j repository \<longrightarrow> fst result = [])"

lemma finish_work_upto:
  assumes "managed j environment"
  shows "holds (course w k j repository 12 (agent_ran k)) (finish_work k j repository before environment excluded out)
     (\<lambda>result. course w k j repository 18 (reported k j repository result)) (fails w k j repository)"
  unfolding finish_work_def
proof (rule holds_and_then [OF clear_managed_upto], rule holds_attempt [OF discover_upto [OF assms]], rule holds_prod,
    rule holds_managed, rule read_first')
  fix x :: "composite_result option \<times> string list" and found excluded
  assume x: "x = (found, excluded)" and "managed j (fst x)"
  then have found: "managed j found" by simp
  show "reads (case job_policy j of Some c \<Rightarrow> check_ok (\<lambda>h. wk_check_tracked k h c (job_path j)) | None \<Rightarrow> give ())"
    by (auto intro: step_rules split: option.split)
  show "holds (course w k j repository 14 (agent_ran k))
      (attempt (take_snapshot k j repository excluded) (\<lambda>head. and_then (record_changes before head)
        (and_then (seal_environment k j repository found head) (give (head, out)))))
      (\<lambda>result. course w k j repository 18 (reported k j repository result)) (fails w k j repository)"
    by (intro holds_attempt [OF snapshot_upto] holds_and_then [OF record_upto] holds_and_then [OF seal_upto [OF found]] holds_give)
      (erule upto_weaken, simp_all add: reported_def)
qed simp

lemma announce_and_run_upto:
  assumes "apart_from_source w j repository"
  shows "holds (course w k j repository 7 (\<lambda>_. kept_base k j before \<and> managed j environment))
    (announce_and_run k j repository before environment excluded)
    (\<lambda>result. course w k j repository 18 (reported k j repository result)) (fails w k j repository)"
proof (rule holds_managed)
  assume environment: "managed j environment"
  have deliver: "holds (course w k j repository 9 (announced k)) (act_ok (Deliver_Attachments b) r)
      (\<lambda>_. course w k j repository 10 (announced k)) (fails w k j repository)" for b r
    by (rule act_upto) (simp_all add: allowed_def announced_snoc)
  show "holds (course w k j repository 7 (\<lambda>_. kept_base k j before)) (announce_and_run k j repository before environment excluded)
    (\<lambda>result. course w k j repository 18 (reported k j repository result)) (fails w k j repository)"
    unfolding announce_and_run_def
    by (intro holds_and_then [OF announce_upto] holds_and_then [OF fork_upto] holds_and_then [OF deliver]
        holds_attempt [OF run_agent_upto [OF assms]] finish_work_upto [OF environment])
qed

section \<open>The whole worker\<close>

lemma check_directory_apart:
  "holds (\<lambda>h. h = []) (check_directory w j repository) (\<lambda>_ h. h = [] \<and> apart_from_source w j repository) (\<lambda>h. h = [])"
  by (auto simp: holds_def check_directory_def and_then_def attempt_def demand_def apart_from_source_def Let_def)

lemma preserved_head_found:
  assumes reused: "reused = wk_is_dir k [] (job_path j)"
  shows "holds (\<lambda>h. h = []) (preserved_head w k j repository reused) (\<lambda>preserved h. h = [] \<and> found_preserved k j reused preserved) (\<lambda>h. h = [])"
proof (cases "jb_preserved_workspace j")
  case None
  then show ?thesis using reused by (simp add: preserved_head_def holds_def give_def found_preserved_def)
next
  case (Some previous)
  have "found_preserved k j reused preserved"
    if "preserved_head w k j repository reused [] = (Inr preserved, h)" for preserved h
    using that Some reused
    by (auto simp: preserved_head_def found_preserved_def and_then_def attempt_def demand_def check_ok_def ask_def give_def
        recovery_matches_def split: sum.splits option.splits if_splits)
  moreover have "snd (preserved_head w k j repository reused []) = []" using reads_worker(2) by (simp add: reads_def)
  ultimately show ?thesis by (auto simp: holds_def split: prod.splits sum.splits)
qed

lemma start_upto: "h = [] \<Longrightarrow> upto ok 0 nothing h"
  by (simp add: upto_def in_order_def)

lemma prepared_upto:
  assumes "apart_from_source w j repository" and "found_preserved k j reused preserved"
  shows "holds (course w k j repository 0 nothing) (perform_prepared w k j given repository reused preserved)
     (\<lambda>result. course w k j repository 18 (reported k j repository result)) (fails w k j repository)"
  unfolding perform_prepared_def
  by (intro read_first' holds_and_then [OF clear_index_upto] holds_attempt [OF with_environment_upto] holds_prod read_first
      holds_attempt [OF prepare_base_upto [OF assms(2)]] holds_and_then [OF copy_baseline_upto [OF assms(2)]]
      holds_attempt [OF prepare_environment_upto] announce_and_run_upto [OF assms(1)]) (simp_all add: step_rules)

lemma perform_in_upto:
  "holds (\<lambda>h. h = []) (perform_in w k j given repository) (\<lambda>result. course w k j repository 18 (reported k j repository result))
     (fails w k j repository)"
proof -
  have fails: "\<And>h. h = [] \<Longrightarrow> fails w k j repository h" by (simp add: in_order_def)
  have apart: "holds (\<lambda>h. h = []) (check_directory w j repository) (\<lambda>_ h. h = [] \<and> apart_from_source w j repository) (fails w k j repository)"
    by (rule holds_weaken [OF check_directory_apart]) (use fails in auto)
  have found: "holds (\<lambda>h. h = [] \<and> reused = wk_is_dir k [] (job_path j)) (preserved_head w k j repository reused)
      (\<lambda>preserved h. h = [] \<and> found_preserved k j reused preserved) (fails w k j repository)" for reused
    by (rule holds_pure [where F = "reused = wk_is_dir k [] (job_path j)"], simp,
        rule holds_weaken [OF preserved_head_found]) (use fails in auto)
  have looked: "holds (\<lambda>h. h = []) (look (\<lambda>h. wk_is_dir k h (job_path j)))
      (\<lambda>reused h. h = [] \<and> reused = wk_is_dir k [] (job_path j)) (fails w k j repository)"
    by (simp add: holds_def look_def)
  have prepared: "holds (\<lambda>h. h = [] \<and> found_preserved k j reused preserved) (perform_prepared w k j given repository reused preserved)
      (\<lambda>result. course w k j repository 18 (reported k j repository result)) (fails w k j repository)"
    if "apart_from_source w j repository" for reused preserved
  proof (rule holds_pure [where F = "found_preserved k j reused preserved"], simp)
    assume "found_preserved k j reused preserved"
    from prepared_upto [OF that this] show "holds (\<lambda>h. h = [] \<and> found_preserved k j reused preserved)
        (perform_prepared w k j given repository reused preserved)
        (\<lambda>result. course w k j repository 18 (reported k j repository result)) (fails w k j repository)"
      by (rule holds_weaken) (simp_all add: start_upto)
  qed
  have rest: "holds (\<lambda>h. h = [] \<and> apart_from_source w j repository)
      (attempt (look (\<lambda>h. wk_is_dir k h (job_path j))) (\<lambda>reused.
        attempt (preserved_head w k j repository reused) (\<lambda>preserved. perform_prepared w k j given repository reused preserved)))
      (\<lambda>result. course w k j repository 18 (reported k j repository result)) (fails w k j repository)"
  proof (rule holds_pure [where F = "apart_from_source w j repository"], simp)
    assume "apart_from_source w j repository"
    note steps = holds_attempt [OF looked holds_attempt [OF found prepared [OF this]]]
    show "holds (\<lambda>h. h = [] \<and> apart_from_source w j repository)
      (attempt (look (\<lambda>h. wk_is_dir k h (job_path j))) (\<lambda>reused.
        attempt (preserved_head w k j repository reused) (\<lambda>preserved. perform_prepared w k j given repository reused preserved)))
      (\<lambda>result. course w k j repository 18 (reported k j repository result)) (fails w k j repository)"
      by (rule holds_weaken [OF steps]) simp_all
  qed
  show ?thesis unfolding perform_in_def by (rule holds_and_then [OF apart rest])
qed

lemma perform_upto:
  assumes "perform_with_merger w k j given [] = (r, h)"
  shows "(case r of
      Inl e \<Rightarrow> \<exists>repository. in_order (allowed w k j repository) last_phase h \<and> (h \<noteq> [] \<longrightarrow> resolve_repository w (jb_config j) = Inr repository)
    | Inr result \<Rightarrow> \<exists>repository. resolve_repository w (jb_config j) = Inr repository
        \<and> in_order (allowed w k j repository) last_phase h \<and> reported k j repository result h)"
proof -
  have empty: "in_order ok n []" for ok n by (simp add: in_order_def)
  show ?thesis
  proof (cases "case job_policy j of Some c \<Rightarrow> wk_acquire k c | None \<Rightarrow> None")
    case (Some e)
    then show ?thesis using assms empty
      by (auto simp: perform_with_merger_def and_then_def attempt_def check_ok_def split: option.splits)
  next
    case None
    then have run: "attempt (ask (\<lambda>_. resolve_repository w (jb_config j))) (perform_in w k j given) [] = (r, h)"
      using assms by (auto simp: perform_with_merger_def and_then_def attempt_def check_ok_def give_def split: option.splits)
    show ?thesis
    proof (cases "resolve_repository w (jb_config j)")
      case (Inl e)
      then show ?thesis using run empty by (auto simp: attempt_def ask_def)
    next
      case (Inr repository)
      then have "perform_in w k j given repository [] = (r, h)" using run by (simp add: attempt_def ask_def)
      then show ?thesis using perform_in_upto [of w k j given repository] Inr
        by (auto simp: holds_def upto_def split: sum.splits)
    qed
  qed
qed

lemma perform_allowed:
  assumes "perform_with_merger w k j given [] = (r, h)" and "h = a @ e # b"
  shows "\<exists>repository. resolve_repository w (jb_config j) = Inr repository \<and> allowed w k j repository a e"
  using perform_upto [OF assms(1)] assms(2) by (auto simp: in_order_def split: sum.splits)

lemma perform_member:
  assumes "perform_with_merger w k j given [] = (r, h)" and "e \<in> set h"
  shows "\<exists>repository a. resolve_repository w (jb_config j) = Inr repository \<and> allowed w k j repository a e"
  using perform_allowed [OF assms(1)] split_list [OF assms(2)] by blast

section \<open>The guarantees\<close>

text \<open>C29: Whatever the world answers, a worker does each kind of thing at most once and in one order: it collects and
  pins the source, composes, copies and prepares the environment, announces the base, brings the conversation and
  the attachments, runs the agent, and only then takes a snapshot and seals.  The agent runs and a snapshot is
  taken only after the announcement of the base has succeeded, and a result is only reported of an agent that ran.\<close>

theorem worker_runs_announced:
  assumes "perform_with_merger w k j given [] = (r, h)"
  shows "sorted_wrt (\<lambda>a b. phase a < phase b) h
     \<and> (\<forall>a view task b. h = a @ Run_Agent view task # b \<longrightarrow> announced k a)
     \<and> (\<forall>a scope b. h = a @ Snapshot scope # b \<longrightarrow> announced k a)
     \<and> (\<forall>result. r = Inr result \<longrightarrow> (\<exists>view task. Run_Agent view task \<in> set h))"
proof (intro conjI allI impI)
  show "sorted_wrt (\<lambda>a b. phase a < phase b) h" using perform_upto [OF assms] by (auto simp: in_order_def split: sum.splits)
  show "announced k a" if "h = a @ Run_Agent view task # b" for a view task b
    using perform_allowed [OF assms that] by (auto simp: allowed_def)
  show "announced k a" if "h = a @ Snapshot scope # b" for a scope b
    using perform_allowed [OF assms that] by (auto simp: allowed_def)
  show "\<exists>view task. Run_Agent view task \<in> set h" if "r = Inr result" for result
    using perform_upto [OF assms] that by (auto simp: reported_def agent_ran_def)
qed

text \<open>C30: The work a failed attempt left in its directory is never composed again or overwritten by a copy: the base
  that is announced for its recovery is the head that was found there before the worker did anything.\<close>

theorem worker_keeps_preserved_work:
  assumes "perform_with_merger w k j given [] = (r, h)" and "jb_preserved_workspace j \<noteq> None"
  shows "(\<forall>base heads expected excluded. Compose base heads expected excluded \<notin> set h)
     \<and> (\<forall>source excluded. Copy_Files source excluded \<notin> set h)
     \<and> (\<forall>before. Announce before \<in> set h \<longrightarrow> wk_head k [] (job_path j) = Inr before)"
  using perform_member [OF assms(1)] assms(2) by (fastforce simp: allowed_def kept_base_def)

text \<open>All that a follow-up may do in the source; the managed environment is only touched under a policy.\<close>

definition follow_up_effect :: "worker \<Rightarrow> job \<Rightarrow> string \<Rightarrow> effect \<Rightarrow> bool" where
  "follow_up_effect k j repository e = (case e of
     Announce _ \<Rightarrow> True
   | Fork_Session _ _ \<Rightarrow> True
   | Deliver_Attachments _ \<Rightarrow> True
   | Run_Agent _ _ \<Rightarrow> True
   | Repair_Verdict _ _ \<Rightarrow> True
   | Copy_Files _ _ \<Rightarrow> \<not> wk_is_dir k [] (job_path j)
   | Clear_Managed _ \<Rightarrow> job_path j \<noteq> repository
   | Clear_Index _ \<Rightarrow> job_policy j \<noteq> None
   | Rediscover _ _ \<Rightarrow> job_policy j \<noteq> None
   | Prepare_Environment _ _ _ _ \<Rightarrow> job_policy j \<noteq> None
   | Discover _ _ \<Rightarrow> job_policy j \<noteq> None
   | Prove_Accelerator _ \<Rightarrow> job_policy j \<noteq> None
   | Seal _ _ \<Rightarrow> job_policy j \<noteq> None
   | _ \<Rightarrow> False)"

text \<open>C31: A follow-up in the source directory never collects, pins or composes commits, takes no snapshot, records no
  changes and reports no head.  It copies files only into a directory that did not exist, clears managed files
  only where the directory is not the source itself, and touches the index and the environment only under an
  environment policy; so without a policy all it does in an existing source is to announce its base, fork the
  conversation, deliver the attachments, run the agent and have its verdict repaired.  And an agent never runs in a
  directory that only resolves to the source.\<close>

theorem worker_spares_source:
  assumes "perform_with_merger w k j given [] = (r, h)" and "resolve_repository w (jb_config j) = Inr repository"
  shows "(in_source j repository \<longrightarrow>
       (\<forall>e \<in> set h. follow_up_effect k j repository e) \<and> (\<forall>head out. r = Inr (head, out) \<longrightarrow> head = []))
     \<and> (\<forall>view task. Run_Agent view task \<in> set h \<longrightarrow> job_path j = repository \<or> \<not> wd_same_path w (job_path j) repository)"
proof -
  have ok: "\<exists>a. allowed w k j repository a e" if "e \<in> set h" for e
    using perform_member [OF assms(1) that] assms(2) by auto
  have "head = []" if "in_source j repository" "r = Inr (head, out)" for head out
    using perform_upto [OF assms(1)] assms(2) that by (auto simp: reported_def)
  moreover have "follow_up_effect k j repository e" if "in_source j repository" "e \<in> set h" for e
    using ok [OF that(2)] that(1) by (cases e) (simp_all add: allowed_def follow_up_effect_def)
  moreover have "job_path j = repository \<or> \<not> wd_same_path w (job_path j) repository" if "Run_Agent view task \<in> set h" for view task
    using ok [OF that] by (auto simp: allowed_def)
  ultimately show ?thesis by blast
qed

section \<open>Sample jobs\<close>

text \<open>A private directory of node \<open>a\<close>, in a world where everything succeeds.\<close>

definition sample_job :: job where
  "sample_job = \<lparr>jb_execution = sample_attempt ''e1'' ''a'', jb_run_id = ''r'', jb_parent_heads = [''h1''], jb_config = sample_config,
     jb_task = ''t'', jb_attachment_instructions = [], jb_images = None, jb_resume_execution_id = None, jb_session_fork = None,
     jb_feedback_workspace = None, jb_feedback_repair_retry = False, jb_inherit_workspace = False, jb_preserved_workspace = None,
     jb_copy_from_workspace = None, jb_history_edit = False, jb_feedback_source = False, jb_materialize_source = False,
     jb_source_direct = False, jb_expected_source_head = ''h0'', jb_environment_input = None, jb_environment_sources = [],
     jb_environment_previous = None, jb_previous_environment_launch = None, jb_preserve_failed_environment = False,
     jb_continuation = False, jb_initial_recovery = False\<rparr>"

definition sample_recovery :: job where
  "sample_recovery = sample_job\<lparr>jb_preserved_workspace := Some (sample_attempt ''e0'' ''a'')\<rparr>"

definition sample_source_job :: job where
  "sample_source_job = sample_job\<lparr>jb_execution := (sample_attempt ''e1'' ''a'')\<lparr>ex_worktree := ''r''\<rparr>, jb_source_direct := True\<rparr>"

definition sample_worker :: worker where
  "sample_worker = \<lparr>wk_is_dir = (\<lambda>_ _. True), wk_verify_ancestor = (\<lambda>_ _ _. None), wk_missing_commit = (\<lambda>_ _ _. None),
     wk_is_bound = (\<lambda>_ _. False), wk_has_record = (\<lambda>_ _ _. True), wk_descends = (\<lambda>_ _ _ _. True), wk_head = (\<lambda>_ _. Inr ''left''),
     wk_open_store = (\<lambda>_. None), wk_exclusions = (\<lambda>_ _. Inr []), wk_verify_result = (\<lambda>_ _ _ _ _. None),
     wk_private_git = (\<lambda>_ _. True), wk_clear_index = (\<lambda>_ _ _. None), wk_history_scopes = (\<lambda>_ _ _. None),
     wk_discover = (\<lambda>_ _ r _. Inr r), wk_validate_result = (\<lambda>_ _. None), wk_verify_view = (\<lambda>_ _ _ _. None),
     wk_load_after = (\<lambda>_ _. Inl ''none''), wk_owner = (\<lambda>_. None), wk_bucket = (\<lambda>_. None), wk_status = (\<lambda>_ _ _. Inr []),
     wk_collect = (\<lambda>_ _ _ _. Inr ''h0''), wk_pin = (\<lambda>_ _ _. None), wk_merging = (\<lambda>_ _. False), wk_tracked = (\<lambda>_ _ _. Inr False),
     wk_compose = (\<lambda>_ _ _ _ _. Inr ''composed''), wk_copy = (\<lambda>_ _ _ _. None), wk_prepare_environment = (\<lambda>_ r _ _ _. Inr r),
     wk_announce = (\<lambda>_ _. None), wk_session = \<lparr>si_uuid = (\<lambda>_. True), si_parse = (\<lambda>_. Inl []), si_render = (\<lambda>_. []), si_same_path = (=),
       si_actual_path = Inr, si_host_path = id, si_write = (\<lambda>t s. (None, t @ s)), si_truncate = None\<rparr>,
     wk_sessions = (\<lambda>_ _. Inr []), wk_session_exists = (\<lambda>_ _. False), wk_write_session = (\<lambda>_ _ _. None), wk_deliver = (\<lambda>_ _ _. None),
     wk_agent = (\<lambda>_ _ _. Inr ''answer''), wk_repair = (\<lambda>_ _ out. Inr out), wk_check_tracked = (\<lambda>_ _ _. None),
     wk_snapshot = (\<lambda>_ _ _. Inr ''h2''), wk_prove = (\<lambda>_ _ _. None), wk_seal = (\<lambda>_ _ r _. Inr r), wk_acquire = (\<lambda>_. None)\<rparr>"

lemma worker_runs_announced_witness:
  "\<exists>h. perform_with_merger sample_world sample_worker sample_job [] [] = (Inr (''h2'', ''answer''), h)
     \<and> sorted_wrt (\<lambda>a b. phase a < phase b) h \<and> (\<exists>view task. Run_Agent view task \<in> set h)"
proof -
  have "fst (perform_with_merger sample_world sample_worker sample_job [] []) = Inr (''h2'', ''answer'')" by code_simp
  then obtain h where h: "perform_with_merger sample_world sample_worker sample_job [] [] = (Inr (''h2'', ''answer''), h)"
    by (metis surjective_pairing)
  note facts = worker_runs_announced [OF h]
  have "sorted_wrt (\<lambda>a b. phase a < phase b) h \<and> (\<exists>view task. Run_Agent view task \<in> set h)" using facts by auto
  with h show ?thesis by (intro exI [of _ h] conjI) simp_all
qed

lemma worker_keeps_preserved_work_witness:
  "\<exists>h. perform_with_merger sample_world sample_worker sample_recovery [] [] = (Inr (''h2'', ''answer''), h)
     \<and> (\<forall>before. Announce before \<in> set h \<longrightarrow> wk_head sample_worker [] (job_path sample_recovery) = Inr before)"
proof -
  have "fst (perform_with_merger sample_world sample_worker sample_recovery [] []) = Inr (''h2'', ''answer'')" by code_simp
  then obtain h where h: "perform_with_merger sample_world sample_worker sample_recovery [] [] = (Inr (''h2'', ''answer''), h)"
    by (metis surjective_pairing)
  have "jb_preserved_workspace sample_recovery \<noteq> None" by (simp add: sample_recovery_def)
  from worker_keeps_preserved_work [OF h this] h show ?thesis by blast
qed

lemma worker_spares_source_witness:
  "\<exists>h. perform_with_merger sample_world sample_worker sample_source_job [] [] = (Inr ([], ''answer''), h)
     \<and> in_source sample_source_job ''r'' \<and> list_all (follow_up_effect sample_worker sample_source_job ''r'') h
     \<and> map phase h = [7, 9, 10]"
proof -
  have facts: "fst (perform_with_merger sample_world sample_worker sample_source_job [] []) = Inr ([], ''answer'')"
    "resolve_repository sample_world (jb_config sample_source_job) = Inr ''r''" "in_source sample_source_job ''r''" by code_simp+
  then obtain h where h: "perform_with_merger sample_world sample_worker sample_source_job [] [] = (Inr ([], ''answer''), h)"
    by (metis surjective_pairing)
  have "list_all (follow_up_effect sample_worker sample_source_job ''r'') h"
    using worker_spares_source [OF h facts(2)] facts(3) by (auto simp: list_all_iff)
  moreover have "map phase (snd (perform_with_merger sample_world sample_worker sample_source_job [] [])) = [7, 9, 10]" by code_simp
  then have "map phase h = [7, 9, 10]" by (simp add: h)
  ultimately have "list_all (follow_up_effect sample_worker sample_source_job ''r'') h \<and> map phase h = [7, 9, 10]" by simp
  with h facts(3) show ?thesis by (intro exI [of _ h] conjI) simp_all
qed

end
