(* ===== verification/Environment_Store.thy ===== *)
theory Environment_Store
  imports Steps Environment_Policy Runtime
begin

text \<open>
  The environment store of a run (\<open>Environments\<close> in \<open>backend/src/environment.rs\<close>): launch settings filed under
  the hash of their bytes, and one immutable record per execution and phase.  The content store of environment
  files, the native probes and the processes answer through the record \<open>store_env\<close>; a run has one policy.
\<close>

section \<open>The store\<close>

text \<open>File name to bytes; a launch file is named by its hash.\<close>

record env_store =
  es_launches :: "(string, string) btree_map"
  es_records :: "(string, string) btree_map"

text \<open>
  \<open>sn_launch_bytes\<close>, \<open>sn_record_bytes\<close> and \<open>sn_policy_bytes\<close> serialise, \<open>sn_parse_launch\<close> and \<open>sn_parse_record\<close> read
  back; \<open>sn_digest\<close> is Git's blob hash; \<open>sn_probe\<close> are the bytes that identify the native baseline.  The content
  store takes the scopes it may see: \<open>sn_capture\<close> stores a view and returns the parent if nothing changed.
  \<open>sn_guard\<close> identifies the project view before (\<open>False\<close>) and after a preparation.
\<close>

record store_env =
  sn_native :: native
  sn_digest :: "string \<Rightarrow> string"
  sn_launch_bytes :: "launch_config \<Rightarrow> string"
  sn_parse_launch :: "string \<Rightarrow> string + launch_config"
  sn_record_bytes :: "composite_result \<Rightarrow> string"
  sn_parse_record :: "string \<Rightarrow> string + composite_result"
  sn_policy_bytes :: "environment_config \<Rightarrow> string"
  sn_probe :: "string list \<Rightarrow> launch_config \<Rightarrow> string + string"
  sn_manifest :: "string list \<Rightarrow> string \<Rightarrow> string option"
  sn_validate :: "string list \<Rightarrow> string \<Rightarrow> string option"
  sn_verify :: "string list \<Rightarrow> string \<Rightarrow> string \<Rightarrow> string option"
  sn_materialize :: "string list \<Rightarrow> string \<Rightarrow> string \<Rightarrow> string option"
  sn_capture :: "string list \<Rightarrow> string \<Rightarrow> string \<Rightarrow> string + string"
  sn_first :: "bool \<Rightarrow> string \<Rightarrow> string + string"
  sn_descends :: "string \<Rightarrow> string \<Rightarrow> bool"
  sn_root :: "string \<Rightarrow> launch_config \<Rightarrow> string + string"
  sn_guard :: "bool \<Rightarrow> string \<Rightarrow> string + string"
  sn_tracked :: "string \<Rightarrow> string + string list"
  sn_linked :: "string \<Rightarrow> string \<Rightarrow> string option"
  sn_same_path :: "string \<Rightarrow> string \<Rightarrow> bool"
  sn_display :: "string \<Rightarrow> string"
  sn_process_root :: "string \<Rightarrow> string"
  sn_process_state :: "string \<Rightarrow> string option"
  sn_policy_file :: "string \<Rightarrow> string \<Rightarrow> string + string"
  sn_run_initializer :: "string \<Rightarrow> string \<Rightarrow> string list \<Rightarrow> launch_config \<Rightarrow> nat \<Rightarrow> string option"
  sn_launchable :: "string \<Rightarrow> launch_config \<Rightarrow> string option"
  sn_parent :: "string \<Rightarrow> string option"
  sn_resolve :: "string \<Rightarrow> launch_config \<Rightarrow> string \<Rightarrow> string \<Rightarrow> string + launch_config"

type_synonym 'a store_prog = "(env_store, 'a) prog"

definition persisted :: "string \<Rightarrow> string \<Rightarrow> (string, string) btree_map \<Rightarrow> string + (string, string) btree_map" where
  "persisted name bytes m = (case bt_get m name of
     Some old \<Rightarrow> if old = bytes then Inr m else Inl (''Immutable environment record already exists: '' @ name)
   | None \<Rightarrow> Inr (bt_insert name bytes m))"

definition put :: "('s \<Rightarrow> string + 's) \<Rightarrow> ('s, unit) prog" where
  "put f s = (case f s of Inl e \<Rightarrow> (Inl e, s) | Inr s' \<Rightarrow> (Inr (), s'))"

lemma put_ok: "put f s = (Inr u, s') \<longleftrightarrow> f s = Inr s'"
  by (auto simp: put_def split: sum.splits)

text \<open>\<open>Environments::new\<close>, before it creates its directories.\<close>

definition store_opens :: "store_env \<Rightarrow> environment_config \<Rightarrow> string \<Rightarrow> string option" where
  "store_opens k c run = first_error
     [validate_environment (sn_native k) c,
      refuse (\<not> launch_state_bound (ec_launch c))
        ''Unsupported workspace contract: native process state must use the external {state} root; create a new Run'',
      refuse (\<not> nt_uuid (sn_native k) run) ''Invalid environment Run ID'']"

section \<open>Launch settings\<close>

definition store_launch :: "store_env \<Rightarrow> launch_config \<Rightarrow> string store_prog" where
  "store_launch k l =
     and_then (check_ok (\<lambda>_. validate_launch (sn_native k) l))
     (let bytes = sn_launch_bytes k l; ident = sn_digest k bytes in
      and_then (put (\<lambda>es. map_result (\<lambda>m. es\<lparr>es_launches := m\<rparr>) (persisted ident bytes (es_launches es))))
        (give ident))"

definition read_launch :: "store_env \<Rightarrow> string \<Rightarrow> env_store \<Rightarrow> string + launch_config" where
  "read_launch k ident es =
     (if length ident \<noteq> 40 \<or> \<not> list_all is_ascii_hexdigit ident then Inl ''Invalid launch reference''
      else case bt_get (es_launches es) ident of
        None \<Rightarrow> Inl ''Missing launch configuration''
      | Some bytes \<Rightarrow>
          if sn_digest k bytes \<noteq> ident then Inl ''Damaged launch configuration''
          else case sn_parse_launch k bytes of
            Inl e \<Rightarrow> Inl e
          | Inr l \<Rightarrow> (case validate_launch (sn_native k) l of Some e \<Rightarrow> Inl e | None \<Rightarrow> Inr l))"

definition load_launch :: "store_env \<Rightarrow> string \<Rightarrow> launch_config store_prog" where
  "load_launch k ident = ask (read_launch k ident)"

section \<open>Scopes\<close>

definition with_prefix :: "store_env \<Rightarrow> launch_config \<Rightarrow> string list \<Rightarrow> string list" where
  "with_prefix k l paths = (case lc_environment l of
     Some b \<Rightarrow> if \<exists>scope \<in> set paths. scope_contains (sn_native k) (bd_prefix b) scope then paths else paths @ [bd_prefix b]
   | None \<Rightarrow> paths)"

definition scope_paths :: "store_env \<Rightarrow> environment_config \<Rightarrow> string \<Rightarrow> string list store_prog" where
  "scope_paths k c ident = attempt (load_launch k ident) (\<lambda>l.
     give (bs_of_list (with_prefix k l (ec_scopes c @ ec_caches c) @ lc_managed_scopes l)))"

definition scoped :: "store_env \<Rightarrow> environment_config \<Rightarrow> string \<Rightarrow> string list store_prog" where
  "scoped k c ident = attempt (scope_paths k c ident) (\<lambda>paths. give (filter (\<lambda>s. s \<notin> set (ec_caches c)) paths))"

definition in_project :: "launch_config \<Rightarrow> bool" where
  "in_project l = (case lc_environment l of Some b \<Rightarrow> bd_root b = Some ''workspace'' | None \<Rightarrow> False)"

definition launch_scopes :: "store_env \<Rightarrow> environment_config \<Rightarrow> string \<Rightarrow> string list store_prog" where
  "launch_scopes k c ident =
     (if launch_state_bound (ec_launch c)
      then attempt (load_launch k ident) (\<lambda>l.
        give (if in_project l then bs_of_list (with_prefix k l (ec_scopes c)) else []))
      else scope_paths k c ident)"

definition tracked_ok :: "store_env \<Rightarrow> environment_config \<Rightarrow> string \<Rightarrow> unit store_prog" where
  "tracked_ok k c path = check_ok (\<lambda>_. check_tracked (sn_native k) c (sn_tracked k path) (sn_linked k path))"

section \<open>Baseline and validation\<close>

definition contract_of :: "environment_config \<Rightarrow> string" where
  "contract_of c = (if launch_state_bound (ec_launch c) then ''native-workspace-v4'' else ''native-workspace-v1'')"

definition policy_digest :: "store_env \<Rightarrow> environment_config \<Rightarrow> string" where
  "policy_digest k c = sn_digest k (sn_policy_bytes k c)"

definition bound_value :: "string \<Rightarrow> bool" where
  "bound_value v \<longleftrightarrow> contains_str v ''{workspace}'' \<or> contains_str v ''{state}''"

definition probe_launch :: "launch_config \<Rightarrow> launch_config" where
  "probe_launch l = l\<lparr>lc_variables := filter (\<lambda>(_, v). \<not> bound_value v) (lc_variables l),
     lc_path := filter (\<lambda>v. \<not> bound_value v) (lc_path l)\<rparr>"

definition baseline :: "store_env \<Rightarrow> environment_config \<Rightarrow> domain store_prog" where
  "baseline k c =
     and_then (check_ok (\<lambda>_. validate_environment (sn_native k) c))
     (attempt (ask (\<lambda>_. sn_probe k (ec_baseline c) (probe_launch (ec_launch c)))) (\<lambda>bytes.
       give \<lparr>dm_platform = nt_platform (sn_native k), dm_arch = nt_arch (sn_native k), dm_baseline = sn_digest k bytes,
         dm_policy = policy_digest k c, dm_contract = contract_of c\<rparr>))"

definition matches_policy :: "store_env \<Rightarrow> environment_config \<Rightarrow> composite_result \<Rightarrow> bool" where
  "matches_policy k c r \<longleftrightarrow> dm_platform (cr_domain r) = nt_platform (sn_native k) \<and> dm_arch (cr_domain r) = nt_arch (sn_native k)
     \<and> dm_contract (cr_domain r) = contract_of c \<and> dm_policy (cr_domain r) = policy_digest k c"

definition validate_metadata :: "store_env \<Rightarrow> environment_config \<Rightarrow> composite_result \<Rightarrow> unit store_prog" where
  "validate_metadata k c r =
     and_then (demand (\<lambda>_. matches_policy k c r) ''Composite record does not match its frozen native policy'')
     (attempt (scoped k c (cr_launch_ref r)) (\<lambda>scopes.
      and_then (check_ok (\<lambda>_. sn_manifest k scopes (cr_environment_ref r)))
      (attempt (load_launch k (cr_launch_ref r)) (\<lambda>_. give ()))))"

definition validate_bytes :: "store_env \<Rightarrow> environment_config \<Rightarrow> composite_result \<Rightarrow> unit store_prog" where
  "validate_bytes k c r =
     attempt (baseline k c) (\<lambda>d.
     and_then (demand (\<lambda>_. d = cr_domain r) ''Native baseline/domain changed; explicit rebuild required'')
     (attempt (scoped k c (cr_launch_ref r)) (\<lambda>scopes.
      and_then (check_ok (\<lambda>_. sn_validate k scopes (cr_environment_ref r)))
      (attempt (load_launch k (cr_launch_ref r)) (\<lambda>_. give ())))))"

text \<open>\<open>sn_first\<close> stores the first environment: the scopes of the source (\<open>True\<close>) or nothing.\<close>

definition first_environment :: "store_env \<Rightarrow> environment_config \<Rightarrow> string \<Rightarrow> composite_result store_prog" where
  "first_environment k c source =
     and_then (tracked_ok k c source)
     (attempt (baseline k c) (\<lambda>d.
      attempt (store_launch k (ec_launch c)) (\<lambda>launch.
      attempt (ask (\<lambda>_. sn_first k (ec_import_source c) source)) (\<lambda>environment.
       give \<lparr>cr_domain = d, cr_code_ref = [], cr_environment_ref = environment, cr_launch_ref = launch, cr_resource_refs = [],
         cr_layout = None, cr_generation = ''baseline'', cr_selected_from = [''baseline''], cr_inheritance = None\<rparr>))))"

section \<open>Selecting an environment\<close>

type_synonym inputs = "(string \<times> composite_result) list"

definition same_environment_refs :: "composite_result \<Rightarrow> composite_result \<Rightarrow> bool" where
  "same_environment_refs a b \<longleftrightarrow> cr_environment_ref a = cr_environment_ref b \<and> cr_launch_ref a = cr_launch_ref b"

definition select_input_environment :: "store_env \<Rightarrow> environment_config \<Rightarrow> string \<Rightarrow> inputs \<Rightarrow> string + composite_result" where
  "select_input_environment k c node inputs = (case inputs of
     [] \<Rightarrow> Inl ''Missing environment input''
   | (_, first) # _ \<Rightarrow>
       if \<exists>(_, r) \<in> set inputs. cr_domain r \<noteq> cr_domain first
       then Inl ''Environment inputs belong to different native domains''
       else case bt_get (ec_authority c) node of
         Some parent \<Rightarrow> (case find (\<lambda>(name, _). name = parent) inputs of
             Some (_, r) \<Rightarrow> Inr (r\<lparr>cr_selected_from := [parent]\<rparr>)
           | None \<Rightarrow> Inl (''Environment authority '' @ parent @ '' is not an input of '' @ node))
       | None \<Rightarrow>
           let provenance = (\<lambda>r. r\<lparr>cr_selected_from := map fst inputs\<rparr>) in
           if \<forall>(_, r) \<in> set inputs. same_environment_refs r first then Inr (provenance first)
           else if ec_allow_descendant c \<and> (\<forall>(_, r) \<in> set inputs. cr_launch_ref r = cr_launch_ref first)
           then (case find (\<lambda>(_, r). \<forall>(_, q) \<in> set inputs. sn_descends k (cr_environment_ref r) (cr_environment_ref q)) inputs of
               Some (_, r) \<Rightarrow> Inr (provenance r)
             | None \<Rightarrow> Inl ''Workspace composition blocked: ambiguous independent environments; no provable automatic input'')
           else Inl ''Workspace composition blocked: incompatible E/L inputs; no provable automatic selection (environment directories are never merged)'')"

definition inheritance_of :: "string \<Rightarrow> inputs \<Rightarrow> inheritance_decision" where
  "inheritance_of reason inputs = \<lparr>id_reason = reason, id_inputs = map (\<lambda>(name, r). \<lparr>ii_node = name,
     ii_environment_ref = cr_environment_ref r, ii_launch_ref = cr_launch_ref r, ii_layout = cr_layout r\<rparr>) inputs\<rparr>"

definition local_input :: "string \<Rightarrow> composite_result option \<Rightarrow> inputs \<Rightarrow> composite_result option" where
  "local_input path current inputs = map_option snd (find (\<lambda>(_, r). cr_layout r = Some path
     \<and> (case current of Some c \<Rightarrow> same_environment_refs c r | None \<Rightarrow> False)) inputs)"

definition hint_key :: "ambient_environment_hint \<Rightarrow> string \<times> string \<times> string" where
  "hint_key h = (ah_manager h, ah_selector h, ah_executable h)"

text \<open>\<open>sort_by\<close> the whole content and \<open>dedup\<close>.\<close>

definition key_le :: "string \<times> string \<times> string \<Rightarrow> string \<times> string \<times> string \<Rightarrow> bool" where
  "key_le p q \<longleftrightarrow> fst p < fst q \<or> (fst p = fst q \<and> (fst (snd p) < fst (snd q)
     \<or> (fst (snd p) = fst (snd q) \<and> snd (snd p) \<le> snd (snd q))))"

fun insert_hint :: "ambient_environment_hint \<Rightarrow> ambient_environment_hint list \<Rightarrow> ambient_environment_hint list" where
  "insert_hint h [] = [h]"
| "insert_hint h (x # xs) = (if h = x then x # xs
     else if key_le (hint_key h) (hint_key x) then h # x # xs else x # insert_hint h xs)"

definition sort_hints :: "ambient_environment_hint list \<Rightarrow> ambient_environment_hint list" where
  "sort_hints hs = foldr insert_hint hs []"

definition inherited_hints :: "store_env \<Rightarrow> composite_result list \<Rightarrow> ambient_environment_hint list store_prog" where
  "inherited_hints k rs = attempt (each_with (\<lambda>r hs. attempt (load_launch k (cr_launch_ref r)) (\<lambda>l. give (hs @ lc_ambient_hints l)))
     rs []) (\<lambda>hs. give (sort_hints hs))"

definition check_inputs :: "store_env \<Rightarrow> environment_config \<Rightarrow> composite_result \<Rightarrow> inputs \<Rightarrow> unit store_prog" where
  "check_inputs k c base inputs = each_with (\<lambda>(_, r) _.
     and_then (demand (\<lambda>_. cr_domain r = cr_domain base) ''Environment inputs belong to different native domains'')
       (validate_metadata k c r)) inputs ()"

definition selection_reason :: "store_env \<Rightarrow> inputs \<Rightarrow> composite_result option \<Rightarrow> env_store \<Rightarrow> string" where
  "selection_reason k inputs reusable es =
     (if reusable \<noteq> None then ''same-layout''
      else if \<exists>(_, r) \<in> set inputs. (case read_launch k (cr_launch_ref r) es of Inr l \<Rightarrow> lc_environment l \<noteq> None | Inl _ \<Rightarrow> False)
      then ''fixed-layout-not-reusable'' else ''unbound-inputs'')"

definition select_for_workspace :: "store_env \<Rightarrow> environment_config \<Rightarrow> string \<Rightarrow> inputs \<Rightarrow> string \<Rightarrow> composite_result
    \<Rightarrow> composite_result option \<Rightarrow> composite_result store_prog" where
  "select_for_workspace k c node inputs path base current =
     (if \<not> ec_best_effort c then ask (\<lambda>_. select_input_environment k c node inputs)
      else and_then (validate_metadata k c base)
        (and_then (check_inputs k c base inputs)
        (let reusable = local_input path current inputs; selected = (case reusable of Some r \<Rightarrow> r | None \<Rightarrow> base) in
         attempt (look (selection_reason k inputs reusable)) (\<lambda>reason.
         attempt (inherited_hints k (map snd inputs @ (case current of Some r \<Rightarrow> [r] | None \<Rightarrow> []))) (\<lambda>hints.
         attempt (load_launch k (cr_launch_ref selected)) (\<lambda>l.
         attempt (store_launch k (l\<lparr>lc_ambient_hints := hints\<rparr>)) (\<lambda>launch.
           give (selected\<lparr>cr_launch_ref := launch, cr_selected_from := map fst inputs,
             cr_inheritance := Some (inheritance_of reason inputs)\<rparr>))))))))"

text \<open>An edited message may not lose a scope that the previous execution found for itself.\<close>

definition validate_history_scopes :: "store_env \<Rightarrow> environment_config \<Rightarrow> string \<Rightarrow> string \<Rightarrow> unit store_prog" where
  "validate_history_scopes k c selected previous =
     (if \<not> ec_discovery c then give ()
      else attempt (load_launch k previous) (\<lambda>l. case lc_environment l of
        None \<Rightarrow> give ()
      | Some b \<Rightarrow> attempt (launch_scopes k c selected) (\<lambda>scopes.
          demand (\<lambda>_. \<exists>scope \<in> set scopes. scope_contains (sn_native k) (bd_prefix b) scope)
            ''Historical rollback drops a dynamic environment scope outside the frozen roots; refusing unsafe partial scope restoration'')))"

section \<open>Records\<close>

definition record_name :: "store_env \<Rightarrow> string \<Rightarrow> string \<Rightarrow> string + string" where
  "record_name k execution phase =
     (if \<not> nt_uuid (sn_native k) execution then Inl ''Invalid environment execution ID''
      else if phase \<notin> set [''selected'', ''before'', ''after''] then Inl ''Invalid environment record phase''
      else Inr (phase @ ''-'' @ execution @ ''.json''))"

definition record_result :: "store_env \<Rightarrow> string \<Rightarrow> string \<Rightarrow> composite_result \<Rightarrow> unit store_prog" where
  "record_result k execution phase r = attempt (ask (\<lambda>_. record_name k execution phase)) (\<lambda>name.
     put (\<lambda>es. map_result (\<lambda>m. es\<lparr>es_records := m\<rparr>) (persisted name (sn_record_bytes k r) (es_records es))))"

definition record_selected :: "store_env \<Rightarrow> string \<Rightarrow> string \<Rightarrow> composite_result \<Rightarrow> unit store_prog" where
  "record_selected k execution code r =
     record_result k execution ''selected'' (r\<lparr>cr_generation := execution, cr_code_ref := code\<rparr>)"

definition load_record_metadata :: "store_env \<Rightarrow> environment_config \<Rightarrow> string \<Rightarrow> string \<Rightarrow> composite_result store_prog" where
  "load_record_metadata k c execution phase = attempt (ask (\<lambda>_. record_name k execution phase)) (\<lambda>name.
     attempt (ask (\<lambda>es. ok_or (bt_get (es_records es) name) ''Missing composite execution evidence'')) (\<lambda>bytes.
     attempt (ask (\<lambda>_. sn_parse_record k bytes)) (\<lambda>r.
       and_then (demand (\<lambda>_. cr_generation r = execution) ''Composite result generation mismatch'')
       (and_then (validate_metadata k c r) (give r)))))"

section \<open>Preparing and sealing\<close>

definition configured_launch :: "store_env \<Rightarrow> environment_config \<Rightarrow> string \<Rightarrow> string \<Rightarrow> launch_config store_prog" where
  "configured_launch k c path ident = (case ec_launch_file c of
     None \<Rightarrow> load_launch k ident
   | Some name \<Rightarrow> attempt (ask (\<lambda>_. sn_policy_file k path name)) (\<lambda>bytes.
       attempt (ask (\<lambda>_. case sn_parse_launch k bytes of
           Inl e \<Rightarrow> Inl (''Invalid declared launch configuration: '' @ e) | Inr l \<Rightarrow> Inr l)) (\<lambda>l.
         and_then (check_ok (\<lambda>_. validate_launch (sn_native k) l)) (give l))))"

definition requires_fixed_layout :: "store_env \<Rightarrow> environment_config \<Rightarrow> string \<Rightarrow> bool store_prog" where
  "requires_fixed_layout k c ident =
     (if ec_layout c \<noteq> ''fixed'' then give False
      else if \<not> ec_discovery c then give True
      else attempt (load_launch k ident) (\<lambda>l. give (lc_environment l \<noteq> None)))"

definition capture_scoped :: "store_env \<Rightarrow> environment_config \<Rightarrow> string \<Rightarrow> string \<Rightarrow> string \<Rightarrow> string store_prog" where
  "capture_scoped k c path parent ident =
     attempt (scoped k c ident) (\<lambda>scopes. attempt (load_launch k ident) (\<lambda>l.
     attempt (ask (\<lambda>_. sn_root k path l)) (\<lambda>root. ask (\<lambda>_. sn_capture k scopes root parent))))"

definition expanded_at :: "store_env \<Rightarrow> string \<Rightarrow> launch_config \<Rightarrow> launch_config" where
  "expanded_at k path l = expanded (sn_process_root k path) (sn_process_state k path) l"

definition finalize_input :: "store_env \<Rightarrow> environment_config \<Rightarrow> string \<Rightarrow> composite_result \<Rightarrow> string \<Rightarrow> string
    \<Rightarrow> string list \<Rightarrow> composite_result store_prog" where
  "finalize_input k c path selected generation head resources =
     attempt (configured_launch k c path (cr_launch_ref selected)) (\<lambda>l.
     and_then (only_if (ec_discovery c) (check_ok (\<lambda>_. sn_launchable k path l)))
     (let e = expanded_at k path l in
      and_then (demand (\<lambda>_. sn_parent k (lc_entry e) = (case lc_path e of p # _ \<Rightarrow> Some p | [] \<Rightarrow> None))
        ''Default entry directory must be first in the declared business PATH'')
      (and_then (demand (\<lambda>_. nt_is_file (sn_native k) (lc_entry e)) ''Declared default native entry is missing'')
      (attempt (store_launch k l) (\<lambda>launch.
       attempt (capture_scoped k c path (cr_environment_ref selected) launch) (\<lambda>environment.
       let input = selected\<lparr>cr_code_ref := head, cr_environment_ref := environment, cr_launch_ref := launch,
         cr_resource_refs := resources, cr_layout := Some (sn_display k path), cr_generation := generation\<rparr>
       in and_then (record_result k generation ''before'' input) (give input)))))))"

definition verify_view :: "store_env \<Rightarrow> environment_config \<Rightarrow> string \<Rightarrow> string \<Rightarrow> string \<Rightarrow> unit store_prog" where
  "verify_view k c path launch version =
     attempt (scoped k c launch) (\<lambda>scopes. attempt (load_launch k launch) (\<lambda>l.
     attempt (ask (\<lambda>_. sn_root k path l)) (\<lambda>root. check_ok (\<lambda>_. sn_verify k scopes root version))))"

text \<open>A view at its own path is verified, any other materialised; a failed attempt's view is only checked against the store.\<close>

definition restore_view :: "store_env \<Rightarrow> environment_config \<Rightarrow> string \<Rightarrow> composite_result \<Rightarrow> bool \<Rightarrow> bool \<Rightarrow> bool \<Rightarrow> unit store_prog" where
  "restore_view k c path selected same_view preserve_failed history_edit =
     attempt (scoped k c (cr_launch_ref selected)) (\<lambda>scopes.
     attempt (load_launch k (cr_launch_ref selected)) (\<lambda>l.
     attempt (ask (\<lambda>_. sn_root k path l)) (\<lambda>root.
     let unbound = (ec_best_effort c \<and> cr_layout selected = None \<and> lc_environment l = None) in
     if \<not> unbound \<and> same_view \<and> \<not> history_edit \<and> \<not> preserve_failed
     then check_ok (\<lambda>_. sn_verify k scopes root (cr_environment_ref selected))
     else if \<not> preserve_failed \<and> \<not> unbound
     then check_ok (\<lambda>_. sn_materialize k scopes root (cr_environment_ref selected))
     else check_ok (\<lambda>_. sn_validate k scopes (cr_environment_ref selected)))))"

definition run_initializer :: "store_env \<Rightarrow> environment_config \<Rightarrow> string \<Rightarrow> composite_result \<Rightarrow> unit store_prog" where
  "run_initializer k c path selected = (case ec_initialize c of
     program # args \<Rightarrow> if cr_layout selected = None \<and> \<not> ec_import_source c
       then attempt (load_launch k (cr_launch_ref selected)) (\<lambda>l.
         let here = replace_all ''{workspace}'' (sn_process_root k path) in
         and_then (demand (\<lambda>_. nt_absolute (sn_native k) (here program)) ''Environment initializer must use an absolute native executable'')
           (check_ok (\<lambda>_. sn_run_initializer k path (here program) (map here args) (expanded_at k path l)
             (case Option.bind (ec_resources c) rs_initialize_timeout_seconds of Some t \<Rightarrow> t | None \<Rightarrow> 120))))
       else give ()
   | [] \<Rightarrow> give ())"

definition prepare_view :: "store_env \<Rightarrow> environment_config \<Rightarrow> string \<Rightarrow> composite_result \<Rightarrow> string \<Rightarrow> string \<Rightarrow> string list
    \<Rightarrow> bool \<Rightarrow> bool \<Rightarrow> composite_result store_prog" where
  "prepare_view k c path selected generation head resources preserve_failed history_edit =
     attempt (if launch_state_bound (ec_launch c) then attempt (ask (\<lambda>_. sn_guard k False path)) (\<lambda>g. give (Some g)) else give None) (\<lambda>guard.
     and_then (validate_metadata k c selected)
     (attempt (baseline k c) (\<lambda>d.
      and_then (demand (\<lambda>_. d = cr_domain selected) ''Native baseline/domain changed; refusing unsafe environment reuse'')
      (and_then (tracked_ok k c path)
      (let layout = sn_display k path;
           same_view = (case cr_layout selected of Some original \<Rightarrow> sn_same_path k original layout | None \<Rightarrow> False) in
       attempt (requires_fixed_layout k c (cr_launch_ref selected)) (\<lambda>fixed.
       and_then (demand (\<lambda>_. \<not> (fixed \<and> cr_layout selected \<noteq> None \<and> \<not> same_view))
         ''Workspace composition blocked: fixed native environment cannot change physical layout; namespace/relocatable capability required'')
       (and_then (restore_view k c path selected same_view preserve_failed history_edit)
       (and_then (run_initializer k c path selected)
       (and_then (case guard of None \<Rightarrow> give () | Some g \<Rightarrow> attempt (ask (\<lambda>_. sn_guard k True path)) (\<lambda>g'.
           demand (\<lambda>_. g' = g) ''Native environment preparation modified the project view; no agent may see runtime-injected files''))
         (finalize_input k c path selected generation head resources))))))))))"

definition discover_launch :: "store_env \<Rightarrow> environment_config \<Rightarrow> string \<Rightarrow> composite_result \<Rightarrow> string \<Rightarrow> composite_result store_prog" where
  "discover_launch k c path input session =
     (if \<not> ec_discovery c then give input
      else attempt (load_launch k (cr_launch_ref input)) (\<lambda>l.
        attempt (ask (\<lambda>_. sn_resolve k path l session (cr_generation input))) (\<lambda>l.
        attempt (store_launch k l) (\<lambda>ident.
        attempt (launch_scopes k c ident) (\<lambda>excluded.
          and_then (tracked_ok k (c\<lparr>ec_scopes := filter (\<lambda>s. s \<notin> set (ec_caches c)) excluded\<rparr>) path)
            (give (input\<lparr>cr_launch_ref := ident\<rparr>)))))))"

definition seal_view :: "store_env \<Rightarrow> environment_config \<Rightarrow> string \<Rightarrow> composite_result \<Rightarrow> string \<Rightarrow> string list \<Rightarrow> composite_result store_prog" where
  "seal_view k c path input head resources =
     and_then (tracked_ok k c path)
     (attempt (baseline k c) (\<lambda>d.
      and_then (demand (\<lambda>_. d = cr_domain input) ''Native baseline changed during execution'')
      (attempt (configured_launch k c path (cr_launch_ref input)) (\<lambda>l.
       attempt (store_launch k l) (\<lambda>launch.
       attempt (capture_scoped k c path (cr_environment_ref input) launch) (\<lambda>environment.
       let result = input\<lparr>cr_code_ref := head, cr_environment_ref := environment, cr_launch_ref := launch, cr_resource_refs := resources\<rparr>
       in and_then (record_result k (cr_generation input) ''after'' result) (give result)))))))"

end
