(* ===== verification/Results.thy ===== *)
theory Results
  imports Steps Plain_Events Slots
begin

text \<open>
  Published results with an environment of their own (\<open>backend/src/runtime.rs\<close>): the inputs of a publication,
  the descriptor that is published, reserving, performing and finishing an execution of a published result, and
  the registry through which such an execution is cancelled (\<open>ResultControl\<close> in
  \<open>backend/src/process_control.rs\<close>).  Git, the file system, the environment store and the child process answer
  through the record \<open>result_io\<close>; an answer may depend on everything done before.
\<close>

section \<open>Cancellation\<close>

text \<open>
  A control is the run and a number that stands for the identity of its flag; \<open>ct_cancelled\<close> lists the flags
  that are set.
\<close>

record controls =
  ct_active :: "(string, nat) btree_map"
  ct_cancelled :: "nat list"
  ct_next :: nat

definition begin_control :: "string \<Rightarrow> controls \<Rightarrow> string + nat \<times> controls" where
  "begin_control run c =
     (if bt_get (ct_active c) run \<noteq> None then Inl ''A result execution is already active''
      else Inr (ct_next c, c\<lparr>ct_active := bt_insert run (ct_next c) (ct_active c), ct_next := Suc (ct_next c)\<rparr>))"

definition check_control :: "nat \<Rightarrow> controls \<Rightarrow> string option" where
  "check_control flag c = (if flag \<in> set (ct_cancelled c)
     then Some ''Native result execution cancelled; partial workspace retained'' else None)"

definition release_control :: "string \<Rightarrow> controls \<Rightarrow> controls" where
  "release_control run c = c\<lparr>ct_active := bt_retain (\<lambda>r. r \<noteq> run) (ct_active c)\<rparr>"

definition drop_control :: "string \<Rightarrow> nat \<Rightarrow> controls \<Rightarrow> controls" where
  "drop_control run flag c = (if bt_get (ct_active c) run = Some flag then release_control run c else c)"

text \<open>The processes of the run are terminated as well.\<close>

definition cancel_result :: "string \<Rightarrow> controls \<Rightarrow> string + controls" where
  "cancel_result run c = (case bt_get (ct_active c) run of
     None \<Rightarrow> Inl ''No active result execution to cancel''
   | Some flag \<Rightarrow> Inr (c\<lparr>ct_cancelled := flag # ct_cancelled c\<rparr>))"

section \<open>What is asked and done\<close>

datatype result_effect =
    Record_Selection string composite_result
  | Compose_View string string
  | Save_View string
  | Prepare_View string composite_result string bool bool
  | Announce_Input composite_result
  | Run_Result string "string list" "nat option" nat
  | Prove_View composite_result
  | Seal_View string composite_result string

type_synonym result_trace = "result_effect list"

text \<open>
  \<open>ro_launch\<close> reads the launch settings of a reference, \<open>ro_launchable\<close> checks them in a directory,
  \<open>ro_command\<close> creates the session directory and binds the command, \<open>ro_text\<close> decodes UTF-8.
\<close>

record result_io =
  ro_control :: "result_trace \<Rightarrow> string option"
  ro_acquire :: "environment_config \<Rightarrow> string option"
  ro_open :: "environment_config \<Rightarrow> string option"
  ro_select :: "(string \<times> composite_result) list \<Rightarrow> string + composite_result"
  ro_metadata :: "result_trace \<Rightarrow> composite_result \<Rightarrow> string option"
  ro_valid :: "result_trace \<Rightarrow> composite_result \<Rightarrow> string option"
  ro_exclusions :: "result_trace \<Rightarrow> string \<Rightarrow> string + string list"
  ro_missing :: "result_trace \<Rightarrow> string \<Rightarrow> string \<Rightarrow> string option"
  ro_is_dir :: "result_trace \<Rightarrow> string \<Rightarrow> bool"
  ro_view :: "result_trace \<Rightarrow> string \<Rightarrow> string \<Rightarrow> string \<Rightarrow> string list \<Rightarrow> string option"
  ro_head :: "result_trace \<Rightarrow> string \<Rightarrow> string + string"
  ro_status :: "result_trace \<Rightarrow> string \<Rightarrow> string list \<Rightarrow> string + string"
  ro_environment :: "result_trace \<Rightarrow> string \<Rightarrow> string \<Rightarrow> string \<Rightarrow> string option"
  ro_record :: "result_trace \<Rightarrow> string \<Rightarrow> composite_result \<Rightarrow> string option"
  ro_compose :: "result_trace \<Rightarrow> string \<Rightarrow> string \<Rightarrow> string \<Rightarrow> string list \<Rightarrow> string + string"
  ro_prepare :: "result_trace \<Rightarrow> string \<Rightarrow> composite_result \<Rightarrow> string \<Rightarrow> string \<Rightarrow> bool \<Rightarrow> bool \<Rightarrow> string + composite_result"
  ro_fresh :: "result_trace \<Rightarrow> string"
  ro_save :: "result_trace \<Rightarrow> string \<Rightarrow> string \<Rightarrow> string list \<Rightarrow> string + string"
  ro_announce :: "result_trace \<Rightarrow> composite_result \<Rightarrow> string option"
  ro_command :: "result_trace \<Rightarrow> string \<Rightarrow> string \<Rightarrow> composite_result \<Rightarrow> string option"
  ro_run :: "result_trace \<Rightarrow> string \<Rightarrow> string list \<Rightarrow> string + string"
  ro_discover :: "result_trace \<Rightarrow> string \<Rightarrow> composite_result \<Rightarrow> string + composite_result"
  ro_prove :: "result_trace \<Rightarrow> string \<Rightarrow> string \<Rightarrow> composite_result \<Rightarrow> string option"
  ro_tracked :: "result_trace \<Rightarrow> environment_config \<Rightarrow> string \<Rightarrow> string option"
  ro_seal :: "result_trace \<Rightarrow> string \<Rightarrow> composite_result \<Rightarrow> string \<Rightarrow> string + composite_result"
  ro_launch :: "result_trace \<Rightarrow> string \<Rightarrow> string + launch_config"
  ro_launchable :: "result_trace \<Rightarrow> string \<Rightarrow> launch_config \<Rightarrow> string option"
  ro_same_scope :: "result_trace \<Rightarrow> string \<Rightarrow> string \<Rightarrow> string \<Rightarrow> string + bool"
  ro_text :: "string \<Rightarrow> string + string"

type_synonym 'a result_step = "(result_effect, 'a) step"

section \<open>Terminal results\<close>

text \<open>\<open>None\<close> is the panic of a graph node without a state.\<close>

fun results_of :: "snapshot \<Rightarrow> string list \<Rightarrow> (string + (string \<times> composite_result) list) option" where
  "results_of st [] = Some (Inr [])"
| "results_of st (name # names) = (case bt_get (st_nodes st) name of
     None \<Rightarrow> None
   | Some n \<Rightarrow> (case ns_result n of
       None \<Rightarrow> Some (Inl ''Terminal composite result is missing'')
     | Some r \<Rightarrow> map_option (map_result (\<lambda>rest. (name, r) # rest)) (results_of st names)))"

definition terminal_nodes :: "graph \<Rightarrow> string list" where
  "terminal_nodes g = filter (is_terminal g) (map nd_name (gr_nodes g))"

definition terminal_results :: "snapshot \<Rightarrow> (string + (string \<times> composite_result) list) option" where
  "terminal_results st = results_of st (terminal_nodes (st_graph st))"

text \<open>The directory of a terminal result in which something still writes.\<close>

definition publication_live_writer :: "world \<Rightarrow> snapshot \<Rightarrow> (string + string option) option" where
  "publication_live_writer w st = (case require_current_file_contract st of
     Some e \<Rightarrow> Some (Inl e)
   | None \<Rightarrow>
       if st_config st = None then Some (Inl ''Missing config'')
       else if \<not> has_environment st then Some (Inr None)
       else case wd_environments w st of
         Some e \<Rightarrow> Some (Inl e)
       | None \<Rightarrow> map_option (map_result (\<lambda>terminals.
           find (path_is_running w st) (List.map_filter (\<lambda>(_, r). cr_layout r) terminals))) (terminal_results st))"

section \<open>The inputs of a publication\<close>

record publication_job =
  pj_run_id :: string
  pj_inputs :: "(string \<times> composite_result) list"
  pj_repository :: string
  pj_policy :: environment_config
  pj_independent :: bool

definition check_input :: "world \<Rightarrow> result_io \<Rightarrow> snapshot \<Rightarrow> composite_result \<Rightarrow> unit result_step" where
  "check_input w k st input =
     and_then (demand (\<lambda>_. case st_environment_baseline st of Some b \<Rightarrow> cr_domain b = cr_domain input | None \<Rightarrow> False)
       ''Publication input differs from the frozen native domain'')
     (and_then (check_ok (\<lambda>h. ro_metadata k h input))
     (attempt (ask (\<lambda>_. ok_or (cr_layout input) ''Published environment has no native layout'')) (\<lambda>path.
       demand (\<lambda>_. \<not> path_is_running w st path) ''Cannot publish a launch descriptor over a live writer'')))"

definition publication_job_of ::
  "world \<Rightarrow> result_io \<Rightarrow> snapshot \<Rightarrow> config \<Rightarrow> environment_config \<Rightarrow> (string \<times> composite_result) list \<Rightarrow> publication_job result_step" where
  "publication_job_of w k st c policy terminals =
     attempt (if ec_best_effort policy then give terminals
              else attempt (ask (\<lambda>_. ro_select k terminals)) (\<lambda>r. give [(''$publication'', r)])) (\<lambda>inputs.
     and_then (each_with (\<lambda>(_, input) _. check_input w k st input) inputs ())
     (attempt (ask (\<lambda>_. resolve_repository w c)) (\<lambda>repository.
       give \<lparr>pj_run_id = st_run_id st, pj_inputs = inputs, pj_repository = repository, pj_policy = policy,
         pj_independent = ec_best_effort policy\<rparr>)))"

definition publication_environment_input :: "world \<Rightarrow> result_io \<Rightarrow> snapshot \<Rightarrow> publication_job option result_step option" where
  "publication_environment_input w k st = (case require_current_file_contract st of
     Some e \<Rightarrow> Some (ask (\<lambda>_. Inl e))
   | None \<Rightarrow> (case st_config st of
       None \<Rightarrow> Some (give None)
     | Some c \<Rightarrow> (case cf_environment c of
         None \<Rightarrow> Some (give None)
       | Some policy \<Rightarrow> (case wd_environments w st of
           Some e \<Rightarrow> Some (ask (\<lambda>_. Inl e))
         | None \<Rightarrow> map_option (\<lambda>terminals. attempt (ask (\<lambda>_. terminals))
             (\<lambda>terminals. attempt (publication_job_of w k st c policy terminals) (\<lambda>j. give (Some j))))
             (terminal_results st)))))"

definition validate_publication :: "result_io \<Rightarrow> publication_job \<Rightarrow> unit result_step" where
  "validate_publication k j = each_with (\<lambda>(_, input) _. check_ok (\<lambda>h. ro_valid k h input)) (pj_inputs j) ()"

section \<open>The descriptor\<close>

definition store_descriptor :: "result_io \<Rightarrow> environment_config \<Rightarrow> string \<Rightarrow> composite_result \<Rightarrow> result_descriptor result_step" where
  "store_descriptor k policy run result =
     and_then (check_ok (\<lambda>h. ro_metadata k h result))
     (attempt (ask (\<lambda>_. ok_or (cr_layout result) ''Result has no launchable native layout'')) (\<lambda>layout.
       give \<lparr>rd_schema = 1, rd_run_id = run, rd_result = result, rd_config = policy, rd_workspace = layout,
         rd_entries = [], rd_default_entry = None\<rparr>))"

definition entry_of :: "string \<Rightarrow> string \<Rightarrow> string \<Rightarrow> composite_result \<Rightarrow> result_entry" where
  "entry_of head name path selected =
     \<lparr>re_name = name, re_result = selected\<lparr>cr_code_ref := head, cr_resource_refs := []\<rparr>, re_workspace = path\<rparr>"

text \<open>A view that exists must hold what its result or the published head says.\<close>

definition check_present :: "result_io \<Rightarrow> publication_job \<Rightarrow> string \<Rightarrow> string \<Rightarrow> composite_result \<Rightarrow> string list \<Rightarrow> unit result_step" where
  "check_present k j head path selected excluded =
     attempt (ask (\<lambda>h. ro_head k h path)) (\<lambda>current.
       let expected = (if current = cr_code_ref selected then cr_code_ref selected else head) in
       and_then (check_ok (\<lambda>h. ro_view k h path (pj_repository j) expected excluded))
       (and_then (check_ok (\<lambda>h. ro_environment k h path (cr_launch_ref selected) (cr_environment_ref selected)))
       (attempt (ask (\<lambda>h. ro_status k h path excluded)) (\<lambda>status.
         demand (\<lambda>_. status = []) ''Published code view changed outside its writer lease''))))"

definition publish_entry :: "result_io \<Rightarrow> publication_job \<Rightarrow> string \<Rightarrow> string \<times> composite_result \<Rightarrow> result_entry list \<Rightarrow> result_entry list result_step" where
  "publish_entry k j head = (\<lambda>(name, selected) entries.
     attempt (ask (\<lambda>_. ok_or (cr_layout selected) ''Result has no native layout'')) (\<lambda>path.
     attempt (ask (\<lambda>h. ro_exclusions k h (cr_launch_ref selected))) (\<lambda>excluded.
     attempt (look (\<lambda>h. ro_is_dir k h path)) (\<lambda>present.
     and_then (only_if present (check_present k j head path selected excluded))
     (attempt (act (Compose_View path head) (\<lambda>h. ro_compose k h (pj_repository j) path head excluded)) (\<lambda>code.
     and_then (only_if (\<not> present) (attempt (look (ro_fresh k)) (\<lambda>generation.
         attempt (act (Prepare_View path selected generation False True)
           (\<lambda>h. ro_prepare k h path selected generation code False True)) (\<lambda>_. give ()))))
     (let entry = entry_of head name path selected in
      and_then (check_ok (\<lambda>h. ro_environment k h path (cr_launch_ref selected) (cr_environment_ref selected)))
      (attempt (ask (\<lambda>h. ro_launch k h (cr_launch_ref selected))) (\<lambda>launch.
       and_then (check_ok (\<lambda>h. ro_launchable k h path launch))
         (give (entries @ [entry])))))))))))"

definition same_environment :: "result_io \<Rightarrow> result_entry \<Rightarrow> launch_config \<Rightarrow> result_entry \<Rightarrow> bool \<Rightarrow> bool result_step" where
  "same_environment k first launch entry equivalent =
     (let equivalent = (equivalent \<and> cr_launch_ref (re_result entry) = cr_launch_ref (re_result first)) in
      case lc_environment launch of
        None \<Rightarrow> give equivalent
      | Some binding \<Rightarrow> attempt (ask (\<lambda>h. ro_same_scope k h (cr_environment_ref (re_result first))
            (cr_environment_ref (re_result entry)) (bd_prefix binding)))
          (\<lambda>same. give (equivalent \<and> same)))"

definition job_descriptor :: "result_io \<Rightarrow> publication_job \<Rightarrow> string \<Rightarrow> result_descriptor result_step" where
  "job_descriptor k j head =
     attempt (each_with (publish_entry k j head) (pj_inputs j) []) (\<lambda>entries.
     attempt (ask (\<lambda>_. case entries of first # _ \<Rightarrow> Inr first | [] \<Rightarrow> Inl ''Missing terminal result'')) (\<lambda>first.
     attempt (store_descriptor k (pj_policy j) (pj_run_id j) (re_result first)) (\<lambda>d.
       if pj_independent j
       then attempt (ask (\<lambda>h. ro_launch k h (cr_launch_ref (re_result first)))) (\<lambda>launch.
            attempt (each_with (same_environment k first launch) entries True) (\<lambda>equivalent.
              give (d\<lparr>rd_schema := 2, rd_default_entry := (if equivalent then Some (re_name first) else None),
                rd_entries := entries\<rparr>)))
       else give d)))"

definition publication_descriptor :: "world \<Rightarrow> result_io \<Rightarrow> snapshot \<Rightarrow> string \<Rightarrow> result_descriptor option result_step option" where
  "publication_descriptor w k st head = map_option (\<lambda>input. attempt input (\<lambda>j. case j of
     None \<Rightarrow> give None | Some j \<Rightarrow> attempt (job_descriptor k j head) (\<lambda>d. give (Some d))))
     (publication_environment_input w k st)"


section \<open>Reading the published result\<close>

definition stale_descriptor :: "snapshot \<Rightarrow> result_descriptor \<Rightarrow> bool" where
  "stale_descriptor st d = (case st_published_head st of
     Some head \<Rightarrow> head \<noteq> cr_code_ref (rd_result d) | None \<Rightarrow> False)"

definition check_published :: "result_io \<Rightarrow> result_descriptor \<Rightarrow> composite_result \<Rightarrow> unit result_step" where
  "check_published k d result =
     and_then (demand (\<lambda>_. cr_resource_refs result = [])
       ''This saved result depends on legacy ignored-file snapshots and is read-only; publish a new Run before using it'')
     (and_then (check_ok (\<lambda>h. ro_metadata k h result))
     (demand (\<lambda>_. cr_code_ref result = cr_code_ref (rd_result d)) ''Published entries do not refer to the same project code''))"

definition result_descriptor_of :: "world \<Rightarrow> result_io \<Rightarrow> snapshot \<Rightarrow> result_descriptor result_step" where
  "result_descriptor_of w k st =
     and_then (check_ok (\<lambda>_. require_current_file_contract st))
     (attempt (ask (\<lambda>_. ok_or (st_published_result st) ''No managed result has been published'')) (\<lambda>d.
      and_then (demand (\<lambda>_. \<not> stale_descriptor st d) ''Published result is stale; republish before using it'')
      (and_then (check_ok (\<lambda>_. if has_environment st then wd_environments w st else Some ''No managed environment store''))
      (and_then (each_with (\<lambda>r _. check_published k d r) (rd_result d # map re_result (rd_entries d)) ())
      (attempt (ask (\<lambda>_. ok_or (st_config st) ''Missing config'')) (\<lambda>c.
       attempt (ask (\<lambda>_. resolve_repository w c)) (\<lambda>repository.
       and_then (check_ok (\<lambda>h. ro_missing k h repository (cr_code_ref (rd_result d))))
         (give d))))))))"

definition for_entry :: "result_descriptor \<Rightarrow> string option \<Rightarrow> string + result_descriptor" where
  "for_entry d name =
     (if rd_entries d = []
      then if name \<noteq> None then Inl ''This legacy result has no named business entries'' else Inr d
      else case (case name of Some n \<Rightarrow> Some n | None \<Rightarrow> rd_default_entry d) of
        None \<Rightarrow> Inl ''Published result has independent business entries; specify entryId''
      | Some n \<Rightarrow> (case find (\<lambda>e. re_name e = n) (rd_entries d) of
          None \<Rightarrow> Inl ''Unknown published business entry''
        | Some e \<Rightarrow> Inr (d\<lparr>rd_result := re_result e, rd_workspace := re_workspace e\<rparr>)))"

section \<open>Reserving an execution of a published result\<close>

record result_job =
  rj_run_id :: string
  rj_config :: config
  rj_descriptor :: result_descriptor
  rj_input :: composite_result
  rj_args :: "string list"
  rj_retry :: bool

record host =
  ho_runtime :: runtime
  ho_controls :: controls

fun in_host :: "host \<Rightarrow> runtime outcome \<Rightarrow> host outcome" where
  "in_host s (Ok rt) = Ok (s\<lparr>ho_runtime := rt\<rparr>)"
| "in_host s (Error e rt) = Error e (s\<lparr>ho_runtime := rt\<rparr>)"
| "in_host s Panic = Panic"

definition failed_result :: "snapshot \<Rightarrow> bool" where
  "failed_result st = (case st_result_execution st of Some e \<Rightarrow> rx_status e = ''failed'' | None \<Rightarrow> False)"

definition other_layout :: "snapshot \<Rightarrow> result_descriptor \<Rightarrow> bool" where
  "other_layout st d = (case st_result_execution st of
     Some e \<Rightarrow> cr_layout (rx_input e) \<noteq> Some (rd_workspace d) | None \<Rightarrow> False)"

text \<open>The checks before anything is reserved; \<open>generation\<close> is the fresh identifier of the execution.\<close>

definition plan_result :: "world \<Rightarrow> string \<Rightarrow> string list \<Rightarrow> string option \<Rightarrow> snapshot \<Rightarrow> string + result_job" where
  "plan_result w generation args entry st =
     (let retry = failed_result st in
      if active st \<or> \<not> (st_phase st = ''completed'' \<or> st_phase st = ''needs_attention'' \<and> retry)
      then Inl ''Wait for successful publication or explicitly retry the failed result execution''
      else if \<exists>arg \<in> set args. CHR 0x00 \<in> set arg then Inl ''NUL in result arguments''
      else case st_published_result st of
        None \<Rightarrow> Inl ''No managed result has been published''
      | Some published \<Rightarrow> (case for_entry published entry of
          Inl e \<Rightarrow> Inl e
        | Inr d \<Rightarrow>
            if stale_descriptor st d then Inl ''Published result is stale; republish before launching it''
            else if retry \<and> other_layout st d then Inl ''Retry must use the failed business entry and its partial workspace''
            else case st_config st of
              None \<Rightarrow> Inl ''Missing config''
            | Some c \<Rightarrow>
                if cr_resource_refs (rd_result d) \<noteq> []
                then Inl ''This saved result depends on legacy ignored-file snapshots and is read-only; publish a new Run before launching it''
                else case cf_environment c of
                  None \<Rightarrow> Inl ''Missing environment policy''
                | Some policy \<Rightarrow> map_result (\<lambda>_. \<lparr>rj_run_id = st_run_id st, rj_config = c, rj_descriptor = d,
                    rj_input = (rd_result d)\<lparr>cr_generation := generation\<rparr>, rj_args = args, rj_retry = retry\<rparr>)
                    (wd_valid_environment w policy)))"

text \<open>An error after the control was taken drops it again.\<close>

definition start_result_entry :: "world \<Rightarrow> string \<Rightarrow> string list \<Rightarrow> string option \<Rightarrow> host \<Rightarrow> (host \<times> (result_job \<times> nat) option) outcome" where
  "start_result_entry w generation args entry s =
     (case plan_result w generation args entry (rn_state (ho_runtime s)) of
        Inl e \<Rightarrow> Error e (s, None)
      | Inr j \<Rightarrow> (case begin_control (rj_run_id j) (ho_controls s) of
          Inl e \<Rightarrow> Error e (s, None)
        | Inr (flag, c) \<Rightarrow> (case emit w (ResultExecutionStarted (rj_input j) args) (ho_runtime s) of
            Ok rt \<Rightarrow> Ok (s\<lparr>ho_runtime := rt, ho_controls := c\<rparr>, Some (j, flag))
          | Error e rt \<Rightarrow> Error e (s\<lparr>ho_runtime := rt, ho_controls := drop_control (rj_run_id j) flag c\<rparr>, None)
          | Panic \<Rightarrow> Panic)))"

section \<open>Performing it\<close>

text \<open>A first execution starts from an unchanged published view; a retry from what the failed one left.\<close>

definition check_result_view :: "result_io \<Rightarrow> result_job \<Rightarrow> string \<Rightarrow> bool \<Rightarrow> string list \<Rightarrow> unit result_step" where
  "check_result_view k j repository present excluded =
     (let path = rd_workspace (rj_descriptor j); r = rd_result (rj_descriptor j) in
      and_then (demand (\<lambda>_. \<not> rj_retry j \<or> present)
        ''Failed native result partial view is missing; refusing a silent reset to the published result'')
      (only_if (present \<and> \<not> rj_retry j)
        (and_then (check_ok (\<lambda>h. ro_view k h path repository (cr_code_ref r) excluded))
        (attempt (ask (\<lambda>h. ro_head k h path)) (\<lambda>head.
         and_then (demand (\<lambda>_. head = cr_code_ref r) ''Published code view changed outside its writer lease'')
         (attempt (ask (\<lambda>h. ro_status k h path excluded)) (\<lambda>status.
          and_then (demand (\<lambda>_. status = []) ''Published code view changed outside its writer lease'')
            (check_ok (\<lambda>h. ro_environment k h path (cr_launch_ref r) (cr_environment_ref r))))))))))"

definition prepare_result :: "result_io \<Rightarrow> result_job \<Rightarrow> string \<Rightarrow> bool \<Rightarrow> string list \<Rightarrow> composite_result result_step" where
  "prepare_result k j repository present excluded =
     (let path = rd_workspace (rj_descriptor j); r = rd_result (rj_descriptor j); generation = cr_generation (rj_input j) in
      and_then (check_ok (ro_control k))
      (and_then (act_ok (Record_Selection generation (r\<lparr>cr_generation := generation, cr_code_ref := cr_code_ref (rj_input j)\<rparr>))
        (\<lambda>h. ro_record k h generation (r\<lparr>cr_generation := generation, cr_code_ref := cr_code_ref (rj_input j)\<rparr>)))
      (and_then (only_if (\<not> present) (attempt (act (Compose_View path (cr_code_ref r))
          (\<lambda>h. ro_compose k h repository path (cr_code_ref r) excluded)) (\<lambda>_. give ())))
      (attempt (act (Save_View path) (\<lambda>h. ro_save k h path repository excluded)) (\<lambda>head.
       attempt (act (Prepare_View path r generation (present \<and> rj_retry j) (\<not> present))
         (\<lambda>h. ro_prepare k h path r generation head (present \<and> rj_retry j) (\<not> present))) (\<lambda>input.
       and_then (check_ok (ro_control k))
       (and_then (act_ok (Announce_Input input) (\<lambda>h. ro_announce k h input))
         (give input))))))))"

definition output_limit :: "environment_config \<Rightarrow> nat" where
  "output_limit policy = (case Option.bind (ec_resources policy) rs_max_output_bytes of
     Some n \<Rightarrow> n | None \<Rightarrow> 4 * 1024 * 1024)"

definition run_result :: "result_io \<Rightarrow> result_job \<Rightarrow> environment_config \<Rightarrow> string \<Rightarrow> composite_result \<Rightarrow> string result_step" where
  "run_result k j policy repository input =
     (let path = rd_workspace (rj_descriptor j) in
      and_then (check_ok (\<lambda>h. ro_command k h repository path input))
        (act (Run_Result path (rj_args j) (Option.bind (ec_resources policy) rs_result_timeout_seconds) (output_limit policy))
          (\<lambda>h. ro_run k h path (rj_args j))))"

definition renew_entries :: "result_job \<Rightarrow> composite_result \<Rightarrow> result_descriptor \<Rightarrow> result_descriptor" where
  "renew_entries j result d =
     (let old = rj_descriptor j in
      if rd_entries old = [] then d
      else d\<lparr>rd_schema := rd_schema old, rd_default_entry := rd_default_entry old,
        rd_entries := map (\<lambda>e. if re_workspace e = rd_workspace d then e\<lparr>re_result := result\<rparr> else e) (rd_entries old)\<rparr>)"

definition seal_result :: "result_io \<Rightarrow> result_job \<Rightarrow> environment_config \<Rightarrow> string \<Rightarrow> composite_result \<Rightarrow> string list \<Rightarrow> string
    \<Rightarrow> (string \<times> result_descriptor) result_step" where
  "seal_result k j policy repository input excluded output =
     (let path = rd_workspace (rj_descriptor j) in
      and_then (check_ok (ro_control k))
      (attempt (ask (\<lambda>h. ro_discover k h path input)) (\<lambda>input.
       attempt (ask (\<lambda>h. ro_exclusions k h (cr_launch_ref input))) (\<lambda>more.
       and_then (act_ok (Prove_View input) (\<lambda>h. ro_prove k h repository path input))
       (and_then (check_ok (\<lambda>h. ro_tracked k h policy path))
       (attempt (act (Save_View path) (\<lambda>h. ro_save k h path repository (excluded @ more))) (\<lambda>head.
        attempt (act (Seal_View path input head) (\<lambda>h. ro_seal k h path input head)) (\<lambda>result.
        attempt (store_descriptor k policy (rj_run_id j) result) (\<lambda>d.
        attempt (ask (\<lambda>_. ro_text k output)) (\<lambda>text.
          give (text, renew_entries j result d)))))))))))"

definition perform_result_in :: "world \<Rightarrow> result_io \<Rightarrow> result_job \<Rightarrow> environment_config \<Rightarrow> (string \<times> result_descriptor) result_step" where
  "perform_result_in w k j policy =
     (let r = rd_result (rj_descriptor j) in
      and_then (check_ok (\<lambda>h. ro_valid k h r))
      (and_then (demand (\<lambda>_. cr_resource_refs r = [])
        ''This saved result depends on legacy ignored-file snapshots and is read-only; publish a new Run before launching it'')
      (attempt (ask (\<lambda>h. ro_exclusions k h (cr_launch_ref r))) (\<lambda>excluded.
       attempt (ask (\<lambda>_. resolve_repository w (rj_config j))) (\<lambda>repository.
       and_then (check_ok (\<lambda>h. ro_missing k h repository (cr_code_ref r)))
       (attempt (look (\<lambda>h. ro_is_dir k h (rd_workspace (rj_descriptor j)))) (\<lambda>present.
       and_then (check_result_view k j repository present excluded)
       (attempt (prepare_result k j repository present excluded) (\<lambda>input.
        attempt (run_result k j policy repository input) (\<lambda>output.
          seal_result k j policy repository input excluded output))))))))))"

definition perform_result :: "world \<Rightarrow> result_io \<Rightarrow> result_job \<Rightarrow> (string \<times> result_descriptor) result_step" where
  "perform_result w k j =
     and_then (check_ok (ro_control k))
     (attempt (ask (\<lambda>_. ok_or (cf_environment (rj_config j)) ''Missing environment policy'')) (\<lambda>policy.
      and_then (check_ok (\<lambda>_. ro_acquire k policy))
      (and_then (check_ok (\<lambda>_. ro_open k policy))
        (perform_result_in w k j policy))))"

section \<open>Finishing it\<close>

text \<open>\<open>ResultControl::finish\<close>: the commit happens only while the flag is clear, and ends the activity.\<close>

definition commit_result :: "string \<Rightarrow> nat \<Rightarrow> (runtime \<Rightarrow> runtime outcome) \<Rightarrow> host \<Rightarrow> host outcome" where
  "commit_result run flag commit s = (case check_control flag (ho_controls s) of
     Some e \<Rightarrow> Error e s
   | None \<Rightarrow> in_host (s\<lparr>ho_controls := release_control run (ho_controls s)\<rparr>) (commit (ho_runtime s)))"

definition running_generation :: "snapshot \<Rightarrow> result_job \<Rightarrow> bool" where
  "running_generation st j \<longleftrightarrow> st_run_id st = rj_run_id j
     \<and> running_result (cr_generation (rj_input j)) st \<noteq> None"

definition finish_result :: "world \<Rightarrow> result_job \<Rightarrow> nat \<Rightarrow> string + string \<times> result_descriptor \<Rightarrow> host \<Rightarrow> (host \<times> string option) outcome" where
  "finish_result w j flag outcome s =
     (if \<not> running_generation (rn_state (ho_runtime s)) j
      then Error ''Stale native result writer cannot commit to this Run/generation'' (s, None)
      else case outcome of
        Inr (output, d) \<Rightarrow> (case commit_result (rj_run_id j) flag (emit w (ResultExecutionFinished d)) s of
            Ok s \<Rightarrow> Ok (s, Some output)
          | Panic \<Rightarrow> Panic
          | Error e s \<Rightarrow> (case in_host s (emit w (ResultExecutionFailed (cr_generation (rj_input j))
                (''Native result commit failed: '' @ e)) (ho_runtime s)) of
              Ok s \<Rightarrow> Error e (s, None) | Error _ s \<Rightarrow> Error e (s, None) | Panic \<Rightarrow> Panic))
      | Inl e \<Rightarrow> (case in_host s (emit w (ResultExecutionFailed (cr_generation (rj_input j)) e) (ho_runtime s)) of
            Ok s \<Rightarrow> Error e (s, None) | Error e' s \<Rightarrow> Error e' (s, None) | Panic \<Rightarrow> Panic))"

text \<open>
  The synchronous caller.  Its announcement is the event of the prepared input, which is persisted at most once;
  the control is dropped at the end.  A start that succeeds always comes with a job, so \<open>Ok (s, None)\<close> does not occur.
\<close>

definition announcing :: "world \<Rightarrow> runtime \<Rightarrow> result_io \<Rightarrow> result_io" where
  "announcing w rt k = k\<lparr>ro_announce := (\<lambda>h input. case emit w (ResultExecutionPrepared input) rt of
     Ok _ \<Rightarrow> None | Error e _ \<Rightarrow> Some e | Panic \<Rightarrow> Some ''panic'')\<rparr>"

fun announced_input :: "result_trace \<Rightarrow> composite_result option" where
  "announced_input [] = None"
| "announced_input (Announce_Input r # h) = Some r"
| "announced_input (_ # h) = announced_input h"

definition after_announcement :: "world \<Rightarrow> result_trace \<Rightarrow> runtime \<Rightarrow> runtime option" where
  "after_announcement w h rt = (case announced_input h of
     None \<Rightarrow> Some rt | Some input \<Rightarrow> left (emit w (ResultExecutionPrepared input) rt))"

definition launch_result :: "world \<Rightarrow> result_io \<Rightarrow> string \<Rightarrow> string list \<Rightarrow> host \<Rightarrow> (host \<times> string option) outcome" where
  "launch_result w k generation args s = (case start_result_entry w generation args None s of
     Error e (s, _) \<Rightarrow> Error e (s, None)
   | Panic \<Rightarrow> Panic
   | Ok (s, None) \<Rightarrow> Panic
   | Ok (s, Some (j, flag)) \<Rightarrow>
       (let (r, h) = perform_result w (announcing w (ho_runtime s) k) j [];
            dropped = (\<lambda>s. s\<lparr>ho_controls := drop_control (rj_run_id j) flag (ho_controls s)\<rparr>)
        in case after_announcement w h (ho_runtime s) of
          None \<Rightarrow> Panic
        | Some rt \<Rightarrow> (case finish_result w j flag r (s\<lparr>ho_runtime := rt\<rparr>) of
            Ok (s, output) \<Rightarrow> Ok (dropped s, output)
          | Error e (s, output) \<Rightarrow> Error e (dropped s, output)
          | Panic \<Rightarrow> Panic)))"

end
