(* ===== verification/Results_Correct.thy ===== *)
theory Results_Correct
  imports Results Sessions
begin

text \<open>
  What is published can be read back, entry by entry; an execution of a published result never resets what a
  failed one left and runs only after its input was announced; its result is committed exactly once, by the
  generation that runs and only while it is not cancelled.
\<close>

section \<open>The published descriptor\<close>

definition layout_of :: "composite_result \<Rightarrow> string" where
  "layout_of r = (case cr_layout r of Some path \<Rightarrow> path | None \<Rightarrow> [])"

lemma ok_or_Inr [simp]: "ok_or x e = Inr y \<longleftrightarrow> x = Some y"
  by (auto simp: ok_or_def split: option.splits)

lemma published_entries:
  assumes "each_with (publish_entry k j head) inputs acc h = (Inr entries, h')"
  shows "entries = acc @ map (\<lambda>(name, r). entry_of head name (layout_of r) r) inputs \<and> (\<forall>(_, r) \<in> set inputs. cr_layout r \<noteq> None)"
  using assms
proof (induction inputs arbitrary: acc h)
  case (Cons x inputs)
  obtain name r where x: "x = (name, r)" by (cases x)
  from Cons.prems obtain acc1 h1 where first: "publish_entry k j head x acc h = (Inr acc1, h1)"
    and rest: "each_with (publish_entry k j head) inputs acc1 h1 = (Inr entries, h')"
    by (auto simp: attempt_ok)
  from first have "acc1 = acc @ [entry_of head name (layout_of r) r] \<and> cr_layout r \<noteq> None"
    by (auto simp: publish_entry_def x step_ok Let_def layout_of_def)
  with Cons.IH [OF rest] x show ?case by auto
qed (simp add: basic_ok)

lemma same_environment_ok:
  assumes "each_with (same_environment k first launch) entries b h = (Inr c, h')"
  shows "c \<longrightarrow> b \<and> (\<forall>e \<in> set entries. cr_launch_ref (re_result e) = cr_launch_ref (re_result first))"
  using assms
proof (induction entries arbitrary: b h)
  case (Cons e entries)
  then obtain b1 h1 where first: "same_environment k first launch e b h = (Inr b1, h1)"
    and rest: "each_with (same_environment k first launch) entries b1 h1 = (Inr c, h')"
    by (auto simp: attempt_ok)
  from first have "b1 \<longrightarrow> b \<and> cr_launch_ref (re_result e) = cr_launch_ref (re_result first)"
    by (auto simp: same_environment_def Let_def step_ok split: option.splits)
  with Cons.IH [OF rest] show ?case by auto
qed (simp add: basic_ok)

text \<open>What a descriptor for a head says of its inputs.\<close>

definition delivers :: "publication_job \<Rightarrow> string \<Rightarrow> result_descriptor \<Rightarrow> bool" where
  "delivers j head d \<longleftrightarrow>
     (\<exists>name r rest. pj_inputs j = (name, r) # rest \<and> rd_result d = r\<lparr>cr_code_ref := head, cr_resource_refs := []\<rparr>
        \<and> cr_layout r = Some (rd_workspace d) \<and> (rd_default_entry d \<noteq> None \<longrightarrow> rd_default_entry d = Some name
            \<and> (\<forall>e \<in> set (rd_entries d). cr_launch_ref (re_result e) = cr_launch_ref r)))
     \<and> rd_run_id d = pj_run_id j \<and> rd_config d = pj_policy j
     \<and> rd_entries d = (if pj_independent j then map (\<lambda>(name, r). entry_of head name (layout_of r) r) (pj_inputs j) else [])
     \<and> rd_schema d = (if pj_independent j then 2 else 1) \<and> (\<not> pj_independent j \<longrightarrow> rd_default_entry d = None)"

lemma job_descriptor_delivers:
  assumes "job_descriptor k j head h = (Inr d, h')"
  shows "delivers j head d"
proof -
  let ?es = "map (\<lambda>(name, r). entry_of head name (layout_of r) r) (pj_inputs j)"
  from assms obtain es h1 first d0 h2 where entries: "each_with (publish_entry k j head) (pj_inputs j) [] h = (Inr es, h1)"
    and some: "(case es of first # _ \<Rightarrow> Inr first | [] \<Rightarrow> Inl ''Missing terminal result'') = Inr first"
    and base: "store_descriptor k (pj_policy j) (pj_run_id j) (re_result first) h1 = (Inr d0, h2)"
    and d: "(if pj_independent j
       then attempt (ask (\<lambda>h. ro_launch k h (cr_launch_ref (re_result first)))) (\<lambda>launch.
            attempt (each_with (same_environment k first launch) es True) (\<lambda>equivalent.
              give (d0\<lparr>rd_schema := 2, rd_default_entry := (if equivalent then Some (re_name first) else None),
                rd_entries := es\<rparr>)))
       else give d0) h2 = (Inr d, h')"
    unfolding job_descriptor_def attempt_ok [of "each_with (publish_entry k j head) (pj_inputs j) []"]
    by (auto simp: attempt_ok [of "ask q" for q] attempt_ok [of "store_descriptor k p r x" for p r x] basic_ok(2) simp del: each_with.simps)
  from published_entries [OF entries] have es: "es = ?es" by simp
  with some obtain name r rest where inputs: "pj_inputs j = (name, r) # rest" and first: "first = entry_of head name (layout_of r) r"
    by (cases "pj_inputs j") auto
  have r: "re_result first = r\<lparr>cr_code_ref := head, cr_resource_refs := []\<rparr>" "re_name first = name" by (simp_all add: first entry_of_def)
  from base have d0: "rd_result d0 = re_result first" "cr_layout (re_result first) = Some (rd_workspace d0)" "rd_run_id d0 = pj_run_id j"
      "rd_config d0 = pj_policy j" "rd_entries d0 = []" "rd_schema d0 = 1" "rd_default_entry d0 = None"
    by (auto simp: store_descriptor_def step_ok)
  show ?thesis
  proof (cases "pj_independent j")
    case True
    with d obtain launch equivalent h3 h4 where same: "each_with (same_environment k first launch) es True h3 = (Inr equivalent, h4)"
      and d: "d = d0\<lparr>rd_schema := 2, rd_default_entry := (if equivalent then Some (re_name first) else None), rd_entries := es\<rparr>"
      by (auto simp: step_ok)
    have "equivalent \<longrightarrow> (\<forall>e \<in> set es. cr_launch_ref (re_result e) = cr_launch_ref r)"
      using same_environment_ok [OF same] r by simp
    then show ?thesis using True d0 r es inputs by (auto simp: delivers_def d)
  qed (use d d0 r inputs in \<open>auto simp: delivers_def step_ok\<close>)
qed


section \<open>The inputs of a publication\<close>

lemma results_of_nodes:
  assumes "results_of st names = Some (Inr rs)"
  shows "map fst rs = names \<and> (\<forall>(name, r) \<in> set rs. \<exists>n. bt_get (st_nodes st) name = Some n \<and> ns_result n = Some r)"
  using assms
proof (induction names arbitrary: rs)
  case (Cons name names)
  obtain n r z where "bt_get (st_nodes st) name = Some n" "ns_result n = Some r" "results_of st names = Some z"
    "map_result (\<lambda>rest. (name, r) # rest) z = Inr rs" using Cons.prems by (auto split: option.splits)
  moreover from this(4) obtain rest where "z = Inr rest" "rs = (name, r) # rest" by (cases z) (auto simp: map_result_def)
  ultimately have *: "bt_get (st_nodes st) name = Some n" "ns_result n = Some r"
    "results_of st names = Some (Inr rest)" "rs = (name, r) # rest" by simp_all
  from Cons.IH [OF *(3)] * show ?case by auto
qed simp

lemma checked_inputs:
  assumes "each_with (\<lambda>(_, input) _. check_input w k st input) inputs () h = (Inr u, h')"
  shows "\<forall>(_, r) \<in> set inputs. \<exists>path. cr_layout r = Some path \<and> \<not> path_is_running w st path"
  using assms
proof (induction inputs arbitrary: h)
  case (Cons x inputs)
  obtain name r where x: "x = (name, r)" by (cases x)
  from Cons.prems obtain v h1 where first: "check_input w k st r h = (Inr v, h1)"
    and rest: "each_with (\<lambda>(_, input) _. check_input w k st input) inputs () h1 = (Inr u, h')"
    by (auto simp: attempt_ok x)
  from first have "\<exists>path. cr_layout r = Some path \<and> \<not> path_is_running w st path" by (auto simp: check_input_def step_ok)
  with Cons.IH [OF rest] x show ?case by auto
qed simp

text \<open>The configuration, the terminals and what the publication starts from.\<close>

definition publishes :: "world \<Rightarrow> result_io \<Rightarrow> snapshot \<Rightarrow> publication_job \<Rightarrow> config \<Rightarrow> (string \<times> composite_result) list \<Rightarrow> bool" where
  "publishes w k st j c terminals \<longleftrightarrow> st_config st = Some c \<and> cf_environment c = Some (pj_policy j)
     \<and> terminal_results st = Some (Inr terminals) \<and> pj_run_id j = st_run_id st
     \<and> resolve_repository w c = Inr (pj_repository j) \<and> pj_independent j = ec_best_effort (pj_policy j)
     \<and> (if pj_independent j then pj_inputs j = terminals
        else \<exists>r. ro_select k terminals = Inr r \<and> pj_inputs j = [(''$publication'', r)])
     \<and> (\<forall>(_, r) \<in> set (pj_inputs j). \<exists>path. cr_layout r = Some path \<and> \<not> path_is_running w st path)"

lemma publication_publishes:
  assumes "publication_descriptor w k st head = Some publish" and "publish h = (Inr (Some d), h')"
  shows "\<exists>j c terminals. publishes w k st j c terminals \<and> delivers j head d"
proof -
  obtain input where input: "publication_environment_input w k st = Some input"
    and publish: "publish = attempt input (\<lambda>j. case j of None \<Rightarrow> give None
       | Some j \<Rightarrow> attempt (job_descriptor k j head) (\<lambda>d. give (Some d)))"
    using assms(1) by (auto simp: publication_descriptor_def)
  from assms(2) obtain j h1 h2 where j: "input h = (Inr (Some j), h1)" and d: "job_descriptor k j head h1 = (Inr d, h2)"
    by (auto simp: publish step_ok split: option.splits)
  from input j obtain c policy terminals where c: "st_config st = Some c" "cf_environment c = Some policy"
    and terminals: "terminal_results st = Some (Inr terminals)"
    and job: "publication_job_of w k st c policy terminals h = (Inr j, h1)"
    by (auto simp: publication_environment_input_def step_ok split: option.splits)
  from job obtain inputs h3 h4 where inputs: "(if ec_best_effort policy then give terminals
       else attempt (ask (\<lambda>_. ro_select k terminals)) (\<lambda>r. give [(''$publication'', r)])) h = (Inr inputs, h3)"
    and checked: "each_with (\<lambda>(_, input) _. check_input w k st input) inputs () h3 = (Inr (), h4)"
    and repository: "resolve_repository w c = Inr (pj_repository j)"
    and fields: "pj_inputs j = inputs" "pj_policy j = policy" "pj_run_id j = st_run_id st" "pj_independent j = ec_best_effort policy"
    unfolding publication_job_of_def attempt_ok and_then_ok by (auto simp: basic_ok)
  have "if pj_independent j then pj_inputs j = terminals
        else \<exists>r. ro_select k terminals = Inr r \<and> pj_inputs j = [(''$publication'', r)]"
    using inputs fields by (auto simp: step_ok)
  then have "publishes w k st j c terminals"
    unfolding publishes_def using c terminals repository fields checked_inputs [OF checked] by simp
  with job_descriptor_delivers [OF d] show ?thesis by blast
qed

section \<open>Reading it back\<close>

lemma check_published_ok:
  assumes "\<forall>r \<in> set rs. cr_resource_refs r = [] \<and> ro_metadata k g r = None \<and> cr_code_ref r = cr_code_ref (rd_result d)"
  shows "each_with (\<lambda>r _. check_published k d r) rs () g = (Inr (), g)"
  using assms by (induction rs) (simp_all add: step_ok check_published_def)

lemma delivers_reads:
  assumes d: "delivers j head d" and st: "st_published_result st = Some d" "st_published_head st = Some head"
    and "require_current_file_contract st = None" "wd_environments w st = None"
    and c: "st_config st = Some c" "cf_environment c = Some policy" "resolve_repository w c = Inr repository"
    and "\<forall>r \<in> set (rd_result d # map re_result (rd_entries d)). ro_metadata k g r = None"
    and "ro_missing k g repository head = None"
  shows "result_descriptor_of w k st g = (Inr d, g)"
proof -
  have results: "\<forall>r \<in> set (rd_result d # map re_result (rd_entries d)). cr_resource_refs r = [] \<and> cr_code_ref r = head"
    using d by (auto simp: delivers_def entry_of_def split: if_splits)
  then have "\<forall>r \<in> set (rd_result d # map re_result (rd_entries d)). cr_resource_refs r = [] \<and> ro_metadata k g r = None
      \<and> cr_code_ref r = cr_code_ref (rd_result d)" using assms(9) by auto
  note check_published_ok [OF this]
  moreover have "has_environment st" using c by (simp add: has_environment_def)
  ultimately show ?thesis using assms results
    by (simp add: result_descriptor_of_def step_ok stale_descriptor_def del: each_with.simps)
qed

lemma entry_found:
  assumes "distinct (map re_name es)" and "e \<in> set es"
  shows "find (\<lambda>x. re_name x = re_name e) es = Some e"
  using assms by (induction es) auto

definition entry_delivers :: "world \<Rightarrow> snapshot \<Rightarrow> string \<Rightarrow> result_entry \<Rightarrow> bool" where
  "entry_delivers w st head e \<longleftrightarrow> (\<exists>n r. bt_get (st_nodes st) (re_name e) = Some n \<and> ns_result n = Some r
     \<and> re_result e = r\<lparr>cr_code_ref := head, cr_resource_refs := []\<rparr>
     \<and> cr_layout r = Some (re_workspace e) \<and> \<not> path_is_running w st (re_workspace e))"

text \<open>What a descriptor says of the run it was published for.\<close>

definition descriptor_of_run :: "world \<Rightarrow> result_io \<Rightarrow> snapshot \<Rightarrow> string \<Rightarrow> result_descriptor \<Rightarrow> bool" where
  "descriptor_of_run w k st head d \<longleftrightarrow> rd_run_id d = st_run_id st
     \<and> (\<exists>c. st_config st = Some c \<and> cf_environment c = Some (rd_config d))
     \<and> (if ec_best_effort (rd_config d)
        then rd_entries d \<noteq> [] \<and> map re_name (rd_entries d) = terminal_nodes (st_graph st)
          \<and> (\<forall>e \<in> set (rd_entries d). entry_delivers w st head e)
          \<and> rd_result d = re_result (hd (rd_entries d)) \<and> rd_workspace d = re_workspace (hd (rd_entries d))
        else rd_entries d = [] \<and> rd_default_entry d = None
          \<and> (\<exists>terminals r. terminal_results st = Some (Inr terminals) \<and> ro_select k terminals = Inr r
               \<and> rd_result d = r\<lparr>cr_code_ref := head, cr_resource_refs := []\<rparr> \<and> cr_layout r = Some (rd_workspace d)
               \<and> \<not> path_is_running w st (rd_workspace d)))"

lemma published_of_run:
  assumes p: "publishes w k st j c terminals" and d: "delivers j head d"
  shows "descriptor_of_run w k st head d"
proof -
  have c: "st_config st = Some c" "cf_environment c = Some (rd_config d)" "pj_independent j = ec_best_effort (rd_config d)"
    "rd_run_id d = st_run_id st"
    using p d by (auto simp: publishes_def delivers_def)
  obtain name r rest where first: "pj_inputs j = (name, r) # rest" "rd_result d = r\<lparr>cr_code_ref := head, cr_resource_refs := []\<rparr>"
    "cr_layout r = Some (rd_workspace d)"
    using d by (auto simp: delivers_def)
  have terminals: "terminal_results st = Some (Inr terminals)" using p by (simp add: publishes_def)
  show ?thesis
  proof (cases "pj_independent j")
    case True
    have entries: "rd_entries d = map (\<lambda>(name, r). entry_of head name (layout_of r) r) terminals" "pj_inputs j = terminals"
      using True p d by (simp_all add: publishes_def delivers_def)
    have nodes: "map fst terminals = terminal_nodes (st_graph st)"
      "\<forall>(name, r) \<in> set terminals. \<exists>n. bt_get (st_nodes st) name = Some n \<and> ns_result n = Some r"
      using terminals results_of_nodes [of st "terminal_nodes (st_graph st)" terminals] by (auto simp: terminal_results_def)
    have "entry_delivers w st head e" if "e \<in> set (rd_entries d)" for e
    proof -
      from that entries obtain name r where r: "(name, r) \<in> set terminals" "e = entry_of head name (layout_of r) r" by auto
      moreover obtain path where "cr_layout r = Some path" "\<not> path_is_running w st path"
        using p r entries(2) by (fastforce simp: publishes_def)
      moreover obtain n where "bt_get (st_nodes st) name = Some n" "ns_result n = Some r" using nodes(2) r(1) by blast
      ultimately show ?thesis by (simp add: entry_delivers_def entry_of_def layout_of_def)
    qed
    moreover have "map re_name (rd_entries d) = terminal_nodes (st_graph st)"
      using entries(1) nodes(1) by (auto simp: entry_of_def comp_def case_prod_unfold)
    moreover have "rd_entries d \<noteq> [] \<and> rd_result d = re_result (hd (rd_entries d)) \<and> rd_workspace d = re_workspace (hd (rd_entries d))"
      using first entries by (simp add: entry_of_def layout_of_def)
    ultimately show ?thesis using c True by (auto simp: descriptor_of_run_def)
  next
    case False
    with p d have selected: "\<exists>r. ro_select k terminals = Inr r \<and> pj_inputs j = [(''$publication'', r)]"
      "rd_entries d = []" "rd_default_entry d = None"
      by (simp_all add: publishes_def delivers_def)
    then have "ro_select k terminals = Inr r" using first(1) by auto
    moreover have "\<not> path_is_running w st (rd_workspace d)" using p first by (fastforce simp: publishes_def)
    ultimately show ?thesis using c False selected(2,3) first(2,3) terminals by (auto simp: descriptor_of_run_def)
  qed
qed

text \<open>C32: The descriptor published for a head can be read from any later state that still carries it.  It names the
  run and the environment policy of its configuration.  When that policy asks for independent entries it has exactly
  one per terminal node, in the order of the graph: the result of that node with the published code, in a
  directory nobody writes to; each can be chosen by its name, and the first is the result of the descriptor.
  Otherwise it has no entries, and its result is the one selected from the terminal results, with the published
  code, again in a directory nobody writes to.\<close>

theorem published_result_readable:
  assumes "publication_descriptor w k st head = Some publish" and "publish h = (Inr (Some d), h')"
    and "st_published_result st' = Some d" "st_published_head st' = Some head" "st_config st' = st_config st"
    and "require_current_file_contract st' = None" "wd_environments w st' = None"
    and "\<forall>r \<in> set (rd_result d # map re_result (rd_entries d)). ro_metadata k g r = None"
    and "\<forall>repository. ro_missing k g repository head = None"
  shows "result_descriptor_of w k st' g = (Inr d, g) \<and> descriptor_of_run w k st head d
     \<and> (distinct (terminal_nodes (st_graph st)) \<longrightarrow> (\<forall>e \<in> set (rd_entries d).
          for_entry d (Some (re_name e)) = Inr (d\<lparr>rd_result := re_result e, rd_workspace := re_workspace e\<rparr>)))"
proof -
  obtain j c terminals where p: "publishes w k st j c terminals" and d: "delivers j head d"
    using publication_publishes [OF assms(1,2)] by blast
  have read: "result_descriptor_of w k st' g = (Inr d, g)"
    using p assms by (intro delivers_reads [OF d, of _ _ c "pj_policy j" "pj_repository j"]) (auto simp: publishes_def)
  note of_run = published_of_run [OF p d]
  have "for_entry d (Some (re_name e)) = Inr (d\<lparr>rd_result := re_result e, rd_workspace := re_workspace e\<rparr>)"
    if "distinct (terminal_nodes (st_graph st))" "e \<in> set (rd_entries d)" for e
    using that of_run entry_found [of "rd_entries d" e] by (auto simp: for_entry_def descriptor_of_run_def split: if_splits)
  then show ?thesis using read of_run by blast
qed


section \<open>What an execution of a published result may do\<close>

definition result_path :: "result_job \<Rightarrow> string" where
  "result_path j = rd_workspace (rj_descriptor j)"

definition result_present :: "result_io \<Rightarrow> result_job \<Rightarrow> bool" where
  "result_present k j \<longleftrightarrow> ro_is_dir k [] (result_path j)"

text \<open>The view is as it was published.\<close>

definition view_unchanged :: "result_io \<Rightarrow> result_job \<Rightarrow> bool" where
  "view_unchanged k j \<longleftrightarrow> (let r = rd_result (rj_descriptor j) in
     \<exists>repository excluded. ro_view k [] (result_path j) repository (cr_code_ref r) excluded = None
       \<and> ro_head k [] (result_path j) = Inr (cr_code_ref r) \<and> ro_status k [] (result_path j) excluded = Inr []
       \<and> ro_environment k [] (result_path j) (cr_launch_ref r) (cr_environment_ref r) = None)"

definition starts_sound :: "result_io \<Rightarrow> result_job \<Rightarrow> bool" where
  "starts_sound k j \<longleftrightarrow> (rj_retry j \<longrightarrow> result_present k j) \<and> (result_present k j \<and> \<not> rj_retry j \<longrightarrow> view_unchanged k j)"

definition input_announced :: "result_io \<Rightarrow> result_trace \<Rightarrow> bool" where
  "input_announced k h \<longleftrightarrow> (\<exists>a input. h = a @ [Announce_Input input] \<and> ro_announce k a input = None \<and> ro_control k a = None)"

definition result_ran :: "result_io \<Rightarrow> result_trace \<Rightarrow> bool" where
  "result_ran k h \<longleftrightarrow> (\<exists>a path args timeout limit output b. h = (a @ [Run_Result path args timeout limit]) @ b
     \<and> ro_run k a path args = Inr output \<and> ro_control k (a @ [Run_Result path args timeout limit]) = None)"

definition result_allowed :: "result_io \<Rightarrow> result_job \<Rightarrow> result_trace \<Rightarrow> result_effect \<Rightarrow> bool" where
  "result_allowed k j h e \<longleftrightarrow> starts_sound k j \<and> (case e of
     Record_Selection generation _ \<Rightarrow> generation = cr_generation (rj_input j)
   | Compose_View path head \<Rightarrow> path = result_path j \<and> head = cr_code_ref (rd_result (rj_descriptor j))
       \<and> \<not> rj_retry j \<and> \<not> result_present k j
   | Save_View path \<Rightarrow> path = result_path j
   | Prepare_View path r generation keep fresh \<Rightarrow> path = result_path j \<and> r = rd_result (rj_descriptor j)
       \<and> generation = cr_generation (rj_input j) \<and> keep = rj_retry j \<and> fresh = (\<not> result_present k j)
   | Announce_Input _ \<Rightarrow> ro_control k h = None
   | Run_Result path args _ _ \<Rightarrow> path = result_path j \<and> args = rj_args j \<and> input_announced k h
   | Prove_View _ \<Rightarrow> result_ran k h
   | Seal_View path _ _ \<Rightarrow> path = result_path j \<and> result_ran k h)"

abbreviation result_course :: "result_io \<Rightarrow> result_job \<Rightarrow> (result_trace \<Rightarrow> bool) \<Rightarrow> result_trace \<Rightarrow> bool" where
  "result_course k j \<equiv> so_far (result_allowed k j)"

abbreviation result_fails :: "result_io \<Rightarrow> result_job \<Rightarrow> result_trace \<Rightarrow> bool" where
  "result_fails k j \<equiv> in_place (result_allowed k j)"

lemma check_result_view_sound:
  assumes "check_result_view k j repository (result_present k j) excluded [] = (Inr u, h)"
  shows "h = [] \<and> starts_sound k j"
  using assms
  by (auto simp: check_result_view_def Let_def step_ok starts_sound_def view_unchanged_def result_path_def split: if_splits)

lemma prepare_result_course:
  assumes "starts_sound k j"
  shows "holds (result_course k j (\<lambda>_. True)) (prepare_result k j repository (result_present k j) excluded)
    (\<lambda>input. result_course k j (input_announced k)) (result_fails k j)"
proof -
  let ?k = "result_course k j (\<lambda>_. True)"
  have retry: "result_present k j \<and> rj_retry j \<longleftrightarrow> rj_retry j" using assms by (auto simp: starts_sound_def)
  note act = act_stable [where S = "\<lambda>_. True" and ok = "result_allowed k j"]
  have compose: "holds ?k (only_if (\<not> result_present k j) (attempt (act (Compose_View (result_path j) (cr_code_ref (rd_result (rj_descriptor j)))) q)
      (\<lambda>_. give ()))) (\<lambda>_. ?k) (result_fails k j)" for q :: "result_trace \<Rightarrow> string + string"
    using assms by (intro holds_only_if holds_attempt [OF act(1)] holds_give) (auto simp: result_allowed_def starts_sound_def)
  have announce: "holds (result_course k j (\<lambda>h. True \<and> ro_control k h = None)) (act_ok (Announce_Input input) (\<lambda>h. ro_announce k h input))
      (\<lambda>_. result_course k j (input_announced k)) (result_fails k j)" for input
    by (rule holds_weaken [OF act_so_far(2) [where S = "\<lambda>h. True \<and> ro_control k h = None"]])
      (auto simp: result_allowed_def assms so_far_def input_announced_def)
  show ?thesis
    unfolding prepare_result_def Let_def result_path_def [symmetric] retry
    by (rule holds_and_then [OF reads_so_far] holds_and_then [OF act(2)] holds_and_then [OF compose] holds_attempt [OF act(1)]
        holds_and_then [OF read_so_far(4)] holds_and_then [OF announce] holds_give step_rules
      | simp add: result_allowed_def assms)+
qed

lemma run_result_course:
  assumes "starts_sound k j"
  shows "holds (result_course k j (input_announced k)) (run_result k j policy repository input)
    (\<lambda>output. result_course k j (\<lambda>h. \<exists>a path args timeout limit. h = a @ [Run_Result path args timeout limit]
       \<and> ro_run k a path args = Inr output)) (result_fails k j)"
proof -
  have "holds (result_course k j (input_announced k)) (act (Run_Result (result_path j) (rj_args j) timeout limit)
      (\<lambda>h. ro_run k h (result_path j) (rj_args j)))
    (\<lambda>output. result_course k j (\<lambda>h. \<exists>a path args timeout limit. h = a @ [Run_Result path args timeout limit]
       \<and> ro_run k a path args = Inr output)) (result_fails k j)" for timeout limit
    by (rule so_far_weaken [OF act_so_far(1) [where S = "input_announced k"]]) (auto simp: result_allowed_def assms)
  then show ?thesis
    unfolding run_result_def Let_def result_path_def [symmetric]
    by (intro holds_and_then [OF reads_so_far]) (auto intro: step_rules)
qed

lemma result_ran_more: "result_ran k h \<Longrightarrow> result_ran k (h @ [e])"
  unfolding result_ran_def by (metis append.assoc)

lemma seal_result_course:
  assumes "starts_sound k j"
  shows "holds (result_course k j (\<lambda>h. \<exists>a path args timeout limit. h = a @ [Run_Result path args timeout limit]
       \<and> ro_run k a path args = Inr output')) (seal_result k j policy repository input excluded output)
    (\<lambda>_. result_course k j (result_ran k)) (result_fails k j)"
proof -
  have ran: "result_ran k h" if "\<exists>a path args timeout limit. h = a @ [Run_Result path args timeout limit] \<and> ro_run k a path args = Inr output'"
      "ro_control k h = None" for h
    using that unfolding result_ran_def by (metis append_Nil2)
  have go_on: "holds (result_course k j (\<lambda>h. \<exists>a path args timeout limit. h = a @ [Run_Result path args timeout limit]
      \<and> ro_run k a path args = Inr output')) (check_ok (ro_control k)) (\<lambda>_. result_course k j (result_ran k)) (result_fails k j)"
    by (rule so_far_weaken [OF read_so_far(4) [where S = "\<lambda>h. \<exists>a path args timeout limit.
        h = a @ [Run_Result path args timeout limit] \<and> ro_run k a path args = Inr output'"]]) (auto intro: ran)
  note act = act_stable [where S = "result_ran k" and ok = "result_allowed k j", OF _ result_ran_more]
  have descriptor: "reads (store_descriptor k policy run r)" for run r
    by (auto simp: store_descriptor_def intro!: step_rules)
  show ?thesis
    unfolding seal_result_def Let_def result_path_def [symmetric]
    by (rule holds_and_then [OF go_on] holds_and_then [OF act(2)] holds_attempt [OF act(1)]
        holds_attempt [OF reads_so_far [OF descriptor]] holds_attempt [OF reads_so_far] holds_and_then [OF reads_so_far] holds_give step_rules
      | simp add: result_allowed_def assms | assumption)+
qed

lemma perform_result_course:
  "holds (\<lambda>h. h = []) (perform_result w k j) (\<lambda>_. result_course k j (result_ran k)) (result_fails k j)"
proof -
  have start: "holds (\<lambda>h. h = []) (check_result_view k j repository (result_present k j) excluded)
      (\<lambda>_ h. h = [] \<and> starts_sound k j) (\<lambda>h. h = [])" for repository excluded
  proof -
    have "reads (check_result_view k j repository (result_present k j) excluded)"
      by (auto simp: check_result_view_def Let_def intro!: step_rules)
    then have same: "snd (check_result_view k j repository (result_present k j) excluded []) = []" by (simp add: reads_def)
    show ?thesis using check_result_view_sound [of k j repository excluded] same
      by (cases "check_result_view k j repository (result_present k j) excluded []") (auto simp: holds_def split: sum.splits)
  qed
  have reading: "holds (\<lambda>h. h = []) s (\<lambda>_ h. h = []) (\<lambda>h. h = [])" if "reads s" for s :: "'c result_step"
    by (rule holds_reads [OF that])
  have looking: "holds (\<lambda>h. h = []) (look (\<lambda>h. ro_is_dir k h (rd_workspace (rj_descriptor j))))
      (\<lambda>x h. h = [] \<and> x = result_present k j) (result_fails k j)"
    by (auto simp: holds_def look_def result_present_def result_path_def)
  have sound: "holds (\<lambda>h. h = [] \<and> starts_sound k j) (attempt (prepare_result k j repository (result_present k j) excluded) (\<lambda>input.
        attempt (run_result k j policy repository input) (\<lambda>output. seal_result k j policy repository input excluded output)))
      (\<lambda>_. result_course k j (result_ran k)) (result_fails k j)" for repository excluded policy
  proof (rule holds_pure)
    assume s: "starts_sound k j"
    show ?thesis
      by (rule holds_attempt [OF holds_weaken [OF prepare_result_course [OF s], where Q' = "\<lambda>_. result_course k j (input_announced k)"]
          holds_attempt [OF run_result_course [OF s] seal_result_course [OF s]]]) (auto simp: so_far_def)
  qed blast
  have rest: "holds (\<lambda>h. h = [] \<and> present = result_present k j) (and_then (check_result_view k j repository present excluded)
       (attempt (prepare_result k j repository present excluded) (\<lambda>input.
        attempt (run_result k j policy repository input) (\<lambda>output. seal_result k j policy repository input excluded output))))
      (\<lambda>_. result_course k j (result_ran k)) (result_fails k j)" for present repository excluded policy
  proof (rule holds_pure)
    assume p: "present = result_present k j"
    show ?thesis unfolding p
      by (rule holds_and_then [OF holds_weaken [OF start] sound]) auto
  qed blast
  have fails: "result_fails k j []" by simp
  have first: "holds (\<lambda>h. h = []) s (\<lambda>_ h. h = []) (result_fails k j)" if "reads s" for s :: "'c result_step"
    by (rule holds_weaken [OF reading [OF that]]) auto
  show ?thesis
    unfolding perform_result_def perform_result_in_def Let_def
    by (intro holds_and_then [OF first] holds_attempt [OF first] holds_attempt [OF looking] rest step_rules)
qed


text \<open>C33: An execution of a published result that is not a retry starts from a view that is missing or as it was
  published; a retry never composes its view anew.  The command runs only right after its input was announced,
  and what it produced is sealed only when it succeeded and the execution was not cancelled since.\<close>

theorem result_execution_sound:
  assumes "perform_result w k j [] = (r, h)"
  shows "(\<forall>a e b. h = a @ e # b \<longrightarrow> result_allowed k j a e) \<and> (\<forall>d. r = Inr d \<longrightarrow> result_ran k h)"
  using perform_result_course [of w k j] assms
  by (auto simp: holds_def so_far_def in_place_def split: sum.splits)


section \<open>Committing a result\<close>

lemma running_result_iff: "running_result g st = Some x \<longleftrightarrow>
   st_result_execution st = Some x \<and> rx_status x = ''running'' \<and> cr_generation (rx_input x) = g"
  by (auto simp: running_result_def split: option.splits)

lemma logged_fields:
  "st_published_result (log_event en ev st) = st_published_result st" "st_publication (log_event en ev st) = st_publication st"
  "st_result_execution (log_event en ev st) = st_result_execution st" "st_phase (log_event en ev st) = st_phase st"
  by (simp_all add: log_event_def refresh_metrics_def)

lemma result_finished_event:
  assumes "emit w (ResultExecutionFinished d) rt = Ok rt'" and "running_result (cr_generation (rd_result d)) (rn_state rt) = Some x"
  shows "st_result_execution (rn_state rt') = Some (x\<lparr>rx_status := ''completed'', rx_result := Some (rd_result d)\<rparr>)
    \<and> st_published_result (rn_state rt') = Some d \<and> st_publication (rn_state rt') = None \<and> st_phase (rn_state rt') = ''running''"
proof -
  obtain ev where ev: "ev_kind ev = ResultExecutionFinished d" "apply_event (wd_env w) ev (rn_state rt) = Some (rn_state rt')"
    using emit_plain_event [OF assms(1)] by (auto simp: plain_kind_def)
  have quiet: "note_planning ev (rn_state rt) = rn_state rt" using ev(1) by (simp add: note_planning_def planning_summary_of_def)
  from ev obtain u where "u = handle_result_finished d (rn_state rt)" "rn_state rt' = log_event (wd_env w) ev u"
    by (auto simp: handle_def quiet elim!: apply_eventE)
  then show ?thesis using assms(2) by (simp add: handle_result_finished_def logged_fields)
qed

lemma result_failed_event:
  assumes "left (emit w (ResultExecutionFailed g m) rt) = Some rt'"
  shows "st_published_result (rn_state rt') = st_published_result (rn_state rt)
    \<and> (\<exists>evs. st_events (rn_state rt') = st_events (rn_state rt) @ evs \<and> (\<forall>ev \<in> set evs. ev_kind ev = ResultExecutionFailed g m))"
proof -
  have plain: "plain_kind (ResultExecutionFailed g m)" by (simp add: plain_kind_def)
  from emit_plain_left [OF assms plain] have "st_published_result (rn_state rt') = st_published_result (rn_state rt)"
  proof
    assume "\<exists>ev. ev_kind ev = ResultExecutionFailed g m \<and> apply_event (wd_env w) ev (rn_state rt) = Some (rn_state rt')"
    then obtain ev where ev: "ev_kind ev = ResultExecutionFailed g m" "apply_event (wd_env w) ev (rn_state rt) = Some (rn_state rt')" by blast
    have quiet: "note_planning ev (rn_state rt) = rn_state rt" using ev(1) by (simp add: note_planning_def planning_summary_of_def)
    from ev(2,1) obtain u where "u = handle_result_failed g m (rn_state rt)" "rn_state rt' = log_event (wd_env w) ev u"
      by (auto simp: handle_def quiet elim!: apply_eventE)
    then show ?thesis by (simp add: handle_result_failed_def logged_fields split: option.splits)
  qed simp
  with emit_plain_log_left [OF assms plain] show ?thesis by blast
qed

lemma left_in_host: "left (in_host s r) = Some s' \<longleftrightarrow> (\<exists>rt. left r = Some rt \<and> s' = s\<lparr>ho_runtime := rt\<rparr>)"
  by (cases r) auto

text \<open>A commit that fails did not change the state.\<close>

lemma commit_result_error:
  assumes "commit_result run flag (emit w (ResultExecutionFinished d)) s = Error e s'"
  shows "rn_state (ho_runtime s') = rn_state (ho_runtime s)"
  using assms emit_plain_error [of w "ResultExecutionFinished d" "ho_runtime s"]
  by (cases "emit w (ResultExecutionFinished d) (ho_runtime s)") (auto simp: commit_result_def plain_kind_def split: option.splits)

lemma finish_result_Error:
  assumes "finish_result w j flag outcome s = Error e (s', out)" and "running_generation (rn_state (ho_runtime s)) j"
  shows "out = None \<and> (\<exists>(s1 :: host) m. rn_state (ho_runtime s1) = rn_state (ho_runtime s)
    \<and> left (emit w (ResultExecutionFailed (cr_generation (rj_input j)) m) (ho_runtime s1)) = Some (ho_runtime s'))"
proof (cases outcome)
  case (Inl m)
  have "out = None \<and> left (emit w (ResultExecutionFailed (cr_generation (rj_input j)) m) (ho_runtime s)) = Some (ho_runtime s')"
    using assms Inl
    by (cases "emit w (ResultExecutionFailed (cr_generation (rj_input j)) m) (ho_runtime s)") (auto simp: finish_result_def)
  then show ?thesis by (auto intro!: exI [of _ s] exI [of _ m])
next
  case (Inr x)
  obtain answer d where x: "x = (answer, d)" by (cases x)
  from assms Inr x obtain e1 s1 where c: "commit_result (rj_run_id j) flag (emit w (ResultExecutionFinished d)) s = Error e1 s1"
    by (auto simp: finish_result_def split: outcome.splits)
  have "out = None \<and> left (emit w (ResultExecutionFailed (cr_generation (rj_input j)) (''Native result commit failed: '' @ e1)) (ho_runtime s1))
      = Some (ho_runtime s')"
    using assms Inr x c
    by (cases "emit w (ResultExecutionFailed (cr_generation (rj_input j)) (''Native result commit failed: '' @ e1)) (ho_runtime s1)")
      (auto simp: finish_result_def)
  then show ?thesis using commit_result_error [OF c]
    by (auto intro!: exI [of _ s1] exI [of _ "''Native result commit failed: '' @ e1"])
qed

lemma finish_result_keeps:
  assumes "finish_result w j flag outcome s = Error e (s', out)"
  shows "st_published_result (rn_state (ho_runtime s')) = st_published_result (rn_state (ho_runtime s))"
proof (cases "running_generation (rn_state (ho_runtime s)) j")
  case True
  from finish_result_Error [OF assms True] obtain s1 :: host and m where "rn_state (ho_runtime s1) = rn_state (ho_runtime s)"
    "left (emit w (ResultExecutionFailed (cr_generation (rj_input j)) m) (ho_runtime s1)) = Some (ho_runtime s')" by blast
  then show ?thesis using result_failed_event by metis
qed (use assms in \<open>simp add: finish_result_def\<close>)

lemma released_not_active: "cancel_result run (release_control run c) = Inl ''No active result execution to cancel''"
  by (simp add: cancel_result_def release_control_def bt.get_retain)

lemma finish_result_Ok:
  assumes "finish_result w j flag outcome s = Ok (s', out)"
    and "\<And>answer d. outcome = Inr (answer, d) \<Longrightarrow> cr_generation (rd_result d) = cr_generation (rj_input j)"
  shows "check_control flag (ho_controls s) = None
    \<and> cancel_result (rj_run_id j) (ho_controls s') = Inl ''No active result execution to cancel''
    \<and> (\<exists>answer d x. outcome = Inr (answer, d) \<and> out = Some answer \<and> st_published_result (rn_state (ho_runtime s')) = Some d
        \<and> st_result_execution (rn_state (ho_runtime s')) = Some (x\<lparr>rx_status := ''completed'', rx_result := Some (rd_result d)\<rparr>))"
proof -
  from assms(1) have running: "running_generation (rn_state (ho_runtime s)) j" by (auto simp: finish_result_def split: if_splits)
  with assms(1) obtain answer d where o: "outcome = Inr (answer, d)" "out = Some answer"
    and c: "commit_result (rj_run_id j) flag (emit w (ResultExecutionFinished d)) s = Ok s'"
    by (auto simp: finish_result_def split: sum.splits outcome.splits)
  from c obtain rt where flag: "check_control flag (ho_controls s) = None"
    and rt: "emit w (ResultExecutionFinished d) (ho_runtime s) = Ok rt"
    and s': "s' = s\<lparr>ho_controls := release_control (rj_run_id j) (ho_controls s), ho_runtime := rt\<rparr>"
    by (cases "emit w (ResultExecutionFinished d) (ho_runtime s)") (auto simp: commit_result_def split: option.splits)
  obtain x where "running_result (cr_generation (rd_result d)) (rn_state (ho_runtime s)) = Some x"
    using running assms(2) [OF o(1)] by (auto simp: running_generation_def)
  from result_finished_event [OF rt this] show ?thesis using o flag by (auto simp: s' released_not_active)
qed

text \<open>C34: A result is committed only by the generation that runs and only while its execution is not cancelled; then
  nothing is left to cancel, and what is published is the new descriptor.  Whatever else happens, the published
  result stays as it was, and the log gains at most the failure of that generation.\<close>

theorem result_commits_once:
  assumes "\<And>answer d. outcome = Inr (answer, d) \<Longrightarrow> cr_generation (rd_result d) = cr_generation (rj_input j)"
  shows "case finish_result w j flag outcome s of
      Ok (s', out) \<Rightarrow> running_generation (rn_state (ho_runtime s)) j \<and> check_control flag (ho_controls s) = None
        \<and> cancel_result (rj_run_id j) (ho_controls s') = Inl ''No active result execution to cancel''
        \<and> (\<exists>answer d x. outcome = Inr (answer, d) \<and> out = Some answer \<and> st_published_result (rn_state (ho_runtime s')) = Some d
            \<and> st_result_execution (rn_state (ho_runtime s')) = Some (x\<lparr>rx_status := ''completed'', rx_result := Some (rd_result d)\<rparr>))
    | Error e (s', out) \<Rightarrow> out = None \<and> st_published_result (rn_state (ho_runtime s')) = st_published_result (rn_state (ho_runtime s))
        \<and> (\<exists>evs. st_events (rn_state (ho_runtime s')) = st_events (rn_state (ho_runtime s)) @ evs
            \<and> (\<forall>ev \<in> set evs. \<exists>m. ev_kind ev = ResultExecutionFailed (cr_generation (rj_input j)) m)
            \<and> (\<not> running_generation (rn_state (ho_runtime s)) j \<longrightarrow> s' = s \<and> evs = []))
    | Panic \<Rightarrow> True"
proof (cases "finish_result w j flag outcome s")
  case (Ok p)
  then obtain s' out where p: "finish_result w j flag outcome s = Ok (s', out)" by (cases p) simp
  then have "running_generation (rn_state (ho_runtime s)) j" by (auto simp: finish_result_def split: if_splits)
  with finish_result_Ok [OF p assms] p show ?thesis by simp
next
  case (Error e p)
  then obtain s' out where p: "finish_result w j flag outcome s = Error e (s', out)" by (cases p) simp
  show ?thesis
  proof (cases "running_generation (rn_state (ho_runtime s)) j")
    case True
    from finish_result_Error [OF p True] obtain s1 :: host and m where out: "out = None" and s1: "rn_state (ho_runtime s1) = rn_state (ho_runtime s)"
      and e: "left (emit w (ResultExecutionFailed (cr_generation (rj_input j)) m) (ho_runtime s1)) = Some (ho_runtime s')" by blast
    from result_failed_event [OF e] p out s1 True show ?thesis by auto
  next
    case False
    then have "finish_result w j flag outcome s = Error ''Stale native result writer cannot commit to this Run/generation'' (s, None)"
      by (simp add: finish_result_def)
    then show ?thesis by simp
  qed
qed simp


section \<open>A published result\<close>

definition sample_policy :: environment_config where
  "sample_policy = \<lparr>ec_mode = [], ec_platform = [], ec_arch = [], ec_scopes = [], ec_caches = [], ec_layout = [],
     ec_launch = \<lparr>lc_entry = [], lc_path = [], lc_shell = [], lc_variables = [], lc_inherit = [], lc_hook = None,
       lc_managed_scopes = [], lc_ambient_hints = [], lc_environment = None\<rparr>,
     ec_baseline = [], ec_initialize = [], ec_import_source = False, ec_launch_file = None, ec_authority = [],
     ec_allow_descendant = False, ec_require = [],
     ec_resources = Some \<lparr>rs_memory_bytes = None, rs_cpu_rate = None, rs_device = None, rs_initialize_timeout_seconds = None,
       rs_result_timeout_seconds = None, rs_max_output_bytes = Some 9\<rparr>, ec_discovery = True, ec_best_effort = True\<rparr>"

definition sample_composite :: "string \<Rightarrow> composite_result" where
  "sample_composite path = \<lparr>cr_domain = sample_domain, cr_code_ref = ''h1'', cr_environment_ref = ''v0'', cr_launch_ref = ''l0'',
     cr_resource_refs = [], cr_layout = Some path, cr_generation = ''g0'', cr_selected_from = [], cr_inheritance = None\<rparr>"

text \<open>Two independent nodes are finished in directories of their own.\<close>

definition finished_entries :: "environment_config \<Rightarrow> event_kind list" where
  "finished_entries policy =
     [Created (sample_run_graph\<lparr>gr_edges := []\<rparr>) (sample_config\<lparr>cf_environment := Some policy\<rparr>) (Some ''p'') (Some sample_summary),
      EnvironmentInitialized (sample_composite []), Approved ''h0'',
      Started (sample_attempt ''e1'' ''a'') None False, ExecutionResultRecorded ''e1'' (sample_composite ''/slots/a''),
      Finished ''e1'' ''h1'' [] 0 None,
      Started (sample_attempt ''e2'' ''b'') None False, ExecutionResultRecorded ''e2'' (sample_composite ''/slots/b''),
      Finished ''e2'' ''h2'' [] 0 None]"

definition sample_entries_run :: snapshot where
  "sample_entries_run = run_of (finished_entries sample_policy)"

definition sample_io :: result_io where
  "sample_io = \<lparr>ro_control = (\<lambda>_. None), ro_acquire = (\<lambda>_. None), ro_open = (\<lambda>_. None), ro_select = (\<lambda>_. Inl ''none''),
     ro_metadata = (\<lambda>_ _. None), ro_valid = (\<lambda>_ _. None), ro_exclusions = (\<lambda>_ _. Inr []), ro_missing = (\<lambda>_ _ _. None),
     ro_is_dir = (\<lambda>_ _. True), ro_view = (\<lambda>_ _ _ _ _. None), ro_head = (\<lambda>_ _. Inr ''h9''), ro_status = (\<lambda>_ _ _. Inr []),
     ro_environment = (\<lambda>_ _ _ _. None), ro_record = (\<lambda>_ _ _. None), ro_compose = (\<lambda>_ _ _ head _. Inr head),
     ro_prepare = (\<lambda>_ _ r g _ _ _. Inr (r\<lparr>cr_generation := g\<rparr>)), ro_fresh = (\<lambda>_. ''g1''), ro_save = (\<lambda>_ _ _ _. Inr ''h10''),
     ro_announce = (\<lambda>_ _. None), ro_command = (\<lambda>_ _ _ _. None), ro_run = (\<lambda>_ _ _. Inr ''hello''),
     ro_discover = (\<lambda>_ _. Inr), ro_prove = (\<lambda>_ _ _ _. None), ro_tracked = (\<lambda>_ _ _. None),
     ro_seal = (\<lambda>_ _ r head. Inr (r\<lparr>cr_code_ref := head\<rparr>)), ro_launch = (\<lambda>_ _. Inr (ec_launch sample_policy)),
     ro_launchable = (\<lambda>_ _ _. None), ro_same_scope = (\<lambda>_ _ _ _. Inr True), ro_text = Inr\<rparr>"

definition sample_descriptor :: result_descriptor where
  "sample_descriptor = \<lparr>rd_schema = 2, rd_run_id = [], rd_result = (sample_composite ''/slots/a'')\<lparr>cr_code_ref := ''h9''\<rparr>,
     rd_config = sample_policy, rd_workspace = ''/slots/a'',
     rd_entries = [entry_of ''h9'' ''a'' ''/slots/a'' (sample_composite ''/slots/a''),
       entry_of ''h9'' ''b'' ''/slots/b'' (sample_composite ''/slots/b'')],
     rd_default_entry = Some ''a''\<rparr>"

lemma sample_publication:
  "case publication_descriptor sample_world sample_io sample_entries_run ''h9'' of
     Some publish \<Rightarrow> fst (publish []) = Inr (Some sample_descriptor) | None \<Rightarrow> False"
  by code_simp

definition sample_delivered :: snapshot where
  "sample_delivered = sample_entries_run\<lparr>st_published_result := Some sample_descriptor, st_published_head := Some ''h9'',
     st_phase := ''completed''\<rparr>"

lemma sample_delivered_ready:
  "require_current_file_contract sample_delivered = None"
  by code_simp

text \<open>The same run without independent entries, where the second result is selected.\<close>

definition selection_run :: snapshot where
  "selection_run = run_of (finished_entries (sample_policy\<lparr>ec_best_effort := False\<rparr>))"

definition selecting_io :: result_io where
  "selecting_io = sample_io\<lparr>ro_select := (\<lambda>rs. if rs = [] then Inl ''none'' else Inr (snd (last rs)))\<rparr>"

definition selected_descriptor :: result_descriptor where
  "selected_descriptor = \<lparr>rd_schema = 1, rd_run_id = [], rd_result = (sample_composite ''/slots/b'')\<lparr>cr_code_ref := ''h9''\<rparr>,
     rd_config = sample_policy\<lparr>ec_best_effort := False\<rparr>, rd_workspace = ''/slots/b'', rd_entries = [], rd_default_entry = None\<rparr>"

lemma selected_publication:
  "case publication_descriptor sample_world selecting_io selection_run ''h9'' of
     Some publish \<Rightarrow> fst (publish []) = Inr (Some selected_descriptor) | None \<Rightarrow> False"
  by code_simp

definition selected_delivered :: snapshot where
  "selected_delivered = selection_run\<lparr>st_published_result := Some selected_descriptor, st_published_head := Some ''h9'',
     st_phase := ''completed''\<rparr>"

lemma selected_delivered_ready:
  "require_current_file_contract selected_delivered = None"
  by code_simp

lemma published_result_readable_witness:
  "(result_descriptor_of sample_world sample_io sample_delivered [] = (Inr sample_descriptor, [])
     \<and> map re_name (rd_entries sample_descriptor) = terminal_nodes (st_graph sample_entries_run)
     \<and> entry_delivers sample_world sample_entries_run ''h9'' (entry_of ''h9'' ''a'' ''/slots/a'' (sample_composite ''/slots/a''))
     \<and> entry_delivers sample_world sample_entries_run ''h9'' (entry_of ''h9'' ''b'' ''/slots/b'' (sample_composite ''/slots/b'')))
   \<and> (result_descriptor_of sample_world selecting_io selected_delivered [] = (Inr selected_descriptor, [])
     \<and> descriptor_of_run sample_world selecting_io selection_run ''h9'' selected_descriptor)"
proof
  obtain publish where p: "publication_descriptor sample_world sample_io sample_entries_run ''h9'' = Some publish"
    and fst: "fst (publish []) = Inr (Some sample_descriptor)" using sample_publication by (auto split: option.splits)
  then obtain h where h: "publish [] = (Inr (Some sample_descriptor), h)" by (metis surjective_pairing)
  have world: "wd_environments sample_world x = None" for x by (simp add: sample_world_def)
  have "result_descriptor_of sample_world sample_io sample_delivered [] = (Inr sample_descriptor, [])
      \<and> descriptor_of_run sample_world sample_io sample_entries_run ''h9'' sample_descriptor"
    using published_result_readable [OF p h, of sample_delivered "[]"] sample_delivered_ready world
    by (simp add: sample_delivered_def sample_io_def)
  then show "result_descriptor_of sample_world sample_io sample_delivered [] = (Inr sample_descriptor, [])
     \<and> map re_name (rd_entries sample_descriptor) = terminal_nodes (st_graph sample_entries_run)
     \<and> entry_delivers sample_world sample_entries_run ''h9'' (entry_of ''h9'' ''a'' ''/slots/a'' (sample_composite ''/slots/a''))
     \<and> entry_delivers sample_world sample_entries_run ''h9'' (entry_of ''h9'' ''b'' ''/slots/b'' (sample_composite ''/slots/b''))"
    by (simp add: descriptor_of_run_def) (simp add: sample_descriptor_def sample_policy_def)
next
  obtain publish where p: "publication_descriptor sample_world selecting_io selection_run ''h9'' = Some publish"
    and fst: "fst (publish []) = Inr (Some selected_descriptor)" using selected_publication by (auto split: option.splits)
  then obtain h where h: "publish [] = (Inr (Some selected_descriptor), h)" by (metis surjective_pairing)
  have world: "wd_environments sample_world x = None" for x by (simp add: sample_world_def)
  show "result_descriptor_of sample_world selecting_io selected_delivered [] = (Inr selected_descriptor, [])
      \<and> descriptor_of_run sample_world selecting_io selection_run ''h9'' selected_descriptor"
    using published_result_readable [OF p h, of selected_delivered "[]"] selected_delivered_ready world
    by (simp add: selected_delivered_def selecting_io_def sample_io_def)
qed

definition sample_result_job :: result_job where
  "sample_result_job = \<lparr>rj_run_id = [], rj_config = sample_config\<lparr>cf_environment := Some sample_policy\<rparr>,
     rj_descriptor = sample_descriptor, rj_input = (rd_result sample_descriptor)\<lparr>cr_generation := ''g1''\<rparr>, rj_args = [], rj_retry = False\<rparr>"

lemma result_execution_sound_witness:
  "\<exists>d h. perform_result sample_world sample_io sample_result_job [] = (Inr (''hello'', d), h) \<and> result_ran sample_io h"
proof -
  have "map_result fst (fst (perform_result sample_world sample_io sample_result_job [])) = Inr ''hello''" by code_simp
  then obtain d where "fst (perform_result sample_world sample_io sample_result_job []) = Inr (''hello'', d)"
    by (auto simp: map_result_Inr)
  then obtain h where h: "perform_result sample_world sample_io sample_result_job [] = (Inr (''hello'', d), h)"
    by (metis surjective_pairing)
  have "result_ran sample_io h" using result_execution_sound [OF h] by simp
  with h show ?thesis by blast
qed

text \<open>The execution was reserved; its new result is committed, or the execution was cancelled meanwhile.\<close>

definition sample_host :: host where
  "sample_host = \<lparr>ho_runtime = fresh_runtime sample_delivered store_empty, ho_controls = \<lparr>ct_active = [], ct_cancelled = [], ct_next = 0\<rparr>\<rparr>"

lemma case_Ok_pair: "(case r of Ok (a, b) \<Rightarrow> P a b | _ \<Rightarrow> False) \<longleftrightarrow> (\<exists>a b. r = Ok (a, b) \<and> P a b)"
  by (cases r) auto

lemma case_Some_pair: "(case x of Some (a, b) \<Rightarrow> P a b | None \<Rightarrow> False) \<longleftrightarrow> (\<exists>a b. x = Some (a, b) \<and> P a b)"
  by (cases x) auto

lemma sample_reserved:
  "case start_result_entry sample_world ''g1'' [] None sample_host of
     Ok (s, started) \<Rightarrow> (case started of
         Some (j, flag) \<Rightarrow> j = sample_result_job \<and> flag = 0
           \<and> (case finish_result sample_world j flag (Inr (''hello'', sample_descriptor\<lparr>rd_result := rj_input j\<rparr>)) s of
                Ok (s', out) \<Rightarrow> out = Some ''hello'' | _ \<Rightarrow> False)
       | None \<Rightarrow> False)
   | _ \<Rightarrow> False"
  by code_simp

lemma result_commits_once_witness:
  "\<exists>s s' d. start_result_entry sample_world ''g1'' [] None sample_host = Ok (s, Some (sample_result_job, 0))
     \<and> finish_result sample_world sample_result_job 0 (Inr (''hello'', d)) s = Ok (s', Some ''hello'')
     \<and> st_published_result (rn_state (ho_runtime s')) = Some d"
proof -
  let ?d = "sample_descriptor\<lparr>rd_result := rj_input sample_result_job\<rparr>"
  obtain s s' where s: "start_result_entry sample_world ''g1'' [] None sample_host = Ok (s, Some (sample_result_job, 0))"
    and s': "finish_result sample_world sample_result_job 0 (Inr (''hello'', ?d)) s = Ok (s', Some ''hello'')"
    using sample_reserved unfolding case_Ok_pair case_Some_pair by auto
  have "st_published_result (rn_state (ho_runtime s')) = Some ?d"
    using result_commits_once [where outcome = "Inr (''hello'', ?d)" and j = sample_result_job and w = sample_world and flag = 0 and s = s] s' by auto
  with s s' show ?thesis by blast
qed

end
