(* ===== verification/Environment_Correct.thy ===== *)
theory Environment_Correct
  imports Environment_Store Results_Correct
begin

text \<open>
  A valid policy keeps its managed trees apart from each other, from the repository's metadata and from the launch
  file.  The store only grows: what was recorded is read back unchanged whatever happens later.  An environment is
  selected for a node only when the inputs prove it.  The result of an execution keeps the generation it was
  started with, so that it can be committed.
\<close>

section \<open>Valid policies\<close>

text \<open>Components below a directory: never itself, never above it, never metadata of the repository.\<close>

definition stays_below :: "native \<Rightarrow> string \<Rightarrow> bool" where
  "stays_below n s \<longleftrightarrow> (\<exists>names. path_components s = map Normal names \<and> names \<noteq> []
     \<and> (\<forall>p \<in> set names. nt_lower n p \<notin> set [''.git'', ''.grapher'', ''.grapher-worktrees'', ''.grapher-workspaces'']))"

lemma split_at_concat: "split_at c s \<noteq> [] \<and> (c \<notin> set s \<longrightarrow> split_at c s = [s])"
  by (induction s) (auto split: list.splits)

lemma safe_relative_stays:
  assumes "safe_relative n s = None"
  shows "stays_below n s"
proof -
  have s: "s \<noteq> []" and normal: "list_all is_normal (path_components s)"
    and free: "\<forall>c \<in> set (path_components s). \<not> reserved_component n c"
    using assms by (auto simp: safe_relative_def split: if_splits)
  obtain p ps where split: "split_at (CHR 0x2F) s = p # ps" using split_at_concat [of "CHR 0x2F" s] by (cases "split_at (CHR 0x2F) s") auto
  then have first: "p \<noteq> [] \<and> p \<noteq> ''.''" using normal s by (auto simp: path_components_def is_normal_def split: if_splits)
  then have comps: "path_components s = inner_components (p # ps)" using split s by (simp add: path_components_def)
  define names where "names = filter (\<lambda>q. q \<noteq> [] \<and> q \<noteq> ''.'') (p # ps)"
  have "path_components s = map Normal names"
    using normal unfolding comps inner_components_def names_def
    by (auto simp: list_all_iff is_normal_def split: if_splits)
  moreover have "names \<noteq> []" using first by (simp add: names_def)
  moreover have "\<forall>q \<in> set names. nt_lower n q \<notin> set [''.git'', ''.grapher'', ''.grapher-worktrees'', ''.grapher-workspaces'']"
    using free \<open>path_components s = map Normal names\<close> by (auto simp: reserved_component_def Let_def)
  ultimately show ?thesis unfolding stays_below_def by blast
qed

lemma validate_scopes_ok:
  assumes "validate_scopes n earlier ss = None"
  shows "sorted_wrt (\<lambda>a b. \<not> overlaps n b a) ss \<and> (\<forall>s \<in> set ss. stays_below n s \<and> (\<forall>t \<in> set earlier. \<not> overlaps n s t))"
  using assms
proof (induction ss arbitrary: earlier)
  case (Cons s ss)
  then have "safe_relative n s = None" "\<forall>t \<in> set earlier. \<not> overlaps n s t" "validate_scopes n (earlier @ [s]) ss = None"
    by (auto simp: first_error_None)
  with Cons.IH safe_relative_stays show ?case by fastforce
qed simp

lemma validate_caches_ok:
  assumes "validate_caches n scopes earlier cs = None"
  shows "sorted_wrt (\<lambda>a b. \<not> overlaps n b a) cs
    \<and> (\<forall>c \<in> set cs. stays_below n c \<and> (\<forall>t \<in> set earlier. \<not> overlaps n c t) \<and> (\<forall>s \<in> set scopes. \<not> cache_conflict n c s))"
  using assms
proof (induction cs arbitrary: earlier)
  case (Cons c cs)
  then have "safe_relative n c = None" "\<forall>t \<in> set earlier. \<not> overlaps n c t" "\<forall>s \<in> set scopes. \<not> cache_conflict n c s"
    "validate_caches n scopes (earlier @ [c]) cs = None"
    by (auto simp: first_error_None)
  with Cons.IH safe_relative_stays show ?case by fastforce
qed simp

text \<open>C35: A valid policy keeps its trees apart: scopes and caches are below the workspace and outside its metadata, no
  two scopes and no two caches contain one another, a cache touches a scope only strictly inside it, the launch
  file lies in no excluded tree, and no launch variable can replace one that controls the program.\<close>

theorem valid_environment_separates:
  assumes "validate_environment n c = None"
  shows "(\<forall>s \<in> set (ec_scopes c @ ec_caches c). stays_below n s)
     \<and> sorted_wrt (\<lambda>a b. \<not> overlaps n b a) (ec_scopes c) \<and> sorted_wrt (\<lambda>a b. \<not> overlaps n b a) (ec_caches c)
     \<and> (\<forall>cache \<in> set (ec_caches c). \<forall>s \<in> set (ec_scopes c). overlaps n cache s \<longrightarrow> scope_contains n cache s \<and> \<not> scope_contains n s cache)
     \<and> (\<forall>path. ec_launch_file c = Some path \<longrightarrow> (\<forall>s \<in> set (environment_exclusions c). \<not> overlaps n path s))
     \<and> (\<forall>key \<in> set (bt_keys (lc_variables (ec_launch c)) @ lc_inherit (ec_launch c)). variable_name key \<and> \<not> reserved_variable key)"
proof -
  have parts: "validate_scopes n [] (ec_scopes c) = None" "validate_caches n (ec_scopes c) [] (ec_caches c) = None"
    "validate_launch_file n c = None" "validate_launch n (ec_launch c) = None"
    using assms unfolding validate_environment_def first_error_None by simp_all
  have "\<forall>key \<in> set (bt_keys (lc_variables (ec_launch c)) @ lc_inherit (ec_launch c)). variable_name key \<and> \<not> reserved_variable key"
    using parts(4) unfolding validate_launch_def first_error_None by (auto simp: ball_Un)
  moreover have "\<forall>path. ec_launch_file c = Some path \<longrightarrow> (\<forall>s \<in> set (environment_exclusions c). \<not> overlaps n path s)"
    using parts(3) by (auto simp: validate_launch_file_def first_error_None split: option.splits)
  moreover note validate_scopes_ok [OF parts(1)] validate_caches_ok [OF parts(2)]
  ultimately show ?thesis by (auto simp: cache_conflict_def overlaps_def Let_def)
qed

definition sample_native :: native where
  "sample_native = \<lparr>nt_platform = ''linux'', nt_arch = ''x86_64'', nt_workspaces = True, nt_lower = to_ascii_lowercase,
     nt_key = (\<lambda>p. p), nt_absolute = (\<lambda>p. starts_with p ''/''),
     nt_is_file = (\<lambda>_. True), nt_uuid = (\<lambda>_. True)\<rparr>"

definition sample_launch :: launch_config where
  "sample_launch = \<lparr>lc_entry = ''{state}/bin/run'', lc_path = [''{state}/bin''], lc_shell = ''/bin/bash'', lc_variables = [(''HOME'', ''{state}/home'')],
     lc_inherit = [], lc_hook = None, lc_managed_scopes = [], lc_ambient_hints = [], lc_environment = None\<rparr>"

definition sample_managed :: environment_config where
  "sample_managed = \<lparr>ec_mode = ''native-workspace'', ec_platform = ''linux'', ec_arch = ''x86_64'', ec_scopes = [''.venv'', ''env/home''],
     ec_caches = [''.venv/cache''], ec_layout = ''fixed'', ec_launch = sample_launch, ec_baseline = [''/usr/bin/python3''], ec_initialize = [],
     ec_import_source = False, ec_launch_file = None, ec_authority = [], ec_allow_descendant = False, ec_require = [], ec_resources = None,
     ec_discovery = True, ec_best_effort = False\<rparr>"

lemma valid_environment_separates_witness:
  "validate_environment sample_native sample_managed = None \<and> stays_below sample_native ''.venv/cache''
     \<and> \<not> overlaps sample_native ''env/home'' ''.venv''"
proof -
  have "validate_environment sample_native sample_managed = None" by code_simp
  from this valid_environment_separates [OF this] show ?thesis by (simp add: sample_managed_def)
qed


section \<open>The store only grows\<close>

definition map_le :: "(string, string) btree_map \<Rightarrow> (string, string) btree_map \<Rightarrow> bool" where
  "map_le m m' \<longleftrightarrow> (\<forall>name bytes. bt_get m name = Some bytes \<longrightarrow> bt_get m' name = Some bytes)"

definition store_le :: "env_store \<Rightarrow> env_store \<Rightarrow> bool" where
  "store_le es es' \<longleftrightarrow> map_le (es_launches es) (es_launches es') \<and> map_le (es_records es) (es_records es')"

lemma store_le_refl [simp]: "store_le es es"
  by (simp add: store_le_def map_le_def)

lemma store_le_trans: "store_le a b \<Longrightarrow> store_le b c \<Longrightarrow> store_le a c"
  by (auto simp: store_le_def map_le_def)

lemma persisted_le: "persisted name bytes m = Inr m' \<Longrightarrow> map_le m m' \<and> bt_get m' name = Some bytes"
  by (auto simp: persisted_def map_le_def btree_simps split: option.splits if_splits)

abbreviation grows :: "'a store_prog \<Rightarrow> bool" where
  "grows \<equiv> kept_by store_le"

interpretation grown: kept_relation store_le
  by unfold_locales (simp, rule store_le_trans)

lemma grows_put:
  "grows (put (\<lambda>es. map_result (\<lambda>m. es\<lparr>es_launches := m\<rparr>) (persisted name bytes (es_launches es))))"
  "grows (put (\<lambda>es. map_result (\<lambda>m. es\<lparr>es_records := m\<rparr>) (persisted name bytes (es_records es))))"
  using persisted_le by (auto simp: kept_by_def put_def store_le_def map_le_def map_result_def split: sum.splits)

lemmas grows_rules = grown.kept_and_then grown.kept_attempt grown.kept_cases grows_put

lemma reads_store [step_rules]:
  "reads (load_launch k ident)" "reads (scope_paths k c ident)" "reads (scoped k c ident)" "reads (launch_scopes k c ident)"
  "reads (tracked_ok k c path)" "reads (baseline k c)" "reads (validate_metadata k c r)" "reads (validate_bytes k c r)"
  "reads (configured_launch k c path ident)" "reads (requires_fixed_layout k c ident)" "reads (capture_scoped k c path parent ident)"
  "reads (load_record_metadata k c execution phase)"
  by (auto simp: load_launch_def scope_paths_def scoped_def launch_scopes_def tracked_ok_def baseline_def validate_metadata_def
      validate_bytes_def configured_launch_def requires_fixed_layout_def capture_scoped_def load_record_metadata_def
      intro!: step_rules split: option.split)

lemma reads_views [step_rules]:
  "reads (restore_view k c path selected same_view preserve_failed history_edit)" "reads (run_initializer k c path selected)"
  "reads (inherited_hints k rs)" "reads (check_inputs k c base inputs)"
  by (auto simp: restore_view_def run_initializer_def inherited_hints_def check_inputs_def Let_def
      intro!: step_rules split: list.split prod.split)

lemma grows_launch: "grows (store_launch k l)"
  unfolding store_launch_def Let_def by (intro grows_rules grown.kept_reads step_rules)

lemma grows_record: "grows (record_result k execution phase r)"
  unfolding record_result_def by (intro grows_rules grown.kept_reads step_rules)

lemma grows_operations:
  "grows (first_environment k c source)" "grows (select_for_workspace k c node inputs path base current)"
  "grows (record_selected k execution code r)" "grows (finalize_input k c path selected generation head resources)"
  "grows (discover_launch k c path input dir)" "grows (seal_view k c path input head resources)"
  unfolding first_environment_def select_for_workspace_def record_selected_def finalize_input_def discover_launch_def seal_view_def Let_def
  by (intro grown.kept_and_then grown.kept_attempt grown.kept_cases grows_launch grows_record grown.kept_reads step_rules)+

lemma grows_prepare: "grows (prepare_view k c path selected generation head resources preserve_failed history_edit)"
  unfolding prepare_view_def Let_def
  by (intro grown.kept_and_then grown.kept_attempt grown.kept_cases grows_operations grown.kept_reads step_rules)

text \<open>Whatever the runtime does with the store of a run, whether it succeeds or fails.\<close>

inductive env_reach :: "store_env \<Rightarrow> environment_config \<Rightarrow> env_store \<Rightarrow> env_store \<Rightarrow> bool" for k c where
  env_start: "env_reach k c es es"
| env_initialize: "env_reach k c es es1 \<Longrightarrow> env_reach k c es (snd (first_environment k c source es1))"
| env_select: "env_reach k c es es1 \<Longrightarrow> env_reach k c es (snd (select_for_workspace k c node inputs path base current es1))"
| env_record: "env_reach k c es es1 \<Longrightarrow> env_reach k c es (snd (record_selected k execution code r es1))"
| env_prepare: "env_reach k c es es1
    \<Longrightarrow> env_reach k c es (snd (prepare_view k c path selected generation head resources preserve_failed history_edit es1))"
| env_discover: "env_reach k c es es1 \<Longrightarrow> env_reach k c es (snd (discover_launch k c path input dir es1))"
| env_seal: "env_reach k c es es1 \<Longrightarrow> env_reach k c es (snd (seal_view k c path input head resources es1))"

lemma env_reach_le: "env_reach k c es es' \<Longrightarrow> store_le es es'"
  by (induction rule: env_reach.induct) (auto intro: grown.kept_after grows_operations grows_prepare)

section \<open>Evidence is read back\<close>

text \<open>Serialisation and Git's hash behave as documented, and what was captured has a manifest.\<close>

definition codecs :: "store_env \<Rightarrow> launch_config \<Rightarrow> composite_result \<Rightarrow> bool" where
  "codecs k l r \<longleftrightarrow> sn_parse_launch k (sn_launch_bytes k l) = Inr l \<and> sn_parse_record k (sn_record_bytes k r) = Inr r
     \<and> (\<forall>b. length (sn_digest k b) = 40 \<and> list_all is_ascii_hexdigit (sn_digest k b))
     \<and> (\<forall>scopes root parent version. sn_capture k scopes root parent = Inr version \<longrightarrow> sn_manifest k scopes version = None)"

lemma store_launch_stores:
  assumes "store_launch k l es = (Inr ident, es')"
  shows "validate_launch (sn_native k) l = None \<and> ident = sn_digest k (sn_launch_bytes k l)
    \<and> bt_get (es_launches es') ident = Some (sn_launch_bytes k l)"
proof -
  from assms have valid: "validate_launch (sn_native k) l = None" and ident: "ident = sn_digest k (sn_launch_bytes k l)"
    and "map_result (\<lambda>m. es\<lparr>es_launches := m\<rparr>) (persisted ident (sn_launch_bytes k l) (es_launches es)) = Inr es'"
    by (auto simp: store_launch_def Let_def step_ok put_ok)
  then have "bt_get (es_launches es') ident = Some (sn_launch_bytes k l)" by (auto simp: map_result_Inr dest: persisted_le)
  then show ?thesis using valid ident by simp
qed

lemma store_launch_reads: "store_launch k l es = (Inr ident, es') \<Longrightarrow> codecs k l r \<Longrightarrow> read_launch k ident es' = Inr l"
  by (auto simp: read_launch_def codecs_def dest!: store_launch_stores)

lemma read_launch_later: "read_launch k ident es = Inr l \<Longrightarrow> store_le es es' \<Longrightarrow> read_launch k ident es' = Inr l"
  by (auto simp: read_launch_def store_le_def map_le_def split: if_splits option.splits)

lemma scoped_later:
  assumes "scoped k c ident es = (Inr scopes, es)" and "store_le es es'"
  shows "scoped k c ident es' = (Inr scopes, es')"
proof -
  from assms(1) obtain l where l: "read_launch k ident es = Inr l"
    and scopes: "scopes = filter (\<lambda>s. s \<notin> set (ec_caches c)) (bs_of_list (with_prefix k l (ec_scopes c @ ec_caches c) @ lc_managed_scopes l))"
    by (auto simp: scoped_def scope_paths_def load_launch_def step_ok)
  show ?thesis using read_launch_later [OF l assms(2)] by (simp add: scoped_def scope_paths_def load_launch_def step_ok scopes)
qed

lemma record_reads:
  assumes "record_result k execution phase r es = (Inr u, es')" and "store_le es' es''"
  shows "\<exists>name. record_name k execution phase = Inr name \<and> bt_get (es_records es'') name = Some (sn_record_bytes k r)"
proof -
  from assms(1) obtain name m where "record_name k execution phase = Inr name"
    and "persisted name (sn_record_bytes k r) (es_records es) = Inr m" and "es' = es\<lparr>es_records := m\<rparr>"
    by (auto simp: record_result_def step_ok put_ok map_result_Inr)
  then show ?thesis using assms(2) persisted_le by (fastforce simp: store_le_def map_le_def)
qed

text \<open>What a sealed result says of its input.\<close>

definition sealed_from :: "composite_result \<Rightarrow> string \<Rightarrow> composite_result \<Rightarrow> bool" where
  "sealed_from input head r \<longleftrightarrow> cr_generation r = cr_generation input \<and> cr_code_ref r = head \<and> cr_domain r = cr_domain input
     \<and> cr_layout r = cr_layout input \<and> cr_selected_from r = cr_selected_from input"

lemma capture_scoped_ok:
  assumes "capture_scoped k c path parent ident es = (Inr version, es')" and "codecs k l' r"
  shows "es' = es \<and> (\<exists>scopes l. scoped k c ident es = (Inr scopes, es) \<and> read_launch k ident es = Inr l \<and> sn_manifest k scopes version = None)"
proof -
  from assms(1) obtain scopes es1 l root where s: "scoped k c ident es = (Inr scopes, es1)" and l: "read_launch k ident es1 = Inr l"
    and "sn_capture k scopes root parent = Inr version" and "es' = es1"
    by (auto simp: capture_scoped_def load_launch_def step_ok)
  moreover have "es1 = es" by (rule reads_same [OF reads_store(3) s])
  ultimately show ?thesis using assms(2) by (auto simp: codecs_def)
qed

lemma baseline_ok: "baseline k c es = (Inr d, es') \<Longrightarrow> es' = es \<and> dm_platform d = nt_platform (sn_native k)
    \<and> dm_arch d = nt_arch (sn_native k) \<and> dm_policy d = policy_digest k c \<and> dm_contract d = contract_of c"
  by (auto simp: baseline_def step_ok)

text \<open>C36: The result of an execution, once sealed, is read back as it was from the record of its generation, whatever
  else is done to the store of the run later, successfully or not; it has the generation and the domain of its
  input and the code it was sealed with, and its launch settings are those of the view.\<close>

theorem sealed_result_readable:
  assumes sealed: "seal_view k c path input head resources es = (Inr r, es1)" and later: "env_reach k c es1 es2"
    and settings: "fst (configured_launch k c path (cr_launch_ref input) es) = Inr l" and k: "codecs k l r"
  shows "load_record_metadata k c (cr_generation input) ''after'' es2 = (Inr r, es2) \<and> read_launch k (cr_launch_ref r) es2 = Inr l
    \<and> sealed_from input head r"
proof -
  from sealed obtain d es3 l' es4 launch es5 environment es6 where t: "tracked_ok k c path es = (Inr (), es3)"
    and d: "baseline k c es3 = (Inr d, es4)" "d = cr_domain input"
    and l': "configured_launch k c path (cr_launch_ref input) es4 = (Inr l', es5)" and launch': "store_launch k l' es5 = (Inr launch, es6)"
    and capture: "capture_scoped k c path (cr_environment_ref input) launch es6 = (Inr environment, es6)"
    and r: "r = input\<lparr>cr_code_ref := head, cr_environment_ref := environment, cr_launch_ref := launch, cr_resource_refs := resources\<rparr>"
    and rec: "record_result k (cr_generation input) ''after'' r es6 = (Inr (), es1)"
    using capture_scoped_ok [OF _ k] unfolding seal_view_def Let_def by (fastforce simp: step_ok)
  have "es3 = es" "es4 = es3" by (rule reads_same [OF reads_store(5) t], rule reads_same [OF reads_store(6) d(1)])
  then have launch: "store_launch k l es5 = (Inr launch, es6)" using l' launch' settings by simp
  have le: "store_le es1 es2" by (rule env_reach_le [OF later])
  have "store_le es6 es1" using grows_record [of k "cr_generation input" "''after''" r] rec by (metis kept_by_def snd_conv)
  then have le6: "store_le es6 es2" using le store_le_trans by blast
  obtain name where name: "record_name k (cr_generation input) ''after'' = Inr name"
    and stored: "bt_get (es_records es2) name = Some (sn_record_bytes k r)" using record_reads [OF rec le] by blast
  obtain scopes where scopes: "scoped k c launch es6 = (Inr scopes, es6)" and manifest: "sn_manifest k scopes environment = None"
    using capture_scoped_ok [OF capture k] by blast
  have "scoped k c launch es2 = (Inr scopes, es2)" by (rule scoped_later [OF scopes le6])
  moreover have reads: "read_launch k launch es2 = Inr l" by (rule read_launch_later [OF store_launch_reads [OF launch k] le6])
  moreover have "matches_policy k c r" using baseline_ok [OF d(1)] d(2) by (simp add: matches_policy_def r)
  ultimately have "validate_metadata k c r es2 = (Inr (), es2)" using manifest by (auto simp: validate_metadata_def load_launch_def step_ok r)
  then have "load_record_metadata k c (cr_generation input) ''after'' es2 = (Inr r, es2)"
    using name stored k by (auto simp: load_record_metadata_def step_ok codecs_def r)
  then show ?thesis using reads by (simp add: sealed_from_def r)
qed

definition sample_id :: string where
  "sample_id = replicate 40 (CHR ''a'')"

definition stored_domain :: domain where
  "stored_domain = \<lparr>dm_platform = ''linux'', dm_arch = ''x86_64'', dm_baseline = sample_id, dm_policy = sample_id, dm_contract = ''native-workspace-v4''\<rparr>"

definition stored_result :: composite_result where
  "stored_result = \<lparr>cr_domain = stored_domain, cr_code_ref = ''c1'', cr_environment_ref = ''v1'', cr_launch_ref = sample_id,
     cr_resource_refs = [], cr_layout = Some ''/w'', cr_generation = ''g1'', cr_selected_from = [''baseline''], cr_inheritance = None\<rparr>"

definition sample_after :: composite_result where
  "sample_after = stored_result\<lparr>cr_code_ref := ''c2'', cr_environment_ref := ''v2''\<rparr>"

definition sample_store_env :: store_env where
  "sample_store_env = \<lparr>sn_native = sample_native, sn_digest = (\<lambda>_. sample_id), sn_launch_bytes = (\<lambda>_. ''launch''),
     sn_parse_launch = (\<lambda>_. Inr sample_launch), sn_record_bytes = (\<lambda>r. cr_code_ref r),
     sn_parse_record = (\<lambda>b. Inr (if b = ''c2'' then sample_after else stored_result)), sn_policy_bytes = (\<lambda>_. ''policy''),
     sn_probe = (\<lambda>_ _. Inr ''probe''), sn_manifest = (\<lambda>_ _. None), sn_validate = (\<lambda>_ _. None), sn_verify = (\<lambda>_ _ _. None),
     sn_materialize = (\<lambda>_ _ _. None), sn_capture = (\<lambda>_ _ _. Inr ''v2''), sn_first = (\<lambda>_ _. Inr ''v1''), sn_descends = (\<lambda>_ _. False),
     sn_root = (\<lambda>path _. Inr path), sn_guard = (\<lambda>_ _. Inr ''view''), sn_tracked = (\<lambda>_. Inr [''src/main.rs'']), sn_linked = (\<lambda>_ _. None),
     sn_same_path = (\<lambda>a b. a = b), sn_display = (\<lambda>p. p), sn_process_root = (\<lambda>p. p), sn_process_state = (\<lambda>_. Some ''/s''),
     sn_policy_file = (\<lambda>_ _. Inl ''no file''), sn_run_initializer = (\<lambda>_ _ _ _ _. None), sn_launchable = (\<lambda>_ _. None),
     sn_parent = (\<lambda>_. None), sn_resolve = (\<lambda>_ l _ _. Inr l)\<rparr>"

definition sample_store :: env_store where
  "sample_store = \<lparr>es_launches = [(sample_id, ''launch'')], es_records = []\<rparr>"

lemma sealed_result_readable_witness:
  "load_record_metadata sample_store_env sample_managed ''g1'' ''after''
     (snd (record_selected sample_store_env ''g2'' ''c1'' stored_result
       (snd (seal_view sample_store_env sample_managed ''/w'' stored_result ''c2'' [] sample_store))))
   = (Inr sample_after, snd (record_selected sample_store_env ''g2'' ''c1'' stored_result
       (snd (seal_view sample_store_env sample_managed ''/w'' stored_result ''c2'' [] sample_store))))"
proof -
  let ?k = sample_store_env
  let ?s1 = "snd (seal_view ?k sample_managed ''/w'' stored_result ''c2'' [] sample_store)"
  let ?s2 = "snd (record_selected ?k ''g2'' ''c1'' stored_result ?s1)"
  have "fst (seal_view ?k sample_managed ''/w'' stored_result ''c2'' [] sample_store) = Inr sample_after" by code_simp
  then have sealed: "seal_view ?k sample_managed ''/w'' stored_result ''c2'' [] sample_store = (Inr sample_after, ?s1)"
    by (simp add: prod_eq_iff)
  have later: "env_reach ?k sample_managed ?s1 ?s2" by (rule env_record [OF env_start])
  have settings: "fst (configured_launch ?k sample_managed ''/w'' (cr_launch_ref stored_result) sample_store) = Inr sample_launch"
    by code_simp
  have "length sample_id = 40 \<and> list_all is_ascii_hexdigit sample_id" by code_simp
  then have k: "codecs ?k sample_launch sample_after"
    by (simp add: codecs_def sample_store_env_def sample_after_def)
  show ?thesis using sealed_result_readable [OF sealed later settings k] by (simp add: stored_result_def)
qed


section \<open>Selection\<close>

text \<open>An input that stands for all of them.\<close>

definition provable :: "store_env \<Rightarrow> environment_config \<Rightarrow> inputs \<Rightarrow> composite_result \<Rightarrow> bool" where
  "provable k c inputs q \<longleftrightarrow> (\<forall>(_, p) \<in> set inputs. cr_launch_ref p = cr_launch_ref q
     \<and> (cr_environment_ref p = cr_environment_ref q \<or> ec_allow_descendant c \<and> sn_descends k (cr_environment_ref q) (cr_environment_ref p)))"

definition chosen :: "store_env \<Rightarrow> environment_config \<Rightarrow> string \<Rightarrow> inputs \<Rightarrow> composite_result \<Rightarrow> bool" where
  "chosen k c node inputs r \<longleftrightarrow> (\<exists>name q. (name, q) \<in> set inputs \<and> r = q\<lparr>cr_selected_from := cr_selected_from r\<rparr>
     \<and> (\<forall>(_, p) \<in> set inputs. cr_domain p = cr_domain q)
     \<and> (case bt_get (ec_authority c) node of
          Some parent \<Rightarrow> name = parent \<and> cr_selected_from r = [parent]
        | None \<Rightarrow> cr_selected_from r = map fst inputs \<and> provable k c inputs q))"

lemma find_Some_in: "find P xs = Some x \<Longrightarrow> x \<in> set xs \<and> P x"
  by (induction xs) (auto split: if_splits)

lemma select_input_chosen:
  assumes "select_input_environment k c node inputs = Inr r"
  shows "chosen k c node inputs r"
proof -
  from assms obtain n first rest where inputs: "inputs = (n, first) # rest"
    by (auto simp: select_input_environment_def split: list.splits)
  with assms have domains: "\<forall>(_, p) \<in> set inputs. cr_domain p = cr_domain first"
    by (auto simp: select_input_environment_def split: if_splits)
  show ?thesis
  proof (cases "bt_get (ec_authority c) node")
    case (Some parent)
    with assms domains obtain name q where found: "find (\<lambda>(name, _). name = parent) inputs = Some (name, q)"
      and r: "r = q\<lparr>cr_selected_from := [parent]\<rparr>"
      by (auto simp: select_input_environment_def inputs split: if_splits option.splits)
    have q: "(name, q) \<in> set inputs" "name = parent" using find_Some_in [OF found] by auto
    then have "cr_domain q = cr_domain first" using domains by auto
    then show ?thesis using Some domains q unfolding chosen_def r by (intro exI [of _ name] exI [of _ q]) auto
  next
    case None
    show ?thesis
    proof (cases "\<forall>(_, p) \<in> set inputs. same_environment_refs p first")
      case True
      then have "r = first\<lparr>cr_selected_from := map fst inputs\<rparr>"
        using assms None domains by (auto simp: select_input_environment_def inputs split: if_splits)
      then show ?thesis using True None domains
        unfolding chosen_def by (intro exI [of _ n] exI [of _ first]) (auto simp: inputs provable_def same_environment_refs_def)
    next
      case False
      then have allow: "ec_allow_descendant c" and launch: "\<forall>(_, p) \<in> set inputs. cr_launch_ref p = cr_launch_ref first"
        and r: "\<exists>name q. find (\<lambda>(_, r). \<forall>(_, q) \<in> set inputs. sn_descends k (cr_environment_ref r) (cr_environment_ref q)) inputs = Some (name, q)
           \<and> r = q\<lparr>cr_selected_from := map fst inputs\<rparr>"
        using assms None domains unfolding select_input_environment_def inputs
        by (auto simp: Let_def split: if_splits option.splits)
      then obtain name q where found: "find (\<lambda>(_, r). \<forall>(_, q) \<in> set inputs. sn_descends k (cr_environment_ref r) (cr_environment_ref q)) inputs = Some (name, q)"
        and r: "r = q\<lparr>cr_selected_from := map fst inputs\<rparr>" by blast
      from find_Some_in [OF found] have q: "(name, q) \<in> set inputs"
        "\<forall>(_, p) \<in> set inputs. sn_descends k (cr_environment_ref q) (cr_environment_ref p)" by auto
      have "cr_launch_ref q = cr_launch_ref first" using launch q(1) by auto
      then have "provable k c inputs q" using q allow launch by (fastforce simp: provable_def)
      moreover have "cr_domain q = cr_domain first" using domains q(1) by auto
      ultimately show ?thesis using q domains None unfolding chosen_def r by (intro exI [of _ name] exI [of _ q]) auto
    qed
  qed
qed

text \<open>
  With best effort, the environment the directory itself holds is used again: the first input that says so.  Only
  when no input does the baseline is taken.
\<close>

definition held_here :: "string \<Rightarrow> composite_result option \<Rightarrow> composite_result \<Rightarrow> bool" where
  "held_here path current q \<longleftrightarrow> cr_layout q = Some path \<and> (\<exists>u. current = Some u \<and> same_environment_refs u q)"

definition held_or_base :: "string \<Rightarrow> composite_result option \<Rightarrow> inputs \<Rightarrow> composite_result \<Rightarrow> composite_result \<Rightarrow> bool" where
  "held_or_base path current inputs base q \<longleftrightarrow>
     (if \<exists>(_, p) \<in> set inputs. held_here path current p
      then held_here path current q \<and> (\<exists>before name after. inputs = before @ (name, q) # after
        \<and> (\<forall>(_, p) \<in> set before. \<not> held_here path current p))
      else q = base)"

lemma local_input_held: "held_or_base path current inputs base (case local_input path current inputs of Some r \<Rightarrow> r | None \<Rightarrow> base)"
proof -
  have here: "(cr_layout r = Some path \<and> (case current of Some c \<Rightarrow> same_environment_refs c r | None \<Rightarrow> False)) \<longleftrightarrow> held_here path current r" for r
    by (auto simp: held_here_def split: option.splits)
  have local: "local_input path current inputs = map_option snd (find (\<lambda>(_, r). held_here path current r) inputs)"
    unfolding local_input_def here ..
  show ?thesis
  proof (cases "find (\<lambda>(_, r). held_here path current r) inputs")
    case None
    then have "\<not> (\<exists>(_, p) \<in> set inputs. held_here path current p)" by (auto simp: find_None_iff)
    then show ?thesis using None by (auto simp: local held_or_base_def)
  next
    case (Some x)
    then obtain i where i: "i < length inputs" "held_here path current (snd (inputs ! i))" "x = inputs ! i"
      "\<forall>j < i. \<not> held_here path current (snd (inputs ! j))"
      by (auto simp: find_Some_iff case_prod_unfold)
    then have "inputs = take i inputs @ (fst x, snd x) # drop (Suc i) inputs" by (simp add: id_take_nth_drop)
    moreover have "\<forall>(_, p) \<in> set (take i inputs). \<not> held_here path current p"
      using i(1,4) by (fastforce simp: in_set_conv_nth)
    moreover have "\<exists>(_, p) \<in> set inputs. held_here path current p" using i(1,2) by (force simp: case_prod_unfold)
    moreover have "held_here path current (snd x)" using i by simp
    ultimately have "held_or_base path current inputs base (snd x)" unfolding held_or_base_def by (metis (no_types, lifting))
    then show ?thesis using Some by (simp add: local)
  qed
qed

text \<open>The hints of all inputs and of what the directory holds now.\<close>

lemma set_insert_hint: "set (insert_hint h xs) = insert h (set xs)"
  by (induction xs) auto

lemma set_sort_hints: "set (sort_hints hs) = set hs"
  by (induction hs) (simp_all add: sort_hints_def set_insert_hint)

definition hints_of :: "store_env \<Rightarrow> env_store \<Rightarrow> composite_result list \<Rightarrow> ambient_environment_hint set" where
  "hints_of k es rs = {x. \<exists>r \<in> set rs. \<exists>l. read_launch k (cr_launch_ref r) es = Inr l \<and> x \<in> set (lc_ambient_hints l)}"

lemma collected_hints:
  assumes "each_with (\<lambda>r hs. attempt (load_launch k (cr_launch_ref r)) (\<lambda>l. give (hs @ lc_ambient_hints l))) rs acc es = (Inr hints, es')"
  shows "set hints = set acc \<union> hints_of k es rs"
  using assms
proof (induction rs arbitrary: acc)
  case (Cons r rs)
  then obtain l where l: "read_launch k (cr_launch_ref r) es = Inr l"
    and rest: "each_with (\<lambda>r hs. attempt (load_launch k (cr_launch_ref r)) (\<lambda>l. give (hs @ lc_ambient_hints l))) rs
      (acc @ lc_ambient_hints l) es = (Inr hints, es')"
    by (auto simp: step_ok load_launch_def)
  from Cons.IH [OF rest] l show ?case by (auto simp: hints_of_def)
qed (simp add: step_ok hints_of_def)

lemma inherited_hints_of:
  "inherited_hints k rs es = (Inr hints, es') \<Longrightarrow> set hints = hints_of k es rs"
  by (auto simp: inherited_hints_def attempt_ok basic_ok set_sort_hints dest!: collected_hints)

text \<open>C37: An environment is never guessed.  With one policy for all nodes, a node starts from the input its authority
  names, or from one that all inputs agree with or that provably descends from all of them.  With best effort it
  starts from the first input that is laid out in its own directory and is what that directory holds; only when no
  input is, it starts from the baseline.  Its launch settings are those of what it starts from, with exactly the
  hints of all inputs and of what the directory holds, and the decision is recorded with all inputs, as a reuse
  exactly when the directory's own environment was used.\<close>

theorem environment_never_guessed:
  assumes "select_for_workspace k c node inputs path base current es = (Inr r, es')"
  shows "if ec_best_effort c
     then \<exists>q l hints reason. held_or_base path current inputs base q
          \<and> r = q\<lparr>cr_launch_ref := cr_launch_ref r, cr_selected_from := map fst inputs,
              cr_inheritance := Some (inheritance_of reason inputs)\<rparr>
          \<and> (reason = ''same-layout'' \<longleftrightarrow> (\<exists>(_, p) \<in> set inputs. held_here path current p))
          \<and> (\<forall>(_, p) \<in> set inputs. cr_domain p = cr_domain q)
          \<and> read_launch k (cr_launch_ref q) es = Inr l
          \<and> bt_get (es_launches es') (cr_launch_ref r) = Some (sn_launch_bytes k (l\<lparr>lc_ambient_hints := hints\<rparr>))
          \<and> set hints = hints_of k es (map snd inputs @ (case current of Some u \<Rightarrow> [u] | None \<Rightarrow> []))
     else chosen k c node inputs r"
proof (cases "ec_best_effort c")
  case False
  then show ?thesis using assms select_input_chosen by (simp add: select_for_workspace_def step_ok)
next
  case True
  let ?reusable = "local_input path current inputs"
  define q where "q = (case ?reusable of Some r \<Rightarrow> r | None \<Rightarrow> base)"
  from assms True obtain u es1 u' es2 hints es3 l launch where m: "validate_metadata k c base es = (Inr u, es1)"
    and i: "check_inputs k c base inputs es1 = (Inr u', es2)"
    and h: "inherited_hints k (map snd inputs @ (case current of Some r \<Rightarrow> [r] | None \<Rightarrow> [])) es2 = (Inr hints, es3)"
    and l: "read_launch k (cr_launch_ref q) es3 = Inr l"
    and launch: "store_launch k (l\<lparr>lc_ambient_hints := hints\<rparr>) es3 = (Inr launch, es')"
    and r: "r = q\<lparr>cr_launch_ref := launch, cr_selected_from := map fst inputs,
        cr_inheritance := Some (inheritance_of (selection_reason k inputs ?reusable es2) inputs)\<rparr>"
    by (auto simp: select_for_workspace_def Let_def step_ok load_launch_def q_def)
  have es: "es1 = es" "es2 = es1" "es3 = es2"
    by (rule reads_same [OF reads_store(7) m], rule reads_same [OF reads_views(4) i], rule reads_same [OF reads_views(3) h])
  have domains: "\<forall>(_, p) \<in> set inputs. cr_domain p = cr_domain base"
  proof -
    have "\<forall>(_, p) \<in> set xs. cr_domain p = cr_domain base"
      if "each_with (\<lambda>(_, r) _. and_then (demand (\<lambda>_. cr_domain r = cr_domain base) ''Environment inputs belong to different native domains'')
         (validate_metadata k c r)) xs () s = (Inr v, s')" for xs :: inputs and s s' v
      using that by (induction xs arbitrary: s) (auto simp: step_ok split: prod.splits)
    then show ?thesis using i by (simp add: check_inputs_def)
  qed
  have place: "held_or_base path current inputs base q" unfolding q_def by (rule local_input_held)
  then have "q = base \<or> q \<in> snd ` set inputs" by (force simp: held_or_base_def split: if_splits)
  then have "cr_domain q = cr_domain base" using domains by auto
  then have d: "\<forall>(_, p) \<in> set inputs. cr_domain p = cr_domain q" using domains by simp
  have "?reusable \<noteq> None \<longleftrightarrow> (\<exists>(_, p) \<in> set inputs. held_here path current p)"
    by (auto simp: local_input_def find_None_iff held_here_def split: option.splits)
  then have reason: "selection_reason k inputs ?reusable es2 = ''same-layout'' \<longleftrightarrow> (\<exists>(_, p) \<in> set inputs. held_here path current p)"
    by (simp add: selection_reason_def)
  have new: "bt_get (es_launches es') (cr_launch_ref r) = Some (sn_launch_bytes k (l\<lparr>lc_ambient_hints := hints\<rparr>))"
    using store_launch_stores [OF launch] unfolding r by (elim conjE) simp
  have old: "read_launch k (cr_launch_ref q) es = Inr l"
    and collected: "set hints = hints_of k es (map snd inputs @ (case current of Some u \<Rightarrow> [u] | None \<Rightarrow> []))"
    using l inherited_hints_of [OF h] by (simp_all only: es)
  have rest: "r = q\<lparr>cr_launch_ref := cr_launch_ref r, cr_selected_from := map fst inputs,
      cr_inheritance := Some (inheritance_of (selection_reason k inputs ?reusable es2) inputs)\<rparr>"
    by (simp add: r)
  show ?thesis unfolding if_P [OF True] using place rest reason d old new collected by blast
qed

definition sample_best_effort :: environment_config where
  "sample_best_effort = sample_managed\<lparr>ec_best_effort := True\<rparr>"

abbreviation sample_inputs :: inputs where
  "sample_inputs \<equiv> [(''$baseline'', stored_result), (''n1'', sample_after)]"

lemma sample_selections:
  "map_result cr_environment_ref (fst (select_for_workspace sample_store_env sample_best_effort ''n2'' sample_inputs ''/w''
     stored_result (Some sample_after) sample_store)) = Inr ''v2''"
  "map_result cr_environment_ref (fst (select_for_workspace sample_store_env sample_best_effort ''n2'' sample_inputs ''/other''
     stored_result (Some sample_after) sample_store)) = Inr ''v1''"
  "map_result cr_environment_ref (fst (select_for_workspace sample_store_env (sample_managed\<lparr>ec_authority := [(''n2'', ''n1'')]\<rparr>) ''n2''
     sample_inputs ''/w'' stored_result None sample_store)) = Inr ''v2''"
  by code_simp+

text \<open>
  A directory that holds the environment of \<open>n1\<close> goes on with it, another one starts from the baseline, and
  without best effort the authority decides.
\<close>

lemma environment_never_guessed_witness:
  "(\<exists>r es. select_for_workspace sample_store_env sample_best_effort ''n2'' sample_inputs ''/w'' stored_result (Some sample_after) sample_store
       = (Inr r, es) \<and> r = sample_after\<lparr>cr_launch_ref := cr_launch_ref r, cr_selected_from := [''$baseline'', ''n1''],
           cr_inheritance := Some (inheritance_of ''same-layout'' sample_inputs)\<rparr>)
   \<and> (\<exists>r es reason. select_for_workspace sample_store_env sample_best_effort ''n2'' sample_inputs ''/other'' stored_result (Some sample_after) sample_store
       = (Inr r, es) \<and> r = stored_result\<lparr>cr_launch_ref := cr_launch_ref r, cr_selected_from := [''$baseline'', ''n1''],
           cr_inheritance := Some (inheritance_of reason sample_inputs)\<rparr> \<and> reason \<noteq> ''same-layout'')
   \<and> (\<exists>r es. select_for_workspace sample_store_env (sample_managed\<lparr>ec_authority := [(''n2'', ''n1'')]\<rparr>) ''n2'' sample_inputs ''/w''
       stored_result None sample_store = (Inr r, es) \<and> r = sample_after\<lparr>cr_selected_from := [''n1'']\<rparr>)"
proof (intro conjI)
  have ec: "ec_best_effort sample_best_effort" "\<not> ec_best_effort (sample_managed\<lparr>ec_authority := [(''n2'', ''n1'')]\<rparr>)"
    by (simp_all add: sample_best_effort_def sample_managed_def)
  have here: "held_here ''/w'' (Some sample_after) q \<longleftrightarrow> q = sample_after" if "q \<in> {stored_result, sample_after}" for q
    using that by (auto simp: held_here_def same_environment_refs_def sample_after_def stored_result_def)
  have other: "\<not> held_here ''/other'' (Some sample_after) q" if "q \<in> {stored_result, sample_after}" for q
    using that by (auto simp: held_here_def sample_after_def stored_result_def)
  let ?run = "select_for_workspace sample_store_env sample_best_effort ''n2'' sample_inputs ''/w'' stored_result (Some sample_after) sample_store"
  obtain r es where run: "?run = (Inr r, es)" using sample_selections(1) by (cases ?run) (auto simp: map_result_Inr)
  from environment_never_guessed [OF run] ec(1) obtain q reason where q: "held_or_base ''/w'' (Some sample_after) sample_inputs stored_result q"
    "r = q\<lparr>cr_launch_ref := cr_launch_ref r, cr_selected_from := map fst sample_inputs,
      cr_inheritance := Some (inheritance_of reason sample_inputs)\<rparr>"
    "reason = ''same-layout'' \<longleftrightarrow> (\<exists>(_, p) \<in> set sample_inputs. held_here ''/w'' (Some sample_after) p)" by auto
  have "\<exists>before name after. sample_inputs = before @ (name, q) # after" "held_here ''/w'' (Some sample_after) q" "reason = ''same-layout''"
    using q(1,3) here by (auto simp: held_or_base_def)
  then have "(name, q) \<in> set sample_inputs \<Longrightarrow> q = sample_after" for name using here by auto
  with \<open>\<exists>before name after. sample_inputs = before @ (name, q) # after\<close> have "q = sample_after" by (metis in_set_conv_decomp)
  with q(2) \<open>reason = ''same-layout''\<close> run
  show "\<exists>r es. ?run = (Inr r, es) \<and> r = sample_after\<lparr>cr_launch_ref := cr_launch_ref r, cr_selected_from := [''$baseline'', ''n1''],
           cr_inheritance := Some (inheritance_of ''same-layout'' sample_inputs)\<rparr>" by auto
  let ?base = "select_for_workspace sample_store_env sample_best_effort ''n2'' sample_inputs ''/other'' stored_result (Some sample_after) sample_store"
  obtain r es where run: "?base = (Inr r, es)" using sample_selections(2) by (cases ?base) (auto simp: map_result_Inr)
  from environment_never_guessed [OF run] ec(1) obtain q reason where q: "held_or_base ''/other'' (Some sample_after) sample_inputs stored_result q"
    "r = q\<lparr>cr_launch_ref := cr_launch_ref r, cr_selected_from := map fst sample_inputs,
      cr_inheritance := Some (inheritance_of reason sample_inputs)\<rparr>"
    "reason = ''same-layout'' \<longleftrightarrow> (\<exists>(_, p) \<in> set sample_inputs. held_here ''/other'' (Some sample_after) p)" by auto
  have "q = stored_result" "reason \<noteq> ''same-layout''" using q(1,3) other by (auto simp: held_or_base_def)
  with q(2) run
  show "\<exists>r es reason. ?base = (Inr r, es) \<and> r = stored_result\<lparr>cr_launch_ref := cr_launch_ref r, cr_selected_from := [''$baseline'', ''n1''],
           cr_inheritance := Some (inheritance_of reason sample_inputs)\<rparr> \<and> reason \<noteq> ''same-layout''" by auto
  let ?fixed = "select_for_workspace sample_store_env (sample_managed\<lparr>ec_authority := [(''n2'', ''n1'')]\<rparr>) ''n2'' sample_inputs ''/w''
    stored_result None sample_store"
  obtain r es where run: "?fixed = (Inr r, es)" using sample_selections(3) by (cases ?fixed) (auto simp: map_result_Inr)
  from environment_never_guessed [OF run] ec(2)
  have "chosen sample_store_env (sample_managed\<lparr>ec_authority := [(''n2'', ''n1'')]\<rparr>) ''n2'' sample_inputs r" by simp
  moreover have "bt_get [(''n2'', ''n1'')] ''n2'' = Some ''n1''" by code_simp
  ultimately have "r = sample_after\<lparr>cr_selected_from := cr_selected_from r\<rparr> \<and> cr_selected_from r = [''n1'']" by (auto simp: chosen_def)
  then have "r = sample_after\<lparr>cr_selected_from := [''n1'']\<rparr>" by metis
  with run show "\<exists>r es. ?fixed = (Inr r, es) \<and> r = sample_after\<lparr>cr_selected_from := [''n1'']\<rparr>" by blast
qed

section \<open>A result keeps its generation\<close>

text \<open>What an execution relies on to be able to commit its result.\<close>

locale generation_keeper =
  fixes k :: result_io
  assumes prepared: "ro_prepare k h path r generation head keep fresh = Inr r' \<Longrightarrow> cr_generation r' = generation"
    and discovered: "ro_discover k h path r = Inr r' \<Longrightarrow> cr_generation r' = cr_generation r"
    and sealed: "ro_seal k h path r head = Inr r' \<Longrightarrow> cr_generation r' = cr_generation r"
begin

lemma prepare_generation:
  assumes "prepare_result k j repository present excluded h = (Inr input, h')"
  shows "cr_generation input = cr_generation (rj_input j)"
  using assms prepared unfolding prepare_result_def Let_def by (auto simp: step_ok)

lemma seal_generation:
  assumes "seal_result k j policy repository input excluded out h = (Inr (answer, d), h')"
  shows "cr_generation (rd_result d) = cr_generation input"
proof -
  from assms obtain found r d0 h1 h2 h3 head where "ro_discover k h1 (rd_workspace (rj_descriptor j)) input = Inr found"
    and "ro_seal k h2 (rd_workspace (rj_descriptor j)) found head = Inr r" and d0: "store_descriptor k policy (rj_run_id j) r h3 = (Inr d0, h')"
    and d: "d = renew_entries j r d0"
    unfolding seal_result_def Let_def by (auto simp: step_ok)
  then have "cr_generation r = cr_generation input" using discovered sealed by metis
  moreover have "rd_result d0 = r" using d0 by (auto simp: store_descriptor_def step_ok)
  ultimately show ?thesis by (simp add: d renew_entries_def Let_def)
qed

lemma performed_generation:
  assumes "perform_result w k j h = (Inr (answer, d), h')"
  shows "cr_generation (rd_result d) = cr_generation (rj_input j)"
proof -
  from assms obtain policy h1 where "perform_result_in w k j policy h1 = (Inr (answer, d), h')"
    unfolding perform_result_def and_then_ok attempt_ok by blast
  then obtain repository present excluded input out h2 h3 h4 where "prepare_result k j repository present excluded h2 = (Inr input, h3)"
    and "seal_result k j policy repository input excluded out h4 = (Inr (answer, d), h')"
    unfolding perform_result_in_def Let_def and_then_ok attempt_ok by blast
  then show ?thesis using prepare_generation seal_generation by simp
qed

end

text \<open>The environment store of the run in its role for published results; \<open>es\<close> is what it holds by then.\<close>

definition error_of :: "(string + 'a) \<times> 's \<Rightarrow> string option" where
  "error_of r = (case fst r of Inl e \<Rightarrow> Some e | Inr _ \<Rightarrow> None)"

definition stored_io :: "store_env \<Rightarrow> environment_config \<Rightarrow> (result_trace \<Rightarrow> env_store) \<Rightarrow> (string \<Rightarrow> string) \<Rightarrow> result_io \<Rightarrow> result_io" where
  "stored_io sk c es dir k = k\<lparr>
     ro_metadata := (\<lambda>h r. error_of (validate_metadata sk c r (es h))),
     ro_valid := (\<lambda>h r. error_of (validate_bytes sk c r (es h))),
     ro_select := (\<lambda>inputs. select_input_environment sk c ''$publication'' inputs),
     ro_exclusions := (\<lambda>h ident. fst (launch_scopes sk c ident (es h))),
     ro_launch := (\<lambda>h ident. read_launch sk ident (es h)),
     ro_record := (\<lambda>h execution r. error_of (record_selected sk execution (cr_code_ref r) r (es h))),
     ro_prepare := (\<lambda>h path r generation head keep fresh. fst (prepare_view sk c path r generation head [] keep fresh (es h))),
     ro_discover := (\<lambda>h path r. fst (discover_launch sk c path r (dir (cr_generation r)) (es h))),
     ro_seal := (\<lambda>h path r head. fst (seal_view sk c path r head [] (es h)))\<rparr>"

lemma fst_ok: "fst x = Inr y \<longleftrightarrow> (\<exists>s. x = (Inr y, s))"
  by (cases x) auto

lemma prepare_view_generation:
  assumes "fst (prepare_view sk c path r generation head resources keep fresh es) = Inr r'"
  shows "cr_generation r' = generation"
proof -
  from assms obtain es1 es2 where "finalize_input sk c path r generation head resources es1 = (Inr r', es2)"
    unfolding fst_ok prepare_view_def Let_def and_then_ok attempt_ok by blast
  then show ?thesis unfolding finalize_input_def Let_def by (auto simp: step_ok)
qed

lemma discover_launch_generation:
  "fst (discover_launch sk c path r dir es) = Inr r' \<Longrightarrow> cr_generation r' = cr_generation r"
  unfolding fst_ok discover_launch_def by (auto simp: step_ok split: if_splits)

lemma seal_view_generation:
  "fst (seal_view sk c path r head resources es) = Inr r' \<Longrightarrow> cr_generation r' = cr_generation r"
  unfolding fst_ok seal_view_def Let_def by (auto simp: step_ok)

interpretation stored: generation_keeper "stored_io sk c es dir k" for sk c es dir k
  by unfold_locales (auto simp: stored_io_def dest: prepare_view_generation discover_launch_generation seal_view_generation)

interpretation announced: generation_keeper "announcing w rt (stored_io sk c es dir k)" for w rt sk c es dir k
  by unfold_locales (auto simp: announcing_def dest: stored.prepared stored.discovered stored.sealed)

section \<open>Launching a published result\<close>

lemma result_event_published:
  assumes "left (emit w kind rt) = Some rt'" and "kind = ResultExecutionStarted input args \<or> kind = ResultExecutionPrepared input"
  shows "st_published_result (rn_state rt') = st_published_result (rn_state rt)"
proof -
  have plain: "plain_kind kind" using assms(2) by (auto simp: plain_kind_def)
  from emit_plain_left [OF assms(1) plain] show ?thesis
  proof
    assume "\<exists>ev. ev_kind ev = kind \<and> apply_event (wd_env w) ev (rn_state rt) = Some (rn_state rt')"
    then obtain ev where ev: "ev_kind ev = kind" "apply_event (wd_env w) ev (rn_state rt) = Some (rn_state rt')" by blast
    have quiet: "note_planning ev (rn_state rt) = rn_state rt" using ev(1) assms(2) by (auto simp: note_planning_def planning_summary_of_def)
    from ev(2,1) assms(2) have "rn_state rt' = log_event (wd_env w) ev (handle_result_started input args (rn_state rt))
        \<or> rn_state rt' = log_event (wd_env w) ev (handle_result_prepared input (rn_state rt))"
      by (auto simp: handle_def quiet elim!: apply_eventE)
    then show ?thesis by (auto simp: handle_result_started_def handle_result_prepared_def logged_fields split: option.splits)
  qed simp
qed

lemma start_result_parts:
  assumes "start_result_entry w generation args entry s = Ok (s', Some (j, flag))"
  shows "cr_generation (rj_input j) = generation \<and> rj_run_id j = st_run_id (rn_state (ho_runtime s))
    \<and> left (emit w (ResultExecutionStarted (rj_input j) args) (ho_runtime s)) = Some (ho_runtime s')"
  using assms unfolding start_result_entry_def plan_result_def
  by (auto simp: Let_def map_result_def split: sum.splits outcome.splits option.splits if_splits prod.splits)

lemma start_result_error:
  assumes "start_result_entry w generation args entry s = Error e (s', x)"
  shows "st_published_result (rn_state (ho_runtime s')) = st_published_result (rn_state (ho_runtime s))"
proof -
  consider "s' = s" | input where "emit w (ResultExecutionStarted input args) (ho_runtime s) = Error e (ho_runtime s')"
    using assms unfolding start_result_entry_def by (auto split: sum.splits outcome.splits prod.splits)
  then show ?thesis
  proof cases
    case 2
    then show ?thesis using result_event_published [of w "ResultExecutionStarted input args" "ho_runtime s" "ho_runtime s'" input args] by simp
  qed simp
qed

lemma drop_released: "cancel_result run c = Inl e \<Longrightarrow> drop_control run flag c = c"
  by (auto simp: cancel_result_def drop_control_def split: option.splits)

text \<open>C38: Launching a published result with the environment store of the run is all or nothing: on success the result of
  exactly this generation is published, its execution is completed and nothing is left to cancel; on an error the
  published result is the one from before.\<close>

theorem launch_all_or_nothing:
  "case launch_result w (stored_io sk c es dir k) generation args s of
     Ok (s', out) \<Rightarrow> out \<noteq> None
       \<and> cancel_result (st_run_id (rn_state (ho_runtime s))) (ho_controls s') = Inl ''No active result execution to cancel''
       \<and> (\<exists>d x. st_published_result (rn_state (ho_runtime s')) = Some d \<and> cr_generation (rd_result d) = generation
           \<and> st_result_execution (rn_state (ho_runtime s')) = Some (x\<lparr>rx_status := ''completed'', rx_result := Some (rd_result d)\<rparr>))
   | Error e (s', out) \<Rightarrow> st_published_result (rn_state (ho_runtime s')) = st_published_result (rn_state (ho_runtime s))
   | Panic \<Rightarrow> True"
proof (cases "start_result_entry w generation args None s")
  case (Error e p)
  then show ?thesis using start_result_error by (cases p) (fastforce simp: launch_result_def)
next
  case (Ok p)
  show ?thesis
  proof (cases "snd p")
    case None
    then show ?thesis using Ok by (cases p) (simp add: launch_result_def)
  next
    case (Some q)
    obtain s1 j flag where start: "start_result_entry w generation args None s = Ok (s1, Some (j, flag))" and p: "p = (s1, Some (j, flag))"
      using Ok Some by (cases p; cases q) auto
    have j: "cr_generation (rj_input j) = generation" "rj_run_id j = st_run_id (rn_state (ho_runtime s))"
      and s1: "st_published_result (rn_state (ho_runtime s1)) = st_published_result (rn_state (ho_runtime s))"
      using start_result_parts [OF start] result_event_published [of w _ "ho_runtime s" "ho_runtime s1"] by auto
    obtain r h where perform: "perform_result w (announcing w (ho_runtime s1) (stored_io sk c es dir k)) j [] = (r, h)" by fastforce
    show ?thesis
    proof (cases "after_announcement w h (ho_runtime s1)")
      case None
      then show ?thesis using start perform by (simp add: launch_result_def)
    next
      case (Some rt)
      have rt: "st_published_result (rn_state rt) = st_published_result (rn_state (ho_runtime s))"
        using Some s1 result_event_published [of w _ "ho_runtime s1" rt]
        by (auto simp: after_announcement_def split: option.splits)
      let ?s2 = "s1\<lparr>ho_runtime := rt\<rparr>"
      have gen: "cr_generation (rd_result d) = cr_generation (rj_input j)" if "r = Inr (answer, d)" for answer d
        using announced.performed_generation perform that by blast
      have launch: "launch_result w (stored_io sk c es dir k) generation args s = (case finish_result w j flag r ?s2 of
            Ok (s, output) \<Rightarrow> Ok (s\<lparr>ho_controls := drop_control (rj_run_id j) flag (ho_controls s)\<rparr>, output)
          | Error e (s, output) \<Rightarrow> Error e (s\<lparr>ho_controls := drop_control (rj_run_id j) flag (ho_controls s)\<rparr>, output)
          | Panic \<Rightarrow> Panic)"
        using start perform Some by (simp add: launch_result_def)
      show ?thesis
      proof (cases "finish_result w j flag r ?s2")
        case (Ok x)
        obtain s' out where x: "x = (s', out)" by (cases x)
        have "check_control flag (ho_controls ?s2) = None
          \<and> cancel_result (rj_run_id j) (ho_controls s') = Inl ''No active result execution to cancel''
          \<and> (\<exists>answer d x. r = Inr (answer, d) \<and> out = Some answer \<and> st_published_result (rn_state (ho_runtime s')) = Some d
              \<and> st_result_execution (rn_state (ho_runtime s')) = Some (x\<lparr>rx_status := ''completed'', rx_result := Some (rd_result d)\<rparr>))"
          by (rule finish_result_Ok) (use Ok x gen in auto)
        then obtain answer d x' where r: "r = Inr (answer, d)" "out = Some answer" "st_published_result (rn_state (ho_runtime s')) = Some d"
            "st_result_execution (rn_state (ho_runtime s')) = Some (x'\<lparr>rx_status := ''completed'', rx_result := Some (rd_result d)\<rparr>)"
          and cancel: "cancel_result (rj_run_id j) (ho_controls s') = Inl ''No active result execution to cancel''" by blast
        have "cr_generation (rd_result d) = generation" using gen [OF r(1)] j(1) by simp
        then show ?thesis unfolding launch Ok x using r cancel drop_released [OF cancel] j(2) by auto
      next
        case (Error e x)
        then show ?thesis using finish_result_keeps [of w j flag r ?s2 e] rt by (cases x) (simp add: launch)
      qed (simp add: launch)
    qed
  qed
qed (simp add: launch_result_def)

end
