(* ===== verification/Content_Store.thy ===== *)
theory Content_Store
  imports Environment_Store
begin

text \<open>
  The content store of managed environment files (\<open>Files\<close> in \<open>backend/src/workspace_files.rs\<close>): immutable versions of
  the managed scopes of a workspace, their ancestry, their composition and their way back into a workspace, on a
  Unix host.  A workspace is the map from its relative names to what is there; operations of the operating system
  fail only for the reasons written out here, and nobody else writes.
\<close>

section \<open>Data\<close>

datatype entry = Entry_Dir nat | Entry_File string nat | Entry_Link string bool bool

type_synonym entries = "(string, entry) btree_map"

record version =
  vr_head :: string
  vr_parents :: "string list"
  vr_entries :: entries
  vr_checksum :: "string option"

record content =
  ct_versions :: "(string, version) btree_map"
  ct_blobs :: "(string, string) btree_map"

text \<open>\<open>environment\<close> is the only constructor: \<open>scopes\<close> is always \<open>Some\<close>.  \<open>fl_data\<close> is the store's own directory if
  it lies in the workspace.\<close>

record files =
  fl_scopes :: "string list"
  fl_caches :: "string list"
  fl_project_index :: bool
  fl_data :: "string option"

text \<open>What is at a name: a directory with its permission bits, a file with its bytes, permission bits and number of hard
  links, a symbolic link with its text if that can be read.\<close>

datatype live = Live_Dir nat | Live_File string nat nat | Live_Link "string option" | Live_Special

type_synonym view = "(string, live) btree_map"

record depot =
  dk_view :: view
  dk_content :: content

text \<open>A canonical link target: a name in the workspace or something outside, and whether it is a directory.\<close>

datatype resolution = Inside string bool | Outside bool

text \<open>
  \<open>fx_fold\<close> folds the case of metadata names, \<open>fx_hash\<close> is Git's blob hash, \<open>fx_sum_bytes\<close> serialises what a
  checksum covers, \<open>fx_resolve\<close> is \<open>canonicalize\<close>, \<open>fx_read\<close> the bytes of a file, links followed, \<open>fx_absolute\<close> joins
  a name to the root, \<open>fx_tracked\<close> are the files in the project's index, \<open>fx_made\<close> the mode of a new directory.
\<close>

record files_env =
  fx_native :: native
  fx_fold :: "string \<Rightarrow> string"
  fx_hash :: "string \<Rightarrow> string"
  fx_sum_bytes :: "string \<times> string list \<times> entries \<Rightarrow> string"
  fx_resolve :: "view \<Rightarrow> string \<Rightarrow> resolution option"
  fx_read :: "view \<Rightarrow> string \<Rightarrow> string option"
  fx_absolute :: "string \<Rightarrow> string"
  fx_tracked :: "view \<Rightarrow> string + string list"
  fx_made :: nat

section \<open>Names\<close>

definition metadata_name :: "files_env \<Rightarrow> string \<Rightarrow> bool" where
  "metadata_name fx name \<longleftrightarrow> (let name = fx_fold fx name in name = ''.git'' \<or> starts_with name ''.grapher'')"

definition excluded :: "files_env \<Rightarrow> string \<Rightarrow> bool" where
  "excluded fx p \<longleftrightarrow> (\<exists>c \<in> set (path_components p). case c of Normal name \<Rightarrow> metadata_name fx name | _ \<Rightarrow> False)"

definition relative :: "files_env \<Rightarrow> string \<Rightarrow> string option" where
  "relative fx p = refuse (p = [] \<or> \<not> list_all is_normal (path_components p) \<or> excluded fx p) (''Unsafe workspace file path: '' @ p)"

definition cache_key :: "string \<Rightarrow> string" where
  "cache_key p = map (\<lambda>c. if c = CHR 0x5C then CHR 0x2F else c) p"

definition below :: "string \<Rightarrow> string \<Rightarrow> bool" where
  "below d n \<longleftrightarrow> starts_with n (d @ ''/'')"

definition is_cache :: "files \<Rightarrow> string \<Rightarrow> bool" where
  "is_cache f p \<longleftrightarrow> (\<exists>cache \<in> set (fl_caches f). cache_key p = cache_key cache \<or> below (cache_key cache) (cache_key p))"

definition is_excluded :: "files_env \<Rightarrow> files \<Rightarrow> string \<Rightarrow> bool" where
  "is_excluded fx f p \<longleftrightarrow> excluded fx p \<or> is_cache f p"

text \<open>The directories above a name, the outermost first.\<close>

definition parents_of :: "string \<Rightarrow> string list" where
  "parents_of n = map (\<lambda>i. take i n) (filter (\<lambda>i. n ! i = CHR 0x2F) [0..<length n])"

fun real_steps :: "view \<Rightarrow> bool \<Rightarrow> string list \<Rightarrow> string option" where
  "real_steps v leaf_file [] = None"
| "real_steps v leaf_file (p # ps) = (case bt_get v p of
     None \<Rightarrow> None
   | Some (Live_Link _) \<Rightarrow> Some (''Refusing symlink or redirected child path: '' @ p)
   | Some (Live_Dir _) \<Rightarrow> if leaf_file \<and> ps = [] then Some (''Child path must use real directories and regular files: '' @ p)
       else real_steps v leaf_file ps
   | Some (Live_File _ _ _) \<Rightarrow> if leaf_file \<and> ps = [] then real_steps v leaf_file ps
       else Some (''Child path must use real directories and regular files: '' @ p)
   | Some Live_Special \<Rightarrow> Some (''Child path must use real directories and regular files: '' @ p))"

text \<open>The error of \<open>real_child_path\<close>; whether the child exists is looked up by its callers.\<close>

definition real_child :: "view \<Rightarrow> string \<Rightarrow> bool \<Rightarrow> string option" where
  "real_child v n leaf_file = first_error
     [refuse (\<not> list_all is_normal (path_components n)) ''Child paths must not contain traversal or absolute prefixes'',
      refuse (path_components n = []) ''Refusing to use the trusted root itself'',
      real_steps v leaf_file (parents_of n @ [n])]"

section \<open>Versions and blobs\<close>

type_synonym 'a depot_prog = "(depot, 'a) prog"

definition blob_id :: "string \<Rightarrow> bool" where
  "blob_id b \<longleftrightarrow> length b = 40 \<and> list_all is_ascii_hexdigit b"

definition version_id :: "files_env \<Rightarrow> string \<Rightarrow> bool" where
  "version_id fx v = nt_uuid (fx_native fx) (case strip_prefix ''before-'' v of
     Some ident \<Rightarrow> ident
   | None \<Rightarrow> (case strip_prefix ''after-'' v of Some ident \<Rightarrow> ident | None \<Rightarrow> v))"

definition checksum_of :: "files_env \<Rightarrow> version \<Rightarrow> string" where
  "checksum_of fx v = fx_hash fx (fx_sum_bytes fx (vr_head v, vr_parents v, vr_entries v))"

definition insert_version :: "string \<Rightarrow> version \<Rightarrow> depot \<Rightarrow> depot" where
  "insert_version ident v d = d\<lparr>dk_content := (dk_content d)\<lparr>ct_versions := bt_insert ident v (ct_versions (dk_content d))\<rparr>\<rparr>"

definition insert_blob :: "string \<Rightarrow> string \<Rightarrow> depot \<Rightarrow> depot" where
  "insert_blob b bytes d = d\<lparr>dk_content := (dk_content d)\<lparr>ct_blobs := bt_insert b bytes (ct_blobs (dk_content d))\<rparr>\<rparr>"

definition save_version :: "files_env \<Rightarrow> string \<Rightarrow> version \<Rightarrow> unit depot_prog" where
  "save_version fx ident v = put (\<lambda>d.
     if \<not> version_id fx ident then Inl ''Invalid workspace file version''
     else if bt_contains (ct_versions (dk_content d)) ident then Inl (''Workspace file version already exists: '' @ ident)
     else Inr (insert_version ident (v\<lparr>vr_checksum := Some (checksum_of fx v)\<rparr>) d))"

definition capture_empty :: "files_env \<Rightarrow> string \<Rightarrow> unit depot_prog" where
  "capture_empty fx ident = save_version fx ident \<lparr>vr_head = [], vr_parents = [], vr_entries = [], vr_checksum = None\<rparr>"

definition entry_error :: "files_env \<Rightarrow> string \<times> entry \<Rightarrow> string option" where
  "entry_error fx x = (case x of (name, e) \<Rightarrow> first_error [relative fx name, case e of
       Entry_File b _ \<Rightarrow> refuse (\<not> blob_id b) ''Invalid workspace file blob''
     | Entry_Link t internal _ \<Rightarrow> if internal then relative fx t else None
     | Entry_Dir _ \<Rightarrow> None])"

definition load_version :: "files_env \<Rightarrow> string \<Rightarrow> content \<Rightarrow> string + version" where
  "load_version fx ident ct =
     (if \<not> version_id fx ident then Inl ''Invalid workspace file version''
      else case bt_get (ct_versions ct) ident of
        None \<Rightarrow> Inl (''Missing workspace file version '' @ ident)
      | Some v \<Rightarrow> (case vr_checksum v of
            None \<Rightarrow> Inl (''Managed environment manifest lacks integrity evidence: '' @ ident)
          | Some known \<Rightarrow>
              if checksum_of fx v \<noteq> known then Inl (''Damaged workspace file manifest: '' @ ident)
              else case first_error (map (entry_error fx) (vr_entries v)) of Some e \<Rightarrow> Inl e | None \<Rightarrow> Inr v))"

definition load_files :: "files_env \<Rightarrow> string \<Rightarrow> version depot_prog" where
  "load_files fx ident = ask (\<lambda>d. load_version fx ident (dk_content d))"

definition save_blob :: "files_env \<Rightarrow> string \<Rightarrow> string depot_prog" where
  "save_blob fx bytes = (let b = fx_hash fx bytes in
     and_then (demand (\<lambda>_. blob_id b) ''Invalid workspace file blob'')
     (and_then (put (\<lambda>d. case bt_get (ct_blobs (dk_content d)) b of
          Some old \<Rightarrow> if fx_hash fx old \<noteq> b then Inl (''Damaged workspace file blob: '' @ b) else Inr d
        | None \<Rightarrow> Inr (insert_blob b bytes d)))
      (give b)))"

text \<open>A blob that is there with its own bytes.\<close>

definition blob_error :: "files_env \<Rightarrow> string \<Rightarrow> content \<Rightarrow> string option" where
  "blob_error fx b ct =
     (if \<not> blob_id b then Some ''Invalid workspace file blob''
      else case bt_get (ct_blobs ct) b of
        None \<Rightarrow> Some ''Missing workspace file blob''
      | Some bytes \<Rightarrow> refuse (fx_hash fx bytes \<noteq> b) (''Damaged workspace file blob: '' @ b))"

section \<open>Reading a workspace\<close>

definition in_data :: "files \<Rightarrow> string \<Rightarrow> bool" where
  "in_data f n \<longleftrightarrow> fl_data f = Some n"

text \<open>What a walk down from a scope visits: nothing inside a directory it leaves out.\<close>

definition visited :: "files_env \<Rightarrow> files \<Rightarrow> view \<Rightarrow> string \<Rightarrow> (string \<times> live) list" where
  "visited fx f v scope = filter (\<lambda>(n, _). (n = scope \<or> below scope n)
     \<and> (\<forall>p \<in> set (parents_of n). (p = scope \<or> below scope p) \<longrightarrow> \<not> is_excluded fx f p \<and> \<not> in_data f p)) v"

definition permissions :: "nat \<Rightarrow> nat" where
  "permissions m = m mod 512"

definition special_metadata :: "live \<Rightarrow> bool" where
  "special_metadata node = (case node of
     Live_Dir m \<Rightarrow> m div 512 \<noteq> 0 | Live_File _ m links \<Rightarrow> m div 512 \<noteq> 0 \<or> 1 < links | _ \<Rightarrow> False)"

text \<open>Links that cannot be read or resolved are left where they are.\<close>

definition collect_link :: "files_env \<Rightarrow> files \<Rightarrow> view \<Rightarrow> string \<Rightarrow> string option \<Rightarrow> string + entry option" where
  "collect_link fx f v name txt = (case txt of
     None \<Rightarrow> Inr None
   | Some t \<Rightarrow> (case fx_resolve fx v name of
         None \<Rightarrow> Inr None
       | Some (Inside local dir) \<Rightarrow> (case relative fx local of
             Some e \<Rightarrow> Inl e
           | None \<Rightarrow> if is_excluded fx f local then Inl (''Workspace link crosses a managed scope: '' @ name)
               else Inr (Some (Entry_Link local True dir)))
       | Some (Outside dir) \<Rightarrow> if dir then Inl (''Ignored directory link leaves its workspace: '' @ name)
           else Inr (Some (Entry_Link t False False))))"

definition collect_file :: "files_env \<Rightarrow> entries option \<Rightarrow> string \<Rightarrow> string \<Rightarrow> string depot_prog" where
  "collect_file fx expected name bytes = (case expected of
     None \<Rightarrow> save_blob fx bytes
   | Some known \<Rightarrow> (case bt_get known name of
         Some (Entry_File b _) \<Rightarrow>
           and_then (demand (\<lambda>_. fx_hash fx bytes = b) ''Feedback workspace files changed after completion'')
           (and_then (check_ok (\<lambda>d. blob_error fx b (dk_content d))) (give b))
       | _ \<Rightarrow> ask (\<lambda>_. Inl ''Feedback workspace files changed after completion'')))"

definition collect_node :: "files_env \<Rightarrow> files \<Rightarrow> entries option \<Rightarrow> view \<Rightarrow> string \<Rightarrow> live \<Rightarrow> entry option depot_prog" where
  "collect_node fx f expected v name node = (case node of
     Live_Link txt \<Rightarrow> ask (\<lambda>_. collect_link fx f v name txt)
   | Live_Dir m \<Rightarrow> give (Some (Entry_Dir (permissions m)))
   | Live_File bytes m _ \<Rightarrow> attempt (collect_file fx expected name bytes) (\<lambda>b. give (Some (Entry_File b (permissions m))))
   | Live_Special \<Rightarrow> ask (\<lambda>_. Inl (''Cannot inherit special workspace file: '' @ name)))"

definition collect_one :: "files_env \<Rightarrow> files \<Rightarrow> entries option \<Rightarrow> view \<Rightarrow> string \<times> live \<Rightarrow> entries \<Rightarrow> entries depot_prog" where
  "collect_one fx f expected v x found = (case x of (name, node) \<Rightarrow>
     and_then (demand (\<lambda>_. \<not> excluded fx name) (''Managed environment contains unsupported Git/Runtime metadata path: '' @ name))
     (if is_excluded fx f name \<or> in_data f name then give found
      else and_then (demand (\<lambda>_. \<not> special_metadata node)
          (''Environment needs unsupported special permissions/hardlink metadata: '' @ name))
        (and_then (check_ok (\<lambda>_. relative fx name))
        (attempt (collect_node fx f expected v name node) (\<lambda>e.
          give (case e of Some e \<Rightarrow> bt_insert name e found | None \<Rightarrow> found))))))"

text \<open>The scopes that exist, none of them behind a link.\<close>

fun scoped_paths :: "view \<Rightarrow> string list \<Rightarrow> string + string list" where
  "scoped_paths v [] = Inr []"
| "scoped_paths v (s # ss) = (case real_child v s False of
     Some e \<Rightarrow> Inl e
   | None \<Rightarrow> map_result (\<lambda>ps. if bt_contains v s then s # ps else ps) (scoped_paths v ss))"

definition collect_scopes :: "files_env \<Rightarrow> files \<Rightarrow> entries option \<Rightarrow> entries depot_prog" where
  "collect_scopes fx f expected = attempt (look dk_view) (\<lambda>v.
     attempt (ask (\<lambda>_. scoped_paths v (fl_scopes f))) (\<lambda>scopes.
       each_with (collect_one fx f expected v) (concat (map (visited fx f v) scopes)) []))"

definition capture_files :: "files_env \<Rightarrow> files \<Rightarrow> string \<Rightarrow> string \<Rightarrow> string list \<Rightarrow> unit depot_prog" where
  "capture_files fx f ident head parents =
     and_then (each_with (\<lambda>p _. attempt (load_files fx p) (\<lambda>_. give ())) parents ())
     (attempt (collect_scopes fx f None) (\<lambda>entries.
       save_version fx ident \<lparr>vr_head = head, vr_parents = parents, vr_entries = entries, vr_checksum = None\<rparr>))"

definition verify_files :: "files_env \<Rightarrow> files \<Rightarrow> string \<Rightarrow> string \<Rightarrow> unit depot_prog" where
  "verify_files fx f ident head = attempt (load_files fx ident) (\<lambda>v.
     and_then (demand (\<lambda>_. vr_head v = head) ''Feedback file snapshot does not match its Git head'')
     (attempt (collect_scopes fx f (Some (vr_entries v))) (\<lambda>entries.
       demand (\<lambda>_. entries = vr_entries v) ''Feedback workspace files changed after completion'')))"

section \<open>Ancestry\<close>

text \<open>Depth first; the stack has its top in front.\<close>

function ancestors_from :: "files_env \<Rightarrow> content \<Rightarrow> string list \<Rightarrow> string list \<Rightarrow> string + string list" where
  "ancestors_from fx ct found pending = (case pending of
     [] \<Rightarrow> Inr found
   | next # rest \<Rightarrow>
       if next \<in> set found then ancestors_from fx ct found rest
       else if 10000 < int (length (bs_insert next found)) then Inl ''Workspace file ancestry limit exceeded''
       else case load_version fx next ct of
         Inl e \<Rightarrow> Inl e
       | Inr v \<Rightarrow> ancestors_from fx ct (bs_insert next found) (rev (vr_parents v) @ rest))"
  by pat_completeness auto
termination
proof (relation "measures [\<lambda>(fx, ct, found, pending). 10000 - length found, \<lambda>(fx, ct, found, pending). length pending]")
  fix fx :: files_env and ct :: content and found pending rest :: "string list" and top :: string and v :: version
  assume "top \<notin> set found" "\<not> 10000 < int (length (bs_insert top found))"
  then have "length found < 10000" "length (bs_insert top found) = Suc (length found)"
    by (auto simp: bs_insert_def insort_insert_key_def)
  then have "10000 - length (bs_insert top found) < 10000 - length found" by linarith
  then show "((fx, ct, bs_insert top found, rev (vr_parents v) @ rest), fx, ct, found, pending)
      \<in> measures [\<lambda>(fx, ct, found, pending). 10000 - length found, \<lambda>(fx, ct, found, pending). length pending]"
    by (intro measures_less) (simp only: split_conv)
qed simp_all

declare ancestors_from.simps [simp del]

definition ancestors :: "files_env \<Rightarrow> string \<Rightarrow> content \<Rightarrow> string + string list" where
  "ancestors fx ident ct = ancestors_from fx ct [] [ident]"

definition descends_from :: "files_env \<Rightarrow> string \<Rightarrow> string \<Rightarrow> content \<Rightarrow> string + bool" where
  "descends_from fx ident parent ct = map_result (\<lambda>found. parent \<in> set found) (ancestors fx ident ct)"

section \<open>Composition\<close>

definition bind_ok :: "string + 'a \<Rightarrow> ('a \<Rightarrow> string + 'b) \<Rightarrow> string + 'b" where
  "bind_ok r f = (case r of Inl e \<Rightarrow> Inl e | Inr x \<Rightarrow> f x)"

fun each_ok :: "('a \<Rightarrow> string + 'b) \<Rightarrow> 'a list \<Rightarrow> string + 'b list" where
  "each_ok f [] = Inr []"
| "each_ok f (x # xs) = bind_ok (f x) (\<lambda>y. map_result (\<lambda>ys. y # ys) (each_ok f xs))"

definition load_entries :: "files_env \<Rightarrow> content \<Rightarrow> string \<Rightarrow> string + entries" where
  "load_entries fx ct ident = map_result vr_entries (load_version fx ident ct)"

definition same_contents :: "files_env \<Rightarrow> string \<Rightarrow> string \<Rightarrow> content \<Rightarrow> string + bool" where
  "same_contents fx a b ct = bind_ok (load_entries fx ct a) (\<lambda>x. map_result (\<lambda>y. x = y) (load_entries fx ct b))"

definition same_scope_contents :: "files_env \<Rightarrow> string \<Rightarrow> string \<Rightarrow> string \<Rightarrow> content \<Rightarrow> string + bool" where
  "same_scope_contents fx a b scope ct = (case relative fx scope of
     Some e \<Rightarrow> Inl e
   | None \<Rightarrow> (let inside = bt_retain (\<lambda>n. scope_contains (fx_native fx) n scope) in
       bind_ok (load_entries fx ct a) (\<lambda>x. map_result (\<lambda>y. inside x = inside y) (load_entries fx ct b))))"

text \<open>Three-way: the one change to what the base has, if there is one.\<close>

definition merge_path :: "entries \<Rightarrow> entries list \<Rightarrow> string \<Rightarrow> string + entry option" where
  "merge_path base inputs p = (let original = bt_get base p in
     case filter (\<lambda>x. x \<noteq> original) (map (\<lambda>es. bt_get es p) inputs) of
       [] \<Rightarrow> Inr original
     | c # cs \<Rightarrow> if \<exists>d \<in> set cs. d \<noteq> c then Inl (''Managed environment scope composition blocked: conflicting file '' @ p) else Inr c)"

fun merge_paths :: "entries \<Rightarrow> entries list \<Rightarrow> string list \<Rightarrow> entries \<Rightarrow> string + entries" where
  "merge_paths base inputs [] merged = Inr merged"
| "merge_paths base inputs (p # ps) merged = bind_ok (merge_path base inputs p) (\<lambda>e.
     merge_paths base inputs ps (case e of Some e \<Rightarrow> bt_insert p e merged | None \<Rightarrow> merged))"

definition is_directory :: "entry \<Rightarrow> bool" where
  "is_directory e = (case e of Entry_Dir _ \<Rightarrow> True | _ \<Rightarrow> False)"

definition directory_conflict :: "entries \<Rightarrow> string \<Rightarrow> string option" where
  "directory_conflict es p = first_error (map (\<lambda>d. refuse (case bt_get es d of Some e \<Rightarrow> \<not> is_directory e | None \<Rightarrow> False)
     (''Managed environment scope composition blocked: conflicting directory '' @ d)) (rev (parents_of p)))"

definition merge_entries :: "entries \<Rightarrow> entries list \<Rightarrow> string + entries" where
  "merge_entries base inputs =
     bind_ok (merge_paths base inputs (bs_of_list (bt_keys base @ concat (map bt_keys inputs))) []) (\<lambda>merged.
       case first_error (map (directory_conflict merged) (bt_keys merged)) of Some e \<Rightarrow> Inl e | None \<Rightarrow> Inr merged)"

text \<open>What is in no other's ancestry, with its own ancestry.\<close>

definition independents :: "(string \<times> string list) list \<Rightarrow> (string \<times> string list) list" where
  "independents table = filter (\<lambda>(v, _). \<not> (\<exists>(other, found) \<in> set table. other \<noteq> v \<and> v \<in> set found)) table"

definition common_ancestors :: "string list list \<Rightarrow> string list" where
  "common_ancestors founds = (case founds of [] \<Rightarrow> [] | a # rest \<Rightarrow> fold (\<lambda>b c. filter (\<lambda>x. x \<in> set b) c) rest a)"

definition merge_bases :: "files_env \<Rightarrow> content \<Rightarrow> string list \<Rightarrow> string + string list" where
  "merge_bases fx ct common = map_result (\<lambda>founds.
       filter (\<lambda>b. \<not> (\<exists>(v, found) \<in> set (zip common founds). b \<noteq> v \<and> b \<in> set found)) common)
     (each_ok (\<lambda>v. ancestors fx v ct) common)"

definition compose :: "files_env \<Rightarrow> string list \<Rightarrow> content \<Rightarrow> string + entries" where
  "compose fx versions ct = (let versions = bs_of_list versions in
     bind_ok (each_ok (\<lambda>v. ancestors fx v ct) versions) (\<lambda>founds.
       case independents (zip versions founds) of
         [(v, _)] \<Rightarrow> load_entries fx ct v
       | independent \<Rightarrow>
           bind_ok (merge_bases fx ct (common_ancestors (map snd independent))) (\<lambda>bases.
             if 1 < length bases then Inl ''Managed environment scope composition blocked: ambiguous merge base''
             else bind_ok (case bases of b # _ \<Rightarrow> load_entries fx ct b | [] \<Rightarrow> Inr []) (\<lambda>base.
               bind_ok (each_ok (\<lambda>(v, _). load_entries fx ct v) independent) (merge_entries base)))))"

definition validate_files :: "files_env \<Rightarrow> string list \<Rightarrow> content \<Rightarrow> string option" where
  "validate_files fx versions ct = (case compose fx versions ct of
     Inl e \<Rightarrow> Some e
   | Inr es \<Rightarrow> first_error (map (\<lambda>e. case e of Entry_File b _ \<Rightarrow> blob_error fx b ct | _ \<Rightarrow> None) (bt_values es)))"

section \<open>Restoring a workspace\<close>

definition change_view :: "(view \<Rightarrow> string + view) \<Rightarrow> unit depot_prog" where
  "change_view g = put (\<lambda>d. map_result (\<lambda>v. d\<lparr>dk_view := v\<rparr>) (g (dk_view d)))"

definition tracked_files :: "files_env \<Rightarrow> files \<Rightarrow> view \<Rightarrow> string + string list" where
  "tracked_files fx f v = (if fl_project_index f then map_result (filter (\<lambda>n. n \<noteq> [])) (fx_tracked fx v) else Inr [])"

definition tracked_conflict :: "files_env \<Rightarrow> view \<Rightarrow> string list \<Rightarrow> string \<times> entry \<Rightarrow> string option" where
  "tracked_conflict fx v tracked x = (case x of (name, e) \<Rightarrow>
     refuse (name \<in> set tracked \<and> (case e of
         Entry_File b _ \<Rightarrow> map_option (fx_hash fx) (fx_read fx v name) \<noteq> Some b | _ \<Rightarrow> True))
       (''Managed environment scope conflicts with tracked path '' @ name))"

text \<open>Directories the owner cannot enter or change are opened.\<close>

definition open_mode :: "nat \<Rightarrow> nat" where
  "open_mode m = (m div 512) * 512 + 448 + m mod 64"

definition open_directories :: "entries \<Rightarrow> view \<Rightarrow> view" where
  "open_directories current v = map (\<lambda>(n, node). (n, case node of
     Live_Dir m \<Rightarrow> if (case bt_get current n of Some (Entry_Dir _) \<Rightarrow> True | _ \<Rightarrow> False) then Live_Dir (open_mode m) else node
   | _ \<Rightarrow> node)) v"

definition depth :: "string \<Rightarrow> nat" where
  "depth n = length (parents_of n)"

text \<open>Deepest first.\<close>

definition removal_order :: "string list \<Rightarrow> string list" where
  "removal_order names = remdups_adj (sort_key (\<lambda>n. - int (depth n)) names)"

definition has_child :: "view \<Rightarrow> string \<Rightarrow> bool" where
  "has_child v d \<longleftrightarrow> (\<exists>n \<in> set (bt_keys v). below d n)"

definition parent_error :: "view \<Rightarrow> string \<Rightarrow> string option" where
  "parent_error v n = (case rev (parents_of n) of [] \<Rightarrow> None | p # _ \<Rightarrow> real_child v p False)"

definition remove_at :: "string list \<Rightarrow> string \<Rightarrow> view \<Rightarrow> string + view" where
  "remove_at tracked n v = (case parent_error v n of
     Some e \<Rightarrow> Inl e
   | None \<Rightarrow> (case bt_get v n of
       None \<Rightarrow> Inr v
     | Some (Live_Dir _) \<Rightarrow> if (\<exists>t \<in> set tracked. below n t) \<or> has_child v n then Inr v else Inr (bt_retain (\<lambda>k. k \<noteq> n) v)
     | Some _ \<Rightarrow> Inr (bt_retain (\<lambda>k. k \<noteq> n) v)))"

definition remove_name :: "files_env \<Rightarrow> files \<Rightarrow> string list \<Rightarrow> string \<Rightarrow> unit depot_prog" where
  "remove_name fx f tracked n = (if n \<in> set tracked \<or> is_excluded fx f n then give () else change_view (remove_at tracked n))"

fun make_dirs :: "nat \<Rightarrow> string list \<Rightarrow> view \<Rightarrow> string + view" where
  "make_dirs made [] v = Inr v"
| "make_dirs made (p # ps) v = (case bt_get v p of
     None \<Rightarrow> make_dirs made ps (bt_insert p (Live_Dir made) v)
   | Some (Live_Dir _) \<Rightarrow> make_dirs made ps v
   | Some _ \<Rightarrow> Inl (''File exists: '' @ p))"

definition check_view :: "(view \<Rightarrow> string option) \<Rightarrow> unit depot_prog" where
  "check_view q = check_ok (\<lambda>d. q (dk_view d))"

definition copy_blob :: "files_env \<Rightarrow> string \<Rightarrow> string \<Rightarrow> nat \<Rightarrow> unit depot_prog" where
  "copy_blob fx n b m =
     and_then (demand (\<lambda>_. blob_id b) ''Invalid workspace file blob'')
     (attempt (ask (\<lambda>d. ok_or (bt_get (ct_blobs (dk_content d)) b) ''Missing workspace file blob'')) (\<lambda>bytes.
      and_then (change_view (\<lambda>v. if bt_contains v n then Inl (''Private copy destination already exists: '' @ n)
         else Inr (bt_insert n (Live_File bytes m 1) v)))
        (demand (\<lambda>_. fx_hash fx bytes = b) (''Damaged workspace file blob: '' @ b))))"

definition place_entry :: "files_env \<Rightarrow> string list \<Rightarrow> string \<times> entry \<Rightarrow> unit depot_prog" where
  "place_entry fx tracked x = (case x of (n, e) \<Rightarrow>
     if n \<in> set tracked then give ()
     else and_then (check_ok (\<lambda>_. relative fx n))
       (and_then (check_view (\<lambda>v. parent_error v n))
       (and_then (change_view (make_dirs (fx_made fx) (parents_of n)))
       (case e of
          Entry_Dir _ \<Rightarrow> and_then (check_view (\<lambda>v. real_child v n False)) (change_view (make_dirs (fx_made fx) [n]))
        | Entry_File b m \<Rightarrow> and_then (check_view (\<lambda>v. real_child v n False)) (copy_blob fx n b m)
        | Entry_Link _ _ _ \<Rightarrow> give ()))))"

definition link_entry :: "files_env \<Rightarrow> string list \<Rightarrow> string \<times> entry \<Rightarrow> unit depot_prog" where
  "link_entry fx tracked x = (case x of
     (n, Entry_Link t internal _) \<Rightarrow>
       if n \<in> set tracked then give ()
       else and_then (check_ok (\<lambda>_. if internal then relative fx t else None))
         (change_view (\<lambda>v. if bt_contains v n then Inl (''File exists: '' @ n)
           else Inr (bt_insert n (Live_Link (Some (if internal then fx_absolute fx t else t))) v)))
   | _ \<Rightarrow> give ())"

definition chmod :: "nat \<Rightarrow> live \<Rightarrow> live" where
  "chmod m node = (case node of Live_Dir _ \<Rightarrow> Live_Dir m | Live_File bytes _ links \<Rightarrow> Live_File bytes m links | _ \<Rightarrow> node)"

definition restore_mode :: "string \<times> entry \<Rightarrow> unit depot_prog" where
  "restore_mode x = (case x of
     (n, Entry_Dir m) \<Rightarrow> only_if (m \<noteq> 0) (change_view (\<lambda>v.
       if bt_contains v n then Inr (bt_update n (chmod m) v) else Inl (''No such file or directory: '' @ n)))
   | _ \<Rightarrow> give ())"

text \<open>\<open>for x in xs { f(x)?; }\<close>\<close>

definition for_each :: "('b \<Rightarrow> ('s, unit) prog) \<Rightarrow> 'b list \<Rightarrow> ('s, unit) prog" where
  "for_each f xs = each_with (\<lambda>x _. f x) xs ()"

definition clear_scopes :: "files_env \<Rightarrow> files \<Rightarrow> string list \<Rightarrow> string option \<Rightarrow> unit depot_prog" where
  "clear_scopes fx f tracked previous = attempt (collect_scopes fx f None) (\<lambda>current.
     and_then (change_view (\<lambda>v. Inr (open_directories current v)))
     (attempt (ask (\<lambda>d. case previous of
          Some p \<Rightarrow> if version_id fx p \<and> bt_contains (ct_versions (dk_content d)) p
            then map_result bt_keys (load_entries fx (dk_content d) p) else Inr []
        | None \<Rightarrow> Inr [])) (\<lambda>earlier.
       for_each (remove_name fx f tracked) (removal_order (bt_keys current @ earlier)))))"

definition build_entries :: "files_env \<Rightarrow> string list \<Rightarrow> entries \<Rightarrow> unit depot_prog" where
  "build_entries fx tracked desired =
     and_then (for_each (place_entry fx tracked) desired)
     (and_then (for_each (link_entry fx tracked) desired)
       (for_each restore_mode (rev desired)))"

definition materialize :: "files_env \<Rightarrow> files \<Rightarrow> string list \<Rightarrow> string option \<Rightarrow> bool \<Rightarrow> unit depot_prog" where
  "materialize fx f versions previous reuse =
     and_then (check_ok (\<lambda>d. validate_files fx versions (dk_content d)))
     (attempt (ask (\<lambda>d. compose fx versions (dk_content d))) (\<lambda>desired.
      and_then (demand (\<lambda>_. \<not> (\<exists>n \<in> set (bt_keys desired). is_excluded fx f n))
        ''Workspace file snapshot overlaps an excluded managed scope'')
      (attempt (ask (\<lambda>d. tracked_files fx f (dk_view d))) (\<lambda>tracked.
       and_then (check_view (\<lambda>v. first_error (map (tracked_conflict fx v tracked) desired)))
       (attempt (ask (\<lambda>d. case previous of
            Some p \<Rightarrow> if reuse then map_result (\<lambda>es. es = desired) (load_entries fx (dk_content d) p) else Inr False
          | None \<Rightarrow> Inr False)) (\<lambda>unchanged.
         if unchanged then give ()
         else and_then (clear_scopes fx f tracked previous) (build_entries fx tracked desired)))))))"

end
