(* ===== verification/Content_Correct.thy ===== *)
theory Content_Correct
  imports Content_Store Results_Correct
begin

text \<open>
  What is captured stays: capture, verification, composition and restoration keep every version and every blob of the
  content store.  Collecting a workspace records the entry of every name visible below a managed scope, and nothing else.
\<close>

section \<open>Names\<close>

lemma parents_iff [simp]: "p \<in> set (parents_of n) \<longleftrightarrow> below p n"
proof
  assume "p \<in> set (parents_of n)"
  then obtain i where i: "i < length n" "n ! i = CHR 0x2F" and p: "p = take i n" by (auto simp: parents_of_def)
  then have "n = p @ CHR 0x2F # drop (Suc i) n" using id_take_nth_drop [of i n] by simp
  then show "below p n" by (auto simp: below_def starts_with_iff)
next
  assume "below p n"
  then obtain t where n: "n = p @ CHR 0x2F # t" by (auto simp: below_def starts_with_iff)
  then have "length p < length n \<and> n ! length p = CHR 0x2F \<and> p = take (length p) n" by simp
  then show "p \<in> set (parents_of n)" unfolding parents_of_def by force
qed

lemma below_iff: "below p n \<longleftrightarrow> (\<exists>t. n = p @ CHR 0x2F # t)"
  by (auto simp: below_def starts_with_iff)

lemma below_trans: "below a b \<Longrightarrow> below b c \<Longrightarrow> below a c"
  by (auto simp: below_iff)

lemma below_linear: "below a c \<Longrightarrow> below b c \<Longrightarrow> a = b \<or> below a b \<or> below b a"
proof -
  assume "below a c" "below b c"
  then obtain s t where "c = a @ CHR 0x2F # s" "c = b @ CHR 0x2F # t" unfolding below_iff by blast
  then have eq: "a @ CHR 0x2F # s = b @ CHR 0x2F # t" by simp
  then have "(\<exists>us. a = b @ us) \<or> (\<exists>us. b = a @ us)" by (auto simp: append_eq_append_conv2)
  then show ?thesis
  proof
    assume "\<exists>us. a = b @ us"
    then obtain us where "a = b @ us" by blast
    with eq show ?thesis by (cases us) (auto simp: below_iff)
  next
    assume "\<exists>us. b = a @ us"
    then obtain us where "b = a @ us" by blast
    with eq show ?thesis by (cases us) (auto simp: below_iff)
  qed
qed

lemma below_less: "below p n \<Longrightarrow> p < n"
proof -
  have "p < p @ c # t" for c :: char and t by (induction p) auto
  then show "below p n \<Longrightarrow> p < n" by (auto simp: below_iff)
qed

lemma not_below_self [simp]: "\<not> below n n"
  using below_less by blast

lemma depth_below: "below p n \<Longrightarrow> depth p < depth n"
proof -
  have count: "depth n = length (filter (\<lambda>c. c = CHR 0x2F) n)" for n
  proof (induction n rule: rev_induct)
    case (snoc c n)
    have "filter (\<lambda>i. (n @ [c]) ! i = CHR 0x2F) [0..<length n] = filter (\<lambda>i. n ! i = CHR 0x2F) [0..<length n]"
      by (rule filter_cong) (auto simp: nth_append)
    then show ?case using snoc by (simp add: depth_def parents_of_def)
  qed (simp add: depth_def parents_of_def)
  assume "below p n"
  then show ?thesis by (auto simp: below_iff count)
qed

section \<open>What a store keeps\<close>

definition content_le :: "content \<Rightarrow> content \<Rightarrow> bool" where
  "content_le ct ct' \<longleftrightarrow> (\<forall>n v. bt_get (ct_versions ct) n = Some v \<longrightarrow> bt_get (ct_versions ct') n = Some v)
     \<and> (\<forall>b bytes. bt_get (ct_blobs ct) b = Some bytes \<longrightarrow> bt_get (ct_blobs ct') b = Some bytes)"

lemma content_le_refl [simp]: "content_le ct ct"
  by (simp add: content_le_def)

lemma content_le_trans: "content_le a b \<Longrightarrow> content_le b c \<Longrightarrow> content_le a c"
  by (auto simp: content_le_def)

text \<open>What saving a blob and changing a workspace keep, reading and restoring a workspace keep.\<close>

locale depot_relation = kept_relation R for R :: "depot \<Rightarrow> depot \<Rightarrow> bool" +
  assumes blob: "kept_by R (save_blob fx bytes)"
    and change: "kept_by R (change_view g)"
begin

lemma one: "kept_by R (collect_one fx f expected v x found)"
proof -
  have "kept_by R (collect_file fx expected name bytes)" for name bytes
    unfolding collect_file_def
    by (cases expected; cases "bt_get (the expected) name"; cases "the (bt_get (the expected) name)")
      (simp_all add: blob kept_and_then kept_reads step_rules)
  then have "kept_by R (collect_node fx f expected v name node)" for name node
    by (cases node) (simp_all add: collect_node_def kept_attempt kept_reads step_rules)
  then show ?thesis
    unfolding collect_one_def
    by (cases x, hypsubst, unfold prod.case) (intro kept_attempt kept_and_then kept_cases | assumption | intro kept_reads step_rules)+
qed

lemma collect: "kept_by R (collect_scopes fx f expected)"
  unfolding collect_scopes_def by (intro kept_attempt kept_each one kept_reads [OF reads_rules(2)] kept_reads [OF reads_rules(3)])

lemma verify: "kept_by R (verify_files fx f ident head)"
  unfolding verify_files_def load_files_def by (intro kept_attempt kept_and_then collect kept_reads step_rules)

lemma restore: "kept_by R (materialize fx f versions previous reuse)"
proof -
  have copy: "kept_by R (copy_blob fx n b m)" for n b m
    unfolding copy_blob_def by (intro kept_attempt kept_and_then change kept_reads step_rules)
  have entry: "kept_by R (case e of Entry_Dir _ \<Rightarrow> p | Entry_File b m \<Rightarrow> q b m | Entry_Link t i dir \<Rightarrow> r t i dir)"
    if "kept_by R p" "\<And>b m. kept_by R (q b m)" "\<And>t i dir. kept_by R (r t i dir)"
    for e and p :: "unit depot_prog" and q r using that by (cases e) simp_all
  have build: "kept_by R (place_entry fx tracked x)" for tracked x
    unfolding place_entry_def check_view_def
    by (cases x, hypsubst, unfold prod.case) (intro entry copy kept_and_then kept_cases change kept_reads step_rules)
  have others: "kept_by R (link_entry fx tracked x)" "kept_by R (restore_mode x)" "kept_by R (remove_name fx f tracked n)" for tracked x n
    by (cases x; cases "snd x"; simp add: link_entry_def restore_mode_def remove_name_def kept_and_then kept_cases change
        kept_reads step_rules)+
  show ?thesis
    unfolding materialize_def clear_scopes_def build_entries_def for_each_def check_view_def
    by (intro kept_attempt kept_and_then kept_cases collect change kept_each build others kept_reads step_rules)
qed

end

interpretation content: depot_relation "\<lambda>d d'. content_le (dk_content d) (dk_content d')"
proof
  show "kept_by (\<lambda>d d'. content_le (dk_content d) (dk_content d')) (save_blob fx bytes)" for fx bytes
    by (auto simp: kept_by_def save_blob_def Let_def and_then_def attempt_def demand_def give_def put_def insert_blob_def content_le_def
        btree_simps split: option.splits)
  show "kept_by (\<lambda>d d'. content_le (dk_content d) (dk_content d')) (change_view g)" for g
    by (auto simp: kept_by_def change_view_def put_def map_result_def split: sum.splits)
qed (simp, rule content_le_trans)

interpretation unversioned: depot_relation "\<lambda>d d'. ct_versions (dk_content d') = ct_versions (dk_content d)"
  by unfold_locales (auto simp: kept_by_def save_blob_def change_view_def Let_def and_then_def attempt_def demand_def give_def put_def
      insert_blob_def map_result_def split: option.splits sum.splits)

lemma keeps_capture:
  fixes ps :: "string list"
  shows "kept_by (\<lambda>d d'. content_le (dk_content d) (dk_content d')) (capture_files fx f ident head ps)"
    and "kept_by (\<lambda>d d'. content_le (dk_content d) (dk_content d')) (capture_empty fx ident)"
proof -
  have save: "kept_by (\<lambda>d d'. content_le (dk_content d) (dk_content d')) (save_version fx ident v)" for v
    by (auto simp: kept_by_def save_version_def put_def insert_version_def content_le_def bt_contains_def btree_simps)
  show "kept_by (\<lambda>d d'. content_le (dk_content d) (dk_content d')) (capture_files fx f ident head ps)"
    and "kept_by (\<lambda>d d'. content_le (dk_content d) (dk_content d')) (capture_empty fx ident)"
    unfolding capture_files_def capture_empty_def load_files_def
    by (intro content.kept_attempt content.kept_and_then content.collect save content.kept_each content.kept_reads step_rules)+
qed

text \<open>A workspace changes in any way; the store only through its operations, whether they succeed or fail.\<close>

inductive files_reach :: "files_env \<Rightarrow> depot \<Rightarrow> depot \<Rightarrow> bool" for fx where
  files_start: "files_reach fx d d"
| files_work: "files_reach fx d d1 \<Longrightarrow> files_reach fx d (d1\<lparr>dk_view := v\<rparr>)"
| files_capture: "files_reach fx d d1 \<Longrightarrow> files_reach fx d (snd (capture_files fx f ident head ps d1))"
| files_empty: "files_reach fx d d1 \<Longrightarrow> files_reach fx d (snd (capture_empty fx ident d1))"
| files_restore: "files_reach fx d d1 \<Longrightarrow> files_reach fx d (snd (materialize fx f versions previous reuse d1))"
| files_verify: "files_reach fx d d1 \<Longrightarrow> files_reach fx d (snd (verify_files fx f ident head d1))"

lemma files_reach_le: "files_reach fx d d' \<Longrightarrow> content_le (dk_content d) (dk_content d')"
  by (induction rule: files_reach.induct)
    (simp_all add: content.kept_after [OF keeps_capture(1)] content.kept_after [OF keeps_capture(2)]
      content.kept_after [OF content.restore] content.kept_after [OF content.verify])

section \<open>What is read from a workspace\<close>

text \<open>A workspace is a tree: what a name is in is a directory.\<close>

definition view_ok :: "view \<Rightarrow> bool" where
  "view_ok v \<longleftrightarrow> bt_wf v \<and> (\<forall>n p. bt_contains v n \<longrightarrow> below p n \<longrightarrow> (\<exists>m. bt_get v p = Some (Live_Dir m)))"

lemma view_ok_parent: "view_ok v \<Longrightarrow> bt_get v n = Some node \<Longrightarrow> below p n \<Longrightarrow> \<exists>m. bt_get v p = Some (Live_Dir m)"
  unfolding view_ok_def bt_contains_def by blast

definition node_entry :: "files_env \<Rightarrow> files \<Rightarrow> view \<Rightarrow> string \<Rightarrow> live \<Rightarrow> entry option" where
  "node_entry fx f v n node = (case node of
     Live_Dir m \<Rightarrow> Some (Entry_Dir (permissions m))
   | Live_File bytes m _ \<Rightarrow> Some (Entry_File (fx_hash fx bytes) (permissions m))
   | Live_Link t \<Rightarrow> (case collect_link fx f v n t of Inr e \<Rightarrow> e | Inl _ \<Rightarrow> None)
   | Live_Special \<Rightarrow> None)"

definition collected :: "files_env \<Rightarrow> files \<Rightarrow> view \<Rightarrow> string \<Rightarrow> entry option" where
  "collected fx f v n = (case bt_get v n of
     None \<Rightarrow> None
   | Some node \<Rightarrow> if is_excluded fx f n \<or> in_data f n then None else node_entry fx f v n node)"

definition visible :: "files_env \<Rightarrow> files \<Rightarrow> string \<Rightarrow> string \<Rightarrow> bool" where
  "visible fx f s n \<longleftrightarrow> (n = s \<or> below s n) \<and> (\<forall>p. below p n \<longrightarrow> (p = s \<or> below s p) \<longrightarrow> \<not> is_excluded fx f p \<and> \<not> in_data f p)"

text \<open>The entry a capture records for a name.\<close>

definition entry_at :: "files_env \<Rightarrow> files \<Rightarrow> view \<Rightarrow> string \<Rightarrow> entry option" where
  "entry_at fx f v n = (if \<exists>s \<in> set (fl_scopes f). visible fx f s n then collected fx f v n else None)"

definition fine :: "files_env \<Rightarrow> files \<Rightarrow> view \<Rightarrow> string \<Rightarrow> live \<Rightarrow> bool" where
  "fine fx f v n node \<longleftrightarrow> \<not> excluded fx n \<and> (is_excluded fx f n \<or> in_data f n
     \<or> \<not> special_metadata node \<and> relative fx n = None \<and> node \<noteq> Live_Special
       \<and> (\<forall>t. node = Live_Link t \<longrightarrow> (\<exists>e. collect_link fx f v n t = Inr e)))"

definition stored_entry :: "files_env \<Rightarrow> content \<Rightarrow> string \<Rightarrow> entry \<Rightarrow> bool" where
  "stored_entry fx ct n e \<longleftrightarrow> entry_error fx (n, e) = None \<and> (\<forall>b m. e = Entry_File b m \<longrightarrow> blob_error fx b ct = None)"

lemma blob_later: "content_le ct ct' \<Longrightarrow> blob_error fx b ct = None \<Longrightarrow> blob_error fx b ct' = None"
  by (cases "bt_get (ct_blobs ct) b") (auto simp: blob_error_def content_le_def split: if_splits)

lemma stored_later: "content_le ct ct' \<Longrightarrow> stored_entry fx ct n e \<Longrightarrow> stored_entry fx ct' n e"
  using blob_later by (auto simp: stored_entry_def)

lemma save_blob_ok:
  "save_blob fx bytes d = (Inr b, d') \<Longrightarrow> b = fx_hash fx bytes \<and> blob_error fx b (dk_content d') = None \<and> dk_view d' = dk_view d"
  by (auto simp: save_blob_def Let_def step_ok put_ok blob_error_def insert_blob_def btree_simps split: option.splits if_splits)

lemma collect_file_ok:
  "collect_file fx expected n bytes d = (Inr b, d')
   \<Longrightarrow> b = fx_hash fx bytes \<and> blob_error fx b (dk_content d') = None \<and> dk_view d' = dk_view d \<and> (expected \<noteq> None \<longrightarrow> d' = d)"
  by (auto simp: collect_file_def step_ok dest!: save_blob_ok split: option.splits entry.splits)

lemma collect_link_ok:
  "collect_link fx f v n t = Inr (Some e) \<Longrightarrow> relative fx n = None \<Longrightarrow> entry_error fx (n, e) = None \<and> (\<forall>b m. e \<noteq> Entry_File b m)"
  by (auto simp: collect_link_def entry_error_def split: option.splits resolution.splits if_splits)

lemma collect_node_ok:
  assumes "collect_node fx f expected v n node d = (Inr e, d')" and "relative fx n = None"
  shows "e = node_entry fx f v n node \<and> dk_view d' = dk_view d \<and> node \<noteq> Live_Special
     \<and> (\<forall>t. node = Live_Link t \<longrightarrow> (\<exists>e. collect_link fx f v n t = Inr e))
     \<and> (\<forall>x. e = Some x \<longrightarrow> stored_entry fx (dk_content d') n x) \<and> (expected \<noteq> None \<longrightarrow> d' = d)"
proof (cases node)
  case (Live_File bytes m links)
  then obtain b where "collect_file fx expected n bytes d = (Inr b, d')" "e = Some (Entry_File b (permissions m))"
    using assms(1) by (auto simp: collect_node_def step_ok)
  moreover have "blob_error fx b ct = None \<Longrightarrow> stored_entry fx ct n (Entry_File b (permissions m))" for ct
    using assms(2) by (simp add: stored_entry_def entry_error_def first_error_None) (simp add: blob_error_def split: if_splits)
  moreover note collect_file_ok [of fx expected n bytes d b d']
  ultimately show ?thesis using Live_File by (auto simp: node_entry_def)
next
  case (Live_Link t)
  then have "collect_link fx f v n t = Inr e" "d' = d" using assms(1) by (auto simp: collect_node_def step_ok)
  then show ?thesis using collect_link_ok [of fx f v n t] assms(2) Live_Link by (auto simp: node_entry_def stored_entry_def)
qed (use assms in \<open>auto simp: collect_node_def step_ok node_entry_def stored_entry_def entry_error_def\<close>)

lemma collect_one_ok:
  assumes "collect_one fx f expected v (n, node) found d = (Inr found', d')" and "bt_get v n = Some node"
  shows "found' = (case collected fx f v n of Some e \<Rightarrow> bt_insert n e found | None \<Rightarrow> found) \<and> dk_view d' = dk_view d
     \<and> fine fx f v n node \<and> (\<forall>e. collected fx f v n = Some e \<longrightarrow> stored_entry fx (dk_content d') n e) \<and> (expected \<noteq> None \<longrightarrow> d' = d)"
proof (cases "is_excluded fx f n \<or> in_data f n")
  case True
  then show ?thesis using assms by (auto simp: collect_one_def collected_def fine_def step_ok)
next
  case False
  then obtain e where "\<not> excluded fx n" "\<not> special_metadata node" "relative fx n = None"
    and e: "collect_node fx f expected v n node d = (Inr e, d')" and found': "found' = (case e of Some e \<Rightarrow> bt_insert n e found | None \<Rightarrow> found)"
    using assms(1) by (auto simp: collect_one_def step_ok)
  then show ?thesis using collect_node_ok [OF e] False assms(2) by (auto simp: collected_def fine_def)
qed

lemma collect_each_ok:
  assumes "each_with (collect_one fx f expected v) xs found d = (Inr es, d')" and "set xs \<subseteq> set v" and "bt_wf v"
  shows "dk_view d' = dk_view d \<and> (bt_wf found \<longrightarrow> bt_wf es)
     \<and> (\<forall>n. bt_get es n = (if n \<in> fst ` set xs \<and> collected fx f v n \<noteq> None then collected fx f v n else bt_get found n))
     \<and> (\<forall>(n, node) \<in> set xs. fine fx f v n node)
     \<and> (\<forall>n \<in> fst ` set xs. \<forall>e. collected fx f v n = Some e \<longrightarrow> stored_entry fx (dk_content d') n e) \<and> (expected \<noteq> None \<longrightarrow> d' = d)"
  using assms
proof (induction xs arbitrary: found d)
  case (Cons x xs)
  obtain n node where x: "x = (n, node)" by (cases x)
  from Cons.prems(1) obtain found1 d1 where one: "collect_one fx f expected v (n, node) found d = (Inr found1, d1)"
    and rest: "each_with (collect_one fx f expected v) xs found1 d1 = (Inr es, d')"
    by (auto simp: x step_ok)
  have "bt_get v n = Some node" using Cons.prems(2,3) bt_wf_distinct [of v] by (auto simp: x bt_get_def)
  note one = collect_one_ok [OF one this] and rest' = Cons.IH [OF rest _ Cons.prems(3)]
  have le: "content_le (dk_content d1) (dk_content d')"
  proof -
    have "content_le (dk_content d1) (dk_content (snd (each_with (collect_one fx f expected v) xs found1 d1)))"
      by (rule content.kept_after [OF content.kept_each [OF content.one]]) simp
    then show ?thesis by (simp add: rest)
  qed
  have xs: "set xs \<subseteq> set v" using Cons.prems(2) by simp
  note rest' = rest' [OF xs]
  have found1: "bt_wf found \<Longrightarrow> bt_wf found1" using one by (auto simp: bt_wf_insert split: option.splits)
  have get1: "bt_get found1 k = (if k = n \<and> collected fx f v n \<noteq> None then collected fx f v n else bt_get found k)" for k
    using one by (auto simp: btree_simps split: option.splits)
  have "bt_get es k = (if k \<in> fst ` set (x # xs) \<and> collected fx f v k \<noteq> None then collected fx f v k else bt_get found k)" for k
    using rest' get1 [of k] by (cases "k = n") (auto simp: x)
  moreover have "\<forall>e. collected fx f v n = Some e \<longrightarrow> stored_entry fx (dk_content d') n e" using one stored_later [OF le] by blast
  moreover have "dk_view d' = dk_view d" "expected \<noteq> None \<longrightarrow> d' = d" using one rest' by auto
  ultimately show ?case using one rest' found1 by (simp add: x)
qed (auto simp: step_ok)

lemma scoped_paths_ok:
  "scoped_paths v ss = Inr ps \<Longrightarrow> ps = filter (bt_contains v) ss \<and> (\<forall>s \<in> set ss. real_child v s False = None)"
  by (induction ss arbitrary: ps) (auto simp: map_result_Inr split: option.splits)

lemma fst_image: "a \<in> fst ` A \<longleftrightarrow> (\<exists>b. (a, b) \<in> A)"
  by force

lemma collect_ok:
  assumes "collect_scopes fx f expected d = (Inr es, d')" and v: "view_ok (dk_view d)"
  shows "bt_wf es \<and> (\<forall>n. bt_get es n = entry_at fx f (dk_view d) n) \<and> dk_view d' = dk_view d
     \<and> (\<forall>s \<in> set (fl_scopes f). real_child (dk_view d) s False = None)
     \<and> (\<forall>s \<in> set (fl_scopes f). \<forall>n node. visible fx f s n \<longrightarrow> bt_get (dk_view d) n = Some node \<longrightarrow> fine fx f (dk_view d) n node)
     \<and> (\<forall>n e. bt_get es n = Some e \<longrightarrow> stored_entry fx (dk_content d') n e) \<and> (expected \<noteq> None \<longrightarrow> d' = d)"
proof -
  let ?v = "dk_view d"
  from assms(1) obtain ps where "scoped_paths ?v (fl_scopes f) = Inr ps"
    and each: "each_with (collect_one fx f expected ?v) (concat (map (visited fx f ?v) ps)) [] d = (Inr es, d')"
    by (auto simp: collect_scopes_def step_ok)
  then have ps: "ps = filter (bt_contains ?v) (fl_scopes f)" and real: "\<forall>s \<in> set (fl_scopes f). real_child ?v s False = None"
    using scoped_paths_ok by auto
  have wf: "bt_wf ?v" using v by (simp add: view_ok_def)
  have pairs: "(n, node) \<in> set ?v \<longleftrightarrow> bt_get ?v n = Some node" for n node
    using bt_wf_distinct [OF wf] by (simp add: bt_get_def)
  have scope: "bt_contains ?v s" if "visible fx f s n" "bt_get ?v n = Some node" for s n node
  proof (cases "n = s")
    case False
    then have "below s n" using that by (simp add: visible_def)
    then have "\<exists>m. bt_get ?v s = Some (Live_Dir m)" using view_ok_parent [OF v that(2)] by blast
    then show ?thesis by (auto simp: bt_contains_def)
  qed (use that in \<open>simp add: bt_contains_def\<close>)
  have xs: "(n, node) \<in> set (concat (map (visited fx f ?v) ps)) \<longleftrightarrow> bt_get ?v n = Some node \<and> (\<exists>s \<in> set (fl_scopes f). visible fx f s n)" for n node
  proof -
    have "visited fx f ?v s = filter (\<lambda>(n, _). visible fx f s n) ?v" for s
      by (simp add: visited_def visible_def Ball_def)
    then have "(n, node) \<in> set (concat (map (visited fx f ?v) ps))
        \<longleftrightarrow> (n, node) \<in> set ?v \<and> (\<exists>s \<in> set (fl_scopes f). bt_contains ?v s \<and> visible fx f s n)"
      by (auto simp: ps)
    then show ?thesis using pairs scope by blast
  qed
  then have sub: "set (concat (map (visited fx f ?v) ps)) \<subseteq> set ?v" using pairs by auto
  have names: "n \<in> fst ` set (concat (map (visited fx f ?v) ps)) \<longleftrightarrow> bt_contains ?v n \<and> (\<exists>s \<in> set (fl_scopes f). visible fx f s n)" for n
    by (simp only: fst_image xs) (simp add: bt_contains_def)
  note each = collect_each_ok [OF each sub wf]
  have get: "bt_get es n = entry_at fx f ?v n" for n
  proof -
    have "bt_get es n = (if n \<in> fst ` set (concat (map (visited fx f ?v) ps)) \<and> collected fx f ?v n \<noteq> None then collected fx f ?v n else None)"
      using each by (simp add: bt_get_def)
    moreover have "\<not> bt_contains ?v n \<Longrightarrow> collected fx f ?v n = None" by (simp add: bt_contains_def collected_def)
    ultimately show ?thesis unfolding names entry_at_def by auto
  qed
  moreover have "stored_entry fx (dk_content d') n e" if "bt_get es n = Some e" for n e
  proof -
    from that have "collected fx f ?v n = Some e" "\<exists>s \<in> set (fl_scopes f). visible fx f s n"
      by (auto simp: get entry_at_def split: if_splits)
    moreover have "bt_contains ?v n" using calculation(1) by (auto simp: collected_def bt_contains_def split: option.splits)
    ultimately show ?thesis using each names by blast
  qed
  moreover have "fine fx f ?v n node" if "s \<in> set (fl_scopes f)" "visible fx f s n" "bt_get ?v n = Some node" for s n node
    using each xs [of n node] that by blast
  ultimately show ?thesis using each real by simp
qed

end
