(* ===== verification/Content_Compose.thy ===== *)
theory Content_Compose
  imports Content_Correct
begin

text \<open>
  Versions of managed files: their parents exist and make no cycles, so the ancestry the store computes is what the
  parents say, and a composition is a three-way merge over the last common ancestor that takes over every change.
\<close>

section \<open>The versions of a store\<close>

definition content_ok :: "files_env \<Rightarrow> content \<Rightarrow> bool" where
  "content_ok fx ct \<longleftrightarrow> (\<forall>n v. bt_get (ct_versions ct) n = Some v \<longrightarrow> load_version fx n ct = Inr v
       \<and> (\<forall>p \<in> set (vr_parents v). bt_contains (ct_versions ct) p))
     \<and> (\<exists>rank :: string \<Rightarrow> nat. \<forall>n v. bt_get (ct_versions ct) n = Some v \<longrightarrow> (\<forall>p \<in> set (vr_parents v). rank p < rank n))"

definition empty_content :: content where
  "empty_content = \<lparr>ct_versions = [], ct_blobs = []\<rparr>"

lemma content_ok_empty: "content_ok fx empty_content"
  by (simp add: content_ok_def empty_content_def bt_get_def)

lemma load_version_versions: "ct_versions ct' = ct_versions ct \<Longrightarrow> load_version fx n ct' = load_version fx n ct"
  by (simp add: load_version_def)

lemma content_ok_versions: "content_ok fx ct \<Longrightarrow> ct_versions ct' = ct_versions ct \<Longrightarrow> content_ok fx ct'"
proof -
  assume "content_ok fx ct" and vs: "ct_versions ct' = ct_versions ct"
  moreover have "load_version fx n ct' = load_version fx n ct" for n by (rule load_version_versions [OF vs])
  ultimately show "content_ok fx ct'" unfolding content_ok_def by (simp only:) blast
qed

lemma set_bt_insert: "set (bt_insert k v m) \<subseteq> insert (k, v) (set m)"
  by (induction k v m rule: bt_insert.induct) auto

lemma collect_entries:
  assumes "each_with (collect_one fx f expected v) xs found d = (Inr es, d')" and "\<forall>x \<in> set found. entry_error fx x = None"
  shows "\<forall>x \<in> set es. entry_error fx x = None"
  using assms
proof (induction xs arbitrary: found d)
  case (Cons x xs)
  obtain n node where x: "x = (n, node)" by (cases x)
  from Cons.prems(1) obtain found1 d1 where one: "collect_one fx f expected v (n, node) found d = (Inr found1, d1)"
    and rest: "each_with (collect_one fx f expected v) xs found1 d1 = (Inr es, d')"
    by (auto simp: x step_ok)
  have "\<forall>x \<in> set found1. entry_error fx x = None"
  proof (cases "is_excluded fx f n \<or> in_data f n")
    case False
    then obtain e where "relative fx n = None" "collect_node fx f expected v n node d = (Inr e, d1)"
      and found1: "found1 = (case e of Some e \<Rightarrow> bt_insert n e found | None \<Rightarrow> found)"
      using one by (auto simp: collect_one_def step_ok)
    then have "\<forall>y. e = Some y \<longrightarrow> entry_error fx (n, y) = None" using collect_node_ok by (simp add: stored_entry_def)
    then show ?thesis using Cons.prems(2) set_bt_insert by (fastforce simp: found1 split: option.splits)
  qed (use one Cons.prems(2) in \<open>auto simp: collect_one_def step_ok\<close>)
  with Cons.IH [OF rest] show ?case by blast
qed (simp add: step_ok)

lemma save_version_ok:
  assumes ok: "content_ok fx (dk_content d)" and save: "save_version fx ident v d = (Inr u, d')"
    and above: "\<forall>p \<in> set (vr_parents v). bt_contains (ct_versions (dk_content d)) p" and entries: "\<forall>x \<in> set (vr_entries v). entry_error fx x = None"
  shows "content_ok fx (dk_content d')"
proof -
  let ?v = "v\<lparr>vr_checksum := Some (checksum_of fx v)\<rparr>" and ?vs = "ct_versions (dk_content d)"
  from save have ident: "version_id fx ident" "\<not> bt_contains ?vs ident" and d': "d' = insert_version ident ?v d"
    by (auto simp: save_version_def put_ok split: if_splits)
  have vs: "ct_versions (dk_content d') = bt_insert ident ?v ?vs" by (simp add: d' insert_version_def)
  from ok obtain rank :: "string \<Rightarrow> nat" where loads: "\<And>n x. bt_get ?vs n = Some x \<Longrightarrow> load_version fx n (dk_content d) = Inr x"
    and dangling: "\<And>n x p. bt_get ?vs n = Some x \<Longrightarrow> p \<in> set (vr_parents x) \<Longrightarrow> bt_contains ?vs p"
    and rank: "\<And>n x p. bt_get ?vs n = Some x \<Longrightarrow> p \<in> set (vr_parents x) \<Longrightarrow> rank p < rank n"
    unfolding content_ok_def by blast
  have old: "n \<noteq> ident" if "bt_contains ?vs n" for n using that ident by blast
  have "load_version fx n (dk_content d') = Inr x" if "bt_get (ct_versions (dk_content d')) n = Some x" for n x
  proof (cases "n = ident")
    case True
    then have "x = ?v" using that by (simp add: vs btree_simps)
    moreover have "checksum_of fx ?v = checksum_of fx v" by (simp add: checksum_of_def)
    moreover have "first_error (map (entry_error fx) (vr_entries ?v)) = None" using entries by (simp add: first_error_None)
    ultimately show ?thesis using True ident by (simp add: load_version_def vs btree_simps)
  next
    case False
    then have "load_version fx n (dk_content d') = load_version fx n (dk_content d)" by (simp add: load_version_def vs btree_simps)
    then show ?thesis using False loads [of n x] that by (simp add: vs btree_simps)
  qed
  moreover have "bt_contains (ct_versions (dk_content d')) p" if "bt_get (ct_versions (dk_content d')) n = Some x" "p \<in> set (vr_parents x)" for n x p
    using that dangling [of n x p] above by (auto simp: vs btree_simps bt_contains_def split: if_splits)
  moreover have "\<exists>rank :: string \<Rightarrow> nat. \<forall>n x. bt_get (ct_versions (dk_content d')) n = Some x \<longrightarrow> (\<forall>p \<in> set (vr_parents x). rank p < rank n)"
  proof (intro exI allI impI ballI)
    fix n x p
    assume n: "bt_get (ct_versions (dk_content d')) n = Some x" and p: "p \<in> set (vr_parents x)"
    show "(rank(ident := Suc (sum_list (map rank (vr_parents v))))) p < (rank(ident := Suc (sum_list (map rank (vr_parents v))))) n"
    proof (cases "n = ident")
      case True
      then have "p \<in> set (vr_parents v)" using n p by (auto simp: vs btree_simps)
      then have "rank p \<le> sum_list (map rank (vr_parents v))" "p \<noteq> ident" using above old by (auto intro: member_le_sum_list)
      then show ?thesis using True by simp
    next
      case False
      then have "bt_get ?vs n = Some x" using n by (simp add: vs btree_simps)
      then show ?thesis using False rank p dangling old by simp
    qed
  qed
  ultimately show ?thesis unfolding content_ok_def by blast
qed

lemma save_version_fails: "save_version fx ident v d = (Inl e, d') \<Longrightarrow> d' = d"
  by (auto simp: save_version_def put_def split: sum.splits)

lemma saved_keeps:
  assumes "content_ok fx (dk_content d)" and "\<forall>p \<in> set (vr_parents v). bt_contains (ct_versions (dk_content d)) p"
    and "\<forall>x \<in> set (vr_entries v). entry_error fx x = None"
  shows "content_ok fx (dk_content (snd (save_version fx ident v d)))"
proof (cases "save_version fx ident v d")
  case (Pair r d')
  show ?thesis
  proof (cases r)
    case (Inl e)
    then have "d' = d" using save_version_fails Pair by blast
    then show ?thesis using assms(1) Pair by simp
  next
    case (Inr u)
    then show ?thesis using save_version_ok [OF assms(1) _ assms(2,3)] Pair by simp
  qed
qed

lemma load_version_contained: "load_version fx n ct = Inr v \<Longrightarrow> bt_get (ct_versions ct) n = Some v"
  by (auto simp: load_version_def split: if_splits option.splits)

lemma capture_keeps_ok:
  assumes "content_ok fx (dk_content d)"
  shows "content_ok fx (dk_content (snd (capture_files fx f ident head ps d)))"
proof -
  let ?check = "each_with (\<lambda>p _. attempt (load_files fx p) (\<lambda>_. give ())) ps ()"
  have "reads ?check" by (intro step_rules) (simp add: load_files_def step_rules)
  then obtain r where check: "?check d = (r, d)" by (metis reads_def surjective_pairing)
  show ?thesis
  proof (cases r)
    case (Inl e)
    then show ?thesis using assms check by (simp add: capture_files_def and_then_def attempt_def)
  next
    case (Inr u)
    have above: "\<forall>p \<in> set ps. bt_contains (ct_versions (dk_content d)) p"
      if "each_with (\<lambda>p _. attempt (load_files fx p) (\<lambda>_. give ())) ps u d = (Inr u', d')" for ps u u' d'
      using that by (induction ps arbitrary: u) (auto simp: step_ok load_files_def bt_contains_def dest!: load_version_contained)
    obtain q d1 where collect: "collect_scopes fx f None d = (q, d1)" by (cases "collect_scopes fx f None d")
    have vs: "ct_versions (dk_content d1) = ct_versions (dk_content d)"
      using unversioned.collect collect unfolding kept_by_def by (metis snd_conv)
    show ?thesis
    proof (cases q)
      case (Inl e)
      then show ?thesis using assms check collect Inr content_ok_versions [OF assms vs] by (simp add: capture_files_def and_then_def attempt_def)
    next
      case q: (Inr es)
      have "\<forall>x \<in> set es. entry_error fx x = None"
        using collect collect_entries unfolding collect_scopes_def by (fastforce simp: q step_ok)
      with saved_keeps [OF content_ok_versions [OF assms vs], of "\<lparr>vr_head = head, vr_parents = ps, vr_entries = es, vr_checksum = None\<rparr>"]
      have "content_ok fx (dk_content (snd (save_version fx ident \<lparr>vr_head = head, vr_parents = ps, vr_entries = es, vr_checksum = None\<rparr> d1)))"
        using above [OF check [unfolded Inr]] vs by simp
      then show ?thesis using check collect Inr q by (simp add: capture_files_def and_then_def attempt_def)
    qed
  qed
qed

lemma files_reach_ok: "files_reach fx d d' \<Longrightarrow> content_ok fx (dk_content d) \<Longrightarrow> content_ok fx (dk_content d')"
proof (induction rule: files_reach.induct)
  case (files_empty d d1 ident)
  then show ?case unfolding capture_empty_def by (intro saved_keeps) simp_all
next
  case (files_restore d d1 f versions previous reuse)
  then show ?case using content_ok_versions unversioned.restore unfolding kept_by_def by blast
next
  case (files_verify d d1 f ident head)
  then show ?case using content_ok_versions unversioned.verify unfolding kept_by_def by blast
qed (simp_all add: capture_keeps_ok)

section \<open>Ancestry\<close>

definition parent_of :: "content \<Rightarrow> string \<Rightarrow> string \<Rightarrow> bool" where
  "parent_of ct n p \<longleftrightarrow> (\<exists>v. bt_get (ct_versions ct) n = Some v \<and> p \<in> set (vr_parents v))"

abbreviation descends :: "content \<Rightarrow> string \<Rightarrow> string \<Rightarrow> bool" where
  "descends ct \<equiv> (parent_of ct)\<^sup>*\<^sup>*"

lemma content_rank:
  assumes "content_ok fx ct"
  obtains rank :: "string \<Rightarrow> nat" where "\<And>n p. parent_of ct n p \<Longrightarrow> rank p < rank n"
    and "\<And>n p. descends ct n p \<Longrightarrow> p = n \<or> rank p < rank n"
proof -
  from assms obtain rank :: "string \<Rightarrow> nat" where rank: "parent_of ct n p \<Longrightarrow> rank p < rank n" for n p
    unfolding content_ok_def parent_of_def by blast
  have "p = n \<or> rank p < rank n" if "descends ct n p" for n p
    using that by (induction rule: rtranclp_induct) (auto dest: rank)
  with rank that show ?thesis by blast
qed

lemma parent_contained: "content_ok fx ct \<Longrightarrow> parent_of ct n p \<Longrightarrow> bt_contains (ct_versions ct) p"
  unfolding content_ok_def parent_of_def by blast

lemma loaded_parents: "load_version fx n ct = Inr v \<Longrightarrow> parent_of ct n p \<longleftrightarrow> p \<in> set (vr_parents v)"
  by (auto simp: parent_of_def dest: load_version_contained)

lemma ancestors_from_sound:
  assumes "ancestors_from fx ct found pending = Inr result"
    and "\<forall>x \<in> set found. \<forall>p. parent_of ct x p \<longrightarrow> p \<in> set found \<union> set pending"
  shows "set found \<union> set pending \<subseteq> set result \<and> (\<forall>x \<in> set result. \<forall>p. parent_of ct x p \<longrightarrow> p \<in> set result)
    \<and> (\<forall>y \<in> set result. y \<in> set found \<or> (\<exists>x \<in> set pending. descends ct x y))"
  using assms
proof (induction fx ct found pending rule: ancestors_from.induct)
  case (1 fx ct found pending)
  show ?case
  proof (cases pending)
    case Nil
    then show ?thesis using 1(3,4) by (simp add: ancestors_from.simps)
  next
    case (Cons top rest)
    show ?thesis
    proof (cases "top \<in> set found")
      case True
      then have "ancestors_from fx ct found rest = Inr result" using 1(3) Cons by (simp add: ancestors_from.simps [of _ _ _ "top # rest"])
      moreover have "\<forall>x \<in> set found. \<forall>p. parent_of ct x p \<longrightarrow> p \<in> set found \<union> set rest" using 1(4) Cons True by auto
      ultimately show ?thesis using 1(1) [OF Cons True] Cons True by auto
    next
      case False
      then obtain v where limit: "\<not> 10000 < int (length (bs_insert top found))" and v: "load_version fx top ct = Inr v"
        and rec: "ancestors_from fx ct (bs_insert top found) (rev (vr_parents v) @ rest) = Inr result"
        using 1(3) Cons by (auto simp: ancestors_from.simps [of _ _ _ "top # rest"] split: if_splits sum.splits)
      have "\<forall>x \<in> set (bs_insert top found). \<forall>p. parent_of ct x p \<longrightarrow> p \<in> set (bs_insert top found) \<union> set (rev (vr_parents v) @ rest)"
        using 1(4) Cons loaded_parents [OF v] by auto
      note ih = 1(2) [OF Cons False limit v rec this]
      have "y \<in> set found \<or> (\<exists>x \<in> set pending. descends ct x y)" if y: "y \<in> set result" for y
      proof -
        have "y = top \<or> y \<in> set found \<or> (\<exists>x \<in> set (vr_parents v). descends ct x y) \<or> (\<exists>x \<in> set rest. descends ct x y)"
          using ih y by auto
        moreover have "descends ct top y" if "x \<in> set (vr_parents v)" "descends ct x y" for x
          using that loaded_parents [OF v] by (metis converse_rtranclp_into_rtranclp)
        ultimately show ?thesis by (auto simp: Cons)
      qed
      then show ?thesis using ih by (simp add: Cons)
    qed
  qed
qed

lemma ancestors_from_total:
  assumes "content_ok fx ct" and "length (ct_versions ct) \<le> 10000"
    and "distinct found" and "set found \<subseteq> set (bt_keys (ct_versions ct))" and "set pending \<subseteq> set (bt_keys (ct_versions ct))"
  shows "\<exists>result. ancestors_from fx ct found pending = Inr result"
  using assms
proof (induction fx ct found pending rule: ancestors_from.induct)
  case (1 fx ct found pending)
  show ?case
  proof (cases pending)
    case Nil
    then show ?thesis by (simp add: ancestors_from.simps)
  next
    case (Cons top rest)
    show ?thesis
    proof (cases "top \<in> set found")
      case True
      then have "\<exists>result. ancestors_from fx ct found rest = Inr result" using 1(1) [OF Cons True] 1(3-7) Cons by simp
      then show ?thesis using True Cons by (simp add: ancestors_from.simps [of _ _ _ "top # rest"])
    next
      case False
      let ?found = "bs_insert top found"
      have found: "distinct ?found" "set ?found \<subseteq> set (bt_keys (ct_versions ct))"
        using 1(5-7) Cons by (auto simp: bs_insert_def distinct_insort_insert set_insort_insert)
      then have "length ?found \<le> card (set (bt_keys (ct_versions ct)))" by (metis card_mono distinct_card finite_set)
      also have "\<dots> \<le> length (ct_versions ct)" by (metis bt_keys_def card_length length_map)
      finally have limit: "\<not> 10000 < int (length ?found)" using 1(4) by linarith
      from 1(7) Cons obtain v where v: "bt_get (ct_versions ct) top = Some v"
        using bt.set_keys [of "ct_versions ct"] by auto
      then have load: "load_version fx top ct = Inr v" and "\<forall>p \<in> set (vr_parents v). bt_contains (ct_versions ct) p"
        using 1(3) by (auto simp: content_ok_def)
      then have "set (rev (vr_parents v) @ rest) \<subseteq> set (bt_keys (ct_versions ct))" using 1(7) Cons by (auto simp: bt_contains_keys)
      from 1(2) [OF Cons False limit load 1(3,4) found this] limit load False show ?thesis
        by (simp add: Cons ancestors_from.simps [of _ _ _ "top # rest"])
    qed
  qed
qed

lemma ancestors_sound: "ancestors fx n ct = Inr found \<Longrightarrow> set found = {a. descends ct n a}"
proof -
  assume "ancestors fx n ct = Inr found"
  from ancestors_from_sound [OF this [unfolded ancestors_def]]
  have n: "n \<in> set found" and closed: "\<And>x p. x \<in> set found \<Longrightarrow> parent_of ct x p \<Longrightarrow> p \<in> set found"
    and only: "\<And>y. y \<in> set found \<Longrightarrow> descends ct n y" by auto
  have "a \<in> set found" if "descends ct n a" for a using that by (induction rule: rtranclp_induct) (auto intro: n closed)
  with only show ?thesis by blast
qed

text \<open>C40: In every store that captures and restorations built, the ancestry of a version is computed without failing and
  is exactly what its recorded parents lead to, all of it stored, and no version is its own ancestor.  The bound on
  the number of versions is the one the code has on an ancestry.\<close>

theorem ancestry_exact:
  assumes "files_reach fx \<lparr>dk_view = v, dk_content = empty_content\<rparr> d" and "bt_contains (ct_versions (dk_content d)) n"
    and "length (ct_versions (dk_content d)) \<le> 10000"
  shows "\<exists>found. ancestors fx n (dk_content d) = Inr found \<and> set found = {a. descends (dk_content d) n a}
    \<and> (\<forall>a \<in> set found. bt_contains (ct_versions (dk_content d)) a) \<and> \<not> (parent_of (dk_content d))\<^sup>+\<^sup>+ n n"
proof -
  let ?ct = "dk_content d"
  have ok: "content_ok fx ?ct" using files_reach_ok [OF assms(1)] content_ok_empty by simp
  then obtain found where found: "ancestors fx n ?ct = Inr found"
  proof -
    have "set [n] \<subseteq> set (bt_keys (ct_versions ?ct))" using assms(2) by (simp add: bt_contains_keys)
    from ancestors_from_total [OF ok assms(3) _ _ this, of "[]"] that show ?thesis by (auto simp: ancestors_def)
  qed
  obtain rank :: "string \<Rightarrow> nat" where rank: "\<And>n p. parent_of ?ct n p \<Longrightarrow> rank p < rank n"
    and "\<And>n p. descends ?ct n p \<Longrightarrow> p = n \<or> rank p < rank n" by (rule content_rank [OF ok]) blast
  have "bt_contains (ct_versions ?ct) a" if "descends ?ct n a" for a
    using that
  proof (cases rule: rtranclp.cases)
    case (rtrancl_into_rtrancl b)
    then show ?thesis using parent_contained [OF ok] by simp
  qed (use assms(2) in simp)
  moreover have "rank b < rank a" if "(parent_of ?ct)\<^sup>+\<^sup>+ a b" for a b
    using that by (induction rule: tranclp_induct) (use rank less_trans in blast)+
  ultimately show ?thesis using found ancestors_sound [OF found] by blast
qed

section \<open>Composition\<close>

lemma bind_ok_Inr: "bind_ok r f = Inr y \<longleftrightarrow> (\<exists>x. r = Inr x \<and> f x = Inr y)"
  by (cases r) (auto simp: bind_ok_def)

lemma each_ok_Inr: "each_ok f xs = Inr ys \<Longrightarrow> list_all2 (\<lambda>x y. f x = Inr y) xs ys"
  by (induction xs arbitrary: ys) (auto simp: bind_ok_Inr map_result_Inr)

lemma merge_path_ok:
  assumes "merge_path base inputs p = Inr e"
  shows "(\<forall>x \<in> set inputs. bt_get x p \<noteq> bt_get base p \<longrightarrow> e = bt_get x p)
    \<and> ((\<forall>x \<in> set inputs. bt_get x p = bt_get base p) \<longrightarrow> e = bt_get base p)"
proof (cases "filter (\<lambda>x. x \<noteq> bt_get base p) (map (\<lambda>es. bt_get es p) inputs)")
  case Nil
  then show ?thesis using assms by (auto simp: merge_path_def filter_empty_conv)
next
  case (Cons c cs)
  then have "e = c" and same: "\<forall>d \<in> set (c # cs). d = c" using assms by (auto simp: merge_path_def split: if_splits)
  moreover have "set (c # cs) = {y \<in> (\<lambda>es. bt_get es p) ` set inputs. y \<noteq> bt_get base p}" by (simp flip: Cons)
  ultimately show ?thesis by auto
qed

lemma merge_paths_ok:
  assumes "merge_paths base inputs ps merged = Inr es" and "distinct ps" and "\<forall>p \<in> set ps. bt_get merged p = None"
  shows "\<forall>p. if p \<in> set ps then merge_path base inputs p = Inr (bt_get es p) else bt_get es p = bt_get merged p"
  using assms
proof (induction ps arbitrary: merged)
  case (Cons q ps)
  then obtain e where e: "merge_path base inputs q = Inr e"
    and rest: "merge_paths base inputs ps (case e of Some e \<Rightarrow> bt_insert q e merged | None \<Rightarrow> merged) = Inr es"
    by (auto simp: bind_ok_Inr)
  have get: "bt_get (case e of Some e \<Rightarrow> bt_insert q e merged | None \<Rightarrow> merged) p = (if p = q then e else bt_get merged p)" for p
    using Cons.prems(3) by (auto simp: btree_simps split: option.splits)
  have "\<forall>p \<in> set ps. bt_get (case e of Some e \<Rightarrow> bt_insert q e merged | None \<Rightarrow> merged) p = None"
    using Cons.prems(2,3) by (auto simp: get)
  from Cons.IH [OF rest _ this] Cons.prems(2) show ?case by (auto simp: get e)
qed simp

lemma bt_get_None:
  fixes m :: "('k::linorder, 'v) btree_map"
  shows "bt_get m p = None \<longleftrightarrow> p \<notin> set (bt_keys m)"
  using bt.set_keys [of m] by auto

lemma merge_entries_ok:
  assumes "merge_entries base inputs = Inr es"
  shows "merge_path base inputs p = Inr (bt_get es p)"
proof -
  let ?ps = "bs_of_list (bt_keys base @ concat (map bt_keys inputs))"
  from assms have "merge_paths base inputs ?ps [] = Inr es"
    by (auto simp: merge_entries_def bind_ok_Inr split: option.splits)
  then have "\<forall>p. if p \<in> set ?ps then merge_path base inputs p = Inr (bt_get es p) else bt_get es p = bt_get [] p"
    by (rule merge_paths_ok) (simp_all add: bt_get_def)
  then have get: "if p \<in> set ?ps then merge_path base inputs p = Inr (bt_get es p) else bt_get es p = bt_get [] p" by (rule spec)
  show ?thesis
  proof (cases "p \<in> set ?ps")
    case False
    then have "bt_get base p = None" and "\<forall>x \<in> set inputs. bt_get x p = None"
      using False by (simp_all add: bt_get_None)
    then have "merge_path base inputs p = Inr None" by (simp add: merge_path_def Let_def filter_empty_conv split: list.split)
    then show ?thesis using False get by (simp add: bt_get_def)
  qed (use get in simp)
qed

text \<open>In a finite set without cycles, everything is below something that nothing else is above.\<close>

lemma above_maximal:
  fixes rank :: "string \<Rightarrow> nat"
  assumes rank: "\<And>n p. descends ct n p \<Longrightarrow> p = n \<or> rank p < rank n" and "finite A" and "a \<in> A"
  shows "\<exists>b \<in> A. descends ct b a \<and> (\<forall>c \<in> A. descends ct c b \<longrightarrow> c = b)"
proof -
  let ?B = "{b \<in> A. descends ct b a}"
  have B: "finite ?B" "a \<in> ?B" using assms(2,3) by simp_all
  then have "Max (rank ` ?B) \<in> rank ` ?B" by (intro Max_in) auto
  then obtain b where b: "b \<in> ?B" "rank b = Max (rank ` ?B)" by auto
  have "c = b" if "c \<in> A" "descends ct c b" for c
  proof (rule ccontr)
    assume "c \<noteq> b"
    then have "rank b < rank c" using rank [OF that(2)] by blast
    moreover have "c \<in> ?B" using that b by auto
    then have "rank c \<le> rank b" unfolding b(2) using B(1) by (intro Max_ge) auto
    ultimately show False by simp
  qed
  then show ?thesis using b(1) by blast
qed

lemma common_ancestors_set: "founds \<noteq> [] \<Longrightarrow> set (common_ancestors founds) = {a. \<forall>found \<in> set founds. a \<in> set found}"
proof (cases founds)
  case (Cons x xs)
  have "set (fold (\<lambda>b c. filter (\<lambda>x. x \<in> set b) c) xs x) = {a \<in> set x. \<forall>found \<in> set xs. a \<in> set found}" for xs and x :: "string list"
    by (induction xs arbitrary: x) auto
  then show ?thesis by (auto simp: Cons common_ancestors_def)
qed simp

text \<open>The last common ancestor of some versions, if they have a common one.\<close>

definition last_common :: "content \<Rightarrow> string list \<Rightarrow> string option \<Rightarrow> bool" where
  "last_common ct inputs b \<longleftrightarrow> (case b of
     Some b \<Rightarrow> (\<forall>i \<in> set inputs. descends ct i b) \<and> (\<forall>a. (\<forall>i \<in> set inputs. descends ct i a) \<longrightarrow> descends ct b a)
   | None \<Rightarrow> \<not> (\<exists>a. \<forall>i \<in> set inputs. descends ct i a))"

lemma merge_bases_ok:
  fixes rank :: "string \<Rightarrow> nat"
  assumes bases: "merge_bases fx ct common = Inr bases" and few: "length bases \<le> 1"
    and common: "set common = {a. \<forall>i \<in> set inputs. descends ct i a}"
    and rank: "\<And>n p. descends ct n p \<Longrightarrow> p = n \<or> rank p < rank n"
  shows "last_common ct inputs (case bases of b # _ \<Rightarrow> Some b | [] \<Rightarrow> None)"
proof -
  from bases obtain founds where founds: "list_all2 (\<lambda>v found. ancestors fx v ct = Inr found) common founds"
    and b: "bases = filter (\<lambda>b. \<not> (\<exists>(v, found) \<in> set (zip common founds). b \<noteq> v \<and> b \<in> set found)) common"
    using each_ok_Inr by (auto simp: merge_bases_def map_result_Inr)
  have pair: "ancestors fx v ct = Inr found" if "(v, found) \<in> set (zip common founds)" for v found
    using founds that by (auto simp: list_all2_iff)
  have maximal: "b \<in> set bases" if "b \<in> set common" "\<forall>c \<in> set common. descends ct c b \<longrightarrow> c = b" for b
  proof -
    have "v = b" if "(v, found) \<in> set (zip common founds)" "b \<in> set found" for v found
      using \<open>\<forall>c \<in> set common. _ c\<close> set_zip_leftD [OF that(1)] ancestors_sound [OF pair [OF that(1)]] that(2) by simp
    then show ?thesis using that(1) by (auto simp: b)
  qed
  have above: "\<exists>b \<in> set bases. descends ct b a" if "a \<in> set common" for a
    using above_maximal [OF rank finite_set that] maximal by blast
  show ?thesis
  proof (cases bases)
    case Nil
    then have "set common = {}" using above by fastforce
    then show ?thesis using common by (simp add: Nil last_common_def)
  next
    case (Cons x xs)
    then have "bases = [x]" using few by simp
    moreover have "set bases \<subseteq> set common" by (auto simp: b)
    ultimately have "x \<in> set common" and "\<forall>a \<in> set common. descends ct x a" using above by simp_all
    then show ?thesis using common by (simp add: Cons last_common_def)
  qed
qed

lemma independents_ok:
  fixes rank :: "string \<Rightarrow> nat"
  assumes rank: "\<And>n p. descends ct n p \<Longrightarrow> p = n \<or> rank p < rank n"
    and table: "\<And>v found. (v, found) \<in> set table \<Longrightarrow> set found = {a. descends ct v a}" and v: "v \<in> fst ` set table"
  shows "\<exists>i \<in> fst ` set (independents table). descends ct i v"
proof -
  have "finite (fst ` set table)" by simp
  from above_maximal [OF rank this v] obtain i where i: "i \<in> fst ` set table" "descends ct i v"
    and top: "\<forall>c \<in> fst ` set table. descends ct c i \<longrightarrow> c = i" by blast
  from i obtain found where "(i, found) \<in> set table" by force
  moreover have "other = i" if "(other, f) \<in> set table" "i \<in> set f" for other f
    using that table [OF that(1)] top by force
  ultimately have "(i, found) \<in> set (independents table)" by (auto simp: independents_def)
  then have "i \<in> fst ` set (independents table)" by force
  then show ?thesis using i(2) by blast
qed

lemma compose_cases:
  assumes "compose fx versions ct = Inr es"
  obtains (single) founds i found where "list_all2 (\<lambda>v found. ancestors fx v ct = Inr found) (bs_of_list versions) founds"
      "independents (zip (bs_of_list versions) founds) = [(i, found)]" "load_entries fx ct i = Inr es"
    | (merged) founds bases base inputs where "list_all2 (\<lambda>v found. ancestors fx v ct = Inr found) (bs_of_list versions) founds"
      "merge_bases fx ct (common_ancestors (map snd (independents (zip (bs_of_list versions) founds)))) = Inr bases" "length bases \<le> 1"
      "(case bases of b # _ \<Rightarrow> load_entries fx ct b | [] \<Rightarrow> Inr []) = Inr base"
      "each_ok (\<lambda>(v, _). load_entries fx ct v) (independents (zip (bs_of_list versions) founds)) = Inr inputs" "merge_entries base inputs = Inr es"
proof -
  let ?vs = "bs_of_list versions"
  let ?merge = "\<lambda>ind. bind_ok (merge_bases fx ct (common_ancestors (map snd ind))) (\<lambda>bases.
             if 1 < length bases then Inl ''Managed environment scope composition blocked: ambiguous merge base''
             else bind_ok (case bases of b # _ \<Rightarrow> load_entries fx ct b | [] \<Rightarrow> Inr []) (\<lambda>base.
               bind_ok (each_ok (\<lambda>(v, _). load_entries fx ct v) ind) (merge_entries base)))"
  from assms obtain founds where founds: "list_all2 (\<lambda>v found. ancestors fx v ct = Inr found) ?vs founds"
    and rest: "(case independents (zip ?vs founds) of [(v, _)] \<Rightarrow> load_entries fx ct v | ind \<Rightarrow> ?merge ind) = Inr es"
    using each_ok_Inr unfolding compose_def Let_def bind_ok_Inr by blast
  show ?thesis
  proof (cases "\<exists>i found. independents (zip ?vs founds) = [(i, found)]")
    case True
    then obtain i found where "independents (zip ?vs founds) = [(i, found)]" by blast
    then show ?thesis using single [OF founds] rest by simp
  next
    case False
    have "?merge (independents (zip ?vs founds)) = Inr es"
    proof (cases "independents (zip ?vs founds)")
      case Nil
      then show ?thesis using rest unfolding Nil by simp
    next
      case (Cons y ys)
      then obtain i f z zs where ind: "independents (zip ?vs founds) = (i, f) # z # zs" using False by (cases y; cases ys) auto
      show ?thesis using rest unfolding ind by simp
    qed
    then show ?thesis using merged [OF founds] by (auto simp: bind_ok_Inr not_less split: if_splits)
  qed
qed

lemma merged_inputs:
  assumes inputs: "each_ok (\<lambda>(v, _). load_entries fx ct v) ind = Inr inputs" and merged: "merge_entries base inputs = Inr es"
  shows "(\<forall>i \<in> set (map fst ind). \<exists>x. load_entries fx ct i = Inr x \<and> (\<forall>p. bt_get x p \<noteq> bt_get base p \<longrightarrow> bt_get es p = bt_get x p))
    \<and> (\<forall>p. (\<forall>i \<in> set (map fst ind). map_result (\<lambda>x. bt_get x p) (load_entries fx ct i) = Inr (bt_get base p))
          \<longrightarrow> bt_get es p = bt_get base p)"
proof -
  have each: "list_all2 (\<lambda>i x. load_entries fx ct (fst i) = Inr x) ind inputs"
    using each_ok_Inr [OF inputs] by (simp add: case_prod_beta)
  have forth: "\<exists>x \<in> set inputs. load_entries fx ct i = Inr x" if "i \<in> set (map fst ind)" for i
    using that each by (fastforce simp: list_all2_conv_all_nth in_set_conv_nth)
  have member: "\<exists>i \<in> set (map fst ind). load_entries fx ct i = Inr x" if "x \<in> set inputs" for x
    using that each by (fastforce simp: list_all2_conv_all_nth in_set_conv_nth)
  note taken = merge_path_ok [OF merge_entries_ok [OF merged]]
  have "bt_get es p = bt_get base p"
    if "\<forall>i \<in> set (map fst ind). map_result (\<lambda>x. bt_get x p) (load_entries fx ct i) = Inr (bt_get base p)" for p
  proof -
    have "bt_get x p = bt_get base p" if "x \<in> set inputs" for x
      using member [OF that] \<open>\<forall>i \<in> set (map fst ind). _ i\<close> by (auto simp: map_result_def)
    then show ?thesis using taken by blast
  qed
  then show ?thesis using forth taken by blast
qed

text \<open>C39: A composition is a three-way merge that loses no change.  It works on inputs among the given versions that
  together descend from all of them, against their last common ancestor (or nothing, if they have none in common): whatever an
  input changed is in the result, and what no input changed is as it was.\<close>

theorem composition_keeps_changes:
  assumes reach: "files_reach fx \<lparr>dk_view = v, dk_content = empty_content\<rparr> d" and some: "versions \<noteq> []"
    and composed: "compose fx versions (dk_content d) = Inr es"
  shows "\<exists>inputs b base. set inputs \<subseteq> set versions
     \<and> (\<forall>w \<in> set versions. \<exists>i \<in> set inputs. descends (dk_content d) i w)
     \<and> last_common (dk_content d) inputs b
     \<and> (case b of Some b \<Rightarrow> load_entries fx (dk_content d) b = Inr base | None \<Rightarrow> base = [])
     \<and> (\<forall>i \<in> set inputs. \<exists>x. load_entries fx (dk_content d) i = Inr x \<and> (\<forall>p. bt_get x p \<noteq> bt_get base p \<longrightarrow> bt_get es p = bt_get x p))
     \<and> (\<forall>p. (\<forall>i \<in> set inputs. map_result (\<lambda>x. bt_get x p) (load_entries fx (dk_content d) i) = Inr (bt_get base p))
          \<longrightarrow> bt_get es p = bt_get base p)"
proof -
  let ?ct = "dk_content d" and ?table = "\<lambda>founds. zip (bs_of_list versions) founds"
  have ok: "content_ok fx ?ct" using files_reach_ok [OF reach] content_ok_empty by simp
  obtain rank :: "string \<Rightarrow> nat" where "\<And>n p. parent_of ?ct n p \<Longrightarrow> rank p < rank n"
    and rank: "\<And>n p. descends ?ct n p \<Longrightarrow> p = n \<or> rank p < rank n" by (rule content_rank [OF ok]) blast
  have table: "set found = {a. descends ?ct v a}"
    if "list_all2 (\<lambda>v found. ancestors fx v ?ct = Inr found) (bs_of_list versions) founds" "(v, found) \<in> set (?table founds)" for founds v found
    using that ancestors_sound by (fastforce simp: list_all2_iff)
  have inputs: "set (map fst (independents (?table founds))) \<subseteq> set versions
      \<and> (\<forall>w \<in> set versions. \<exists>i \<in> set (map fst (independents (?table founds))). descends ?ct i w)"
    if founds: "list_all2 (\<lambda>v found. ancestors fx v ?ct = Inr found) (bs_of_list versions) founds" for founds
  proof -
    have "fst ` set (?table founds) = set versions"
      using list_all2_lengthD [OF founds] by (metis bs_of_list_set list.set_map map_fst_zip)
    then show ?thesis using independents_ok [OF rank table [OF founds]] by (auto simp: independents_def)
  qed
  from composed show ?thesis
  proof (cases rule: compose_cases)
    case (single founds i found)
    have "last_common ?ct [i] (Some i)" by (simp add: last_common_def)
    then show ?thesis
      by (intro exI [of _ "[i]"] exI [of _ "Some i"] exI [of _ es]) (use inputs [OF single(1)] single(3) in \<open>simp add: single(2)\<close>)
  next
    case (merged founds bases base xs)
    let ?ind = "independents (?table founds)"
    have "?ind \<noteq> []" using inputs [OF merged(1)] some by (metis empty_iff hd_in_set list.map(1) list.set(1))
    then have "set (common_ancestors (map snd ?ind)) = {a. \<forall>found \<in> set (map snd ?ind). a \<in> set found}"
      by (intro common_ancestors_set) simp
    also have "\<dots> = {a. \<forall>i \<in> set (map fst ?ind). descends ?ct i a}"
    proof (rule Collect_cong)
      fix a
      have "set (snd x) = {a. descends ?ct (fst x) a}" if "x \<in> set ?ind" for x
        using that table [OF merged(1), of "fst x" "snd x"] by (simp add: independents_def)
      then have "(\<forall>x \<in> set ?ind. a \<in> set (snd x)) \<longleftrightarrow> (\<forall>x \<in> set ?ind. descends ?ct (fst x) a)" by simp
      then show "(\<forall>found \<in> set (map snd ?ind). a \<in> set found) \<longleftrightarrow> (\<forall>i \<in> set (map fst ?ind). descends ?ct i a)" by simp
    qed
    finally have last: "last_common ?ct (map fst ?ind) (case bases of b # _ \<Rightarrow> Some b | [] \<Rightarrow> None)"
      by (rule merge_bases_ok [OF merged(2,3) _ rank])
    have "case (case bases of b # _ \<Rightarrow> Some b | [] \<Rightarrow> None) of Some b \<Rightarrow> load_entries fx ?ct b = Inr base | None \<Rightarrow> base = []"
      using merged(4) by (cases bases) auto
    then show ?thesis using inputs [OF merged(1)] last merged_inputs [OF merged(5,6)]
      by (intro exI [of _ "map fst ?ind"] exI [of _ "case bases of b # _ \<Rightarrow> Some b | [] \<Rightarrow> None"] exI [of _ base]) blast
  qed
qed

section \<open>A store with a fork\<close>

definition files_native :: native where
  "files_native = \<lparr>nt_platform = ''linux'', nt_arch = ''x86_64'', nt_workspaces = True, nt_lower = to_ascii_lowercase, nt_key = (\<lambda>p. p),
     nt_absolute = (\<lambda>p. starts_with p ''/''), nt_is_file = (\<lambda>_. True), nt_uuid = (\<lambda>_. True)\<rparr>"

definition sample_fx :: files_env where
  "sample_fx = \<lparr>fx_native = files_native, fx_fold = (\<lambda>n. n),
     fx_hash = (\<lambda>b. replicate 40 (if b = ''two'' then CHR ''b'' else CHR ''a'')), fx_sum_bytes = (\<lambda>_. ''manifest''),
     fx_resolve = (\<lambda>_ _. Some (Outside False)), fx_read = (\<lambda>_ _. None), fx_absolute = (\<lambda>n. ''/w/'' @ n), fx_tracked = (\<lambda>_. Inr []), fx_made = 493\<rparr>"

definition sample_files :: files where
  "sample_files = \<lparr>fl_scopes = [''.venv''], fl_caches = [''.venv/cache''], fl_project_index = False, fl_data = None\<rparr>"

definition venv :: "(string \<times> live) list \<Rightarrow> view" where
  "venv inside = (''.venv'', Live_Dir 493) # inside"

definition forked :: depot where
  "forked =
     (let d1 = snd (capture_files sample_fx sample_files ''v1'' [] [] \<lparr>dk_view = venv [(''.venv/a'', Live_File ''one'' 420 1)], dk_content = empty_content\<rparr>);
          d2 = snd (capture_files sample_fx sample_files ''v2'' [] [''v1''] (d1\<lparr>dk_view := venv [(''.venv/a'', Live_File ''two'' 420 1)]\<rparr>))
      in snd (capture_files sample_fx sample_files ''v3'' [] [''v1'']
           (d2\<lparr>dk_view := venv [(''.venv/a'', Live_File ''one'' 420 1), (''.venv/b'', Live_File ''two'' 493 1)]\<rparr>)))"

lemma forked_reach: "files_reach sample_fx \<lparr>dk_view = venv [(''.venv/a'', Live_File ''one'' 420 1)], dk_content = empty_content\<rparr> forked"
  unfolding forked_def Let_def by (intro files_capture files_work files_start)

lemma ancestry_exact_witness:
  "\<exists>found. ancestors sample_fx ''v2'' (dk_content forked) = Inr found \<and> set found = {a. descends (dk_content forked) ''v2'' a}"
proof -
  have "bt_contains (ct_versions (dk_content forked)) ''v2'' \<and> ct_versions (dk_content forked) \<noteq> [] \<and> tl (tl (tl (ct_versions (dk_content forked)))) = []"
    by code_simp
  then have "bt_contains (ct_versions (dk_content forked)) ''v2''" and "length (ct_versions (dk_content forked)) \<le> 10000"
    by (auto dest: arg_cong [of _ _ length])
  from ancestry_exact [OF forked_reach this] show ?thesis by blast
qed

lemma composition_keeps_changes_witness:
  "\<exists>es inputs b. compose sample_fx [''v2'', ''v3''] (dk_content forked) = Inr es \<and> set inputs \<subseteq> set [''v2'', ''v3'']
     \<and> last_common (dk_content forked) inputs b"
proof -
  have "case compose sample_fx [''v2'', ''v3''] (dk_content forked) of Inr es \<Rightarrow> True | Inl _ \<Rightarrow> False" by code_simp
  then obtain es where es: "compose sample_fx [''v2'', ''v3''] (dk_content forked) = Inr es" by (auto split: sum.splits)
  from composition_keeps_changes [OF forked_reach _ es] es show ?thesis by blast
qed

end
